(* ===== verification/Prelude.thy ===== *)
theory Prelude
  imports Main "HOL-Library.Word" "HOL-Library.Monad_Syntax"
begin

text \<open>
  Shared vocabulary of the development: the machine types of the C sources, the
  byte-addressed memory, the little-endian byte codecs the proxy uses on shared
  memory, and the index arithmetic of the ring queues.  Nothing here is specific
  to one component; the components use the collections \<open>ring_simps\<close>,
  \<open>mem_simps\<close> and \<open>codec_simps\<close>.
\<close>

unbundle bit_operations_syntax

named_theorems ring_simps "index arithmetic of the ring queues"
named_theorems mem_simps "reads and writes of byte memory"
named_theorems codec_simps "byte encodings and decodings"

type_synonym u8 = "8 word"
type_synonym u16 = "16 word"
type_synonym u32 = "32 word"
type_synonym u64 = "64 word"

type_synonym bytes = "u8 list"

text \<open>Byte memory, addressed by 64-bit addresses (address arithmetic wraps).\<close>

type_synonym mem = "u64 \<Rightarrow> u8"


text \<open>Return codes of the proxy (\<open>src/include/session.h\<close>).\<close>

definition BACKEND_PROXY_PROCESS_OK :: int where "BACKEND_PROXY_PROCESS_OK = 0"
definition BACKEND_PROXY_PROCESS_ERROR :: int where "BACKEND_PROXY_PROCESS_ERROR = -1"
definition BACKEND_PROXY_PROCESS_AGAIN :: int where "BACKEND_PROXY_PROCESS_AGAIN = 1"

lemmas proxy_codes = BACKEND_PROXY_PROCESS_OK_def BACKEND_PROXY_PROCESS_ERROR_def
  BACKEND_PROXY_PROCESS_AGAIN_def


section \<open>Byte access to memory\<close>

text \<open>\<open>p[i]\<close> for a byte pointer \<open>p\<close>.\<close>

definition byte_at :: "mem \<Rightarrow> u64 \<Rightarrow> nat \<Rightarrow> u8" where
  "byte_at m p i = m (p + of_nat i)"

text \<open>The first \<open>n\<close> bytes at \<open>p\<close>.\<close>

definition read_bytes :: "mem \<Rightarrow> u64 \<Rightarrow> nat \<Rightarrow> bytes" where
  "read_bytes m p n = map (byte_at m p) [0..<n]"

text \<open>The loop \<open>for (i = 0; i < n; i++) p[i] = s(i)\<close>.\<close>

primrec write_loop :: "mem \<Rightarrow> u64 \<Rightarrow> (nat \<Rightarrow> u8) \<Rightarrow> nat \<Rightarrow> mem" where
  "write_loop m p s 0 = m"
| "write_loop m p s (Suc n) = (write_loop m p s n)(p + of_nat n := s n)"

lemma length_read_bytes [simp]: "length (read_bytes m p n) = n"
  by (simp add: read_bytes_def)

lemma nth_read_bytes [simp]: "i < n \<Longrightarrow> read_bytes m p n ! i = byte_at m p i"
  by (simp add: read_bytes_def)

lemma take_read_bytes: "k \<le> n \<Longrightarrow> take k (read_bytes m p n) = read_bytes m p k"
  by (simp add: read_bytes_def take_map)

lemma read_bytes_cong:
  "(\<And>i. i < n \<Longrightarrow> byte_at m p i = byte_at m' p' i) \<Longrightarrow> read_bytes m p n = read_bytes m' p' n"
  by (simp add: read_bytes_def)

text \<open>A region of \<open>n\<close> bytes at \<open>p\<close> does not wrap around the address space.\<close>

definition fits :: "u64 \<Rightarrow> nat \<Rightarrow> bool" where
  "fits p n \<longleftrightarrow> unat p + n \<le> 2 ^ 64"

lemma unat_of_nat_u64: "n < 2 ^ 64 \<Longrightarrow> unat (of_nat n :: u64) = n"
  by (simp add: unat_of_nat take_bit_nat_eq_self)

lemma unat_add_of_nat:
  "unat (p::u64) + i < 2 ^ 64 \<Longrightarrow> unat (p + of_nat i) = unat p + i"
  by (subst unat_add_lem [THEN iffD1]) (simp_all add: unat_of_nat_u64)

lemma fits_unat: "fits p n \<Longrightarrow> i < n \<Longrightarrow> unat (p + of_nat i) = unat p + i"
  by (simp add: fits_def unat_add_of_nat)

lemma write_loop_outside:
  "(\<And>i. i < n \<Longrightarrow> a \<noteq> p + of_nat i) \<Longrightarrow> write_loop m p s n a = m a"
  by (induction n) auto

lemma write_loop_cong:
  "(\<And>i. i < n \<Longrightarrow> s i = s' i) \<Longrightarrow> write_loop m p s n = write_loop m p s' n"
  by (induction n) auto

lemma write_loop_inside:
  "fits p n \<Longrightarrow> i < n \<Longrightarrow> write_loop m p s n (p + of_nat i) = s i"
proof (induction n)
  case (Suc n)
  have "fits p n" using Suc.prems by (simp add: fits_def)
  show ?case
  proof (cases "i = n")
    case False
    then have "p + of_nat i \<noteq> p + (of_nat n :: u64)"
      using fits_unat [OF Suc.prems(1), of i] fits_unat [OF Suc.prems(1), of n] Suc.prems(2)
      by (metis add_left_cancel lessI)
    then show ?thesis using False Suc \<open>fits p n\<close> by simp
  qed simp
qed simp

lemma byte_at_write_loop [mem_simps]:
  "fits p n \<Longrightarrow> i < n \<Longrightarrow> byte_at (write_loop m p s n) p i = s i"
  by (simp add: byte_at_def write_loop_inside)

lemma byte_at_write_loop_past [mem_simps]:
  assumes "fits p k" "n \<le> i" "i < k"
  shows "byte_at (write_loop m p s n) p i = byte_at m p i"
  unfolding byte_at_def
proof (rule write_loop_outside)
  fix j assume "j < n"
  then show "p + of_nat i \<noteq> p + (of_nat j :: u64)"
    using assms fits_unat [of p k i] fits_unat [of p k j]
    by (metis add_left_cancel leD order.strict_trans1 order_less_trans)
qed

text \<open>Two regions are disjoint when one ends before the other begins.\<close>

definition disjoint_regions :: "u64 \<Rightarrow> nat \<Rightarrow> u64 \<Rightarrow> nat \<Rightarrow> bool" where
  "disjoint_regions p n q k \<longleftrightarrow> unat p + n \<le> unat q \<or> unat q + k \<le> unat p"

lemma byte_at_write_loop_disjoint [mem_simps]:
  assumes "fits p n" "fits q k" "disjoint_regions p n q k" "i < k"
  shows "byte_at (write_loop m p s n) q i = byte_at m q i"
  unfolding byte_at_def
proof (rule write_loop_outside)
  fix j assume "j < n"
  have "unat (q + of_nat i) = unat q + i" "unat (p + of_nat j) = unat p + j"
    using assms \<open>j < n\<close> by (auto intro: fits_unat)
  then show "q + of_nat i \<noteq> p + (of_nat j :: u64)"
    using assms(3,4) \<open>j < n\<close> by (auto simp: disjoint_regions_def)
qed

lemma read_bytes_write_loop_disjoint [mem_simps]:
  "fits p n \<Longrightarrow> fits q k \<Longrightarrow> disjoint_regions p n q k \<Longrightarrow>
   read_bytes (write_loop m p s n) q k = read_bytes m q k"
  by (rule read_bytes_cong) (simp add: byte_at_write_loop_disjoint)

lemma read_bytes_write_loop [mem_simps]:
  assumes "fits p k" "n \<le> k"
  shows "read_bytes (write_loop m p s n) p k = map s [0..<n] @ drop n (read_bytes m p k)"
proof (rule nth_equalityI)
  fix i assume "i < length (read_bytes (write_loop m p s n) p k)"
  then have "i < k" by simp
  moreover have "fits p n" using assms by (simp add: fits_def)
  ultimately show "read_bytes (write_loop m p s n) p k ! i
      = (map s [0..<n] @ drop n (read_bytes m p k)) ! i"
    using assms by (cases "i < n") (auto simp: nth_append byte_at_write_loop byte_at_write_loop_past)
qed (use assms in simp)


section \<open>Little-endian bytes of a word\<close>

text \<open>\<open>(w >> (i * 8)) & 0xFF\<close>, and the reading loop \<open>val |= b << (i * 8)\<close>.\<close>

definition byte_of :: "'a::len word \<Rightarrow> nat \<Rightarrow> u8" where
  "byte_of w i = ucast (drop_bit (8 * i) w)"

primrec read_le :: "(nat \<Rightarrow> u8) \<Rightarrow> nat \<Rightarrow> 'a::len word" where
  "read_le p 0 = 0"
| "read_le p (Suc n) = read_le p n OR push_bit (8 * n) (ucast (p n))"

lemma bit_read_le:
  "bit (read_le p n :: 'a::len word) k
     \<longleftrightarrow> k < LENGTH('a) \<and> k < 8 * n \<and> bit (p (k div 8)) (k mod 8)"
proof (induction n)
  case (Suc n)
  have *: "k div 8 = n \<and> k mod 8 = k - 8 * n" if "8 * n \<le> k" "k < 8 * n + 8"
  proof -
    from that have "k = 8 * n + (k - 8 * n)" "k - 8 * n < 8" by auto
    then show ?thesis
      using div_mult_self4 [of 8 n "k - 8 * n"] mod_mult_self4 [of 8 n "k - 8 * n"] by simp
  qed
  have "bit (p n) (k - 8 * n) \<Longrightarrow> k - 8 * n < 8"
    using bit_imp_le_length by fastforce
  then show ?case
    using Suc * by (auto simp: bit_or_iff bit_push_bit_iff bit_ucast_iff not_le)
qed simp

lemma bit_byte_of: "bit (byte_of w i) j \<longleftrightarrow> j < 8 \<and> bit w (8 * i + j)"
  by (auto simp: byte_of_def bit_ucast_iff bit_drop_bit_eq)

lemma read_le_byte_of [codec_simps]:
  assumes "LENGTH('a) \<le> 8 * n" "\<And>i. i < n \<Longrightarrow> p i = byte_of (w::'a::len word) i"
  shows "(read_le p n :: 'a word) = w"
proof (rule bit_word_eqI)
  fix k assume "k < LENGTH('a)"
  moreover from this assms(1) have "k div 8 < n" by linarith
  ultimately show "bit (read_le p n :: 'a word) k = bit w k"
    using assms by (simp add: bit_read_le bit_byte_of)
qed

lemma byte_of_read_le [codec_simps]:
  assumes "8 * (i + 1) \<le> LENGTH('a)" "i < n"
  shows "byte_of (read_le p n :: 'a::len word) i = p i"
proof (rule bit_word_eqI)
  fix j assume "j < LENGTH(8)"
  then have "j < 8" by simp
  moreover from this have "(8 * i + j) div 8 = i" "(8 * i + j) mod 8 = j" by auto
  ultimately show "bit (byte_of (read_le p n :: 'a word) i) j = bit (p i) j"
    using assms by (auto simp: bit_byte_of bit_read_le)
qed

lemma read_le_cong:
  "(\<And>i. i < n \<Longrightarrow> p i = q i) \<Longrightarrow> read_le p n = read_le q n"
  by (induction n) auto


section \<open>Ring indices\<close>

text \<open>
  The index arithmetic all the ring queues share: \<open>next\<close> of an index, number of
  stored elements between \<open>tail\<close> and \<open>header\<close>, and the slots in FIFO order.
\<close>

definition ring_next :: "nat \<Rightarrow> nat \<Rightarrow> nat" where
  "ring_next c i = (if i + 1 \<ge> c then i + 1 - c else i + 1)"

definition ring_len :: "nat \<Rightarrow> nat \<Rightarrow> nat \<Rightarrow> nat" where
  "ring_len c h t = (if h \<ge> t then h - t else c - t + h)"

definition ring_slots :: "nat \<Rightarrow> nat \<Rightarrow> nat \<Rightarrow> nat list" where
  "ring_slots c h t = map (\<lambda>i. (t + i) mod c) [0..<ring_len c h t]"

lemma ring_next_less [ring_simps]: "i < c \<Longrightarrow> ring_next c i < c"
  by (auto simp: ring_next_def)

lemma ring_next_mod: "i < c \<Longrightarrow> ring_next c i = (i + 1) mod c"
  by (auto simp: ring_next_def not_le le_Suc_eq)

lemma ring_len_less [ring_simps]: "h < c \<Longrightarrow> t < c \<Longrightarrow> ring_len c h t < c"
  by (auto simp: ring_len_def)

lemma ring_len_0_iff [ring_simps]: "h < c \<Longrightarrow> t < c \<Longrightarrow> ring_len c h t = 0 \<longleftrightarrow> t = h"
  by (auto simp: ring_len_def)

lemma ring_len_next_header [ring_simps]:
  "h < c \<Longrightarrow> t < c \<Longrightarrow> ring_next c h \<noteq> t \<Longrightarrow> ring_len c (ring_next c h) t = Suc (ring_len c h t)"
  by (auto simp: ring_len_def ring_next_def)

lemma ring_len_full_iff [ring_simps]:
  "h < c \<Longrightarrow> t < c \<Longrightarrow> ring_next c h = t \<longleftrightarrow> ring_len c h t = c - 1"
  by (auto simp: ring_len_def ring_next_def split: if_splits)

lemma ring_len_next_tail [ring_simps]:
  "h < c \<Longrightarrow> t < c \<Longrightarrow> t \<noteq> h \<Longrightarrow> ring_len c h t = Suc (ring_len c h (ring_next c t))"
  by (auto simp: ring_len_def ring_next_def)

lemma ring_last_slot: "h < c \<Longrightarrow> t < c \<Longrightarrow> (t + ring_len c h t) mod c = h"
  by (auto simp: ring_len_def)

lemma ring_slots_less [ring_simps]: "k \<in> set (ring_slots c h t) \<Longrightarrow> 0 < c \<Longrightarrow> k < c"
  by (auto simp: ring_slots_def)

lemma length_ring_slots [simp]: "length (ring_slots c h t) = ring_len c h t"
  by (simp add: ring_slots_def)

lemma ring_slots_next_header [ring_simps]:
  "h < c \<Longrightarrow> t < c \<Longrightarrow> ring_next c h \<noteq> t \<Longrightarrow>
   ring_slots c (ring_next c h) t = ring_slots c h t @ [h]"
  by (simp add: ring_slots_def ring_len_next_header ring_last_slot)

lemma ring_slots_next_tail [ring_simps]:
  assumes "h < c" "t < c" "t \<noteq> h"
  shows "ring_slots c h t = t # ring_slots c h (ring_next c t)"
proof -
  have "[0..<Suc n] = 0 # map Suc [0..<n]" for n by (simp add: map_Suc_upt upt_conv_Cons del: upt_Suc)
  then show ?thesis
    using assms by (simp add: ring_slots_def ring_len_next_tail ring_next_mod mod_simps comp_def
        del: upt_Suc)
qed

lemma ring_slots_header_fresh:
  assumes "h < c" "t < c"
  shows "h \<notin> set (ring_slots c h t)"
proof
  assume "h \<in> set (ring_slots c h t)"
  then obtain i where i: "i < ring_len c h t" "h = (t + i) mod c"
    by (auto simp: ring_slots_def)
  have "i < c" using i(1) ring_len_less [OF assms] by simp
  then have "(t + i) mod c = (if t + i < c then t + i else t + i - c)"
    using assms by (simp add: mod_if)
  then show False using assms i by (auto simp: ring_len_def split: if_splits)
qed

lemma ring_slots_empty [ring_simps]: "ring_slots c i i = []"
  by (simp add: ring_slots_def ring_len_def)


section \<open>The ring step on 16-bit indices\<close>

text \<open>
  \<open>uint16_t n = i + 1; if (n >= cap) n -= cap;\<close> as written in the enqueue and
  dequeue operations of both shared-memory queues.
\<close>

definition ring_next_u16 :: "u16 \<Rightarrow> u16 \<Rightarrow> u16" where
  "ring_next_u16 cap i = (let n = i + 1 in if n \<ge> cap then n - cap else n)"

lemma unat_u16_less: "unat (w :: u16) < 65536"
  using unsigned_less [of w] by simp

lemma unat_ring_next_u16 [ring_simps]:
  assumes "i < cap"
  shows "unat (ring_next_u16 cap i) = ring_next (unat cap) (unat i)"
proof -
  from assms have lt: "unat i < unat cap" by (simp add: word_less_nat_alt)
  have "unat cap < 65536" by (rule unat_u16_less)
  with lt have one: "unat (i + 1) = unat i + 1"
    by (simp add: unat_word_ariths)
  show ?thesis
    unfolding ring_next_u16_def ring_next_def Let_def
    by (auto simp: word_le_nat_alt one unat_sub)
qed

lemma ring_next_u16_less [ring_simps]: "i < cap \<Longrightarrow> ring_next_u16 cap i < cap"
  by (simp add: word_less_nat_alt [of "ring_next_u16 cap i"] unat_ring_next_u16 ring_next_less
      word_less_nat_alt)

text \<open>\<open>(uint16_t)((i + 1) % cap)\<close>, computed in \<open>int\<close>: the zero-copy operations' form.\<close>

definition ring_mod_u16 :: "u16 \<Rightarrow> u16 \<Rightarrow> u16" where
  "ring_mod_u16 cap i = of_nat ((unat i + 1) mod unat cap)"

lemma ring_mod_u16_eq [ring_simps]:
  assumes "i < cap"
  shows "ring_mod_u16 cap i = ring_next_u16 cap i"
proof -
  from assms have lt: "unat i < unat cap" by (simp add: word_less_nat_alt)
  have "ring_next (unat cap) (unat i) < 2 ^ 16"
    using ring_next_less [OF lt] unat_u16_less [of cap] by simp
  then have "unat (ring_mod_u16 cap i) = unat (ring_next_u16 cap i)"
    by (simp add: ring_mod_u16_def unat_ring_next_u16 [OF assms] unat_of_nat
        ring_next_mod [OF lt])
  then show ?thesis by (simp add: word_unat_eq_iff)
qed

end
