(* ===== verification/Queue_Interface.thy ===== *)
theory Queue_Interface
  imports Prelude
begin

text \<open>
  The contract of a bounded first-in first-out queue, as the proxy's message
  channels use it, and what a client may conclude from it.  A queue is driven by a
  sequence of \<open>Put\<close> and \<open>Get\<close> operations; \<open>run_queue\<close> records what was
  accepted and what was delivered.  The locale is interpreted by the HyperAMP
  queue and by the shared-memory pool queue.
\<close>

datatype ('m, 'r) queue_op = Put 'm | Get 'r

text \<open>Accepted messages, delivered elements, final state.\<close>

primrec run_queue ::
  "('m \<Rightarrow> 'q \<Rightarrow> bool \<times> 'q) \<Rightarrow> ('r \<Rightarrow> 'q \<Rightarrow> 'b option \<times> 'q) \<Rightarrow>
   ('m, 'r) queue_op list \<Rightarrow> 'q \<Rightarrow> 'm list \<times> 'b list \<times> 'q" where
  "run_queue put get [] q = ([], [], q)"
| "run_queue put get (op # ops) q =
     (case op of
        Put m \<Rightarrow>
          (let (ok, q1) = put m q; (acc, del, q2) = run_queue put get ops q1
           in (if ok then m # acc else acc, del, q2))
      | Get r \<Rightarrow>
          (let (x, q1) = get r q; (acc, del, q2) = run_queue put get ops q1
           in (acc, (case x of None \<Rightarrow> del | Some b \<Rightarrow> b # del), q2)))"

locale bounded_fifo =
  fixes inv :: "'q \<Rightarrow> bool"
    and contents :: "'q \<Rightarrow> 'b list"
    and bound :: nat
    and valid :: "'m \<Rightarrow> bool"
    and matches :: "'m \<Rightarrow> 'b \<Rightarrow> bool"
    and put :: "'m \<Rightarrow> 'q \<Rightarrow> bool \<times> 'q"
    and get :: "'r \<Rightarrow> 'q \<Rightarrow> 'b option \<times> 'q"
  assumes within_bound: "inv q \<Longrightarrow> length (contents q) \<le> bound"
    and inv_put: "inv q \<Longrightarrow> valid m \<Longrightarrow> inv (snd (put m q))"
    and inv_get: "inv q \<Longrightarrow> inv (snd (get r q))"
    and put_accepts: "inv q \<Longrightarrow> valid m \<Longrightarrow> fst (put m q) \<longleftrightarrow> length (contents q) < bound"
    and put_appends: "inv q \<Longrightarrow> valid m \<Longrightarrow> fst (put m q) \<Longrightarrow>
          \<exists>b. matches m b \<and> contents (snd (put m q)) = contents q @ [b]"
    and put_refused: "inv q \<Longrightarrow> valid m \<Longrightarrow> \<not> fst (put m q) \<Longrightarrow>
          contents (snd (put m q)) = contents q"
    and get_front: "inv q \<Longrightarrow>
          fst (get r q) = (if contents q = [] then None else Some (hd (contents q)))"
    and get_rest: "inv q \<Longrightarrow> contents (snd (get r q)) = tl (contents q)"
begin

lemma get_cases:
  assumes "inv q"
  obtains (empty) "contents q = []" "fst (get r q) = None" "contents (snd (get r q)) = []"
    | (front) b bs where "contents q = b # bs" "fst (get r q) = Some b"
        "contents (snd (get r q)) = bs"
  using get_front [OF assms] get_rest [OF assms] by (cases "contents q") auto

text \<open>No message is lost, duplicated, invented or reordered.\<close>

lemma run_fifo:
  assumes "inv q" "\<And>m. Put m \<in> set ops \<Longrightarrow> valid m"
    and "run_queue put get ops q = (acc, del, q')"
  shows "inv q' \<and> (\<exists>bs. list_all2 matches acc bs \<and> contents q @ bs = del @ contents q')"
  using assms
proof (induction ops arbitrary: q acc del q')
  case (Cons op ops)
  show ?case
  proof (cases op)
    case (Put m)
    obtain ok q1 where put: "put m q = (ok, q1)" by fastforce
    obtain acc1 del1 q2 where run: "run_queue put get ops q1 = (acc1, del1, q2)"
      by (metis prod_cases3)
    have res: "acc = (if ok then m # acc1 else acc1)" "del = del1" "q' = q2"
      using Cons.prems(3) Put put run by auto
    have "valid m" using Cons.prems(2) Put by simp
    then have "inv q1" using inv_put [OF Cons.prems(1)] put by fastforce
    with Cons.IH [OF _ _ run] Cons.prems(2) obtain bs where
      ih: "inv q2" "list_all2 matches acc1 bs" "contents q1 @ bs = del1 @ contents q2"
      by auto
    show ?thesis
    proof (cases ok)
      case True
      then obtain b where "matches m b" "contents q1 = contents q @ [b]"
        using put_appends [OF Cons.prems(1) \<open>valid m\<close>] put by auto
      then show ?thesis using ih res True by (intro conjI exI [of _ "b # bs"]) auto
    next
      case False
      then have "contents q1 = contents q"
        using put_refused [OF Cons.prems(1) \<open>valid m\<close>] put by auto
      then show ?thesis using ih res False by auto
    qed
  next
    case (Get r)
    obtain x q1 where get: "get r q = (x, q1)" by fastforce
    obtain acc1 del1 q2 where run: "run_queue put get ops q1 = (acc1, del1, q2)"
      by (metis prod_cases3)
    have res: "acc = acc1" "del = (case x of None \<Rightarrow> del1 | Some b \<Rightarrow> b # del1)" "q' = q2"
      using Cons.prems(3) Get get run by auto
    have "inv q1" using inv_get [OF Cons.prems(1), of r] get by simp
    with Cons.IH [OF _ _ run] Cons.prems(2) obtain bs where
      ih: "inv q2" "list_all2 matches acc1 bs" "contents q1 @ bs = del1 @ contents q2"
      by auto
    show ?thesis
      using Cons.prems(1)
    proof (cases rule: get_cases [where r = r])
      case empty
      then show ?thesis using ih res get by auto
    next
      case (front b bs')
      then show ?thesis using ih res get by (intro conjI exI [of _ bs]) auto
    qed
  qed
qed auto

text \<open>A client that puts and then gets the same number of times reads its messages back.\<close>

lemma put_then_get:
  assumes "inv q" "valid m" "contents q = []" "0 < bound"
  shows "\<exists>b. fst (get r (snd (put m q))) = Some b \<and> matches m b
           \<and> contents (snd (get r (snd (put m q)))) = []"
proof -
  have ok: "fst (put m q)" using assms by (simp add: put_accepts)
  then obtain b where "matches m b" "contents (snd (put m q)) = [b]"
    using put_appends [OF assms(1,2)] assms(3) by auto
  then show ?thesis
    using inv_put [OF assms(1,2)] by (simp add: get_front get_rest)
qed

end

end
