(* ===== verification/Ring_Memory.thy ===== *)
theory Ring_Memory
  imports Prelude
begin

text \<open>
  The data region of a ring queue: slot \<open>k\<close> is the block of \<open>block_size\<close> bytes at
  \<open>virt_base + (k + 1) * block_size\<close>.  Both shared-memory queues of the proxy address
  their data this way.
\<close>

text \<open>\<open>(uint64_t)virt_base + (uint64_t)(index + 1) * block_size\<close>.\<close>

definition slot_addr :: "u64 \<Rightarrow> u16 \<Rightarrow> nat \<Rightarrow> u64" where
  "slot_addr virt_base block_size index =
     virt_base + of_nat (index + 1) * ucast block_size"

definition slot_block :: "u64 \<Rightarrow> u16 \<Rightarrow> mem \<Rightarrow> nat \<Rightarrow> bytes" where
  "slot_block vb bs m k = read_bytes m (slot_addr vb bs k) (unat bs)"

lemma length_slot_block [simp]: "length (slot_block vb bs m k) = unat bs"
  by (simp add: slot_block_def)

lemma mult_step_le: "a < b \<Longrightarrow> (a + 1) * n + n \<le> (b + 1) * (n :: nat)"
  using mult_le_mono1 [of "a + 2" "b + 1" n] by simp

lemma slot_addr_nat: "slot_addr vb bs k = vb + of_nat ((k + 1) * unat bs)"
proof -
  have "unat (ucast bs :: u64) = unat (of_nat (unat bs) :: u64)"
    using unat_u16_less [of bs] by (simp add: unsigned_ucast_eq unat_of_nat take_bit_nat_eq_self)
  then have "(ucast bs :: u64) = of_nat (unat bs)" by (simp only: word_unat_eq_iff)
  then show ?thesis unfolding slot_addr_def by (simp only: of_nat_mult)
qed

lemma unat_slot_addr:
  assumes "fits vb ((c + 1) * unat bs)" "k < c" "0 < bs"
  shows "unat (slot_addr vb bs k) = unat vb + (k + 1) * unat bs"
    and "fits (slot_addr vb bs k) (unat bs)"
proof -
  have pos: "0 < unat bs" using assms(3) by (simp add: word_less_nat_alt)
  have le: "(k + 1) * unat bs + unat bs \<le> (c + 1) * unat bs"
    using assms(2) by (rule mult_step_le)
  have lt: "unat vb + (k + 1) * unat bs < 2 ^ 64"
    using assms(1) le pos by (simp add: fits_def)
  then show eq: "unat (slot_addr vb bs k) = unat vb + (k + 1) * unat bs"
    by (simp only: unat_add_of_nat slot_addr_nat)
  show "fits (slot_addr vb bs k) (unat bs)"
    using assms(1) le by (simp add: fits_def eq)
qed

lemma slots_disjoint:
  assumes "fits vb ((c + 1) * unat bs)" "k < c" "k' < c" "k \<noteq> k'" "0 < bs" "n \<le> unat bs"
  shows "disjoint_regions (slot_addr vb bs k) n (slot_addr vb bs k') (unat bs)"
proof (cases "k < k'")
  case True
  then have "(k + 1) * unat bs + unat bs \<le> (k' + 1) * unat bs"
    by (rule mult_step_le)
  then show ?thesis using assms by (simp add: disjoint_regions_def unat_slot_addr)
next
  case False
  then have "(k' + 1) * unat bs + unat bs \<le> (k + 1) * unat bs"
    using assms(4) by (intro mult_step_le) simp
  then show ?thesis using assms by (simp add: disjoint_regions_def unat_slot_addr)
qed


text \<open>Writing the slot under the header leaves the stored blocks alone.\<close>

lemma ring_write_kept:
  assumes f: "fits vb ((c + 1) * unat bs)" and h: "h < c" "t < c" and bs: "0 < bs"
    and n: "n \<le> unat bs" and k: "k \<in> set (ring_slots c h t)"
  shows "slot_block vb bs (write_loop m (slot_addr vb bs h) s n) k = slot_block vb bs m k"
proof -
  have "k \<noteq> h" using ring_slots_header_fresh [OF h] k by metis
  moreover have "k < c" using ring_slots_less [OF k] h by simp
  moreover have "fits (slot_addr vb bs h) n"
    using unat_slot_addr(2) [OF f h(1) bs] n by (simp add: fits_def)
  ultimately show ?thesis
    unfolding slot_block_def using f h bs n
    by (intro read_bytes_write_loop_disjoint slots_disjoint unat_slot_addr(2)) auto
qed

text \<open>The slot that is written holds the message, followed by what was there before.\<close>

lemma ring_write_block:
  assumes "fits vb ((c + 1) * unat bs)" "h < c" "0 < bs" "length d \<le> unat bs"
  shows "slot_block vb bs (write_loop m (slot_addr vb bs h) ((!) d) (length d)) h
           = d @ drop (length d) (slot_block vb bs m h)"
proof -
  have "map ((!) d) [0..<length d] = d" by (rule map_nth)
  then show ?thesis
    unfolding slot_block_def
    using read_bytes_write_loop [OF unat_slot_addr(2) [OF assms(1-3)] assms(4), of m "(!) d"] by simp
qed

end
