(* ===== verification/Hyperamp_Queue.thy ===== *)
theory Hyperamp_Queue
  imports Queue_Interface Ring_Memory
begin

text \<open>
  The HyperAMP shared-memory queue of \<open>src/src/hyperamp_shm_queue.c\<close>: the
  software spinlock as one caller sees it, the byte-wise accessors, queue
  initialisation at byte level, and the enqueue, dequeue, peek and zero-copy
  operations on the control block (a record) and the data region (byte memory).

  Every operation returns \<open>None\<close> when it would spin forever on a lock that nobody
  releases, and \<open>Some (code, queue, memory)\<close> otherwise; a null queue or data
  pointer is \<open>None\<close> in the argument.  Barriers, cache maintenance and diagnostic
  printing leave this state alone and are not represented.
\<close>

section \<open>Constants and structures\<close>

definition HYPERAMP_OK :: int where "HYPERAMP_OK = 0"
definition HYPERAMP_ERROR :: int where "HYPERAMP_ERROR = -1"
definition HYPERAMP_AGAIN :: int where "HYPERAMP_AGAIN = 1"

lemmas hyperamp_codes = HYPERAMP_OK_def HYPERAMP_ERROR_def HYPERAMP_AGAIN_def

definition HYPERAMP_QUEUE_MAGIC :: u32 where "HYPERAMP_QUEUE_MAGIC = 0x48415150"

definition HYPERAMP_MAX_MAP_TABLE_ENTRIES :: nat where
  "HYPERAMP_MAX_MAP_TABLE_ENTRIES = 125"

record HyperampSpinlock =
  lk_lock_value :: u32
  lk_owner_zone_id :: u32
  lk_lock_count :: u32
  lk_contention_count :: u32

record HyperampMapTableEntry =
  me_virt_addr :: u64
  me_phy_addr :: u64

record HyperampShmQueue =
  hq_map_mode1 :: u8
  hq_map_mode2 :: u8
  hq_header :: u16
  hq_tail :: u16
  hq_capacity :: u16
  hq_block_size :: u16
  hq_reserved :: u16
  hq_phy_addr :: u64
  hq_virt_addr1 :: u64
  hq_virt_addr2 :: u64
  hq_table1 :: "HyperampMapTableEntry list"
  hq_table2 :: "HyperampMapTableEntry list"
  hq_queue_lock :: HyperampSpinlock
  hq_magic :: u32
  hq_version :: u32
  hq_enqueue_count :: u32
  hq_dequeue_count :: u32

record HyperampQueueConfig =
  hc_map_mode :: u16
  hc_capacity :: u16
  hc_block_size :: u16
  hc_phy_addr :: u64
  hc_virt_addr :: u64


section \<open>Spinlock, as one caller sees it\<close>

text \<open>
  A caller that finds the lock held spins; without another party that is forever
  (\<open>None\<close>).  The interleaved behaviour is the subject of theory \<open>Hyperamp_Spinlock\<close>.
\<close>

definition hyperamp_spinlock_init :: "HyperampSpinlock option \<Rightarrow> HyperampSpinlock option" where
  "hyperamp_spinlock_init lock = map_option (\<lambda>l. l\<lparr>lk_lock_value := 0, lk_owner_zone_id := 0,
     lk_lock_count := 0, lk_contention_count := 0\<rparr>) lock"

definition hyperamp_spinlock_lock ::
  "HyperampSpinlock option \<Rightarrow> u32 \<Rightarrow> HyperampSpinlock option option" where
  "hyperamp_spinlock_lock lock zone_id =
     (case lock of
        None \<Rightarrow> Some None
      | Some l \<Rightarrow>
          if lk_lock_value l \<noteq> 0 then None
          else Some (Some (l\<lparr>lk_lock_value := 1, lk_owner_zone_id := zone_id,
                             lk_lock_count := lk_lock_count l + 1\<rparr>)))"

definition hyperamp_spinlock_unlock :: "HyperampSpinlock option \<Rightarrow> HyperampSpinlock option" where
  "hyperamp_spinlock_unlock lock =
     map_option (\<lambda>l. l\<lparr>lk_owner_zone_id := 0, lk_lock_value := 0\<rparr>) lock"

text \<open>\<open>stlxr_ok\<close> tells whether the store-exclusive of the attempt succeeds.\<close>

definition hyperamp_spinlock_trylock ::
  "bool \<Rightarrow> HyperampSpinlock option \<Rightarrow> u32 \<Rightarrow> int \<times> HyperampSpinlock option" where
  "hyperamp_spinlock_trylock stlxr_ok lock zone_id =
     (case lock of
        None \<Rightarrow> (HYPERAMP_ERROR, None)
      | Some l \<Rightarrow>
          if lk_lock_value l \<noteq> 0 \<or> \<not> stlxr_ok then (HYPERAMP_AGAIN, Some l)
          else (HYPERAMP_OK, Some (l\<lparr>lk_lock_value := 1, lk_owner_zone_id := zone_id,
                                     lk_lock_count := lk_lock_count l + 1\<rparr>)))"

text \<open>\<open>hyperamp_spinlock_lock(HYPERAMP_QUEUE_LOCK(q), zone_id)\<close> and its unlock.\<close>

definition queue_lock :: "HyperampShmQueue \<Rightarrow> u32 \<Rightarrow> HyperampShmQueue option" where
  "queue_lock q zone_id =
     (case hyperamp_spinlock_lock (Some (hq_queue_lock q)) zone_id of
        Some (Some l) \<Rightarrow> Some (q\<lparr>hq_queue_lock := l\<rparr>)
      | Some None \<Rightarrow> Some q
      | None \<Rightarrow> None)"

definition queue_unlock :: "HyperampShmQueue \<Rightarrow> HyperampShmQueue" where
  "queue_unlock q =
     (case hyperamp_spinlock_unlock (Some (hq_queue_lock q)) of
        Some l \<Rightarrow> q\<lparr>hq_queue_lock := l\<rparr>
      | None \<Rightarrow> q)"


section \<open>Byte-wise access\<close>

definition hyperamp_safe_memset :: "mem \<Rightarrow> u64 \<Rightarrow> u8 \<Rightarrow> nat \<Rightarrow> mem" where
  "hyperamp_safe_memset m dst val len = write_loop m dst (\<lambda>_. val) len"

text \<open>Copy into shared memory from a private buffer \<open>src\<close>.\<close>

definition hyperamp_safe_memcpy :: "mem \<Rightarrow> u64 \<Rightarrow> bytes \<Rightarrow> nat \<Rightarrow> mem" where
  "hyperamp_safe_memcpy m dst src len = write_loop m dst (\<lambda>i. src ! i) len"

definition hyperamp_safe_read_u16 :: "mem \<Rightarrow> u64 \<Rightarrow> nat \<Rightarrow> u16" where
  "hyperamp_safe_read_u16 m addr offset = read_le (\<lambda>i. byte_at m addr (offset + i)) 2"

definition hyperamp_safe_read_u32 :: "mem \<Rightarrow> u64 \<Rightarrow> nat \<Rightarrow> u32" where
  "hyperamp_safe_read_u32 m addr offset = read_le (\<lambda>i. byte_at m addr (offset + i)) 4"

definition hyperamp_safe_read_u64 :: "mem \<Rightarrow> u64 \<Rightarrow> nat \<Rightarrow> u64" where
  "hyperamp_safe_read_u64 m addr offset = read_le (\<lambda>i. byte_at m addr (offset + i)) 8"


section \<open>Layout of the control block\<close>

text \<open>Byte offsets of the packed structure (\<open>offsetof\<close>).\<close>

definition off_table1 :: nat where "off_table1 = 36"
definition off_table2 :: nat where
  "off_table2 = off_table1 + 16 * HYPERAMP_MAX_MAP_TABLE_ENTRIES"
definition off_queue_lock :: nat where
  "off_queue_lock = off_table2 + 16 * HYPERAMP_MAX_MAP_TABLE_ENTRIES"
definition off_magic :: nat where "off_magic = off_queue_lock + 16"
definition sizeof_HyperampShmQueue :: nat where
  "sizeof_HyperampShmQueue = off_magic + 16"

lemmas layout_defs = off_table1_def off_table2_def off_queue_lock_def off_magic_def
  sizeof_HyperampShmQueue_def HYPERAMP_MAX_MAP_TABLE_ENTRIES_def

text \<open>The structure that the bytes at \<open>p\<close> represent.\<close>

definition load_table :: "mem \<Rightarrow> u64 \<Rightarrow> nat \<Rightarrow> HyperampMapTableEntry list" where
  "load_table m p off = map (\<lambda>i. \<lparr>me_virt_addr = hyperamp_safe_read_u64 m p (off + 16 * i),
     me_phy_addr = hyperamp_safe_read_u64 m p (off + 16 * i + 8)\<rparr>)
     [0..<HYPERAMP_MAX_MAP_TABLE_ENTRIES]"

definition load_lock :: "mem \<Rightarrow> u64 \<Rightarrow> nat \<Rightarrow> HyperampSpinlock" where
  "load_lock m p off = \<lparr>lk_lock_value = hyperamp_safe_read_u32 m p off,
     lk_owner_zone_id = hyperamp_safe_read_u32 m p (off + 4),
     lk_lock_count = hyperamp_safe_read_u32 m p (off + 8),
     lk_contention_count = hyperamp_safe_read_u32 m p (off + 12)\<rparr>"

definition load_queue :: "mem \<Rightarrow> u64 \<Rightarrow> HyperampShmQueue" where
  "load_queue m p = \<lparr>
     hq_map_mode1 = byte_at m p 0, hq_map_mode2 = byte_at m p 1,
     hq_header = hyperamp_safe_read_u16 m p 2, hq_tail = hyperamp_safe_read_u16 m p 4,
     hq_capacity = hyperamp_safe_read_u16 m p 6, hq_block_size = hyperamp_safe_read_u16 m p 8,
     hq_reserved = hyperamp_safe_read_u16 m p 10,
     hq_phy_addr = hyperamp_safe_read_u64 m p 12,
     hq_virt_addr1 = hyperamp_safe_read_u64 m p 20,
     hq_virt_addr2 = hyperamp_safe_read_u64 m p 28,
     hq_table1 = load_table m p off_table1, hq_table2 = load_table m p off_table2,
     hq_queue_lock = load_lock m p off_queue_lock,
     hq_magic = hyperamp_safe_read_u32 m p off_magic,
     hq_version = hyperamp_safe_read_u32 m p (off_magic + 4),
     hq_enqueue_count = hyperamp_safe_read_u32 m p (off_magic + 8),
     hq_dequeue_count = hyperamp_safe_read_u32 m p (off_magic + 12)\<rparr>"


section \<open>Initialisation\<close>

text \<open>\<open>p[i] = v\<close>, and a byte loop at offset \<open>off\<close>.\<close>

definition poke :: "u64 \<Rightarrow> nat \<Rightarrow> u8 \<Rightarrow> mem \<Rightarrow> mem" where
  "poke p i v m = m(p + of_nat i := v)"

definition poke_loop :: "u64 \<Rightarrow> nat \<Rightarrow> (nat \<Rightarrow> u8) \<Rightarrow> nat \<Rightarrow> mem \<Rightarrow> mem" where
  "poke_loop p off s n m = write_loop m (p + of_nat off) s n"

text \<open>The creator's writes, in the order of the source.\<close>

definition queue_init_scalars :: "u64 \<Rightarrow> HyperampQueueConfig \<Rightarrow> mem \<Rightarrow> mem" where
  "queue_init_scalars p config m =
     (let m = poke p 0 (ucast (hc_map_mode config)) m;
          m = poke p 1 (ucast (hc_map_mode config)) m;
          m = poke p 2 0 m; m = poke p 3 0 m;
          m = poke p 4 0 m; m = poke p 5 0 m;
          cap = hc_capacity config;
          m = poke p 6 (ucast (cap AND 0xFF)) m;
          m = poke p 7 (ucast (drop_bit 8 cap AND 0xFF)) m;
          bs = hc_block_size config;
          m = poke p 8 (ucast (bs AND 0xFF)) m;
          m = poke p 9 (ucast (drop_bit 8 bs AND 0xFF)) m;
          m = poke p 10 0 m; m = poke p 11 0 m
      in m)"

definition queue_init_addresses :: "u64 \<Rightarrow> HyperampQueueConfig \<Rightarrow> mem \<Rightarrow> mem" where
  "queue_init_addresses p config m =
     (let m = poke_loop p 12 (byte_of (hc_phy_addr config)) 8 m;
          m = poke_loop p 20 (byte_of (hc_virt_addr config)) 8 m
      in poke_loop p 28 (\<lambda>_. 0) 8 m)"

text \<open>The lock fields are stored as four 32-bit zeros.\<close>

definition queue_init_extension :: "u64 \<Rightarrow> mem \<Rightarrow> mem" where
  "queue_init_extension p m =
     (let m = poke_loop p off_queue_lock (\<lambda>_. 0) 16 m;
          m = poke_loop p off_magic (byte_of HYPERAMP_QUEUE_MAGIC) 4 m;
          m = poke_loop p (off_magic + 4) (byte_of (1 :: u32)) 4 m;
          m = poke_loop p (off_magic + 8) (\<lambda>_. 0) 4 m
      in poke_loop p (off_magic + 12) (\<lambda>_. 0) 4 m)"

definition hyperamp_queue_init ::
  "u64 \<Rightarrow> HyperampQueueConfig option \<Rightarrow> int \<Rightarrow> mem \<Rightarrow> int \<times> mem" where
  "hyperamp_queue_init queue config is_creator m =
     (case config of
        None \<Rightarrow> (HYPERAMP_ERROR, m)
      | Some cfg \<Rightarrow>
          if queue = 0 then (HYPERAMP_ERROR, m)
          else if hc_block_size cfg = 0 \<or> hc_capacity cfg = 0 then (HYPERAMP_ERROR, m)
          else if is_creator \<noteq> 0 then
            (HYPERAMP_OK, queue_init_extension queue
               (queue_init_addresses queue cfg (queue_init_scalars queue cfg m)))
          else (HYPERAMP_OK, poke_loop queue 28 (byte_of (hc_virt_addr cfg)) 8 m))"

definition hyperamp_queue_is_initialized :: "u64 \<Rightarrow> mem \<Rightarrow> int" where
  "hyperamp_queue_is_initialized queue m =
     (if queue = 0 then 0
      else if (read_le (\<lambda>i. byte_at m queue (6 + i)) 2 :: u16) > 0 then 1 else 0)"


section \<open>Queue operations\<close>

type_synonym queue_result = "int \<times> HyperampShmQueue option \<times> mem"

definition hyperamp_queue_enqueue ::
  "HyperampShmQueue option \<Rightarrow> u32 \<Rightarrow> bytes option \<Rightarrow> nat \<Rightarrow> u64 \<Rightarrow> mem \<Rightarrow> queue_result option" where
  "hyperamp_queue_enqueue queue zone_id data data_len virt_base m =
     (case (queue, data) of
        (Some q0, Some d) \<Rightarrow>
          if data_len = 0 then Some (HYPERAMP_ERROR, queue, m)
          else if data_len > unat (hq_block_size q0) then Some (HYPERAMP_ERROR, queue, m)
          else do {
            q \<leftarrow> queue_lock q0 zone_id;
            let new_header = ring_next_u16 (hq_capacity q) (hq_header q);
            if new_header = hq_tail q
            then Some (HYPERAMP_AGAIN, Some (queue_unlock q), m)
            else
              let write_addr = slot_addr virt_base (hq_block_size q) (unat (hq_header q));
                  m' = hyperamp_safe_memcpy m write_addr d data_len;
                  q' = q\<lparr>hq_header := new_header, hq_enqueue_count := hq_enqueue_count q + 1\<rparr>
              in Some (HYPERAMP_OK, Some (queue_unlock q'), m')
          }
      | _ \<Rightarrow> Some (HYPERAMP_ERROR, queue, m))"

text \<open>
  A read returns the bytes copied to the caller's buffer (their number is
  \<open>*actual_len\<close>); \<open>has_buf\<close> is false for a null buffer.
\<close>

definition hyperamp_queue_dequeue ::
  "HyperampShmQueue option \<Rightarrow> u32 \<Rightarrow> bool \<Rightarrow> nat \<Rightarrow> u64 \<Rightarrow> mem \<Rightarrow>
   (int \<times> bytes \<times> HyperampShmQueue option) option" where
  "hyperamp_queue_dequeue queue zone_id has_buf max_len virt_base m =
     (case queue of
        None \<Rightarrow> Some (HYPERAMP_ERROR, [], None)
      | Some q0 \<Rightarrow>
          if \<not> has_buf \<or> max_len = 0 then Some (HYPERAMP_ERROR, [], queue)
          else do {
            q \<leftarrow> queue_lock q0 zone_id;
            if hq_tail q = hq_header q
            then Some (HYPERAMP_AGAIN, [], Some (queue_unlock q))
            else
              let read_addr = slot_addr virt_base (hq_block_size q) (unat (hq_tail q));
                  read_len = (if max_len < unat (hq_block_size q) then max_len
                              else unat (hq_block_size q));
                  data = read_bytes m read_addr read_len;
                  new_tail = ring_next_u16 (hq_capacity q) (hq_tail q);
                  q' = q\<lparr>hq_tail := new_tail, hq_dequeue_count := hq_dequeue_count q + 1\<rparr>
              in Some (HYPERAMP_OK, data, Some (queue_unlock q'))
          })"

definition hyperamp_queue_peek ::
  "HyperampShmQueue option \<Rightarrow> u32 \<Rightarrow> bool \<Rightarrow> nat \<Rightarrow> u64 \<Rightarrow> mem \<Rightarrow>
   (int \<times> bytes \<times> HyperampShmQueue option) option" where
  "hyperamp_queue_peek queue zone_id has_buf max_len virt_base m =
     (case queue of
        None \<Rightarrow> Some (HYPERAMP_ERROR, [], None)
      | Some q0 \<Rightarrow>
          if \<not> has_buf \<or> max_len = 0 then Some (HYPERAMP_ERROR, [], queue)
          else do {
            q \<leftarrow> queue_lock q0 zone_id;
            if hq_tail q = hq_header q
            then Some (HYPERAMP_ERROR, [], Some (queue_unlock q))
            else
              let read_addr = slot_addr virt_base (hq_block_size q) (unat (hq_tail q));
                  read_len = (if max_len < unat (hq_block_size q) then max_len
                              else unat (hq_block_size q))
              in Some (HYPERAMP_OK, read_bytes m read_addr read_len, Some (queue_unlock q))
          })"

text \<open>
  \<open>(queue->header + 1) % queue->capacity\<close> is evaluated in \<open>int\<close>; the invariant
  of an initialised queue excludes capacity 0, where C leaves it undefined.
\<close>

definition hyperamp_queue_alloc_slot ::
  "HyperampShmQueue option \<Rightarrow> u32 \<Rightarrow> bool \<Rightarrow> u64 \<Rightarrow>
   (int \<times> u64 option \<times> HyperampShmQueue option) option" where
  "hyperamp_queue_alloc_slot queue zone_id has_out virt_base =
     (case queue of
        None \<Rightarrow> Some (HYPERAMP_ERROR, None, None)
      | Some q0 \<Rightarrow>
          if \<not> has_out then Some (HYPERAMP_ERROR, None, queue)
          else do {
            q \<leftarrow> queue_lock q0 zone_id;
            let next_header = ring_mod_u16 (hq_capacity q) (hq_header q);
            if next_header = hq_tail q
            then Some (HYPERAMP_ERROR, None, Some (queue_unlock q))
            else
              let addr = slot_addr virt_base (hq_block_size q) (unat (hq_header q));
                  q' = q\<lparr>hq_header := next_header, hq_enqueue_count := hq_enqueue_count q + 1\<rparr>
              in Some (HYPERAMP_OK, Some addr, Some (queue_unlock q'))
          })"

definition hyperamp_queue_release_slot ::
  "HyperampShmQueue option \<Rightarrow> u32 \<Rightarrow> (int \<times> HyperampShmQueue option) option" where
  "hyperamp_queue_release_slot queue zone_id =
     (case queue of
        None \<Rightarrow> Some (HYPERAMP_ERROR, None)
      | Some q0 \<Rightarrow> do {
            q \<leftarrow> queue_lock q0 zone_id;
            if hq_tail q = hq_header q
            then Some (HYPERAMP_ERROR, Some (queue_unlock q))
            else
              let new_tail = ring_mod_u16 (hq_capacity q) (hq_tail q);
                  q' = q\<lparr>hq_tail := new_tail, hq_dequeue_count := hq_dequeue_count q + 1\<rparr>
              in Some (HYPERAMP_OK, Some (queue_unlock q'))
          })"

definition HYPERAMP_QUEUE_IS_EMPTY :: "HyperampShmQueue \<Rightarrow> bool" where
  "HYPERAMP_QUEUE_IS_EMPTY q \<longleftrightarrow> hq_tail q = hq_header q"

definition HYPERAMP_QUEUE_IS_FULL :: "HyperampShmQueue \<Rightarrow> bool" where
  "HYPERAMP_QUEUE_IS_FULL q \<longleftrightarrow> (unat (hq_header q) + 1) mod unat (hq_capacity q) = unat (hq_tail q)"

definition HYPERAMP_QUEUE_LENGTH :: "HyperampShmQueue \<Rightarrow> int" where
  "HYPERAMP_QUEUE_LENGTH q =
     (if hq_header q \<ge> hq_tail q then uint (hq_header q) - uint (hq_tail q)
      else uint (hq_capacity q) - uint (hq_tail q) + uint (hq_header q))"


section \<open>Invariant and abstraction\<close>

definition lock_is_free :: "HyperampShmQueue \<Rightarrow> bool" where
  "lock_is_free q \<longleftrightarrow> lk_lock_value (hq_queue_lock q) = 0"

text \<open>
  An initialised queue at rest: indices in range, lock free, geometry \<open>cap\<close>,
  \<open>bs\<close>, and a data region (slot 0 is never used) that does not wrap around.
\<close>

definition queue_inv :: "u64 \<Rightarrow> u16 \<Rightarrow> u16 \<Rightarrow> HyperampShmQueue \<Rightarrow> bool" where
  "queue_inv vb cap bs q \<longleftrightarrow>
     hq_header q < cap \<and> hq_tail q < cap \<and> hq_capacity q = cap \<and> hq_block_size q = bs \<and>
     0 < bs \<and> lock_is_free q \<and> fits vb ((unat cap + 1) * unat bs)"

text \<open>The stored blocks, oldest first.\<close>

definition queue_contents :: "u64 \<Rightarrow> HyperampShmQueue \<Rightarrow> mem \<Rightarrow> bytes list" where
  "queue_contents vb q m = map (slot_block vb (hq_block_size q) m)
     (ring_slots (unat (hq_capacity q)) (unat (hq_header q)) (unat (hq_tail q)))"

lemma queue_lock_free [simp]:
  "lock_is_free q \<Longrightarrow> queue_lock q z = Some (q\<lparr>hq_queue_lock := (hq_queue_lock q)
     \<lparr>lk_lock_value := 1, lk_owner_zone_id := z,
       lk_lock_count := lk_lock_count (hq_queue_lock q) + 1\<rparr>\<rparr>)"
  by (simp add: queue_lock_def hyperamp_spinlock_lock_def lock_is_free_def)

lemma queue_lock_held: "\<not> lock_is_free q \<Longrightarrow> queue_lock q z = None"
  by (simp add: queue_lock_def hyperamp_spinlock_lock_def lock_is_free_def)

lemma queue_unlock_fields [simp]:
  "hq_header (queue_unlock q) = hq_header q" "hq_tail (queue_unlock q) = hq_tail q"
  "hq_capacity (queue_unlock q) = hq_capacity q" "hq_block_size (queue_unlock q) = hq_block_size q"
  "hq_enqueue_count (queue_unlock q) = hq_enqueue_count q"
  "hq_dequeue_count (queue_unlock q) = hq_dequeue_count q"
  "lock_is_free (queue_unlock q)"
  by (simp_all add: queue_unlock_def hyperamp_spinlock_unlock_def lock_is_free_def)

lemma queue_inv_nat:
  assumes "queue_inv vb cap bs q"
  shows "unat (hq_header q) < unat cap" "unat (hq_tail q) < unat cap"
    "hq_capacity q = cap" "hq_block_size q = bs" "0 < bs" "lock_is_free q"
    "fits vb ((unat cap + 1) * unat bs)"
  using assms by (auto simp: queue_inv_def word_less_nat_alt)

text \<open>Writing the slot under the header leaves the stored blocks alone.\<close>

lemma stored_blocks_kept:
  assumes "queue_inv vb cap bs q" "n \<le> unat bs"
    and "k \<in> set (ring_slots (unat cap) (unat (hq_header q)) (unat (hq_tail q)))"
  shows "slot_block vb bs (hyperamp_safe_memcpy m (slot_addr vb bs (unat (hq_header q))) d n) k
           = slot_block vb bs m k"
  using queue_inv_nat [OF assms(1)] assms(2,3)
  unfolding hyperamp_safe_memcpy_def by (intro ring_write_kept) auto

lemma written_block:
  assumes "queue_inv vb cap bs q" "length d \<le> unat bs"
  shows "slot_block vb bs (hyperamp_safe_memcpy m (slot_addr vb bs (unat (hq_header q))) d (length d))
            (unat (hq_header q)) = d @ drop (length d) (slot_block vb bs m (unat (hq_header q)))"
  using queue_inv_nat [OF assms(1)] assms(2)
  unfolding hyperamp_safe_memcpy_def by (intro ring_write_block) auto

text \<open>What an enqueue and a dequeue do to a queue at rest.\<close>

lemma enqueue_spec:
  assumes inv: "queue_inv vb cap bs q" and len: "0 < length d" "length d \<le> unat bs"
  shows "\<exists>q' m'. hyperamp_queue_enqueue (Some q) z (Some d) (length d) vb m =
           Some (if length (queue_contents vb q m) < unat cap - 1 then HYPERAMP_OK else HYPERAMP_AGAIN,
                 Some q', m')
         \<and> queue_inv vb cap bs q'
         \<and> queue_contents vb q' m' =
             (if length (queue_contents vb q m) < unat cap - 1
              then queue_contents vb q m @
                     [d @ drop (length d) (slot_block vb bs m (unat (hq_header q)))]
              else queue_contents vb q m)"
proof -
  note I = queue_inv_nat [OF inv]
  have w: "hq_header q < cap" "hq_tail q < cap" using inv by (auto simp: queue_inv_def)
  let ?h = "unat (hq_header q)" and ?t = "unat (hq_tail q)" and ?c = "unat cap"
  have room: "ring_next_u16 cap (hq_header q) = hq_tail q \<longleftrightarrow> \<not> ring_len ?c ?h ?t < ?c - 1"
    using ring_len_full_iff [OF I(1,2)] ring_len_less [OF I(1,2)] unat_ring_next_u16 [OF w(1)]
    by (auto simp: word_unat_eq_iff)
  show ?thesis
  proof (cases "ring_len ?c ?h ?t < ?c - 1")
    case False
    with room have "ring_next_u16 cap (hq_header q) = hq_tail q" by simp
    with False show ?thesis using I len w
      by (auto simp: hyperamp_queue_enqueue_def queue_contents_def queue_inv_def Let_def hyperamp_codes)
  next
    case True
    with room have ne: "ring_next_u16 cap (hq_header q) \<noteq> hq_tail q" by simp
    then have ne': "ring_next ?c ?h \<noteq> ?t"
      using unat_ring_next_u16 [OF w(1)] by (auto simp: word_unat_eq_iff)
    from True ne show ?thesis
      using I len w stored_blocks_kept [OF inv len(2)] written_block [OF inv len(2)]
      by (auto simp: hyperamp_queue_enqueue_def queue_contents_def queue_inv_def Let_def hyperamp_codes
          unat_ring_next_u16 [OF w(1)] ring_slots_next_header [OF I(1,2) ne'] ring_next_u16_less)
  qed
qed

lemma dequeue_spec:
  assumes inv: "queue_inv vb cap bs q" and len: "0 < n"
  shows "\<exists>q'. hyperamp_queue_dequeue (Some q) z True n vb m =
           Some (if queue_contents vb q m = [] then HYPERAMP_AGAIN else HYPERAMP_OK,
                 (if queue_contents vb q m = [] then [] else take n (hd (queue_contents vb q m))),
                 Some q')
         \<and> queue_inv vb cap bs q' \<and> queue_contents vb q' m = tl (queue_contents vb q m)"
proof -
  note I = queue_inv_nat [OF inv]
  have w: "hq_header q < cap" "hq_tail q < cap" using inv by (auto simp: queue_inv_def)
  show ?thesis
  proof (cases "hq_tail q = hq_header q")
    case True
    then have "queue_contents vb q m = []" by (simp add: queue_contents_def ring_slots_empty)
    with True show ?thesis using I len w
      by (auto simp: hyperamp_queue_dequeue_def queue_contents_def queue_inv_def ring_slots_empty)
  next
    case False
    then have ne: "unat (hq_tail q) \<noteq> unat (hq_header q)" by (simp add: word_unat_eq_iff)
    note slots = ring_slots_next_tail [OF I(1,2) ne]
    have "take n (slot_block vb bs m (unat (hq_tail q))) =
        read_bytes m (slot_addr vb bs (unat (hq_tail q))) (if n < unat bs then n else unat bs)"
      by (simp add: slot_block_def take_read_bytes)
    with False show ?thesis using I len w slots
      by (auto simp: hyperamp_queue_dequeue_def queue_contents_def queue_inv_def Let_def
          unat_ring_next_u16 [OF w(2)] ring_next_u16_less)
  qed
qed


lemma peek_spec:
  assumes inv: "queue_inv vb cap bs q" and len: "0 < n"
  shows "\<exists>q'. hyperamp_queue_peek (Some q) z True n vb m =
           Some (if queue_contents vb q m = [] then HYPERAMP_ERROR else HYPERAMP_OK,
                 (if queue_contents vb q m = [] then [] else take n (hd (queue_contents vb q m))),
                 Some q')
         \<and> queue_inv vb cap bs q' \<and> queue_contents vb q' m = queue_contents vb q m"
proof (cases "hq_tail q = hq_header q")
  case True
  then show ?thesis using queue_inv_nat [OF inv] inv len
    by (auto simp: hyperamp_queue_peek_def queue_contents_def queue_inv_def ring_slots_empty)
next
  case False
  note I = queue_inv_nat [OF inv]
  from False have ne: "unat (hq_tail q) \<noteq> unat (hq_header q)" by (simp add: word_unat_eq_iff)
  note slots = ring_slots_next_tail [OF I(1,2) ne]
  have "take n (slot_block vb bs m (unat (hq_tail q))) =
      read_bytes m (slot_addr vb bs (unat (hq_tail q))) (if n < unat bs then n else unat bs)"
    by (simp add: slot_block_def take_read_bytes)
  with False show ?thesis using I len inv slots
    by (auto simp: hyperamp_queue_peek_def queue_contents_def queue_inv_def Let_def)
qed


section \<open>The queue as a bounded FIFO\<close>

text \<open>
  A put is an enqueue of a whole message by a zone; a get is a dequeue into a
  buffer of at least one block by a zone.  Both run to completion under the lock.
\<close>

definition hq_put :: "u64 \<Rightarrow> u32 \<times> bytes \<Rightarrow> HyperampShmQueue \<times> mem \<Rightarrow>
    bool \<times> HyperampShmQueue \<times> mem" where
  "hq_put vb msg st =
     (case hyperamp_queue_enqueue (Some (fst st)) (fst msg) (Some (snd msg)) (length (snd msg)) vb
             (snd st) of
        Some (r, Some q', m') \<Rightarrow> (r = HYPERAMP_OK, q', m')
      | _ \<Rightarrow> (False, st))"

definition hq_get :: "u64 \<Rightarrow> u32 \<Rightarrow> HyperampShmQueue \<times> mem \<Rightarrow>
    bytes option \<times> HyperampShmQueue \<times> mem" where
  "hq_get vb z st =
     (case hyperamp_queue_dequeue (Some (fst st)) z True (unat (hq_block_size (fst st))) vb (snd st) of
        Some (r, data, Some q') \<Rightarrow> (if r = HYPERAMP_OK then Some data else None, q', snd st)
      | _ \<Rightarrow> (None, st))"

definition hq_valid :: "u16 \<Rightarrow> u32 \<times> bytes \<Rightarrow> bool" where
  "hq_valid bs msg \<longleftrightarrow> 0 < length (snd msg) \<and> length (snd msg) \<le> unat bs"

text \<open>A delivered block is the message followed by bytes of no meaning.\<close>

definition hq_matches :: "u16 \<Rightarrow> u32 \<times> bytes \<Rightarrow> bytes \<Rightarrow> bool" where
  "hq_matches bs msg b \<longleftrightarrow> length b = unat bs \<and> take (length (snd msg)) b = snd msg"

lemma queue_contents_block:
  "queue_inv vb cap bs q \<Longrightarrow> b \<in> set (queue_contents vb q m) \<Longrightarrow> length b = unat bs"
  by (auto simp: queue_contents_def queue_inv_def)

lemma length_queue_contents:
  assumes "queue_inv vb cap bs q"
  shows "length (queue_contents vb q m) \<le> unat cap - 1"
  using queue_inv_nat [OF assms] ring_len_less [of "unat (hq_header q)" "unat cap" "unat (hq_tail q)"]
  by (simp add: queue_contents_def)

lemma hq_put_spec:
  assumes "queue_inv vb cap bs (fst st)" "hq_valid bs msg"
  shows "\<exists>q' m'. hq_put vb msg st =
      (length (queue_contents vb (fst st) (snd st)) < unat cap - 1, q', m')
    \<and> queue_inv vb cap bs q'
    \<and> queue_contents vb q' m' =
        (if length (queue_contents vb (fst st) (snd st)) < unat cap - 1
         then queue_contents vb (fst st) (snd st) @
                [snd msg @ drop (length (snd msg))
                   (slot_block vb bs (snd st) (unat (hq_header (fst st))))]
         else queue_contents vb (fst st) (snd st))"
  using enqueue_spec [OF assms(1), of "snd msg" "fst msg" "snd st"] assms(2)
  by (auto simp: hq_put_def hq_valid_def hyperamp_codes split: if_splits)

lemma hq_get_spec:
  assumes "queue_inv vb cap bs (fst st)"
  shows "\<exists>q'. hq_get vb z st =
      (if queue_contents vb (fst st) (snd st) = [] then None
       else Some (hd (queue_contents vb (fst st) (snd st))), q', snd st)
    \<and> queue_inv vb cap bs q'
    \<and> queue_contents vb q' (snd st) = tl (queue_contents vb (fst st) (snd st))"
proof -
  have "0 < unat (hq_block_size (fst st))"
    using queue_inv_nat(4,5) [OF assms] by (simp add: word_less_nat_alt)
  moreover have "take (unat (hq_block_size (fst st))) (hd (queue_contents vb (fst st) (snd st)))
        = hd (queue_contents vb (fst st) (snd st))"
    if "queue_contents vb (fst st) (snd st) \<noteq> []"
    using queue_contents_block [OF assms hd_in_set [OF that]] queue_inv_nat(4) [OF assms] by simp
  ultimately show ?thesis
    using dequeue_spec [OF assms, of "unat (hq_block_size (fst st))" z "snd st"]
    by (auto simp: hq_get_def hyperamp_codes split: if_splits)
qed

interpretation hq: bounded_fifo
  "\<lambda>st. queue_inv vb cap bs (fst st)"
  "\<lambda>st. queue_contents vb (fst st) (snd st)"
  "unat cap - 1" "hq_valid bs" "hq_matches bs" "hq_put vb" "hq_get vb"
  for vb cap bs
proof (unfold_locales, goal_cases)
  case (1 st)
  then show ?case by (rule length_queue_contents)
next
  case (2 st msg)
  then show ?case using hq_put_spec [OF 2(1,2)] by auto
next
  case (3 st z)
  then show ?case using hq_get_spec [OF 3(1), of z] by auto
next
  case (4 st msg)
  then show ?case using hq_put_spec [OF 4(1,2)] by auto
next
  case (5 st msg)
  then show ?case using hq_put_spec [OF 5(1,2)] by (auto simp: hq_matches_def hq_valid_def)
next
  case (6 st msg)
  then show ?case using hq_put_spec [OF 6(1,2)] by auto
next
  case (7 st z)
  then show ?case using hq_get_spec [OF 7(1), of z] by auto
next
  case (8 st z)
  then show ?case using hq_get_spec [OF 8(1), of z] by auto
qed


section \<open>Initialisation writes the structure it means to\<close>

lemma byte_at_poke [mem_simps]:
  assumes "fits p k" "i < k" "j < k"
  shows "byte_at (poke p i v m) p j = (if i = j then v else byte_at m p j)"
proof (cases "i = j")
  case False
  then have "p + of_nat j \<noteq> p + (of_nat i :: u64)"
    using fits_unat [OF assms(1,2)] fits_unat [OF assms(1,3)] by (metis add_left_cancel)
  then show ?thesis using False by (simp add: byte_at_def poke_def)
qed (simp add: byte_at_def poke_def)

lemma byte_at_poke_loop [mem_simps]:
  assumes "fits p k" "off + n \<le> k" "j < k"
  shows "byte_at (poke_loop p off s n m) p j =
    (if off \<le> j \<and> j < off + n then s (j - off) else byte_at m p j)"
proof (cases "off \<le> j \<and> j < off + n")
  case True
  have f: "fits (p + of_nat off) n"
  proof (cases "n = 0")
    case False
    with assms have "unat (p + of_nat off) = unat p + off" by (intro fits_unat [of p k]) auto
    then show ?thesis using assms by (simp add: fits_def)
  qed (use True in simp)
  have a: "p + of_nat j = p + of_nat off + (of_nat (j - off) :: u64)"
    using True by (simp add: of_nat_diff)
  have "write_loop m (p + of_nat off) s n (p + of_nat j) = s (j - off)"
    unfolding a using True by (intro write_loop_inside [OF f]) auto
  then show ?thesis using True by (simp add: byte_at_def poke_loop_def)
next
  case False
  have "write_loop m (p + of_nat off) s n (p + of_nat j) = m (p + of_nat j)"
  proof (rule write_loop_outside)
    fix i assume "i < n"
    then have "unat (p + of_nat (off + i)) = unat p + (off + i)"
      using assms by (intro fits_unat [of p k]) auto
    moreover have "unat (p + of_nat j) = unat p + j" using assms by (intro fits_unat [of p k])
    ultimately show "p + of_nat j \<noteq> p + of_nat off + (of_nat i :: u64)"
      using False \<open>i < n\<close> by (auto simp: add.assoc)
  qed
  with False show ?thesis by (auto simp: byte_at_def poke_loop_def)
qed

lemma low_byte: "ucast (w AND 0xFF) = byte_of (w :: u16) 0"
  and high_byte: "ucast (drop_bit 8 w AND 0xFF) = byte_of (w :: u16) (Suc 0)"
proof -
  have *: "(0xFF :: u16) = mask 8" by (simp add: mask_eq_exp_minus_1)
  show "ucast (w AND 0xFF) = byte_of w 0" "ucast (drop_bit 8 w AND 0xFF) = byte_of w (Suc 0)"
    unfolding * by (rule bit_word_eqI,
      simp add: bit_byte_of bit_ucast_iff bit_and_iff bit_mask_iff bit_drop_bit_eq)+
qed

definition init_image :: "HyperampQueueConfig \<Rightarrow> (nat \<Rightarrow> u8) \<Rightarrow> nat \<Rightarrow> u8" where
  "init_image cfg old j =
    (if j < 2 then ucast (hc_map_mode cfg)
     else if j < 6 then 0
     else if j < 8 then byte_of (hc_capacity cfg) (j - 6)
     else if j < 10 then byte_of (hc_block_size cfg) (j - 8)
     else if j < 12 then 0
     else if j < 20 then byte_of (hc_phy_addr cfg) (j - 12)
     else if j < 28 then byte_of (hc_virt_addr cfg) (j - 20)
     else if j < 36 then 0
     else if j < off_queue_lock then old j
     else if j < off_magic then 0
     else if j < off_magic + 4 then byte_of HYPERAMP_QUEUE_MAGIC (j - off_magic)
     else if j < off_magic + 8 then byte_of (1 :: u32) (j - (off_magic + 4))
     else 0)"

lemma byte_at_init_scalars:
  assumes "fits p sizeof_HyperampShmQueue" "j < sizeof_HyperampShmQueue"
  shows "byte_at (queue_init_scalars p cfg m) p j =
    (if j < 12 then init_image cfg (byte_at m p) j else byte_at m p j)"
proof -
  have c: "j = 0 \<or> j = 1 \<or> j = 2 \<or> j = 3 \<or> j = 4 \<or> j = 5 \<or> j = 6 \<or> j = 7 \<or> j = 8 \<or> j = 9
      \<or> j = 10 \<or> j = 11 \<or> 12 \<le> j" by presburger
  note simps = queue_init_scalars_def Let_def byte_at_poke [OF assms(1)] init_image_def layout_defs
  from c assms(2) show ?thesis
    by (elim disjE) (simp_all add: simps high_byte, simp_all add: low_byte)
qed

lemma byte_at_init:
  assumes "fits p sizeof_HyperampShmQueue" "j < sizeof_HyperampShmQueue"
  shows "byte_at (queue_init_extension p (queue_init_addresses p cfg (queue_init_scalars p cfg m))) p j
    = init_image cfg (byte_at m p) j"
  using byte_at_init_scalars [OF assms, of cfg m] assms(2)
  by (simp add: queue_init_extension_def queue_init_addresses_def Let_def
      byte_at_poke_loop [OF assms(1)] init_image_def layout_defs)


lemma read_image_field:
  assumes "fits p sizeof_HyperampShmQueue" "off + n \<le> sizeof_HyperampShmQueue"
    and "m' = queue_init_extension p (queue_init_addresses p cfg (queue_init_scalars p cfg m))"
    and "LENGTH('a) \<le> 8 * n"
    and "\<And>i. i < n \<Longrightarrow> init_image cfg (byte_at m p) (off + i) = byte_of (w :: 'a::len word) i"
  shows "(read_le (\<lambda>i. byte_at m' p (off + i)) n :: 'a word) = w"
proof (rule read_le_byte_of)
  fix i assume "i < n"
  then have "off + i < sizeof_HyperampShmQueue" using assms(2) by simp
  then show "byte_at m' p (off + i) = byte_of w i"
    using assms(1,3,5) \<open>i < n\<close> byte_at_init by metis
qed (rule assms(4))

lemma byte_of_0 [simp]: "byte_of 0 i = 0"
  by (simp add: byte_of_def)

lemma load_table_init:
  assumes "fits p sizeof_HyperampShmQueue" "off_table1 \<le> off"
    and "off + 16 * HYPERAMP_MAX_MAP_TABLE_ENTRIES \<le> off_queue_lock"
    and "m' = queue_init_extension p (queue_init_addresses p cfg (queue_init_scalars p cfg m))"
  shows "load_table m' p off = load_table m p off"
proof -
  have "byte_at m' p j = byte_at m p j" if "off \<le> j" "j < off_queue_lock" for j
    using that assms(2) by (simp add: assms(4) byte_at_init [OF assms(1)] init_image_def layout_defs)
  then show ?thesis
    using assms(3) unfolding load_table_def hyperamp_safe_read_u64_def
    by (auto simp: layout_defs intro!: read_le_cong)
qed

lemma load_queue_init:
  assumes "fits p sizeof_HyperampShmQueue"
    and m': "m' = queue_init_extension p (queue_init_addresses p cfg (queue_init_scalars p cfg m))"
  shows "load_queue m' p = \<lparr>
     hq_map_mode1 = ucast (hc_map_mode cfg), hq_map_mode2 = ucast (hc_map_mode cfg),
     hq_header = 0, hq_tail = 0, hq_capacity = hc_capacity cfg, hq_block_size = hc_block_size cfg,
     hq_reserved = 0, hq_phy_addr = hc_phy_addr cfg, hq_virt_addr1 = hc_virt_addr cfg,
     hq_virt_addr2 = 0,
     hq_table1 = load_table m p off_table1, hq_table2 = load_table m p off_table2,
     hq_queue_lock = \<lparr>lk_lock_value = 0, lk_owner_zone_id = 0, lk_lock_count = 0,
       lk_contention_count = 0\<rparr>,
     hq_magic = HYPERAMP_QUEUE_MAGIC, hq_version = 1,
     hq_enqueue_count = 0, hq_dequeue_count = 0\<rparr>"
proof -
  note field = read_image_field [OF assms(1) _ m']
  have "byte_at m' p 0 = ucast (hc_map_mode cfg)" "byte_at m' p (Suc 0) = ucast (hc_map_mode cfg)"
    using byte_at_init [OF assms(1), of 0 cfg m] byte_at_init [OF assms(1), of "Suc 0" cfg m]
    by (simp_all add: m' init_image_def layout_defs)
  moreover have "hyperamp_safe_read_u16 m' p 2 = 0" "hyperamp_safe_read_u16 m' p 4 = 0"
    "hyperamp_safe_read_u16 m' p 6 = hc_capacity cfg" "hyperamp_safe_read_u16 m' p 8 = hc_block_size cfg"
    "hyperamp_safe_read_u16 m' p 10 = 0"
    unfolding hyperamp_safe_read_u16_def by (rule field; simp add: init_image_def layout_defs)+
  moreover have "hyperamp_safe_read_u64 m' p 12 = hc_phy_addr cfg"
    "hyperamp_safe_read_u64 m' p 20 = hc_virt_addr cfg" "hyperamp_safe_read_u64 m' p 28 = 0"
    unfolding hyperamp_safe_read_u64_def by (rule field; simp add: init_image_def layout_defs)+
  moreover have "hyperamp_safe_read_u32 m' p off_queue_lock = 0"
    "hyperamp_safe_read_u32 m' p (off_queue_lock + 4) = 0"
    "hyperamp_safe_read_u32 m' p (off_queue_lock + 8) = 0"
    "hyperamp_safe_read_u32 m' p (off_queue_lock + 12) = 0"
    unfolding hyperamp_safe_read_u32_def by (rule field; simp add: init_image_def layout_defs)+
  moreover have "hyperamp_safe_read_u32 m' p off_magic = HYPERAMP_QUEUE_MAGIC"
    "hyperamp_safe_read_u32 m' p (off_magic + 4) = 1"
    "hyperamp_safe_read_u32 m' p (off_magic + 8) = 0"
    "hyperamp_safe_read_u32 m' p (off_magic + 12) = 0"
    unfolding hyperamp_safe_read_u32_def by (rule field; simp add: init_image_def layout_defs)+
  moreover have "load_table m' p off_table1 = load_table m p off_table1"
    "load_table m' p off_table2 = load_table m p off_table2"
    by (rule load_table_init [OF assms(1) _ _ m']; simp add: layout_defs)+
  ultimately show ?thesis by (simp add: load_queue_def load_lock_def)
qed


section \<open>Properties\<close>

text \<open>
  C1.  A HyperAMP queue is a bounded FIFO.  Whatever sequence of enqueues (of
  messages that fit a block) and dequeues the two zones run on an initialised
  queue, the blocks delivered followed by the blocks still stored are exactly the
  blocks stored at the start followed by the accepted messages, in order; and the
  queue is again in a consistent state with its lock released.
\<close>

theorem hyperamp_queue_fifo:
  assumes "queue_inv vb cap bs q"
    and "\<forall>msg. Put msg \<in> set ops \<longrightarrow> hq_valid bs msg"
    and "run_queue (hq_put vb) (hq_get vb) ops (q, m) = (accepted, delivered, q', m')"
  shows "queue_inv vb cap bs q' \<and>
    (\<exists>blocks. list_all2 (hq_matches bs) accepted blocks \<and>
       queue_contents vb q m @ blocks = delivered @ queue_contents vb q' m')"
  using hq.run_fifo [of vb cap bs "(q, m)" ops accepted delivered "(q', m')"] assms by auto

text \<open>
  C2.  Enqueue, every branch.  On an initialised queue a call returns (never hangs),
  with the lock released: a message that is empty or longer than a block is refused
  with \<open>HYPERAMP_ERROR\<close> and nothing changes; a full queue (\<open>capacity - 1\<close> blocks) answers
  \<open>HYPERAMP_AGAIN\<close> and keeps its contents; otherwise the message becomes the last block.
\<close>

theorem hyperamp_queue_enqueue_correct:
  assumes "queue_inv vb cap bs q"
  shows "\<exists>r q' m'. hyperamp_queue_enqueue (Some q) z (Some d) (length d) vb m = Some (r, Some q', m')
    \<and> queue_inv vb cap bs q'
    \<and> (if d = [] \<or> length d > unat bs then r = HYPERAMP_ERROR \<and> q' = q \<and> m' = m
       else if length (queue_contents vb q m) < unat cap - 1
       then r = HYPERAMP_OK \<and> (\<exists>pad. length d + length pad = unat bs \<and>
              queue_contents vb q' m' = queue_contents vb q m @ [d @ pad])
       else r = HYPERAMP_AGAIN \<and> queue_contents vb q' m' = queue_contents vb q m)"
proof (cases "d = [] \<or> length d > unat bs")
  case True
  then show ?thesis using assms queue_inv_nat(4) [OF assms]
    by (auto simp: hyperamp_queue_enqueue_def)
next
  case False
  then have "0 < length d" "length d \<le> unat bs" by auto
  from enqueue_spec [OF assms this, of z m] False show ?thesis
    by (auto split: if_splits intro!: exI [of _ "drop (length d) (slot_block vb bs m (unat (hq_header q)))"])
qed

text \<open>
  C3.  Dequeue, every branch.  On an initialised queue a call with a usable buffer
  returns with the lock released: \<open>HYPERAMP_AGAIN\<close> exactly when the queue is empty,
  otherwise the oldest block, cut to the buffer's size, and the block is removed.
  A peek before it reads the same bytes and removes nothing; on an empty queue the peek
  says \<open>HYPERAMP_ERROR\<close>.
\<close>

theorem hyperamp_queue_dequeue_correct:
  assumes "queue_inv vb cap bs q" "0 < n"
  shows "(\<exists>q'. hyperamp_queue_dequeue (Some q) z True n vb m =
        Some (if queue_contents vb q m = [] then (HYPERAMP_AGAIN, [], Some q')
              else (HYPERAMP_OK, take n (hd (queue_contents vb q m)), Some q'))
      \<and> queue_inv vb cap bs q' \<and> queue_contents vb q' m = tl (queue_contents vb q m))
    \<and> (\<exists>q''. hyperamp_queue_peek (Some q) z True n vb m =
        Some (if queue_contents vb q m = [] then (HYPERAMP_ERROR, [], Some q'')
              else (HYPERAMP_OK, take n (hd (queue_contents vb q m)), Some q''))
      \<and> queue_inv vb cap bs q'' \<and> queue_contents vb q'' m = queue_contents vb q m)"
  using dequeue_spec [OF assms, of z m] peek_spec [OF assms, of z m] by (auto split: if_splits)

text \<open>
  C4.  Queue creation.  For a non-null control block that does not wrap around the
  address space and a configuration with non-zero capacity and block size, the
  creator's byte-wise writes leave exactly the intended structure in memory: empty ring,
  given geometry and addresses, free lock, magic and version, mapping tables untouched.
  The created queue satisfies the queue invariant, is empty, and
  \<open>hyperamp_queue_is_initialized\<close> recognises it.
\<close>

theorem hyperamp_queue_init_correct:
  assumes "p \<noteq> 0" "fits p sizeof_HyperampShmQueue"
    and "hc_block_size cfg \<noteq> 0" "hc_capacity cfg \<noteq> 0" "creator \<noteq> 0"
    and "fits vb ((unat (hc_capacity cfg) + 1) * unat (hc_block_size cfg))"
    and "hyperamp_queue_init p (Some cfg) creator m = (r, m')"
  shows "r = HYPERAMP_OK
    \<and> queue_inv vb (hc_capacity cfg) (hc_block_size cfg) (load_queue m' p)
    \<and> queue_contents vb (load_queue m' p) m' = []
    \<and> hq_magic (load_queue m' p) = HYPERAMP_QUEUE_MAGIC \<and> hq_version (load_queue m' p) = 1
    \<and> hq_phy_addr (load_queue m' p) = hc_phy_addr cfg
    \<and> hq_virt_addr1 (load_queue m' p) = hc_virt_addr cfg
    \<and> hq_table1 (load_queue m' p) = hq_table1 (load_queue m p)
    \<and> hq_table2 (load_queue m' p) = hq_table2 (load_queue m p)
    \<and> hyperamp_queue_is_initialized p m' = 1"
proof -
  have r: "r = HYPERAMP_OK"
    and m': "m' = queue_init_extension p (queue_init_addresses p cfg (queue_init_scalars p cfg m))"
    using assms by (auto simp: hyperamp_queue_init_def)
  note L = load_queue_init [OF assms(2) m']
  have "hyperamp_safe_read_u16 m' p 6 = hc_capacity cfg"
    using arg_cong [OF L, of hq_capacity] by (simp add: load_queue_def)
  moreover have "hq_table1 (load_queue m p) = load_table m p off_table1"
    "hq_table2 (load_queue m p) = load_table m p off_table2"
    by (simp_all add: load_queue_def)
  ultimately show ?thesis
    using assms r by (simp add: L queue_inv_def queue_contents_def ring_slots_empty lock_is_free_def
        hyperamp_queue_is_initialized_def hyperamp_safe_read_u16_def word_neq_0_conv)
qed

text \<open>
  C40.  The zero-copy path does what the copying path does: on an initialised queue,
  allocating a slot and copying the message to the returned address gives the state of an
  enqueue, and releasing a slot gives the state of a dequeue.  The two paths differ only in
  the code for a full or empty queue, \<open>HYPERAMP_ERROR\<close> instead of \<open>HYPERAMP_AGAIN\<close>.
\<close>

theorem hyperamp_zero_copy_equiv:
  assumes "queue_inv vb cap bs q" "0 < length d" "length d \<le> unat bs"
  shows "hyperamp_queue_enqueue (Some q) z (Some d) (length d) vb m =
        (case hyperamp_queue_alloc_slot (Some q) z True vb of
           Some (r, Some addr, q') \<Rightarrow> Some (r, q', hyperamp_safe_memcpy m addr d (length d))
         | Some (r, None, q') \<Rightarrow> Some (HYPERAMP_AGAIN, q', m)
         | None \<Rightarrow> None)
    \<and> map_option (\<lambda>(r, q'). (r = HYPERAMP_OK, q')) (hyperamp_queue_release_slot (Some q) z)
       = map_option (\<lambda>(r, _, q'). (r = HYPERAMP_OK, q'))
           (hyperamp_queue_dequeue (Some q) z True 1 vb m)"
proof -
  have w: "hq_header q < hq_capacity q" "hq_tail q < hq_capacity q"
    using assms(1) by (auto simp: queue_inv_def)
  show ?thesis
    using queue_inv_nat(4,6) [OF assms(1)] assms(2,3)
    by (auto simp: hyperamp_queue_enqueue_def hyperamp_queue_alloc_slot_def
        hyperamp_queue_release_slot_def hyperamp_queue_dequeue_def
        ring_mod_u16_eq [OF w(1)] ring_mod_u16_eq [OF w(2)] Let_def hyperamp_codes)
qed

text \<open>
  The status macros of the header agree with the stored blocks: emptiness,
  fullness (\<open>capacity - 1\<close> blocks) and the number of elements.
\<close>

lemma hyperamp_queue_macros:
  assumes "queue_inv vb cap bs q"
  shows "HYPERAMP_QUEUE_LENGTH q = int (length (queue_contents vb q m))
    \<and> (HYPERAMP_QUEUE_IS_EMPTY q \<longleftrightarrow> queue_contents vb q m = [])
    \<and> (HYPERAMP_QUEUE_IS_FULL q \<longleftrightarrow> length (queue_contents vb q m) = unat cap - 1)"
proof -
  note I = queue_inv_nat [OF assms]
  have "HYPERAMP_QUEUE_LENGTH q = int (length (queue_contents vb q m))"
    using I by (simp add: HYPERAMP_QUEUE_LENGTH_def queue_contents_def ring_len_def
        word_le_nat_alt of_nat_diff)
  moreover have "HYPERAMP_QUEUE_IS_EMPTY q \<longleftrightarrow> queue_contents vb q m = []"
    using ring_len_0_iff [OF I(1,2)] I(3) length_0_conv [of "queue_contents vb q m"]
    by (simp add: HYPERAMP_QUEUE_IS_EMPTY_def queue_contents_def word_unat_eq_iff)
  moreover have "HYPERAMP_QUEUE_IS_FULL q \<longleftrightarrow> length (queue_contents vb q m) = unat cap - 1"
    using ring_len_full_iff [OF I(1,2)] ring_next_mod [OF I(1)] I(3)
    by (simp add: HYPERAMP_QUEUE_IS_FULL_def queue_contents_def)
  ultimately show ?thesis by blast
qed


section \<open>A concrete queue\<close>

text \<open>Four slots of two bytes at address 4096, empty and unlocked.\<close>

definition sample_config :: HyperampQueueConfig where
  "sample_config = \<lparr>hc_map_mode = 0, hc_capacity = 4, hc_block_size = 2,
     hc_phy_addr = 0x7E000000, hc_virt_addr = 8192\<rparr>"

definition sample_queue :: HyperampShmQueue where
  "sample_queue = \<lparr>hq_map_mode1 = 0, hq_map_mode2 = 0, hq_header = 0, hq_tail = 0,
     hq_capacity = 4, hq_block_size = 2, hq_reserved = 0, hq_phy_addr = 0x7E000000,
     hq_virt_addr1 = 8192, hq_virt_addr2 = 0, hq_table1 = [], hq_table2 = [],
     hq_queue_lock = \<lparr>lk_lock_value = 0, lk_owner_zone_id = 0, lk_lock_count = 0,
       lk_contention_count = 0\<rparr>,
     hq_magic = HYPERAMP_QUEUE_MAGIC, hq_version = 1, hq_enqueue_count = 0,
     hq_dequeue_count = 0\<rparr>"

definition sample_mem :: mem where "sample_mem = (\<lambda>_. 0)"

lemma sample_inv: "queue_inv 4096 4 2 sample_queue"
  by (simp add: queue_inv_def sample_queue_def lock_is_free_def fits_def)

definition sample_ops :: "(u32 \<times> bytes, u32) queue_op list" where
  "sample_ops = [Put (0, [1, 2]), Put (0, [3]), Get 1, Put (0, [4, 5])]"

definition sample_final :: "HyperampShmQueue \<times> mem" where
  "sample_final = snd (snd (run_queue (hq_put 4096) (hq_get 4096) sample_ops (sample_queue, sample_mem)))"

lemma sample_run:
  "run_queue (hq_put 4096) (hq_get 4096) sample_ops (sample_queue, sample_mem)
     = ([(0, [1, 2]), (0, [3]), (0, [4, 5])], [[1, 2]], sample_final)"
proof -
  have "fst (run_queue (hq_put 4096) (hq_get 4096) sample_ops (sample_queue, sample_mem))
      = [(0, [1, 2]), (0, [3]), (0, [4, 5])]"
    and "fst (snd (run_queue (hq_put 4096) (hq_get 4096) sample_ops (sample_queue, sample_mem)))
      = [[1, 2]]"
    by code_simp+
  then show ?thesis by (metis prod.collapse sample_final_def)
qed

theorem hyperamp_queue_fifo_witness:
  "queue_inv 4096 4 2 (fst sample_final) \<and>
   (\<exists>blocks. list_all2 (hq_matches 2) [(0, [1, 2]), (0, [3]), (0, [4, 5])] blocks \<and>
      blocks = [1, 2] # queue_contents 4096 (fst sample_final) (snd sample_final))"
proof -
  have "\<forall>msg. Put msg \<in> set sample_ops \<longrightarrow> hq_valid 2 msg"
    by (auto simp: sample_ops_def hq_valid_def)
  moreover have "queue_contents 4096 sample_queue sample_mem = []" by code_simp
  ultimately show ?thesis
    using hyperamp_queue_fifo [OF sample_inv, of sample_ops sample_mem
        "[(0, [1, 2]), (0, [3]), (0, [4, 5])]" "[[1, 2]]" "fst sample_final" "snd sample_final"]
      sample_run by simp
qed

theorem hyperamp_queue_enqueue_correct_witness:
  "\<exists>q' m'. hyperamp_queue_enqueue (Some sample_queue) 0 (Some [7]) 1 4096 sample_mem
      = Some (HYPERAMP_OK, Some q', m') \<and> queue_inv 4096 4 2 q' \<and>
      (\<exists>pad. queue_contents 4096 q' m' = [[7] @ pad])"
proof -
  have "queue_contents 4096 sample_queue sample_mem = []" by code_simp
  then show ?thesis
    using hyperamp_queue_enqueue_correct [OF sample_inv, of 0 "[7]" sample_mem]
    by (auto simp: hyperamp_codes)
qed

theorem hyperamp_queue_dequeue_correct_witness:
  "\<exists>q'. hyperamp_queue_dequeue (Some sample_queue) 1 True 2 4096 sample_mem
      = Some (HYPERAMP_AGAIN, [], Some q') \<and> queue_contents 4096 q' sample_mem = []"
proof -
  have "queue_contents 4096 sample_queue sample_mem = []" by code_simp
  then show ?thesis
    using hyperamp_queue_dequeue_correct [OF sample_inv, of 2 1 sample_mem] by auto
qed

theorem hyperamp_queue_init_correct_witness:
  "\<exists>m'. hyperamp_queue_init 8192 (Some sample_config) 1 sample_mem = (HYPERAMP_OK, m') \<and>
     queue_inv 4096 4 2 (load_queue m' 8192) \<and> hyperamp_queue_is_initialized 8192 m' = 1"
proof -
  obtain r m' where "hyperamp_queue_init 8192 (Some sample_config) 1 sample_mem = (r, m')"
    by fastforce
  then show ?thesis
    using hyperamp_queue_init_correct [of 8192 sample_config 1 4096 sample_mem r m']
    by (simp add: sample_config_def fits_def layout_defs)
qed

theorem hyperamp_zero_copy_equiv_witness:
  "map_option fst (hyperamp_queue_alloc_slot (Some sample_queue) 0 True 4096) = Some HYPERAMP_OK \<and>
   hyperamp_queue_enqueue (Some sample_queue) 0 (Some [7]) (length [7 :: u8]) 4096 sample_mem =
     (case hyperamp_queue_alloc_slot (Some sample_queue) 0 True 4096 of
        Some (r, Some addr, q') \<Rightarrow> Some (r, q', hyperamp_safe_memcpy sample_mem addr [7] (length [7 :: u8]))
      | Some (r, None, q') \<Rightarrow> Some (HYPERAMP_AGAIN, q', sample_mem)
      | None \<Rightarrow> None)"
proof
  show "map_option fst (hyperamp_queue_alloc_slot (Some sample_queue) 0 True 4096) = Some HYPERAMP_OK"
    by code_simp
qed (rule conjunct1 [OF hyperamp_zero_copy_equiv [OF sample_inv]]; simp)

end
