(* ===== verification/Hyperamp_Spinlock.thy ===== *)
theory Hyperamp_Spinlock
  imports Hyperamp_Queue
begin

text \<open>
  The queue's spinlock under interleaving (\<open>hyperamp_spinlock_lock\<close>,
  \<open>_trylock\<close> and \<open>_unlock\<close> of \<open>src/src/hyperamp_shm_queue.c\<close>): any number of
  CPUs run the instruction sequences of the source in any order.  The ARM64 path is
  modelled instruction by instruction with its exclusive monitors, the portable
  fallback with one step per memory access.
\<close>

section \<open>ARM64: load-acquire exclusive and store-release exclusive\<close>

text \<open>
  Program points of one CPU.  \<open>bool\<close> is true inside \<open>trylock\<close>, which gives up where
  \<open>lock\<close> retries; the word is the register \<open>tmp\<close>.
\<close>

datatype lock_pc =
    Idle
  | Ldaxr bool
  | Cbnz_busy bool u32
  | Stlxr bool
  | Cbnz_status bool u32
  | Set_owner
  | Inc_count
  | Critical
  | Clear_owner
  | Stlr

record lock_sys =
  ls_lock :: HyperampSpinlock
  ls_monitor :: "nat \<Rightarrow> bool"
  ls_pc :: "nat \<Rightarrow> lock_pc"

abbreviation goto :: "nat \<Rightarrow> lock_pc \<Rightarrow> lock_sys \<Rightarrow> lock_sys" where
  "goto c l s \<equiv> s\<lparr>ls_pc := (ls_pc s)(c := l)\<rparr>"

abbreviation set_lock_value :: "u32 \<Rightarrow> lock_sys \<Rightarrow> lock_sys" where
  "set_lock_value v s \<equiv> s\<lparr>ls_lock := (ls_lock s)\<lparr>lk_lock_value := v\<rparr>, ls_monitor := (\<lambda>_. False)\<rparr>"

text \<open>
  A store to \<open>lock_value\<close> clears every exclusive monitor; a monitor may also be lost
  at any time (interrupts, neighbouring stores); a store-exclusive without its monitor
  fails with status 1.  \<open>zone c\<close> is the zone id CPU \<open>c\<close> passes.
\<close>

inductive arm_step :: "(nat \<Rightarrow> u32) \<Rightarrow> lock_sys \<Rightarrow> lock_sys \<Rightarrow> bool" for zone where
  call: "ls_pc s c = Idle \<Longrightarrow> arm_step zone s (goto c (Ldaxr tr) s)"
| ldaxr: "ls_pc s c = Ldaxr tr \<Longrightarrow>
    arm_step zone s (goto c (Cbnz_busy tr (lk_lock_value (ls_lock s)))
      (s\<lparr>ls_monitor := (ls_monitor s)(c := True)\<rparr>))"
| busy: "ls_pc s c = Cbnz_busy tr v \<Longrightarrow> v \<noteq> 0 \<Longrightarrow>
    arm_step zone s (goto c (if tr then Idle else Ldaxr False) s)"
| free: "ls_pc s c = Cbnz_busy tr 0 \<Longrightarrow> arm_step zone s (goto c (Stlxr tr) s)"
| stlxr_ok: "ls_pc s c = Stlxr tr \<Longrightarrow> ls_monitor s c \<Longrightarrow>
    arm_step zone s (goto c (Cbnz_status tr 0) (set_lock_value 1 s))"
| stlxr_fail: "ls_pc s c = Stlxr tr \<Longrightarrow> \<not> ls_monitor s c \<Longrightarrow>
    arm_step zone s (goto c (Cbnz_status tr 1) s)"
| retry: "ls_pc s c = Cbnz_status tr v \<Longrightarrow> v \<noteq> 0 \<Longrightarrow>
    arm_step zone s (goto c (if tr then Idle else Ldaxr False) s)"
| acquired: "ls_pc s c = Cbnz_status tr 0 \<Longrightarrow> arm_step zone s (goto c Set_owner s)"
| set_owner: "ls_pc s c = Set_owner \<Longrightarrow>
    arm_step zone s (goto c Inc_count (s\<lparr>ls_lock := (ls_lock s)\<lparr>lk_owner_zone_id := zone c\<rparr>\<rparr>))"
| inc_count: "ls_pc s c = Inc_count \<Longrightarrow>
    arm_step zone s (goto c Critical
      (s\<lparr>ls_lock := (ls_lock s)\<lparr>lk_lock_count := lk_lock_count (ls_lock s) + 1\<rparr>\<rparr>))"
| unlock: "ls_pc s c = Critical \<Longrightarrow> arm_step zone s (goto c Clear_owner s)"
| clear_owner: "ls_pc s c = Clear_owner \<Longrightarrow>
    arm_step zone s (goto c Stlr (s\<lparr>ls_lock := (ls_lock s)\<lparr>lk_owner_zone_id := 0\<rparr>\<rparr>))"
| stlr: "ls_pc s c = Stlr \<Longrightarrow> arm_step zone s (goto c Idle (set_lock_value 0 s))"
| monitor_lost: "arm_step zone s (s\<lparr>ls_monitor := (ls_monitor s)(c := False)\<rparr>)"

definition arm_init :: "lock_sys \<Rightarrow> bool" where
  "arm_init s \<longleftrightarrow> hyperamp_spinlock_init (Some (ls_lock s)) = Some (ls_lock s) \<and>
     (\<forall>c. ls_pc s c = Idle) \<and> (\<forall>c. \<not> ls_monitor s c)"

inductive arm_reachable :: "(nat \<Rightarrow> u32) \<Rightarrow> lock_sys \<Rightarrow> bool" for zone where
  start: "arm_init s \<Longrightarrow> arm_reachable zone s"
| step: "arm_reachable zone s \<Longrightarrow> arm_step zone s s' \<Longrightarrow> arm_reachable zone s'"

text \<open>The points between a successful store-exclusive and the releasing store.\<close>

definition holds :: "lock_pc \<Rightarrow> bool" where
  "holds l \<longleftrightarrow> (\<exists>tr. l = Cbnz_status tr 0) \<or> l \<in> {Set_owner, Inc_count, Critical, Clear_owner, Stlr}"

definition lock_inv :: "(nat \<Rightarrow> u32) \<Rightarrow> lock_sys \<Rightarrow> bool" where
  "lock_inv zone s \<longleftrightarrow>
     (\<forall>c d. holds (ls_pc s c) \<and> holds (ls_pc s d) \<longrightarrow> c = d) \<and>
     (lk_lock_value (ls_lock s) = (if \<exists>c. holds (ls_pc s c) then 1 else 0)) \<and>
     (\<forall>c tr. (ls_pc s c = Stlxr tr \<or> ls_pc s c = Cbnz_busy tr 0) \<and> ls_monitor s c \<longrightarrow>
        lk_lock_value (ls_lock s) = 0) \<and>
     (\<forall>c. ls_pc s c \<in> {Inc_count, Critical, Clear_owner} \<longrightarrow>
        lk_owner_zone_id (ls_lock s) = zone c)"

lemma holds_simps [simp]:
  "\<not> holds Idle" "\<not> holds (Ldaxr t)" "\<not> holds (Cbnz_busy t v)" "\<not> holds (Stlxr t)"
  "holds (Cbnz_status t v) \<longleftrightarrow> v = 0" "holds Set_owner" "holds Inc_count" "holds Critical"
  "holds Clear_owner" "holds Stlr"
  by (auto simp: holds_def)

lemma lock_inv_init: "arm_init s \<Longrightarrow> lock_inv zone s"
  by (cases "ls_lock s") (auto simp: arm_init_def lock_inv_def hyperamp_spinlock_init_def)

lemma lock_invD:
  assumes "lock_inv zone s"
  shows "holds (ls_pc s c) \<Longrightarrow> holds (ls_pc s d) \<Longrightarrow> c = d"
    and "lk_lock_value (ls_lock s) = (if \<exists>c. holds (ls_pc s c) then 1 else 0)"
    and "ls_pc s c = Stlxr tr \<or> ls_pc s c = Cbnz_busy tr 0 \<Longrightarrow> ls_monitor s c \<Longrightarrow>
           lk_lock_value (ls_lock s) = 0"
    and "ls_pc s c \<in> {Inc_count, Critical, Clear_owner} \<Longrightarrow> lk_owner_zone_id (ls_lock s) = zone c"
  using assms unfolding lock_inv_def by blast+

text \<open>A step of CPU \<open>c\<close> that neither takes nor releases the lock.\<close>

lemma lock_inv_frame:
  assumes inv: "lock_inv zone s"
    and pc: "ls_pc s' = (ls_pc s)(c := l)" "holds l \<longleftrightarrow> holds (ls_pc s c)"
    and val: "lk_lock_value (ls_lock s') = lk_lock_value (ls_lock s)"
    and mon: "\<And>d. d \<noteq> c \<Longrightarrow> ls_monitor s' d \<Longrightarrow> ls_monitor s d"
      "\<And>tr. l = Stlxr tr \<or> l = Cbnz_busy tr 0 \<Longrightarrow> ls_monitor s' c \<Longrightarrow> lk_lock_value (ls_lock s) = 0"
    and own: "l \<in> {Inc_count, Critical, Clear_owner} \<Longrightarrow> lk_owner_zone_id (ls_lock s') = zone c"
      "lk_owner_zone_id (ls_lock s') = lk_owner_zone_id (ls_lock s) \<or> holds (ls_pc s c)"
  shows "lock_inv zone s'"
proof -
  have h: "holds (ls_pc s' d) \<longleftrightarrow> holds (ls_pc s d)" for d using pc by simp
  have other: "lk_owner_zone_id (ls_lock s') = zone d"
    if "d \<noteq> c" "ls_pc s d \<in> {Inc_count, Critical, Clear_owner}" for d
  proof -
    have "holds (ls_pc s d)" using that(2) by auto
    then have "\<not> holds (ls_pc s c)" using lock_invD(1) [OF inv] that(1) by blast
    then show ?thesis using own(2) lock_invD(4) [OF inv that(2)] by simp
  qed
  have busy: "lk_lock_value (ls_lock s') = 0"
    if "ls_pc s' d = Stlxr tr \<or> ls_pc s' d = Cbnz_busy tr 0" "ls_monitor s' d" for d tr
  proof (cases "d = c")
    case True
    then show ?thesis using that pc(1) mon(2) val by auto
  next
    case False
    then show ?thesis using that pc(1) mon(1) [OF False] lock_invD(3) [OF inv, of d tr] val by simp
  qed
  have owner: "lk_owner_zone_id (ls_lock s') = zone d"
    if "ls_pc s' d \<in> {Inc_count, Critical, Clear_owner}" for d
    using that pc(1) own(1) other by (cases "d = c") auto
  have lval: "lk_lock_value (ls_lock s') = (if \<exists>c. holds (ls_pc s' c) then 1 else 0)"
    unfolding val h by (rule lock_invD(2) [OF inv])
  show ?thesis
    unfolding lock_inv_def using h lock_invD(1) [OF inv] busy owner lval by blast
qed

lemma lock_inv_step:
  assumes "arm_step zone s s'" "lock_inv zone s"
  shows "lock_inv zone s'"
  using assms
proof (induction rule: arm_step.induct)
  case (stlxr_ok s c tr)
  then have "lk_lock_value (ls_lock s) = 0" by (intro lock_invD(3)) auto
  then have none: "\<not> holds (ls_pc s d)" for d
    using lock_invD(2) [OF stlxr_ok(3)] by (metis zero_neq_one)
  have "ls_pc s d \<notin> {Inc_count, Critical, Clear_owner}" for d using none [of d] by auto
  with none show ?case by (auto simp: lock_inv_def)
next
  case (stlr s c)
  then have none: "\<not> holds (ls_pc s d)" if "d \<noteq> c" for d
    using that lock_invD(1) [OF stlr(2), of c d] by auto
  have "ls_pc s d \<notin> {Inc_count, Critical, Clear_owner}" if "d \<noteq> c" for d using none [OF that] by auto
  with none show ?case by (auto simp: lock_inv_def)
next
  case (ldaxr s c tr)
  then show ?case by (intro lock_inv_frame [OF ldaxr(2), where c = c]) auto
next
  case (monitor_lost s c)
  then show ?case
    using lock_invD(4) [OF monitor_lost] lock_invD(3) [OF monitor_lost, of c]
    by (intro lock_inv_frame [OF monitor_lost, where c = c and l = "ls_pc s c"]) auto
next
  case (free s c tr)
  then show ?case using lock_invD(3) [OF free(2), of c]
    by (intro lock_inv_frame [OF free(2), where c = c]) auto
next
  case (inc_count s c)
  then show ?case using lock_invD(4) [OF inc_count(2), of c]
    by (intro lock_inv_frame [OF inc_count(2), where c = c]) auto
next
  case (unlock s c)
  then show ?case using lock_invD(4) [OF unlock(2), of c]
    by (intro lock_inv_frame [OF unlock(2), where c = c]) auto
next
  case (call s c tr)
  then show ?case by (intro lock_inv_frame [OF call(2), where c = c]) auto
next
  case (busy s c tr v)
  then show ?case by (intro lock_inv_frame [OF busy(3), where c = c]) (auto split: if_splits)
next
  case (stlxr_fail s c tr)
  then show ?case by (intro lock_inv_frame [OF stlxr_fail(3), where c = c]) auto
next
  case (retry s c tr v)
  then show ?case by (intro lock_inv_frame [OF retry(3), where c = c]) (auto split: if_splits)
next
  case (acquired s c tr)
  then show ?case by (intro lock_inv_frame [OF acquired(2), where c = c]) auto
next
  case (set_owner s c)
  then show ?case by (intro lock_inv_frame [OF set_owner(2), where c = c]) auto
next
  case (clear_owner s c)
  then show ?case by (intro lock_inv_frame [OF clear_owner(2), where c = c]) auto
qed

lemma arm_reachable_inv: "arm_reachable zone s \<Longrightarrow> lock_inv zone s"
  by (induction rule: arm_reachable.induct) (auto intro: lock_inv_init lock_inv_step)


section \<open>The portable fallback\<close>

text \<open>
  The \<open>#else\<close> branch of the source tests, stores and re-tests \<open>lock_value\<close> with plain
  accesses; each access is one step.
\<close>

datatype sw_pc = Sw_idle | Sw_test | Sw_store | Sw_retest | Sw_critical

record sw_sys =
  sw_lock_value :: u32
  sw_pcs :: "nat \<Rightarrow> sw_pc"

inductive sw_step :: "sw_sys \<Rightarrow> sw_sys \<Rightarrow> bool" where
  sw_call: "sw_pcs s c = Sw_idle \<Longrightarrow> sw_step s (s\<lparr>sw_pcs := (sw_pcs s)(c := Sw_test)\<rparr>)"
| sw_spin: "sw_pcs s c = Sw_test \<Longrightarrow> sw_lock_value s \<noteq> 0 \<Longrightarrow> sw_step s s"
| sw_free: "sw_pcs s c = Sw_test \<Longrightarrow> sw_lock_value s = 0 \<Longrightarrow>
    sw_step s (s\<lparr>sw_pcs := (sw_pcs s)(c := Sw_store)\<rparr>)"
| sw_store: "sw_pcs s c = Sw_store \<Longrightarrow>
    sw_step s (s\<lparr>sw_lock_value := 1, sw_pcs := (sw_pcs s)(c := Sw_retest)\<rparr>)"
| sw_acquire: "sw_pcs s c = Sw_retest \<Longrightarrow> sw_lock_value s = 1 \<Longrightarrow>
    sw_step s (s\<lparr>sw_pcs := (sw_pcs s)(c := Sw_critical)\<rparr>)"
| sw_again: "sw_pcs s c = Sw_retest \<Longrightarrow> sw_lock_value s \<noteq> 1 \<Longrightarrow>
    sw_step s (s\<lparr>sw_pcs := (sw_pcs s)(c := Sw_test)\<rparr>)"
| sw_unlock: "sw_pcs s c = Sw_critical \<Longrightarrow>
    sw_step s (s\<lparr>sw_lock_value := 0, sw_pcs := (sw_pcs s)(c := Sw_idle)\<rparr>)"

definition sw_init :: sw_sys where
  "sw_init = \<lparr>sw_lock_value = 0, sw_pcs = (\<lambda>_. Sw_idle)\<rparr>"


section \<open>Properties\<close>

text \<open>
  C5.  Mutual exclusion of the ARM64 spinlock.  In every reachable state of any
  number of CPUs that lock, try-lock and unlock in any interleaving, with monitors
  lost at any time, at most one CPU is inside the critical section; meanwhile
  \<open>lock_value\<close> is 1 and \<open>owner_zone_id\<close> is the zone of that CPU.
\<close>

theorem spinlock_mutual_exclusion:
  assumes "arm_reachable zone s" "ls_pc s c = Critical"
  shows "lk_lock_value (ls_lock s) = 1 \<and> lk_owner_zone_id (ls_lock s) = zone c
    \<and> (\<forall>d. ls_pc s d = Critical \<longrightarrow> d = c)"
proof -
  have inv: "lock_inv zone s" using assms(1) by (rule arm_reachable_inv)
  have "holds (ls_pc s c)" using assms(2) by simp
  then have "lk_lock_value (ls_lock s) = 1" using inv by (auto simp: lock_inv_def)
  moreover have "d = c" if "ls_pc s d = Critical" for d
    using inv \<open>holds (ls_pc s c)\<close> that by (auto simp: lock_inv_def)
  ultimately show ?thesis using inv assms(2) by (auto simp: lock_inv_def)
qed

text \<open>
  The portable fallback does not exclude: two CPUs that both find \<open>lock_value\<close>
  zero both store 1, both re-read 1, and both enter the critical section.
\<close>

lemma sw_spinlock_not_exclusive:
  "\<exists>s. sw_step\<^sup>*\<^sup>* sw_init s \<and> sw_pcs s 0 = Sw_critical \<and> sw_pcs s 1 = Sw_critical"
proof -
  let ?st = "\<lambda>v a b. \<lparr>sw_lock_value = v, sw_pcs = (\<lambda>_. Sw_idle)(0 := a, 1 := b)\<rparr>"
  have call0: "sw_step sw_init (?st 0 Sw_test Sw_idle)"
  proof -
    have "(\<lambda>_. Sw_idle)(0 := Sw_test, 1 := Sw_idle) = (\<lambda>_. Sw_idle)(0 :: nat := Sw_test)" by auto
    then show ?thesis using sw_call [of sw_init 0] by (simp add: sw_init_def)
  qed
  have call1: "sw_step (?st 0 Sw_test Sw_idle) (?st 0 Sw_test Sw_test)"
    using sw_call [of "?st 0 Sw_test Sw_idle" 1] by (simp add: fun_upd_twist)
  have free0: "sw_step (?st 0 Sw_test Sw_test) (?st 0 Sw_store Sw_test)"
    using sw_free [of "?st 0 Sw_test Sw_test" 0] by (simp add: fun_upd_twist)
  have free1: "sw_step (?st 0 Sw_store Sw_test) (?st 0 Sw_store Sw_store)"
    using sw_free [of "?st 0 Sw_store Sw_test" 1] by (simp add: fun_upd_twist)
  have store0: "sw_step (?st 0 Sw_store Sw_store) (?st 1 Sw_retest Sw_store)"
    using sw_store [of "?st 0 Sw_store Sw_store" 0] by (simp add: fun_upd_twist)
  have acq0: "sw_step (?st 1 Sw_retest Sw_store) (?st 1 Sw_critical Sw_store)"
    using sw_acquire [of "?st 1 Sw_retest Sw_store" 0] by (simp add: fun_upd_twist)
  have store1: "sw_step (?st 1 Sw_critical Sw_store) (?st 1 Sw_critical Sw_retest)"
    using sw_store [of "?st 1 Sw_critical Sw_store" 1] by (simp add: fun_upd_twist)
  have acq1: "sw_step (?st 1 Sw_critical Sw_retest) (?st 1 Sw_critical Sw_critical)"
    using sw_acquire [of "?st 1 Sw_critical Sw_retest" 1] by (simp add: fun_upd_twist)
  note trans = converse_rtranclp_into_rtranclp [where r = sw_step]
  have "sw_step\<^sup>*\<^sup>* sw_init (?st 1 Sw_critical Sw_critical)"
    by (rule trans [OF call0] trans [OF call1] trans [OF free0] trans [OF free1] trans [OF store0]
        trans [OF acq0] trans [OF store1] trans [OF acq1] rtranclp.rtrancl_refl)+
  then show ?thesis by (intro exI [of _ "?st 1 Sw_critical Sw_critical"]) simp
qed

text \<open>A CPU that finds the lock free reaches its critical section.\<close>

definition lock_start :: lock_sys where
  "lock_start = \<lparr>ls_lock = \<lparr>lk_lock_value = 0, lk_owner_zone_id = 0, lk_lock_count = 0,
     lk_contention_count = 0\<rparr>, ls_monitor = (\<lambda>_. False), ls_pc = (\<lambda>_. Idle)\<rparr>"

definition lock_taken :: "u32 \<Rightarrow> lock_sys" where
  "lock_taken z = \<lparr>ls_lock = \<lparr>lk_lock_value = 1, lk_owner_zone_id = z, lk_lock_count = 1,
     lk_contention_count = 0\<rparr>, ls_monitor = (\<lambda>_. False), ls_pc = (\<lambda>_. Idle)(0 := Critical)\<rparr>"

lemma lock_taken_reachable: "arm_reachable zone (lock_taken (zone 0))"
proof -
  have "arm_reachable zone lock_start"
    by (rule start) (simp add: arm_init_def lock_start_def hyperamp_spinlock_init_def)
  from step [OF this call [where c = 0 and tr = False]]
  have "arm_reachable zone (goto 0 (Ldaxr False) lock_start)" by (simp add: lock_start_def)
  note r1 = step [OF this ldaxr [where c = 0 and tr = False], simplified lock_start_def, simplified]
  note r2 = step [OF r1 free [where c = 0 and tr = False], simplified]
  note r3 = step [OF r2 stlxr_ok [where c = 0 and tr = False], simplified]
  note r4 = step [OF r3 acquired [where c = 0 and tr = False], simplified]
  note r5 = step [OF r4 set_owner [where c = 0], simplified]
  note r6 = step [OF r5 inc_count [where c = 0], simplified]
  show ?thesis using r6 by (simp add: lock_taken_def)
qed

theorem spinlock_mutual_exclusion_witness:
  "arm_reachable (\<lambda>_. 5) (lock_taken 5) \<and> lk_owner_zone_id (ls_lock (lock_taken 5)) = 5 \<and>
   ls_pc (lock_taken 5) 1 \<noteq> Critical"
proof -
  have "arm_reachable (\<lambda>_. 5) (lock_taken 5)" using lock_taken_reachable [of "\<lambda>_. 5"] by simp
  moreover have "ls_pc (lock_taken 5) 0 = Critical" by (simp add: lock_taken_def)
  ultimately show ?thesis
    using spinlock_mutual_exclusion [of "\<lambda>_. 5" "lock_taken 5" 0] by (metis zero_neq_one)
qed

end
