(* ===== verification/Hyperamp_Init.thy ===== *)
theory Hyperamp_Init
  imports Hyperamp_Queue
begin

text \<open>
  Attaching to a channel of shared memory (\<open>src/src/hyperamp_shm_queue.c\<close>): mapping physical
  memory, laying out the two control blocks and the data region, creating the queues.
  Addresses are 64-bit words, 0 is NULL.  The results of \<open>open\<close>, \<open>sysconf\<close> and \<open>mmap\<close> are
  arguments.
\<close>

section \<open>Layout\<close>

definition SHM_START_PADDR :: u64 where "SHM_START_PADDR = 0x7E000000"
definition SHM_CH1_PADDR :: u64 where "SHM_CH1_PADDR = SHM_START_PADDR + 0x200000"
definition SHM_CH2_PADDR :: u64 where "SHM_CH2_PADDR = SHM_START_PADDR + 0x300000"
definition SHM_QUEUE_SIZE :: nat where "SHM_QUEUE_SIZE = 4 * 1024"
definition SHM_DATA_REGION_OFFSET :: nat where "SHM_DATA_REGION_OFFSET = SHM_QUEUE_SIZE * 2"
definition SHM_CH0_TOTAL_SIZE :: nat where "SHM_CH0_TOTAL_SIZE = 2 * 1024 * 1024"
definition SHM_CH1_TOTAL_SIZE :: nat where "SHM_CH1_TOTAL_SIZE = 1 * 1024 * 1024"
definition SHM_CH2_TOTAL_SIZE :: nat where "SHM_CH2_TOTAL_SIZE = 1 * 1024 * 1024"
definition SHM_CH0_DATA_SIZE :: nat where "SHM_CH0_DATA_SIZE = SHM_CH0_TOTAL_SIZE - SHM_DATA_REGION_OFFSET"
definition SHM_CH1_DATA_SIZE :: nat where "SHM_CH1_DATA_SIZE = SHM_CH1_TOTAL_SIZE - SHM_DATA_REGION_OFFSET"
definition SHM_CH2_DATA_SIZE :: nat where "SHM_CH2_DATA_SIZE = SHM_CH2_TOTAL_SIZE - SHM_DATA_REGION_OFFSET"
definition DEFAULT_QUEUE_CAPACITY :: u16 where "DEFAULT_QUEUE_CAPACITY = 256"
definition DEFAULT_BLOCK_SIZE :: u16 where "DEFAULT_BLOCK_SIZE = 4096"
definition HYPERAMP_MAP_MODE_CONTIGUOUS_BOTH :: u16 where "HYPERAMP_MAP_MODE_CONTIGUOUS_BOTH = 0"

lemmas shm_layout = SHM_START_PADDR_def SHM_CH1_PADDR_def SHM_CH2_PADDR_def SHM_QUEUE_SIZE_def
  SHM_DATA_REGION_OFFSET_def SHM_CH0_TOTAL_SIZE_def SHM_CH1_TOTAL_SIZE_def SHM_CH2_TOTAL_SIZE_def
  SHM_CH0_DATA_SIZE_def SHM_CH1_DATA_SIZE_def SHM_CH2_DATA_SIZE_def DEFAULT_QUEUE_CAPACITY_def
  DEFAULT_BLOCK_SIZE_def HYPERAMP_MAP_MODE_CONTIGUOUS_BOTH_def

record HyperampLinuxContext =
  lc_fd_mem :: int
  lc_shm_base :: u64
  lc_shm_size :: nat
  lc_phys_addr :: u64
  lc_tx_queue :: u64
  lc_rx_queue :: u64
  lc_data_region :: u64
  lc_initialized :: int
  lc_tx_count :: u32
  lc_rx_count :: u32
  lc_tx_errors :: u32
  lc_rx_errors :: u32


section \<open>Mapping\<close>

text \<open>Calls that give resources back to the kernel.\<close>

datatype map_event = Ev_munmap u64 nat | Ev_close_mem int

definition page_offset :: "u64 \<Rightarrow> u64 \<Rightarrow> u64" where
  "page_offset page_size phys_addr = phys_addr AND (page_size - 1)"

definition map_physical_memory ::
  "int \<Rightarrow> u64 \<Rightarrow> u64 option \<Rightarrow> u64 \<Rightarrow> nat \<Rightarrow> HyperampLinuxContext \<Rightarrow>
   int \<times> HyperampLinuxContext \<times> map_event list" where
  "map_physical_memory fd page_size mapped phys_addr map_len ctx =
     (if fd < 0 then (HYPERAMP_ERROR, ctx\<lparr>lc_fd_mem := fd\<rparr>, [])
      else case mapped of
        None \<Rightarrow> (HYPERAMP_ERROR, ctx\<lparr>lc_fd_mem := -1\<rparr>, [Ev_close_mem fd])
      | Some a \<Rightarrow>
          (HYPERAMP_OK, ctx\<lparr>lc_fd_mem := fd, lc_shm_base := a + page_offset page_size phys_addr,
             lc_shm_size := map_len, lc_phys_addr := phys_addr\<rparr>, []))"

definition unmap_physical_memory ::
  "u64 \<Rightarrow> HyperampLinuxContext \<Rightarrow> HyperampLinuxContext \<times> map_event list" where
  "unmap_physical_memory page_size ctx =
     (let off = page_offset page_size (lc_phys_addr ctx);
          (ctx1, ev1) = (if lc_shm_base ctx \<noteq> 0
                         then (ctx\<lparr>lc_shm_base := 0\<rparr>,
                               [Ev_munmap (lc_shm_base ctx - off) (lc_shm_size ctx + unat off)])
                         else (ctx, []));
          (ctx2, ev2) = (if lc_fd_mem ctx1 \<ge> 0
                         then (ctx1\<lparr>lc_fd_mem := -1\<rparr>, [Ev_close_mem (lc_fd_mem ctx1)])
                         else (ctx1, []))
      in (ctx2, ev1 @ ev2))"


section \<open>Initialisation\<close>

definition channel_sizes :: "u64 \<Rightarrow> nat \<times> nat" where
  "channel_sizes phys_addr =
     (if phys_addr = SHM_CH1_PADDR then (SHM_CH1_TOTAL_SIZE, SHM_CH1_DATA_SIZE)
      else if phys_addr = SHM_CH2_PADDR then (SHM_CH2_TOTAL_SIZE, SHM_CH2_DATA_SIZE)
      else (SHM_CH0_TOTAL_SIZE, SHM_CH0_DATA_SIZE))"

definition channel_capacity :: "nat \<Rightarrow> u16" where
  "channel_capacity data_size =
     (let max0 = (of_nat (data_size div unat DEFAULT_BLOCK_SIZE) :: u16);
          max_capacity = (if max0 > 0 then max0 - 1 else max0)
      in if DEFAULT_QUEUE_CAPACITY > max_capacity then max_capacity else DEFAULT_QUEUE_CAPACITY)"

definition queue_config :: "u16 \<Rightarrow> u64 \<Rightarrow> u64 \<Rightarrow> HyperampQueueConfig" where
  "queue_config capacity phy_addr virt_addr =
     \<lparr>hc_map_mode = HYPERAMP_MAP_MODE_CONTIGUOUS_BOTH, hc_capacity = capacity,
      hc_block_size = DEFAULT_BLOCK_SIZE, hc_phy_addr = phy_addr, hc_virt_addr = virt_addr\<rparr>"

text \<open>
  A connector (\<open>is_creator = 0\<close>) looks at the capacities and prints what it finds; it accepts
  whatever is there.
\<close>

definition hyperamp_linux_init ::
  "int \<Rightarrow> u64 \<Rightarrow> u64 option \<Rightarrow> u64 \<Rightarrow> int \<Rightarrow> HyperampLinuxContext \<Rightarrow> mem \<Rightarrow>
   int \<times> HyperampLinuxContext \<times> mem \<times> map_event list" where
  "hyperamp_linux_init fd page_size mapped phys_addr0 is_creator ctx m =
     (if lc_initialized ctx \<noteq> 0 then (HYPERAMP_OK, ctx, m, [])
      else
        let phys_addr = (if phys_addr0 = 0 then SHM_START_PADDR else phys_addr0);
            (map_size, data_size) = channel_sizes phys_addr;
            queue_capacity = channel_capacity data_size;
            (ret, ctx1, ev) = map_physical_memory fd page_size mapped phys_addr map_size ctx
        in if ret \<noteq> HYPERAMP_OK then (HYPERAMP_ERROR, ctx1, m, ev)
           else
             let base = lc_shm_base ctx1;
                 ctx2 = ctx1\<lparr>lc_tx_queue := base + of_nat SHM_QUEUE_SIZE, lc_rx_queue := base,
                          lc_data_region := base + of_nat (2 * SHM_QUEUE_SIZE)\<rparr>;
                 tx_config = queue_config queue_capacity (phys_addr + of_nat SHM_QUEUE_SIZE) (lc_tx_queue ctx2);
                 rx_config = queue_config queue_capacity phys_addr (lc_rx_queue ctx2);
                 ready = ctx2\<lparr>lc_initialized := 1, lc_tx_count := 0, lc_rx_count := 0,
                           lc_tx_errors := 0, lc_rx_errors := 0\<rparr>;
                 failed = (\<lambda>m'. let (c, e) = unmap_physical_memory page_size ctx2
                                in (HYPERAMP_ERROR, c, m', ev @ e))
             in if is_creator \<noteq> 0 then
                  let (r1, m1) = hyperamp_queue_init (lc_tx_queue ctx2) (Some tx_config) 1 m
                  in if r1 \<noteq> HYPERAMP_OK then failed m1
                     else
                       let (r2, m2) = hyperamp_queue_init (lc_rx_queue ctx2) (Some rx_config) 1 m1
                       in if r2 \<noteq> HYPERAMP_OK then failed m2
                          else (HYPERAMP_OK, ready,
                                hyperamp_safe_memset m2 (lc_data_region ctx2) 0 data_size, ev)
                else (HYPERAMP_OK, ready, m, ev))"


section \<open>Geometry of a channel\<close>

lemma channel_geometry:
  assumes "channel_sizes phys = (tot, n)"
  shows "tot = n + 2 * SHM_QUEUE_SIZE"
    and "(unat (channel_capacity n) + 1) * unat DEFAULT_BLOCK_SIZE \<le> n"
    and "channel_capacity n \<noteq> 0" "DEFAULT_BLOCK_SIZE \<noteq> 0" "tot < 2 ^ 32"
  using assms by (auto simp: channel_sizes_def channel_capacity_def shm_layout split: if_splits)


section \<open>Writes stay inside a control block\<close>

definition outside :: "u64 \<Rightarrow> nat \<Rightarrow> u64 \<Rightarrow> bool" where
  "outside p n a \<longleftrightarrow> (\<forall>i<n. a \<noteq> p + of_nat i)"

lemma poke_outside: "outside p n a \<Longrightarrow> i < n \<Longrightarrow> poke p i v m a = m a"
  by (auto simp: outside_def poke_def)

lemma poke_loop_outside: "outside p n a \<Longrightarrow> off + k \<le> n \<Longrightarrow> poke_loop p off s k m a = m a"
  unfolding poke_loop_def
proof (rule write_loop_outside)
  fix i assume "outside p n a" "off + k \<le> n" "i < k"
  then have "a \<noteq> p + of_nat (off + i)" by (simp add: outside_def del: of_nat_add)
  then show "a \<noteq> p + of_nat off + of_nat i" by (simp add: add.assoc)
qed

lemma queue_init_outside:
  assumes "outside p sizeof_HyperampShmQueue a"
  shows "queue_init_extension p (queue_init_addresses p cfg (queue_init_scalars p cfg m)) a = m a"
  by (simp add: queue_init_extension_def queue_init_addresses_def queue_init_scalars_def Let_def
      poke_outside [OF assms] poke_loop_outside [OF assms] layout_defs)

lemma load_queue_cong:
  assumes "\<And>j. j < sizeof_HyperampShmQueue \<Longrightarrow> byte_at m p j = byte_at m' p j"
  shows "load_queue m p = load_queue m' p"
proof -
  have u: "hyperamp_safe_read_u16 m p j = hyperamp_safe_read_u16 m' p j" if "j + 2 \<le> sizeof_HyperampShmQueue" for j
    unfolding hyperamp_safe_read_u16_def using that by (intro read_le_cong assms) simp
  have v: "hyperamp_safe_read_u32 m p j = hyperamp_safe_read_u32 m' p j" if "j + 4 \<le> sizeof_HyperampShmQueue" for j
    unfolding hyperamp_safe_read_u32_def using that by (intro read_le_cong assms) simp
  have w: "hyperamp_safe_read_u64 m p j = hyperamp_safe_read_u64 m' p j" if "j + 8 \<le> sizeof_HyperampShmQueue" for j
    unfolding hyperamp_safe_read_u64_def using that by (intro read_le_cong assms) simp
  have t: "load_table m p j = load_table m' p j"
    if "j + 16 * HYPERAMP_MAX_MAP_TABLE_ENTRIES \<le> sizeof_HyperampShmQueue" for j
    unfolding load_table_def using that by (auto intro!: w)
  show ?thesis
    unfolding load_queue_def load_lock_def
    by (simp add: u v w t assms layout_defs)
qed

lemma load_queue_outside:
  assumes "\<And>j. j < sizeof_HyperampShmQueue \<Longrightarrow> m' (p + of_nat j) = m (p + of_nat j)"
  shows "load_queue m' p = load_queue m p"
  using assms by (intro load_queue_cong) (simp add: byte_at_def)

lemma outside_apart:
  assumes "fits p n" "fits q k" "disjoint_regions p n q k" "j < k"
  shows "outside p n (q + of_nat j)"
  unfolding outside_def
proof (intro allI impI)
  fix i assume "i < n"
  then have "unat (p + of_nat i) = unat p + i" "unat (q + of_nat j) = unat q + j"
    using assms by (auto intro: fits_unat)
  then show "q + of_nat j \<noteq> p + of_nat i" using assms(3,4) \<open>i < n\<close> by (auto simp: disjoint_regions_def)
qed


section \<open>Properties\<close>

text \<open>The creator's writes to a channel at \<open>base\<close>, and what they leave.\<close>

definition created_channel :: "u64 \<Rightarrow> u64 \<Rightarrow> nat \<Rightarrow> mem \<Rightarrow> mem" where
  "created_channel phys base n m =
     (let init = (\<lambda>p cfg m. queue_init_extension p (queue_init_addresses p cfg (queue_init_scalars p cfg m)));
          tx = base + of_nat SHM_QUEUE_SIZE;
          m1 = init tx (queue_config (channel_capacity n) (phys + of_nat SHM_QUEUE_SIZE) tx) m;
          m2 = init base (queue_config (channel_capacity n) phys base) m1
      in hyperamp_safe_memset m2 (base + of_nat (2 * SHM_QUEUE_SIZE)) 0 n)"

definition fresh_queue :: "u64 \<Rightarrow> u16 \<Rightarrow> HyperampShmQueue \<Rightarrow> bool" where
  "fresh_queue vb cap q \<longleftrightarrow> queue_inv vb cap DEFAULT_BLOCK_SIZE q \<and> hq_header q = 0 \<and> hq_tail q = 0 \<and>
     hq_magic q = HYPERAMP_QUEUE_MAGIC"

lemma channel_addresses:
  assumes "channel_sizes phys = (tot, n)" "fits base tot"
  shows "unat (base + of_nat SHM_QUEUE_SIZE) = unat base + 4096"
    and "unat (base + of_nat (2 * SHM_QUEUE_SIZE)) = unat base + 8192"
    and "fits base sizeof_HyperampShmQueue" "fits (base + of_nat SHM_QUEUE_SIZE) sizeof_HyperampShmQueue"
    and "fits (base + of_nat (2 * SHM_QUEUE_SIZE)) n"
proof -
  note g = channel_geometry(1,2) [OF assms(1)]
  have n: "4096 \<le> n" using g(2) by (simp add: shm_layout)
  show a: "unat (base + of_nat SHM_QUEUE_SIZE) = unat base + 4096"
    "unat (base + of_nat (2 * SHM_QUEUE_SIZE)) = unat base + 8192"
    using fits_unat [OF assms(2), of SHM_QUEUE_SIZE] fits_unat [OF assms(2), of "2 * SHM_QUEUE_SIZE"] g(1) n
    by (simp_all add: shm_layout)
  show "fits base sizeof_HyperampShmQueue" "fits (base + of_nat SHM_QUEUE_SIZE) sizeof_HyperampShmQueue"
    "fits (base + of_nat (2 * SHM_QUEUE_SIZE)) n"
    using assms(2) g(1) n unfolding fits_def a by (simp_all add: layout_defs SHM_QUEUE_SIZE_def)
qed

lemma created_queue_fresh:
  assumes "channel_sizes phys = (tot, n)" "fits p sizeof_HyperampShmQueue" "fits vb n"
  shows "fresh_queue vb (channel_capacity n) (load_queue (queue_init_extension p (queue_init_addresses p
      (queue_config (channel_capacity n) a v) (queue_init_scalars p (queue_config (channel_capacity n) a v) m))) p)"
proof -
  note g = channel_geometry(2-4) [OF assms(1)]
  have "fits vb ((unat (channel_capacity n) + 1) * unat DEFAULT_BLOCK_SIZE)"
    using g(1) assms(3) by (auto simp: fits_def)
  then show ?thesis
    using g by (simp add: load_queue_init [OF assms(2) refl] fresh_queue_def queue_inv_def queue_config_def
        lock_is_free_def word_gt_0)
qed

lemma memset_apart:
  assumes "fits p n" "fits q k" "disjoint_regions p n q k" "j < k"
  shows "hyperamp_safe_memset m p v n (q + of_nat j) = m (q + of_nat j)"
  unfolding hyperamp_safe_memset_def
  using outside_apart [OF assms] by (intro write_loop_outside) (auto simp: outside_def)

lemma created_channel_queues:
  assumes "channel_sizes phys = (tot, n)" "fits base tot" "vb = base + of_nat (2 * SHM_QUEUE_SIZE)"
  shows "fresh_queue vb (channel_capacity n) (load_queue (created_channel phys base n m) base)"
    and "fresh_queue vb (channel_capacity n)
      (load_queue (created_channel phys base n m) (base + of_nat SHM_QUEUE_SIZE))"
proof -
  note A = channel_addresses [OF assms(1,2)]
  let ?tx = "base + of_nat SHM_QUEUE_SIZE" and ?c = "channel_capacity n"
  define init where "init = (\<lambda>p cfg m. queue_init_extension p (queue_init_addresses p cfg (queue_init_scalars p cfg m)))"
  define m1 where "m1 = init ?tx (queue_config ?c (phys + of_nat SHM_QUEUE_SIZE) ?tx) m"
  define m2 where "m2 = init base (queue_config ?c phys base) m1"
  have m': "created_channel phys base n m = hyperamp_safe_memset m2 vb 0 n"
    by (simp add: created_channel_def m2_def m1_def init_def assms(3) Let_def)
  have apart: "disjoint_regions vb n base sizeof_HyperampShmQueue" "disjoint_regions vb n ?tx sizeof_HyperampShmQueue"
    "disjoint_regions base sizeof_HyperampShmQueue ?tx sizeof_HyperampShmQueue"
    using A(1,2) by (simp_all add: assms(3) disjoint_regions_def layout_defs)
  have rx: "load_queue (created_channel phys base n m) base = load_queue m2 base"
    unfolding m' using A(3,5) apart(1) assms(3) by (intro load_queue_outside memset_apart) auto
  have "load_queue (created_channel phys base n m) ?tx = load_queue m2 ?tx"
    unfolding m' using A(4,5) apart(2) assms(3) by (intro load_queue_outside memset_apart) auto
  also have "\<dots> = load_queue m1 ?tx"
    unfolding m2_def init_def using A(3,4) apart(3)
    by (intro load_queue_outside queue_init_outside outside_apart) auto
  finally show "fresh_queue vb ?c (load_queue (created_channel phys base n m) ?tx)"
    unfolding m1_def init_def using created_queue_fresh [OF assms(1) A(4)] A(5) assms(3) by simp
  show "fresh_queue vb ?c (load_queue (created_channel phys base n m) base)"
    unfolding rx m2_def init_def using created_queue_fresh [OF assms(1) A(3)] A(5) assms(3) by simp
qed


text \<open>A connector touches no memory, and unmapping releases exactly what was mapped.\<close>

lemma linux_init_connects:
  assumes "lc_initialized ctx = 0" "0 \<le> fd" "phys = (if p0 = 0 then SHM_START_PADDR else p0)"
    and "base = a + page_offset page_size phys"
  shows "\<exists>ctx'. hyperamp_linux_init fd page_size (Some a) p0 0 ctx m = (HYPERAMP_OK, ctx', m, [])
    \<and> lc_initialized ctx' = 1 \<and> lc_rx_queue ctx' = base \<and> lc_tx_queue ctx' = base + of_nat SHM_QUEUE_SIZE
    \<and> lc_data_region ctx' = base + of_nat (2 * SHM_QUEUE_SIZE)"
  using assms
  by (simp add: hyperamp_linux_init_def map_physical_memory_def Let_def split: prod.split)

lemma unmap_releases_mapping:
  assumes "map_physical_memory fd page_size (Some a) phys len ctx = (HYPERAMP_OK, ctx', ev)"
    and "a + page_offset page_size phys \<noteq> 0"
  shows "snd (unmap_physical_memory page_size ctx') =
      [Ev_munmap a (len + unat (page_offset page_size phys)), Ev_close_mem fd]"
    and "lc_shm_base (fst (unmap_physical_memory page_size ctx')) = 0"
    and "lc_fd_mem (fst (unmap_physical_memory page_size ctx')) = -1"
  using assms by (auto simp: map_physical_memory_def unmap_physical_memory_def hyperamp_codes split: if_splits)


section \<open>A concrete channel\<close>

definition zero_context :: HyperampLinuxContext where
  "zero_context = \<lparr>lc_fd_mem = 0, lc_shm_base = 0, lc_shm_size = 0, lc_phys_addr = 0, lc_tx_queue = 0,
     lc_rx_queue = 0, lc_data_region = 0, lc_initialized = 0, lc_tx_count = 0, lc_rx_count = 0,
     lc_tx_errors = 0, lc_rx_errors = 0\<rparr>"

lemma channel_1_capacity: "channel_capacity SHM_CH1_DATA_SIZE = 253"
  by (simp add: channel_capacity_def shm_layout)


end
