(* ===== verification/Shm_Pool_Queue.thy ===== *)
theory Shm_Pool_Queue
  imports Queue_Interface Ring_Memory
begin

text \<open>
  The shared-memory pool queue of \<open>src/include/shared_mem_io.h\<close> and
  \<open>src/src/shared_mem_io.c\<close>: the index macros, slot allocation and roll-back, the
  address tables, creation and initialisation, and the one-copy send and zero-copy
  receive.  The memory pool and its lock are placeholders in the source (they do
  nothing and report success) and are modelled as such.
\<close>

section \<open>Structures\<close>

definition ERROR_SHARED_MEM_ADDR :: u64 where "ERROR_SHARED_MEM_ADDR = - 1"

definition MAX_MAP_TABLE_ENTRY_COUNT :: nat where "MAX_MAP_TABLE_ENTRY_COUNT = 256"

definition SHARE_MEM_MAP_MODE_CONTIGUOUS_BOTH :: u16 where
  "SHARE_MEM_MAP_MODE_CONTIGUOUS_BOTH = 0"
definition SHARE_MEM_MAP_MODE_CONTIGUOUS_PHYS_DISCRETE_LOGICAL :: u16 where
  "SHARE_MEM_MAP_MODE_CONTIGUOUS_PHYS_DISCRETE_LOGICAL = 1"

lemmas map_modes = SHARE_MEM_MAP_MODE_CONTIGUOUS_BOTH_def
  SHARE_MEM_MAP_MODE_CONTIGUOUS_PHYS_DISCRETE_LOGICAL_def

record MapTableEntry =
  mt_virt_addr :: u64
  mt_phy_addr :: u64

text \<open>The pool pointer is represented by whether it is non-null.\<close>

record SharedMemoryPoolQueue =
  sq_map_mode1 :: u8
  sq_map_mode2 :: u8
  sq_header :: u16
  sq_tail :: u16
  sq_capacity :: u16
  sq_block_size :: u16
  sq_phy_addr :: u64
  sq_virt_addr1 :: u64
  sq_virt_addr2 :: u64
  sq_table1 :: "MapTableEntry list"
  sq_table2 :: "MapTableEntry list"
  sq_pool :: bool

text \<open>\<open>capacity\<close> and \<open>block_size\<close> are \<open>size_t\<close> here and 16-bit in the queue.\<close>

record SharedMemoryPoolQueueConfig =
  sc_pool :: bool
  sc_map_mode :: u16
  sc_phy_addr :: u64
  sc_virt_addr :: u64
  sc_capacity :: u64
  sc_block_size :: u64

section \<open>Memory pool placeholders\<close>

definition init_shared_mem_pool :: int where
  "init_shared_mem_pool = BACKEND_PROXY_PROCESS_OK"

definition alloc_shared_mem :: "bool \<Rightarrow> u64" where
  "alloc_shared_mem mem_pool = (if \<not> mem_pool then ERROR_SHARED_MEM_ADDR else 0)"

definition fetch_shared_mem_pool_lock :: int where
  "fetch_shared_mem_pool_lock = BACKEND_PROXY_PROCESS_OK"

definition release_shared_mem_pool_lock :: int where
  "release_shared_mem_pool_lock = BACKEND_PROXY_PROCESS_OK"


section \<open>Index macros\<close>

definition SHMP_QUEUE_ENQUEUE :: "SharedMemoryPoolQueue \<Rightarrow> int \<times> SharedMemoryPoolQueue" where
  "SHMP_QUEUE_ENQUEUE queue =
     (let header = sq_header queue + 1;
          header = (if header \<ge> sq_capacity queue then header - sq_capacity queue else header)
      in if header = sq_tail queue \<or> header \<ge> sq_capacity queue
         then (BACKEND_PROXY_PROCESS_ERROR, queue)
         else (BACKEND_PROXY_PROCESS_OK, queue\<lparr>sq_header := header\<rparr>))"

definition SHMP_QUEUE_DEQUEUE :: "SharedMemoryPoolQueue \<Rightarrow> int \<times> SharedMemoryPoolQueue" where
  "SHMP_QUEUE_DEQUEUE queue =
     (if sq_tail queue = sq_header queue then (BACKEND_PROXY_PROCESS_ERROR, queue)
      else
        let tail = sq_tail queue + 1;
            tail = (if tail \<ge> sq_capacity queue then tail - sq_capacity queue else tail)
        in (BACKEND_PROXY_PROCESS_OK, queue\<lparr>sq_tail := tail\<rparr>))"

definition SHMP_QUEUE_USED_MEMORY :: "SharedMemoryPoolQueue \<Rightarrow> int" where
  "SHMP_QUEUE_USED_MEMORY queue =
     (if sq_tail queue \<ge> sq_header queue then uint (sq_tail queue) - uint (sq_header queue)
      else uint (sq_capacity queue) - uint (sq_header queue) + uint (sq_tail queue))
     * uint (sq_block_size queue)"

definition SHMP_QUEUE_SURPLUS_MEMORY :: "SharedMemoryPoolQueue \<Rightarrow> int" where
  "SHMP_QUEUE_SURPLUS_MEMORY queue =
     (if sq_tail queue \<ge> sq_header queue
      then uint (sq_capacity queue) - (uint (sq_tail queue) - uint (sq_header queue))
      else uint (sq_header queue) - uint (sq_tail queue))
     * uint (sq_block_size queue)"

text \<open>
  The slot address \<open>virt_addr1 + (header + 1) * block_size\<close>; its product is an \<open>int\<close>,
  which the geometry of the queue keeps below \<open>2 ^ 31\<close>.
\<close>

definition SHM_POOL_QUEUE_HEAD_ALLOC ::
  "SharedMemoryPoolQueue option \<Rightarrow> int \<times> u64 option \<times> SharedMemoryPoolQueue option" where
  "SHM_POOL_QUEUE_HEAD_ALLOC queue =
     (case queue of
        None \<Rightarrow> (BACKEND_PROXY_PROCESS_ERROR, None, None)
      | Some q \<Rightarrow>
          let next_header = ring_mod_u16 (sq_capacity q) (sq_header q)
          in if next_header \<noteq> sq_tail q
             then (BACKEND_PROXY_PROCESS_OK,
                   Some (slot_addr (sq_virt_addr1 q) (sq_block_size q) (unat (sq_header q))),
                   Some (q\<lparr>sq_header := next_header\<rparr>))
             else (BACKEND_PROXY_PROCESS_ERROR, Some ERROR_SHARED_MEM_ADDR, Some q))"

definition SHM_POOL_QUEUE_LOOKUP_VIRTADDR ::
  "SharedMemoryPoolQueue \<Rightarrow> nat \<Rightarrow> int \<Rightarrow> u64" where
  "SHM_POOL_QUEUE_LOOKUP_VIRTADDR queue table_id idx =
     (if table_id \<noteq> 1 \<and> table_id \<noteq> 2 then ERROR_SHARED_MEM_ADDR
      else if idx \<ge> uint (sq_capacity queue) \<or> idx < 0 then ERROR_SHARED_MEM_ADDR
      else if table_id = 1 then mt_virt_addr (sq_table1 queue ! nat idx)
      else mt_virt_addr (sq_table2 queue ! nat idx))"

text \<open>\<open>None\<close> for the address means that \<open>*addr_ptr\<close> is left alone (null queue).\<close>

definition SHM_POOL_QUEUE_ALLOC_FROM_HEADER ::
  "SharedMemoryPoolQueue option \<Rightarrow> u64 option \<times> SharedMemoryPoolQueue option" where
  "SHM_POOL_QUEUE_ALLOC_FROM_HEADER queue =
     (case queue of
        None \<Rightarrow> (None, None)
      | Some q \<Rightarrow>
          let next_header = ring_mod_u16 (sq_capacity q) (sq_header q)
          in if next_header \<noteq> sq_tail q then
               if SHARE_MEM_MAP_MODE_CONTIGUOUS_BOTH = ucast (sq_map_mode1 q)
               then (Some (slot_addr (sq_virt_addr1 q) (sq_block_size q) (unat (sq_header q))),
                     Some (q\<lparr>sq_header := next_header\<rparr>))
               else if SHARE_MEM_MAP_MODE_CONTIGUOUS_PHYS_DISCRETE_LOGICAL = ucast (sq_map_mode1 q)
               then (Some (SHM_POOL_QUEUE_LOOKUP_VIRTADDR q 1 (uint (sq_header q))),
                     Some (q\<lparr>sq_header := next_header\<rparr>))
               else (Some ERROR_SHARED_MEM_ADDR, Some q)
             else (Some ERROR_SHARED_MEM_ADDR, Some q))"

definition SHM_POOL_QUEUE_HEAD_ROLLBACK ::
  "SharedMemoryPoolQueue option \<Rightarrow> SharedMemoryPoolQueue option" where
  "SHM_POOL_QUEUE_HEAD_ROLLBACK queue =
     map_option (\<lambda>q. if sq_header q = sq_tail q then q
       else q\<lparr>sq_header := (if sq_header q = 0 then sq_capacity q - 1 else sq_header q - 1)\<rparr>) queue"


section \<open>Creation and initialisation\<close>

definition IS_VALID_SHM_CONF_MAP_MODE :: "SharedMemoryPoolQueueConfig option \<Rightarrow> bool" where
  "IS_VALID_SHM_CONF_MAP_MODE conf =
     (case conf of None \<Rightarrow> False
      | Some c \<Rightarrow> sc_map_mode c = SHARE_MEM_MAP_MODE_CONTIGUOUS_BOTH \<or>
                  sc_map_mode c = SHARE_MEM_MAP_MODE_CONTIGUOUS_PHYS_DISCRETE_LOGICAL)"

text \<open>
  \<open>uninit\<close> is the fresh structure \<open>malloc\<close> returns (\<open>None\<close> when it fails) and
  \<open>region\<close> the address of the data blocks it returns (\<open>None\<close> when it fails).
\<close>

definition shared_mem_pool_queue_create_backend ::
  "SharedMemoryPoolQueue option \<Rightarrow> u64 option \<Rightarrow> SharedMemoryPoolQueueConfig option \<Rightarrow>
   SharedMemoryPoolQueue option" where
  "shared_mem_pool_queue_create_backend uninit region config =
     (if \<not> IS_VALID_SHM_CONF_MAP_MODE config then None
      else case (uninit, config) of
        (Some queue, Some c) \<Rightarrow>
          let queue = queue\<lparr>sq_map_mode1 := ucast (sc_map_mode c), sq_pool := sc_pool c,
                 sq_block_size := ucast (sc_block_size c), sq_capacity := ucast (sc_capacity c),
                 sq_virt_addr1 := sc_virt_addr c, sq_phy_addr := sc_phy_addr c,
                 sq_header := 0, sq_tail := 0\<rparr>
          in (case region of
                None \<Rightarrow> None
              | Some virt_addr \<Rightarrow> Some (queue\<lparr>sq_virt_addr1 := virt_addr\<rparr>))
      | _ \<Rightarrow> None)"

definition shared_mem_pool_queue_initialize ::
  "SharedMemoryPoolQueue option \<Rightarrow> SharedMemoryPoolQueueConfig option \<Rightarrow>
   int \<times> SharedMemoryPoolQueue option" where
  "shared_mem_pool_queue_initialize queue config =
     (case (queue, config) of
        (Some q, Some c) \<Rightarrow>
          if \<not> sc_pool c then (BACKEND_PROXY_PROCESS_ERROR, queue)
          else if sc_block_size c = 0 then (BACKEND_PROXY_PROCESS_ERROR, queue)
          else
            let q = q\<lparr>sq_pool := sc_pool c, sq_phy_addr := sc_phy_addr c,
                   sq_virt_addr1 := sc_virt_addr c, sq_capacity := ucast (sc_capacity c),
                   sq_block_size := ucast (sc_block_size c)\<rparr>;
                q = q\<lparr>sq_capacity := ucast (sc_block_size c)\<rparr>
            in (BACKEND_PROXY_PROCESS_OK, Some (q\<lparr>sq_header := 0, sq_tail := 0\<rparr>))
      | _ \<Rightarrow> (BACKEND_PROXY_PROCESS_ERROR, queue))"


section \<open>Send and receive\<close>

definition shared_mem_pool_queue_send_oc ::
  "SharedMemoryPoolQueue option \<Rightarrow> bytes option \<Rightarrow> nat \<Rightarrow> mem \<Rightarrow>
   int \<times> SharedMemoryPoolQueue option \<times> mem" where
  "shared_mem_pool_queue_send_oc queue data data_size m =
     (case (queue, data) of
        (Some q, Some d) \<Rightarrow>
          if sq_block_size q = 0 then (BACKEND_PROXY_PROCESS_ERROR, queue, m)
          else if data_size = 0 \<or> data_size > unat (sq_block_size q)
          then (BACKEND_PROXY_PROCESS_ERROR, queue, m)
          else if (unat (sq_header q) + 1) mod unat (sq_capacity q) = unat (sq_tail q)
          then (BACKEND_PROXY_PROCESS_AGAIN, queue, m)
          else
            let base_addr = sq_virt_addr1 q;
                m' = write_loop m (base_addr + of_nat (unat (sq_header q) * unat (sq_block_size q)))
                       (\<lambda>i. d ! i) data_size;
                (ret, q') = SHMP_QUEUE_ENQUEUE q
            in (ret, Some q', m')
      | _ \<Rightarrow> (BACKEND_PROXY_PROCESS_ERROR, queue, m))"

text \<open>The received pointer; \<open>*out_data_size\<close> is never written.\<close>

definition shared_mem_pool_queue_recv_zc ::
  "SharedMemoryPoolQueue option \<Rightarrow> bool \<Rightarrow> bool \<Rightarrow>
   int \<times> u64 option \<times> SharedMemoryPoolQueue option" where
  "shared_mem_pool_queue_recv_zc queue has_buffer has_size =
     (case queue of
        None \<Rightarrow> (BACKEND_PROXY_PROCESS_ERROR, None, None)
      | Some q \<Rightarrow>
          if \<not> has_buffer \<or> \<not> has_size then (BACKEND_PROXY_PROCESS_ERROR, None, queue)
          else if sq_block_size q = 0 then (BACKEND_PROXY_PROCESS_ERROR, None, queue)
          else if sq_header q = sq_tail q then (BACKEND_PROXY_PROCESS_AGAIN, None, queue)
          else
            let buffer = slot_addr (sq_virt_addr1 q) (sq_block_size q) (unat (sq_tail q));
                (ret, q') = SHMP_QUEUE_DEQUEUE q
            in (ret, Some buffer, Some q'))"


section \<open>Invariant and abstraction\<close>

definition shm_inv :: "u64 \<Rightarrow> u16 \<Rightarrow> u16 \<Rightarrow> SharedMemoryPoolQueue \<Rightarrow> bool" where
  "shm_inv vb cap bs q \<longleftrightarrow>
     sq_header q < cap \<and> sq_tail q < cap \<and> sq_capacity q = cap \<and> sq_block_size q = bs \<and>
     sq_virt_addr1 q = vb \<and> sq_map_mode1 q = 0 \<and> 0 < bs \<and>
     unat vb + (unat cap + 1) * unat bs < 2 ^ 64 \<and> (unat cap + 1) * unat bs < 2 ^ 31"

definition shm_contents :: "SharedMemoryPoolQueue \<Rightarrow> mem \<Rightarrow> bytes list" where
  "shm_contents q m = map (slot_block (sq_virt_addr1 q) (sq_block_size q) m)
     (ring_slots (unat (sq_capacity q)) (unat (sq_header q)) (unat (sq_tail q)))"

lemma shm_inv_nat:
  assumes "shm_inv vb cap bs q"
  shows "unat (sq_header q) < unat cap" "unat (sq_tail q) < unat cap"
    "sq_capacity q = cap" "sq_block_size q = bs" "sq_virt_addr1 q = vb" "sq_map_mode1 q = 0"
    "0 < bs" "fits vb ((unat cap + 1) * unat bs)"
    "sq_header q < cap" "sq_tail q < cap"
    "unat vb + (unat cap + 1) * unat bs < 2 ^ 64"
  using assms by (auto simp: shm_inv_def fits_def word_less_nat_alt)

lemma shm_enqueue_next:
  assumes "shm_inv vb cap bs q"
  shows "SHMP_QUEUE_ENQUEUE q =
    (if ring_next_u16 cap (sq_header q) = sq_tail q then (BACKEND_PROXY_PROCESS_ERROR, q)
     else (BACKEND_PROXY_PROCESS_OK, q\<lparr>sq_header := ring_next_u16 cap (sq_header q)\<rparr>))"
proof -
  have "SHMP_QUEUE_ENQUEUE q =
      (if ring_next_u16 cap (sq_header q) = sq_tail q \<or> ring_next_u16 cap (sq_header q) \<ge> cap
       then (BACKEND_PROXY_PROCESS_ERROR, q)
       else (BACKEND_PROXY_PROCESS_OK, q\<lparr>sq_header := ring_next_u16 cap (sq_header q)\<rparr>))"
    using shm_inv_nat(3) [OF assms] by (simp only: SHMP_QUEUE_ENQUEUE_def ring_next_u16_def Let_def)
  moreover have "\<not> ring_next_u16 cap (sq_header q) \<ge> cap"
    using ring_next_u16_less [OF shm_inv_nat(9) [OF assms]] by (simp only: not_le)
  ultimately show ?thesis by simp
qed

lemma shm_dequeue_next:
  assumes "shm_inv vb cap bs q" "sq_tail q \<noteq> sq_header q"
  shows "SHMP_QUEUE_DEQUEUE q =
    (BACKEND_PROXY_PROCESS_OK, q\<lparr>sq_tail := ring_next_u16 cap (sq_tail q)\<rparr>)"
  using assms shm_inv_nat(3) [OF assms(1)]
  unfolding SHMP_QUEUE_DEQUEUE_def ring_next_u16_def Let_def by simp

lemma shm_room:
  assumes "shm_inv vb cap bs q"
  shows "ring_next_u16 cap (sq_header q) = sq_tail q \<longleftrightarrow> \<not> length (shm_contents q m) < unat cap - 1"
  using shm_inv_nat [OF assms] ring_len_full_iff [OF shm_inv_nat(1,2) [OF assms]]
    ring_len_less [OF shm_inv_nat(1,2) [OF assms]] unat_ring_next_u16 [OF shm_inv_nat(9) [OF assms]]
  by (auto simp: shm_contents_def word_unat_eq_iff)


text \<open>
  The path the message builder and the receiver take: allocate the slot under the
  header, write the message there; receive a pointer to the block under the tail and
  read it.
\<close>

definition shm_put :: "bytes \<Rightarrow> SharedMemoryPoolQueue \<times> mem \<Rightarrow> bool \<times> SharedMemoryPoolQueue \<times> mem" where
  "shm_put d st =
     (case SHM_POOL_QUEUE_ALLOC_FROM_HEADER (Some (fst st)) of
        (Some addr, Some q') \<Rightarrow>
          if addr = ERROR_SHARED_MEM_ADDR then (False, q', snd st)
          else (True, q', write_loop (snd st) addr (\<lambda>i. d ! i) (length d))
      | _ \<Rightarrow> (False, st))"

definition shm_get :: "unit \<Rightarrow> SharedMemoryPoolQueue \<times> mem \<Rightarrow>
    bytes option \<times> SharedMemoryPoolQueue \<times> mem" where
  "shm_get u st =
     (case shared_mem_pool_queue_recv_zc (Some (fst st)) True True of
        (ret, Some buffer, Some q') \<Rightarrow>
          (if ret = BACKEND_PROXY_PROCESS_OK
           then Some (read_bytes (snd st) buffer (unat (sq_block_size (fst st)))) else None, q', snd st)
      | (ret, None, Some q') \<Rightarrow> (None, q', snd st)
      | _ \<Rightarrow> (None, st))"

definition shm_valid :: "u16 \<Rightarrow> bytes \<Rightarrow> bool" where
  "shm_valid bs d \<longleftrightarrow> length d \<le> unat bs"

definition shm_matches :: "u16 \<Rightarrow> bytes \<Rightarrow> bytes \<Rightarrow> bool" where
  "shm_matches bs d b \<longleftrightarrow> length b = unat bs \<and> take (length d) b = d"

lemma slot_addr_not_error:
  assumes "shm_inv vb cap bs q" "k < unat cap"
  shows "slot_addr vb bs k \<noteq> ERROR_SHARED_MEM_ADDR"
proof
  note I = shm_inv_nat [OF assms(1)]
  assume eq: "slot_addr vb bs k = ERROR_SHARED_MEM_ADDR"
  have "unat (slot_addr vb bs k) = unat vb + (k + 1) * unat bs"
    using I assms(2) by (intro unat_slot_addr)
  moreover have "(k + 1) * unat bs + unat bs \<le> (unat cap + 1) * unat bs"
    using assms(2) by (rule mult_step_le)
  moreover have "0 < unat bs" using I(7) by (simp add: word_less_nat_alt)
  ultimately have "unat (slot_addr vb bs k) + 1 < 2 ^ 64" using I(11) by linarith
  moreover have "unat ERROR_SHARED_MEM_ADDR = 2 ^ 64 - 1"
    by (simp add: ERROR_SHARED_MEM_ADDR_def unsigned_minus_1_eq_mask mask_eq_exp_minus_1)
  ultimately show False unfolding eq by simp
qed

lemma alloc_from_header_spec:
  assumes "shm_inv vb cap bs q"
  shows "SHM_POOL_QUEUE_ALLOC_FROM_HEADER (Some q) =
    (if ring_next_u16 cap (sq_header q) = sq_tail q then (Some ERROR_SHARED_MEM_ADDR, Some q)
     else (Some (slot_addr vb bs (unat (sq_header q))),
           Some (q\<lparr>sq_header := ring_next_u16 cap (sq_header q)\<rparr>)))"
  using shm_inv_nat [OF assms]
  by (simp add: SHM_POOL_QUEUE_ALLOC_FROM_HEADER_def ring_mod_u16_eq map_modes Let_def)

lemma shm_put_spec:
  assumes inv: "shm_inv vb cap bs (fst st)" and len: "shm_valid bs d"
  shows "\<exists>q' m'. shm_put d st = (length (shm_contents (fst st) (snd st)) < unat cap - 1, q', m')
    \<and> shm_inv vb cap bs q'
    \<and> shm_contents q' m' =
        (if length (shm_contents (fst st) (snd st)) < unat cap - 1
         then shm_contents (fst st) (snd st) @
                [d @ drop (length d) (slot_block vb bs (snd st) (unat (sq_header (fst st))))]
         else shm_contents (fst st) (snd st))"
proof (cases "ring_next_u16 cap (sq_header (fst st)) = sq_tail (fst st)")
  case True
  then show ?thesis
    using inv shm_room [OF inv, of "snd st"]
    by (intro exI [of _ "fst st"] exI [of _ "snd st"]) (simp add: shm_put_def alloc_from_header_spec [OF inv])
next
  case False
  note I = shm_inv_nat [OF inv]
  from False have ne: "ring_next (unat cap) (unat (sq_header (fst st))) \<noteq> unat (sq_tail (fst st))"
    using unat_ring_next_u16 [OF I(9)] by (auto simp: word_unat_eq_iff)
  have len': "length d \<le> unat bs" using len by (simp add: shm_valid_def)
  show ?thesis
    using False inv I shm_room [OF inv, of "snd st"] slot_addr_not_error [OF inv I(1)]
      ring_write_kept [OF I(8) I(1) I(2) I(7) len'] ring_write_block [OF I(8) I(1) I(7) len']
    by (auto simp: shm_put_def alloc_from_header_spec [OF inv] shm_inv_def shm_contents_def
        unat_ring_next_u16 [OF I(9)] ring_slots_next_header [OF I(1,2) ne] ring_next_u16_less)
qed

lemma shm_get_spec:
  assumes inv: "shm_inv vb cap bs (fst st)"
  shows "\<exists>q'. shm_get u st =
      (if shm_contents (fst st) (snd st) = [] then None
       else Some (hd (shm_contents (fst st) (snd st))), q', snd st)
    \<and> shm_inv vb cap bs q' \<and> shm_contents q' (snd st) = tl (shm_contents (fst st) (snd st))"
proof (cases "sq_tail (fst st) = sq_header (fst st)")
  case True
  then show ?thesis
    using inv shm_inv_nat [OF inv]
    by (intro exI [of _ "fst st"]) (auto simp: shm_get_def shared_mem_pool_queue_recv_zc_def shm_contents_def ring_slots_empty)
next
  case False
  note I = shm_inv_nat [OF inv]
  from False have ne: "unat (sq_tail (fst st)) \<noteq> unat (sq_header (fst st))"
    by (simp add: word_unat_eq_iff)
  from False have ne': "sq_header (fst st) \<noteq> sq_tail (fst st)" by simp
  have "bs \<noteq> 0" using I(7) by auto
  then show ?thesis
    using False ne' inv I ring_slots_next_tail [OF I(1,2) ne]
    by (auto simp: shm_get_def shared_mem_pool_queue_recv_zc_def shm_dequeue_next [OF inv False]
        shm_inv_def shm_contents_def slot_block_def unat_ring_next_u16 [OF I(10)] ring_next_u16_less)
qed

lemma length_shm_contents:
  assumes "shm_inv vb cap bs q"
  shows "length (shm_contents q m) \<le> unat cap - 1"
  using shm_inv_nat [OF assms] ring_len_less [of "unat (sq_header q)" "unat cap" "unat (sq_tail q)"]
  by (simp add: shm_contents_def)

interpretation shm: bounded_fifo
  "\<lambda>st. shm_inv vb cap bs (fst st)" "\<lambda>st. shm_contents (fst st) (snd st)"
  "unat cap - 1" "shm_valid bs" "shm_matches bs" shm_put shm_get
  for vb cap bs
proof (unfold_locales, goal_cases)
  case (1 st)
  then show ?case by (rule length_shm_contents)
next
  case (2 st d)
  then show ?case using shm_put_spec [OF 2(1,2)] by auto
next
  case (3 st u)
  then show ?case using shm_get_spec [OF 3(1), of u] by auto
next
  case (4 st d)
  then show ?case using shm_put_spec [OF 4(1,2)] by auto
next
  case (5 st d)
  then show ?case using shm_put_spec [OF 5(1,2)] by (auto simp: shm_matches_def shm_valid_def)
next
  case (6 st d)
  then show ?case using shm_put_spec [OF 6(1,2)] by auto
next
  case (7 st u)
  then show ?case using shm_get_spec [OF 7(1), of u] by auto
next
  case (8 st u)
  then show ?case using shm_get_spec [OF 8(1), of u] by auto
qed


section \<open>Roll-back, and the one-copy send\<close>

lemma ring_next_u16_pred:
  assumes "h < cap" "ring_next_u16 cap h \<noteq> t"
  shows "(if ring_next_u16 cap h = 0 then cap - 1 else ring_next_u16 cap h - 1) = h"
proof (cases "unat h + 1 = unat cap")
  case True
  then have "cap = h + 1"
    using unat_u16_less [of cap] by (simp add: word_unat_eq_iff unat_word_ariths)
  then show ?thesis by (simp add: ring_next_u16_def)
next
  case False
  then have "unat h + 1 < unat cap" using assms(1) by (simp add: word_less_nat_alt)
  moreover from this have "unat (h + 1) = unat h + 1"
    using unat_u16_less [of cap] by (simp add: unat_word_ariths)
  ultimately have "ring_next_u16 cap h = h + 1" "h + 1 \<noteq> 0"
    by (auto simp: ring_next_u16_def word_le_nat_alt word_unat_eq_iff)
  then show ?thesis by simp
qed

text \<open>\<open>send_oc\<close> writes one block below the slot its own enqueue publishes.\<close>

lemma send_oc_write_addr:
  assumes "shm_inv vb cap bs q" "0 < n" "n \<le> unat bs"
  shows "disjoint_regions (vb + of_nat (unat (sq_header q) * unat bs)) n
           (slot_addr vb bs (unat (sq_header q))) (unat bs)"
    and "fits (vb + of_nat (unat (sq_header q) * unat bs)) n"
proof -
  note I = shm_inv_nat [OF assms(1)]
  let ?h = "unat (sq_header q)"
  have le: "(?h + 1) * unat bs + unat bs \<le> (unat cap + 1) * unat bs"
    using I(1) by (rule mult_step_le)
  then have "unat vb + ?h * unat bs < 2 ^ 64" using I(11) by simp
  then have a: "unat (vb + of_nat (?h * unat bs)) = unat vb + ?h * unat bs"
    by (rule unat_add_of_nat)
  have b: "unat (slot_addr vb bs ?h) = unat vb + (?h + 1) * unat bs"
    using I by (intro unat_slot_addr)
  show "disjoint_regions (vb + of_nat (?h * unat bs)) n (slot_addr vb bs ?h) (unat bs)"
    using assms(3) by (simp add: disjoint_regions_def a b del: of_nat_mult)
  show "fits (vb + of_nat (?h * unat bs)) n"
    using le I(11) assms(3) by (simp add: fits_def a del: of_nat_mult)
qed


section \<open>Properties\<close>

text \<open>
  C23.  The shared-memory pool queue, filled by slot allocation and drained by the
  zero-copy receive, is a bounded FIFO: the blocks received followed by the blocks still
  stored are the blocks stored at the start followed by the messages that found room, in
  order.
\<close>

theorem shm_pool_queue_fifo:
  assumes "shm_inv vb cap bs q"
    and "\<forall>d. Put d \<in> set ops \<longrightarrow> shm_valid bs d"
    and "run_queue shm_put shm_get ops (q, m) = (accepted, delivered, q', m')"
  shows "shm_inv vb cap bs q' \<and>
    (\<exists>blocks. list_all2 (shm_matches bs) accepted blocks \<and>
       shm_contents q m @ blocks = delivered @ shm_contents q' m')"
  using shm.run_fifo [of vb cap bs "(q, m)" ops accepted delivered "(q', m')"] assms by auto

text \<open>
  \<open>SHM_POOL_QUEUE_HEAD_ROLLBACK\<close> undoes \<open>SHM_POOL_QUEUE_ALLOC_FROM_HEADER\<close>: when an
  allocation succeeds (the queue is not full), rolling the header back gives the queue
  before the allocation; when it fails, the address is \<open>ERROR_SHARED_MEM_ADDR\<close> and the
  queue is untouched.
\<close>

lemma shm_alloc_rollback:
  assumes "shm_inv vb cap bs q"
  shows "if length (shm_contents q m) < unat cap - 1
    then (\<exists>addr q'. SHM_POOL_QUEUE_ALLOC_FROM_HEADER (Some q) = (Some addr, Some q')
           \<and> addr \<noteq> ERROR_SHARED_MEM_ADDR \<and> SHM_POOL_QUEUE_HEAD_ROLLBACK (Some q') = Some q)
    else SHM_POOL_QUEUE_ALLOC_FROM_HEADER (Some q) = (Some ERROR_SHARED_MEM_ADDR, Some q)"
proof (cases "ring_next_u16 cap (sq_header q) = sq_tail q")
  case True
  then show ?thesis
    using shm_room [OF assms, of m] by (simp add: alloc_from_header_spec [OF assms])
next
  case False
  note I = shm_inv_nat [OF assms]
  have "(if ring_next_u16 cap (sq_header q) = 0 then cap - 1
         else ring_next_u16 cap (sq_header q) - 1) = sq_header q"
    using I(9) False by (rule ring_next_u16_pred)
  then have "SHM_POOL_QUEUE_HEAD_ROLLBACK (Some (q\<lparr>sq_header := ring_next_u16 cap (sq_header q)\<rparr>))
      = Some q"
    using False I(3) by (auto simp: SHM_POOL_QUEUE_HEAD_ROLLBACK_def split: if_splits)
  then show ?thesis
    using False shm_room [OF assms, of m] slot_addr_not_error [OF assms I(1)]
    by (simp add: alloc_from_header_spec [OF assms])
qed

text \<open>
  Creation and initialisation.  \<open>shared_mem_pool_queue_create_backend\<close> gives an
  empty queue with the configured geometry over the allocated region.
  \<open>shared_mem_pool_queue_initialize\<close> does not: the capacity it leaves is the block size,
  whatever capacity was configured.
\<close>

lemma shm_create_and_initialize:
  assumes "sc_map_mode cfg = 0" "sc_pool cfg"
    and "sc_capacity cfg = ucast cap" "sc_block_size cfg = ucast bs" "0 < bs" "0 < cap"
    and "unat vb + (unat cap + 1) * unat bs < 2 ^ 64" "(unat cap + 1) * unat bs < 2 ^ 31"
  shows "(\<exists>q. shared_mem_pool_queue_create_backend (Some fresh) (Some vb) (Some cfg) = Some q
           \<and> shm_inv vb cap bs q \<and> shm_contents q m = [])
    \<and> (\<exists>q. shared_mem_pool_queue_initialize (Some fresh) (Some cfg) = (BACKEND_PROXY_PROCESS_OK, Some q)
           \<and> sq_capacity q = bs \<and> sq_block_size q = bs)"
proof -
  have uc: "ucast (ucast w :: u64) = (w :: u16)" for w
    by (rule bit_word_eqI) (simp add: bit_ucast_iff)
  have "(ucast bs :: u64) \<noteq> 0"
    using assms(5) uc [of bs] by (metis unsigned_0 word_not_simps(1))
  then show ?thesis
    using assms uc by (simp add: shared_mem_pool_queue_create_backend_def IS_VALID_SHM_CONF_MAP_MODE_def
        map_modes shm_inv_def shm_contents_def ring_slots_empty shared_mem_pool_queue_initialize_def Let_def)
qed

text \<open>
  The one-copy send and the zero-copy receive do not fit together: on an empty queue
  a send of any valid message succeeds, and the receive that follows succeeds, but the block
  it returns is what that memory held before the send.  The message is written one block
  below.
\<close>

lemma shm_send_recv_mismatch:
  assumes "shm_inv vb cap bs q" "sq_header q = sq_tail q" "1 < cap"
    and "0 < length d" "length d \<le> unat bs"
  shows "\<exists>q1 m1 buffer q2.
     shared_mem_pool_queue_send_oc (Some q) (Some d) (length d) m
       = (BACKEND_PROXY_PROCESS_OK, Some q1, m1)
   \<and> shared_mem_pool_queue_recv_zc (Some q1) True True
       = (BACKEND_PROXY_PROCESS_OK, Some buffer, Some q2)
   \<and> read_bytes m1 buffer (unat bs) = read_bytes m buffer (unat bs)"
proof -
  note I = shm_inv_nat [OF assms(1)]
  let ?q1 = "q\<lparr>sq_header := ring_next_u16 cap (sq_header q)\<rparr>"
  let ?m1 = "write_loop m (vb + of_nat (unat (sq_header q) * unat bs)) ((!) d) (length d)"
  have len: "length (shm_contents q m) < unat cap - 1"
    using assms(2,3) by (simp add: shm_contents_def ring_slots_empty word_less_nat_alt)
  then have ne: "ring_next_u16 cap (sq_header q) \<noteq> sq_tail q" using shm_room [OF assms(1)] by blast
  then have "ring_next (unat cap) (unat (sq_header q)) \<noteq> unat (sq_tail q)"
    using unat_ring_next_u16 [OF I(9)] by (auto simp: word_unat_eq_iff)
  then have "(unat (sq_header q) + 1) mod unat cap \<noteq> unat (sq_tail q)"
    using ring_next_mod [OF I(1)] by simp
  then have send: "shared_mem_pool_queue_send_oc (Some q) (Some d) (length d) m
      = (BACKEND_PROXY_PROCESS_OK, Some ?q1, ?m1)"
    using I ne assms(4,5) by (auto simp: shared_mem_pool_queue_send_oc_def shm_enqueue_next [OF assms(1)])
  have inv1: "shm_inv vb cap bs ?q1"
    using assms(1) ring_next_u16_less [OF I(9)] by (simp add: shm_inv_def)
  have ne1: "sq_tail ?q1 \<noteq> sq_header ?q1" using ne by simp
  have recv: "shared_mem_pool_queue_recv_zc (Some ?q1) True True
      = (BACKEND_PROXY_PROCESS_OK, Some (slot_addr vb bs (unat (sq_header q))),
         Some (?q1\<lparr>sq_tail := ring_next_u16 cap (sq_tail q)\<rparr>))"
    using I ne assms(2) shm_dequeue_next [OF inv1 ne1]
    by (auto simp: shared_mem_pool_queue_recv_zc_def)
  have "read_bytes ?m1 (slot_addr vb bs (unat (sq_header q))) (unat bs)
      = read_bytes m (slot_addr vb bs (unat (sq_header q))) (unat bs)"
    using send_oc_write_addr [OF assms(1,4,5)] unat_slot_addr(2) [OF I(8) I(1) I(7)]
    by (intro read_bytes_write_loop_disjoint)
  with send recv show ?thesis by blast
qed

text \<open>
  \<open>SHMP_QUEUE_USED_MEMORY\<close> and \<open>SHMP_QUEUE_SURPLUS_MEMORY\<close> subtract the indices the
  wrong way round.  They are right for an empty queue; with \<open>n > 0\<close> stored blocks they
  report \<open>capacity - n\<close> blocks used and \<open>n\<close> blocks free.
\<close>

lemma shm_used_memory_swapped:
  assumes "shm_inv vb cap bs q"
  shows "SHMP_QUEUE_USED_MEMORY q =
      (if shm_contents q m = [] then 0
       else (uint cap - int (length (shm_contents q m))) * uint bs)
    \<and> SHMP_QUEUE_SURPLUS_MEMORY q =
      (if shm_contents q m = [] then uint cap * uint bs
       else int (length (shm_contents q m)) * uint bs)"
proof -
  note I = shm_inv_nat [OF assms]
  have e: "shm_contents q m = [] \<longleftrightarrow> sq_tail q = sq_header q"
    using ring_len_0_iff [OF I(1,2)] I(3) length_0_conv [of "shm_contents q m"]
    by (simp add: shm_contents_def word_unat_eq_iff)
  have n: "int (length (shm_contents q m)) =
      (if sq_header q \<ge> sq_tail q then uint (sq_header q) - uint (sq_tail q)
       else uint cap - uint (sq_tail q) + uint (sq_header q))"
    using I(1-3) by (simp add: shm_contents_def ring_len_def word_le_nat_alt of_nat_diff)
  show ?thesis
    unfolding SHMP_QUEUE_USED_MEMORY_def SHMP_QUEUE_SURPLUS_MEMORY_def n e I(3,4)
    by (auto simp: not_le)
qed


section \<open>A concrete queue\<close>

definition shm_sample :: SharedMemoryPoolQueue where
  "shm_sample = \<lparr>sq_map_mode1 = 0, sq_map_mode2 = 0, sq_header = 0, sq_tail = 0, sq_capacity = 4,
     sq_block_size = 2, sq_phy_addr = 0xA000, sq_virt_addr1 = 8192, sq_virt_addr2 = 0,
     sq_table1 = [], sq_table2 = [], sq_pool = True\<rparr>"

definition shm_sample_config :: SharedMemoryPoolQueueConfig where
  "shm_sample_config = \<lparr>sc_pool = True, sc_map_mode = 0, sc_phy_addr = 0xA000, sc_virt_addr = 0,
     sc_capacity = 4, sc_block_size = 2\<rparr>"

definition shm_zero_mem :: mem where "shm_zero_mem = (\<lambda>_. 0)"

definition shm_sample_ops :: "(bytes, unit) queue_op list" where
  "shm_sample_ops = [Put [1, 2], Put [3], Get (), Put [4, 5]]"

definition shm_sample_final :: "SharedMemoryPoolQueue \<times> mem" where
  "shm_sample_final = snd (snd (run_queue shm_put shm_get shm_sample_ops (shm_sample, shm_zero_mem)))"

lemma shm_sample_inv: "shm_inv 8192 4 2 shm_sample"
  by (simp add: shm_inv_def shm_sample_def)

lemma shm_sample_empty: "shm_contents shm_sample shm_zero_mem = []"
  by code_simp

lemma shm_sample_run:
  "run_queue shm_put shm_get shm_sample_ops (shm_sample, shm_zero_mem)
     = ([[1, 2], [3], [4, 5]], [[1, 2]], shm_sample_final)"
proof -
  have "fst (run_queue shm_put shm_get shm_sample_ops (shm_sample, shm_zero_mem))
      = [[1, 2], [3], [4, 5]]"
    and "fst (snd (run_queue shm_put shm_get shm_sample_ops (shm_sample, shm_zero_mem))) = [[1, 2]]"
    by code_simp+
  then show ?thesis by (metis prod.collapse shm_sample_final_def)
qed

theorem shm_pool_queue_fifo_witness:
  "shm_inv 8192 4 2 (fst shm_sample_final) \<and>
   (\<exists>blocks. list_all2 (shm_matches 2) [[1, 2], [3], [4, 5]] blocks \<and>
      blocks = [1, 2] # shm_contents (fst shm_sample_final) (snd shm_sample_final))"
proof -
  have "\<forall>d. Put d \<in> set shm_sample_ops \<longrightarrow> shm_valid 2 d"
    by (auto simp: shm_sample_ops_def shm_valid_def)
  then show ?thesis
    using shm_pool_queue_fifo [OF shm_sample_inv, of shm_sample_ops shm_zero_mem
        "[[1, 2], [3], [4, 5]]" "[[1, 2]]" "fst shm_sample_final" "snd shm_sample_final"]
      shm_sample_run shm_sample_empty by simp
qed

end
