(* ===== verification/Message.thy ===== *)
theory Message
  imports Prelude
begin

text \<open>
  The proxy protocol of \<open>src/include/message.h\<close>: headers as records with their packed
  little-endian encodings, the payload-length tables, the IPv4 conversions, the IoT
  address formats, and the sub-message builders of \<open>src/src/backend_proto.c\<close>.
\<close>

section \<open>Constants\<close>

definition PROXY_PROTO_VERSION_1 :: u8 where "PROXY_PROTO_VERSION_1 = 1"
definition PROXY_PROTO_DEV_VERSION_1 :: u16 where "PROXY_PROTO_DEV_VERSION_1 = 1"
definition PROXY_PROTO_STRGY_VERSION_1 :: u16 where "PROXY_PROTO_STRGY_VERSION_1 = 1"
definition PROXY_PROTO_SESS_VERSION_1 :: u16 where "PROXY_PROTO_SESS_VERSION_1 = 1"
definition PROXY_MSG_HDR_SIZE :: nat where "PROXY_MSG_HDR_SIZE = 8"
definition PROXY_MSG_MIN_SIZE :: nat where "PROXY_MSG_MIN_SIZE = 1"
definition PROXY_MSG_MAX_SIZE :: nat where "PROXY_MSG_MAX_SIZE = 4088"
definition PROXY_MSG_INVALID_LEN :: int where "PROXY_MSG_INVALID_LEN = -1"

text \<open>Message kinds, as the codes that travel in the headers.\<close>

definition PROXY_MSG_TYPE_DEV :: u8 where "PROXY_MSG_TYPE_DEV = 0"
definition PROXY_MSG_TYPE_STRGY :: u8 where "PROXY_MSG_TYPE_STRGY = 1"
definition PROXY_MSG_TYPE_SESS :: u8 where "PROXY_MSG_TYPE_SESS = 2"
definition PROXY_MSG_TYPE_DATA :: u8 where "PROXY_MSG_TYPE_DATA = 3"
definition PROXY_MSG_TYPE_IOT :: u8 where "PROXY_MSG_TYPE_IOT = 4"

lemmas proxy_msg_types = PROXY_MSG_TYPE_DEV_def PROXY_MSG_TYPE_STRGY_def PROXY_MSG_TYPE_SESS_def
  PROXY_MSG_TYPE_DATA_def PROXY_MSG_TYPE_IOT_def

definition ACTION_TYPE_COMMAND :: u16 where "ACTION_TYPE_COMMAND = 0"
definition ACTION_TYPE_RESPONSE :: u16 where "ACTION_TYPE_RESPONSE = 1"
definition DEV_MSG_DISABLE :: u16 where "DEV_MSG_DISABLE = 0"
definition DEV_MSG_ENABLE :: u16 where "DEV_MSG_ENABLE = 1"
definition DEV_MSG_QUERY :: u16 where "DEV_MSG_QUERY = 2"
definition STRGY_MSG_SET :: u16 where "STRGY_MSG_SET = 0"
definition STRGY_MSG_QUERY :: u16 where "STRGY_MSG_QUERY = 1"
definition SESS_MSG_CLOSE :: u16 where "SESS_MSG_CLOSE = 0"
definition SESS_MSG_CREATE :: u16 where "SESS_MSG_CREATE = 1"
definition SESS_IPV4_PROTO :: u16 where "SESS_IPV4_PROTO = 4"
definition SESS_IPV6_PROTO :: u16 where "SESS_IPV6_PROTO = 6"
definition SESS_UDP_PROTO :: u16 where "SESS_UDP_PROTO = 0"
definition SESS_TCP_PROTO :: u16 where "SESS_TCP_PROTO = 1"
definition SESS_FASTPATH_PROTO :: u16 where "SESS_FASTPATH_PROTO = 2"

lemmas msg_codes = ACTION_TYPE_COMMAND_def ACTION_TYPE_RESPONSE_def DEV_MSG_DISABLE_def
  DEV_MSG_ENABLE_def DEV_MSG_QUERY_def STRGY_MSG_SET_def STRGY_MSG_QUERY_def SESS_MSG_CLOSE_def
  SESS_MSG_CREATE_def SESS_IPV4_PROTO_def SESS_IPV6_PROTO_def SESS_UDP_PROTO_def SESS_TCP_PROTO_def
  SESS_FASTPATH_PROTO_def

definition IOT_PROTO_TYPE_BLUETOOTH :: u16 where "IOT_PROTO_TYPE_BLUETOOTH = 1"
definition IOT_PROTO_TYPE_ZIGBEE :: u16 where "IOT_PROTO_TYPE_ZIGBEE = 2"
definition IOT_PROTO_TYPE_CAN :: u16 where "IOT_PROTO_TYPE_CAN = 3"
definition IOT_PROTO_TYPE_LORA :: u16 where "IOT_PROTO_TYPE_LORA = 4"
definition IOT_PROTO_TYPE_POWERLINK :: u16 where "IOT_PROTO_TYPE_POWERLINK = 5"
definition IOT_PROTO_TYPE_MODBUSTCP :: u16 where "IOT_PROTO_TYPE_MODBUSTCP = 6"

lemmas iot_proto_types = IOT_PROTO_TYPE_BLUETOOTH_def IOT_PROTO_TYPE_ZIGBEE_def
  IOT_PROTO_TYPE_CAN_def IOT_PROTO_TYPE_LORA_def IOT_PROTO_TYPE_POWERLINK_def
  IOT_PROTO_TYPE_MODBUSTCP_def


section \<open>Packed fields\<close>

definition put_u16 :: "u16 \<Rightarrow> bytes" where
  "put_u16 w = [byte_of w 0, byte_of w 1]"

definition put_u32 :: "u32 \<Rightarrow> bytes" where
  "put_u32 w = map (byte_of w) [0..<4]"

definition put_u64 :: "u64 \<Rightarrow> bytes" where
  "put_u64 w = map (byte_of w) [0..<8]"

definition get_u8 :: "bytes \<Rightarrow> nat \<Rightarrow> u8" where
  "get_u8 b off = b ! off"

definition get_u16 :: "bytes \<Rightarrow> nat \<Rightarrow> u16" where
  "get_u16 b off = read_le (\<lambda>i. b ! (off + i)) 2"

definition get_u32 :: "bytes \<Rightarrow> nat \<Rightarrow> u32" where
  "get_u32 b off = read_le (\<lambda>i. b ! (off + i)) 4"

lemma length_put [simp]:
  "length (put_u16 w) = 2" "length (put_u32 x) = 4" "length (put_u64 y) = 8"
  by (simp_all add: put_u16_def put_u32_def put_u64_def)

lemma get_put_u16 [codec_simps]:
  "get_u16 (pre @ put_u16 w @ post) (length pre) = w"
  unfolding get_u16_def
  by (rule read_le_byte_of) (auto simp: put_u16_def nth_append numeral_2_eq_2 less_Suc_eq)

lemma get_put_u16_at [codec_simps]:
  "length pre = n \<Longrightarrow> get_u16 (pre @ put_u16 w @ post) n = w"
  using get_put_u16 by metis


section \<open>Headers\<close>

record ProxyMsgHeader =
  ph_version :: u8
  ph_proxy_msg_type :: u8
  ph_frontend_sess_id :: u16
  ph_backend_sess_id :: u16
  ph_payload_len :: u16

record DevMsgHeader =
  dh_version :: u16
  dh_msg_type :: u16
  dh_msg_id :: u16
  dh_action_type :: u16
  dh_payload_len :: u16

record StrgyMsgHeader =
  th_version :: u16
  th_msg_type :: u16
  th_msg_id :: u16
  th_action_type :: u16
  th_payload_len :: u16

record SessMsgHeader =
  sh_version :: u16
  sh_msg_type :: u16
  sh_action_type :: u16
  sh_ip_version :: u16
  sh_payload_len :: u16

record IotMsgHeader =
  ih_proto_ver :: u16
  ih_proto_type :: u16
  ih_opcode :: u16
  ih_dev_port_id :: u16
  ih_payload_len :: u16
  ih_reserve :: u16

definition enc_ProxyMsgHeader :: "ProxyMsgHeader \<Rightarrow> bytes" where
  "enc_ProxyMsgHeader h = [ph_version h, ph_proxy_msg_type h] @ put_u16 (ph_frontend_sess_id h) @
     put_u16 (ph_backend_sess_id h) @ put_u16 (ph_payload_len h)"

definition dec_ProxyMsgHeader :: "bytes \<Rightarrow> ProxyMsgHeader" where
  "dec_ProxyMsgHeader b = \<lparr>ph_version = get_u8 b 0, ph_proxy_msg_type = get_u8 b 1,
     ph_frontend_sess_id = get_u16 b 2, ph_backend_sess_id = get_u16 b 4,
     ph_payload_len = get_u16 b 6\<rparr>"

definition enc_five :: "u16 \<Rightarrow> u16 \<Rightarrow> u16 \<Rightarrow> u16 \<Rightarrow> u16 \<Rightarrow> bytes" where
  "enc_five a b c d e = put_u16 a @ put_u16 b @ put_u16 c @ put_u16 d @ put_u16 e"

definition enc_DevMsgHeader :: "DevMsgHeader \<Rightarrow> bytes" where
  "enc_DevMsgHeader h = enc_five (dh_version h) (dh_msg_type h) (dh_msg_id h) (dh_action_type h)
     (dh_payload_len h)"

definition dec_DevMsgHeader :: "bytes \<Rightarrow> DevMsgHeader" where
  "dec_DevMsgHeader b = \<lparr>dh_version = get_u16 b 0, dh_msg_type = get_u16 b 2,
     dh_msg_id = get_u16 b 4, dh_action_type = get_u16 b 6, dh_payload_len = get_u16 b 8\<rparr>"

definition enc_StrgyMsgHeader :: "StrgyMsgHeader \<Rightarrow> bytes" where
  "enc_StrgyMsgHeader h = enc_five (th_version h) (th_msg_type h) (th_msg_id h) (th_action_type h)
     (th_payload_len h)"

definition dec_StrgyMsgHeader :: "bytes \<Rightarrow> StrgyMsgHeader" where
  "dec_StrgyMsgHeader b = \<lparr>th_version = get_u16 b 0, th_msg_type = get_u16 b 2,
     th_msg_id = get_u16 b 4, th_action_type = get_u16 b 6, th_payload_len = get_u16 b 8\<rparr>"

definition enc_SessMsgHeader :: "SessMsgHeader \<Rightarrow> bytes" where
  "enc_SessMsgHeader h = enc_five (sh_version h) (sh_msg_type h) (sh_action_type h)
     (sh_ip_version h) (sh_payload_len h)"

definition dec_SessMsgHeader :: "bytes \<Rightarrow> SessMsgHeader" where
  "dec_SessMsgHeader b = \<lparr>sh_version = get_u16 b 0, sh_msg_type = get_u16 b 2,
     sh_action_type = get_u16 b 4, sh_ip_version = get_u16 b 6, sh_payload_len = get_u16 b 8\<rparr>"

definition enc_IotMsgHeader :: "IotMsgHeader \<Rightarrow> bytes" where
  "enc_IotMsgHeader h = enc_five (ih_proto_ver h) (ih_proto_type h) (ih_opcode h)
     (ih_dev_port_id h) (ih_payload_len h) @ put_u16 (ih_reserve h)"

definition dec_IotMsgHeader :: "bytes \<Rightarrow> IotMsgHeader" where
  "dec_IotMsgHeader b = \<lparr>ih_proto_ver = get_u16 b 0, ih_proto_type = get_u16 b 2,
     ih_opcode = get_u16 b 4, ih_dev_port_id = get_u16 b 6, ih_payload_len = get_u16 b 8,
     ih_reserve = get_u16 b 10\<rparr>"

lemma length_enc [simp]:
  "length (enc_ProxyMsgHeader p) = 8" "length (enc_five a b c d e) = 10"
  "length (enc_DevMsgHeader dh) = 10" "length (enc_StrgyMsgHeader th) = 10"
  "length (enc_SessMsgHeader sh) = 10" "length (enc_IotMsgHeader ih) = 12"
  by (simp_all add: enc_ProxyMsgHeader_def enc_five_def enc_DevMsgHeader_def
      enc_StrgyMsgHeader_def enc_SessMsgHeader_def enc_IotMsgHeader_def)

lemma get_enc_five:
  "get_u16 (enc_five a b c d e @ r) 0 = a" "get_u16 (enc_five a b c d e @ r) 2 = b"
  "get_u16 (enc_five a b c d e @ r) 4 = c" "get_u16 (enc_five a b c d e @ r) 6 = d"
  "get_u16 (enc_five a b c d e @ r) 8 = e"
  using get_put_u16_at [of "[]" 0 a] get_put_u16_at [of "put_u16 a" 2 b]
    get_put_u16_at [of "put_u16 a @ put_u16 b" 4 c]
    get_put_u16_at [of "put_u16 a @ put_u16 b @ put_u16 c" 6 d]
    get_put_u16_at [of "put_u16 a @ put_u16 b @ put_u16 c @ put_u16 d" 8 e]
  by (simp_all add: enc_five_def)

lemma dec_enc_ProxyMsgHeader [codec_simps]: "dec_ProxyMsgHeader (enc_ProxyMsgHeader h @ r) = h"
  using get_put_u16_at [of "[ph_version h, ph_proxy_msg_type h]" 2 "ph_frontend_sess_id h"]
    get_put_u16_at [of "[ph_version h, ph_proxy_msg_type h] @ put_u16 (ph_frontend_sess_id h)" 4
      "ph_backend_sess_id h"]
    get_put_u16_at [of "[ph_version h, ph_proxy_msg_type h] @ put_u16 (ph_frontend_sess_id h) @
      put_u16 (ph_backend_sess_id h)" 6 "ph_payload_len h"]
  by (simp add: dec_ProxyMsgHeader_def enc_ProxyMsgHeader_def get_u8_def)

lemma dec_enc_DevMsgHeader [codec_simps]: "dec_DevMsgHeader (enc_DevMsgHeader h @ r) = h"
  by (simp add: dec_DevMsgHeader_def enc_DevMsgHeader_def get_enc_five)

lemma dec_enc_StrgyMsgHeader [codec_simps]: "dec_StrgyMsgHeader (enc_StrgyMsgHeader h @ r) = h"
  by (simp add: dec_StrgyMsgHeader_def enc_StrgyMsgHeader_def get_enc_five)

lemma dec_enc_SessMsgHeader [codec_simps]: "dec_SessMsgHeader (enc_SessMsgHeader h @ r) = h"
  by (simp add: dec_SessMsgHeader_def enc_SessMsgHeader_def get_enc_five)

lemma dec_enc_IotMsgHeader [codec_simps]: "dec_IotMsgHeader (enc_IotMsgHeader h @ r) = h"
  using get_put_u16_at [of "enc_five (ih_proto_ver h) (ih_proto_type h) (ih_opcode h)
     (ih_dev_port_id h) (ih_payload_len h)" 10 "ih_reserve h" r]
  by (simp add: dec_IotMsgHeader_def enc_IotMsgHeader_def get_enc_five)


section \<open>Payload lengths\<close>

definition DEV_MSG_PAYLOAD_LEN :: "u16 \<Rightarrow> u16 \<Rightarrow> int" where
  "DEV_MSG_PAYLOAD_LEN dev_msg_type action_type =
     (if dev_msg_type = DEV_MSG_ENABLE then
        (if action_type = ACTION_TYPE_COMMAND then 2
         else if action_type = ACTION_TYPE_RESPONSE then 2 else PROXY_MSG_INVALID_LEN)
      else if dev_msg_type = DEV_MSG_DISABLE then
        (if action_type = ACTION_TYPE_COMMAND then 2
         else if action_type = ACTION_TYPE_RESPONSE then 2 else PROXY_MSG_INVALID_LEN)
      else if dev_msg_type = DEV_MSG_QUERY then
        (if action_type = ACTION_TYPE_COMMAND then 0
         else if action_type = ACTION_TYPE_RESPONSE then 4 else PROXY_MSG_INVALID_LEN)
      else PROXY_MSG_INVALID_LEN)"

definition STRGY_MSG_PAYLOAD_LEN :: "u16 \<Rightarrow> u16 \<Rightarrow> int" where
  "STRGY_MSG_PAYLOAD_LEN strgy_msg_type action_type =
     (if strgy_msg_type = STRGY_MSG_SET then
        (if action_type = ACTION_TYPE_COMMAND then 2
         else if action_type = ACTION_TYPE_RESPONSE then 2 else PROXY_MSG_INVALID_LEN)
      else if strgy_msg_type = STRGY_MSG_QUERY then
        (if action_type = ACTION_TYPE_COMMAND then 0
         else if action_type = ACTION_TYPE_RESPONSE then 4 else PROXY_MSG_INVALID_LEN)
      else PROXY_MSG_INVALID_LEN)"

definition SESS_MSG_PAYLOAD_LEN :: "u16 \<Rightarrow> u16 \<Rightarrow> u16 \<Rightarrow> int" where
  "SESS_MSG_PAYLOAD_LEN sess_msg_type action_type ip_version =
     (if sess_msg_type = SESS_MSG_CLOSE then
        (if action_type = ACTION_TYPE_COMMAND then 0
         else if action_type = ACTION_TYPE_RESPONSE then 2 else PROXY_MSG_INVALID_LEN)
      else if sess_msg_type = SESS_MSG_CREATE then
        (if action_type = ACTION_TYPE_RESPONSE then 2
         else if action_type = ACTION_TYPE_COMMAND then
           (if ip_version = SESS_IPV4_PROTO then 10
            else if ip_version = SESS_IPV6_PROTO then 22 else PROXY_MSG_INVALID_LEN)
         else PROXY_MSG_INVALID_LEN)
      else PROXY_MSG_INVALID_LEN)"

definition DEV_MSG_HEADER_PAYLOAD_LEN :: "DevMsgHeader \<Rightarrow> int" where
  "DEV_MSG_HEADER_PAYLOAD_LEN h = DEV_MSG_PAYLOAD_LEN (dh_msg_type h) (dh_action_type h)"

text \<open>The source uses the device table here, not the strategy table.\<close>

definition STRGY_MSG_HEADER_PAYLOAD_LEN :: "StrgyMsgHeader \<Rightarrow> int" where
  "STRGY_MSG_HEADER_PAYLOAD_LEN h = DEV_MSG_PAYLOAD_LEN (th_msg_type h) (th_action_type h)"

definition SESS_MSG_HEADER_PAYLOAD_LEN :: "SessMsgHeader \<Rightarrow> int" where
  "SESS_MSG_HEADER_PAYLOAD_LEN h =
     SESS_MSG_PAYLOAD_LEN (sh_msg_type h) (sh_action_type h) (sh_ip_version h)"

definition IS_VALID_DEV_MSG_TYPE :: "u16 \<Rightarrow> bool" where
  "IS_VALID_DEV_MSG_TYPE t \<longleftrightarrow> t = DEV_MSG_DISABLE \<or> t = DEV_MSG_ENABLE \<or> t = DEV_MSG_QUERY"

definition IS_VALID_STRGY_MSG_TYPE :: "u16 \<Rightarrow> bool" where
  "IS_VALID_STRGY_MSG_TYPE t \<longleftrightarrow> t = STRGY_MSG_SET \<or> t = STRGY_MSG_QUERY"

definition IS_VALID_SESS_MSG_TYPE :: "u16 \<Rightarrow> bool" where
  "IS_VALID_SESS_MSG_TYPE t \<longleftrightarrow> t = SESS_MSG_CREATE \<or> t = SESS_MSG_CLOSE"

definition IS_VALID_SESS_IP_VERSION :: "u16 \<Rightarrow> bool" where
  "IS_VALID_SESS_IP_VERSION v \<longleftrightarrow> v = SESS_IPV4_PROTO \<or> v = SESS_IPV6_PROTO"

text \<open>An \<open>int\<close> stored in a \<open>size_t\<close>: the invalid length becomes the largest value.\<close>

definition size_t_of :: "int \<Rightarrow> nat" where
  "size_t_of i = nat (i mod 2 ^ 64)"

text \<open>Number of maximal fragments that carry \<open>data_size\<close> bytes.\<close>

definition PROXY_MSG_TOTAL_MEM_SIZE :: "nat \<Rightarrow> nat" where
  "PROXY_MSG_TOTAL_MEM_SIZE data_size = (data_size + PROXY_MSG_MAX_SIZE - 1) div PROXY_MSG_MAX_SIZE"


section \<open>IPv4 addresses\<close>

text \<open>\<open>ntohl\<close> and \<open>htonl\<close> on a little-endian machine.\<close>

definition ntohl :: "u32 \<Rightarrow> u32" where
  "ntohl w = read_le (\<lambda>i. byte_of w (3 - i)) 4"

definition COPY_IN_TO_IPV4 :: "u32 \<Rightarrow> bytes" where
  "COPY_IN_TO_IPV4 s_addr =
     (let addr = ntohl s_addr
      in [ucast (drop_bit 24 addr AND 0xFF), ucast (drop_bit 16 addr AND 0xFF),
          ucast (drop_bit 8 addr AND 0xFF), ucast (addr AND 0xFF)])"

definition COPY_IPV4_TO_IN :: "bytes \<Rightarrow> u32" where
  "COPY_IPV4_TO_IN d =
     (let addr = push_bit 24 (ucast (d ! 0)) OR push_bit 16 (ucast (d ! 1)) OR
                 push_bit 8 (ucast (d ! 2)) OR ucast (d ! 3)
      in ntohl addr)"


section \<open>IoT addresses\<close>

record IotBtAddr =
  ba_mac :: bytes
  ba_port :: u16

record IotCanAddr =
  ca_port :: u16
  ca_can_id :: u32
  ca_bus_id :: u8

record IotZigbeeAddr =
  za_mac :: bytes
  za_pan_id :: u16
  za_endpoint :: u8

record IotLoraAddr =
  la_dev_eui :: u64
  la_port :: u16
  la_freq_band :: u8

record IotPowerLinkAddr =
  pa_node_id :: u16
  pa_mac :: bytes
  pa_pdo_id :: u16

record IotModbusTcpAddr =
  ma_ip :: bytes
  ma_port :: u16
  ma_unit_id :: u8
  ma_reg_addr :: u16
  ma_reg_num :: u16

definition enc_IotBtAddr :: "IotBtAddr \<Rightarrow> bytes" where
  "enc_IotBtAddr a = ba_mac a @ put_u16 (ba_port a)"

definition enc_IotCanAddr :: "IotCanAddr \<Rightarrow> bytes" where
  "enc_IotCanAddr a = put_u16 (ca_port a) @ put_u32 (ca_can_id a) @ [ca_bus_id a]"

definition enc_IotZigbeeAddr :: "IotZigbeeAddr \<Rightarrow> bytes" where
  "enc_IotZigbeeAddr a = za_mac a @ put_u16 (za_pan_id a) @ [za_endpoint a]"

definition enc_IotLoraAddr :: "IotLoraAddr \<Rightarrow> bytes" where
  "enc_IotLoraAddr a = put_u64 (la_dev_eui a) @ put_u16 (la_port a) @ [la_freq_band a]"

definition enc_IotPowerLinkAddr :: "IotPowerLinkAddr \<Rightarrow> bytes" where
  "enc_IotPowerLinkAddr a = put_u16 (pa_node_id a) @ pa_mac a @ put_u16 (pa_pdo_id a)"

definition enc_IotModbusTcpAddr :: "IotModbusTcpAddr \<Rightarrow> bytes" where
  "enc_IotModbusTcpAddr a = ma_ip a @ put_u16 (ma_port a) @ [ma_unit_id a] @
     put_u16 (ma_reg_addr a) @ put_u16 (ma_reg_num a)"

text \<open>Packed sizes; the address union occupies as much as the largest, 20 bytes.\<close>

definition sizeof_IotBtAddr :: nat where "sizeof_IotBtAddr = 18 + 2"
definition sizeof_IotCanAddr :: nat where "sizeof_IotCanAddr = 2 + 4 + 1"
definition sizeof_IotZigbeeAddr :: nat where "sizeof_IotZigbeeAddr = 8 + 2 + 1"
definition sizeof_IotLoraAddr :: nat where "sizeof_IotLoraAddr = 8 + 2 + 1"
definition sizeof_IotPowerLinkAddr :: nat where "sizeof_IotPowerLinkAddr = 2 + 6 + 2"
definition sizeof_IotModbusTcpAddr :: nat where "sizeof_IotModbusTcpAddr = 4 + 2 + 1 + 2 + 2"
definition sizeof_addr_info :: nat where "sizeof_addr_info = 20"

lemmas iot_sizes = sizeof_IotBtAddr_def sizeof_IotCanAddr_def sizeof_IotZigbeeAddr_def
  sizeof_IotLoraAddr_def sizeof_IotPowerLinkAddr_def sizeof_IotModbusTcpAddr_def
  sizeof_addr_info_def

definition get_iot_addr_length :: "u16 \<Rightarrow> nat" where
  "get_iot_addr_length proto_type =
     (if proto_type = IOT_PROTO_TYPE_BLUETOOTH then sizeof_IotBtAddr
      else if proto_type = IOT_PROTO_TYPE_CAN then sizeof_IotCanAddr
      else if proto_type = IOT_PROTO_TYPE_ZIGBEE then sizeof_IotZigbeeAddr
      else if proto_type = IOT_PROTO_TYPE_LORA then sizeof_IotLoraAddr
      else if proto_type = IOT_PROTO_TYPE_POWERLINK then sizeof_IotPowerLinkAddr
      else if proto_type = IOT_PROTO_TYPE_MODBUSTCP then sizeof_IotModbusTcpAddr
      else 0)"

text \<open>The union is kept as its bytes; so is the union of inner headers below.\<close>

record IotAddr =
  ia_addr_type :: u32
  ia_addr_info :: bytes

record GeneralProxyMsgHeader =
  gh_outer_header :: ProxyMsgHeader
  gh_inner_header :: bytes
  gh_iot_addr :: IotAddr
  gh_iot_addr_len :: u16


section \<open>IPv4 conversions\<close>

lemma ntohl_read_le: "ntohl (read_le f 4) = read_le (\<lambda>i. f (3 - i)) 4"
  unfolding ntohl_def by (rule read_le_cong) (simp add: byte_of_read_le)

lemma ntohl_ntohl: "ntohl (ntohl w) = w"
  unfolding ntohl_def [of w] ntohl_read_le
  by (rule read_le_byte_of) (auto simp: less_Suc_eq numeral_eq_Suc)

lemma ip_bytes:
  "ucast (drop_bit (8 * k) w AND 0xFF) = byte_of (w :: u32) k"
proof (rule bit_word_eqI)
  have *: "(0xFF :: u32) = mask 8" by (simp add: mask_eq_exp_minus_1)
  show "bit (ucast (drop_bit (8 * k) w AND 0xFF) :: u8) j = bit (byte_of w k) j" for j
    unfolding * by (auto simp: bit_byte_of bit_ucast_iff bit_and_iff bit_mask_iff bit_drop_bit_eq)
qed

lemma COPY_IN_TO_IPV4_bytes: "COPY_IN_TO_IPV4 s = map (byte_of s) [0..<4]"
proof -
  have "byte_of (ntohl s) k = byte_of s (3 - k)" if "k < 4" for k
    using that by (simp add: ntohl_def byte_of_read_le)
  then show ?thesis
    using ip_bytes [of 3 "ntohl s"] ip_bytes [of 2 "ntohl s"] ip_bytes [of 1 "ntohl s"]
      ip_bytes [of 0 "ntohl s"]
    by (simp add: COPY_IN_TO_IPV4_def Let_def upt_rec numeral_eq_Suc)
qed

lemma COPY_IPV4_TO_IN_bytes: "COPY_IPV4_TO_IN d = read_le ((!) d) 4"
proof -
  have "(push_bit 24 (ucast (d ! 0)) OR push_bit 16 (ucast (d ! 1)) OR
      push_bit 8 (ucast (d ! 2)) OR ucast (d ! 3) :: u32) = read_le (\<lambda>i. d ! (3 - i)) 4"
    by (simp add: eval_nat_numeral or.assoc or.commute or.left_commute)
  moreover have "ntohl (read_le (\<lambda>i. d ! (3 - i)) 4) = read_le ((!) d) 4"
    unfolding ntohl_read_le by (rule read_le_cong) simp
  ultimately show ?thesis by (simp add: COPY_IPV4_TO_IN_def)
qed

text \<open>
  The conversions between the protocol's four address bytes and the socket address
  word are inverse to each other, and they keep the byte order in memory.
\<close>

lemma ipv4_conversions_inverse:
  "COPY_IPV4_TO_IN (COPY_IN_TO_IPV4 s) = s
   \<and> COPY_IN_TO_IPV4 (COPY_IPV4_TO_IN [a, b, c, d]) = [a, b, c, d]"
proof
  show "COPY_IPV4_TO_IN (COPY_IN_TO_IPV4 s) = s"
    unfolding COPY_IPV4_TO_IN_bytes COPY_IN_TO_IPV4_bytes by (rule read_le_byte_of) simp_all
  show "COPY_IN_TO_IPV4 (COPY_IPV4_TO_IN [a, b, c, d]) = [a, b, c, d]"
    unfolding COPY_IPV4_TO_IN_bytes COPY_IN_TO_IPV4_bytes
    by (simp add: byte_of_read_le upt_rec)
qed

end
