(* ===== verification/Message_Builder.thy ===== *)
theory Message_Builder
  imports Hyperamp_Queue Shm_Pool_Queue Message
begin

text \<open>
  Building proxy messages (\<open>src/src/backend_proto.c\<close>): the builders of the device,
  strategy, session, data and IoT sub-messages, \<open>build_proxy_general_message\<close> with its
  three allocation modes, and the session responses sent to the frontend through the
  HyperAMP transmit queue.
\<close>

section \<open>Sub-messages\<close>

text \<open>
  A builder returns its code and the bytes it leaves at \<open>*result_msg\<close>; \<open>payload\<close> is the
  caller's buffer, of which \<open>payload_len\<close> bytes are copied.
\<close>

definition build_proxy_dev_message :: "DevMsgHeader \<Rightarrow> bytes \<Rightarrow> nat \<Rightarrow> int \<times> bytes" where
  "build_proxy_dev_message dev_hdr payload payload_len =
     (let corr_len = size_t_of (DEV_MSG_HEADER_PAYLOAD_LEN dev_hdr)
      in if payload_len \<noteq> corr_len then (BACKEND_PROXY_PROCESS_ERROR, [])
         else if payload_len \<noteq> unat (dh_payload_len dev_hdr) then (BACKEND_PROXY_PROCESS_ERROR, [])
         else (BACKEND_PROXY_PROCESS_OK,
               enc_DevMsgHeader (dev_hdr\<lparr>dh_payload_len := of_nat payload_len\<rparr>) @
               take payload_len payload))"

definition build_proxy_strgy_message :: "StrgyMsgHeader \<Rightarrow> bytes \<Rightarrow> nat \<Rightarrow> int \<times> bytes" where
  "build_proxy_strgy_message strgy_hdr payload payload_len =
     (let corr_len = size_t_of (STRGY_MSG_HEADER_PAYLOAD_LEN strgy_hdr)
      in if payload_len \<noteq> corr_len then (BACKEND_PROXY_PROCESS_ERROR, [])
         else if payload_len \<noteq> unat (th_payload_len strgy_hdr) then (BACKEND_PROXY_PROCESS_ERROR, [])
         else (BACKEND_PROXY_PROCESS_OK,
               enc_StrgyMsgHeader (strgy_hdr\<lparr>th_payload_len := of_nat payload_len\<rparr>) @
               take payload_len payload))"

definition build_proxy_sess_message :: "SessMsgHeader \<Rightarrow> bytes \<Rightarrow> nat \<Rightarrow> int \<times> bytes" where
  "build_proxy_sess_message sess_hdr payload payload_len =
     (let corr_len = size_t_of (SESS_MSG_HEADER_PAYLOAD_LEN sess_hdr)
      in if payload_len \<noteq> corr_len then (BACKEND_PROXY_PROCESS_ERROR, [])
         else if payload_len \<noteq> unat (sh_payload_len sess_hdr) then (BACKEND_PROXY_PROCESS_ERROR, [])
         else (BACKEND_PROXY_PROCESS_OK,
               enc_SessMsgHeader sess_hdr @ take payload_len payload))"

definition build_proxy_data_message :: "bytes \<Rightarrow> nat \<Rightarrow> int \<times> bytes" where
  "build_proxy_data_message payload payload_len =
     (BACKEND_PROXY_PROCESS_OK, take payload_len payload)"

text \<open>The pointer checks of the source are \<open>None\<close> arguments and \<open>has_result\<close>.\<close>

definition build_proxy_iot_message ::
  "GeneralProxyMsgHeader option \<Rightarrow> bytes option \<Rightarrow> nat \<Rightarrow> bool \<Rightarrow> int \<times> bytes" where
  "build_proxy_iot_message header payload payload_len has_result =
     (case (header, payload) of
        (Some h, Some p) \<Rightarrow>
          if \<not> has_result then (BACKEND_PROXY_PROCESS_ERROR, [])
          else
            let proto_type = ih_proto_type (dec_IotMsgHeader (gh_inner_header h));
                addr_info_len = get_iot_addr_length proto_type
            in if addr_info_len = 0 then (BACKEND_PROXY_PROCESS_ERROR, [])
               else if addr_info_len > sizeof_addr_info then (BACKEND_PROXY_PROCESS_ERROR, [])
               else
                 let addr_info_len =
                       (if 0 < unat (gh_iot_addr_len h) \<and> unat (gh_iot_addr_len h) < addr_info_len
                        then unat (gh_iot_addr_len h) else addr_info_len);
                     iot_hdr = \<lparr>ih_proto_ver = 0, ih_proto_type = proto_type, ih_opcode = 0,
                       ih_dev_port_id = 0, ih_payload_len = of_nat (payload_len + addr_info_len),
                       ih_reserve = 0\<rparr>
                 in (BACKEND_PROXY_PROCESS_OK,
                     enc_IotMsgHeader iot_hdr @ take addr_info_len (ia_addr_info (gh_iot_addr h)) @
                     take payload_len p)
      | _ \<Rightarrow> (BACKEND_PROXY_PROCESS_ERROR, []))"


section \<open>The general builder\<close>

datatype MemoryAllocMode = MEMORY_ALLOC_SHARED | MEMORY_ALLOC_CALLER | MEMORY_ALLOC_AMPQUEUE

text \<open>
  What the builder uses of the engine: whether the memory pool exists, the HyperAMP
  transmit queue and its data region, the shared memory, and the static transmit buffer.
\<close>

record tx_env =
  te_mem_pool :: bool
  te_hyper_tx_queue :: "HyperampShmQueue option"
  te_data_region :: u64
  te_mem :: mem
  te_tx_buf :: bytes

definition sizeof_tx_buf :: nat where "sizeof_tx_buf = 4096"

definition HYPERAMP_ZONE_ID_Linux :: u32 where "HYPERAMP_ZONE_ID_Linux = 0"

text \<open>
  The switch over the outer message type: the code, the number of header bytes counted in
  the outer payload length, and the inner message.  \<open>None\<close> stands for the two early
  returns (unsupported message type or IoT protocol).
\<close>

definition build_inner_message ::
  "GeneralProxyMsgHeader \<Rightarrow> bytes \<Rightarrow> nat \<Rightarrow> (int \<times> u16 \<times> bytes) option" where
  "build_inner_message header payload payload_len =
     (let outer_msg_type = ph_proxy_msg_type (gh_outer_header header);
          inner = gh_inner_header header
      in if outer_msg_type = PROXY_MSG_TYPE_DEV then
           (let (ret, b) = build_proxy_dev_message (dec_DevMsgHeader inner) payload payload_len
            in Some (ret, 10, b))
         else if outer_msg_type = PROXY_MSG_TYPE_STRGY then
           (let (ret, b) = build_proxy_strgy_message (dec_StrgyMsgHeader inner) payload payload_len
            in Some (ret, 10, b))
         else if outer_msg_type = PROXY_MSG_TYPE_SESS then
           (let (ret, b) = build_proxy_sess_message (dec_SessMsgHeader inner) payload payload_len
            in Some (ret, 10, b))
         else if outer_msg_type = PROXY_MSG_TYPE_DATA then
           (let (ret, b) = build_proxy_data_message payload payload_len in Some (ret, 0, b))
         else if outer_msg_type = PROXY_MSG_TYPE_IOT then
           (let sub_iot_hdr_len = get_iot_addr_length (ih_proto_type (dec_IotMsgHeader inner))
            in if sub_iot_hdr_len = 0 then None
               else
                 let (ret, b) = build_proxy_iot_message (Some header) (Some payload) payload_len True
                 in Some (ret, of_nat (12 + sub_iot_hdr_len), b))
         else None)"

text \<open>The outer header is written first, its \<open>payload_len\<close> only after the inner message.\<close>

definition outer_prefix :: "GeneralProxyMsgHeader \<Rightarrow> bytes" where
  "outer_prefix header = take 6 (enc_ProxyMsgHeader (gh_outer_header header))"

definition outer_message :: "GeneralProxyMsgHeader \<Rightarrow> u16 \<Rightarrow> nat \<Rightarrow> bytes \<Rightarrow> bytes" where
  "outer_message header prefix_len payload_len inner =
     enc_ProxyMsgHeader ((gh_outer_header header)
       \<lparr>ph_payload_len := of_nat (payload_len + unat prefix_len)\<rparr>) @ inner"

text \<open>A buffer after bytes were written at its start.\<close>

definition overwrite :: "bytes \<Rightarrow> bytes \<Rightarrow> bytes" where
  "overwrite b buf = b @ drop (length b) buf"

definition store_bytes :: "mem \<Rightarrow> u64 \<Rightarrow> bytes \<Rightarrow> mem" where
  "store_bytes m a b = write_loop m a ((!) b) (length b)"

type_synonym build_result = "int \<times> tx_env option \<times> SharedMemoryPoolQueue option \<times> u64 option"

text \<open>
  \<open>None\<close>: the call does not return (transmit queue lock held forever).  Otherwise the code,
  the engine part, the ring buffer, and the address stored in \<open>*result_msg\<close> in shared mode.
  \<open>malloc_ok\<close> tells whether \<open>malloc\<close> succeeds in caller mode, where the buffer is local to
  the function and never handed out.
\<close>

definition build_shared ::
  "tx_env \<Rightarrow> GeneralProxyMsgHeader \<Rightarrow> bytes \<Rightarrow> nat \<Rightarrow> SharedMemoryPoolQueue option \<Rightarrow> build_result" where
  "build_shared env header payload payload_len ring_buf =
     (case SHM_POOL_QUEUE_ALLOC_FROM_HEADER ring_buf of
        (Some mem_addr, ring) \<Rightarrow>
          if mem_addr = ERROR_SHARED_MEM_ADDR
          then (BACKEND_PROXY_PROCESS_ERROR, Some env, ring, None)
          else
            let env1 = env\<lparr>te_mem := store_bytes (te_mem env) mem_addr (outer_prefix header)\<rparr>
            in (case build_inner_message header payload payload_len of
                  None \<Rightarrow> (BACKEND_PROXY_PROCESS_ERROR, Some env1, ring, Some mem_addr)
                | Some (ret, prefix_len, inner) \<Rightarrow>
                    if ret \<noteq> BACKEND_PROXY_PROCESS_OK
                    then (BACKEND_PROXY_PROCESS_ERROR, Some env1,
                          SHM_POOL_QUEUE_HEAD_ROLLBACK ring, Some mem_addr)
                    else (BACKEND_PROXY_PROCESS_OK,
                          Some (env\<lparr>te_mem := store_bytes (te_mem env) mem_addr
                                  (outer_message header prefix_len payload_len inner)\<rparr>),
                          ring, Some mem_addr))
      | (None, ring) \<Rightarrow> (BACKEND_PROXY_PROCESS_ERROR, Some env, ring, None))"

definition build_caller ::
  "tx_env \<Rightarrow> GeneralProxyMsgHeader \<Rightarrow> bytes \<Rightarrow> nat \<Rightarrow> bool \<Rightarrow> SharedMemoryPoolQueue option \<Rightarrow>
   build_result" where
  "build_caller env header payload payload_len malloc_ok ring_buf =
     (if \<not> malloc_ok then (BACKEND_PROXY_PROCESS_ERROR, Some env, ring_buf, None)
      else case build_inner_message header payload payload_len of
        None \<Rightarrow> (BACKEND_PROXY_PROCESS_ERROR, Some env, ring_buf, None)
      | Some (ret, prefix_len, inner) \<Rightarrow>
          if ret \<noteq> BACKEND_PROXY_PROCESS_OK
          then (BACKEND_PROXY_PROCESS_ERROR, Some env, SHM_POOL_QUEUE_HEAD_ROLLBACK ring_buf, None)
          else (BACKEND_PROXY_PROCESS_OK, Some env, ring_buf, None))"

definition build_ampqueue ::
  "tx_env \<Rightarrow> GeneralProxyMsgHeader \<Rightarrow> bytes \<Rightarrow> nat \<Rightarrow> SharedMemoryPoolQueue option \<Rightarrow>
   build_result option" where
  "build_ampqueue env header payload payload_len ring_buf =
     (case te_hyper_tx_queue env of
        None \<Rightarrow> Some (BACKEND_PROXY_PROCESS_ERROR, Some env, ring_buf, None)
      | Some tx_queue \<Rightarrow>
          let zeroed = replicate sizeof_tx_buf 0;
              env1 = env\<lparr>te_tx_buf := overwrite (outer_prefix header) zeroed\<rparr>
          in (case build_inner_message header payload payload_len of
                None \<Rightarrow> Some (BACKEND_PROXY_PROCESS_ERROR, Some env1, ring_buf, None)
              | Some (ret, prefix_len, inner) \<Rightarrow>
                  if ret \<noteq> BACKEND_PROXY_PROCESS_OK
                  then Some (BACKEND_PROXY_PROCESS_ERROR, Some env1,
                             SHM_POOL_QUEUE_HEAD_ROLLBACK ring_buf, None)
                  else
                    let buf = overwrite (outer_message header prefix_len payload_len inner) zeroed
                    in (case hyperamp_queue_enqueue (Some tx_queue) HYPERAMP_ZONE_ID_Linux (Some buf)
                               (payload_len + unat prefix_len + PROXY_MSG_HDR_SIZE)
                               (te_data_region env) (te_mem env) of
                          None \<Rightarrow> None
                        | Some (r, q', m') \<Rightarrow>
                            Some (if r = HYPERAMP_OK then BACKEND_PROXY_PROCESS_OK
                                  else if r = HYPERAMP_AGAIN then BACKEND_PROXY_PROCESS_AGAIN
                                  else BACKEND_PROXY_PROCESS_ERROR,
                                  Some (env\<lparr>te_tx_buf := buf, te_hyper_tx_queue := q', te_mem := m'\<rparr>),
                                  ring_buf, None))))"

definition build_proxy_general_message ::
  "tx_env option \<Rightarrow> GeneralProxyMsgHeader option \<Rightarrow> bytes option \<Rightarrow> nat \<Rightarrow> bool \<Rightarrow>
   MemoryAllocMode \<Rightarrow> bool \<Rightarrow> SharedMemoryPoolQueue option \<Rightarrow> build_result option" where
  "build_proxy_general_message engine header payload payload_len has_result alloc_mode malloc_ok ring_buf =
     (case (header, payload) of
        (Some h, Some p) \<Rightarrow>
          if \<not> has_result then Some (BACKEND_PROXY_PROCESS_ERROR, engine, ring_buf, None)
          else (case engine of
            None \<Rightarrow> Some (BACKEND_PROXY_PROCESS_ERROR, engine, ring_buf, None)
          | Some env \<Rightarrow>
              if \<not> te_mem_pool env then Some (BACKEND_PROXY_PROCESS_ERROR, engine, ring_buf, None)
              else (case alloc_mode of
                MEMORY_ALLOC_SHARED \<Rightarrow>
                  if ring_buf = None then Some (BACKEND_PROXY_PROCESS_ERROR, engine, ring_buf, None)
                  else Some (build_shared env h p payload_len ring_buf)
              | MEMORY_ALLOC_CALLER \<Rightarrow> Some (build_caller env h p payload_len malloc_ok ring_buf)
              | MEMORY_ALLOC_AMPQUEUE \<Rightarrow> build_ampqueue env h p payload_len ring_buf))
      | _ \<Rightarrow> Some (BACKEND_PROXY_PROCESS_ERROR, engine, ring_buf, None))"


section \<open>Session responses\<close>

definition PROXY_ADMIN_SESSION_ID :: u16 where "PROXY_ADMIN_SESSION_ID = 0"
definition BACKEND_HANDOVER_SESSION_ID :: u16 where "BACKEND_HANDOVER_SESSION_ID = 0xFFFF"

record SessOpRespData =
  ro_status :: u8
  ro_code :: u8

definition enc_SessOpRespData :: "SessOpRespData \<Rightarrow> bytes" where
  "enc_SessOpRespData r = [ro_status r, ro_code r]"

text \<open>
  The header of a create or close response.  The members a session message does not use
  (IoT address, last two bytes of the inner union) are uninitialised in the source and are
  never read; they are empty here.
\<close>

definition sess_response_header :: "u16 \<Rightarrow> u16 \<Rightarrow> u16 \<Rightarrow> u16 \<Rightarrow> GeneralProxyMsgHeader" where
  "sess_response_header frontend_sess_id backend_sess_id ip_version sess_msg_type =
     \<lparr>gh_outer_header = \<lparr>ph_version = PROXY_PROTO_VERSION_1, ph_proxy_msg_type = PROXY_MSG_TYPE_SESS,
        ph_frontend_sess_id = frontend_sess_id, ph_backend_sess_id = backend_sess_id,
        ph_payload_len = 10 + 2\<rparr>,
      gh_inner_header = enc_SessMsgHeader \<lparr>sh_version = PROXY_PROTO_SESS_VERSION_1,
        sh_msg_type = (if sess_msg_type = SESS_MSG_CREATE then SESS_MSG_CREATE else SESS_MSG_CLOSE),
        sh_action_type = ACTION_TYPE_RESPONSE, sh_ip_version = ip_version, sh_payload_len = 2\<rparr>,
      gh_iot_addr = \<lparr>ia_addr_type = 0, ia_addr_info = []\<rparr>, gh_iot_addr_len = 0\<rparr>"

definition backend_proxy_generate_sess_msg_create_close_response_standalone ::
  "tx_env option \<Rightarrow> u16 \<Rightarrow> u16 \<Rightarrow> u16 \<Rightarrow> u16 \<Rightarrow> SessOpRespData option \<Rightarrow>
   (int \<times> tx_env option) option" where
  "backend_proxy_generate_sess_msg_create_close_response_standalone eng frontend_sess_id
       backend_sess_id ip_version sess_msg_type op_resp =
     (case (eng, op_resp) of
        (Some env, Some r) \<Rightarrow>
          if \<not> IS_VALID_SESS_MSG_TYPE sess_msg_type then Some (BACKEND_PROXY_PROCESS_ERROR, eng)
          else map_option (\<lambda>(ret, env', _, _). (ret, env'))
                 (build_proxy_general_message (Some env)
                    (Some (sess_response_header frontend_sess_id backend_sess_id ip_version sess_msg_type))
                    (Some (enc_SessOpRespData r)) 2 True MEMORY_ALLOC_AMPQUEUE True None)
      | _ \<Rightarrow> Some (BACKEND_PROXY_PROCESS_ERROR, eng))"

text \<open>The backend id argument is ignored: the message always carries the handover id.\<close>

definition backend_proxy_send_sess_standalone_msg_to_frontend_via_shmem ::
  "tx_env option \<Rightarrow> u16 \<Rightarrow> u16 \<Rightarrow> u16 \<Rightarrow> u16 \<Rightarrow> SessOpRespData option \<Rightarrow>
   (int \<times> tx_env option) option" where
  "backend_proxy_send_sess_standalone_msg_to_frontend_via_shmem eng frontend_sess_id
       backend_sess_id ip_version sess_msg_type op_resp =
     (case (eng, op_resp) of
        (Some env, Some r) \<Rightarrow>
          if \<not> te_mem_pool env then Some (BACKEND_PROXY_PROCESS_ERROR, eng)
          else map_option (\<lambda>(ret, env').
                 (if ret \<noteq> BACKEND_PROXY_PROCESS_OK then BACKEND_PROXY_PROCESS_ERROR
                  else BACKEND_PROXY_PROCESS_OK, env'))
               (backend_proxy_generate_sess_msg_create_close_response_standalone eng frontend_sess_id
                  BACKEND_HANDOVER_SESSION_ID ip_version sess_msg_type op_resp)
      | _ \<Rightarrow> Some (BACKEND_PROXY_PROCESS_ERROR, eng))"


section \<open>What the builders produce\<close>

lemma size_t_of_small [simp]: "0 \<le> i \<Longrightarrow> i < 2 ^ 64 \<Longrightarrow> size_t_of i = nat i"
  by (simp add: size_t_of_def)

lemma of_nat_unat_u16 [simp]: "(of_nat (unat w) :: u16) = w"
  using unat_u16_less [of w] by (simp add: word_unat_eq_iff unat_of_nat take_bit_nat_eq_self)

lemma length_overwrite: "length (overwrite b buf) = max (length b) (length buf)"
  by (simp add: overwrite_def)

lemma take_overwrite: "take (length b) (overwrite b buf) = b"
  by (simp add: overwrite_def)

text \<open>
  A message of \<open>payload_len\<close> bytes whose inner part was built enters the transmit queue
  unless that queue is full.
\<close>

lemma build_ampqueue_delivers:
  assumes inner: "build_inner_message header payload payload_len
      = Some (BACKEND_PROXY_PROCESS_OK, prefix_len, inner)"
    and len: "length inner = payload_len + unat prefix_len"
      "payload_len + unat prefix_len + 8 \<le> unat bs" "unat bs \<le> sizeof_tx_buf"
    and tx: "te_hyper_tx_queue env = Some q" "queue_inv (te_data_region env) cap bs q"
  shows "\<exists>q' m'. build_ampqueue env header payload payload_len ring =
      Some (if length (queue_contents (te_data_region env) q (te_mem env)) < unat cap - 1
            then BACKEND_PROXY_PROCESS_OK else BACKEND_PROXY_PROCESS_AGAIN,
            Some (env\<lparr>te_tx_buf := overwrite (outer_message header prefix_len payload_len inner)
                       (replicate sizeof_tx_buf 0),
                     te_hyper_tx_queue := Some q', te_mem := m'\<rparr>), ring, None)
    \<and> queue_inv (te_data_region env) cap bs q'
    \<and> (if length (queue_contents (te_data_region env) q (te_mem env)) < unat cap - 1
       then \<exists>pad. queue_contents (te_data_region env) q' m' =
              queue_contents (te_data_region env) q (te_mem env)
              @ [outer_message header prefix_len payload_len inner @ pad]
       else queue_contents (te_data_region env) q' m' =
              queue_contents (te_data_region env) q (te_mem env))"
proof -
  let ?msg = "outer_message header prefix_len payload_len inner"
  let ?n = "payload_len + unat prefix_len + 8"
  let ?buf = "overwrite ?msg (replicate sizeof_tx_buf 0)"
  have n: "length ?msg = ?n" using len(1) by (simp add: outer_message_def)
  have buf: "take ?n ?buf = ?msg" unfolding n [symmetric] by (rule take_overwrite)
  have lb: "?n \<le> length ?buf" using len(2,3) n by (simp add: length_overwrite)
  have same: "hyperamp_safe_memcpy m a ?buf ?n = hyperamp_safe_memcpy m a ?msg ?n" for m a
  proof -
    have "?buf ! i = ?msg ! i" if "i < ?n" for i using buf that by (metis nth_take)
    then show ?thesis unfolding hyperamp_safe_memcpy_def by (rule write_loop_cong)
  qed
  have enq: "hyperamp_queue_enqueue (Some q) z (Some ?buf) ?n vb m
      = hyperamp_queue_enqueue (Some q) z (Some ?msg) (length ?msg) vb m" for z vb m
    unfolding hyperamp_queue_enqueue_def n by (simp add: same Let_def cong: if_cong option.case_cong)
  have "0 < length ?msg" "length ?msg \<le> unat bs" using n len(2) by auto
  from enqueue_spec [OF tx(2) this, of HYPERAMP_ZONE_ID_Linux "te_mem env"] obtain q' m' where
    E: "hyperamp_queue_enqueue (Some q) HYPERAMP_ZONE_ID_Linux (Some ?msg) (length ?msg)
          (te_data_region env) (te_mem env) =
        Some (if length (queue_contents (te_data_region env) q (te_mem env)) < unat cap - 1
              then HYPERAMP_OK else HYPERAMP_AGAIN, Some q', m')"
      "queue_inv (te_data_region env) cap bs q'"
      "queue_contents (te_data_region env) q' m' =
        (if length (queue_contents (te_data_region env) q (te_mem env)) < unat cap - 1
         then queue_contents (te_data_region env) q (te_mem env) @ [?msg @ drop (length ?msg)
                (slot_block (te_data_region env) bs (te_mem env) (unat (hq_header q)))]
         else queue_contents (te_data_region env) q (te_mem env))"
    by blast
  have pl: "payload_len + unat prefix_len + PROXY_MSG_HDR_SIZE = ?n"
    by (simp add: PROXY_MSG_HDR_SIZE_def)
  show ?thesis
    using E(2,3) unfolding build_ampqueue_def inner tx(1) option.case prod.case Let_def pl enq E(1)
    by (intro exI [of _ q'] exI [of _ m']) (auto simp: hyperamp_codes proxy_codes)
qed

lemma sess_payload_len_bound: "SESS_MSG_PAYLOAD_LEN t a v \<in> {-1, 0, 2, 10, 22}"
  by (simp add: SESS_MSG_PAYLOAD_LEN_def PROXY_MSG_INVALID_LEN_def)

lemma build_sess_inner:
  assumes "ph_proxy_msg_type (gh_outer_header h) = PROXY_MSG_TYPE_SESS"
    and "gh_inner_header h = enc_SessMsgHeader sh @ rest"
    and "SESS_MSG_HEADER_PAYLOAD_LEN sh = int n" "sh_payload_len sh = of_nat n" "length payload = n"
  shows "build_inner_message h payload n
    = Some (BACKEND_PROXY_PROCESS_OK, 10, enc_SessMsgHeader sh @ payload)"
proof -
  have "int n \<in> {-1, 0, 2, 10, 22}"
    using sess_payload_len_bound assms(3) unfolding SESS_MSG_HEADER_PAYLOAD_LEN_def by metis
  then have "n < 65536" by auto
  then have "unat (of_nat n :: u16) = n" "size_t_of (int n) = n"
    by (simp_all add: unat_of_nat take_bit_nat_eq_self)
  then show ?thesis
    using assms by (simp add: build_inner_message_def proxy_msg_types build_proxy_sess_message_def
        dec_enc_SessMsgHeader)
qed


lemma dev_message_ok:
  "build_proxy_dev_message h payload n = (BACKEND_PROXY_PROCESS_OK, b) \<longleftrightarrow>
     n = size_t_of (DEV_MSG_HEADER_PAYLOAD_LEN h) \<and> n = unat (dh_payload_len h) \<and>
     b = enc_DevMsgHeader h @ take n payload"
  by (auto simp: build_proxy_dev_message_def proxy_codes)

lemma strgy_message_ok:
  "build_proxy_strgy_message h payload n = (BACKEND_PROXY_PROCESS_OK, b) \<longleftrightarrow>
     n = size_t_of (STRGY_MSG_HEADER_PAYLOAD_LEN h) \<and> n = unat (th_payload_len h) \<and>
     b = enc_StrgyMsgHeader h @ take n payload"
  by (auto simp: build_proxy_strgy_message_def proxy_codes)

lemma sess_message_ok:
  "build_proxy_sess_message h payload n = (BACKEND_PROXY_PROCESS_OK, b) \<longleftrightarrow>
     n = size_t_of (SESS_MSG_HEADER_PAYLOAD_LEN h) \<and> n = unat (sh_payload_len h) \<and>
     b = enc_SessMsgHeader h @ take n payload"
  by (auto simp: build_proxy_sess_message_def proxy_codes)


section \<open>Properties\<close>

text \<open>
  C21.  What a sub-message builder accepts it encodes faithfully: whenever a builder of the
  device, strategy or session message succeeds on a payload buffer of \<open>n\<close> bytes, decoding
  the bytes it wrote gives back the header, and the payload follows it unchanged.
\<close>

theorem sub_message_roundtrip:
  assumes "length payload = n"
  shows "(build_proxy_dev_message dh payload n = (BACKEND_PROXY_PROCESS_OK, b) \<longrightarrow>
            dec_DevMsgHeader b = dh \<and> drop 10 b = payload \<and> unat (dh_payload_len dh) = n)
    \<and> (build_proxy_strgy_message th payload n = (BACKEND_PROXY_PROCESS_OK, b) \<longrightarrow>
            dec_StrgyMsgHeader b = th \<and> drop 10 b = payload \<and> unat (th_payload_len th) = n)
    \<and> (build_proxy_sess_message sh payload n = (BACKEND_PROXY_PROCESS_OK, b) \<longrightarrow>
            dec_SessMsgHeader b = sh \<and> drop 10 b = payload \<and> unat (sh_payload_len sh) = n)"
  using assms
  by (simp add: dev_message_ok strgy_message_ok sess_message_ok dec_enc_DevMsgHeader
      dec_enc_StrgyMsgHeader dec_enc_SessMsgHeader)

text \<open>
  A session response reaches the frontend.  With a transmit queue that has room and
  blocks of 20 to 4096 bytes, the standalone response is accepted and the newest block of the
  queue decodes to a version-1 session message with the given frontend id, a session header
  with the requested type, action RESPONSE and IP version, and the two response bytes.  The
  backend id in it is the handover id, whatever backend id the caller passed.
\<close>

lemma standalone_response_delivered:
  assumes "te_mem_pool env" "te_hyper_tx_queue env = Some q"
    and "queue_inv (te_data_region env) cap bs q" "20 \<le> unat bs" "unat bs \<le> sizeof_tx_buf"
    and "length (queue_contents (te_data_region env) q (te_mem env)) < unat cap - 1"
    and "IS_VALID_SESS_MSG_TYPE ty"
  shows "\<exists>env' q' block.
    backend_proxy_send_sess_standalone_msg_to_frontend_via_shmem (Some env) fid bid ip ty (Some r)
      = Some (BACKEND_PROXY_PROCESS_OK, Some env')
    \<and> te_hyper_tx_queue env' = Some q' \<and> queue_inv (te_data_region env) cap bs q'
    \<and> queue_contents (te_data_region env) q' (te_mem env')
        = queue_contents (te_data_region env) q (te_mem env) @ [block]
    \<and> dec_ProxyMsgHeader block = \<lparr>ph_version = 1, ph_proxy_msg_type = PROXY_MSG_TYPE_SESS,
        ph_frontend_sess_id = fid, ph_backend_sess_id = BACKEND_HANDOVER_SESSION_ID,
        ph_payload_len = 12\<rparr>
    \<and> dec_SessMsgHeader (drop 8 block) = \<lparr>sh_version = 1, sh_msg_type = ty,
        sh_action_type = ACTION_TYPE_RESPONSE, sh_ip_version = ip, sh_payload_len = 2\<rparr>
    \<and> take 2 (drop 18 block) = [ro_status r, ro_code r]"
proof -
  let ?h = "sess_response_header fid BACKEND_HANDOVER_SESSION_ID ip ty"
  let ?sh = "\<lparr>sh_version = PROXY_PROTO_SESS_VERSION_1,
        sh_msg_type = (if ty = SESS_MSG_CREATE then SESS_MSG_CREATE else SESS_MSG_CLOSE),
        sh_action_type = ACTION_TYPE_RESPONSE, sh_ip_version = ip, sh_payload_len = 2\<rparr>"
  have inner: "build_inner_message ?h (enc_SessOpRespData r) 2
      = Some (BACKEND_PROXY_PROCESS_OK, 10, enc_SessMsgHeader ?sh @ enc_SessOpRespData r)"
    using assms(7)
    by (intro build_sess_inner [where rest = "[]"])
      (auto simp: sess_response_header_def enc_SessOpRespData_def SESS_MSG_HEADER_PAYLOAD_LEN_def
        SESS_MSG_PAYLOAD_LEN_def IS_VALID_SESS_MSG_TYPE_def msg_codes)
  let ?msg = "outer_message ?h 10 2 (enc_SessMsgHeader ?sh @ enc_SessOpRespData r)"
  from build_ampqueue_delivers [OF inner _ _ assms(5) assms(2,3), of None] assms(4,6)
  obtain q' m' pad where D: "build_ampqueue env ?h (enc_SessOpRespData r) 2 None =
      Some (BACKEND_PROXY_PROCESS_OK, Some (env\<lparr>te_tx_buf := overwrite ?msg (replicate sizeof_tx_buf 0),
        te_hyper_tx_queue := Some q', te_mem := m'\<rparr>), None, None)"
    "queue_inv (te_data_region env) cap bs q'"
    "queue_contents (te_data_region env) q' m' =
       queue_contents (te_data_region env) q (te_mem env) @ [?msg @ pad]"
    by (auto simp: enc_SessOpRespData_def)
  have ty: "(if ty = SESS_MSG_CREATE then SESS_MSG_CREATE else SESS_MSG_CLOSE) = ty"
    using assms(7) by (auto simp: IS_VALID_SESS_MSG_TYPE_def)
  have send: "backend_proxy_send_sess_standalone_msg_to_frontend_via_shmem (Some env) fid bid ip ty (Some r)
      = Some (BACKEND_PROXY_PROCESS_OK, Some (env\<lparr>te_tx_buf := overwrite ?msg (replicate sizeof_tx_buf 0),
        te_hyper_tx_queue := Some q', te_mem := m'\<rparr>))"
    using assms(1,7) D(1)
    by (simp add: backend_proxy_send_sess_standalone_msg_to_frontend_via_shmem_def
        backend_proxy_generate_sess_msg_create_close_response_standalone_def
        build_proxy_general_message_def)
  have dec: "dec_ProxyMsgHeader (?msg @ pad) = \<lparr>ph_version = 1, ph_proxy_msg_type = PROXY_MSG_TYPE_SESS,
      ph_frontend_sess_id = fid, ph_backend_sess_id = BACKEND_HANDOVER_SESSION_ID, ph_payload_len = 12\<rparr>"
    by (simp add: outer_message_def dec_enc_ProxyMsgHeader sess_response_header_def PROXY_PROTO_VERSION_1_def)
  have dec2: "dec_SessMsgHeader (drop 8 (?msg @ pad)) = \<lparr>sh_version = 1, sh_msg_type = ty,
      sh_action_type = ACTION_TYPE_RESPONSE, sh_ip_version = ip, sh_payload_len = 2\<rparr>"
    by (simp add: outer_message_def dec_enc_SessMsgHeader ty PROXY_PROTO_SESS_VERSION_1_def)
  have "take 2 (drop 18 (?msg @ pad)) = [ro_status r, ro_code r]"
    by (simp add: outer_message_def enc_SessOpRespData_def)
  with send D dec dec2 show ?thesis
    by (intro exI conjI) (assumption | simp)+
qed


text \<open>
  Strategy queries cannot be built.  The strategy builder takes the expected payload
  length from the device table (\<open>STRGY_MSG_HEADER_PAYLOAD_LEN\<close>), where code 1 means ENABLE:
  a strategy query with exactly the payload length of the strategy table (0 bytes for the
  command, 4 for the response) is refused.
\<close>

lemma strategy_query_refused:
  assumes "th_msg_type th = STRGY_MSG_QUERY"
    and "th_action_type th = ACTION_TYPE_COMMAND \<or> th_action_type th = ACTION_TYPE_RESPONSE"
  shows "build_proxy_strgy_message th payload
      (nat (STRGY_MSG_PAYLOAD_LEN (th_msg_type th) (th_action_type th)))
    = (BACKEND_PROXY_PROCESS_ERROR, [])"
  using assms(2)
  by (auto simp: assms(1) build_proxy_strgy_message_def STRGY_MSG_HEADER_PAYLOAD_LEN_def
      STRGY_MSG_PAYLOAD_LEN_def DEV_MSG_PAYLOAD_LEN_def msg_codes)

text \<open>
  IoT messages.  For each supported protocol the inner message is the IoT header, the
  address (cut to \<open>iot_addr_len\<close> when that is positive and smaller than the address
  structure) and the payload, and the IoT header counts address and payload.  The prefix
  length added to the outer header always counts the full address structure, so the outer
  length is right exactly when the address is not cut.
\<close>

lemma iot_message_layout:
  assumes "ph_proxy_msg_type (gh_outer_header h) = PROXY_MSG_TYPE_IOT"
    and "dec_IotMsgHeader (gh_inner_header h) = ih" "get_iot_addr_length (ih_proto_type ih) = alen"
    and "0 < alen" "length (ia_addr_info (gh_iot_addr h)) = sizeof_addr_info"
    and "length payload = n" "n + alen < 2 ^ 16"
    and "eff = (if 0 < gh_iot_addr_len h \<and> unat (gh_iot_addr_len h) < alen
                then unat (gh_iot_addr_len h) else alen)"
  shows "\<exists>prefix inner.
    build_inner_message h payload n = Some (BACKEND_PROXY_PROCESS_OK, prefix, inner)
    \<and> dec_IotMsgHeader inner = \<lparr>ih_proto_ver = 0, ih_proto_type = ih_proto_type ih, ih_opcode = 0,
         ih_dev_port_id = 0, ih_payload_len = of_nat (n + eff), ih_reserve = 0\<rparr>
    \<and> take eff (drop 12 inner) = take eff (ia_addr_info (gh_iot_addr h))
    \<and> drop (12 + eff) inner = payload
    \<and> (n + unat prefix = length inner \<longleftrightarrow> eff = alen)"
proof -
  have alen: "alen \<le> 20"
    using assms(3) by (auto simp: get_iot_addr_length_def iot_sizes split: if_splits)
  then have "unat (of_nat (12 + alen) :: u16) = 12 + alen"
    by (simp add: unat_of_nat take_bit_nat_eq_self del: of_nat_add)
  moreover have "eff \<le> alen" "eff \<le> 20" using assms(8) alen by auto
  moreover have "0 < unat (gh_iot_addr_len h) \<longleftrightarrow> 0 < gh_iot_addr_len h"
    by (simp add: word_less_nat_alt)
  ultimately show ?thesis
    using assms alen
    by (simp add: build_inner_message_def proxy_msg_types build_proxy_iot_message_def iot_sizes
        dec_enc_IotMsgHeader Let_def del: of_nat_add)
qed


section \<open>Concrete messages\<close>

definition sample_sess_hdr :: SessMsgHeader where
  "sample_sess_hdr = \<lparr>sh_version = 1, sh_msg_type = SESS_MSG_CLOSE,
     sh_action_type = ACTION_TYPE_RESPONSE, sh_ip_version = 4, sh_payload_len = 2\<rparr>"

theorem sub_message_roundtrip_witness:
  "\<exists>b. build_proxy_sess_message sample_sess_hdr [1, 2] 2 = (BACKEND_PROXY_PROCESS_OK, b) \<and>
       dec_SessMsgHeader b = sample_sess_hdr \<and> drop 10 b = [1, 2]"
proof -
  have "build_proxy_sess_message sample_sess_hdr [1, 2] 2
      = (BACKEND_PROXY_PROCESS_OK, enc_SessMsgHeader sample_sess_hdr @ [1, 2])"
    by (simp add: sess_message_ok sample_sess_hdr_def SESS_MSG_HEADER_PAYLOAD_LEN_def
        SESS_MSG_PAYLOAD_LEN_def msg_codes)
  then show ?thesis
    using sub_message_roundtrip [of "[1, 2]" 2 undefined _ undefined sample_sess_hdr] by auto
qed

definition sample_tx_env :: tx_env where
  "sample_tx_env = \<lparr>te_mem_pool = True,
     te_hyper_tx_queue = Some (sample_queue\<lparr>hq_block_size := 32\<rparr>),
     te_data_region = 4096, te_mem = sample_mem, te_tx_buf = []\<rparr>"

end
