(* ===== verification/Backend_State.thy ===== *)
theory Backend_State
  imports Message_Builder
begin

text \<open>
  The state the session layer works on: message segments and sessions
  (\<open>src/include/session.h\<close>, \<open>src/src/session.c\<close>), high-speed network devices and their
  session nodes (\<open>src/include/dev.h\<close>), the session pool (\<open>src/include/session_pool.h\<close>) and
  the engine (\<open>src/include/engine.h\<close>).  Sessions and nodes live in heaps indexed by
  addresses; a freed object has no entry, and reading it makes the model stop.

  Operations return an \<open>option\<close>: \<open>None\<close> stands for an execution without a defined return
  (a failed \<open>assert\<close>, a lock that is never released, an access to a freed object).
  System calls are recorded in a trace; their results are arguments of the operations.
\<close>

section \<open>Message segments\<close>

datatype SessMsgSegType = SESS_MSG_SEG_DYNAMIC_ALLOC | SESS_MSG_SEG_SHARED_MEM | SESS_MSG_SEG_OTHER

text \<open>The buffer of a segment: its own memory, or an address in the shared pool (0 is NULL).\<close>

datatype seg_data = Own_buffer bytes | Shared_buffer u64

record SessMsgSeg =
  sg_len :: u16
  sg_type :: SessMsgSegType
  sg_data :: seg_data

text \<open>
  \<open>seg_ok\<close> and \<open>buf\<close> are the results of the two \<open>malloc\<close> calls, \<open>buf\<close> with its
  indeterminate contents.
\<close>

definition sess_msg_seg_alloc ::
  "bool \<Rightarrow> bytes option \<Rightarrow> nat \<Rightarrow> SessMsgSegType \<Rightarrow> u64 \<Rightarrow> bool \<Rightarrow> SessMsgSeg option" where
  "sess_msg_seg_alloc seg_ok buf len type shared_data mem_pool =
     (if \<not> seg_ok then None
      else case type of
        SESS_MSG_SEG_DYNAMIC_ALLOC \<Rightarrow>
          (case buf of
             None \<Rightarrow> None
           | Some b \<Rightarrow> Some \<lparr>sg_len = of_nat len, sg_type = type, sg_data = Own_buffer (take len b)\<rparr>)
      | SESS_MSG_SEG_SHARED_MEM \<Rightarrow>
          if \<not> mem_pool then None
          else Some \<lparr>sg_len = of_nat len, sg_type = type, sg_data = Shared_buffer shared_data\<rparr>
      | SESS_MSG_SEG_OTHER \<Rightarrow> None)"

text \<open>
  What releasing a segment returns to the allocator: the data buffer of a dynamic segment,
  and always the segment structure.
\<close>

datatype freed = Freed_buffer bytes | Freed_seg

definition sess_msg_seg_free :: "SessMsgSeg option \<Rightarrow> freed list" where
  "sess_msg_seg_free seg_ptr =
     (case seg_ptr of
        None \<Rightarrow> []
      | Some seg \<Rightarrow>
          (case (sg_type seg, sg_data seg) of
             (SESS_MSG_SEG_DYNAMIC_ALLOC, Own_buffer b) \<Rightarrow> [Freed_buffer b]
           | _ \<Rightarrow> []) @ [Freed_seg])"

text \<open>The loop of \<open>sess_msg_queue_free_all\<close>: the remaining queue and what was freed.\<close>

fun sess_msg_queue_free_all :: "SessMsgSeg list \<Rightarrow> SessMsgSeg list \<times> freed list" where
  "sess_msg_queue_free_all [] = ([], [])"
| "sess_msg_queue_free_all (seg # queue) =
     (let freed = (case (sg_type seg, sg_data seg) of
                     (SESS_MSG_SEG_DYNAMIC_ALLOC, Own_buffer b) \<Rightarrow> [Freed_buffer b]
                   | _ \<Rightarrow> []) @ [Freed_seg];
          (rest, more) = sess_msg_queue_free_all queue
      in (rest, freed @ more))"


section \<open>Sessions\<close>

definition BACKEND_SESS_LINKED_TO_QUEUE :: u8 where "BACKEND_SESS_LINKED_TO_QUEUE = 1"
definition BACKEND_SESS_LINKED_TO_DEV_NODE :: u8 where "BACKEND_SESS_LINKED_TO_DEV_NODE = 1"
definition SESS_ESTABLISH_PASSIVE :: int where "SESS_ESTABLISH_PASSIVE = 0"
definition SESS_ESTABLISH_ACTIVE :: int where "SESS_ESTABLISH_ACTIVE = 1"
definition EPOLL_REG_STATUS_UNREGISTERED :: int where "EPOLL_REG_STATUS_UNREGISTERED = 0"
definition EPOLL_REG_STATUS_REGISTERED :: int where "EPOLL_REG_STATUS_REGISTERED = 1"

lemmas sess_codes = BACKEND_SESS_LINKED_TO_QUEUE_def BACKEND_SESS_LINKED_TO_DEV_NODE_def
  SESS_ESTABLISH_PASSIVE_def SESS_ESTABLISH_ACTIVE_def EPOLL_REG_STATUS_UNREGISTERED_def
  EPOLL_REG_STATUS_REGISTERED_def

text \<open>
  \<open>bs_eng\<close> tells whether the engine pointer is set (there is one engine); \<open>bs_nc_\<close> fields are
  those of the embedded \<open>NetChannel\<close>.  The members that no code reads or writes
  (\<open>sess_type\<close>, \<open>protocol_process\<close>, \<open>pri_data\<close>) are left out.
\<close>

record BackendSession =
  bs_proto_type :: int
  bs_dev_id :: int
  bs_establish_mode :: int
  bs_sock_fd :: int
  bs_ip_version :: int
  bs_frontend_sess_id :: u16
  bs_backend_sess_id :: u16
  bs_state_f2b :: u8
  bs_state_b2f :: u8
  bs_sess_dev_link_state :: u8
  bs_msg_f2b :: "SessMsgSeg list"
  bs_msg_b2f :: "SessMsgSeg list"
  bs_eng :: bool
  bs_sess_node :: "nat option"
  bs_nc_sock_fd :: int
  bs_nc_status :: int
  bs_nc_events :: u32

text \<open>The suffix \<open>f2b\<close> or \<open>b2f\<close> that the queue macros paste into field names.\<close>

datatype direction = F2B | B2F

primrec sess_state :: "direction \<Rightarrow> BackendSession \<Rightarrow> u8" where
  "sess_state F2B s = bs_state_f2b s"
| "sess_state B2F s = bs_state_b2f s"

primrec set_sess_state :: "direction \<Rightarrow> u8 \<Rightarrow> BackendSession \<Rightarrow> BackendSession" where
  "set_sess_state F2B w s = s\<lparr>bs_state_f2b := w\<rparr>"
| "set_sess_state B2F w s = s\<lparr>bs_state_b2f := w\<rparr>"

primrec sess_msgs :: "direction \<Rightarrow> BackendSession \<Rightarrow> SessMsgSeg list" where
  "sess_msgs F2B s = bs_msg_f2b s"
| "sess_msgs B2F s = bs_msg_b2f s"

primrec set_sess_msgs :: "direction \<Rightarrow> SessMsgSeg list \<Rightarrow> BackendSession \<Rightarrow> BackendSession" where
  "set_sess_msgs F2B q s = s\<lparr>bs_msg_f2b := q\<rparr>"
| "set_sess_msgs B2F q s = s\<lparr>bs_msg_b2f := q\<rparr>"

definition SESS_MSG_SEG_INSERT_QUEUE ::
  "BackendSession \<Rightarrow> SessMsgSeg option \<Rightarrow> direction \<Rightarrow> BackendSession" where
  "SESS_MSG_SEG_INSERT_QUEUE sess seg dir =
     (case seg of None \<Rightarrow> sess | Some sg \<Rightarrow> set_sess_msgs dir (sess_msgs dir sess @ [sg]) sess)"

definition SESS_MSG_SEG_REMOVE_HEAD ::
  "BackendSession \<Rightarrow> direction \<Rightarrow> SessMsgSeg option \<times> BackendSession" where
  "SESS_MSG_SEG_REMOVE_HEAD sess dir =
     (case sess_msgs dir sess of
        [] \<Rightarrow> (None, sess)
      | sg # rest \<Rightarrow> (Some sg, set_sess_msgs dir rest sess))"


section \<open>High-speed network devices\<close>

definition MAX_HS_DEV_NUM :: nat where "MAX_HS_DEV_NUM = 16"
definition DEV_ID_AUTO_HANDOVER :: u16 where "DEV_ID_AUTO_HANDOVER = 0xFF"
definition HS_NET_DEV_INACTIVE :: int where "HS_NET_DEV_INACTIVE = 0"
definition HS_NET_DEV_ACTIVE :: int where "HS_NET_DEV_ACTIVE = 1"
definition ERROR_NAMESPACE_ID :: int where "ERROR_NAMESPACE_ID = -1"

lemmas dev_codes = MAX_HS_DEV_NUM_def DEV_ID_AUTO_HANDOVER_def HS_NET_DEV_INACTIVE_def
  HS_NET_DEV_ACTIVE_def ERROR_NAMESPACE_ID_def

text \<open>
  Queues of session nodes hold node addresses.  \<open>hd_ns_name\<close> points into the loaded configuration;
  \<open>None\<close> is a null or dangling pointer.  The traffic statistics are never written and left out.
\<close>

record HighSpeedNetDevice =
  hd_dev_id :: int
  hd_dev_type :: int
  hd_ns_name :: "string option"
  hd_ns_id :: int
  hd_dev_status :: int
  hd_name :: string
  hd_udp_node_queue :: "nat list"
  hd_tcp_node_queue :: "nat list"
  hd_free_node_queue :: "nat list"
  hd_address :: bytes
  hd_tcp_listening_port :: int
  hd_tcp_listener :: int

text \<open>The asserts of \<open>GET_NS_ID\<close> stop the program; \<open>None\<close> as device set is the NULL pointer.\<close>

definition GET_NS_ID :: "HighSpeedNetDevice list option \<Rightarrow> nat \<Rightarrow> int option" where
  "GET_NS_ID net_dev dev_id =
     (case net_dev of
        None \<Rightarrow> None
      | Some devs \<Rightarrow>
          if \<not> dev_id < MAX_HS_DEV_NUM then None
          else if hd_dev_status (devs ! dev_id) \<noteq> HS_NET_DEV_ACTIVE then None
          else Some (hd_ns_id (devs ! dev_id)))"

definition HIGH_SPEED_NET_DEV_POP_FREE_SESSION_NODE ::
  "HighSpeedNetDevice \<Rightarrow> nat option \<times> HighSpeedNetDevice" where
  "HIGH_SPEED_NET_DEV_POP_FREE_SESSION_NODE dev =
     (case hd_free_node_queue dev of
        [] \<Rightarrow> (None, dev)
      | n # rest \<Rightarrow> (Some n, dev\<lparr>hd_free_node_queue := rest\<rparr>))"

definition HIGH_SPEED_NET_DEV_PUSH_FREE_SESSION_NODE ::
  "HighSpeedNetDevice \<Rightarrow> nat option \<Rightarrow> HighSpeedNetDevice" where
  "HIGH_SPEED_NET_DEV_PUSH_FREE_SESSION_NODE dev node =
     (case node of None \<Rightarrow> dev | Some n \<Rightarrow> dev\<lparr>hd_free_node_queue := hd_free_node_queue dev @ [n]\<rparr>)"

text \<open>
  Insert and remove work on the device, the node address and the session the node points to
  (\<open>None\<close>: the node's session pointer is NULL).
\<close>

definition HIGH_SPEED_NET_DEV_INSERT_SESSION_NODE ::
  "HighSpeedNetDevice \<Rightarrow> nat \<Rightarrow> BackendSession option \<Rightarrow> int \<Rightarrow>
   int \<times> HighSpeedNetDevice \<times> BackendSession option" where
  "HIGH_SPEED_NET_DEV_INSERT_SESSION_NODE dev node sess proto_type =
     (case sess of
        None \<Rightarrow> (BACKEND_PROXY_PROCESS_ERROR, dev, None)
      | Some s \<Rightarrow>
          if proto_type = uint SESS_UDP_PROTO \<or> proto_type = uint SESS_TCP_PROTO then
            if bs_sess_dev_link_state s AND BACKEND_SESS_LINKED_TO_DEV_NODE = 0 then
              (BACKEND_PROXY_PROCESS_OK,
               if proto_type = uint SESS_UDP_PROTO
               then dev\<lparr>hd_udp_node_queue := hd_udp_node_queue dev @ [node]\<rparr>
               else dev\<lparr>hd_tcp_node_queue := hd_tcp_node_queue dev @ [node]\<rparr>,
               Some (s\<lparr>bs_sess_dev_link_state :=
                        bs_sess_dev_link_state s OR BACKEND_SESS_LINKED_TO_DEV_NODE\<rparr>))
            else (BACKEND_PROXY_PROCESS_OK, dev, Some s)
          else (BACKEND_PROXY_PROCESS_ERROR, dev, Some s))"

definition HIGH_SPEED_NET_DEV_REMOVE_SESSION_NODE ::
  "HighSpeedNetDevice \<Rightarrow> nat \<Rightarrow> BackendSession option \<Rightarrow> int \<Rightarrow>
   HighSpeedNetDevice \<times> BackendSession option" where
  "HIGH_SPEED_NET_DEV_REMOVE_SESSION_NODE dev node sess proto_type =
     (case sess of
        None \<Rightarrow> (dev, None)
      | Some s \<Rightarrow>
          if proto_type = uint SESS_UDP_PROTO \<or> proto_type = uint SESS_TCP_PROTO then
            if bs_sess_dev_link_state s AND BACKEND_SESS_LINKED_TO_DEV_NODE \<noteq> 0 then
              (if proto_type = uint SESS_UDP_PROTO
               then dev\<lparr>hd_udp_node_queue := remove1 node (hd_udp_node_queue dev)\<rparr>
               else dev\<lparr>hd_tcp_node_queue := remove1 node (hd_tcp_node_queue dev)\<rparr>,
               Some (s\<lparr>bs_sess_dev_link_state :=
                        bs_sess_dev_link_state s AND NOT BACKEND_SESS_LINKED_TO_DEV_NODE\<rparr>))
            else (dev, Some s)
          else (dev, Some s))"


section \<open>Pool, engine and system calls\<close>

text \<open>The hash table (\<open>uthash\<close>) is the list of its entries in insertion order.\<close>

record BackendSessionPool =
  sp_pool_name :: "string option"
  sp_sess_num :: int
  sp_capacity :: int
  sp_engine :: bool
  sp_ops :: bool
  sp_queue_f2b :: "nat list"
  sp_queue_b2f :: "nat list"
  sp_id_queue :: "u16 list"
  sp_htable :: "(u16 \<times> nat) list"

record BackendEngine =
  be_dev_set :: "HighSpeedNetDevice list"
  be_dev_num :: u16
  be_active_mask :: u16
  be_selector_id :: u16
  be_sess_pool :: bool
  be_ops :: bool
  be_hyper_rx_queue :: "HyperampShmQueue option"
  be_tx :: tx_env

datatype sys_event =
    Ev_epoll_add int u32 nat
  | Ev_epoll_mod int u32 nat
  | Ev_epoll_del int
  | Ev_close int
  | Ev_send int bytes
  | Ev_sendto int bytes nat bytes
  | Ev_write int bytes
  | Ev_nonblocking int

record backend =
  st_eng :: BackendEngine
  st_pool :: BackendSessionPool
  st_sess :: "nat \<Rightarrow> BackendSession option"
  st_node :: "nat \<Rightarrow> nat option option"
  st_last_pos :: int
  st_trace :: "sys_event list"

definition emit :: "sys_event \<Rightarrow> backend \<Rightarrow> backend" where
  "emit e st = st\<lparr>st_trace := st_trace st @ [e]\<rparr>"

definition put_sess :: "nat \<Rightarrow> BackendSession \<Rightarrow> backend \<Rightarrow> backend" where
  "put_sess p s st = st\<lparr>st_sess := (st_sess st)(p := Some s)\<rparr>"

definition free_sess :: "nat \<Rightarrow> backend \<Rightarrow> backend" where
  "free_sess p st = st\<lparr>st_sess := (st_sess st)(p := None)\<rparr>"

definition put_dev :: "nat \<Rightarrow> HighSpeedNetDevice \<Rightarrow> backend \<Rightarrow> backend" where
  "put_dev i d st = st\<lparr>st_eng := (st_eng st)\<lparr>be_dev_set := (be_dev_set (st_eng st))[i := d]\<rparr>\<rparr>"

definition get_dev :: "nat \<Rightarrow> backend \<Rightarrow> HighSpeedNetDevice" where
  "get_dev i st = be_dev_set (st_eng st) ! i"

definition put_node :: "nat \<Rightarrow> nat option \<Rightarrow> backend \<Rightarrow> backend" where
  "put_node n s st = st\<lparr>st_node := (st_node st)(n := Some s)\<rparr>"

definition put_tx :: "tx_env \<Rightarrow> backend \<Rightarrow> backend" where
  "put_tx t st = st\<lparr>st_eng := (st_eng st)\<lparr>be_tx := t\<rparr>\<rparr>"

primrec pool_queue :: "direction \<Rightarrow> BackendSessionPool \<Rightarrow> nat list" where
  "pool_queue F2B p = sp_queue_f2b p"
| "pool_queue B2F p = sp_queue_b2f p"

primrec set_pool_queue :: "direction \<Rightarrow> nat list \<Rightarrow> BackendSessionPool \<Rightarrow> BackendSessionPool" where
  "set_pool_queue F2B q p = p\<lparr>sp_queue_f2b := q\<rparr>"
| "set_pool_queue B2F q p = p\<lparr>sp_queue_b2f := q\<rparr>"

definition BACKEND_SESS_LINK_TO_QUEUE :: "nat \<Rightarrow> direction \<Rightarrow> backend \<Rightarrow> backend option" where
  "BACKEND_SESS_LINK_TO_QUEUE p dir st =
     (case st_sess st p of
        None \<Rightarrow> None
      | Some sess \<Rightarrow>
          if \<not> bs_eng sess \<or> \<not> be_sess_pool (st_eng st) then Some st
          else if sess_state dir sess AND BACKEND_SESS_LINKED_TO_QUEUE = 0
          then Some ((put_sess p (set_sess_state dir
                        (sess_state dir sess OR BACKEND_SESS_LINKED_TO_QUEUE) sess) st)
                     \<lparr>st_pool := set_pool_queue dir (pool_queue dir (st_pool st) @ [p]) (st_pool st)\<rparr>)
          else Some st)"

definition BACKEND_SESS_UNLINK_FROM_QUEUE :: "nat \<Rightarrow> direction \<Rightarrow> backend \<Rightarrow> backend option" where
  "BACKEND_SESS_UNLINK_FROM_QUEUE p dir st =
     (case st_sess st p of
        None \<Rightarrow> None
      | Some sess \<Rightarrow>
          if \<not> bs_eng sess \<or> \<not> be_sess_pool (st_eng st) then Some st
          else if sess_state dir sess AND BACKEND_SESS_LINKED_TO_QUEUE \<noteq> 0
          then Some ((put_sess p (set_sess_state dir
                        (sess_state dir sess AND NOT BACKEND_SESS_LINKED_TO_QUEUE) sess) st)
                     \<lparr>st_pool := set_pool_queue dir (remove1 p (pool_queue dir (st_pool st)))
                                  (st_pool st)\<rparr>)
          else Some st)"

definition EPOLLIN :: u32 where "EPOLLIN = 1"

text \<open>\<open>epoll_ok\<close> is the result of \<open>epoll_ctl\<close>.  A status that is neither value fails at once.\<close>

definition BACKEND_SESS_REGISTER_EPOLL ::
  "bool \<Rightarrow> nat \<Rightarrow> u32 \<Rightarrow> backend \<Rightarrow> (int \<times> backend) option" where
  "BACKEND_SESS_REGISTER_EPOLL epoll_ok p reg_events st =
     (case st_sess st p of
        None \<Rightarrow> None
      | Some sess \<Rightarrow>
          let sess1 = sess\<lparr>bs_nc_events := reg_events\<rparr>;
              ret = (if epoll_ok then BACKEND_PROXY_PROCESS_OK else BACKEND_PROXY_PROCESS_ERROR)
          in if bs_nc_status sess = EPOLL_REG_STATUS_UNREGISTERED then
               Some (ret, emit (Ev_epoll_add (bs_nc_sock_fd sess) reg_events p)
                            (put_sess p (sess1\<lparr>bs_nc_status := EPOLL_REG_STATUS_REGISTERED\<rparr>) st))
             else if bs_nc_status sess = EPOLL_REG_STATUS_REGISTERED then
               Some (ret, emit (Ev_epoll_mod (bs_nc_sock_fd sess) reg_events p) (put_sess p sess1 st))
             else Some (BACKEND_PROXY_PROCESS_ERROR, put_sess p sess1 st))"

definition BACKEND_SESS_UNREGISTER_EPOLL ::
  "bool \<Rightarrow> nat \<Rightarrow> backend \<Rightarrow> (int \<times> backend) option" where
  "BACKEND_SESS_UNREGISTER_EPOLL epoll_ok p st =
     (case st_sess st p of
        None \<Rightarrow> None
      | Some sess \<Rightarrow>
          Some (if epoll_ok then BACKEND_PROXY_PROCESS_OK else BACKEND_PROXY_PROCESS_ERROR,
                put_sess p (sess\<lparr>bs_nc_status := EPOLL_REG_STATUS_UNREGISTERED\<rparr>)
                  (emit (Ev_epoll_del (bs_nc_sock_fd sess)) st)))"


section \<open>Responses on behalf of a session\<close>

definition backend_proxy_generate_sess_msg_create_close_response ::
  "BackendSession option \<Rightarrow> u16 \<Rightarrow> SessOpRespData option \<Rightarrow> tx_env \<Rightarrow> (int \<times> tx_env) option" where
  "backend_proxy_generate_sess_msg_create_close_response sess sess_msg_type op_resp env =
     (case (op_resp, sess) of
        (Some r, Some s) \<Rightarrow>
          if \<not> bs_eng s then Some (BACKEND_PROXY_PROCESS_ERROR, env)
          else if \<not> IS_VALID_SESS_MSG_TYPE sess_msg_type then Some (BACKEND_PROXY_PROCESS_ERROR, env)
          else map_option (\<lambda>(ret, env', _, _). (ret, the env'))
                 (build_proxy_general_message (Some env)
                    (Some (sess_response_header (bs_frontend_sess_id s) (bs_backend_sess_id s)
                             (word_of_int (bs_ip_version s)) sess_msg_type))
                    (Some (enc_SessOpRespData r)) 2 True MEMORY_ALLOC_AMPQUEUE True None)
      | _ \<Rightarrow> Some (BACKEND_PROXY_PROCESS_ERROR, env))"

definition backend_proxy_send_sess_msg_to_frontend_via_shmem ::
  "BackendSession option \<Rightarrow> u16 \<Rightarrow> SessOpRespData option \<Rightarrow> tx_env \<Rightarrow> (int \<times> tx_env) option" where
  "backend_proxy_send_sess_msg_to_frontend_via_shmem sess sess_msg_type op_resp env =
     (case (op_resp, sess) of
        (Some r, Some s) \<Rightarrow>
          if \<not> bs_eng s \<or> \<not> te_mem_pool env then Some (BACKEND_PROXY_PROCESS_ERROR, env)
          else map_option (\<lambda>(ret, env').
                 (if ret \<noteq> BACKEND_PROXY_PROCESS_OK then BACKEND_PROXY_PROCESS_ERROR
                  else BACKEND_PROXY_PROCESS_OK, env'))
               (backend_proxy_generate_sess_msg_create_close_response sess sess_msg_type op_resp env)
      | _ \<Rightarrow> Some (BACKEND_PROXY_PROCESS_ERROR, env))"

text \<open>Both kinds of response, sent by the engine of a state.\<close>

definition send_session_response ::
  "nat \<Rightarrow> u16 \<Rightarrow> SessOpRespData \<Rightarrow> backend \<Rightarrow> (int \<times> backend) option" where
  "send_session_response p sess_msg_type r st =
     map_option (\<lambda>(ret, t). (ret, put_tx t st))
       (backend_proxy_send_sess_msg_to_frontend_via_shmem (st_sess st p) sess_msg_type (Some r)
          (be_tx (st_eng st)))"

definition send_standalone_response ::
  "u16 \<Rightarrow> u16 \<Rightarrow> u16 \<Rightarrow> u16 \<Rightarrow> SessOpRespData \<Rightarrow> backend \<Rightarrow> (int \<times> backend) option" where
  "send_standalone_response frontend_sess_id backend_sess_id ip_version sess_msg_type r st =
     map_option (\<lambda>(ret, t). (ret, put_tx (the t) st))
       (backend_proxy_send_sess_standalone_msg_to_frontend_via_shmem (Some (be_tx (st_eng st)))
          frontend_sess_id backend_sess_id ip_version sess_msg_type (Some r))"

end
