(* ===== verification/Netns_Socket.thy ===== *)
theory Netns_Socket
  imports Backend_State
begin

text \<open>
  Sockets inside a device's network namespace (\<open>src/src/netns_socket.c\<close>).  The kernel's
  answers are a record of results; what the code does to descriptors is a trace of events.
\<close>

section \<open>Session parameters\<close>

text \<open>The union of the two address/port tuples is kept as its 18 bytes.\<close>

record SessMsgPara =
  sm_frontend_sess_id :: u16
  sm_backend_sess_id :: u16
  sm_dev_id :: u16
  sm_ip_version :: u16
  sm_trans_proto :: u16
  sm_ip_port_tuple :: bytes

definition ERROR_SOCKET_FD :: int where "ERROR_SOCKET_FD = -1"
definition AF_INET :: int where "AF_INET = 2"
definition AF_INET6 :: int where "AF_INET6 = 10"
definition SOCK_STREAM :: int where "SOCK_STREAM = 1"
definition SOCK_DGRAM :: int where "SOCK_DGRAM = 2"
definition IPPROTO_TCP :: int where "IPPROTO_TCP = 6"
definition IPPROTO_UDP :: int where "IPPROTO_UDP = 17"

lemmas sock_codes = ERROR_SOCKET_FD_def AF_INET_def AF_INET6_def SOCK_STREAM_def SOCK_DGRAM_def
  IPPROTO_TCP_def IPPROTO_UDP_def

text \<open>
  Results of the system calls: opening \<open>/proc/self/ns/net\<close>, entering the device's namespace
  and coming back, \<open>socket\<close>, \<open>sendto\<close> of the connectivity test, and \<open>connect\<close>.
\<close>

record kernel =
  kn_open_self :: int
  kn_setns_dst :: int
  kn_setns_back :: int
  kn_socket :: "int \<Rightarrow> int \<Rightarrow> int \<Rightarrow> int"
  kn_connect :: "int \<Rightarrow> int \<Rightarrow> u16 \<Rightarrow> bytes \<Rightarrow> int"

section \<open>Creation\<close>

text \<open>
  The connectivity test sends \<open>"test msg"\<close> to 192.168.137.2:8888 and waits for an answer;
  its result is ignored by the caller.
\<close>

definition test_udp_connectivity :: "int \<Rightarrow> sys_event list" where
  "test_udp_connectivity fd =
     [Ev_sendto fd [192, 168, 137, 2] 8888 (map (of_char :: char \<Rightarrow> u8) ''test msg'')]"

definition create_socket_fastpath :: "int \<Rightarrow> SessMsgPara \<Rightarrow> int" where
  "create_socket_fastpath ns_id para = 0"

text \<open>The new descriptor (or \<open>ERROR_SOCKET_FD\<close>) and the events.\<close>

definition create_socket_netns_raw ::
  "kernel \<Rightarrow> int \<Rightarrow> int \<Rightarrow> int \<Rightarrow> int \<Rightarrow> int \<times> sys_event list" where
  "create_socket_netns_raw k ns_id domain type protocol =
     (let orig_netns = kn_open_self k in
      if orig_netns = -1 then (ERROR_SOCKET_FD, [])
      else if kn_setns_dst k = -1 then (ERROR_SOCKET_FD, [Ev_close orig_netns])
      else
        let newfd = kn_socket k domain type protocol in
        if newfd = -1 then (ERROR_SOCKET_FD, [Ev_close orig_netns])
        else
          let test = (if domain = AF_INET \<and> type = SOCK_DGRAM then test_udp_connectivity newfd else [])
          in if kn_setns_back k = -1
             then (ERROR_SOCKET_FD, test @ [Ev_close orig_netns, Ev_close newfd])
             else (newfd, test @ [Ev_close orig_netns] @ test))"

text \<open>The code, the value stored in \<open>*fd\<close> (\<open>None\<close>: left alone), and the events.\<close>

definition create_socket_netns ::
  "kernel \<Rightarrow> int \<Rightarrow> SessMsgPara \<Rightarrow> int \<times> int option \<times> sys_event list" where
  "create_socket_netns k ns_id para =
     (case (if sm_ip_version para = SESS_IPV4_PROTO then Some AF_INET
            else if sm_ip_version para = SESS_IPV6_PROTO then Some AF_INET6 else None) of
        None \<Rightarrow> (BACKEND_PROXY_PROCESS_ERROR, None, [])
      | Some domain \<Rightarrow>
          if sm_trans_proto para = SESS_FASTPATH_PROTO
          then (create_socket_fastpath ns_id para, None, [])
          else
            (case (if sm_trans_proto para = SESS_TCP_PROTO then Some (SOCK_STREAM, IPPROTO_TCP)
                   else if sm_trans_proto para = SESS_UDP_PROTO then Some (SOCK_DGRAM, IPPROTO_UDP)
                   else None) of
               None \<Rightarrow> (BACKEND_PROXY_PROCESS_ERROR, None, [])
             | Some (type, protocol) \<Rightarrow>
                 (let (new_fd, ev) = create_socket_netns_raw k ns_id domain type protocol
                  in if new_fd = ERROR_SOCKET_FD then (BACKEND_PROXY_PROCESS_ERROR, None, ev)
                     else (BACKEND_PROXY_PROCESS_OK, Some new_fd, ev))))"

section \<open>Connection\<close>

text \<open>\<open>htons\<close> on a little-endian machine.\<close>

definition htons :: "u16 \<Rightarrow> u16" where
  "htons w = read_le (\<lambda>i. byte_of w (1 - i)) 2"

text \<open>
  The socket address handed to \<open>connect\<close>: family, port in network order, address bytes as
  they lie in memory.
\<close>

definition connect_address :: "SessMsgPara \<Rightarrow> (int \<times> u16 \<times> bytes) option" where
  "connect_address para =
     (if sm_ip_version para = SESS_IPV4_PROTO then
        Some (AF_INET, htons (get_u16 (sm_ip_port_tuple para) 4),
              map (byte_of (COPY_IPV4_TO_IN (take 4 (sm_ip_port_tuple para)))) [0..<4])
      else if sm_ip_version para = SESS_IPV6_PROTO then
        Some (AF_INET6, htons (get_u16 (sm_ip_port_tuple para) 16), take 16 (sm_ip_port_tuple para))
      else None)"

definition connect_socket_netns :: "kernel \<Rightarrow> int \<Rightarrow> SessMsgPara \<Rightarrow> int \<times> sys_event list" where
  "connect_socket_netns k fd para =
     (case connect_address para of
        None \<Rightarrow> (BACKEND_PROXY_PROCESS_ERROR, [])
      | Some (family, port, addr) \<Rightarrow>
          if kn_connect k fd family port addr \<noteq> 0 then (BACKEND_PROXY_PROCESS_ERROR, [])
          else (BACKEND_PROXY_PROCESS_OK, [Ev_nonblocking fd]))"


section \<open>Descriptor balance\<close>

text \<open>The descriptors an operation closes.\<close>

definition closed_fds :: "sys_event list \<Rightarrow> int list" where
  "closed_fds ev = List.map_filter (\<lambda>e. case e of Ev_close fd \<Rightarrow> Some fd | _ \<Rightarrow> None) ev"

lemma closed_fds_append [simp]: "closed_fds (a @ b) = closed_fds a @ closed_fds b"
  by (simp add: closed_fds_def List.map_filter_def)

lemma closed_fds_simps [simp]:
  "closed_fds [] = []" "closed_fds (Ev_close fd # ev) = fd # closed_fds ev"
  "closed_fds (Ev_sendto fd a p b # ev) = closed_fds ev"
  "closed_fds (Ev_nonblocking fd # ev) = closed_fds ev"
  "closed_fds (Ev_epoll_add i e q # ev) = closed_fds ev"
  "closed_fds (Ev_epoll_mod i e q # ev) = closed_fds ev"
  "closed_fds (Ev_epoll_del i # ev) = closed_fds ev"
  "closed_fds (Ev_send fd b # ev) = closed_fds ev"
  by (simp_all add: closed_fds_def List.map_filter_simps)

lemma closed_fds_test [simp]: "closed_fds (test_udp_connectivity fd) = []"
  by (simp add: test_udp_connectivity_def)

lemma raw_socket_cases:
  assumes "create_socket_netns_raw k ns d t p = (fd, ev)" "kn_open_self k \<noteq> -1"
  shows "fd \<noteq> ERROR_SOCKET_FD \<and> fd = kn_socket k d t p \<and> closed_fds ev = [kn_open_self k]
    \<or> fd = ERROR_SOCKET_FD \<and> (closed_fds ev = [kn_open_self k] \<and> (kn_setns_dst k = -1 \<or> kn_socket k d t p = -1)
        \<or> closed_fds ev = [kn_open_self k, kn_socket k d t p])"
  using assms by (auto simp: create_socket_netns_raw_def Let_def sock_codes split: if_splits)

end
