(* ===== verification/Dev_Selector.thy ===== *)
theory Dev_Selector
  imports Backend_State
begin

text \<open>
  Choosing a high-speed network device (\<open>src/src/engine.c\<close>): the round-robin, latency-first
  and throughput-first selectors, the dispatch over the configured selector, and the
  enable, disable and query entry points.
\<close>

section \<open>Selectors\<close>

text \<open>
  The loop of the first call: \<open>active_mask &= 1u << cnt\<close> both tests a bit and stores the
  masked value back.
\<close>

function first_scan :: "nat \<Rightarrow> nat \<Rightarrow> u32 \<Rightarrow> nat option" where
  "first_scan cnt dev_num active_mask =
     (if cnt < dev_num then
        let masked = active_mask AND push_bit cnt 1
        in if masked \<noteq> 0 then Some cnt else first_scan (Suc cnt) dev_num masked
      else None)"
  by pat_completeness auto

termination
  by (relation "measure (\<lambda>(cnt, dev_num, _). dev_num - cnt)") auto

declare first_scan.simps [simp del]

text \<open>The loop of the later calls, over \<open>last_pos\<close>; \<open>n\<close> iterations are left.\<close>

fun next_scan :: "nat \<Rightarrow> nat \<Rightarrow> nat \<Rightarrow> u32 \<Rightarrow> bool \<times> nat" where
  "next_scan 0 last_pos dev_num active_mask = (False, last_pos)"
| "next_scan (Suc n) last_pos dev_num active_mask =
     (let pos = (if dev_num = Suc last_pos then 0 else Suc last_pos);
          masked = active_mask AND push_bit pos 1
      in if masked \<noteq> 0 then (True, pos) else next_scan n pos dev_num masked)"

text \<open>The selector returns its code, the chosen id and the new value of the static \<open>last_pos\<close>.\<close>

definition choose_dev_round_robin :: "backend \<Rightarrow> int \<times> u16 option \<times> backend" where
  "choose_dev_round_robin st =
     (let eng = st_eng st;
          dev_num = unat (be_dev_num eng);
          active_mask = ucast (be_active_mask eng) :: u32
      in if dev_num = 0 then (BACKEND_PROXY_PROCESS_ERROR, None, st)
         else
           let (find_dev, last_pos) =
             (if st_last_pos st = -1 then
                (case first_scan 0 dev_num active_mask of
                   None \<Rightarrow> (False, -1)
                 | Some cnt \<Rightarrow> (True, int cnt))
              else
                (let (found, pos) = next_scan dev_num (nat (st_last_pos st)) dev_num active_mask
                 in (found, int pos)))
           in if \<not> find_dev then (BACKEND_PROXY_PROCESS_ERROR, None, st\<lparr>st_last_pos := last_pos\<rparr>)
              else (BACKEND_PROXY_PROCESS_OK,
                    Some (word_of_int (hd_dev_id (be_dev_set eng ! nat last_pos))),
                    st\<lparr>st_last_pos := last_pos\<rparr>))"

definition choose_dev_latency_first :: "backend \<Rightarrow> int \<times> u16 option \<times> backend" where
  "choose_dev_latency_first st = (BACKEND_PROXY_PROCESS_OK, Some 0, st)"

definition choose_dev_throughput_first :: "backend \<Rightarrow> int \<times> u16 option \<times> backend" where
  "choose_dev_throughput_first st = (BACKEND_PROXY_PROCESS_OK, Some 0, st)"

text \<open>
  The selector table filled by \<open>engine_init_selector\<close>; an id past its end reads outside the
  array (\<open>None\<close>).
\<close>

definition HS_DEV_SELECTOR_NUM :: nat where "HS_DEV_SELECTOR_NUM = 3"

definition hs_dev_sel :: "(backend \<Rightarrow> int \<times> u16 option \<times> backend) list" where
  "hs_dev_sel = [choose_dev_round_robin, choose_dev_latency_first, choose_dev_throughput_first]"

definition engine_init_selector :: "backend \<Rightarrow> int \<times> backend" where
  "engine_init_selector st =
     (BACKEND_PROXY_PROCESS_OK, st\<lparr>st_eng := (st_eng st)\<lparr>be_selector_id := 0\<rparr>\<rparr>)"

definition choose_hs_net_dev :: "backend \<Rightarrow> (int \<times> u16 option \<times> backend) option" where
  "choose_hs_net_dev st =
     (let sel = unat (be_selector_id (st_eng st))
      in if sel \<ge> HS_DEV_SELECTOR_NUM then None
         else
           let (ret, dev_id, st') = (hs_dev_sel ! sel) st
           in Some (if ret \<noteq> BACKEND_PROXY_PROCESS_OK \<or>
                       (case dev_id of None \<Rightarrow> False | Some d \<Rightarrow> d \<ge> be_dev_num (st_eng st'))
                    then BACKEND_PROXY_PROCESS_ERROR else BACKEND_PROXY_PROCESS_OK, dev_id, st'))"


section \<open>Enable, disable, query\<close>

text \<open>
  The loop of \<open>enable_hs_net_dev\<close> tests bits but never advances \<open>bit_pos\<close>: it is given
  fuel, and \<open>None\<close> means that the fuel did not suffice.
\<close>

fun enable_loop :: "nat \<Rightarrow> u8 \<Rightarrow> u16 \<Rightarrow> unit option" where
  "enable_loop 0 bit_pos m = None"
| "enable_loop (Suc fuel) bit_pos m =
     (if unat bit_pos < MAX_HS_DEV_NUM then
        (if m AND push_bit (unat bit_pos) 1 \<noteq> 0 then enable_loop fuel bit_pos m
         else enable_loop fuel bit_pos m)
      else Some ())"

definition enable_hs_net_dev :: "nat \<Rightarrow> BackendEngine option \<Rightarrow> u16 \<Rightarrow> int option" where
  "enable_hs_net_dev fuel eng m =
     (case eng of
        None \<Rightarrow> Some BACKEND_PROXY_PROCESS_ERROR
      | Some e \<Rightarrow>
          if be_dev_num e = 0 then Some BACKEND_PROXY_PROCESS_ERROR
          else map_option (\<lambda>_. BACKEND_PROXY_PROCESS_OK) (enable_loop fuel 0 m))"

definition disable_hs_net_dev :: "BackendEngine option \<Rightarrow> u16 \<Rightarrow> int" where
  "disable_hs_net_dev eng m =
     (case eng of None \<Rightarrow> BACKEND_PROXY_PROCESS_ERROR | Some e \<Rightarrow> BACKEND_PROXY_PROCESS_OK)"

definition query_hs_net_dev :: "BackendEngine option \<Rightarrow> bool \<Rightarrow> int" where
  "query_hs_net_dev eng has_mask =
     (case eng of
        None \<Rightarrow> BACKEND_PROXY_PROCESS_ERROR
      | Some e \<Rightarrow> if has_mask then BACKEND_PROXY_PROCESS_OK else BACKEND_PROXY_PROCESS_ERROR)"


section \<open>What the selectors choose\<close>

lemma and_bit_nonzero: "(w :: u32) AND push_bit i 1 \<noteq> 0 \<longleftrightarrow> bit w i"
proof
  assume "w AND push_bit i 1 \<noteq> 0"
  then obtain n where "bit (w AND push_bit i 1) n" using bit_word_eqI [of "w AND push_bit i 1" 0] by auto
  then show "bit w i"
    by (auto simp: bit_and_iff bit_push_bit_iff bit_1_iff simp del: push_bit_of_1)
next
  assume "bit w i"
  then have "bit (w AND push_bit i 1) i"
    using bit_imp_le_length [of w i] by (simp add: bit_and_iff bit_push_bit_iff del: push_bit_of_1)
  then show "w AND push_bit i 1 \<noteq> 0" by auto
qed

lemma first_scan_zero: "first_scan cnt n 0 = None"
  by (induction cnt n "0::u32" rule: first_scan.induct) (subst first_scan.simps, simp)

text \<open>
  After one failed test the mask is empty: only the first position can be found.
\<close>

lemma first_scan_only_first:
  "first_scan 0 n m = (if 0 < n \<and> bit m 0 then Some 0 else None)"
proof -
  have "first_scan 1 n 0 = None" by (rule first_scan_zero)
  then show ?thesis
    using and_bit_nonzero [of m 0] by (subst first_scan.simps) (auto simp: Let_def)
qed

lemma next_scan_zero: "\<not> fst (next_scan n p d 0)"
  by (induction n arbitrary: p) (auto simp: Let_def)

lemma next_scan_only_next:
  assumes "0 < n"
  shows "fst (next_scan n p d m) \<longleftrightarrow> bit m (if d = Suc p then 0 else Suc p)"
    and "fst (next_scan n p d m) \<Longrightarrow> snd (next_scan n p d m) = (if d = Suc p then 0 else Suc p)"
proof -
  obtain k where k: "n = Suc k" using assms by (cases n) auto
  define pos where "pos = (if d = Suc p then 0 else Suc p)"
  have eq: "next_scan n p d m = (if bit m pos then (True, pos) else next_scan k pos d 0)"
    using and_bit_nonzero [of m pos] by (auto simp: k Let_def pos_def [symmetric] simp del: push_bit_of_1)
  show "fst (next_scan n p d m) \<longleftrightarrow> bit m (if d = Suc p then 0 else Suc p)"
    using next_scan_zero [of k pos d] by (simp add: eq pos_def [symmetric])
  show "fst (next_scan n p d m) \<Longrightarrow> snd (next_scan n p d m) = (if d = Suc p then 0 else Suc p)"
    using next_scan_zero [of k pos d] by (simp add: eq pos_def [symmetric] split: if_splits)
qed

lemma enable_loop_diverges: "unat bit_pos < MAX_HS_DEV_NUM \<Longrightarrow> enable_loop fuel bit_pos m = None"
  by (induction fuel) auto

lemma bit_ucast_mask: "bit (ucast (w :: u16) :: u32) i \<longleftrightarrow> bit w i"
  by (auto simp: bit_ucast_iff dest: bit_imp_le_length)

text \<open>The single position a call of the round-robin selector can pick.\<close>

definition rr_position :: "backend \<Rightarrow> nat" where
  "rr_position st =
     (if st_last_pos st = -1 then 0
      else if unat (be_dev_num (st_eng st)) = Suc (nat (st_last_pos st)) then 0
      else Suc (nat (st_last_pos st)))"

lemma choose_dev_round_robin_eq:
  assumes "0 < be_dev_num (st_eng st)" "-1 \<le> st_last_pos st"
  shows "bit (be_active_mask (st_eng st)) (rr_position st) \<Longrightarrow>
      choose_dev_round_robin st = (BACKEND_PROXY_PROCESS_OK,
        Some (word_of_int (hd_dev_id (be_dev_set (st_eng st) ! rr_position st))),
        st\<lparr>st_last_pos := int (rr_position st)\<rparr>)"
    and "\<not> bit (be_active_mask (st_eng st)) (rr_position st) \<Longrightarrow>
      fst (choose_dev_round_robin st) = BACKEND_PROXY_PROCESS_ERROR
      \<and> fst (snd (choose_dev_round_robin st)) = None"
proof -
  let ?n = "unat (be_dev_num (st_eng st))"
  let ?m = "ucast (be_active_mask (st_eng st)) :: u32"
  let ?p = "nat (st_last_pos st)"
  have n: "0 < ?n" using assms(1) by (simp add: word_less_nat_alt)
  note scan = next_scan_only_next [OF n, of ?p ?n ?m]
  show "choose_dev_round_robin st = (BACKEND_PROXY_PROCESS_OK,
        Some (word_of_int (hd_dev_id (be_dev_set (st_eng st) ! rr_position st))),
        st\<lparr>st_last_pos := int (rr_position st)\<rparr>)"
    if b: "bit (be_active_mask (st_eng st)) (rr_position st)"
  proof (cases "st_last_pos st = -1")
    case True
    then show ?thesis
      using b n by (simp add: choose_dev_round_robin_def first_scan_only_first bit_ucast_mask
          rr_position_def)
  next
    case False
    then have pos: "rr_position st = (if ?n = Suc ?p then 0 else Suc ?p)" by (simp add: rr_position_def)
    then have "fst (next_scan ?n ?p ?n ?m)" using b by (simp only: scan(1) bit_ucast_mask)
    then have "next_scan ?n ?p ?n ?m = (True, rr_position st)"
      using scan(2) pos by (metis prod.collapse)
    then show ?thesis using False n by (simp add: choose_dev_round_robin_def)
  qed
  show "fst (choose_dev_round_robin st) = BACKEND_PROXY_PROCESS_ERROR
      \<and> fst (snd (choose_dev_round_robin st)) = None"
    if b: "\<not> bit (be_active_mask (st_eng st)) (rr_position st)"
  proof (cases "st_last_pos st = -1")
    case True
    then show ?thesis
      using b n by (simp add: choose_dev_round_robin_def first_scan_only_first bit_ucast_mask
          rr_position_def)
  next
    case False
    then have "\<not> fst (next_scan ?n ?p ?n ?m)"
      using b by (simp only: scan(1) bit_ucast_mask rr_position_def if_False simp_thms)
    then show ?thesis
      using False n by (cases "next_scan ?n ?p ?n ?m") (simp add: choose_dev_round_robin_def)
  qed
qed

text \<open>
  Round robin looks at one device only.  With at least one device, a call of the selector
  picks the device after the last chosen one (the first on the first call) when its bit is set
  in the active mask; when that bit is clear the call fails, even if other devices are active,
  because the scan stores the masked value back into the mask.
\<close>

lemma round_robin_single_position:
  assumes "0 < be_dev_num (st_eng st)" "-1 \<le> st_last_pos st"
    and "selected = choose_dev_round_robin st"
  shows "(fst selected = BACKEND_PROXY_PROCESS_OK
           \<longleftrightarrow> bit (be_active_mask (st_eng st)) (rr_position st))
    \<and> (fst selected = BACKEND_PROXY_PROCESS_OK \<longrightarrow>
         fst (snd selected) = Some (word_of_int (hd_dev_id (be_dev_set (st_eng st) ! rr_position st)))
         \<and> st_last_pos (snd (snd selected)) = int (rr_position st))"
  using choose_dev_round_robin_eq [OF assms(1,2)] assms(3)
  by (cases "bit (be_active_mask (st_eng st)) (rr_position st)") (auto simp: proxy_codes)

text \<open>
  Enabling devices never returns.  Whatever the mask and however many iterations the loop
  is given, \<open>enable_hs_net_dev\<close> has no result on an engine with a device.
\<close>

lemma enable_hs_net_dev_diverges:
  assumes "be_dev_num e \<noteq> 0"
  shows "enable_hs_net_dev fuel (Some e) m = None"
  using assms by (simp add: enable_hs_net_dev_def enable_loop_diverges MAX_HS_DEV_NUM_def)


section \<open>Concrete engines\<close>

definition sample_dev :: "int \<Rightarrow> HighSpeedNetDevice" where
  "sample_dev i = \<lparr>hd_dev_id = i, hd_dev_type = 0, hd_ns_name = Some ''ns'', hd_ns_id = 40 + i, hd_dev_status = HS_NET_DEV_ACTIVE,
     hd_name = ''eth'',
     hd_udp_node_queue = [], hd_tcp_node_queue = [], hd_free_node_queue = [100, 101],
     hd_address = [10, 0, 0, 1], hd_tcp_listening_port = 0, hd_tcp_listener = -1\<rparr>"

definition sample_engine :: BackendEngine where
  "sample_engine = \<lparr>be_dev_set = map sample_dev [0..15], be_dev_num = 2, be_active_mask = 2,
     be_selector_id = 0, be_sess_pool = True, be_ops = True, be_hyper_rx_queue = None,
     be_tx = sample_tx_env\<rparr>"

definition sample_backend :: backend where
  "sample_backend = \<lparr>st_eng = sample_engine,
     st_pool = \<lparr>sp_pool_name = Some ''high_speed_pool'', sp_sess_num = 0, sp_capacity = 1024,
       sp_engine = True, sp_ops = True, sp_queue_f2b = [], sp_queue_b2f = [],
       sp_id_queue = [1, 2, 3], sp_htable = []\<rparr>,
     st_sess = (\<lambda>_. None), st_node = (\<lambda>n. if n \<in> {100, 101} then Some None else None),
     st_last_pos = -1, st_trace = []\<rparr>"

end
