(* ===== verification/Engine_Queue.thy ===== *)
theory Engine_Queue
  imports Backend_State
begin

text \<open>
  The engine's access to its queues (\<open>src/src/engine.c\<close>): receiving from the shared-memory
  ring and from the HyperAMP receive queue, sending on the HyperAMP transmit queue.
\<close>

text \<open>
  \<open>*buf_ptr\<close> is an address in shared memory; the result carries the code, the queue and, on
  success, the address and the payload length found in the message header.
\<close>

definition backend_engine_rx_queue_get ::
  "SharedMemoryPoolQueue option \<Rightarrow> nat \<Rightarrow> bool \<Rightarrow> mem \<Rightarrow>
   int \<times> SharedMemoryPoolQueue option \<times> (u64 \<times> nat) option" where
  "backend_engine_rx_queue_get queue buf_max_len has_out m =
     (if queue = None \<or> \<not> has_out then (BACKEND_PROXY_PROCESS_ERROR, queue, None)
      else
        case shared_mem_pool_queue_recv_zc queue True True of
          (ret, None, queue') \<Rightarrow> (ret, queue', None)
        | (ret, Some addr, queue') \<Rightarrow>
            if ret = BACKEND_PROXY_PROCESS_ERROR \<or> ret = BACKEND_PROXY_PROCESS_AGAIN
            then (ret, queue', None)
            else
              let msg_size = unat (ph_payload_len (dec_ProxyMsgHeader (read_bytes m addr 8)))
              in if msg_size + 8 > buf_max_len
                 then (BACKEND_PROXY_PROCESS_ERROR, queue', None)
                 else (ret, queue', Some (addr, msg_size)))"

text \<open>The received bytes are what the call writes to the caller's buffer.\<close>

definition backend_engine_hyperamp_rx_queue_get ::
  "BackendEngine option \<Rightarrow> nat \<Rightarrow> bool \<Rightarrow> bool \<Rightarrow> (int \<times> bytes \<times> BackendEngine option) option" where
  "backend_engine_hyperamp_rx_queue_get eng max_msg_len has_data has_out =
     (case eng of
        None \<Rightarrow> Some (BACKEND_PROXY_PROCESS_ERROR, [], eng)
      | Some e \<Rightarrow>
          if be_hyper_rx_queue e = None \<or> te_data_region (be_tx e) = 0 \<or> \<not> has_data \<or> \<not> has_out
          then Some (BACKEND_PROXY_PROCESS_ERROR, [], eng)
          else do {
            (ret, data, q') \<leftarrow> hyperamp_queue_dequeue (be_hyper_rx_queue e) HYPERAMP_ZONE_ID_Linux
               has_data max_msg_len (te_data_region (be_tx e)) (te_mem (be_tx e));
            Some (if ret = HYPERAMP_ERROR then BACKEND_PROXY_PROCESS_ERROR
                  else if ret = HYPERAMP_AGAIN then BACKEND_PROXY_PROCESS_AGAIN
                  else BACKEND_PROXY_PROCESS_OK,
                  data, Some (e\<lparr>be_hyper_rx_queue := q'\<rparr>))
          })"

definition backend_engine_hyperamp_tx_queue_put ::
  "tx_env \<Rightarrow> bytes option \<Rightarrow> nat \<Rightarrow> (int \<times> tx_env) option" where
  "backend_engine_hyperamp_tx_queue_put env data msg_len =
     (case te_hyper_tx_queue env of
        None \<Rightarrow> Some (BACKEND_PROXY_PROCESS_ERROR, env)
      | Some q \<Rightarrow>
          if msg_len > unat (hq_block_size q) \<or> te_data_region env = 0 \<or> data = None
          then Some (BACKEND_PROXY_PROCESS_ERROR, env)
          else do {
            (ret, q', m') \<leftarrow> hyperamp_queue_enqueue (Some q) HYPERAMP_ZONE_ID_Linux data msg_len
               (te_data_region env) (te_mem env);
            Some (if ret = HYPERAMP_ERROR then BACKEND_PROXY_PROCESS_ERROR
                  else if ret = HYPERAMP_AGAIN then BACKEND_PROXY_PROCESS_AGAIN
                  else BACKEND_PROXY_PROCESS_OK,
                  env\<lparr>te_hyper_tx_queue := q', te_mem := m'\<rparr>)
          })"


section \<open>Transmit and receive as queue operations\<close>

text \<open>A transmit queue in working order, and the blocks it holds.\<close>

definition tx_ready :: "u16 \<Rightarrow> u16 \<Rightarrow> tx_env \<Rightarrow> bool" where
  "tx_ready cap bs env \<longleftrightarrow> te_mem_pool env \<and> te_data_region env \<noteq> 0 \<and>
     (case te_hyper_tx_queue env of None \<Rightarrow> False
      | Some q \<Rightarrow> queue_inv (te_data_region env) cap bs q)"

definition tx_blocks :: "tx_env \<Rightarrow> bytes list" where
  "tx_blocks env =
     (case te_hyper_tx_queue env of None \<Rightarrow> []
      | Some q \<Rightarrow> queue_contents (te_data_region env) q (te_mem env))"

text \<open>Putting a message of legal length: it is appended, or the queue is full and unchanged.\<close>

lemma tx_queue_put_spec:
  assumes "tx_ready cap bs env" "0 < length d" "length d \<le> unat bs"
  shows "\<exists>env'. backend_engine_hyperamp_tx_queue_put env (Some d) (length d) =
      Some (if length (tx_blocks env) < unat cap - 1 then BACKEND_PROXY_PROCESS_OK
            else BACKEND_PROXY_PROCESS_AGAIN, env')
    \<and> tx_ready cap bs env'
    \<and> (if length (tx_blocks env) < unat cap - 1
       then \<exists>pad. tx_blocks env' = tx_blocks env @ [d @ pad]
       else tx_blocks env' = tx_blocks env)"
proof -
  obtain q where q: "te_hyper_tx_queue env = Some q" "queue_inv (te_data_region env) cap bs q"
    using assms(1) by (auto simp: tx_ready_def split: option.splits)
  have bs: "hq_block_size q = bs" using q(2) by (simp add: queue_inv_def)
  from enqueue_spec [OF q(2) assms(2,3), of HYPERAMP_ZONE_ID_Linux "te_mem env"] obtain q' m' where
    E: "hyperamp_queue_enqueue (Some q) HYPERAMP_ZONE_ID_Linux (Some d) (length d)
          (te_data_region env) (te_mem env) =
        Some (if length (queue_contents (te_data_region env) q (te_mem env)) < unat cap - 1
              then HYPERAMP_OK else HYPERAMP_AGAIN, Some q', m')"
      "queue_inv (te_data_region env) cap bs q'"
      "queue_contents (te_data_region env) q' m' =
        (if length (queue_contents (te_data_region env) q (te_mem env)) < unat cap - 1
         then queue_contents (te_data_region env) q (te_mem env) @ [d @ drop (length d)
                (slot_block (te_data_region env) bs (te_mem env) (unat (hq_header q)))]
         else queue_contents (te_data_region env) q (te_mem env))"
    by blast
  show ?thesis
    using assms E(2,3) unfolding backend_engine_hyperamp_tx_queue_put_def q(1) option.case E(1)
    by (intro exI [of _ "env\<lparr>te_hyper_tx_queue := Some q', te_mem := m'\<rparr>"])
      (auto simp: tx_ready_def tx_blocks_def q(1) bs hyperamp_codes proxy_codes)
qed


section \<open>Session responses on the transmit queue\<close>

text \<open>The bytes of a create or close response.\<close>

definition sess_response_bytes :: "u16 \<Rightarrow> u16 \<Rightarrow> u16 \<Rightarrow> u16 \<Rightarrow> SessOpRespData \<Rightarrow> bytes" where
  "sess_response_bytes fid bid ip ty r =
     enc_ProxyMsgHeader \<lparr>ph_version = PROXY_PROTO_VERSION_1, ph_proxy_msg_type = PROXY_MSG_TYPE_SESS,
       ph_frontend_sess_id = fid, ph_backend_sess_id = bid, ph_payload_len = 12\<rparr> @
     enc_SessMsgHeader \<lparr>sh_version = PROXY_PROTO_SESS_VERSION_1, sh_msg_type = ty,
       sh_action_type = ACTION_TYPE_RESPONSE, sh_ip_version = ip, sh_payload_len = 2\<rparr> @
     [ro_status r, ro_code r]"

text \<open>Blocks that hold a response: at least 20 bytes and no more than the transmit buffer.\<close>

definition tx_ok :: "u16 \<Rightarrow> u16 \<Rightarrow> tx_env \<Rightarrow> bool" where
  "tx_ok cap bs env \<longleftrightarrow> tx_ready cap bs env \<and> 20 \<le> unat bs \<and> unat bs \<le> sizeof_tx_buf"

abbreviation tx_room :: "u16 \<Rightarrow> tx_env \<Rightarrow> bool" where
  "tx_room cap env \<equiv> length (tx_blocks env) < unat cap - 1"

lemma build_sess_response_spec:
  assumes "tx_ok cap bs env" "IS_VALID_SESS_MSG_TYPE ty"
  shows "\<exists>env'. build_proxy_general_message (Some env) (Some (sess_response_header fid bid ip ty))
      (Some (enc_SessOpRespData r)) 2 True MEMORY_ALLOC_AMPQUEUE True None =
      Some (if tx_room cap env then BACKEND_PROXY_PROCESS_OK else BACKEND_PROXY_PROCESS_AGAIN,
            Some env', None, None)
    \<and> tx_ok cap bs env'
    \<and> (if tx_room cap env
       then \<exists>pad. tx_blocks env' = tx_blocks env @ [sess_response_bytes fid bid ip ty r @ pad]
       else tx_blocks env' = tx_blocks env)"
proof -
  obtain q where q: "te_hyper_tx_queue env = Some q" "queue_inv (te_data_region env) cap bs q"
    and e: "te_mem_pool env" "te_data_region env \<noteq> 0" "20 \<le> unat bs" "unat bs \<le> sizeof_tx_buf"
    using assms(1) by (auto simp: tx_ok_def tx_ready_def split: option.splits)
  let ?h = "sess_response_header fid bid ip ty"
  let ?sh = "\<lparr>sh_version = PROXY_PROTO_SESS_VERSION_1, sh_msg_type = ty,
        sh_action_type = ACTION_TYPE_RESPONSE, sh_ip_version = ip, sh_payload_len = 2\<rparr>"
  have inner: "build_inner_message ?h (enc_SessOpRespData r) 2
      = Some (BACKEND_PROXY_PROCESS_OK, 10, enc_SessMsgHeader ?sh @ enc_SessOpRespData r)"
    using assms(2)
    by (intro build_sess_inner [where rest = "[]"])
      (auto simp: sess_response_header_def enc_SessOpRespData_def SESS_MSG_HEADER_PAYLOAD_LEN_def
        SESS_MSG_PAYLOAD_LEN_def IS_VALID_SESS_MSG_TYPE_def msg_codes)
  have bytes: "outer_message ?h 10 2 (enc_SessMsgHeader ?sh @ enc_SessOpRespData r)
      = sess_response_bytes fid bid ip ty r"
    by (simp add: outer_message_def sess_response_bytes_def sess_response_header_def
        enc_SessOpRespData_def)
  from build_ampqueue_delivers [OF inner _ _ e(4) q, of None] e(3) show ?thesis
    unfolding bytes using e q(1) assms(1)
    by (fastforce simp: enc_SessOpRespData_def build_proxy_general_message_def tx_blocks_def tx_ok_def
        tx_ready_def split: if_splits)
qed

text \<open>Sending for a session, and without one.\<close>

definition sends :: "u16 \<Rightarrow> u16 \<Rightarrow> bytes \<Rightarrow> backend \<Rightarrow> (int \<times> backend) option \<Rightarrow> bool" where
  "sends cap bs msg st res \<longleftrightarrow>
     (\<exists>t. res = Some (if tx_room cap (be_tx (st_eng st)) then BACKEND_PROXY_PROCESS_OK
                      else BACKEND_PROXY_PROCESS_ERROR, put_tx t st)
        \<and> tx_ok cap bs t
        \<and> (if tx_room cap (be_tx (st_eng st))
           then \<exists>pad. tx_blocks t = tx_blocks (be_tx (st_eng st)) @ [msg @ pad]
           else tx_blocks t = tx_blocks (be_tx (st_eng st))))"

lemma send_session_response_spec:
  assumes "tx_ok cap bs (be_tx (st_eng st))" "st_sess st p = Some s" "bs_eng s"
    and "IS_VALID_SESS_MSG_TYPE ty"
  shows "sends cap bs (sess_response_bytes (bs_frontend_sess_id s) (bs_backend_sess_id s)
      (word_of_int (bs_ip_version s)) ty r) st (send_session_response p ty r st)"
proof -
  have pool: "te_mem_pool (be_tx (st_eng st))" using assms(1) by (simp add: tx_ok_def tx_ready_def)
  from build_sess_response_spec [OF assms(1,4), of "bs_frontend_sess_id s" "bs_backend_sess_id s"
      "word_of_int (bs_ip_version s)" r] obtain env' where
    "build_proxy_general_message (Some (be_tx (st_eng st)))
       (Some (sess_response_header (bs_frontend_sess_id s) (bs_backend_sess_id s)
          (word_of_int (bs_ip_version s)) ty))
       (Some (enc_SessOpRespData r)) 2 True MEMORY_ALLOC_AMPQUEUE True None =
      Some (if tx_room cap (be_tx (st_eng st)) then BACKEND_PROXY_PROCESS_OK
            else BACKEND_PROXY_PROCESS_AGAIN, Some env', None, None)"
    "tx_ok cap bs env'"
    "if tx_room cap (be_tx (st_eng st))
     then \<exists>pad. tx_blocks env' = tx_blocks (be_tx (st_eng st)) @
       [sess_response_bytes (bs_frontend_sess_id s) (bs_backend_sess_id s)
          (word_of_int (bs_ip_version s)) ty r @ pad]
     else tx_blocks env' = tx_blocks (be_tx (st_eng st))"
    by blast
  then show ?thesis
    using assms pool unfolding sends_def send_session_response_def
      backend_proxy_send_sess_msg_to_frontend_via_shmem_def
      backend_proxy_generate_sess_msg_create_close_response_def
    by (intro exI [of _ env']) (simp add: proxy_codes)
qed

lemma send_standalone_response_spec:
  assumes "tx_ok cap bs (be_tx (st_eng st))" "IS_VALID_SESS_MSG_TYPE ty"
  shows "sends cap bs (sess_response_bytes fid BACKEND_HANDOVER_SESSION_ID ip ty r) st
    (send_standalone_response fid bid ip ty r st)"
proof -
  have pool: "te_mem_pool (be_tx (st_eng st))" using assms(1) by (simp add: tx_ok_def tx_ready_def)
  from build_sess_response_spec [OF assms, of fid BACKEND_HANDOVER_SESSION_ID ip r] obtain env' where
    "build_proxy_general_message (Some (be_tx (st_eng st)))
       (Some (sess_response_header fid BACKEND_HANDOVER_SESSION_ID ip ty))
       (Some (enc_SessOpRespData r)) 2 True MEMORY_ALLOC_AMPQUEUE True None =
      Some (if tx_room cap (be_tx (st_eng st)) then BACKEND_PROXY_PROCESS_OK
            else BACKEND_PROXY_PROCESS_AGAIN, Some env', None, None)"
    "tx_ok cap bs env'"
    "if tx_room cap (be_tx (st_eng st))
     then \<exists>pad. tx_blocks env' = tx_blocks (be_tx (st_eng st)) @
       [sess_response_bytes fid BACKEND_HANDOVER_SESSION_ID ip ty r @ pad]
     else tx_blocks env' = tx_blocks (be_tx (st_eng st))"
    by blast
  then show ?thesis
    using assms pool unfolding sends_def send_standalone_response_def
      backend_proxy_send_sess_standalone_msg_to_frontend_via_shmem_def
      backend_proxy_generate_sess_msg_create_close_response_standalone_def
    by (intro exI [of _ env']) (simp add: proxy_codes)
qed

end
