(* ===== verification/Keyed_Table.thy ===== *)
theory Keyed_Table
  imports Prelude
begin

text \<open>
  What the clients of a keyed table rely on: lookups after an insertion of an absent key and
  after a removal.  The session hash table and the configuration dictionary provide it.
\<close>

datatype ('k, 'v) table_op = Add 'k 'v | Remove 'k

locale keyed_table =
  fixes inv :: "'t \<Rightarrow> bool"
    and find :: "'t \<Rightarrow> 'k \<Rightarrow> 'v option"
    and fresh :: "'t \<Rightarrow> 'k \<Rightarrow> 'v \<Rightarrow> bool"
    and add :: "'t \<Rightarrow> 'k \<Rightarrow> 'v \<Rightarrow> 't"
    and remove :: "'t \<Rightarrow> 'k \<Rightarrow> 't"
  assumes inv_add: "inv t \<Longrightarrow> fresh t k v \<Longrightarrow> inv (add t k v)"
    and find_add: "inv t \<Longrightarrow> fresh t k v \<Longrightarrow> find (add t k v) k' = (if k' = k then Some v else find t k')"
    and fresh_absent: "inv t \<Longrightarrow> fresh t k v \<Longrightarrow> find t k = None"
    and inv_remove: "inv t \<Longrightarrow> inv (remove t k)"
    and find_remove: "inv t \<Longrightarrow> find (remove t k) k' = (if k' = k then None else find t k')"
begin

primrec table_step :: "'t \<Rightarrow> ('k, 'v) table_op \<Rightarrow> 't" where
  "table_step t (Add k v) = (if fresh t k v then add t k v else t)"
| "table_step t (Remove k) = remove t k"

primrec map_step :: "bool \<Rightarrow> ('k \<Rightarrow> 'v option) \<Rightarrow> ('k, 'v) table_op \<Rightarrow> ('k \<Rightarrow> 'v option)" where
  "map_step ok m (Add k v) = (if ok then m(k \<mapsto> v) else m)"
| "map_step ok m (Remove k) = m(k := None)"

lemma table_step_inv: "inv t \<Longrightarrow> inv (table_step t op)"
  by (cases op) (auto simp: inv_add inv_remove)

lemma table_step_find:
  assumes "inv t"
  shows "find (table_step t op) = map_step (case op of Add k v \<Rightarrow> fresh t k v | Remove k \<Rightarrow> True) (find t) op"
  using assms by (cases op) (auto simp: find_add find_remove)

lemma run_inv: "inv t \<Longrightarrow> inv (foldl table_step t ops)"
  by (induction ops arbitrary: t) (auto simp: table_step_inv)

lemma add_remove: "inv t \<Longrightarrow> fresh t k v \<Longrightarrow> find (remove (add t k v) k) = find t"
  by (auto simp: find_remove find_add inv_add fresh_absent)

lemma add_keeps: "inv t \<Longrightarrow> fresh t k v \<Longrightarrow> k' \<noteq> k \<Longrightarrow> find (add t k v) k' = find t k'"
  by (simp add: find_add)

lemma remove_absent: "inv t \<Longrightarrow> find t k = None \<Longrightarrow> find (remove t k) = find t"
  by (auto simp: find_remove)

end

text \<open>
  Sequences of insertions under a key and removals of a value, where an operation may have no result.
\<close>

datatype ('k, 'v) entry_op = Enter 'k 'v | Leave 'v

fun run_entries ::
  "('t \<Rightarrow> 'k \<Rightarrow> 'v \<Rightarrow> 't option) \<Rightarrow> ('t \<Rightarrow> 'v \<Rightarrow> 't option) \<Rightarrow> 't \<Rightarrow> ('k, 'v) entry_op list \<Rightarrow> 't option" where
  "run_entries enter leave t [] = Some t"
| "run_entries enter leave t (Enter k v # ops) = do { t1 \<leftarrow> enter t k v; run_entries enter leave t1 ops }"
| "run_entries enter leave t (Leave v # ops) = do { t1 \<leftarrow> leave t v; run_entries enter leave t1 ops }"

text \<open>
  A table that implements another one, unless an insertion gets stuck, for instance for want of
  memory.  What the specification rejects is not asked of the implementation.
\<close>

locale table_simulation =
  fixes rel :: "'c \<Rightarrow> 'a \<Rightarrow> bool"
    and cfind :: "'c \<Rightarrow> 'k \<Rightarrow> 'v option" and center :: "'c \<Rightarrow> 'k \<Rightarrow> 'v \<Rightarrow> 'c option" and cleave :: "'c \<Rightarrow> 'v \<Rightarrow> 'c option"
    and afind :: "'a \<Rightarrow> 'k \<Rightarrow> 'v option" and aenter :: "'a \<Rightarrow> 'k \<Rightarrow> 'v \<Rightarrow> 'a option" and aleave :: "'a \<Rightarrow> 'v \<Rightarrow> 'a option"
    and stuck :: "'c \<Rightarrow> bool"
  assumes sim_find: "rel c a \<Longrightarrow> cfind c k = afind a k"
    and sim_enter: "rel c a \<Longrightarrow> aenter a k v = Some a' \<Longrightarrow>
      (case center c k v of None \<Rightarrow> stuck c | Some c' \<Rightarrow> rel c' a')"
    and sim_leave: "rel c a \<Longrightarrow> aleave a v = Some a' \<Longrightarrow> \<exists>c'. cleave c v = Some c' \<and> rel c' a'"
begin

lemma run_rel:
  assumes "rel c a" "run_entries aenter aleave a ops = Some a'" "run_entries center cleave c ops = Some c'"
  shows "rel c' a'"
  using assms
proof (induction ops arbitrary: a c)
  case (Cons op ops)
  show ?case
  proof (cases op)
    case (Enter k v)
    then obtain a1 c1 where "aenter a k v = Some a1" "run_entries aenter aleave a1 ops = Some a'"
      "center c k v = Some c1" "run_entries center cleave c1 ops = Some c'"
      using Cons.prems(2,3) by (auto simp: bind_eq_Some_conv)
    then show ?thesis using sim_enter [OF Cons.prems(1), of k v a1] Cons.IH by simp
  next
    case (Leave v)
    then obtain a1 c1 where "aleave a v = Some a1" "run_entries aenter aleave a1 ops = Some a'"
      "cleave c v = Some c1" "run_entries center cleave c1 ops = Some c'"
      using Cons.prems(2,3) by (auto simp: bind_eq_Some_conv)
    then show ?thesis using sim_leave [OF Cons.prems(1), of v a1] Cons.IH by simp
  qed
qed simp

lemma run_stuck:
  assumes "rel c a" "run_entries aenter aleave a ops = Some a'" "run_entries center cleave c ops = None"
  shows "\<exists>pre post c1. ops = pre @ post \<and> run_entries center cleave c pre = Some c1 \<and> stuck c1"
  using assms
proof (induction ops arbitrary: a c)
  case (Cons op ops)
  show ?case
  proof (cases op)
    case (Enter k v)
    then obtain a1 where a1: "aenter a k v = Some a1" "run_entries aenter aleave a1 ops = Some a'"
      using Cons.prems(2) by (auto simp: bind_eq_Some_conv)
    show ?thesis
    proof (cases "center c k v")
      case None
      then show ?thesis
        using sim_enter [OF Cons.prems(1) a1(1)] by (intro exI [of _ "[]"] exI [of _ "op # ops"] exI [of _ c]) simp
    next
      case (Some c1)
      then obtain pre post c2 where "ops = pre @ post" "run_entries center cleave c1 pre = Some c2" "stuck c2"
        using Cons.IH [OF _ a1(2), of c1] sim_enter [OF Cons.prems(1) a1(1)] Cons.prems(3) Enter by auto
      then show ?thesis using Some Enter by (intro exI [of _ "op # pre"] exI [of _ post] exI [of _ c2]) simp
    qed
  next
    case (Leave v)
    then obtain a1 where a1: "aleave a v = Some a1" "run_entries aenter aleave a1 ops = Some a'"
      using Cons.prems(2) by (auto simp: bind_eq_Some_conv)
    obtain c1 where c1: "cleave c v = Some c1" "rel c1 a1" using sim_leave [OF Cons.prems(1) a1(1)] by blast
    then obtain pre post c2 where "ops = pre @ post" "run_entries center cleave c1 pre = Some c2" "stuck c2"
      using Cons.IH [OF c1(2) a1(2)] Cons.prems(3) Leave by auto
    then show ?thesis using c1(1) Leave by (intro exI [of _ "op # pre"] exI [of _ post] exI [of _ c2]) simp
  qed
qed simp

lemma run_refines:
  assumes "rel c a" "run_entries aenter aleave a ops = Some a'"
  shows "case run_entries center cleave c ops of
      None \<Rightarrow> \<exists>pre post c1. ops = pre @ post \<and> run_entries center cleave c pre = Some c1 \<and> stuck c1
    | Some c' \<Rightarrow> rel c' a' \<and> (\<forall>k. cfind c' k = afind a' k)"
  using run_stuck [OF assms] run_rel [OF assms] sim_find by (auto split: option.split)

end

end
