(* ===== verification/Session_Pool.thy ===== *)
theory Session_Pool
  imports Netns_Socket Dev_Selector Engine_Queue Keyed_Table
begin

text \<open>
  The session pool (\<open>src/src/session_pool.c\<close>): session ids, the table of sessions, active
  and passive creation, deletion, and the transfer of queued data in both directions.
\<close>

section \<open>Session ids\<close>

definition fill_id_queue :: "u16 list \<Rightarrow> u16 list" where
  "fill_id_queue id_q = id_q @ map of_nat [1..<Suc 1024]"

definition allocate_id :: "u16 list \<Rightarrow> u16 \<times> u16 list" where
  "allocate_id id_q = (case id_q of [] \<Rightarrow> (0, []) | i # rest \<Rightarrow> (i, rest))"

definition release_id :: "u16 list \<Rightarrow> u16 \<Rightarrow> u16 list" where
  "release_id id_q i = id_q @ [i]"

fun release_id_queue :: "u16 list \<Rightarrow> u16 list" where
  "release_id_queue [] = []"
| "release_id_queue (i # rest) = release_id_queue rest"


section \<open>Pool life cycle and table\<close>

definition high_speed_init_pool :: "bool \<Rightarrow> BackendSessionPool \<Rightarrow> int \<times> BackendSessionPool" where
  "high_speed_init_pool engine_set pool =
     (0, \<lparr>sp_pool_name = Some ''high_speed_pool'', sp_sess_num = 0, sp_capacity = 1024,
          sp_engine = engine_set, sp_ops = True, sp_queue_f2b = [], sp_queue_b2f = [],
          sp_id_queue = fill_id_queue [], sp_htable = []\<rparr>)"

definition high_speed_deinit_pool :: "BackendSessionPool \<Rightarrow> BackendSessionPool" where
  "high_speed_deinit_pool pool =
     pool\<lparr>sp_id_queue := release_id_queue (sp_id_queue pool), sp_queue_f2b := [], sp_queue_b2f := []\<rparr>"

definition inc_sess_num :: "BackendSessionPool \<Rightarrow> BackendSessionPool" where
  "inc_sess_num pool = pool\<lparr>sp_sess_num := sp_sess_num pool + 1\<rparr>"

definition dec_sess_num :: "BackendSessionPool \<Rightarrow> BackendSessionPool" where
  "dec_sess_num pool = pool\<lparr>sp_sess_num := sp_sess_num pool - 1\<rparr>"

text \<open>The hash-table operations the pool uses; deletion is by element.\<close>

definition hash_find :: "(u16 \<times> nat) list \<Rightarrow> u16 \<Rightarrow> nat option" where
  "hash_find tbl i = map_of tbl i"

definition hash_add :: "(u16 \<times> nat) list \<Rightarrow> u16 \<Rightarrow> nat \<Rightarrow> (u16 \<times> nat) list" where
  "hash_add tbl i p = tbl @ [(i, p)]"

definition hash_del :: "(u16 \<times> nat) list \<Rightarrow> nat \<Rightarrow> (u16 \<times> nat) list" where
  "hash_del tbl p = filter (\<lambda>e. snd e \<noteq> p) tbl"

fun high_speed_delete_all_sess :: "(u16 \<times> nat) list \<Rightarrow> backend \<Rightarrow> backend" where
  "high_speed_delete_all_sess [] st = st"
| "high_speed_delete_all_sess (e # rest) st =
     high_speed_delete_all_sess rest
       (free_sess (snd e)
          (st\<lparr>st_pool := (st_pool st)\<lparr>sp_htable := hash_del (sp_htable (st_pool st)) (snd e)\<rparr>\<rparr>))"

definition high_speed_destroy_pool :: "backend \<Rightarrow> backend" where
  "high_speed_destroy_pool st =
     (let st1 = st\<lparr>st_pool := (st_pool st)\<lparr>sp_pool_name := None, sp_capacity := 0, sp_sess_num := 0,
                                            sp_ops := False\<rparr>\<rparr>
      in high_speed_delete_all_sess (sp_htable (st_pool st1)) st1)"

definition high_speed_insert_sess :: "nat \<Rightarrow> backend \<Rightarrow> (int \<times> backend) option" where
  "high_speed_insert_sess p st =
     (case st_sess st p of
        None \<Rightarrow> None
      | Some s \<Rightarrow>
          (case hash_find (sp_htable (st_pool st)) (bs_backend_sess_id s) of
             None \<Rightarrow>
               Some (BACKEND_PROXY_PROCESS_OK,
                     st\<lparr>st_pool := inc_sess_num ((st_pool st)
                          \<lparr>sp_htable := hash_add (sp_htable (st_pool st)) (bs_backend_sess_id s) p\<rparr>)\<rparr>)
           | Some _ \<Rightarrow> Some (BACKEND_PROXY_PROCESS_ERROR, st)))"

definition high_speed_search_sess :: "backend \<Rightarrow> u16 \<Rightarrow> nat option" where
  "high_speed_search_sess st i = hash_find (sp_htable (st_pool st)) i"


section \<open>Creation\<close>

definition SESS_OP_STATUS_SUCCESS :: u8 where "SESS_OP_STATUS_SUCCESS = 0"
definition SESS_OP_STATUS_FAIL :: u8 where "SESS_OP_STATUS_FAIL = 1"
definition SESS_OP_CODE_SUCCESS :: u8 where "SESS_OP_CODE_SUCCESS = 0"
definition SESS_OP_CODE_DEVICE_ERROR :: u8 where "SESS_OP_CODE_DEVICE_ERROR = 2"
definition SESS_OP_CODE_RESOURCE_INSUFFICIENT :: u8 where "SESS_OP_CODE_RESOURCE_INSUFFICIENT = 3"
definition SESS_OP_CODE_NETWORK_UNREACHABLE :: u8 where "SESS_OP_CODE_NETWORK_UNREACHABLE = 4"

lemmas sess_op_codes = SESS_OP_STATUS_SUCCESS_def SESS_OP_STATUS_FAIL_def SESS_OP_CODE_SUCCESS_def
  SESS_OP_CODE_DEVICE_ERROR_def SESS_OP_CODE_RESOURCE_INSUFFICIENT_def
  SESS_OP_CODE_NETWORK_UNREACHABLE_def

text \<open>
  What a creation gets from outside: the session memory \<open>malloc\<close> returns with its
  indeterminate contents, the kernel's answers, the results of the two \<open>epoll_ctl\<close> calls,
  and the values of the two variables the code may read before setting them (the id, and the
  response's reason code).
\<close>

record sess_oracle =
  so_malloc :: "(nat \<times> BackendSession) option"
  so_kernel :: kernel
  so_epoll_ok :: bool
  so_epoll_del_ok :: bool
  so_uninit_id :: u16
  so_uninit_code :: u8

definition fail_resp :: "u8 \<Rightarrow> SessOpRespData" where
  "fail_resp code = \<lparr>ro_status = SESS_OP_STATUS_FAIL, ro_code = code\<rparr>"

definition success_resp :: SessOpRespData where
  "success_resp = \<lparr>ro_status = SESS_OP_STATUS_SUCCESS, ro_code = SESS_OP_CODE_SUCCESS\<rparr>"

definition set_ids :: "u16 list \<Rightarrow> backend \<Rightarrow> backend" where
  "set_ids q st = st\<lparr>st_pool := (st_pool st)\<lparr>sp_id_queue := q\<rparr>\<rparr>"

definition emits :: "sys_event list \<Rightarrow> backend \<Rightarrow> backend" where
  "emits ev st = st\<lparr>st_trace := st_trace st @ ev\<rparr>"

text \<open>The label \<open>create_sess_error\<close>: answer the frontend, then give everything back.\<close>

definition create_sess_error ::
  "SessMsgPara \<Rightarrow> SessOpRespData \<Rightarrow> nat option \<Rightarrow> u16 \<Rightarrow> int \<Rightarrow> backend \<Rightarrow> (int \<times> backend) option" where
  "create_sess_error para resp_dat new_sess new_sess_id fd st = do {
     (_, st1) \<leftarrow> send_standalone_response (sm_frontend_sess_id para) BACKEND_HANDOVER_SESSION_ID
        (sm_ip_version para) SESS_MSG_CREATE resp_dat st;
     let st2 = (case new_sess of None \<Rightarrow> st1 | Some p \<Rightarrow> free_sess p st1);
         st3 = (if new_sess_id \<noteq> 0
                then set_ids (release_id (sp_id_queue (st_pool st2)) new_sess_id) st2 else st2);
         st4 = (if fd \<noteq> ERROR_SOCKET_FD then emit (Ev_close fd) st3 else st3)
     in Some (BACKEND_PROXY_PROCESS_ERROR, st4) }"

text \<open>
  STEP 1 of both active creations, up to and including \<open>connect\<close>.  \<open>Inl\<close>: the error label is
  reached, with the response, the id and the descriptor known there.  \<open>Inr\<close>: device, id and
  connected descriptor.  Only \<open>high_speed_create_sess_active\<close> checks \<open>dev_num\<close>; the two
  functions answer a failed \<open>connect\<close> differently.
\<close>

definition open_session ::
  "bool \<Rightarrow> SessOpRespData \<Rightarrow> sess_oracle \<Rightarrow> SessMsgPara \<Rightarrow> backend \<Rightarrow>
   (((SessOpRespData \<times> u16 \<times> int) + (u16 \<times> u16 \<times> int)) \<times> backend) option" where
  "open_session check_dev_num connect_resp orc para st =
     (let (new_sess_id, ids) = allocate_id (sp_id_queue (st_pool st));
          st1 = set_ids ids st
      in if new_sess_id = 0
         then Some (Inl (fail_resp SESS_OP_CODE_RESOURCE_INSUFFICIENT, 0, ERROR_SOCKET_FD), st1)
         else if check_dev_num \<and> be_dev_num (st_eng st1) = 0
         then Some (Inl (fail_resp SESS_OP_CODE_DEVICE_ERROR, new_sess_id, ERROR_SOCKET_FD), st1)
         else do {
           (ret, chosen, st2) \<leftarrow> (if sm_dev_id para = DEV_ID_AUTO_HANDOVER
              then choose_hs_net_dev st1
              else Some (BACKEND_PROXY_PROCESS_OK, Some (sm_dev_id para), st1));
           (case (if ret = BACKEND_PROXY_PROCESS_OK then chosen else None) of
              None \<Rightarrow>
                Some (Inl (fail_resp SESS_OP_CODE_DEVICE_ERROR, new_sess_id, ERROR_SOCKET_FD), st2)
            | Some dev_id \<Rightarrow> do {
                ns_id \<leftarrow> GET_NS_ID (Some (be_dev_set (st_eng st2))) (unat dev_id);
                if ns_id = ERROR_NAMESPACE_ID
                then Some (Inl (fail_resp SESS_OP_CODE_DEVICE_ERROR, new_sess_id, ERROR_SOCKET_FD), st2)
                else
                  let (ret, fd_out, ev) = create_socket_netns (so_kernel orc) ns_id para;
                      st3 = emits ev st2
                  in if ret \<noteq> BACKEND_PROXY_PROCESS_OK
                     then Some (Inl (fail_resp SESS_OP_CODE_RESOURCE_INSUFFICIENT, new_sess_id,
                                     ERROR_SOCKET_FD), st3)
                     else
                       let fd = (case fd_out of None \<Rightarrow> ERROR_SOCKET_FD | Some f \<Rightarrow> f);
                           (ret, ev) = connect_socket_netns (so_kernel orc) fd para;
                           st4 = emits ev st3
                       in if ret \<noteq> BACKEND_PROXY_PROCESS_OK
                          then Some (Inl (connect_resp, new_sess_id, fd), st4)
                          else Some (Inr (dev_id, new_sess_id, fd), st4) }) })"

text \<open>
  The initialisation of \<open>high_speed_create_sess\<close>: the two link states are masked, not
  cleared, and \<open>dev_id\<close>, \<open>proto_type\<close> and the channel status keep their memory contents.
\<close>

definition init_created_sess :: "SessMsgPara \<Rightarrow> u16 \<Rightarrow> int \<Rightarrow> BackendSession \<Rightarrow> BackendSession" where
  "init_created_sess para new_sess_id fd s =
     s\<lparr>bs_nc_sock_fd := fd, bs_frontend_sess_id := sm_frontend_sess_id para,
       bs_backend_sess_id := new_sess_id, bs_ip_version := uint (sm_ip_version para),
       bs_sock_fd := fd, bs_eng := True,
       bs_state_f2b := bs_state_f2b s AND BACKEND_SESS_LINKED_TO_QUEUE,
       bs_state_b2f := bs_state_b2f s AND BACKEND_SESS_LINKED_TO_QUEUE,
       bs_msg_f2b := [], bs_msg_b2f := []\<rparr>"

text \<open>
  The result carries the code, the pointer stored in \<open>*sess\<close>, and the state.  The response
  data of the last three failures has its status overwritten by the reason code.
\<close>

definition high_speed_create_sess ::
  "sess_oracle \<Rightarrow> SessMsgPara \<Rightarrow> backend \<Rightarrow> (int \<times> nat option \<times> backend) option" where
  "high_speed_create_sess orc para st =
     (if \<not> sp_engine (st_pool st) \<or> \<not> be_ops (st_eng st) \<or> \<not> sp_ops (st_pool st)
      then Some (BACKEND_PROXY_PROCESS_ERROR, None, st)
      else case so_malloc orc of
        None \<Rightarrow>
          map_option (\<lambda>(ret, st'). (ret, None, st'))
            (create_sess_error para (fail_resp SESS_OP_CODE_RESOURCE_INSUFFICIENT) None
               (so_uninit_id orc) ERROR_SOCKET_FD st)
      | Some (p, mem0) \<Rightarrow> do {
          (opened, st1) \<leftarrow> open_session False (fail_resp SESS_OP_CODE_NETWORK_UNREACHABLE) orc para
             (put_sess p mem0 st);
          case opened of
            Inl (resp, new_sess_id, fd) \<Rightarrow>
              map_option (\<lambda>(ret, st'). (ret, None, st'))
                (create_sess_error para resp (Some p) new_sess_id fd st1)
          | Inr (dev_id, new_sess_id, fd) \<Rightarrow> do {
              let st2 = put_sess p (init_created_sess para new_sess_id fd mem0) st1;
              let bad = \<lparr>ro_status = SESS_OP_CODE_RESOURCE_INSUFFICIENT,
                         ro_code = SESS_OP_CODE_SUCCESS\<rparr>;
              (ret, st3) \<leftarrow> send_session_response p SESS_MSG_CREATE success_resp st2;
              if ret \<noteq> BACKEND_PROXY_PROCESS_OK
              then map_option (\<lambda>(ret, st'). (ret, Some p, st'))
                     (create_sess_error para bad (Some p) new_sess_id fd st3)
              else do {
                (ret, st4) \<leftarrow> BACKEND_SESS_REGISTER_EPOLL (so_epoll_ok orc) p EPOLLIN st3;
                if ret \<noteq> BACKEND_PROXY_PROCESS_OK
                then map_option (\<lambda>(ret, st'). (ret, Some p, st'))
                       (create_sess_error para bad (Some p) new_sess_id fd st4)
                else do {
                  (ret, st5) \<leftarrow> high_speed_insert_sess p st4;
                  if ret \<noteq> BACKEND_PROXY_PROCESS_OK
                  then map_option (\<lambda>(ret, st'). (ret, Some p, st'))
                         (create_sess_error para bad (Some p) new_sess_id fd st5)
                  else Some (BACKEND_PROXY_PROCESS_OK, Some p, st5) } } } })"

text \<open>Giving the session node back to its device (the label \<open>recycle_sess_node\<close>).\<close>

definition recycle_sess_node :: "nat \<Rightarrow> nat \<Rightarrow> nat \<Rightarrow> backend \<Rightarrow> backend option" where
  "recycle_sess_node dev_id n p st =
     (case st_sess st p of
        None \<Rightarrow> None
      | Some s \<Rightarrow>
          let (dev1, s1) = HIGH_SPEED_NET_DEV_REMOVE_SESSION_NODE (get_dev dev_id st) n (Some s)
                             (bs_proto_type s);
              dev2 = HIGH_SPEED_NET_DEV_PUSH_FREE_SESSION_NODE dev1 (Some n)
          in Some (put_dev dev_id dev2 (put_node n None
                     (put_sess p ((the s1)\<lparr>bs_sess_node := None\<rparr>) st))))"

definition init_active_sess :: "SessMsgPara \<Rightarrow> u16 \<Rightarrow> int \<Rightarrow> BackendSession \<Rightarrow> BackendSession" where
  "init_active_sess para new_sess_id fd s =
     (init_created_sess para new_sess_id fd s)\<lparr>bs_nc_status := EPOLL_REG_STATUS_UNREGISTERED,
       bs_establish_mode := SESS_ESTABLISH_ACTIVE, bs_proto_type := uint (sm_trans_proto para)\<rparr>"

text \<open>
  STEP 2 of the active creation after the descriptor is connected: take a session node, link
  it, register with epoll, enter the table, answer the frontend.
\<close>

definition active_step2 ::
  "sess_oracle \<Rightarrow> SessMsgPara \<Rightarrow> nat \<Rightarrow> u16 \<Rightarrow> u16 \<Rightarrow> int \<Rightarrow> backend \<Rightarrow>
   (int \<times> nat option \<times> backend) option" where
  "active_step2 orc para p dev_id new_sess_id fd st =
     (let give_up = (\<lambda>resp st. map_option (\<lambda>(ret, st'). (ret, None, st'))
                       (create_sess_error para resp (Some p) new_sess_id fd st));
          recycle = (\<lambda>n resp st. do { st' \<leftarrow> recycle_sess_node (unat dev_id) n p st; give_up resp st' });
          uninit = \<lparr>ro_status = SESS_OP_CODE_RESOURCE_INSUFFICIENT, ro_code = so_uninit_code orc\<rparr>;
          (node, dev1) = HIGH_SPEED_NET_DEV_POP_FREE_SESSION_NODE (get_dev (unat dev_id) st);
          st1 = put_dev (unat dev_id) dev1 st
      in case node of
        None \<Rightarrow> give_up (fail_resp SESS_OP_CODE_RESOURCE_INSUFFICIENT) st1
      | Some n \<Rightarrow>
          (case st_sess st1 p of
             None \<Rightarrow> None
           | Some s0 \<Rightarrow>
               let s1 = s0\<lparr>bs_sess_dev_link_state :=
                            bs_sess_dev_link_state s0 AND NOT BACKEND_SESS_LINKED_TO_DEV_NODE,
                          bs_sess_node := Some n\<rparr>;
                   (ret, dev2, s2) = HIGH_SPEED_NET_DEV_INSERT_SESSION_NODE dev1 n (Some s1)
                                       (bs_proto_type s1);
                   st2 = put_dev (unat dev_id) dev2 (put_node n (Some p) (put_sess p (the s2) st1))
               in if ret \<noteq> BACKEND_PROXY_PROCESS_OK
                  then give_up (fail_resp SESS_OP_CODE_DEVICE_ERROR)
                         (put_dev (unat dev_id) (HIGH_SPEED_NET_DEV_PUSH_FREE_SESSION_NODE dev2 (Some n))
                            (put_node n None (put_sess p ((the s2)\<lparr>bs_sess_node := None\<rparr>) st2)))
                  else do {
                    (ret, st3) \<leftarrow> BACKEND_SESS_REGISTER_EPOLL (so_epoll_ok orc) p EPOLLIN st2;
                    if ret \<noteq> BACKEND_PROXY_PROCESS_OK then recycle n uninit st3
                    else do {
                      (ret, st4) \<leftarrow> high_speed_insert_sess p st3;
                      if ret \<noteq> BACKEND_PROXY_PROCESS_OK
                      then do {
                        (_, st5) \<leftarrow> BACKEND_SESS_UNREGISTER_EPOLL (so_epoll_del_ok orc) p st4;
                        recycle n uninit st5 }
                      else do {
                        (ret, st5) \<leftarrow> send_session_response p SESS_MSG_CREATE success_resp st4;
                        if ret \<noteq> BACKEND_PROXY_PROCESS_OK
                        then recycle n \<lparr>ro_status = SESS_OP_CODE_RESOURCE_INSUFFICIENT,
                                         ro_code = SESS_OP_CODE_SUCCESS\<rparr> st5
                        else Some (BACKEND_PROXY_PROCESS_OK, Some p, st5) } } }))"

definition high_speed_create_sess_active ::
  "sess_oracle \<Rightarrow> SessMsgPara \<Rightarrow> backend \<Rightarrow> (int \<times> nat option \<times> backend) option" where
  "high_speed_create_sess_active orc para st =
     (if \<not> sp_engine (st_pool st) \<or> \<not> be_ops (st_eng st) \<or> \<not> sp_ops (st_pool st)
      then Some (BACKEND_PROXY_PROCESS_ERROR, None, st)
      else case so_malloc orc of
        None \<Rightarrow>
          map_option (\<lambda>(ret, st'). (ret, None, st'))
            (create_sess_error para (fail_resp SESS_OP_CODE_RESOURCE_INSUFFICIENT) None
               (so_uninit_id orc) ERROR_SOCKET_FD st)
      | Some (p, mem0) \<Rightarrow> do {
          (opened, st1) \<leftarrow> open_session True
             \<lparr>ro_status = SESS_OP_CODE_NETWORK_UNREACHABLE, ro_code = so_uninit_code orc\<rparr> orc para
             (put_sess p mem0 st);
          case opened of
            Inl (resp, new_sess_id, fd) \<Rightarrow>
              map_option (\<lambda>(ret, st'). (ret, None, st'))
                (create_sess_error para resp (Some p) new_sess_id fd st1)
          | Inr (dev_id, new_sess_id, fd) \<Rightarrow>
              active_step2 orc para p dev_id new_sess_id fd
                (put_sess p (init_active_sess para new_sess_id fd mem0) st1) })"


section \<open>Passive creation\<close>

record PassiveSessParaIP =
  pp_fd :: int
  pp_dev_id :: u16
  pp_trans_proto :: u16
  pp_ip_version :: u16
  pp_ip_port_tuple :: bytes

definition FRONTEND_HANDOVER_SESSION_ID :: u16 where "FRONTEND_HANDOVER_SESSION_ID = 0xFFFF"

text \<open>The create command announced to the frontend: \<open>SessIPv4Params\<close> is the payload.\<close>

definition passive_create_header :: "u16 \<Rightarrow> u16 \<Rightarrow> GeneralProxyMsgHeader" where
  "passive_create_header new_sess_id ip_version =
     \<lparr>gh_outer_header = \<lparr>ph_version = PROXY_PROTO_VERSION_1, ph_proxy_msg_type = PROXY_MSG_TYPE_SESS,
        ph_frontend_sess_id = FRONTEND_HANDOVER_SESSION_ID, ph_backend_sess_id = new_sess_id,
        ph_payload_len = 0\<rparr>,
      gh_inner_header = enc_SessMsgHeader \<lparr>sh_version = PROXY_PROTO_SESS_VERSION_1,
        sh_msg_type = SESS_MSG_CREATE, sh_action_type = ACTION_TYPE_COMMAND,
        sh_ip_version = ip_version, sh_payload_len = 10\<rparr>,
      gh_iot_addr = \<lparr>ia_addr_type = 0, ia_addr_info = []\<rparr>, gh_iot_addr_len = 0\<rparr>"

definition SessIPv4Params_bytes :: "u16 \<Rightarrow> u16 \<Rightarrow> bytes \<Rightarrow> bytes" where
  "SessIPv4Params_bytes device_selection transport_layer_proto dest_endpoint =
     put_u16 device_selection @ put_u16 transport_layer_proto @ take 6 dest_endpoint"

definition init_passive_sess :: "PassiveSessParaIP \<Rightarrow> u16 \<Rightarrow> nat \<Rightarrow> BackendSession \<Rightarrow> BackendSession" where
  "init_passive_sess para new_sess_id n s =
     s\<lparr>bs_backend_sess_id := new_sess_id, bs_dev_id := uint (pp_dev_id para),
       bs_ip_version := uint (pp_ip_version para), bs_sock_fd := pp_fd para, bs_eng := True,
       bs_state_f2b := bs_state_f2b s AND BACKEND_SESS_LINKED_TO_QUEUE,
       bs_state_b2f := bs_state_b2f s AND BACKEND_SESS_LINKED_TO_QUEUE,
       bs_establish_mode := SESS_ESTABLISH_PASSIVE, bs_proto_type := uint (pp_trans_proto para),
       bs_sess_dev_link_state := bs_sess_dev_link_state s AND NOT BACKEND_SESS_LINKED_TO_DEV_NODE,
       bs_sess_node := Some n\<rparr>"

text \<open>
  The pointer arguments are checked, so they are present.  The session is linked to its device
  but never enters the table, and \<open>*sess\<close> is never stored.
\<close>

definition high_speed_create_sess_passive ::
  "sess_oracle \<Rightarrow> PassiveSessParaIP option \<Rightarrow> bool \<Rightarrow> backend \<Rightarrow> (int \<times> backend) option" where
  "high_speed_create_sess_passive orc para_ptr has_sess st =
     (if \<not> sp_engine (st_pool st) \<or> \<not> be_ops (st_eng st) \<or> \<not> sp_ops (st_pool st)
      then Some (BACKEND_PROXY_PROCESS_ERROR, st)
      else case para_ptr of
        None \<Rightarrow> Some (BACKEND_PROXY_PROCESS_ERROR, st)
      | Some para \<Rightarrow>
          if \<not> has_sess \<or> pp_ip_version para \<noteq> SESS_IPV4_PROTO \<or> unat (pp_dev_id para) \<ge> MAX_HS_DEV_NUM
          then Some (BACKEND_PROXY_PROCESS_ERROR, st)
          else
            let dev_id = unat (pp_dev_id para);
                release = (\<lambda>i st. if i \<noteq> 0 then set_ids (release_id (sp_id_queue (st_pool st)) i) st
                                  else st)
            in (case so_malloc orc of
              None \<Rightarrow> Some (BACKEND_PROXY_PROCESS_ERROR, release (so_uninit_id orc) st)
            | Some (p, mem0) \<Rightarrow>
                let (new_sess_id, ids) = allocate_id (sp_id_queue (st_pool st));
                    st1 = set_ids ids (put_sess p mem0 st)
                in if new_sess_id = 0 then Some (BACKEND_PROXY_PROCESS_ERROR, free_sess p st1)
                   else
                     let (node, dev1) = HIGH_SPEED_NET_DEV_POP_FREE_SESSION_NODE (get_dev dev_id st1);
                         st2 = put_dev dev_id dev1 st1
                     in (case node of
                       None \<Rightarrow> Some (BACKEND_PROXY_PROCESS_ERROR, free_sess p (release new_sess_id st2))
                     | Some n \<Rightarrow>
                         let s1 = init_passive_sess para new_sess_id n mem0;
                             (ret, dev2, s2) = HIGH_SPEED_NET_DEV_INSERT_SESSION_NODE dev1 n (Some s1)
                                                 (bs_proto_type s1);
                             st3 = put_dev dev_id dev2 (put_node n (Some p) (put_sess p (the s2) st2))
                         in if ret = BACKEND_PROXY_PROCESS_ERROR
                            then
                              let st4 = release new_sess_id st3
                              in if bs_sess_dev_link_state (the s2) AND BACKEND_SESS_LINKED_TO_DEV_NODE \<noteq> 0
                                 then do { st5 \<leftarrow> recycle_sess_node dev_id n p st4;
                                           Some (BACKEND_PROXY_PROCESS_ERROR, free_sess p st5) }
                                 else Some (BACKEND_PROXY_PROCESS_ERROR, free_sess p
                                        (put_dev dev_id (HIGH_SPEED_NET_DEV_PUSH_FREE_SESSION_NODE dev2 (Some n))
                                           (put_node n None st4)))
                            else
                              map_option (\<lambda>(ret, t, _, _). (ret, put_tx (the t) st3))
                                (build_proxy_general_message (Some (be_tx (st_eng st3)))
                                   (Some (passive_create_header new_sess_id (pp_ip_version para)))
                                   (Some (SessIPv4Params_bytes (word_of_int (bs_dev_id (the s2)))
                                            (pp_trans_proto para) (pp_ip_port_tuple para)))
                                   10 True MEMORY_ALLOC_AMPQUEUE True None))))"


section \<open>Deletion\<close>

definition recycle_on_delete :: "nat \<Rightarrow> backend \<Rightarrow> backend option" where
  "recycle_on_delete p st =
     (case st_sess st p of
        None \<Rightarrow> None
      | Some s \<Rightarrow>
          if bs_dev_id s < 0 \<or> bs_dev_id s \<ge> int MAX_HS_DEV_NUM then Some st
          else if bs_sess_dev_link_state s AND BACKEND_SESS_LINKED_TO_DEV_NODE = 0 then Some st
          else
            (case bs_sess_node s of
               None \<Rightarrow> None
             | Some n \<Rightarrow>
                 (case st_node st n of
                    Some (Some p') \<Rightarrow>
                      (case st_sess st p' of
                         None \<Rightarrow> None
                       | Some s' \<Rightarrow>
                           let i = nat (bs_dev_id s);
                               (dev1, s1) = HIGH_SPEED_NET_DEV_REMOVE_SESSION_NODE (get_dev i st) n
                                              (Some s') (bs_proto_type s');
                               dev2 = HIGH_SPEED_NET_DEV_PUSH_FREE_SESSION_NODE dev1 (Some n)
                           in Some (put_dev i dev2 (put_node n None (put_sess p' (the s1) st))))
                  | _ \<Rightarrow> None)))"

definition high_speed_delete_sess ::
  "bool \<Rightarrow> nat option \<Rightarrow> backend \<Rightarrow> (int \<times> backend) option" where
  "high_speed_delete_sess epoll_del_ok sess st =
     (case sess of
        None \<Rightarrow> Some (BACKEND_PROXY_PROCESS_ERROR, st)
      | Some p \<Rightarrow>
          if \<not> sp_engine (st_pool st) then Some (BACKEND_PROXY_PROCESS_ERROR, st)
          else do {
            (_, st1) \<leftarrow> BACKEND_SESS_UNREGISTER_EPOLL epoll_del_ok p st;
            s \<leftarrow> st_sess st1 p;
            let st2 = emit (Ev_close (bs_sock_fd s)) st1;
            let st3 = st2\<lparr>st_pool := dec_sess_num ((st_pool st2)
                            \<lparr>sp_htable := hash_del (sp_htable (st_pool st2)) p\<rparr>)\<rparr>;
            st4 \<leftarrow> BACKEND_SESS_UNLINK_FROM_QUEUE p F2B st3;
            st5 \<leftarrow> BACKEND_SESS_UNLINK_FROM_QUEUE p B2F st4;
            s5 \<leftarrow> st_sess st5 p;
            let st6 = put_sess p (s5\<lparr>bs_msg_f2b := fst (sess_msg_queue_free_all (bs_msg_f2b s5)),
                                     bs_msg_b2f := fst (sess_msg_queue_free_all (bs_msg_b2f s5))\<rparr>) st5;
            let st7 = set_ids (release_id (sp_id_queue (st_pool st6)) (bs_backend_sess_id s)) st6;
            st8 \<leftarrow> recycle_on_delete p st7;
            (_, st9) \<leftarrow> send_standalone_response (bs_frontend_sess_id s) (bs_backend_sess_id s)
               (word_of_int (bs_ip_version s)) SESS_MSG_CLOSE success_resp (free_sess p st8);
            Some (BACKEND_PROXY_PROCESS_OK, st9) })"

end
