(* ===== verification/Session_Lemmas.thy ===== *)
theory Session_Lemmas
  imports Session_Pool "HOL-Library.Multiset"
begin

text \<open>
  The pool invariant and what creation, deletion and the error paths do to it; the session
  table as an instance of the keyed-table interface.
\<close>

section \<open>The session table is a keyed table\<close>

definition htable_inv :: "(u16 \<times> nat) list \<Rightarrow> bool" where
  "htable_inv tbl \<longleftrightarrow> distinct (map fst tbl) \<and> distinct (map snd tbl)"

definition hash_fresh :: "(u16 \<times> nat) list \<Rightarrow> u16 \<Rightarrow> nat \<Rightarrow> bool" where
  "hash_fresh tbl i p \<longleftrightarrow> i \<notin> fst ` set tbl \<and> p \<notin> snd ` set tbl"

text \<open>Search, then delete what was found: how the close handler uses the table.\<close>

definition hash_remove :: "(u16 \<times> nat) list \<Rightarrow> u16 \<Rightarrow> (u16 \<times> nat) list" where
  "hash_remove tbl i = (case hash_find tbl i of None \<Rightarrow> tbl | Some p \<Rightarrow> hash_del tbl p)"

lemma hash_find_in: "hash_find tbl i = Some p \<Longrightarrow> (i, p) \<in> set tbl"
  by (simp add: hash_find_def map_of_SomeD)

lemma htable_inv_unique:
  assumes "htable_inv tbl" "(i, p) \<in> set tbl" "(j, q) \<in> set tbl"
  shows "i = j \<longleftrightarrow> p = q"
proof -
  have f: "inj_on fst (set tbl)" "inj_on snd (set tbl)"
    using assms(1) by (auto simp: htable_inv_def distinct_map)
  then show ?thesis
    using inj_onD [OF f(1) _ assms(2,3)] inj_onD [OF f(2) _ assms(2,3)] by auto
qed

lemma hash_find_del:
  assumes "htable_inv tbl" "(i, p) \<in> set tbl"
  shows "hash_find (hash_del tbl p) j = (if j = i then None else hash_find tbl j)"
proof -
  have "snd e \<noteq> p \<longleftrightarrow> fst e \<noteq> i" if "e \<in> set tbl" for e
    using htable_inv_unique [OF assms(1), of "fst e" "snd e" i p] that assms(2) by auto
  then have "hash_del tbl p = filter (\<lambda>e. fst e \<noteq> i) tbl"
    unfolding hash_del_def by (intro filter_cong) auto
  moreover have "hash_find (filter (\<lambda>e. fst e \<noteq> i) tbl) j = (if j = i then None else hash_find tbl j)"
    unfolding hash_find_def by (induction tbl) auto
  ultimately show ?thesis by simp
qed

lemma htable_inv_del [intro]: "htable_inv tbl \<Longrightarrow> htable_inv (hash_del tbl p)"
  by (simp add: htable_inv_def hash_del_def distinct_map_filter)

lemma hash_find_none: "hash_find tbl i = None \<longleftrightarrow> i \<notin> fst ` set tbl"
  by (simp add: hash_find_def map_of_eq_None_iff)

lemma hash_find_add:
  "i \<notin> fst ` set tbl \<Longrightarrow> hash_find (hash_add tbl i p) j = (if j = i then Some p else hash_find tbl j)"
  using hash_find_none [of tbl i]
  by (auto simp: hash_find_def hash_add_def map_add_def split: option.splits)

interpretation ht: keyed_table htable_inv hash_find hash_fresh hash_add hash_remove
proof (unfold_locales, goal_cases)
  case (1 t k v)
  then show ?case by (auto simp: htable_inv_def hash_fresh_def hash_add_def)
next
  case (2 t k v k')
  then show ?case by (simp add: hash_fresh_def hash_find_add)
next
  case (3 t k v)
  then show ?case by (simp add: hash_find_none hash_fresh_def)
next
  case (4 t k)
  then show ?case by (auto simp: hash_remove_def split: option.splits)
next
  case (5 t k k')
  then show ?case
    using hash_find_del [OF 5 hash_find_in] by (auto simp: hash_remove_def split: option.splits)
qed


section \<open>The pool invariant\<close>

definition valid_id :: "u16 \<Rightarrow> bool" where
  "valid_id i \<longleftrightarrow> 1 \<le> i \<and> i \<le> 1024"

text \<open>
  Ids are either free or in use, never both; every table entry points to a live session that
  carries its id; the counter counts the entries.
\<close>

definition pool_inv :: "backend \<Rightarrow> bool" where
  "pool_inv st \<longleftrightarrow>
     (let pool = st_pool st in
      distinct (sp_id_queue pool) \<and> list_all valid_id (sp_id_queue pool) \<and>
      htable_inv (sp_htable pool) \<and>
      (\<forall>e \<in> set (sp_htable pool). valid_id (fst e) \<and> fst e \<notin> set (sp_id_queue pool) \<and>
         (case st_sess st (snd e) of None \<Rightarrow> False | Some s \<Rightarrow> bs_backend_sess_id s = fst e)) \<and>
      sp_sess_num pool = int (length (sp_htable pool)))"

lemma unat_id: "n \<in> set [1..<Suc 1024] \<Longrightarrow> unat (of_nat n :: u16) = n"
  by (simp add: unat_of_nat take_bit_nat_eq_self del: upt_Suc)

lemma fill_id_queue_valid: "list_all valid_id (fill_id_queue [])"
  using unat_id
  by (auto simp: fill_id_queue_def list_all_iff valid_id_def word_le_nat_alt simp del: upt_Suc)

lemma fill_id_queue_distinct: "distinct (fill_id_queue [])"
proof -
  have "inj_on (of_nat :: nat \<Rightarrow> u16) (set [1..<Suc 1024])"
    by (rule inj_on_inverseI [where g = unat]) (rule unat_id)
  then show ?thesis by (simp add: fill_id_queue_def distinct_map del: upt_Suc)
qed

lemma length_fill_id_queue: "length (fill_id_queue []) = 1024"
  by (simp add: fill_id_queue_def del: upt_Suc)

lemma pool_inv_init: "pool_inv (st\<lparr>st_pool := snd (high_speed_init_pool eng pool)\<rparr>)"
  by (simp add: pool_inv_def high_speed_init_pool_def fill_id_queue_valid fill_id_queue_distinct
      htable_inv_def)

lemma valid_id_nonzero: "valid_id i \<Longrightarrow> i \<noteq> 0"
  by (auto simp: valid_id_def)

lemma pool_inv_alloc:
  assumes "pool_inv st" "allocate_id (sp_id_queue (st_pool st)) = (i, rest)"
  shows "i = 0 \<and> sp_id_queue (st_pool st) = [] \<and> rest = []
    \<or> i \<noteq> 0 \<and> sp_id_queue (st_pool st) = i # rest \<and> i \<notin> set rest \<and> valid_id i
        \<and> i \<notin> fst ` set (sp_htable (st_pool st))"
  using assms by (cases "sp_id_queue (st_pool st)")
    (auto simp: allocate_id_def pool_inv_def Let_def dest: valid_id_nonzero)

text \<open>Only the pool and the table's sessions matter.\<close>

lemma pool_inv_cong:
  assumes "pool_inv st" "st_pool st' = st_pool st"
    and "\<And>p. p \<in> snd ` set (sp_htable (st_pool st)) \<Longrightarrow> st_sess st' p = st_sess st p"
  shows "pool_inv st'"
  using assms by (auto simp: pool_inv_def Let_def)


section \<open>Frames\<close>

lemmas state_upds = emit_def put_sess_def free_sess_def put_dev_def put_node_def put_tx_def
  set_ids_def emits_def

lemma st_sess_put [simp]:
  "st_sess (put_dev i d st) = st_sess st" "st_sess (put_node n q st) = st_sess st"
  "st_sess (put_tx t st) = st_sess st" "st_sess (set_ids ids st) = st_sess st"
  "st_sess (put_sess p s st) = (st_sess st)(p := Some s)"
  "st_sess (free_sess p st) = (st_sess st)(p := None)" "st_sess (emit e st) = st_sess st"
  by (simp_all add: state_upds)

lemma st_pool_put [simp]:
  "st_pool (put_dev i d st) = st_pool st" "st_pool (put_node n q st) = st_pool st"
  "st_pool (put_tx t st) = st_pool st" "st_pool (put_sess p s st) = st_pool st"
  "st_pool (set_ids ids st) = (st_pool st)\<lparr>sp_id_queue := ids\<rparr>"
  "st_pool (free_sess p st) = st_pool st" "st_pool (emit e st) = st_pool st"
  by (simp_all add: state_upds)

lemma be_tx_put [simp]:
  "be_tx (st_eng (put_dev i d st)) = be_tx (st_eng st)" "st_eng (put_node n q st) = st_eng st"
  "be_tx (st_eng (put_tx t st)) = t" "st_eng (put_sess p s st) = st_eng st"
  "st_eng (set_ids ids st) = st_eng st" "st_eng (free_sess p st) = st_eng st"
  "st_eng (emit e st) = st_eng st"
  by (simp_all add: state_upds)

lemma choose_hs_net_dev_frame:
  assumes "choose_hs_net_dev st = Some (r, d, st')"
  shows "\<exists>l. st' = st\<lparr>st_last_pos := l\<rparr>"
proof -
  let ?sel = "unat (be_selector_id (st_eng st))"
  have same: "\<exists>l. st = st\<lparr>st_last_pos := l\<rparr>" by (rule exI [of _ "st_last_pos st"]) simp
  have rr: "\<exists>l. snd (snd (choose_dev_round_robin st)) = st\<lparr>st_last_pos := l\<rparr>"
    using same by (auto simp: choose_dev_round_robin_def Let_def split: prod.splits option.splits)
  have "?sel < 3" and st': "st' = snd (snd ((hs_dev_sel ! ?sel) st))"
    using assms by (auto simp: choose_hs_net_dev_def Let_def HS_DEV_SELECTOR_NUM_def not_le
        split: if_splits prod.splits)
  then show ?thesis
    unfolding st' using same rr by (auto simp: hs_dev_sel_def less_Suc_eq numeral_3_eq_3
        choose_dev_latency_first_def choose_dev_throughput_first_def)
qed

text \<open>Opening a session changes the id queue, the trace and the selector position only.\<close>

definition same_but_ids :: "u16 list \<Rightarrow> backend \<Rightarrow> backend \<Rightarrow> bool" where
  "same_but_ids ids st st' \<longleftrightarrow> st_eng st' = st_eng st \<and> st_sess st' = st_sess st \<and>
     st_node st' = st_node st \<and> st_pool st' = (st_pool st)\<lparr>sp_id_queue := ids\<rparr>"

lemma same_but_ids_intros [simp]:
  "same_but_ids ids st (set_ids ids st)"
  "same_but_ids ids st (emits ev st1) = same_but_ids ids st st1"
  "same_but_ids ids st (st1\<lparr>st_last_pos := l\<rparr>) = same_but_ids ids st st1"
  by (simp_all add: same_but_ids_def set_ids_def emits_def)

definition opened_id :: "(SessOpRespData \<times> u16 \<times> int) + (u16 \<times> u16 \<times> int) \<Rightarrow> u16" where
  "opened_id r = (case r of Inl (_, i, _) \<Rightarrow> i | Inr (_, i, _) \<Rightarrow> i)"

lemma opened_id_simps [simp]: "opened_id (Inl (r, i, f)) = i" "opened_id (Inr (d, i, f)) = i"
  by (simp_all add: opened_id_def)

lemma open_session_frame:
  assumes "open_session c r orc para st = Some (res, st')"
    and "allocate_id (sp_id_queue (st_pool st)) = (i, ids)"
  shows "same_but_ids ids st st' \<and> opened_id res = i \<and> (case res of Inl _ \<Rightarrow> True | Inr _ \<Rightarrow> i \<noteq> 0)"
proof -
  have ch: "same_but_ids ids st st2" if "choose_hs_net_dev (set_ids ids st) = Some (x, y, st2)" for x y st2
    using choose_hs_net_dev_frame [OF that] by auto
  show ?thesis
    using assms ch unfolding open_session_def Let_def
    by (auto split: if_splits prod.splits option.splits bind_splits)
qed


section \<open>The error path\<close>

text \<open>What the error label leaves: session freed, id at the end of the queue, descriptor closed.\<close>

definition given_up :: "nat option \<Rightarrow> u16 \<Rightarrow> int \<Rightarrow> backend \<Rightarrow> backend" where
  "given_up np i fd st =
     (let st1 = (case np of None \<Rightarrow> st | Some p \<Rightarrow> free_sess p st);
          st2 = (if i \<noteq> 0 then set_ids (sp_id_queue (st_pool st1) @ [i]) st1 else st1)
      in if fd \<noteq> ERROR_SOCKET_FD then emit (Ev_close fd) st2 else st2)"

lemma given_up_simps [simp]:
  "st_eng (given_up np i fd st) = st_eng st"
  "st_node (given_up np i fd st) = st_node st"
  "st_sess (given_up np i fd st) = (case np of None \<Rightarrow> st_sess st | Some p \<Rightarrow> (st_sess st)(p := None))"
  "st_pool (given_up np i fd st) = (if i = 0 then st_pool st
     else (st_pool st)\<lparr>sp_id_queue := sp_id_queue (st_pool st) @ [i]\<rparr>)"
  "st_trace (given_up np i fd st) = st_trace st @ (if fd = ERROR_SOCKET_FD then [] else [Ev_close fd])"
  by (auto simp: given_up_def Let_def state_upds split: option.splits)

lemma create_sess_error_spec:
  assumes "tx_ok cap bs (be_tx (st_eng st))"
  shows "\<exists>t. create_sess_error para resp np i fd st
      = Some (BACKEND_PROXY_PROCESS_ERROR, given_up np i fd (put_tx t st))
    \<and> tx_ok cap bs t
    \<and> (if tx_room cap (be_tx (st_eng st))
       then \<exists>pad. tx_blocks t = tx_blocks (be_tx (st_eng st)) @
              [sess_response_bytes (sm_frontend_sess_id para) BACKEND_HANDOVER_SESSION_ID
                 (sm_ip_version para) SESS_MSG_CREATE resp @ pad]
       else tx_blocks t = tx_blocks (be_tx (st_eng st)))"
  using send_standalone_response_spec [OF assms, of SESS_MSG_CREATE "sm_frontend_sess_id para"
      "sm_ip_version para" resp BACKEND_HANDOVER_SESSION_ID]
  unfolding sends_def create_sess_error_def
  by (auto simp: IS_VALID_SESS_MSG_TYPE_def given_up_def release_id_def Let_def)

lemma pool_inv_rotate:
  assumes "pool_inv st" "allocate_id (sp_id_queue (st_pool st)) = (i, ids)"
    and "st_pool st' = (if i = 0 then st_pool st else (st_pool st)\<lparr>sp_id_queue := ids @ [i]\<rparr>)"
    and "\<And>p. p \<in> snd ` set (sp_htable (st_pool st)) \<Longrightarrow> st_sess st' p = st_sess st p"
  shows "pool_inv st'"
  using pool_inv_alloc [OF assms(1,2)] assms(1,3,4) by (auto simp: pool_inv_def Let_def)

text \<open>Live table entries are allocated; a pointer fresh from \<open>malloc\<close> is none of them.\<close>

lemma pool_inv_fresh:
  "pool_inv st \<Longrightarrow> st_sess st p = None \<Longrightarrow> p \<notin> snd ` set (sp_htable (st_pool st))"
  by (auto simp: pool_inv_def Let_def split: option.splits)

text \<open>
  C14.  A creation that cannot open its connection changes nothing but the order of the free
  ids.  If the id queue is empty, no device can be chosen, the namespace, the socket or the
  connection fails, then the active creation returns an error, the session memory is freed,
  the table is as before, the allocated id is back at the end of the free queue, an opened
  descriptor is closed, the pool invariant still holds, and when the transmit queue has room
  the frontend is sent a create response for its id.
\<close>

theorem create_active_failure_restores_pool:
  assumes "pool_inv st" "tx_ok cap bs (be_tx (st_eng st))"
    and "sp_engine (st_pool st)" "be_ops (st_eng st)" "sp_ops (st_pool st)"
    and "so_malloc orc = Some (p, mem0)" "st_sess st p = None"
    and "open_session True \<lparr>ro_status = SESS_OP_CODE_NETWORK_UNREACHABLE, ro_code = so_uninit_code orc\<rparr>
           orc para (put_sess p mem0 st) = Some (Inl (resp, i, fd), st1)"
  shows "\<exists>st'. high_speed_create_sess_active orc para st = Some (BACKEND_PROXY_PROCESS_ERROR, None, st')
    \<and> pool_inv st' \<and> st_sess st' = st_sess st
    \<and> sp_htable (st_pool st') = sp_htable (st_pool st)
    \<and> mset (sp_id_queue (st_pool st')) = mset (sp_id_queue (st_pool st))
    \<and> (fd \<noteq> ERROR_SOCKET_FD \<longrightarrow> last (st_trace st') = Ev_close fd)
    \<and> (tx_room cap (be_tx (st_eng st)) \<longrightarrow> (\<exists>pad. tx_blocks (be_tx (st_eng st')) =
         tx_blocks (be_tx (st_eng st)) @ [sess_response_bytes (sm_frontend_sess_id para)
           BACKEND_HANDOVER_SESSION_ID (sm_ip_version para) SESS_MSG_CREATE resp @ pad]))"
proof -
  obtain ids where al: "allocate_id (sp_id_queue (st_pool st)) = (fst (allocate_id (sp_id_queue (st_pool st))), ids)"
    by (metis prod.collapse)
  have al': "allocate_id (sp_id_queue (st_pool (put_sess p mem0 st)))
      = (fst (allocate_id (sp_id_queue (st_pool st))), ids)"
    using al by (simp add: put_sess_def)
  from open_session_frame [OF assms(8) al'] have i: "fst (allocate_id (sp_id_queue (st_pool st))) = i"
    and F: "same_but_ids ids (put_sess p mem0 st) st1" by auto
  have F': "st_eng st1 = st_eng st" "st_sess st1 = (st_sess st)(p := Some mem0)"
      "st_pool st1 = (st_pool st)\<lparr>sp_id_queue := ids\<rparr>"
    using F by (auto simp: same_but_ids_def put_sess_def)
  have al2: "allocate_id (sp_id_queue (st_pool st)) = (i, ids)" using al i by simp
  note A = pool_inv_alloc [OF assms(1) al2]
  have "tx_ok cap bs (be_tx (st_eng st1))" using assms(2) F' by simp
  from create_sess_error_spec [OF this, of para resp "Some p" i fd] obtain t where
    T: "create_sess_error para resp (Some p) i fd st1
        = Some (BACKEND_PROXY_PROCESS_ERROR, given_up (Some p) i fd (put_tx t st1))"
      "if tx_room cap (be_tx (st_eng st1))
       then \<exists>pad. tx_blocks t = tx_blocks (be_tx (st_eng st1)) @
              [sess_response_bytes (sm_frontend_sess_id para) BACKEND_HANDOVER_SESSION_ID
                 (sm_ip_version para) SESS_MSG_CREATE resp @ pad]
       else tx_blocks t = tx_blocks (be_tx (st_eng st1))"
    by blast
  let ?st' = "given_up (Some p) i fd (put_tx t st1)"
  have run: "high_speed_create_sess_active orc para st = Some (BACKEND_PROXY_PROCESS_ERROR, None, ?st')"
    using assms(3-6,8) T(1) by (simp add: high_speed_create_sess_active_def)
  have pool: "st_pool ?st' = (if i = 0 then st_pool st else (st_pool st)\<lparr>sp_id_queue := ids @ [i]\<rparr>)"
    using F' A by (auto simp: put_tx_def)
  have sess: "st_sess ?st' = st_sess st" using F' assms(7) by (auto simp: put_tx_def)
  have "pool_inv ?st'"
    by (rule pool_inv_rotate [OF assms(1) al2 pool]) (simp add: sess del: given_up_simps)
  moreover have "sp_htable (st_pool ?st') = sp_htable (st_pool st)" unfolding pool by simp
  moreover have "mset (sp_id_queue (st_pool ?st')) = mset (sp_id_queue (st_pool st))"
    unfolding pool using A by auto
  moreover have "fd \<noteq> ERROR_SOCKET_FD \<longrightarrow> last (st_trace ?st') = Ev_close fd" by simp
  moreover have "tx_room cap (be_tx (st_eng st)) \<longrightarrow> (\<exists>pad. tx_blocks (be_tx (st_eng ?st')) =
         tx_blocks (be_tx (st_eng st)) @ [sess_response_bytes (sm_frontend_sess_id para)
           BACKEND_HANDOVER_SESSION_ID (sm_ip_version para) SESS_MSG_CREATE resp @ pad])"
    using T(2) F' by (auto simp: put_tx_def)
  ultimately show ?thesis using run sess by blast
qed


section \<open>The successful path\<close>

text \<open>
  The state right before the answer is sent: the session is linked to node \<open>n\<close> of the device,
  registered with epoll and entered in the table.
\<close>

definition linked_sess :: "nat \<Rightarrow> BackendSession \<Rightarrow> BackendSession" where
  "linked_sess n s0 = s0\<lparr>bs_sess_node := Some n, bs_sess_dev_link_state :=
       (bs_sess_dev_link_state s0 AND NOT BACKEND_SESS_LINKED_TO_DEV_NODE) OR
       BACKEND_SESS_LINKED_TO_DEV_NODE,
     bs_nc_events := EPOLLIN, bs_nc_status := EPOLL_REG_STATUS_REGISTERED\<rparr>"

definition dev_with_node :: "int \<Rightarrow> nat \<Rightarrow> HighSpeedNetDevice \<Rightarrow> HighSpeedNetDevice" where
  "dev_with_node proto n d =
     (if proto = uint SESS_UDP_PROTO then d\<lparr>hd_udp_node_queue := hd_udp_node_queue d @ [n]\<rparr>
      else d\<lparr>hd_tcp_node_queue := hd_tcp_node_queue d @ [n]\<rparr>)"

definition entered :: "nat \<Rightarrow> nat \<Rightarrow> nat \<Rightarrow> BackendSession \<Rightarrow> HighSpeedNetDevice \<Rightarrow> backend \<Rightarrow> backend" where
  "entered dev p n s0 d st =
     (let st1 = emit (Ev_epoll_add (bs_nc_sock_fd s0) EPOLLIN p)
                  (put_sess p (linked_sess n s0)
                     (put_dev dev (dev_with_node (bs_proto_type s0) n d) (put_node n (Some p) st)))
      in st1\<lparr>st_pool := inc_sess_num ((st_pool st)
               \<lparr>sp_htable := hash_add (sp_htable (st_pool st)) (bs_backend_sess_id s0) p\<rparr>)\<rparr>)"

lemma entered_simps [simp]:
  "st_sess (entered dev p n s0 d st) = (st_sess st)(p := Some (linked_sess n s0))"
  "st_node (entered dev p n s0 d st) = (st_node st)(n := Some (Some p))"
  "st_pool (entered dev p n s0 d st) = inc_sess_num ((st_pool st)
     \<lparr>sp_htable := hash_add (sp_htable (st_pool st)) (bs_backend_sess_id s0) p\<rparr>)"
  "be_tx (st_eng (entered dev p n s0 d st)) = be_tx (st_eng st)"
  "get_dev dev (entered dev p n s0 d st) =
     (be_dev_set (st_eng st))[dev := dev_with_node (bs_proto_type s0) n d] ! dev"
  by (simp_all add: entered_def Let_def state_upds get_dev_def)

lemma bit_masks [simp]:
  "((w :: u8) AND NOT BACKEND_SESS_LINKED_TO_DEV_NODE) AND BACKEND_SESS_LINKED_TO_DEV_NODE = 0"
  "(((w :: u8) AND NOT BACKEND_SESS_LINKED_TO_DEV_NODE) OR BACKEND_SESS_LINKED_TO_DEV_NODE)
     AND BACKEND_SESS_LINKED_TO_DEV_NODE = BACKEND_SESS_LINKED_TO_DEV_NODE"
  by (auto simp: bit_eq_iff bit_and_iff bit_or_iff bit_not_iff)

text \<open>What is left of STEP 2 when node, epoll and table raise no objection: the answer.\<close>

lemma active_step2_answer:
  assumes "hd_free_node_queue (get_dev (unat dev_id) st) = n # free"
    and "st_sess st p = Some s0" "bs_nc_status s0 = EPOLL_REG_STATUS_UNREGISTERED"
    and "bs_proto_type s0 = uint SESS_UDP_PROTO \<or> bs_proto_type s0 = uint SESS_TCP_PROTO"
    and "so_epoll_ok orc" "hash_find (sp_htable (st_pool st)) (bs_backend_sess_id s0) = None"
    and "d = (get_dev (unat dev_id) st)\<lparr>hd_free_node_queue := free\<rparr>"
  shows "active_step2 orc para p dev_id i fd st = do {
      (ret, st5) \<leftarrow> send_session_response p SESS_MSG_CREATE success_resp
         (entered (unat dev_id) p n s0 d st);
      if ret \<noteq> BACKEND_PROXY_PROCESS_OK
      then do { st' \<leftarrow> recycle_sess_node (unat dev_id) n p st5;
                map_option (\<lambda>(ret, st'). (ret, None, st'))
                  (create_sess_error para \<lparr>ro_status = SESS_OP_CODE_RESOURCE_INSUFFICIENT,
                     ro_code = SESS_OP_CODE_SUCCESS\<rparr> (Some p) i fd st') }
      else Some (BACKEND_PROXY_PROCESS_OK, Some p, st5) }"
proof -
  let ?e = "entered (unat dev_id) p n s0 d st"
  let ?s1 = "s0\<lparr>bs_sess_dev_link_state := bs_sess_dev_link_state s0 AND NOT BACKEND_SESS_LINKED_TO_DEV_NODE,
                          bs_sess_node := Some n\<rparr>"
  have pop: "HIGH_SPEED_NET_DEV_POP_FREE_SESSION_NODE (get_dev (unat dev_id) st) = (Some n, d)"
    using assms(1,7) by (simp add: HIGH_SPEED_NET_DEV_POP_FREE_SESSION_NODE_def)
  have ins: "HIGH_SPEED_NET_DEV_INSERT_SESSION_NODE d n (Some ?s1) (bs_proto_type s0) =
      (BACKEND_PROXY_PROCESS_OK, dev_with_node (bs_proto_type s0) n d,
       Some (?s1\<lparr>bs_sess_dev_link_state :=
          (bs_sess_dev_link_state s0 AND NOT BACKEND_SESS_LINKED_TO_DEV_NODE) OR
          BACKEND_SESS_LINKED_TO_DEV_NODE\<rparr>))"
    using assms(4) by (auto simp: HIGH_SPEED_NET_DEV_INSERT_SESSION_NODE_def dev_with_node_def msg_codes)
  have reg: "BACKEND_SESS_REGISTER_EPOLL (so_epoll_ok orc) p EPOLLIN
      (put_dev (unat dev_id) (dev_with_node (bs_proto_type s0) n d) (put_node n (Some p)
        (put_sess p (s0\<lparr>bs_sess_node := Some n, bs_sess_dev_link_state :=
          (bs_sess_dev_link_state s0 AND NOT BACKEND_SESS_LINKED_TO_DEV_NODE) OR
          BACKEND_SESS_LINKED_TO_DEV_NODE\<rparr>) (put_dev (unat dev_id) d st))))
      = Some (BACKEND_PROXY_PROCESS_OK, ?e\<lparr>st_pool := st_pool st\<rparr>)"
    using assms(3,5)
    by (simp add: BACKEND_SESS_REGISTER_EPOLL_def state_upds entered_def linked_sess_def Let_def)
  have tab: "high_speed_insert_sess p (?e\<lparr>st_pool := st_pool st\<rparr>) = Some (BACKEND_PROXY_PROCESS_OK, ?e)"
    using assms(6)
    by (simp add: high_speed_insert_sess_def linked_sess_def entered_def Let_def emit_def put_sess_def
        put_dev_def put_node_def)
  show ?thesis
    using assms(2) unfolding active_step2_def pop
    by (simp add: ins reg tab Let_def)
qed


lemma pool_inv_add:
  assumes "pool_inv st" "sp_id_queue (st_pool st) = i # rest" "st_sess st p = None"
    and "st_pool st' = inc_sess_num ((st_pool st)
           \<lparr>sp_id_queue := rest, sp_htable := hash_add (sp_htable (st_pool st)) i p\<rparr>)"
    and "st_sess st' = (st_sess st)(p := Some s)" "bs_backend_sess_id s = i"
  shows "pool_inv st'"
proof -
  have I: "distinct (i # rest)" "list_all valid_id (i # rest)" "htable_inv (sp_htable (st_pool st))"
    and E: "\<And>e. e \<in> set (sp_htable (st_pool st)) \<Longrightarrow> valid_id (fst e) \<and> fst e \<noteq> i \<and> fst e \<notin> set rest \<and>
      (case st_sess st (snd e) of None \<Rightarrow> False | Some s \<Rightarrow> bs_backend_sess_id s = fst e)"
    and N: "sp_sess_num (st_pool st) = int (length (sp_htable (st_pool st)))"
    using assms(1,2) by (auto simp: pool_inv_def Let_def)
  have fresh: "hash_fresh (sp_htable (st_pool st)) i p"
    using E pool_inv_fresh [OF assms(1,3)] by (auto simp: hash_fresh_def)
  have "htable_inv (hash_add (sp_htable (st_pool st)) i p)" by (rule ht.inv_add [OF I(3) fresh])
  moreover have "snd e \<noteq> p" if "e \<in> set (sp_htable (st_pool st))" for e
    using fresh that by (auto simp: hash_fresh_def)
  ultimately show ?thesis
    using I E N unfolding pool_inv_def Let_def assms(4,5)
    by (auto simp: inc_sess_num_def hash_add_def assms(6))
qed

text \<open>Everything an active creation needs to reach its answer.\<close>

definition active_reaches_answer ::
  "sess_oracle \<Rightarrow> SessMsgPara \<Rightarrow> backend \<Rightarrow> nat \<Rightarrow> BackendSession \<Rightarrow> u16 \<Rightarrow> u16 \<Rightarrow> int \<Rightarrow> nat \<Rightarrow> nat list \<Rightarrow>
   backend \<Rightarrow> bool" where
  "active_reaches_answer orc para st p mem0 dev_id i fd n free st1 \<longleftrightarrow>
     pool_inv st \<and> sp_engine (st_pool st) \<and> be_ops (st_eng st) \<and> sp_ops (st_pool st) \<and>
     so_malloc orc = Some (p, mem0) \<and> st_sess st p = None \<and>
     open_session True \<lparr>ro_status = SESS_OP_CODE_NETWORK_UNREACHABLE, ro_code = so_uninit_code orc\<rparr>
       orc para (put_sess p mem0 st) = Some (Inr (dev_id, i, fd), st1) \<and>
     hd_free_node_queue (get_dev (unat dev_id) st) = n # free \<and>
     (sm_trans_proto para = SESS_UDP_PROTO \<or> sm_trans_proto para = SESS_TCP_PROTO) \<and> so_epoll_ok orc"

abbreviation active_sess :: "SessMsgPara \<Rightarrow> u16 \<Rightarrow> int \<Rightarrow> BackendSession \<Rightarrow> BackendSession" where
  "active_sess para i fd mem0 \<equiv> init_active_sess para i fd mem0"

lemma active_reaches_answerD:
  assumes "active_reaches_answer orc para st p mem0 dev_id i fd n free st1"
    and "st2 = put_sess p (active_sess para i fd mem0) st1"
    and "d = (get_dev (unat dev_id) st2)\<lparr>hd_free_node_queue := free\<rparr>"
  shows "st_eng st2 = st_eng st" "st_sess st2 = (st_sess st)(p := Some (active_sess para i fd mem0))"
    "sp_id_queue (st_pool st) = i # sp_id_queue (st_pool st2)" "i \<noteq> 0"
    "st_pool st2 = (st_pool st)\<lparr>sp_id_queue := sp_id_queue (st_pool st2)\<rparr>"
    "hash_find (sp_htable (st_pool st2)) i = None"
    "high_speed_create_sess_active orc para st = do {
      (ret, st5) \<leftarrow> send_session_response p SESS_MSG_CREATE success_resp
         (entered (unat dev_id) p n (active_sess para i fd mem0) d st2);
      if ret \<noteq> BACKEND_PROXY_PROCESS_OK
      then do { st' \<leftarrow> recycle_sess_node (unat dev_id) n p st5;
                map_option (\<lambda>(ret, st'). (ret, None, st'))
                  (create_sess_error para \<lparr>ro_status = SESS_OP_CODE_RESOURCE_INSUFFICIENT,
                     ro_code = SESS_OP_CODE_SUCCESS\<rparr> (Some p) i fd st') }
      else Some (BACKEND_PROXY_PROCESS_OK, Some p, st5) }"
proof -
  note A = assms(1) [unfolded active_reaches_answer_def]
  obtain j ids where al: "allocate_id (sp_id_queue (st_pool st)) = (j, ids)" by (metis surj_pair)
  then have "allocate_id (sp_id_queue (st_pool (put_sess p mem0 st))) = (j, ids)" by simp
  with open_session_frame A have F: "same_but_ids ids (put_sess p mem0 st) st1" "j = i" "i \<noteq> 0"
    by fastforce+
  from pool_inv_alloc [OF _ al] A F have ids: "sp_id_queue (st_pool st) = i # ids"
    "i \<notin> fst ` set (sp_htable (st_pool st))" by auto
  show "st_eng st2 = st_eng st" "st_sess st2 = (st_sess st)(p := Some (active_sess para i fd mem0))"
    "sp_id_queue (st_pool st) = i # sp_id_queue (st_pool st2)" "i \<noteq> 0"
    "st_pool st2 = (st_pool st)\<lparr>sp_id_queue := sp_id_queue (st_pool st2)\<rparr>"
    "hash_find (sp_htable (st_pool st2)) i = None"
    using F ids assms(2) by (auto simp: same_but_ids_def hash_find_none)
  have "active_step2 orc para p dev_id i fd st2 = do {
      (ret, st5) \<leftarrow> send_session_response p SESS_MSG_CREATE success_resp
         (entered (unat dev_id) p n (active_sess para i fd mem0) d st2);
      if ret \<noteq> BACKEND_PROXY_PROCESS_OK
      then do { st' \<leftarrow> recycle_sess_node (unat dev_id) n p st5;
                map_option (\<lambda>(ret, st'). (ret, None, st'))
                  (create_sess_error para \<lparr>ro_status = SESS_OP_CODE_RESOURCE_INSUFFICIENT,
                     ro_code = SESS_OP_CODE_SUCCESS\<rparr> (Some p) i fd st') }
      else Some (BACKEND_PROXY_PROCESS_OK, Some p, st5) }"
    using A F ids assms(2,3)
    by (intro active_step2_answer [where free = free])
      (auto simp: same_but_ids_def hash_find_none init_active_sess_def init_created_sess_def get_dev_def
        msg_codes)
  then show "high_speed_create_sess_active orc para st = do {
      (ret, st5) \<leftarrow> send_session_response p SESS_MSG_CREATE success_resp
         (entered (unat dev_id) p n (active_sess para i fd mem0) d st2);
      if ret \<noteq> BACKEND_PROXY_PROCESS_OK
      then do { st' \<leftarrow> recycle_sess_node (unat dev_id) n p st5;
                map_option (\<lambda>(ret, st'). (ret, None, st'))
                  (create_sess_error para \<lparr>ro_status = SESS_OP_CODE_RESOURCE_INSUFFICIENT,
                     ro_code = SESS_OP_CODE_SUCCESS\<rparr> (Some p) i fd st') }
      else Some (BACKEND_PROXY_PROCESS_OK, Some p, st5) }"
    using A assms(2) by (simp add: high_speed_create_sess_active_def)
qed


lemma linked_sess_simps [simp]:
  "bs_frontend_sess_id (linked_sess n s) = bs_frontend_sess_id s"
  "bs_backend_sess_id (linked_sess n s) = bs_backend_sess_id s"
  "bs_ip_version (linked_sess n s) = bs_ip_version s" "bs_eng (linked_sess n s) = bs_eng s"
  "bs_sock_fd (linked_sess n s) = bs_sock_fd s" "bs_proto_type (linked_sess n s) = bs_proto_type s"
  "bs_msg_f2b (linked_sess n s) = bs_msg_f2b s" "bs_msg_b2f (linked_sess n s) = bs_msg_b2f s"
  "bs_sess_node (linked_sess n s) = Some n"
  "bs_nc_status (linked_sess n s) = EPOLL_REG_STATUS_REGISTERED"
  "bs_sess_dev_link_state (linked_sess n s) =
     (bs_sess_dev_link_state s AND NOT BACKEND_SESS_LINKED_TO_DEV_NODE) OR BACKEND_SESS_LINKED_TO_DEV_NODE"
  by (simp_all add: linked_sess_def)

lemma active_sess_simps [simp]:
  "bs_frontend_sess_id (active_sess para i fd m) = sm_frontend_sess_id para"
  "bs_backend_sess_id (active_sess para i fd m) = i"
  "bs_ip_version (active_sess para i fd m) = uint (sm_ip_version para)"
  "bs_eng (active_sess para i fd m)" "bs_sock_fd (active_sess para i fd m) = fd"
  "bs_proto_type (active_sess para i fd m) = uint (sm_trans_proto para)"
  "bs_msg_f2b (active_sess para i fd m) = []" "bs_msg_b2f (active_sess para i fd m) = []"
  by (simp_all add: init_active_sess_def init_created_sess_def)

lemma create_active_spec:
  assumes "active_reaches_answer orc para st p mem0 dev_id i fd n free st1"
    and "tx_ok cap bs (be_tx (st_eng st))" "tx_room cap (be_tx (st_eng st))"
  shows "\<exists>st' s pad. high_speed_create_sess_active orc para st = Some (BACKEND_PROXY_PROCESS_OK, Some p, st')
    \<and> pool_inv st' \<and> sp_id_queue (st_pool st) = i # sp_id_queue (st_pool st')
    \<and> high_speed_search_sess st' = (high_speed_search_sess st)(i \<mapsto> p)
    \<and> st_sess st' p = Some s \<and> bs_frontend_sess_id s = sm_frontend_sess_id para
    \<and> bs_backend_sess_id s = i \<and> bs_sock_fd s = fd \<and> bs_proto_type s = uint (sm_trans_proto para)
    \<and> bs_msg_f2b s = [] \<and> bs_msg_b2f s = [] \<and> bs_sess_node s = Some n
    \<and> tx_blocks (be_tx (st_eng st')) = tx_blocks (be_tx (st_eng st)) @
        [sess_response_bytes (sm_frontend_sess_id para) i (sm_ip_version para) SESS_MSG_CREATE
           success_resp @ pad]"
proof -
  define st2 where "st2 = put_sess p (active_sess para i fd mem0) st1"
  define d where "d = (get_dev (unat dev_id) st2)\<lparr>hd_free_node_queue := free\<rparr>"
  note D = active_reaches_answerD [OF assms(1) st2_def d_def]
  let ?s0 = "active_sess para i fd mem0"
  let ?e = "entered (unat dev_id) p n ?s0 d st2"
  have ip: "word_of_int (uint (sm_ip_version para)) = sm_ip_version para" by simp
  have inv: "pool_inv st" "st_sess st p = None" using assms(1) by (auto simp: active_reaches_answer_def)
  have tx: "tx_ok cap bs (be_tx (st_eng ?e))" using assms(2) D(1) by simp
  have "sends cap bs (sess_response_bytes (sm_frontend_sess_id para) i (sm_ip_version para)
      SESS_MSG_CREATE success_resp) ?e (send_session_response p SESS_MSG_CREATE success_resp ?e)"
    using send_session_response_spec [OF tx, of p "linked_sess n ?s0" SESS_MSG_CREATE success_resp] ip
    by (simp add: IS_VALID_SESS_MSG_TYPE_def)
  then obtain t pad where T: "send_session_response p SESS_MSG_CREATE success_resp ?e
        = Some (BACKEND_PROXY_PROCESS_OK, put_tx t ?e)"
      "tx_blocks t = tx_blocks (be_tx (st_eng st)) @ [sess_response_bytes (sm_frontend_sess_id para) i
         (sm_ip_version para) SESS_MSG_CREATE success_resp @ pad]"
    using assms(3) D(1) unfolding sends_def by auto
  have run: "high_speed_create_sess_active orc para st
      = Some (BACKEND_PROXY_PROCESS_OK, Some p, put_tx t ?e)"
    unfolding D(7) T(1) by simp
  have pool: "st_pool (put_tx t ?e) = inc_sess_num ((st_pool st)\<lparr>sp_id_queue := sp_id_queue (st_pool st2),
      sp_htable := hash_add (sp_htable (st_pool st)) i p\<rparr>)"
    using D(5) by (simp, metis (no_types, lifting) BackendSessionPool.ext_inject BackendSessionPool.surjective
        BackendSessionPool.update_convs(8))
  have tbl: "sp_htable (st_pool st2) = sp_htable (st_pool st)"
    using D(5) by (metis BackendSessionPool.select_convs(9) BackendSessionPool.surjective
        BackendSessionPool.update_convs(8))
  have "pool_inv (put_tx t ?e)"
    by (rule pool_inv_add [OF inv(1) D(3) inv(2) pool, of "linked_sess n ?s0"]) (simp_all add: D(2))
  moreover have "high_speed_search_sess (put_tx t ?e) = (high_speed_search_sess st)(i \<mapsto> p)"
    using D(6) unfolding tbl
    by (intro ext) (simp add: high_speed_search_sess_def pool inc_sess_num_def hash_find_none
        hash_find_add del: st_pool_put)
  moreover have "sp_id_queue (st_pool st) = i # sp_id_queue (st_pool (put_tx t ?e))"
    using D(3) unfolding pool by (simp add: inc_sess_num_def)
  ultimately show ?thesis using run T(2) by (fastforce simp: D(2))
qed

text \<open>
  A successful active creation establishes the session.  When the connection is opened,
  the device has a free session node, epoll accepts the descriptor and the transmit queue has
  room, the creation returns OK and the session pointer; the session is found under the id
  taken from the head of the free queue, no other lookup changes, the session carries the
  frontend's id, the transport and the connected descriptor with empty message queues, the pool
  invariant holds, and the newest block of the transmit queue is the create response with both
  ids and success.
\<close>

lemma create_active_establishes_session:
  assumes "active_reaches_answer orc para st p mem0 dev_id i fd n free st1"
    and "tx_ok cap bs (be_tx (st_eng st))" "tx_room cap (be_tx (st_eng st))"
  shows "\<exists>st' s pad. high_speed_create_sess_active orc para st = Some (BACKEND_PROXY_PROCESS_OK, Some p, st')
    \<and> pool_inv st' \<and> sp_id_queue (st_pool st) = i # sp_id_queue (st_pool st')
    \<and> high_speed_search_sess st' = (high_speed_search_sess st)(i \<mapsto> p)
    \<and> st_sess st' p = Some s \<and> bs_frontend_sess_id s = sm_frontend_sess_id para
    \<and> bs_backend_sess_id s = i \<and> bs_sock_fd s = fd \<and> bs_proto_type s = uint (sm_trans_proto para)
    \<and> bs_msg_f2b s = [] \<and> bs_msg_b2f s = [] \<and> bs_sess_node s = Some n
    \<and> tx_blocks (be_tx (st_eng st')) = tx_blocks (be_tx (st_eng st)) @
        [sess_response_bytes (sm_frontend_sess_id para) i (sm_ip_version para) SESS_MSG_CREATE
           success_resp @ pad]"
  using assms by (rule create_active_spec)


lemma pool_inv_search:
  "pool_inv st \<Longrightarrow> high_speed_search_sess st i = Some p \<Longrightarrow>
   \<exists>s. st_sess st p = Some s \<and> bs_backend_sess_id s = i"
  using hash_find_in [of "sp_htable (st_pool st)" i p]
  by (fastforce simp: pool_inv_def Let_def high_speed_search_sess_def split: option.splits)

lemma recycle_sess_node_frame:
  assumes "st_sess st p = Some s"
  shows "\<exists>st'. recycle_sess_node dev n p st = Some st' \<and> st_pool st' = st_pool st
    \<and> be_tx (st_eng st') = be_tx (st_eng st) \<and> (\<exists>s'. st_sess st' = (st_sess st)(p := Some s'))
    \<and> st_trace st' = st_trace st"
proof -
  obtain d1 s1 where "HIGH_SPEED_NET_DEV_REMOVE_SESSION_NODE (get_dev dev st) n (Some s) (bs_proto_type s)
      = (d1, s1)" by (metis surj_pair)
  then show ?thesis using assms by (auto simp: recycle_sess_node_def state_upds)
qed

text \<open>
  A creation whose answer finds the transmit queue full leaves a dangling session.  The
  active creation then returns an error and frees the session, but the table still maps the id
  to the freed memory, the id is also back in the free queue, the counter is off by one and the
  descriptor's epoll registration is not undone: the pool invariant is broken.
\<close>

lemma create_active_full_queue_dangles:
  assumes "active_reaches_answer orc para st p mem0 dev_id i fd n free st1"
    and "tx_ok cap bs (be_tx (st_eng st))" "\<not> tx_room cap (be_tx (st_eng st))"
  shows "\<exists>st'. high_speed_create_sess_active orc para st = Some (BACKEND_PROXY_PROCESS_ERROR, None, st')
    \<and> st_sess st' p = None \<and> high_speed_search_sess st' i = Some p
    \<and> i \<in> set (sp_id_queue (st_pool st'))
    \<and> sp_sess_num (st_pool st') = sp_sess_num (st_pool st) + 1 \<and> \<not> pool_inv st'"
proof -
  define st2 where "st2 = put_sess p (active_sess para i fd mem0) st1"
  define d where "d = (get_dev (unat dev_id) st2)\<lparr>hd_free_node_queue := free\<rparr>"
  note D = active_reaches_answerD [OF assms(1) st2_def d_def]
  let ?s0 = "active_sess para i fd mem0"
  let ?e = "entered (unat dev_id) p n ?s0 d st2"
  let ?bad = "\<lparr>ro_status = SESS_OP_CODE_RESOURCE_INSUFFICIENT, ro_code = SESS_OP_CODE_SUCCESS\<rparr>"
  have tx: "tx_ok cap bs (be_tx (st_eng ?e))" using assms(2) D(1) by simp
  have "sends cap bs (sess_response_bytes (sm_frontend_sess_id para) i (sm_ip_version para)
      SESS_MSG_CREATE success_resp) ?e (send_session_response p SESS_MSG_CREATE success_resp ?e)"
    using send_session_response_spec [OF tx, of p "linked_sess n ?s0" SESS_MSG_CREATE success_resp]
    by (simp add: IS_VALID_SESS_MSG_TYPE_def)
  then obtain t where T: "send_session_response p SESS_MSG_CREATE success_resp ?e
        = Some (BACKEND_PROXY_PROCESS_ERROR, put_tx t ?e)" "tx_ok cap bs t"
    using assms(3) D(1) unfolding sends_def by auto
  obtain st3 where R: "recycle_sess_node (unat dev_id) n p (put_tx t ?e) = Some st3"
      "st_pool st3 = st_pool ?e" "be_tx (st_eng st3) = t"
    using recycle_sess_node_frame [of "put_tx t ?e" p "linked_sess n ?s0" "unat dev_id" n] by auto
  obtain t' where C: "create_sess_error para ?bad (Some p) i fd st3
      = Some (BACKEND_PROXY_PROCESS_ERROR, given_up (Some p) i fd (put_tx t' st3))"
    using create_sess_error_spec [of cap bs st3 para ?bad "Some p" i fd] T(2) R(3) by auto
  let ?st' = "given_up (Some p) i fd (put_tx t' st3)"
  have run: "high_speed_create_sess_active orc para st = Some (BACKEND_PROXY_PROCESS_ERROR, None, ?st')"
    unfolding D(7) T(1) using R(1) C by (simp add: proxy_codes)
  have tbl: "sp_htable (st_pool st2) = sp_htable (st_pool st)" "sp_sess_num (st_pool st2) = sp_sess_num (st_pool st)"
    using D(5) by (metis BackendSessionPool.select_convs(2,9) BackendSessionPool.surjective
        BackendSessionPool.update_convs(8))+
  have pool: "st_pool ?st' = (st_pool ?e)\<lparr>sp_id_queue := sp_id_queue (st_pool st2) @ [i]\<rparr>"
    using D(4) by (simp add: R(2) inc_sess_num_def)
  have find: "high_speed_search_sess ?st' i = Some p"
    using D(6) unfolding high_speed_search_sess_def pool
    by (simp add: inc_sess_num_def hash_find_none hash_find_add)
  then have "\<not> pool_inv ?st'"
    using pool_inv_search [of ?st' i p] by auto
  moreover have "sp_sess_num (st_pool ?st') = sp_sess_num (st_pool st) + 1"
    unfolding pool using tbl by (simp add: inc_sess_num_def)
  moreover have "i \<in> set (sp_id_queue (st_pool ?st'))" unfolding pool by simp
  moreover have "st_sess ?st' p = None" by simp
  ultimately show ?thesis using run find by blast
qed


section \<open>Deletion\<close>

definition queued :: "direction \<Rightarrow> BackendSession \<Rightarrow> backend \<Rightarrow> bool" where
  "queued dir s st \<longleftrightarrow> bs_eng s \<and> be_sess_pool (st_eng st) \<and>
     sess_state dir s AND BACKEND_SESS_LINKED_TO_QUEUE \<noteq> 0"

text \<open>Unlinking touches the session's link bit and one active queue.\<close>

lemma unlink_eq:
  assumes "st_sess st p = Some s"
  shows "BACKEND_SESS_UNLINK_FROM_QUEUE p dir st =
    Some (if queued dir s st
          then (put_sess p (set_sess_state dir (sess_state dir s AND NOT BACKEND_SESS_LINKED_TO_QUEUE) s) st)
               \<lparr>st_pool := set_pool_queue dir (remove1 p (pool_queue dir (st_pool st))) (st_pool st)\<rparr>
          else st)"
  using assms by (auto simp: BACKEND_SESS_UNLINK_FROM_QUEUE_def queued_def)

text \<open>The node of a linked session points back to it, so that it can be recycled.\<close>

definition node_ok :: "nat \<Rightarrow> backend \<Rightarrow> bool" where
  "node_ok p st \<longleftrightarrow>
     (case st_sess st p of None \<Rightarrow> False | Some s \<Rightarrow>
        (0 \<le> bs_dev_id s \<and> bs_dev_id s < int MAX_HS_DEV_NUM \<and>
         bs_sess_dev_link_state s AND BACKEND_SESS_LINKED_TO_DEV_NODE \<noteq> 0) \<longrightarrow>
        (case bs_sess_node s of None \<Rightarrow> False | Some n \<Rightarrow> st_node st n = Some (Some p)))"

lemma recycle_on_delete_frame:
  assumes "node_ok p st"
  shows "\<exists>st'. recycle_on_delete p st = Some st' \<and> st_pool st' = st_pool st
    \<and> be_tx (st_eng st') = be_tx (st_eng st) \<and> (\<exists>s'. st_sess st' = (st_sess st)(p := Some s'))
    \<and> st_trace st' = st_trace st"
proof -
  obtain s where s: "st_sess st p = Some s" using assms by (auto simp: node_ok_def split: option.splits)
  have id: "st_sess st = (st_sess st)(p := Some s)" using s by auto
  show ?thesis
  proof (cases "0 \<le> bs_dev_id s \<and> bs_dev_id s < int MAX_HS_DEV_NUM \<and>
         bs_sess_dev_link_state s AND BACKEND_SESS_LINKED_TO_DEV_NODE \<noteq> 0")
    case False
    then have "recycle_on_delete p st = Some st" using s by (auto simp: recycle_on_delete_def)
    with id show ?thesis by blast
  next
    case True
    then obtain n where n: "bs_sess_node s = Some n" "st_node st n = Some (Some p)"
      using assms s by (auto simp: node_ok_def split: option.splits)
    obtain d1 s1 where "HIGH_SPEED_NET_DEV_REMOVE_SESSION_NODE (get_dev (nat (bs_dev_id s)) st) n (Some s)
        (bs_proto_type s) = (d1, s1)" by (metis surj_pair)
    then show ?thesis using True s n by (auto simp: recycle_on_delete_def state_upds)
  qed
qed

lemma free_all_empties: "fst (sess_msg_queue_free_all q) = []"
  by (induction q rule: sess_msg_queue_free_all.induct) (auto simp: Let_def split: prod.splits)

text \<open>The state of a deletion after table, queues, messages and id were taken care of.\<close>

definition detached :: "nat \<Rightarrow> BackendSession \<Rightarrow> backend \<Rightarrow> BackendSession \<Rightarrow> backend \<Rightarrow> bool" where
  "detached p s st s' st' \<longleftrightarrow>
     st_sess st' = (st_sess st)(p := Some s') \<and> bs_dev_id s' = bs_dev_id s \<and>
     bs_sess_dev_link_state s' = bs_sess_dev_link_state s \<and> bs_sess_node s' = bs_sess_node s \<and>
     bs_msg_f2b s' = [] \<and> bs_msg_b2f s' = [] \<and>
     st_node st' = st_node st \<and> st_eng st' = st_eng st \<and>
     st_trace st' = st_trace st @ [Ev_epoll_del (bs_nc_sock_fd s), Ev_close (bs_sock_fd s)] \<and>
     st_pool st' = (st_pool st)
       \<lparr>sp_sess_num := sp_sess_num (st_pool st) - 1, sp_htable := hash_del (sp_htable (st_pool st)) p,
        sp_queue_f2b := (if queued F2B s st then remove1 p (sp_queue_f2b (st_pool st))
                         else sp_queue_f2b (st_pool st)),
        sp_queue_b2f := (if queued B2F s st then remove1 p (sp_queue_b2f (st_pool st))
                         else sp_queue_b2f (st_pool st)),
        sp_id_queue := sp_id_queue (st_pool st) @ [bs_backend_sess_id s]\<rparr>"

lemma delete_sess_detaches:
  assumes "st_sess st p = Some s" "sp_engine (st_pool st)"
  shows "\<exists>s' st'. detached p s st s' st' \<and> high_speed_delete_sess ok (Some p) st = do {
      st8 \<leftarrow> recycle_on_delete p st';
      (_, st9) \<leftarrow> send_standalone_response (bs_frontend_sess_id s) (bs_backend_sess_id s)
         (word_of_int (bs_ip_version s)) SESS_MSG_CLOSE success_resp (free_sess p st8);
      Some (BACKEND_PROXY_PROCESS_OK, st9) }"
proof -
  define s1 where "s1 = s\<lparr>bs_nc_status := EPOLL_REG_STATUS_UNREGISTERED\<rparr>"
  define st3 where "st3 = (emit (Ev_close (bs_sock_fd s1)) (put_sess p s1
      (emit (Ev_epoll_del (bs_nc_sock_fd s)) st)))
      \<lparr>st_pool := dec_sess_num ((st_pool st)\<lparr>sp_htable := hash_del (sp_htable (st_pool st)) p\<rparr>)\<rparr>"
  define s4 where "s4 = (if queued F2B s1 st3 then set_sess_state F2B
      (sess_state F2B s1 AND NOT BACKEND_SESS_LINKED_TO_QUEUE) s1 else s1)"
  define st4 where "st4 = (if queued F2B s1 st3 then (put_sess p s4 st3)
      \<lparr>st_pool := set_pool_queue F2B (remove1 p (pool_queue F2B (st_pool st3))) (st_pool st3)\<rparr> else st3)"
  define s5 where "s5 = (if queued B2F s4 st4 then set_sess_state B2F
      (sess_state B2F s4 AND NOT BACKEND_SESS_LINKED_TO_QUEUE) s4 else s4)"
  define st5 where "st5 = (if queued B2F s4 st4 then (put_sess p s5 st4)
      \<lparr>st_pool := set_pool_queue B2F (remove1 p (pool_queue B2F (st_pool st4))) (st_pool st4)\<rparr> else st4)"
  define s6 where "s6 = s5\<lparr>bs_msg_f2b := [], bs_msg_b2f := []\<rparr>"
  define st7 where "st7 = set_ids (sp_id_queue (st_pool st5) @ [bs_backend_sess_id s]) (put_sess p s6 st5)"
  have p3: "st_sess st3 p = Some s1" by (simp add: st3_def)
  have u4: "BACKEND_SESS_UNLINK_FROM_QUEUE p F2B st3 = Some st4"
    unfolding unlink_eq [OF p3] st4_def s4_def by simp
  have p4: "st_sess st4 p = Some s4" using p3 by (simp add: st4_def s4_def)
  have u5: "BACKEND_SESS_UNLINK_FROM_QUEUE p B2F st4 = Some st5"
    unfolding unlink_eq [OF p4] st5_def s5_def by simp
  have p5: "st_sess st5 p = Some s5" using p4 by (simp add: st5_def s5_def)
  have "high_speed_delete_sess ok (Some p) st = do {
      st8 \<leftarrow> recycle_on_delete p st7;
      (_, st9) \<leftarrow> send_standalone_response (bs_frontend_sess_id s) (bs_backend_sess_id s)
         (word_of_int (bs_ip_version s)) SESS_MSG_CLOSE success_resp (free_sess p st8);
      Some (BACKEND_PROXY_PROCESS_OK, st9) }"
    using assms unfolding high_speed_delete_sess_def BACKEND_SESS_UNREGISTER_EPOLL_def
    by (simp add: s1_def [symmetric] st3_def [symmetric, simplified] u4 u5 p5 free_all_empties
        release_id_def s6_def [symmetric]) (simp add: s1_def st7_def)
  moreover have "detached p s st s6 st7"
    by (auto simp: detached_def queued_def st7_def s6_def s5_def st5_def s4_def st4_def st3_def s1_def
        state_upds dec_sess_num_def)
  ultimately show ?thesis by blast
qed


lemma sendsD:
  "sends cap bs msg st res \<Longrightarrow> \<exists>r t. res = Some (r, put_tx t st) \<and>
     (tx_room cap (be_tx (st_eng st)) \<longrightarrow> (\<exists>pad. tx_blocks t = tx_blocks (be_tx (st_eng st)) @ [msg @ pad]))"
  by (cases "tx_room cap (be_tx (st_eng st))") (auto simp: sends_def)

lemma detached_pool_inv:
  assumes "pool_inv st" "high_speed_search_sess st i = Some p" "st_sess st p = Some s"
    and "detached p s st s' st'" "st_pool st'' = st_pool st'" "st_sess st'' = (st_sess st)(p := None)"
  shows "pool_inv st''" "high_speed_search_sess st'' = (high_speed_search_sess st)(i := None)"
proof -
  let ?tbl = "sp_htable (st_pool st)"
  have ip: "(i, p) \<in> set ?tbl" using assms(2) hash_find_in by (simp add: high_speed_search_sess_def)
  have I: "htable_inv ?tbl" "distinct (sp_id_queue (st_pool st))" "list_all valid_id (sp_id_queue (st_pool st))"
    "sp_sess_num (st_pool st) = int (length ?tbl)"
    and E0: "\<And>e. e \<in> set ?tbl \<Longrightarrow> valid_id (fst e) \<and> fst e \<notin> set (sp_id_queue (st_pool st)) \<and>
      (case st_sess st (snd e) of None \<Rightarrow> False | Some s \<Rightarrow> bs_backend_sess_id s = fst e)"
    using assms(1) by (auto simp: pool_inv_def Let_def)
  have E: "valid_id k \<and> k \<notin> set (sp_id_queue (st_pool st)) \<and>
      (case st_sess st q of None \<Rightarrow> False | Some s \<Rightarrow> bs_backend_sess_id s = k)"
    if "(k, q) \<in> set ?tbl" for k q
    using E0 [OF that] by (simp split: option.splits)
  have s: "bs_backend_sess_id s = i" using E [OF ip] assms(3) by simp
  have u: "k \<noteq> i" if "(k, q) \<in> set ?tbl" "q \<noteq> p" for k q
    using htable_inv_unique [OF I(1) that(1) ip] that(2) by auto
  have len: "length ?tbl = Suc (length (hash_del ?tbl p))"
  proof -
    have d: "distinct (map snd ?tbl)" using I(1) by (simp add: htable_inv_def)
    have *: "map snd (hash_del xs p) = removeAll p (map snd xs)" for xs :: "(u16 \<times> nat) list"
      unfolding hash_del_def by (induction xs) auto
    have "length (hash_del ?tbl p) = length (remove1 p (map snd ?tbl))"
      using arg_cong [OF * [of ?tbl], of length] distinct_remove1_removeAll [OF d, of p] by simp
    moreover have "p \<in> set (map snd ?tbl)" using ip by force
    ultimately have "length (hash_del ?tbl p) = length ?tbl - 1" by (simp add: length_remove1)
    then show ?thesis using ip by (cases ?tbl) auto
  qed
  have pool: "sp_id_queue (st_pool st'') = sp_id_queue (st_pool st) @ [i]"
    "sp_htable (st_pool st'') = hash_del ?tbl p" "sp_sess_num (st_pool st'') = sp_sess_num (st_pool st) - 1"
    using assms(4,5) s by (simp_all add: detached_def)
  have "valid_id k \<and> k \<notin> set (sp_id_queue (st_pool st) @ [i]) \<and>
      (case st_sess st'' q of None \<Rightarrow> False | Some s \<Rightarrow> bs_backend_sess_id s = k)"
    if "(k, q) \<in> set (hash_del ?tbl p)" for k q
    using E [of k q] u [of k q] that assms(6) by (auto simp: hash_del_def)
  then have entries: "\<forall>e \<in> set (hash_del ?tbl p). valid_id (fst e) \<and> fst e \<notin> set (sp_id_queue (st_pool st) @ [i]) \<and>
      (case st_sess st'' (snd e) of None \<Rightarrow> False | Some s \<Rightarrow> bs_backend_sess_id s = fst e)"
    by (metis prod.collapse)
  have "distinct (sp_id_queue (st_pool st) @ [i])" "list_all valid_id (sp_id_queue (st_pool st) @ [i])"
    using I(2,3) E [OF ip] by auto
  moreover have "sp_sess_num (st_pool st) - 1 = int (length (hash_del ?tbl p))" using I(4) len by simp
  ultimately show "pool_inv st''"
    unfolding pool_inv_def Let_def pool using entries htable_inv_del [OF I(1)] by blast
  show "high_speed_search_sess st'' = (high_speed_search_sess st)(i := None)"
    using hash_find_del [OF I(1) ip] assms(4,5)
    by (intro ext) (simp add: high_speed_search_sess_def detached_def)
qed

lemma delete_sess_spec:
  assumes "pool_inv st" "tx_ok cap bs (be_tx (st_eng st))" "sp_engine (st_pool st)"
    and "high_speed_search_sess st i = Some p" "st_sess st p = Some s" "node_ok p st"
  shows "\<exists>st'. high_speed_delete_sess ok (Some p) st = Some (BACKEND_PROXY_PROCESS_OK, st')
    \<and> pool_inv st' \<and> st_sess st' = (st_sess st)(p := None)
    \<and> high_speed_search_sess st' = (high_speed_search_sess st)(i := None)
    \<and> sp_id_queue (st_pool st') = sp_id_queue (st_pool st) @ [i]
    \<and> st_trace st' = st_trace st @ [Ev_epoll_del (bs_nc_sock_fd s), Ev_close (bs_sock_fd s)]
    \<and> (queued F2B s st \<longrightarrow> sp_queue_f2b (st_pool st') = remove1 p (sp_queue_f2b (st_pool st)))
    \<and> (queued B2F s st \<longrightarrow> sp_queue_b2f (st_pool st') = remove1 p (sp_queue_b2f (st_pool st)))
    \<and> (tx_room cap (be_tx (st_eng st)) \<longrightarrow> (\<exists>pad. tx_blocks (be_tx (st_eng st')) =
         tx_blocks (be_tx (st_eng st)) @ [sess_response_bytes (bs_frontend_sess_id s)
           BACKEND_HANDOVER_SESSION_ID (word_of_int (bs_ip_version s)) SESS_MSG_CLOSE success_resp @ pad]))"
proof -
  obtain s' st1 where D: "detached p s st s' st1"
    and run: "high_speed_delete_sess ok (Some p) st = do {
      st8 \<leftarrow> recycle_on_delete p st1;
      (_, st9) \<leftarrow> send_standalone_response (bs_frontend_sess_id s) (bs_backend_sess_id s)
         (word_of_int (bs_ip_version s)) SESS_MSG_CLOSE success_resp (free_sess p st8);
      Some (BACKEND_PROXY_PROCESS_OK, st9) }"
    using delete_sess_detaches [OF assms(5,3), of ok] by blast
  have "node_ok p st1" using assms(5,6) D by (auto simp: node_ok_def detached_def split: option.splits)
  from recycle_on_delete_frame [OF this] obtain st8 s8 where R: "recycle_on_delete p st1 = Some st8"
    "st_pool st8 = st_pool st1" "be_tx (st_eng st8) = be_tx (st_eng st)"
    "st_sess st8 = (st_sess st)(p := Some s8)" "st_trace st8 = st_trace st1"
    using D by (auto simp: detached_def)
  have "tx_ok cap bs (be_tx (st_eng (free_sess p st8)))" using assms(2) R(3) by simp
  from send_standalone_response_spec [OF this, of SESS_MSG_CLOSE "bs_frontend_sess_id s"
      "word_of_int (bs_ip_version s)" success_resp "bs_backend_sess_id s"]
  obtain r t where T: "send_standalone_response (bs_frontend_sess_id s) (bs_backend_sess_id s)
       (word_of_int (bs_ip_version s)) SESS_MSG_CLOSE success_resp (free_sess p st8)
       = Some (r, put_tx t (free_sess p st8))"
    "tx_room cap (be_tx (st_eng st)) \<longrightarrow> (\<exists>pad. tx_blocks t = tx_blocks (be_tx (st_eng st)) @
       [sess_response_bytes (bs_frontend_sess_id s) BACKEND_HANDOVER_SESSION_ID
          (word_of_int (bs_ip_version s)) SESS_MSG_CLOSE success_resp @ pad])"
    using R(3) sendsD by (fastforce simp: IS_VALID_SESS_MSG_TYPE_def)
  let ?st' = "put_tx t (free_sess p st8)"
  have fin: "high_speed_delete_sess ok (Some p) st = Some (BACKEND_PROXY_PROCESS_OK, ?st')"
    unfolding run using R(1) T(1) by simp
  have pool: "st_pool ?st' = st_pool st1" and sess: "st_sess ?st' = (st_sess st)(p := None)"
    using R by auto
  note P = detached_pool_inv [OF assms(1,4,5) D pool sess]
  have s: "bs_backend_sess_id s = i" using pool_inv_search [OF assms(1,4)] assms(5) by auto
  have "st_trace ?st' = st_trace st @ [Ev_epoll_del (bs_nc_sock_fd s), Ev_close (bs_sock_fd s)]"
    using R(5) D by (simp add: detached_def state_upds)
  moreover have "sp_id_queue (st_pool ?st') = sp_id_queue (st_pool st) @ [i]"
    "queued F2B s st \<longrightarrow> sp_queue_f2b (st_pool ?st') = remove1 p (sp_queue_f2b (st_pool st))"
    "queued B2F s st \<longrightarrow> sp_queue_b2f (st_pool ?st') = remove1 p (sp_queue_b2f (st_pool st))"
    using D s unfolding pool by (auto simp: detached_def)
  moreover have "tx_room cap (be_tx (st_eng st)) \<longrightarrow> (\<exists>pad. tx_blocks (be_tx (st_eng ?st')) =
         tx_blocks (be_tx (st_eng st)) @ [sess_response_bytes (bs_frontend_sess_id s)
           BACKEND_HANDOVER_SESSION_ID (word_of_int (bs_ip_version s)) SESS_MSG_CLOSE success_resp @ pad])"
    using T(2) by simp
  ultimately show ?thesis using fin P sess by blast
qed



section \<open>Ids of a fresh pool\<close>

fun allocate_ids :: "nat \<Rightarrow> u16 list \<Rightarrow> u16 list \<times> u16 list" where
  "allocate_ids 0 q = ([], q)"
| "allocate_ids (Suc n) q =
     (let (i, q1) = allocate_id q; (is, q2) = allocate_ids n q1 in (i # is, q2))"

lemma allocate_ids_take: "n \<le> length q \<Longrightarrow> allocate_ids n q = (take n q, drop n q)"
  by (induction n q rule: allocate_ids.induct)
    (auto simp: allocate_id_def neq_Nil_conv Suc_le_length_iff)



section \<open>Concrete sessions\<close>

definition sample_mem0 :: BackendSession where
  "sample_mem0 = \<lparr>bs_proto_type = 0, bs_dev_id = 0, bs_establish_mode = 0, bs_sock_fd = 0,
     bs_ip_version = 0, bs_frontend_sess_id = 0, bs_backend_sess_id = 0, bs_state_f2b = 0,
     bs_state_b2f = 0, bs_sess_dev_link_state = 0, bs_msg_f2b = [], bs_msg_b2f = [], bs_eng = False,
     bs_sess_node = None, bs_nc_sock_fd = 0, bs_nc_status = 0, bs_nc_events = 0\<rparr>"

definition sample_kernel :: "int \<Rightarrow> kernel" where
  "sample_kernel connect_result = \<lparr>kn_open_self = 3, kn_setns_dst = 0, kn_setns_back = 0,
     kn_socket = (\<lambda>_ _ _. 5), kn_connect = (\<lambda>_ _ _ _. connect_result)\<rparr>"

definition sample_oracle :: "int \<Rightarrow> sess_oracle" where
  "sample_oracle connect_result = \<lparr>so_malloc = Some (7, sample_mem0),
     so_kernel = sample_kernel connect_result, so_epoll_ok = True, so_epoll_del_ok = True,
     so_uninit_id = 0, so_uninit_code = 0\<rparr>"

definition sample_para :: SessMsgPara where
  "sample_para = \<lparr>sm_frontend_sess_id = 11, sm_backend_sess_id = 0, sm_dev_id = 1,
     sm_ip_version = SESS_IPV4_PROTO, sm_trans_proto = SESS_TCP_PROTO,
     sm_ip_port_tuple = [10, 0, 0, 2, 80, 0] @ replicate 12 0\<rparr>"

abbreviation sample_unreachable :: SessOpRespData where
  "sample_unreachable \<equiv> \<lparr>ro_status = SESS_OP_CODE_NETWORK_UNREACHABLE, ro_code = 0\<rparr>"

lemma sample_open:
  "map_option fst (open_session True sample_unreachable (sample_oracle 0) sample_para
     (put_sess 7 sample_mem0 sample_backend)) = Some (Inr (1, 1, 5))"
  by code_simp

lemma sample_open_fails:
  "map_option fst (open_session True sample_unreachable (sample_oracle 1) sample_para
     (put_sess 7 sample_mem0 sample_backend)) = Some (Inl (sample_unreachable, 1, 5))"
  by code_simp

lemma sample_pool_inv: "pool_inv sample_backend"
  by code_simp

lemma sample_tx_ok: "tx_ok 4 32 (be_tx (st_eng sample_backend))"
  by (simp add: tx_ok_def tx_ready_def sample_backend_def sample_engine_def sample_tx_env_def
      queue_inv_def sample_queue_def lock_is_free_def fits_def sizeof_tx_buf_def)

lemma sample_room: "tx_room 4 (be_tx (st_eng sample_backend))"
  by code_simp

lemma sample_reaches:
  "\<exists>st1. active_reaches_answer (sample_oracle 0) sample_para sample_backend 7 sample_mem0 1 1 5 100 [101] st1"
proof -
  obtain st1 where "open_session True sample_unreachable (sample_oracle 0) sample_para
     (put_sess 7 sample_mem0 sample_backend) = Some (Inr (1, 1, 5), st1)" using sample_open by auto
  then show ?thesis
    using sample_pool_inv by (intro exI [of _ st1]) (auto simp: active_reaches_answer_def sample_oracle_def
        sample_backend_def sample_engine_def get_dev_def sample_dev_def sample_para_def upto.simps)
qed

theorem create_active_failure_restores_pool_witness:
  "\<exists>st'. high_speed_create_sess_active (sample_oracle 1) sample_para sample_backend
      = Some (BACKEND_PROXY_PROCESS_ERROR, None, st')
    \<and> mset (sp_id_queue (st_pool st')) = {#1, 2, 3#} \<and> last (st_trace st') = Ev_close 5"
proof -
  obtain st1 where "open_session True sample_unreachable (sample_oracle 1) sample_para
     (put_sess 7 sample_mem0 sample_backend) = Some (Inl (sample_unreachable, 1, 5), st1)"
    using sample_open_fails by auto
  then show ?thesis
    using create_active_failure_restores_pool [OF sample_pool_inv sample_tx_ok, of "sample_oracle 1" 7 sample_mem0
        sample_para sample_unreachable 1 5 st1]
    by (fastforce simp: sample_backend_def sample_engine_def sample_oracle_def ERROR_SOCKET_FD_def)
qed

text \<open>A pool with one session under id 9, linked to node 100 of device 1.\<close>

definition one_session_backend :: backend where
  "one_session_backend = put_sess 7 (sample_mem0\<lparr>bs_backend_sess_id := 9, bs_frontend_sess_id := 11,
       bs_sock_fd := 5, bs_nc_sock_fd := 5, bs_dev_id := 1, bs_sess_dev_link_state := 1,
       bs_sess_node := Some 100, bs_eng := True, bs_state_f2b := 1\<rparr>)
     (put_node 100 (Some 7)
       (sample_backend\<lparr>st_pool := (st_pool sample_backend)
          \<lparr>sp_htable := [(9, 7)], sp_sess_num := 1, sp_queue_f2b := [7]\<rparr>\<rparr>))"


end
