(* ===== verification/Session_Data.thy ===== *)
theory Session_Data
  imports Session_Lemmas
begin

text \<open>
  Moving data through a session (\<open>src/src/session_pool.c\<close>, \<open>src/src/poller.c\<close>): from the
  frontend queue to the socket, from the socket to the backend queue, and from there to the
  HyperAMP transmit queue.
\<close>

section \<open>Frontend to socket\<close>

text \<open>
  The bytes a segment's data pointer leads to (\<open>None\<close>: NULL); a shared segment is read from
  memory.
\<close>

definition seg_bytes :: "mem \<Rightarrow> SessMsgSeg \<Rightarrow> bytes option" where
  "seg_bytes m seg =
     (case sg_data seg of
        Own_buffer b \<Rightarrow> Some b
      | Shared_buffer a \<Rightarrow> if a = 0 then None else Some (read_bytes m a (unat (sg_len seg))))"

text \<open>
  \<open>send_res k d\<close> is the result of the \<open>k\<close>-th \<open>send\<close> with the bytes \<open>d\<close>; the event records the
  bytes the kernel accepted.  The loop gives its code, the segments left and the events.
\<close>

fun f2b_loop ::
  "(nat \<Rightarrow> bytes \<Rightarrow> int) \<Rightarrow> mem \<Rightarrow> int \<Rightarrow> nat \<Rightarrow> int \<Rightarrow> SessMsgSeg list \<Rightarrow>
   int \<times> SessMsgSeg list \<times> sys_event list" where
  "f2b_loop send_res m fd k buf_size [] = (BACKEND_PROXY_PROCESS_OK, [], [])"
| "f2b_loop send_res m fd k buf_size (seg # segs) =
     (case seg_bytes m seg of
        Some data \<Rightarrow>
          if sg_len seg > 0 then
            if buf_size > int (unat (sg_len seg)) then
              let d = take (unat (sg_len seg)) data;
                  ret = send_res k d
              in if ret = -1 then (BACKEND_PROXY_PROCESS_ERROR, seg # segs, [])
                 else
                   let (r, left, ev) = f2b_loop send_res m fd (Suc k) (buf_size - ret) segs
                   in (r, left, Ev_send fd (take (nat ret) d) # ev)
            else (BACKEND_PROXY_PROCESS_AGAIN, seg # segs, [])
          else f2b_loop send_res m fd k buf_size segs
      | None \<Rightarrow> f2b_loop send_res m fd k buf_size segs)"

text \<open>\<open>sndbuf\<close> is the answer of \<open>getsockopt\<close> (\<open>None\<close>: it failed).\<close>

definition high_speed_data_process_f2b ::
  "int option \<Rightarrow> (nat \<Rightarrow> bytes \<Rightarrow> int) \<Rightarrow> nat \<Rightarrow> backend \<Rightarrow> (int \<times> backend) option" where
  "high_speed_data_process_f2b sndbuf send_res p st =
     (case st_sess st p of
        None \<Rightarrow> None
      | Some s \<Rightarrow>
          (case sndbuf of
             None \<Rightarrow> Some (BACKEND_PROXY_PROCESS_ERROR, st)
           | Some buf_size \<Rightarrow>
               let (ret, left, ev) = f2b_loop send_res (te_mem (be_tx (st_eng st))) (bs_sock_fd s) 0
                                       buf_size (bs_msg_f2b s)
               in Some (ret, emits ev (put_sess p (s\<lparr>bs_msg_f2b := left\<rparr>) st))))"


section \<open>Backend to frontend\<close>

text \<open>Only a full queue stops the loop: a segment that is refused with an error is dropped.\<close>

fun b2f_loop :: "tx_env \<Rightarrow> SessMsgSeg list \<Rightarrow> (int \<times> SessMsgSeg list \<times> tx_env) option" where
  "b2f_loop env [] = Some (BACKEND_PROXY_PROCESS_OK, [], env)"
| "b2f_loop env (seg # segs) = do {
     (ret, env') \<leftarrow> backend_engine_hyperamp_tx_queue_put env (seg_bytes (te_mem env) seg)
        (unat (sg_len seg));
     if ret = BACKEND_PROXY_PROCESS_AGAIN then Some (BACKEND_PROXY_PROCESS_AGAIN, seg # segs, env')
     else b2f_loop env' segs }"

definition high_speed_data_process_b2f :: "nat \<Rightarrow> backend \<Rightarrow> (int \<times> backend) option" where
  "high_speed_data_process_b2f p st =
     (case st_sess st p of
        None \<Rightarrow> None
      | Some s \<Rightarrow> do {
          (ret, left, t) \<leftarrow> b2f_loop (be_tx (st_eng st)) (bs_msg_b2f s);
          Some (ret, put_tx t (put_sess p (s\<lparr>bs_msg_b2f := left\<rparr>) st)) })"


section \<open>Socket to backend queue\<close>

definition PROXY_MSG_HDR_PLUS_MAX_SIZE :: nat where
  "PROXY_MSG_HDR_PLUS_MAX_SIZE = PROXY_MSG_HDR_SIZE + PROXY_MSG_MAX_SIZE"

text \<open>
  What one round of the reading loop gets: the segment memory (\<open>None\<close>: \<open>malloc\<close> failed) and
  the result of \<open>read\<close> with the bytes it delivered.
\<close>

record read_round =
  rr_buffer :: "bytes option"
  rr_ret :: int
  rr_data :: bytes

primrec own_bytes :: "seg_data \<Rightarrow> bytes" where
  "own_bytes (Own_buffer b) = b"
| "own_bytes (Shared_buffer a) = []"

definition data_segment :: "BackendSession \<Rightarrow> bytes \<Rightarrow> int \<Rightarrow> bytes \<Rightarrow> SessMsgSeg" where
  "data_segment s buffer ret data =
     (let hdr = \<lparr>ph_version = PROXY_PROTO_VERSION_1, ph_proxy_msg_type = PROXY_MSG_TYPE_DATA,
                  ph_frontend_sess_id = bs_frontend_sess_id s, ph_backend_sess_id = bs_backend_sess_id s,
                  ph_payload_len = word_of_int ret\<rparr>
      in \<lparr>sg_len = ph_payload_len hdr + 8, sg_type = SESS_MSG_SEG_DYNAMIC_ALLOC,
          sg_data = Own_buffer (overwrite (enc_ProxyMsgHeader hdr @ take (nat ret) data) buffer)\<rparr>)"

text \<open>
  The loop runs while bytes are announced; \<open>fuel\<close> bounds it, since a \<open>read\<close> of 0 bytes makes
  no progress, and \<open>None\<close> means the fuel ran out.
\<close>

fun nns_loop ::
  "nat \<Rightarrow> (nat \<Rightarrow> read_round) \<Rightarrow> nat \<Rightarrow> BackendSession \<Rightarrow> int \<Rightarrow> (int \<times> BackendSession) option" where
  "nns_loop 0 rounds k s bytes_available = None"
| "nns_loop (Suc fuel) rounds k s bytes_available =
     (if bytes_available \<le> 0 then Some (BACKEND_PROXY_PROCESS_OK, s)
      else case sess_msg_seg_alloc (rr_buffer (rounds k) \<noteq> None) (rr_buffer (rounds k))
                  PROXY_MSG_HDR_PLUS_MAX_SIZE SESS_MSG_SEG_DYNAMIC_ALLOC 0 False of
        None \<Rightarrow> Some (BACKEND_PROXY_PROCESS_AGAIN, s)
      | Some seg \<Rightarrow>
          (let ret = rr_ret (rounds k); buffer = own_bytes (sg_data seg)
           in if ret = -1 then Some (BACKEND_PROXY_PROCESS_ERROR, s)
              else nns_loop fuel rounds (Suc k)
                     (SESS_MSG_SEG_INSERT_QUEUE s (Some (data_segment s buffer ret (rr_data (rounds k)))) B2F)
                     (bytes_available - ret)))"

text \<open>\<open>available\<close> is the answer of \<open>ioctl(SIOCINQ)\<close> (\<open>None\<close>: it failed).\<close>

definition high_speed_data_process_nns ::
  "nat \<Rightarrow> int option \<Rightarrow> (nat \<Rightarrow> read_round) \<Rightarrow> nat \<Rightarrow> backend \<Rightarrow> (int \<times> backend) option" where
  "high_speed_data_process_nns fuel available rounds p st =
     (case st_sess st p of
        None \<Rightarrow> None
      | Some s \<Rightarrow>
          (case available of
             None \<Rightarrow> Some (BACKEND_PROXY_PROCESS_ERROR, st)
           | Some n \<Rightarrow> do {
               (ret, s') \<leftarrow> nns_loop fuel rounds 0 s n;
               if ret \<noteq> BACKEND_PROXY_PROCESS_OK then Some (ret, put_sess p s' st)
               else do {
                 st' \<leftarrow> BACKEND_SESS_LINK_TO_QUEUE p B2F (put_sess p s' st);
                 Some (BACKEND_PROXY_PROCESS_OK, st') } }))"

text \<open>
  One pass over the ready events: errors and hang-ups are skipped, readable sessions are
  drained; the return codes are ignored.
\<close>

definition EPOLLERR :: u32 where "EPOLLERR = 8"
definition EPOLLHUP :: u32 where "EPOLLHUP = 16"

fun poller_run ::
  "nat \<Rightarrow> (u32 \<times> nat \<times> int option \<times> (nat \<Rightarrow> read_round)) list \<Rightarrow> backend \<Rightarrow> backend option" where
  "poller_run fuel [] st = Some st"
| "poller_run fuel ((events, p, available, rounds) # rest) st =
     (if events AND EPOLLERR \<noteq> 0 \<or> events AND EPOLLHUP \<noteq> 0 then poller_run fuel rest st
      else
        (case st_sess st p of
           None \<Rightarrow> None
         | Some s \<Rightarrow>
             if events AND EPOLLIN \<noteq> 0 \<and> bs_nc_events s AND EPOLLIN \<noteq> 0 then do {
               (_, st') \<leftarrow> high_speed_data_process_nns fuel available rounds p st;
               poller_run fuel rest st' }
             else poller_run fuel rest st))"


section \<open>To the socket: order and loss\<close>

text \<open>A segment whose buffer holds the bytes it announces, and these bytes.\<close>

definition full_segment :: "SessMsgSeg \<Rightarrow> bool" where
  "full_segment seg \<longleftrightarrow> sg_len seg \<noteq> 0 \<and>
     (case sg_data seg of Own_buffer b \<Rightarrow> unat (sg_len seg) \<le> length b | Shared_buffer _ \<Rightarrow> False)"

definition seg_payload :: "SessMsgSeg \<Rightarrow> bytes" where
  "seg_payload seg = take (unat (sg_len seg)) (own_bytes (sg_data seg))"

definition sent_bytes :: "sys_event list \<Rightarrow> bytes" where
  "sent_bytes ev = concat (List.map_filter (\<lambda>e. case e of Ev_send fd b \<Rightarrow> Some b | _ \<Rightarrow> None) ev)"

lemma sent_bytes_simps [simp]:
  "sent_bytes [] = []" "sent_bytes (Ev_send fd b # ev) = b @ sent_bytes ev"
  by (simp_all add: sent_bytes_def List.map_filter_simps)

lemma full_segmentD:
  "full_segment seg \<Longrightarrow> seg_bytes m seg = Some (own_bytes (sg_data seg)) \<and>
     take (unat (sg_len seg)) (own_bytes (sg_data seg)) = seg_payload seg \<and>
     unat (sg_len seg) \<le> length (own_bytes (sg_data seg)) \<and>
     length (seg_payload seg) = unat (sg_len seg) \<and> 0 < sg_len seg"
  by (auto simp: full_segment_def seg_bytes_def seg_payload_def word_gt_0 split: seg_data.splits)

lemma uint_not_minus_one [simp]: "uint (w :: u16) \<noteq> -1"
  using unsigned_greater_eq [of w] by (metis neg_0_le_iff_le not_one_le_zero)

lemma f2b_loop_spec:
  assumes "list_all full_segment segs" "\<And>k d. send_res k d = int (length d)"
    and "f2b_loop send_res m fd k buf segs = (ret, left, ev)"
  shows "\<exists>sent. segs = sent @ left \<and> sent_bytes ev = concat (map seg_payload sent)
    \<and> ret = (if left = [] then BACKEND_PROXY_PROCESS_OK else BACKEND_PROXY_PROCESS_AGAIN)
    \<and> (left \<noteq> [] \<longrightarrow> buf \<le> int (length (concat (map seg_payload sent)) + length (seg_payload (hd left))))"
  using assms(1,3)
proof (induction segs arbitrary: k buf ret left ev)
  case Nil
  then show ?case by (intro exI [of _ "[]"]) simp
next
  case (Cons seg segs)
  note S = full_segmentD [of seg m]
  have seg: "full_segment seg" "list_all full_segment segs" using Cons.prems(1) by auto
  show ?case
  proof (cases "buf > int (unat (sg_len seg))")
    case False
    then have "ret = BACKEND_PROXY_PROCESS_AGAIN" "left = seg # segs" "ev = []"
      using Cons.prems(2) S seg(1) by (auto split: if_splits)
    then show ?thesis using False S seg(1) by (intro exI [of _ "[]"]) (auto simp: proxy_codes)
  next
    case True
    obtain r l e where R: "f2b_loop send_res m fd (Suc k) (buf - int (unat (sg_len seg))) segs = (r, l, e)"
      by (metis prod_cases3)
    then have out: "ret = r" "left = l" "ev = Ev_send fd (seg_payload seg) # e"
      using Cons.prems(2) S seg(1) True by (auto simp: assms(2) [of k "seg_payload seg"] Let_def)
    from Cons.IH [OF seg(2) R] obtain sent where I: "segs = sent @ l"
      "sent_bytes e = concat (map seg_payload sent)"
      "r = (if l = [] then BACKEND_PROXY_PROCESS_OK else BACKEND_PROXY_PROCESS_AGAIN)"
      "l \<noteq> [] \<longrightarrow> buf - int (unat (sg_len seg)) \<le>
         int (length (concat (map seg_payload sent)) + length (seg_payload (hd l)))"
      by blast
    then show ?thesis using out S seg(1) by (intro exI [of _ "seg # sent"]) auto
  qed
qed

text \<open>
  C18.  Data reaches the socket in order and without loss when \<open>send\<close> takes all it is given:
  the segments sent are a prefix of the session's queue, the bytes given to the socket are their
  concatenation, the rest stays queued, and the call returns OK exactly when nothing is left; it
  stops with AGAIN only when the next segment does not fit the announced send buffer.
\<close>

theorem f2b_sends_in_order:
  assumes "st_sess st p = Some s" "list_all full_segment (bs_msg_f2b s)"
    and "\<And>k d. send_res k d = int (length d)"
  shows "\<exists>ret st' sent left ev.
    high_speed_data_process_f2b (Some buf) send_res p st = Some (ret, st')
    \<and> bs_msg_f2b s = sent @ left \<and> st_sess st' p = Some (s\<lparr>bs_msg_f2b := left\<rparr>)
    \<and> st_trace st' = st_trace st @ ev \<and> sent_bytes ev = concat (map seg_payload sent)
    \<and> ret = (if left = [] then BACKEND_PROXY_PROCESS_OK else BACKEND_PROXY_PROCESS_AGAIN)
    \<and> (left \<noteq> [] \<longrightarrow> buf \<le> int (length (concat (map seg_payload sent)) + length (seg_payload (hd left))))"
proof -
  obtain ret left ev where L: "f2b_loop send_res (te_mem (be_tx (st_eng st))) (bs_sock_fd s) 0 buf
      (bs_msg_f2b s) = (ret, left, ev)" by (metis prod_cases3)
  from f2b_loop_spec [OF assms(2,3) L] obtain sent where "bs_msg_f2b s = sent @ left"
    "sent_bytes ev = concat (map seg_payload sent)"
    "ret = (if left = [] then BACKEND_PROXY_PROCESS_OK else BACKEND_PROXY_PROCESS_AGAIN)"
    "left \<noteq> [] \<longrightarrow> buf \<le> int (length (concat (map seg_payload sent)) + length (seg_payload (hd left)))"
    by blast
  then show ?thesis
    using assms(1) L
    by - (rule exI [of _ ret], rule exI [of _ "emits ev (put_sess p (s\<lparr>bs_msg_f2b := left\<rparr>) st)"],
        rule exI [of _ sent], rule exI [of _ left], rule exI [of _ ev],
        simp add: high_speed_data_process_f2b_def emits_def put_sess_def)
qed

text \<open>
  A short \<open>send\<close> loses data.  If the kernel accepts only \<open>r\<close> of a segment's bytes the
  segment is removed all the same, and the remaining bytes are neither sent nor kept.
\<close>

lemma f2b_short_send_loses_rest:
  assumes "st_sess st p = Some s" "bs_msg_f2b s = [seg]" "full_segment seg"
    and "send_res 0 (seg_payload seg) = r" "0 \<le> r" "r < int (length (seg_payload seg))"
    and "int (length (seg_payload seg)) < buf"
  shows "\<exists>st'. high_speed_data_process_f2b (Some buf) send_res p st = Some (BACKEND_PROXY_PROCESS_OK, st')
    \<and> st_sess st' p = Some (s\<lparr>bs_msg_f2b := []\<rparr>)
    \<and> st_trace st' = st_trace st @ [Ev_send (bs_sock_fd s) (take (nat r) (seg_payload seg))]
    \<and> take (nat r) (seg_payload seg) \<noteq> seg_payload seg"
proof -
  have "length (take (nat r) (seg_payload seg)) < length (seg_payload seg)" using assms(5,6) by auto
  then have "take (nat r) (seg_payload seg) \<noteq> seg_payload seg" by (metis nat_neq_iff)
  then show ?thesis
    using assms full_segmentD [OF assms(3), of "te_mem (be_tx (st_eng st))"]
    by (auto simp: high_speed_data_process_f2b_def emits_def put_sess_def)
qed


section \<open>To the transmit queue\<close>

text \<open>A block of the queue that starts with the given bytes.\<close>

definition starts_with :: "bytes \<Rightarrow> bytes \<Rightarrow> bool" where
  "starts_with d b \<longleftrightarrow> take (length d) b = d"

definition fits_block :: "u16 \<Rightarrow> SessMsgSeg \<Rightarrow> bool" where
  "fits_block bs seg \<longleftrightarrow> full_segment seg \<and> sg_len seg \<le> bs"

lemma tx_queue_put_take:
  assumes "n \<le> length d"
  shows "backend_engine_hyperamp_tx_queue_put env (Some d) n =
     backend_engine_hyperamp_tx_queue_put env (Some (take n d)) n"
proof -
  have eq: "hyperamp_safe_memcpy m a d n = hyperamp_safe_memcpy m a (take n d) n" for m a
    unfolding hyperamp_safe_memcpy_def by (rule write_loop_cong) simp
  show ?thesis
    by (simp add: eq backend_engine_hyperamp_tx_queue_put_def hyperamp_queue_enqueue_def Let_def
        cong: if_cong split: option.split)
qed

lemma b2f_loop_spec:
  assumes "tx_ready cap bs env" "list_all (fits_block bs) segs"
  shows "\<exists>done left env' blocks. b2f_loop env segs =
      Some (if left = [] then BACKEND_PROXY_PROCESS_OK else BACKEND_PROXY_PROCESS_AGAIN, left, env')
    \<and> segs = done @ left \<and> tx_ready cap bs env' \<and> tx_blocks env' = tx_blocks env @ blocks
    \<and> list_all2 (\<lambda>seg b. starts_with (seg_payload seg) b) done blocks
    \<and> (left \<noteq> [] \<longrightarrow> \<not> tx_room cap env')"
  using assms
proof (induction segs arbitrary: env)
  case Nil
  then show ?case by (intro exI [of _ "[]"] exI [of _ env]) simp
next
  case (Cons seg segs)
  have seg: "full_segment seg" "unat (sg_len seg) \<le> unat bs" "list_all (fits_block bs) segs"
    using Cons.prems(2) by (simp_all add: fits_block_def [of bs seg] word_le_nat_alt)
  note S = full_segmentD [OF seg(1), of "te_mem env"]
  have len: "0 < length (seg_payload seg)" "length (seg_payload seg) \<le> unat bs"
    using S seg(2) by (auto simp: word_less_nat_alt)
  have put: "backend_engine_hyperamp_tx_queue_put env (seg_bytes (te_mem env) seg) (unat (sg_len seg)) =
      backend_engine_hyperamp_tx_queue_put env (Some (seg_payload seg)) (length (seg_payload seg))"
    using S tx_queue_put_take [of "unat (sg_len seg)" "own_bytes (sg_data seg)" env] by auto
  from tx_queue_put_spec [OF Cons.prems(1) len] obtain env1 where P:
    "backend_engine_hyperamp_tx_queue_put env (seg_bytes (te_mem env) seg) (unat (sg_len seg)) =
      Some (if tx_room cap env then BACKEND_PROXY_PROCESS_OK else BACKEND_PROXY_PROCESS_AGAIN, env1)"
    "tx_ready cap bs env1"
    "if tx_room cap env then \<exists>pad. tx_blocks env1 = tx_blocks env @ [seg_payload seg @ pad]
     else tx_blocks env1 = tx_blocks env" unfolding put by blast
  show ?case
  proof (cases "tx_room cap env")
    case False
    then have "b2f_loop env (seg # segs) = Some (BACKEND_PROXY_PROCESS_AGAIN, seg # segs, env1)"
      using P(1) by (simp add: proxy_codes)
    then show ?thesis using False P by (intro exI [of _ "[]"] exI [of _ "seg # segs"] exI [of _ env1]) simp
  next
    case True
    then obtain pad where pad: "tx_blocks env1 = tx_blocks env @ [seg_payload seg @ pad]" using P(3) by auto
    have step: "b2f_loop env (seg # segs) = b2f_loop env1 segs"
      using True P(1) by (simp add: proxy_codes)
    from Cons.IH [OF P(2) seg(3)] obtain don left env' blocks where I: "b2f_loop env1 segs =
      Some (if left = [] then BACKEND_PROXY_PROCESS_OK else BACKEND_PROXY_PROCESS_AGAIN, left, env')"
      "segs = don @ left" "tx_ready cap bs env'" "tx_blocks env' = tx_blocks env1 @ blocks"
      "list_all2 (\<lambda>seg b. starts_with (seg_payload seg) b) don blocks"
      "left \<noteq> [] \<longrightarrow> \<not> tx_room cap env'" by blast
    show ?thesis
      unfolding step using I pad
      by - (rule exI [of _ "seg # don"], rule exI [of _ left], rule exI [of _ env'],
          rule exI [of _ "(seg_payload seg @ pad) # blocks"], simp add: starts_with_def)
  qed
qed

text \<open>
  C20.  Queued messages reach the frontend in order.  If every queued segment fits a block, the
  segments handed over are a prefix of the session's queue; the transmit queue grows by one block
  per segment, in the same order, each starting with the segment's bytes; the rest stays queued,
  and the call returns OK when nothing is left and AGAIN only when the queue is full.
\<close>

theorem b2f_delivers_in_order:
  assumes "tx_ready cap bs (be_tx (st_eng st))" "st_sess st p = Some s"
    and "list_all (fits_block bs) (bs_msg_b2f s)"
  shows "\<exists>ret st' done left blocks. high_speed_data_process_b2f p st = Some (ret, st')
    \<and> bs_msg_b2f s = done @ left \<and> st_sess st' p = Some (s\<lparr>bs_msg_b2f := left\<rparr>)
    \<and> tx_blocks (be_tx (st_eng st')) = tx_blocks (be_tx (st_eng st)) @ blocks
    \<and> list_all2 (\<lambda>seg b. starts_with (seg_payload seg) b) done blocks
    \<and> ret = (if left = [] then BACKEND_PROXY_PROCESS_OK else BACKEND_PROXY_PROCESS_AGAIN)
    \<and> (left \<noteq> [] \<longrightarrow> \<not> tx_room cap (be_tx (st_eng st')))"
proof -
  from b2f_loop_spec [OF assms(1,3)] obtain don left env' blocks where
    "b2f_loop (be_tx (st_eng st)) (bs_msg_b2f s) =
      Some (if left = [] then BACKEND_PROXY_PROCESS_OK else BACKEND_PROXY_PROCESS_AGAIN, left, env')"
    "bs_msg_b2f s = don @ left" "tx_blocks env' = tx_blocks (be_tx (st_eng st)) @ blocks"
    "list_all2 (\<lambda>seg b. starts_with (seg_payload seg) b) don blocks"
    "left \<noteq> [] \<longrightarrow> \<not> tx_room cap env'" by blast
  then show ?thesis
    using assms(2)
    by - (rule exI, rule exI [of _ "put_tx env' (put_sess p (s\<lparr>bs_msg_b2f := left\<rparr>) st)"],
        rule exI [of _ don], rule exI [of _ left], rule exI [of _ blocks],
        simp add: high_speed_data_process_b2f_def)
qed


section \<open>From the socket\<close>

text \<open>Rounds with memory and a \<open>read\<close> that delivers what it reports, 1 to 4088 bytes.\<close>

definition good_round :: "read_round \<Rightarrow> bool" where
  "good_round r \<longleftrightarrow> 0 < rr_ret r \<and> rr_ret r \<le> int PROXY_MSG_MAX_SIZE \<and>
     int (length (rr_data r)) = rr_ret r \<and>
     (case rr_buffer r of None \<Rightarrow> False | Some b \<Rightarrow> length b = PROXY_MSG_HDR_PLUS_MAX_SIZE)"

text \<open>What the frontend decodes from a data message.\<close>

definition message_header :: "SessMsgSeg \<Rightarrow> ProxyMsgHeader" where
  "message_header seg = dec_ProxyMsgHeader (seg_payload seg)"

definition message_payload :: "SessMsgSeg \<Rightarrow> bytes" where
  "message_payload seg = take (unat (ph_payload_len (message_header seg))) (drop 8 (seg_payload seg))"

definition data_header :: "BackendSession \<Rightarrow> nat \<Rightarrow> ProxyMsgHeader" where
  "data_header s n = \<lparr>ph_version = PROXY_PROTO_VERSION_1, ph_proxy_msg_type = PROXY_MSG_TYPE_DATA,
     ph_frontend_sess_id = bs_frontend_sess_id s, ph_backend_sess_id = bs_backend_sess_id s,
     ph_payload_len = of_nat n\<rparr>"

lemma data_segment_payload:
  assumes "good_round r"
  shows "unat (sg_len (data_segment s buffer (rr_ret r) (rr_data r))) = length (rr_data r) + 8"
    and "seg_payload (data_segment s buffer (rr_ret r) (rr_data r)) =
      enc_ProxyMsgHeader (data_header s (length (rr_data r))) @ rr_data r"
proof -
  have n: "rr_ret r = int (length (rr_data r))" "length (rr_data r) \<le> 4088"
    using assms by (auto simp: good_round_def PROXY_MSG_MAX_SIZE_def)
  have "unat (of_nat (length (rr_data r)) :: u16) = length (rr_data r)"
    using n(2) by (simp add: unat_of_nat take_bit_nat_eq_self)
  then show len: "unat (sg_len (data_segment s buffer (rr_ret r) (rr_data r))) = length (rr_data r) + 8"
    using n(2) by (simp add: data_segment_def n(1) unat_word_ariths)
  show "seg_payload (data_segment s buffer (rr_ret r) (rr_data r)) =
      enc_ProxyMsgHeader (data_header s (length (rr_data r))) @ rr_data r"
    unfolding seg_payload_def len by (simp add: data_segment_def overwrite_def n(1) data_header_def)
qed

lemma data_segment_decodes:
  assumes "good_round r"
  shows "message_header (data_segment s buffer (rr_ret r) (rr_data r)) = data_header s (length (rr_data r))"
    and "message_payload (data_segment s buffer (rr_ret r) (rr_data r)) = rr_data r"
proof -
  have w: "unat (of_nat (length (rr_data r)) :: u16) = length (rr_data r)"
    using assms by (auto simp: good_round_def PROXY_MSG_MAX_SIZE_def unat_of_nat take_bit_nat_eq_self)
  note pay = data_segment_payload(2) [OF assms, of s buffer]
  then show h: "message_header (data_segment s buffer (rr_ret r) (rr_data r)) = data_header s (length (rr_data r))"
    by (simp add: message_header_def dec_enc_ProxyMsgHeader)
  show "message_payload (data_segment s buffer (rr_ret r) (rr_data r)) = rr_data r"
    unfolding message_payload_def h pay by (simp add: data_header_def w)
qed

definition round_segment :: "BackendSession \<Rightarrow> read_round \<Rightarrow> SessMsgSeg" where
  "round_segment s r = data_segment s (the (rr_buffer r)) (rr_ret r) (rr_data r)"

lemma round_segment_msgs [simp]: "round_segment (s\<lparr>bs_msg_b2f := q\<rparr>) r = round_segment s r"
  by (simp add: round_segment_def data_segment_def)

lemma nns_loop_step:
  assumes "good_round (rounds k)" "0 < n"
  shows "nns_loop (Suc fuel) rounds k s n =
    nns_loop fuel rounds (Suc k) (s\<lparr>bs_msg_b2f := bs_msg_b2f s @ [round_segment s (rounds k)]\<rparr>)
      (n - rr_ret (rounds k))"
  using assms
  by (auto simp: good_round_def sess_msg_seg_alloc_def SESS_MSG_SEG_INSERT_QUEUE_def round_segment_def
      PROXY_MSG_HDR_PLUS_MAX_SIZE_def Let_def split: option.splits)

lemma nns_loop_spec:
  assumes "\<And>k. good_round (rounds k)" "nat n < fuel"
  shows "\<exists>m. nns_loop fuel rounds k s n = Some (BACKEND_PROXY_PROCESS_OK,
       s\<lparr>bs_msg_b2f := bs_msg_b2f s @ map (\<lambda>j. round_segment s (rounds (k + j))) [0..<m]\<rparr>)
    \<and> n \<le> (\<Sum>j<m. rr_ret (rounds (k + j)))"
  using assms(2)
proof (induction fuel arbitrary: k s n)
  case (Suc fuel)
  show ?case
  proof (cases "0 < n")
    case False
    then show ?thesis by (intro exI [of _ 0]) simp
  next
    case True
    have r: "0 < rr_ret (rounds k)" using assms(1) [of k] by (simp add: good_round_def)
    then have "nat (n - rr_ret (rounds k)) < fuel" using Suc.prems True by auto
    from Suc.IH [OF this, of "Suc k" "s\<lparr>bs_msg_b2f := bs_msg_b2f s @ [round_segment s (rounds k)]\<rparr>"]
    obtain m where M: "nns_loop (Suc fuel) rounds k s n = Some (BACKEND_PROXY_PROCESS_OK,
       s\<lparr>bs_msg_b2f := (bs_msg_b2f s @ [round_segment s (rounds k)]) @
          map (\<lambda>j. round_segment s (rounds (Suc k + j))) [0..<m]\<rparr>)"
      "n - rr_ret (rounds k) \<le> (\<Sum>j<m. rr_ret (rounds (Suc k + j)))"
      unfolding nns_loop_step [OF assms(1) True] by auto
    have upt: "map f [0..<Suc m] = f 0 # map (\<lambda>j. f (Suc j)) [0..<m]" for f :: "nat \<Rightarrow> SessMsgSeg"
      by (simp add: map_upt_Suc del: upt_Suc)
    have "(\<Sum>j<Suc m. rr_ret (rounds (k + j))) = rr_ret (rounds k) + (\<Sum>j<m. rr_ret (rounds (Suc k + j)))"
      by (simp add: sum.lessThan_Suc_shift del: sum.lessThan_Suc)
    then show ?thesis
      using M by (intro exI [of _ "Suc m"]) (simp add: upt del: upt_Suc sum.lessThan_Suc)
  qed
qed simp

lemma link_b2f_sess:
  assumes "BACKEND_SESS_LINK_TO_QUEUE p B2F st = Some st'" "st_sess st p = Some s"
  shows "\<exists>w. st_sess st' p = Some (s\<lparr>bs_state_b2f := w\<rparr>)"
    and "bs_eng s \<Longrightarrow> be_sess_pool (st_eng st) \<Longrightarrow> bs_state_b2f s AND BACKEND_SESS_LINKED_TO_QUEUE = 0 \<Longrightarrow>
      sp_queue_b2f (st_pool st') = sp_queue_b2f (st_pool st) @ [p]"
proof -
  have same: "\<exists>w. s = s\<lparr>bs_state_b2f := w\<rparr>" by (rule exI [of _ "bs_state_b2f s"]) simp
  show "\<exists>w. st_sess st' p = Some (s\<lparr>bs_state_b2f := w\<rparr>)"
    using assms same by (auto simp: BACKEND_SESS_LINK_TO_QUEUE_def split: if_splits)
  show "bs_eng s \<Longrightarrow> be_sess_pool (st_eng st) \<Longrightarrow> bs_state_b2f s AND BACKEND_SESS_LINKED_TO_QUEUE = 0 \<Longrightarrow>
      sp_queue_b2f (st_pool st') = sp_queue_b2f (st_pool st) @ [p]"
    using assms by (auto simp: BACKEND_SESS_LINK_TO_QUEUE_def split: if_splits)
qed

text \<open>
  C19.  Everything the socket announces is read and packed.  If every round gets memory and every
  \<open>read\<close> delivers 1 to 4088 bytes, the loop ends (fuel beyond the number of announced bytes is
  enough), all announced bytes are read, and each round appends one data message with the
  session's ids whose payload, as the receiver decodes it, is exactly what \<open>read\<close> delivered; a
  session that was not in the backend-to-frontend queue is added to it.
\<close>

theorem nns_packs_all_data:
  assumes "st_sess st p = Some s" "\<And>k. good_round (rounds k)" "nat n < fuel"
  shows "\<exists>st' s' m new. high_speed_data_process_nns fuel (Some n) rounds p st
      = Some (BACKEND_PROXY_PROCESS_OK, st')
    \<and> st_sess st' p = Some s' \<and> bs_msg_b2f s' = bs_msg_b2f s @ new
    \<and> map message_payload new = map (\<lambda>k. rr_data (rounds k)) [0..<m]
    \<and> map message_header new = map (\<lambda>k. data_header s (length (rr_data (rounds k)))) [0..<m]
    \<and> n \<le> int (length (concat (map message_payload new)))
    \<and> (bs_eng s \<and> be_sess_pool (st_eng st) \<and> bs_state_b2f s AND BACKEND_SESS_LINKED_TO_QUEUE = 0
       \<longrightarrow> sp_queue_b2f (st_pool st') = sp_queue_b2f (st_pool st) @ [p])"
proof -
  from nns_loop_spec [where rounds = rounds and k = 0 and s = s, OF assms(2,3)] obtain m where
    M: "nns_loop fuel rounds 0 s n = Some (BACKEND_PROXY_PROCESS_OK,
       s\<lparr>bs_msg_b2f := bs_msg_b2f s @ map (\<lambda>j. round_segment s (rounds j)) [0..<m]\<rparr>)"
      "n \<le> (\<Sum>j<m. rr_ret (rounds j))" by auto
  define new where "new = map (\<lambda>j. round_segment s (rounds j)) [0..<m]"
  define s1 where "s1 = s\<lparr>bs_msg_b2f := bs_msg_b2f s @ new\<rparr>"
  have dec: "message_payload (round_segment s (rounds k)) = rr_data (rounds k)"
    "message_header (round_segment s (rounds k)) = data_header s (length (rr_data (rounds k)))"
    "rr_ret (rounds k) = int (length (rr_data (rounds k)))" for k
    using data_segment_decodes [OF assms(2), of s _ k] assms(2) [of k]
    by (simp_all add: round_segment_def good_round_def)
  have "BACKEND_SESS_LINK_TO_QUEUE p B2F (put_sess p s1 st) \<noteq> None"
    by (simp add: BACKEND_SESS_LINK_TO_QUEUE_def)
  then obtain st' where L: "BACKEND_SESS_LINK_TO_QUEUE p B2F (put_sess p s1 st) = Some st'" by blast
  have run: "high_speed_data_process_nns fuel (Some n) rounds p st = Some (BACKEND_PROXY_PROCESS_OK, st')"
    using assms(1) M(1) L by (simp add: high_speed_data_process_nns_def s1_def new_def)
  obtain w where s': "st_sess st' p = Some (s1\<lparr>bs_state_b2f := w\<rparr>)"
    using link_b2f_sess(1) [OF L] by auto
  have "map message_payload new = map (\<lambda>k. rr_data (rounds k)) [0..<m]"
    "map message_header new = map (\<lambda>k. data_header s (length (rr_data (rounds k)))) [0..<m]"
    using dec by (auto simp: new_def)
  moreover have "int (length (concat (map message_payload new))) = (\<Sum>j<m. rr_ret (rounds j))"
    unfolding new_def by (induction m) (simp_all add: dec)
  ultimately show ?thesis
    using run s' M(2) link_b2f_sess(2) [OF L]
    by - (rule exI [of _ st'], rule exI [of _ "s1\<lparr>bs_state_b2f := w\<rparr>"], rule exI [of _ m],
        rule exI [of _ new], simp add: s1_def)
qed

text \<open>
  A socket whose \<open>read\<close> returns 0 while bytes are announced (the peer closed) keeps the
  loop running: no amount of fuel suffices as long as memory lasts.
\<close>

lemma nns_end_of_file_diverges:
  assumes "st_sess st p = Some s" "0 < n" "\<And>k. rr_ret (rounds k) = 0" "\<And>k. rr_buffer (rounds k) \<noteq> None"
  shows "high_speed_data_process_nns fuel (Some n) rounds p st = None"
proof -
  have "nns_loop fuel rounds k s n = None" for k s
  proof (induction fuel arbitrary: k s)
    case (Suc fuel)
    obtain b where "rr_buffer (rounds k) = Some b" using assms(4) [of k] by auto
    then show ?case using Suc assms(2) by (simp add: sess_msg_seg_alloc_def assms(3) Let_def)
  qed simp
  then show ?thesis using assms(1) by (simp add: high_speed_data_process_nns_def)
qed


section \<open>Concrete transfers\<close>

definition sample_seg :: "bytes \<Rightarrow> SessMsgSeg" where
  "sample_seg b = \<lparr>sg_len = of_nat (length b), sg_type = SESS_MSG_SEG_DYNAMIC_ALLOC, sg_data = Own_buffer b\<rparr>"

definition data_sess :: BackendSession where
  "data_sess = sample_mem0\<lparr>bs_sock_fd := 5, bs_eng := True, bs_frontend_sess_id := 11,
     bs_backend_sess_id := 9, bs_msg_f2b := [sample_seg [1, 2, 3], sample_seg [4, 5]],
     bs_msg_b2f := [sample_seg [6, 7]]\<rparr>"

definition data_backend :: backend where
  "data_backend = put_sess 7 data_sess sample_backend"

lemma data_backend_sess: "st_sess data_backend 7 = Some data_sess"
  by (simp add: data_backend_def)

text \<open>The send buffer takes the first segment; the second waits.\<close>

theorem f2b_sends_in_order_witness:
  "\<exists>st' ev. high_speed_data_process_f2b (Some 5) (\<lambda>k d. int (length d)) 7 data_backend
      = Some (BACKEND_PROXY_PROCESS_AGAIN, st')
    \<and> st_trace st' = ev \<and> sent_bytes ev = [1, 2, 3]"
proof -
  have segs: "list_all full_segment (bs_msg_f2b data_sess)" by code_simp
  obtain ret st' sent left ev where R:
    "high_speed_data_process_f2b (Some 5) (\<lambda>k d. int (length d)) 7 data_backend = Some (ret, st')"
    "bs_msg_f2b data_sess = sent @ left" "st_trace st' = st_trace data_backend @ ev"
    "sent_bytes ev = concat (map seg_payload sent)"
    "ret = (if left = [] then BACKEND_PROXY_PROCESS_OK else BACKEND_PROXY_PROCESS_AGAIN)"
    using f2b_sends_in_order [OF data_backend_sess segs, of "\<lambda>k d. int (length d)" 5] by blast
  have "map_option fst (high_speed_data_process_f2b (Some 5) (\<lambda>k d. int (length d)) 7 data_backend) = Some 1"
    "map_option (\<lambda>r. sent_bytes (st_trace (snd r)))
       (high_speed_data_process_f2b (Some 5) (\<lambda>k d. int (length d)) 7 data_backend) = Some [1, 2, 3]"
    by code_simp+
  then show ?thesis using R(1) by (auto simp: proxy_codes)
qed

theorem b2f_delivers_in_order_witness:
  "\<exists>st' b. high_speed_data_process_b2f 7 data_backend = Some (BACKEND_PROXY_PROCESS_OK, st')
    \<and> tx_blocks (be_tx (st_eng st')) = [b] \<and> starts_with [6, 7] b"
proof -
  have tx: "tx_ready 4 32 (be_tx (st_eng data_backend))"
    using sample_tx_ok by (simp add: tx_ok_def data_backend_def)
  have segs: "list_all (fits_block 32) (bs_msg_b2f data_sess)" by code_simp
  have c: "map_option fst (high_speed_data_process_b2f 7 data_backend) = Some 0"
    "tx_blocks (be_tx (st_eng data_backend)) = []" "bs_msg_b2f data_sess = [sample_seg [6, 7]]"
    by code_simp+
  obtain ret st' don left blocks where R: "high_speed_data_process_b2f 7 data_backend = Some (ret, st')"
    "bs_msg_b2f data_sess = don @ left"
    "tx_blocks (be_tx (st_eng st')) = tx_blocks (be_tx (st_eng data_backend)) @ blocks"
    "list_all2 (\<lambda>seg b. starts_with (seg_payload seg) b) don blocks"
    "ret = (if left = [] then BACKEND_PROXY_PROCESS_OK else BACKEND_PROXY_PROCESS_AGAIN)"
    using b2f_delivers_in_order [OF tx data_backend_sess segs] by blast
  then have "ret = BACKEND_PROXY_PROCESS_OK" "left = []" using c(1) by (auto simp: proxy_codes split: if_splits)
  then show ?thesis using R c by (auto simp: list_all2_Cons1 sample_seg_def seg_payload_def)
qed

definition sample_round :: "nat \<Rightarrow> read_round" where
  "sample_round k = \<lparr>rr_buffer = Some (replicate PROXY_MSG_HDR_PLUS_MAX_SIZE 0), rr_ret = 2,
     rr_data = [of_nat k, 42]\<rparr>"

theorem nns_packs_all_data_witness:
  "\<exists>st' s' new. high_speed_data_process_nns 10 (Some 3) sample_round 7 data_backend
      = Some (BACKEND_PROXY_PROCESS_OK, st')
    \<and> st_sess st' 7 = Some s' \<and> bs_msg_b2f s' = sample_seg [6, 7] # new
    \<and> 3 \<le> int (length (concat (map message_payload new)))"
proof -
  have "good_round (sample_round k)" for k
    by (simp add: good_round_def sample_round_def PROXY_MSG_MAX_SIZE_def)
  then show ?thesis
    using nns_packs_all_data [OF data_backend_sess, of sample_round 3 10]
    by (auto simp: data_sess_def)
qed

end
