(* ===== verification/Iot_Session.thy ===== *)
theory Iot_Session
  imports Backend_State
begin

text \<open>
  Sessions of IoT devices (\<open>src/src/session.c\<close>, \<open>src/include/session.h\<close>): sending to and
  receiving from Bluetooth, CAN and Modbus TCP devices, and the two Modbus frame routines.
  ZigBee, LoRa and POWERLINK sessions are stubs in the source and only return OK.

  Buffers are byte lists that start at the pointer the code holds; a read past their end makes
  the model stop (\<open>None\<close>).  Results of \<open>read\<close>, \<open>write\<close>, \<open>getpeername\<close> and of
  \<open>libmodbus\<close> are arguments.
\<close>

section \<open>State\<close>

definition IOT_WORK_MODE_CLIENT :: int where "IOT_WORK_MODE_CLIENT = 0"
definition IOT_WORK_MODE_SERVER :: int where "IOT_WORK_MODE_SERVER = 1"
definition IOT_SESS_STATE_IDLE :: int where "IOT_SESS_STATE_IDLE = 0"
definition IOT_SESS_STATE_PENDING :: int where "IOT_SESS_STATE_PENDING = 1"
definition IOT_MODBUS_CMD_READ_REQ :: u8 where "IOT_MODBUS_CMD_READ_REQ = 2"
definition CAN_MAX_DLEN :: nat where "CAN_MAX_DLEN = 8"

lemmas iot_codes = IOT_WORK_MODE_CLIENT_def IOT_WORK_MODE_SERVER_def IOT_SESS_STATE_IDLE_def
  IOT_SESS_STATE_PENDING_def IOT_MODBUS_CMD_READ_REQ_def CAN_MAX_DLEN_def

text \<open>
  The members the code uses; \<open>is_eng\<close> tells whether the engine pointer is set, \<open>is_pri_data\<close>
  whether the Modbus context is, \<open>is_bound_dev\<close> the place of the device in the table.  The
  function pointers are fixed by the session type.
\<close>

record IoTBackendSession =
  is_sess_type :: u16
  is_sess_state :: int
  is_working_mode :: int
  is_eng :: bool
  is_pri_data :: bool
  is_dev_fd :: int
  is_listen_fd :: int
  is_bound_dev :: "nat option"

record iot_sessions =
  backend_bluetooth_sess :: "IoTBackendSession option"
  backend_can_sess :: "IoTBackendSession option"
  backend_zigbee_sess :: "IoTBackendSession option"
  backend_lora_sess :: "IoTBackendSession option"
  backend_powerlink_sess :: "IoTBackendSession option"
  backend_modbustcp_sess :: "IoTBackendSession option"

record IotMsgBuffer =
  mb_data :: bytes
  mb_len :: u32
  mb_addr :: IotAddr


section \<open>Sending\<close>

text \<open>
  The result is the code, the session and the bytes the kernel took.  A Bluetooth server walks
  over its sockets and sends nothing.
\<close>

definition bluetooth_send_to_remote ::
  "int \<Rightarrow> IoTBackendSession \<Rightarrow> IotMsgBuffer \<Rightarrow>
   (int \<times> IoTBackendSession \<times> sys_event list) option" where
  "bluetooth_send_to_remote snd_size sess msg_buf =
     (if is_working_mode sess = IOT_WORK_MODE_CLIENT then
        if unat (mb_len msg_buf) > length (mb_data msg_buf) then None
        else if snd_size < 0 then Some (BACKEND_PROXY_PROCESS_ERROR, sess, [])
        else Some (BACKEND_PROXY_PROCESS_OK, sess,
                   [Ev_write (is_dev_fd sess)
                      (take (nat snd_size) (take (unat (mb_len msg_buf)) (mb_data msg_buf)))])
      else Some (BACKEND_PROXY_PROCESS_OK, sess, []))"

text \<open>\<open>struct can_frame\<close>: identifier, data length, three bytes of padding, eight data bytes.\<close>

record can_frame =
  cf_can_id :: u32
  cf_can_dlc :: u8
  cf_data :: bytes

definition enc_can_frame :: "can_frame \<Rightarrow> bytes" where
  "enc_can_frame f = put_u32 (cf_can_id f) @ [cf_can_dlc f, 0, 0, 0] @ cf_data f"

text \<open>The length is stored in a byte before it is checked; the identifier is a constant.\<close>

definition can_send_to_remote ::
  "int \<Rightarrow> IoTBackendSession option \<Rightarrow> IotMsgBuffer option \<Rightarrow>
   (int \<times> IoTBackendSession option \<times> sys_event list) option" where
  "can_send_to_remote snd_bytes sess msg_buf =
     (case (sess, msg_buf) of
        (Some s, Some m) \<Rightarrow>
          let can_dlc = (ucast (mb_len m) :: u8)
          in if unat can_dlc > CAN_MAX_DLEN then Some (BACKEND_PROXY_PROCESS_ERROR, sess, [])
             else if unat can_dlc > length (mb_data m) then None
             else if snd_bytes < 0 then Some (BACKEND_PROXY_PROCESS_ERROR, sess, [])
             else Some (BACKEND_PROXY_PROCESS_OK, sess,
                    [Ev_write (is_dev_fd s) (enc_can_frame \<lparr>cf_can_id = 0x123, cf_can_dlc = can_dlc,
                       cf_data = overwrite (take (unat can_dlc) (mb_data m)) (replicate 8 0)\<rparr>)])
      | _ \<Rightarrow> Some (BACKEND_PROXY_PROCESS_ERROR, sess, []))"

text \<open>A Modbus client only notes that a read was requested; nothing is transmitted.\<close>

definition modbustcp_send_to_remote ::
  "IoTBackendSession \<Rightarrow> IotMsgBuffer \<Rightarrow> (int \<times> IoTBackendSession) option" where
  "modbustcp_send_to_remote sess msg_buf =
     (if is_working_mode sess = IOT_WORK_MODE_CLIENT then
        (case mb_data msg_buf of
           [] \<Rightarrow> None
         | cmd # _ \<Rightarrow>
             Some (BACKEND_PROXY_PROCESS_OK,
                   if cmd = IOT_MODBUS_CMD_READ_REQ
                   then sess\<lparr>is_sess_state := IOT_SESS_STATE_PENDING\<rparr> else sess))
      else Some (BACKEND_PROXY_PROCESS_ERROR, sess))"


section \<open>Receiving\<close>

definition EAGAIN :: int where "EAGAIN = 11"
definition EINTR :: int where "EINTR = 4"

text \<open>What a failed read means.\<close>

definition recv_failure :: "int \<Rightarrow> int" where
  "recv_failure errno =
     (if errno = EAGAIN then BACKEND_PROXY_PROCESS_AGAIN
      else if errno = EINTR then BACKEND_PROXY_PROCESS_AGAIN
      else BACKEND_PROXY_PROCESS_ERROR)"

text \<open>
  \<open>rcv_size\<close>, \<open>rcv\<close> and \<open>errno\<close> come from \<open>read\<close>; \<open>peer\<close> is the answer of
  \<open>getpeername\<close>: address family, port and the textual address \<open>ba2str\<close> makes of it.  A server
  session returns OK without having received anything.
\<close>

definition AF_BLUETOOTH :: int where "AF_BLUETOOTH = 31"

definition bluetooth_recv_from_remote ::
  "int \<Rightarrow> bytes \<Rightarrow> int \<Rightarrow> (int \<times> u16 \<times> bytes) option \<Rightarrow> IoTBackendSession \<Rightarrow> IotMsgBuffer \<Rightarrow>
   int \<times> IotMsgBuffer" where
  "bluetooth_recv_from_remote rcv_size rcv errno peer sess msg_buf =
     (if is_working_mode sess = IOT_WORK_MODE_CLIENT then
        if rcv_size > 0 then
          let m1 = msg_buf\<lparr>mb_data := overwrite (take (nat rcv_size) rcv) (mb_data msg_buf),
                          mb_len := word_of_int rcv_size\<rparr>
          in (case peer of
                None \<Rightarrow> (BACKEND_PROXY_PROCESS_ERROR, m1)
              | Some (l2_family, l2_psm, mac) \<Rightarrow>
                  if l2_family \<noteq> AF_BLUETOOTH then (BACKEND_PROXY_PROCESS_ERROR, m1)
                  else (BACKEND_PROXY_PROCESS_OK,
                        m1\<lparr>mb_addr := \<lparr>ia_addr_type = ucast IOT_PROTO_TYPE_BLUETOOTH,
                             ia_addr_info = overwrite (enc_IotBtAddr \<lparr>ba_mac = mac, ba_port = l2_psm\<rparr>)
                                              (ia_addr_info (mb_addr msg_buf))\<rparr>\<rparr>))
        else if rcv_size = 0 then (BACKEND_PROXY_PROCESS_ERROR, msg_buf)
        else (recv_failure errno, msg_buf)
      else (BACKEND_PROXY_PROCESS_OK, msg_buf))"

text \<open>
  The frame is copied with the size of the whole frame although only its data field is copied
  from: a read beyond the frame's last byte stops the model.
\<close>

definition can_recv_from_remote ::
  "int \<Rightarrow> can_frame \<Rightarrow> int \<Rightarrow> IoTBackendSession \<Rightarrow> IotMsgBuffer \<Rightarrow> (int \<times> IotMsgBuffer) option" where
  "can_recv_from_remote rcv_size frame errno sess msg_buf =
     (if is_working_mode sess = IOT_WORK_MODE_CLIENT then
        if rcv_size > 0 then
          if nat rcv_size > length (cf_data frame) then None
          else Some (BACKEND_PROXY_PROCESS_OK,
                 msg_buf\<lparr>mb_addr := \<lparr>ia_addr_type = ucast IOT_PROTO_TYPE_CAN,
                           ia_addr_info = take 2 (ia_addr_info (mb_addr msg_buf)) @
                             put_u32 (cf_can_id frame) @ drop 6 (ia_addr_info (mb_addr msg_buf))\<rparr>,
                         mb_len := word_of_int rcv_size,
                         mb_data := overwrite (take (nat rcv_size) (cf_data frame)) (mb_data msg_buf)\<rparr>)
        else if rcv_size = 0 then Some (BACKEND_PROXY_PROCESS_ERROR, msg_buf)
        else Some (recv_failure errno, msg_buf)
      else Some (BACKEND_PROXY_PROCESS_ERROR, msg_buf))"

text \<open>
  \<open>regs\<close> are the registers \<open>modbus_read_registers\<close> delivered (one is asked for; the array holds
  ten).  The address is the parsed literal \<open>192.168.137.2:502\<close>.
\<close>

definition modbustcp_recv_from_remote ::
  "u16 list option \<Rightarrow> IoTBackendSession \<Rightarrow> IotMsgBuffer option \<Rightarrow>
   (int \<times> IoTBackendSession \<times> IotMsgBuffer option) option" where
  "modbustcp_recv_from_remote regs sess msg_buf =
     (if is_working_mode sess = IOT_WORK_MODE_CLIENT \<and> is_sess_state sess = IOT_SESS_STATE_PENDING
      then
        (case (is_pri_data sess, msg_buf) of
           (True, Some m) \<Rightarrow>
             (case regs of
                None \<Rightarrow> Some (BACKEND_PROXY_PROCESS_ERROR, sess, msg_buf)
              | Some rs \<Rightarrow>
                  if rs = [] then Some (BACKEND_PROXY_PROCESS_ERROR, sess, msg_buf)
                  else if length rs > 10 then None
                  else Some (BACKEND_PROXY_PROCESS_OK, sess\<lparr>is_sess_state := IOT_SESS_STATE_IDLE\<rparr>,
                    Some (m\<lparr>mb_data := overwrite (concat (map put_u16 rs)) (mb_data m),
                            mb_len := of_nat (2 * length rs),
                            mb_addr := \<lparr>ia_addr_type = ucast IOT_PROTO_TYPE_MODBUSTCP,
                              ia_addr_info = overwrite (enc_IotModbusTcpAddr \<lparr>ma_ip = [192, 168, 137, 2],
                                ma_port = 502, ma_unit_id = 0, ma_reg_addr = 0, ma_reg_num = 1\<rparr>)
                                (ia_addr_info (mb_addr m))\<rparr>\<rparr>)))
         | _ \<Rightarrow> Some (BACKEND_PROXY_PROCESS_ERROR, sess, msg_buf))
      else Some (BACKEND_PROXY_PROCESS_ERROR, sess, msg_buf))"


section \<open>Modbus frames\<close>

text \<open>\<open>start_addr\<close> and \<open>reg_num\<close> are ints of which two bytes each travel, high byte first.\<close>

definition int_byte :: "nat \<Rightarrow> int \<Rightarrow> u8" where
  "int_byte k i = word_of_int (drop_bit (8 * k) i AND 0xFF)"

definition modbus_tcp_build_read_holding_registers_msg :: "bytes \<Rightarrow> int \<Rightarrow> int \<Rightarrow> int \<times> bytes" where
  "modbus_tcp_build_read_holding_registers_msg raw_msg start_addr reg_num =
     (12, overwrite
        ([0x00, 0x01, 0x00, 0x00, 0x00, 0x06, 0x01,
          0x03,
          int_byte 1 start_addr, int_byte 0 start_addr,
          int_byte 1 reg_num, int_byte 0 reg_num]) raw_msg)"

text \<open>
  The register count is read from the response and not compared with its length; \<open>rsp\<close> is the
  memory the response lies in and \<open>out_regs\<close> the caller's array.
\<close>

definition modbus_tcp_parse_registers_from_response ::
  "bytes \<Rightarrow> int \<Rightarrow> u16 list \<Rightarrow> (int \<times> u16 list) option" where
  "modbus_tcp_parse_registers_from_response rsp rsp_len out_regs =
     (if rsp_len < 9 then Some (-1, out_regs)
      else if length rsp < 9 then None
      else if rsp ! 7 \<noteq> 0x03 then Some (-1, out_regs)
      else
        let reg_count = unat (rsp ! 8) div 2
        in if 9 + 2 * reg_count > length rsp \<or> reg_count > length out_regs then None
           else Some (int reg_count,
             map (\<lambda>i. push_bit 8 (ucast (rsp ! (9 + i * 2))) OR ucast (rsp ! (10 + i * 2)))
               [0..<reg_count] @ drop reg_count out_regs))"


section \<open>Reading registers\<close>

text \<open>The answer of a Modbus server to a read request, from the protocol.\<close>

definition be16 :: "u16 \<Rightarrow> bytes" where
  "be16 w = [byte_of w 1, byte_of w 0]"

definition modbus_response :: "u16 list \<Rightarrow> bytes" where
  "modbus_response regs = [0, 1, 0, 0] @ be16 (of_nat (3 + 2 * length regs)) @ [1, 3] @
     [of_nat (2 * length regs)] @ concat (map be16 regs)"

lemma length_be16 [simp]: "length (be16 w) = 2"
  by (simp add: be16_def)

lemma length_concat_be16 [simp]: "length (concat (map be16 regs)) = 2 * length regs"
  by (induction regs) simp_all

lemma be16_joins: "push_bit 8 (ucast (byte_of w 1)) OR ucast (byte_of w 0) = (w :: u16)"
proof (rule bit_word_eqI)
  fix n assume "n < LENGTH(16)"
  then show "bit (push_bit 8 (ucast (byte_of w 1)) OR ucast (byte_of w 0) :: u16) n = bit w n"
    by (auto simp: bit_or_iff bit_push_bit_iff bit_ucast_iff bit_byte_of)
qed

lemma nth_concat_be16:
  "i < length regs \<Longrightarrow> concat (map be16 regs) ! (i * 2) = byte_of (regs ! i) 1"
  "i < length regs \<Longrightarrow> concat (map be16 regs) ! (Suc (i * 2)) = byte_of (regs ! i) 0"
proof (induction regs arbitrary: i)
  case (Cons r regs)
  { case 1 then show ?case using Cons.IH(1) by (cases i) (simp_all add: be16_def) }
  { case 2 then show ?case using Cons.IH(2) by (cases i) (simp_all add: be16_def) }
qed simp_all

text \<open>
  The parser inverts the protocol's register response: from the answer that carries up to
  127 registers it returns their number and their values in order, and it leaves the rest of the
  caller's array alone.
\<close>

lemma modbus_parse_reads_registers:
  assumes "length regs \<le> 127" "length regs \<le> length out"
  shows "modbus_tcp_parse_registers_from_response (modbus_response regs)
     (int (length (modbus_response regs))) out
   = Some (int (length regs), regs @ drop (length regs) out)"
proof -
  let ?r = "modbus_response regs"
  have len: "length ?r = 9 + 2 * length regs" by (simp add: modbus_response_def)
  have hdr: "?r ! 7 = 3" "unat (?r ! 8) = 2 * length regs"
    using assms(1)
    by (simp_all add: modbus_response_def be16_def unat_of_nat take_bit_nat_eq_self del: of_nat_mult)
  have body: "?r ! (9 + k) = concat (map be16 regs) ! k" for k
    by (simp add: modbus_response_def be16_def)
  have "push_bit 8 (ucast (?r ! (9 + i * 2))) OR ucast (?r ! (10 + i * 2)) = regs ! i"
    if "i < length regs" for i
    using body [of "i * 2"] body [of "Suc (i * 2)"] nth_concat_be16 [OF that]
    using be16_joins [of "regs ! i"] by simp
  then have "map (\<lambda>i. push_bit 8 (ucast (?r ! (9 + i * 2))) OR ucast (?r ! (10 + i * 2)))
      [0..<length regs] = regs"
    by (intro nth_equalityI) simp_all
  then show ?thesis
    using assms hdr by (simp add: modbus_tcp_parse_registers_from_response_def len Let_def)
qed

text \<open>
  No complete CAN frame is received safely.  A frame has eight data bytes and \<open>read\<close>
  delivers its sixteen bytes, but sixteen bytes are copied from the data field: every successful
  read of a whole frame by a client session runs past the end of the frame.
\<close>

lemma can_recv_overreads:
  assumes "is_working_mode sess = IOT_WORK_MODE_CLIENT" "length (cf_data frame) = 8"
  shows "length (enc_can_frame frame) = 16
    \<and> can_recv_from_remote (int (length (enc_can_frame frame))) frame errno sess msg_buf = None"
proof -
  have "length (enc_can_frame frame) = 16" using assms(2) by (simp add: enc_can_frame_def)
  then show ?thesis using assms by (simp add: can_recv_from_remote_def)
qed

end
