(* ===== verification/Backend_Proto.thy ===== *)
theory Backend_Proto
  imports Session_Data Iot_Session
begin

text \<open>
  The protocol dispatcher (\<open>src/src/backend_proto.c\<close>): a message taken from the receive queue
  is checked, and handed to the handler of its kind.  Device and strategy handlers only check
  the message; session handlers create and close sessions; data messages are queued on their
  session; IoT messages go to the session of their device.

  A message is the memory from its first byte to the end of the receiving buffer; reading past
  that end makes the model stop (\<open>None\<close>).
\<close>

section \<open>State and environment\<close>

text \<open>
  The two global pointers (engine and pool set or NULL), the backend, and the IoT sessions.
\<close>

record proxy =
  px_engine_set :: bool
  px_pool_set :: bool
  px_backend :: backend
  px_iot :: iot_sessions

text \<open>
  What handling one message gets from outside: the environment of a session creation, results
  of \<open>epoll_ctl\<close>, the memory for a message segment, the result of \<open>write\<close> on an IoT device.
\<close>

record msg_oracle =
  mo_create :: sess_oracle
  mo_epoll_ok :: bool
  mo_epoll_del_ok :: bool
  mo_seg_ok :: bool
  mo_seg_buf :: "bytes option"
  mo_iot_write :: int

definition set_backend :: "proxy \<Rightarrow> (int \<times> backend) option \<Rightarrow> (int \<times> proxy) option" where
  "set_backend px r = map_option (\<lambda>(ret, st). (ret, px\<lparr>px_backend := st\<rparr>)) r"

abbreviation fails :: "proxy \<Rightarrow> (int \<times> proxy) option" where
  "fails px \<equiv> Some (BACKEND_PROXY_PROCESS_ERROR, px)"


section \<open>Validity macros\<close>

definition PROXY_MSG_TYPE_VALID :: "u8 \<Rightarrow> bool" where
  "PROXY_MSG_TYPE_VALID x \<longleftrightarrow> x = PROXY_MSG_TYPE_DEV \<or> x = PROXY_MSG_TYPE_STRGY \<or>
     x = PROXY_MSG_TYPE_SESS \<or> x = PROXY_MSG_TYPE_DATA \<or> x = PROXY_MSG_TYPE_IOT"

text \<open>Both of the following macros join their bounds with \<open>||\<close>.\<close>

definition PROXY_MSG_LEN_VALID :: "int \<Rightarrow> bool" where
  "PROXY_MSG_LEN_VALID x \<longleftrightarrow> x \<ge> int PROXY_MSG_MIN_SIZE \<or> x \<le> int PROXY_MSG_MAX_SIZE"

definition PROXY_HANDOVER_SESSION_ID :: u16 where "PROXY_HANDOVER_SESSION_ID = 0xFFFF"

definition APP_SESSION_ID_VALID :: "u16 \<Rightarrow> bool" where
  "APP_SESSION_ID_VALID x \<longleftrightarrow> x \<noteq> PROXY_ADMIN_SESSION_ID \<or> x \<noteq> PROXY_HANDOVER_SESSION_ID"


section \<open>Device and strategy messages\<close>

definition backend_proxy_dev_msg_process_enable_ver1 :: int where
  "backend_proxy_dev_msg_process_enable_ver1 = BACKEND_PROXY_PROCESS_OK"

definition backend_proxy_dev_msg_process_disable_ver1 :: int where
  "backend_proxy_dev_msg_process_disable_ver1 = BACKEND_PROXY_PROCESS_OK"

definition backend_proxy_dev_msg_process_query_ver1 :: int where
  "backend_proxy_dev_msg_process_query_ver1 = BACKEND_PROXY_PROCESS_OK"

definition backend_proxy_dev_msg_process_ver1 :: "u16 \<Rightarrow> u16 \<Rightarrow> u16 \<Rightarrow> int" where
  "backend_proxy_dev_msg_process_ver1 msg_type action_type payload_len =
     (let corr_len = DEV_MSG_PAYLOAD_LEN msg_type action_type
      in if corr_len = PROXY_MSG_INVALID_LEN \<or> corr_len \<noteq> uint payload_len
         then BACKEND_PROXY_PROCESS_ERROR
         else if msg_type = DEV_MSG_DISABLE then backend_proxy_dev_msg_process_disable_ver1
         else if msg_type = DEV_MSG_ENABLE then backend_proxy_dev_msg_process_enable_ver1
         else if msg_type = DEV_MSG_QUERY then backend_proxy_dev_msg_process_query_ver1
         else BACKEND_PROXY_PROCESS_ERROR)"

definition backend_proxy_dev_msg_process :: "bytes option \<Rightarrow> int option" where
  "backend_proxy_dev_msg_process msg =
     (case msg of
        None \<Rightarrow> Some BACKEND_PROXY_PROCESS_ERROR
      | Some b \<Rightarrow>
          if length b < 10 then None
          else
            let h = dec_DevMsgHeader b
            in Some (if dh_action_type h \<noteq> ACTION_TYPE_COMMAND then BACKEND_PROXY_PROCESS_ERROR
                     else if dh_version h = PROXY_PROTO_DEV_VERSION_1
                     then backend_proxy_dev_msg_process_ver1 (dh_msg_type h) (dh_action_type h)
                            (dh_payload_len h)
                     else BACKEND_PROXY_PROCESS_ERROR))"

definition backend_proxy_strgy_msg_process_set_ver1 :: int where
  "backend_proxy_strgy_msg_process_set_ver1 = BACKEND_PROXY_PROCESS_OK"

definition backend_proxy_strgy_msg_process_query_ver1 :: int where
  "backend_proxy_strgy_msg_process_query_ver1 = BACKEND_PROXY_PROCESS_OK"

definition backend_proxy_strgy_msg_process_ver1 :: "u16 \<Rightarrow> u16 \<Rightarrow> u16 \<Rightarrow> int" where
  "backend_proxy_strgy_msg_process_ver1 msg_type action_type payload_len =
     (let corr_len = STRGY_MSG_PAYLOAD_LEN msg_type action_type
      in if corr_len = PROXY_MSG_INVALID_LEN \<or> corr_len \<noteq> uint payload_len
         then BACKEND_PROXY_PROCESS_ERROR
         else if msg_type = STRGY_MSG_SET then backend_proxy_strgy_msg_process_set_ver1
         else if msg_type = STRGY_MSG_QUERY then backend_proxy_strgy_msg_process_query_ver1
         else BACKEND_PROXY_PROCESS_ERROR)"

definition backend_proxy_strgy_msg_process :: "bytes option \<Rightarrow> int option" where
  "backend_proxy_strgy_msg_process msg =
     (case msg of
        None \<Rightarrow> Some BACKEND_PROXY_PROCESS_ERROR
      | Some b \<Rightarrow>
          if length b < 10 then None
          else
            let h = dec_StrgyMsgHeader b
            in Some (if th_action_type h \<noteq> ACTION_TYPE_COMMAND then BACKEND_PROXY_PROCESS_ERROR
                     else if th_version h = PROXY_PROTO_STRGY_VERSION_1
                     then backend_proxy_strgy_msg_process_ver1 (th_msg_type h) (th_action_type h)
                            (th_payload_len h)
                     else BACKEND_PROXY_PROCESS_ERROR))"


section \<open>Session messages\<close>

text \<open>
  The packed \<open>SessParaIPv4\<close> (10 bytes) and \<open>SessParaIPv6\<close> (22 bytes) read into the creation
  parameters: device, transport protocol, then address and port.  The backend id is not set
  here (\<open>uninit\<close>).
\<close>

definition sess_para_ip :: "u16 \<Rightarrow> nat \<Rightarrow> u16 \<Rightarrow> u16 \<Rightarrow> bytes \<Rightarrow> SessMsgPara" where
  "sess_para_ip ip_version tuple_size uninit frontend_sess_id b =
     \<lparr>sm_frontend_sess_id = frontend_sess_id, sm_backend_sess_id = uninit, sm_dev_id = get_u16 b 0,
      sm_ip_version = ip_version, sm_trans_proto = get_u16 b 2,
      sm_ip_port_tuple = take tuple_size (drop 4 b)\<rparr>"

definition backend_proxy_sess_msg_process_active_create_ver1 ::
  "msg_oracle \<Rightarrow> u16 \<Rightarrow> u16 \<Rightarrow> u16 \<Rightarrow> bytes \<Rightarrow> proxy \<Rightarrow> (int \<times> proxy) option" where
  "backend_proxy_sess_msg_process_active_create_ver1 orc frontend_sess_id ip_version payload_len
      msg_payload px =
     (let create = (\<lambda>tuple_size.
            if length msg_payload < 4 + tuple_size then None
            else if \<not> sp_ops (st_pool (px_backend px)) then None
            else set_backend px (map_option (\<lambda>(ret, _, st). (ret, st))
                   (high_speed_create_sess_active (mo_create orc)
                      (sess_para_ip ip_version tuple_size (so_uninit_id (mo_create orc))
                         frontend_sess_id msg_payload) (px_backend px))))
      in if \<not> px_pool_set px then fails px
         else if ip_version = SESS_IPV4_PROTO then
           if payload_len \<noteq> 10 then fails px else create 6
         else if ip_version = SESS_IPV6_PROTO then
           if payload_len \<noteq> 22 then fails px else create 18
         else fails px)"

text \<open>
  The checks on engine, pool, memory pool and operations shared by the handlers that look a
  session up; reading through an unset engine pointer cannot happen after them.
\<close>

definition engine_ready :: "proxy \<Rightarrow> bool" where
  "engine_ready px \<longleftrightarrow> px_engine_set px \<and> be_sess_pool (st_eng (px_backend px)) \<and>
     te_mem_pool (be_tx (st_eng (px_backend px))) \<and> sp_ops (st_pool (px_backend px))"

definition backend_proxy_sess_msg_process_passive_create_ver1 ::
  "msg_oracle \<Rightarrow> u16 \<Rightarrow> proxy \<Rightarrow> (int \<times> proxy) option" where
  "backend_proxy_sess_msg_process_passive_create_ver1 orc backend_sess_id px =
     (if \<not> engine_ready px then fails px
      else case high_speed_search_sess (px_backend px) backend_sess_id of
        None \<Rightarrow> fails px
      | Some p \<Rightarrow>
          (case st_sess (px_backend px) p of
             None \<Rightarrow> None
           | Some sess \<Rightarrow>
               if bs_establish_mode sess \<noteq> SESS_ESTABLISH_PASSIVE then fails px
               else set_backend px
                      (BACKEND_SESS_REGISTER_EPOLL (mo_epoll_ok orc) p EPOLLIN (px_backend px))))"

definition backend_proxy_sess_msg_process_close_ver1 ::
  "msg_oracle \<Rightarrow> u16 \<Rightarrow> proxy \<Rightarrow> (int \<times> proxy) option" where
  "backend_proxy_sess_msg_process_close_ver1 orc backend_sess_id px =
     (if \<not> px_pool_set px \<or> \<not> sp_ops (st_pool (px_backend px)) then fails px
      else case high_speed_search_sess (px_backend px) backend_sess_id of
        None \<Rightarrow> fails px
      | Some p \<Rightarrow>
          map_option (\<lambda>(ret, px'). (if ret \<noteq> BACKEND_PROXY_PROCESS_OK then BACKEND_PROXY_PROCESS_ERROR
                                    else BACKEND_PROXY_PROCESS_OK, px'))
            (set_backend px (high_speed_delete_sess (mo_epoll_del_ok orc) (Some p) (px_backend px))))"

definition backend_proxy_sess_msg_process_ver1 ::
  "msg_oracle \<Rightarrow> u16 \<Rightarrow> u16 \<Rightarrow> u16 \<Rightarrow> u16 \<Rightarrow> u16 \<Rightarrow> u16 \<Rightarrow> bytes \<Rightarrow> proxy \<Rightarrow> (int \<times> proxy) option" where
  "backend_proxy_sess_msg_process_ver1 orc frontend_sess_id backend_sess_id msg_type action_type
      ip_version payload_len msg_payload px =
     (let corr_len = SESS_MSG_PAYLOAD_LEN msg_type action_type ip_version
      in if corr_len = PROXY_MSG_INVALID_LEN \<or> corr_len \<noteq> uint payload_len then fails px
         else if msg_type = SESS_MSG_CREATE then
           if backend_sess_id \<noteq> BACKEND_HANDOVER_SESSION_ID then
             if action_type \<noteq> ACTION_TYPE_RESPONSE then fails px
             else backend_proxy_sess_msg_process_passive_create_ver1 orc backend_sess_id px
           else backend_proxy_sess_msg_process_active_create_ver1 orc frontend_sess_id ip_version
                  payload_len msg_payload px
         else if msg_type = SESS_MSG_CLOSE then
           backend_proxy_sess_msg_process_close_ver1 orc backend_sess_id px
         else fails px)"

definition backend_proxy_sess_msg_process ::
  "msg_oracle \<Rightarrow> u16 \<Rightarrow> u16 \<Rightarrow> bytes option \<Rightarrow> proxy \<Rightarrow> (int \<times> proxy) option" where
  "backend_proxy_sess_msg_process orc frontend_sess_id backend_sess_id msg px =
     (case msg of
        None \<Rightarrow> fails px
      | Some b \<Rightarrow>
          if length b < 10 then None
          else
            let h = dec_SessMsgHeader b
            in if sh_action_type h \<noteq> ACTION_TYPE_COMMAND \<and> sh_action_type h \<noteq> ACTION_TYPE_RESPONSE
               then fails px
               else if sh_version h = PROXY_PROTO_SESS_VERSION_1
               then backend_proxy_sess_msg_process_ver1 orc frontend_sess_id backend_sess_id
                      (sh_msg_type h) (sh_action_type h) (sh_ip_version h) (sh_payload_len h)
                      (drop 10 b) px
               else fails px)"


section \<open>Data messages\<close>

text \<open>
  The payload is copied into a segment of its own, which joins the session's queue towards the
  socket; the session joins the pool's queue of sessions with data.
\<close>

definition backend_proxy_data_msg_process ::
  "msg_oracle \<Rightarrow> u16 \<Rightarrow> u16 \<Rightarrow> bytes \<Rightarrow> proxy \<Rightarrow> (int \<times> proxy) option" where
  "backend_proxy_data_msg_process orc backend_sess_id data_len msg px =
     (if \<not> engine_ready px then fails px
      else case high_speed_search_sess (px_backend px) backend_sess_id of
        None \<Rightarrow> fails px
      | Some p \<Rightarrow>
          (case st_sess (px_backend px) p of
             None \<Rightarrow> None
           | Some sess \<Rightarrow>
               (case sess_msg_seg_alloc (mo_seg_ok orc) (mo_seg_buf orc) (unat data_len)
                       SESS_MSG_SEG_DYNAMIC_ALLOC 0 True of
                  None \<Rightarrow> fails px
                | Some seg \<Rightarrow>
                    if unat data_len > length msg then None
                    else
                      let seg' = seg\<lparr>sg_data := Own_buffer (overwrite (take (unat data_len) msg)
                                                           (own_bytes (sg_data seg)))\<rparr>;
                          sess' = SESS_MSG_SEG_INSERT_QUEUE sess (Some seg') F2B
                      in set_backend px (map_option (\<lambda>st. (BACKEND_PROXY_PROCESS_OK, st))
                           (BACKEND_SESS_LINK_TO_QUEUE p F2B (put_sess p sess' (px_backend px)))))))"


section \<open>IoT messages\<close>

definition BACKEND_BLUETOOTH_MAX_PAYLOAD :: nat where "BACKEND_BLUETOOTH_MAX_PAYLOAD = 244"
definition BACKEND_CAN_MAX_PAYLOAD :: nat where "BACKEND_CAN_MAX_PAYLOAD = 64"
definition BACKEND_MODBUS_TCP_MAX_PAYLOAD :: nat where "BACKEND_MODBUS_TCP_MAX_PAYLOAD = 253"

lemmas iot_limits = BACKEND_BLUETOOTH_MAX_PAYLOAD_def BACKEND_CAN_MAX_PAYLOAD_def
  BACKEND_MODBUS_TCP_MAX_PAYLOAD_def iot_sizes

text \<open>
  The buffer a handler makes of an IoT message: the packed address at the front of the data is
  copied field by field into a cleared address union, the rest is the payload.
\<close>

definition iot_msg_buffer :: "nat \<Rightarrow> u32 \<Rightarrow> bytes \<Rightarrow> IotMsgBuffer" where
  "iot_msg_buffer addr_size len iot_data =
     \<lparr>mb_data = drop addr_size iot_data, mb_len = len,
      mb_addr = \<lparr>ia_addr_type = 0,
                 ia_addr_info = overwrite (take addr_size iot_data) (replicate sizeof_addr_info 0)\<rparr>\<rparr>"

definition iot_emits :: "sys_event list \<Rightarrow> iot_sessions \<Rightarrow> proxy \<Rightarrow> proxy" where
  "iot_emits ev iot px = px\<lparr>px_backend := emits ev (px_backend px), px_iot := iot\<rparr>"

definition backend_proxy_bluetooth_msg_process ::
  "msg_oracle \<Rightarrow> IotMsgHeader \<Rightarrow> bytes \<Rightarrow> proxy \<Rightarrow> (int \<times> proxy) option" where
  "backend_proxy_bluetooth_msg_process orc iot_header iot_data px =
     (let payload_len = unat (ih_payload_len iot_header)
      in case backend_bluetooth_sess (px_iot px) of
        None \<Rightarrow> fails px
      | Some sess \<Rightarrow>
          if payload_len > BACKEND_BLUETOOTH_MAX_PAYLOAD then fails px
          else if payload_len < sizeof_IotBtAddr then fails px
          else if length iot_data < sizeof_IotBtAddr then None
          else map_option (\<lambda>(ret, sess', ev).
                 (ret, iot_emits ev ((px_iot px)\<lparr>backend_bluetooth_sess := Some sess'\<rparr>) px))
                 (bluetooth_send_to_remote (mo_iot_write orc) sess
                    (iot_msg_buffer sizeof_IotBtAddr (of_nat (payload_len - sizeof_IotBtAddr)) iot_data)))"

definition backend_proxy_can_msg_process ::
  "msg_oracle \<Rightarrow> IotMsgHeader \<Rightarrow> bytes \<Rightarrow> proxy \<Rightarrow> (int \<times> proxy) option" where
  "backend_proxy_can_msg_process orc iot_header iot_data px =
     (let payload_len = unat (ih_payload_len iot_header)
      in case backend_can_sess (px_iot px) of
        None \<Rightarrow> fails px
      | Some sess \<Rightarrow>
          if payload_len > BACKEND_CAN_MAX_PAYLOAD then fails px
          else if payload_len < sizeof_IotCanAddr then fails px
          else if length iot_data < sizeof_IotCanAddr then None
          else map_option (\<lambda>(ret, sess', ev).
                 (ret, iot_emits ev ((px_iot px)\<lparr>backend_can_sess := sess'\<rparr>) px))
                 (can_send_to_remote (mo_iot_write orc) (Some sess)
                    (Some (iot_msg_buffer sizeof_IotCanAddr (of_nat (payload_len - sizeof_IotCanAddr))
                             iot_data))))"

definition backend_proxy_zigbee_msg_process :: "proxy \<Rightarrow> (int \<times> proxy) option" where
  "backend_proxy_zigbee_msg_process px =
     (if backend_zigbee_sess (px_iot px) = None then fails px else Some (BACKEND_PROXY_PROCESS_OK, px))"

definition backend_proxy_lora_msg_process :: "proxy \<Rightarrow> (int \<times> proxy) option" where
  "backend_proxy_lora_msg_process px =
     (if backend_lora_sess (px_iot px) = None then fails px else Some (BACKEND_PROXY_PROCESS_OK, px))"

definition backend_proxy_powerlink_msg_process :: "proxy \<Rightarrow> (int \<times> proxy) option" where
  "backend_proxy_powerlink_msg_process px =
     (if backend_powerlink_sess (px_iot px) = None then fails px
      else Some (BACKEND_PROXY_PROCESS_OK, px))"

text \<open>Here the address size is not subtracted from the length.\<close>

definition backend_proxy_modbustcp_msg_process ::
  "IotMsgHeader \<Rightarrow> bytes \<Rightarrow> proxy \<Rightarrow> (int \<times> proxy) option" where
  "backend_proxy_modbustcp_msg_process iot_header iot_data px =
     (let payload_len = unat (ih_payload_len iot_header)
      in case backend_modbustcp_sess (px_iot px) of
        None \<Rightarrow> fails px
      | Some sess \<Rightarrow>
          if payload_len > BACKEND_MODBUS_TCP_MAX_PAYLOAD then fails px
          else if payload_len < sizeof_IotModbusTcpAddr then fails px
          else if length iot_data < sizeof_IotModbusTcpAddr then None
          else map_option (\<lambda>(ret, sess').
                 (ret, px\<lparr>px_iot := (px_iot px)\<lparr>backend_modbustcp_sess := Some sess'\<rparr>\<rparr>))
                 (modbustcp_send_to_remote sess
                    (iot_msg_buffer sizeof_IotModbusTcpAddr (of_nat payload_len) iot_data)))"

definition backend_proxy_iot_msg_process ::
  "msg_oracle \<Rightarrow> u16 \<Rightarrow> bytes option \<Rightarrow> proxy \<Rightarrow> (int \<times> proxy) option" where
  "backend_proxy_iot_msg_process orc msg_len msg px =
     (case msg of
        None \<Rightarrow> fails px
      | Some b \<Rightarrow>
          if length b < 12 then None
          else
            let h = dec_IotMsgHeader b;
                proto = ih_proto_type h;
                too_short = (\<lambda>addr_size. unat msg_len < 12 + addr_size)
            in if proto = IOT_PROTO_TYPE_BLUETOOTH then
                 if too_short sizeof_IotBtAddr then fails px
                 else backend_proxy_bluetooth_msg_process orc h (drop 12 b) px
               else if proto = IOT_PROTO_TYPE_CAN then
                 if too_short sizeof_IotCanAddr then fails px
                 else backend_proxy_can_msg_process orc h (drop 12 b) px
               else if proto = IOT_PROTO_TYPE_ZIGBEE then
                 if too_short sizeof_IotZigbeeAddr then fails px
                 else backend_proxy_zigbee_msg_process px
               else if proto = IOT_PROTO_TYPE_LORA then
                 if too_short sizeof_IotLoraAddr then fails px
                 else backend_proxy_lora_msg_process px
               else if proto = IOT_PROTO_TYPE_POWERLINK then
                 if too_short sizeof_IotPowerLinkAddr then fails px
                 else backend_proxy_powerlink_msg_process px
               else if proto = IOT_PROTO_TYPE_MODBUSTCP then
                 if too_short sizeof_IotModbusTcpAddr then fails px
                 else backend_proxy_modbustcp_msg_process h (drop 12 b) px
               else fails px)"


section \<open>Dispatch\<close>

definition backend_proxy_msg_process ::
  "msg_oracle \<Rightarrow> bytes \<Rightarrow> proxy \<Rightarrow> (int \<times> proxy) option" where
  "backend_proxy_msg_process orc msg px =
     (if length msg < PROXY_MSG_HDR_SIZE then None
      else
        let h = dec_ProxyMsgHeader msg;
            frontend_sess_id = ph_frontend_sess_id h;
            backend_sess_id = ph_backend_sess_id h;
            msg_type = ph_proxy_msg_type h;
            msg_len = ph_payload_len h;
            msg_ptr = drop PROXY_MSG_HDR_SIZE msg;
            admin = (frontend_sess_id = PROXY_ADMIN_SESSION_ID \<and> backend_sess_id = PROXY_ADMIN_SESSION_ID)
        in if \<not> PROXY_MSG_TYPE_VALID msg_type then fails px
           else if \<not> PROXY_MSG_LEN_VALID (uint msg_len) then fails px
           else if msg_type = PROXY_MSG_TYPE_DEV then
             if \<not> admin then fails px
             else map_option (\<lambda>ret. (ret, px)) (backend_proxy_dev_msg_process (Some msg_ptr))
           else if msg_type = PROXY_MSG_TYPE_STRGY then
             if \<not> admin then fails px
             else map_option (\<lambda>ret. (ret, px)) (backend_proxy_strgy_msg_process (Some msg_ptr))
           else if msg_type = PROXY_MSG_TYPE_SESS then
             backend_proxy_sess_msg_process orc frontend_sess_id backend_sess_id (Some msg_ptr) px
           else if msg_type = PROXY_MSG_TYPE_DATA then
             if \<not> APP_SESSION_ID_VALID frontend_sess_id \<or> \<not> APP_SESSION_ID_VALID backend_sess_id
             then fails px
             else backend_proxy_data_msg_process orc backend_sess_id msg_len msg_ptr px
           else if msg_type = PROXY_MSG_TYPE_IOT then
             backend_proxy_iot_msg_process orc msg_len (Some msg_ptr) px
           else fails px)"

end
