(* ===== verification/Proto_Lemmas.thy ===== *)
theory Proto_Lemmas
  imports Backend_Proto
begin

text \<open>
  What the dispatcher guarantees: refused messages change nothing, data messages reach their
  session's queue, create and close messages reach the session pool with the parameters they
  carry, CAN messages become frames.
\<close>

section \<open>Reading messages\<close>

definition sess_message :: "u16 \<Rightarrow> u16 \<Rightarrow> u16 \<Rightarrow> SessMsgHeader \<Rightarrow> bytes \<Rightarrow> bytes" where
  "sess_message f i len h payload =
     enc_ProxyMsgHeader \<lparr>ph_version = PROXY_PROTO_VERSION_1, ph_proxy_msg_type = PROXY_MSG_TYPE_SESS,
       ph_frontend_sess_id = f, ph_backend_sess_id = i, ph_payload_len = len\<rparr> @
     enc_SessMsgHeader h @ payload"

definition data_message :: "u16 \<Rightarrow> u16 \<Rightarrow> bytes \<Rightarrow> bytes" where
  "data_message f i d =
     enc_ProxyMsgHeader \<lparr>ph_version = PROXY_PROTO_VERSION_1, ph_proxy_msg_type = PROXY_MSG_TYPE_DATA,
       ph_frontend_sess_id = f, ph_backend_sess_id = i, ph_payload_len = of_nat (length d)\<rparr> @ d"

definition iot_message :: "u16 \<Rightarrow> u16 \<Rightarrow> IotMsgHeader \<Rightarrow> bytes \<Rightarrow> bytes" where
  "iot_message f i h body =
     enc_ProxyMsgHeader \<lparr>ph_version = PROXY_PROTO_VERSION_1, ph_proxy_msg_type = PROXY_MSG_TYPE_IOT,
       ph_frontend_sess_id = f, ph_backend_sess_id = i, ph_payload_len = of_nat (12 + length body)\<rparr> @
     enc_IotMsgHeader h @ body"

lemma PROXY_MSG_LEN_VALID_true [simp]: "PROXY_MSG_LEN_VALID x"
  by (auto simp: PROXY_MSG_LEN_VALID_def PROXY_MSG_MIN_SIZE_def PROXY_MSG_MAX_SIZE_def)

lemma APP_SESSION_ID_VALID_true [simp]: "APP_SESSION_ID_VALID x"
  by (auto simp: APP_SESSION_ID_VALID_def PROXY_ADMIN_SESSION_ID_def PROXY_HANDOVER_SESSION_ID_def)

lemma set_backend_simps [simp]:
  "set_backend px None = None" "set_backend px (Some (ret, st)) = Some (ret, px\<lparr>px_backend := st\<rparr>)"
  by (simp_all add: set_backend_def)

lemmas header_simps = dec_enc_ProxyMsgHeader dec_enc_SessMsgHeader dec_enc_IotMsgHeader

text \<open>What each kind of message leads to once its headers are read.\<close>

lemma process_sess_message:
  "backend_proxy_msg_process orc (sess_message f i len h payload) px =
     backend_proxy_sess_msg_process orc f i (Some (enc_SessMsgHeader h @ payload)) px"
  by (simp add: backend_proxy_msg_process_def sess_message_def header_simps PROXY_MSG_HDR_SIZE_def
      PROXY_MSG_TYPE_VALID_def proxy_msg_types Let_def)

lemma process_sess_command:
  assumes "sh_version h = PROXY_PROTO_SESS_VERSION_1"
    and "sh_action_type h = ACTION_TYPE_COMMAND \<or> sh_action_type h = ACTION_TYPE_RESPONSE"
  shows "backend_proxy_msg_process orc (sess_message f i len h payload) px =
     backend_proxy_sess_msg_process_ver1 orc f i (sh_msg_type h) (sh_action_type h) (sh_ip_version h)
       (sh_payload_len h) payload px"
  using assms unfolding process_sess_message
  by (auto simp: backend_proxy_sess_msg_process_def header_simps Let_def)

lemma process_data_message:
  "backend_proxy_msg_process orc (data_message f i d @ rest) px =
     backend_proxy_data_msg_process orc i (of_nat (length d)) (d @ rest) px"
  by (simp add: backend_proxy_msg_process_def data_message_def header_simps PROXY_MSG_HDR_SIZE_def
      PROXY_MSG_TYPE_VALID_def proxy_msg_types Let_def)

lemma process_iot_message:
  "backend_proxy_msg_process orc (iot_message f i h body) px =
     backend_proxy_iot_msg_process orc (of_nat (12 + length body)) (Some (enc_IotMsgHeader h @ body)) px"
  by (simp add: backend_proxy_msg_process_def iot_message_def header_simps PROXY_MSG_HDR_SIZE_def
      PROXY_MSG_TYPE_VALID_def proxy_msg_types Let_def)


section \<open>Refused messages\<close>

definition sess_refused :: "proxy \<Rightarrow> u16 \<Rightarrow> SessMsgHeader \<Rightarrow> bool" where
  "sess_refused px i h \<longleftrightarrow>
     sh_version h \<noteq> PROXY_PROTO_SESS_VERSION_1
   \<or> sh_action_type h \<notin> {ACTION_TYPE_COMMAND, ACTION_TYPE_RESPONSE}
   \<or> SESS_MSG_PAYLOAD_LEN (sh_msg_type h) (sh_action_type h) (sh_ip_version h) \<noteq> uint (sh_payload_len h)
   \<or> sh_msg_type h = SESS_MSG_CREATE \<and>
       (sh_action_type h = ACTION_TYPE_RESPONSE \<longleftrightarrow> i = BACKEND_HANDOVER_SESSION_ID)
   \<or> (sh_msg_type h = SESS_MSG_CLOSE \<or> i \<noteq> BACKEND_HANDOVER_SESSION_ID) \<and>
       high_speed_search_sess (px_backend px) i = None"

definition msg_refused :: "proxy \<Rightarrow> bytes \<Rightarrow> bool" where
  "msg_refused px msg \<longleftrightarrow>
     (let h = dec_ProxyMsgHeader msg; t = ph_proxy_msg_type h; i = ph_backend_sess_id h
      in \<not> PROXY_MSG_TYPE_VALID t
       \<or> t \<in> {PROXY_MSG_TYPE_DEV, PROXY_MSG_TYPE_STRGY} \<and>
           (ph_frontend_sess_id h \<noteq> PROXY_ADMIN_SESSION_ID \<or> i \<noteq> PROXY_ADMIN_SESSION_ID)
       \<or> t = PROXY_MSG_TYPE_SESS \<and> sess_refused px i (dec_SessMsgHeader (drop PROXY_MSG_HDR_SIZE msg))
       \<or> t = PROXY_MSG_TYPE_DATA \<and> high_speed_search_sess (px_backend px) i = None
       \<or> t = PROXY_MSG_TYPE_IOT \<and>
           get_iot_addr_length (ih_proto_type (dec_IotMsgHeader (drop PROXY_MSG_HDR_SIZE msg))) = 0)"

lemma sess_refused_fails:
  assumes "sess_refused px i h" "h = dec_SessMsgHeader b" "10 \<le> length b"
  shows "backend_proxy_sess_msg_process orc f i (Some b) px = fails px"
proof -
  consider "sh_version h \<noteq> PROXY_PROTO_SESS_VERSION_1
      \<or> sh_action_type h \<notin> {ACTION_TYPE_COMMAND, ACTION_TYPE_RESPONSE}"
    | "SESS_MSG_PAYLOAD_LEN (sh_msg_type h) (sh_action_type h) (sh_ip_version h) \<noteq> uint (sh_payload_len h)"
    | "sh_msg_type h = SESS_MSG_CREATE" "sh_action_type h = ACTION_TYPE_RESPONSE \<longleftrightarrow> i = BACKEND_HANDOVER_SESSION_ID"
      "SESS_MSG_PAYLOAD_LEN (sh_msg_type h) (sh_action_type h) (sh_ip_version h) = uint (sh_payload_len h)"
    | "sh_msg_type h = SESS_MSG_CLOSE \<or> i \<noteq> BACKEND_HANDOVER_SESSION_ID"
      "high_speed_search_sess (px_backend px) i = None"
    using assms(1) unfolding sess_refused_def by argo
  then show ?thesis
  proof cases
    case 1
    then show ?thesis using assms(2,3) by (auto simp: backend_proxy_sess_msg_process_def Let_def)
  next
    case 2
    then show ?thesis using assms(2,3)
      by (auto simp: backend_proxy_sess_msg_process_def backend_proxy_sess_msg_process_ver1_def Let_def)
  next
    case 3
    have "payload_len \<noteq> 10 \<and> payload_len \<noteq> 22" if "2 = uint payload_len" for payload_len :: u16
      using that by auto
    then show ?thesis using 3 assms(2,3)
      by (auto simp: backend_proxy_sess_msg_process_def backend_proxy_sess_msg_process_ver1_def Let_def
          backend_proxy_sess_msg_process_active_create_ver1_def SESS_MSG_PAYLOAD_LEN_def msg_codes)
  next
    case 4
    then show ?thesis using assms(2,3)
      by (auto simp: backend_proxy_sess_msg_process_def backend_proxy_sess_msg_process_ver1_def Let_def
          backend_proxy_sess_msg_process_passive_create_ver1_def msg_codes
          backend_proxy_sess_msg_process_close_ver1_def)
  qed
qed

text \<open>
  C17.  A message that is not addressed properly changes nothing.  An unknown message type, a
  device or strategy message that is not from admin session to admin session, a session message
  of another version, with an unknown action, with a payload length that does not fit its type, a
  create command for an id that is already allocated, a close, data or passive-create message for
  an id without a session, and an IoT message of an unknown protocol all return ERROR and leave
  the whole state as it was.
\<close>

theorem refused_message_changes_nothing:
  assumes "msg_refused px msg" "PROXY_MSG_HDR_SIZE + 12 \<le> length msg"
  shows "backend_proxy_msg_process orc msg px = Some (BACKEND_PROXY_PROCESS_ERROR, px)"
proof -
  let ?h = "dec_ProxyMsgHeader msg" and ?b = "drop PROXY_MSG_HDR_SIZE msg"
  have len: "\<not> length msg < PROXY_MSG_HDR_SIZE" "12 \<le> length ?b" "10 \<le> length ?b" using assms(2) by auto
  note def = backend_proxy_msg_process_def Let_def if_not_P [OF len(1)]
  consider "\<not> PROXY_MSG_TYPE_VALID (ph_proxy_msg_type ?h)"
    | "ph_proxy_msg_type ?h \<in> {PROXY_MSG_TYPE_DEV, PROXY_MSG_TYPE_STRGY}"
      "ph_frontend_sess_id ?h \<noteq> PROXY_ADMIN_SESSION_ID \<or> ph_backend_sess_id ?h \<noteq> PROXY_ADMIN_SESSION_ID"
    | "ph_proxy_msg_type ?h = PROXY_MSG_TYPE_SESS" "sess_refused px (ph_backend_sess_id ?h) (dec_SessMsgHeader ?b)"
    | "ph_proxy_msg_type ?h = PROXY_MSG_TYPE_DATA"
      "high_speed_search_sess (px_backend px) (ph_backend_sess_id ?h) = None"
    | "ph_proxy_msg_type ?h = PROXY_MSG_TYPE_IOT" "get_iot_addr_length (ih_proto_type (dec_IotMsgHeader ?b)) = 0"
    using assms(1) by (auto simp: msg_refused_def Let_def)
  then show ?thesis
  proof cases
    case 1
    then show ?thesis by (simp add: def)
  next
    case 2
    then show ?thesis by (auto simp: def proxy_msg_types)
  next
    case 3
    then show ?thesis using sess_refused_fails [OF 3(2) refl len(3)]
      by (simp add: def proxy_msg_types PROXY_MSG_TYPE_VALID_def)
  next
    case 4
    then show ?thesis
      by (simp add: def proxy_msg_types PROXY_MSG_TYPE_VALID_def backend_proxy_data_msg_process_def)
  next
    case 5
    then show ?thesis using len(2)
      by (auto simp: def proxy_msg_types PROXY_MSG_TYPE_VALID_def backend_proxy_iot_msg_process_def
          get_iot_addr_length_def iot_sizes split: if_splits)
  qed
qed


section \<open>Data messages\<close>

definition payload_segment :: "bytes \<Rightarrow> SessMsgSeg" where
  "payload_segment d = \<lparr>sg_len = of_nat (length d), sg_type = SESS_MSG_SEG_DYNAMIC_ALLOC,
     sg_data = Own_buffer d\<rparr>"

text \<open>The session has joined the queue of sessions with data for the socket, if it had not yet.\<close>

definition enqueued_f2b :: "nat \<Rightarrow> BackendSession \<Rightarrow> nat list \<Rightarrow> nat list" where
  "enqueued_f2b p s q =
     (if bs_state_f2b s AND BACKEND_SESS_LINKED_TO_QUEUE = 0 then q @ [p] else q)"

lemma link_f2b:
  assumes "st_sess st p = Some s" "bs_eng s" "be_sess_pool (st_eng st)"
  shows "\<exists>st'. BACKEND_SESS_LINK_TO_QUEUE p F2B st = Some st'
    \<and> st_sess st' = (st_sess st)(p \<mapsto> s\<lparr>bs_state_f2b := bs_state_f2b s OR BACKEND_SESS_LINKED_TO_QUEUE\<rparr>)
    \<and> st_pool st' = (st_pool st)\<lparr>sp_queue_f2b := enqueued_f2b p s (sp_queue_f2b (st_pool st))\<rparr>
    \<and> st_eng st' = st_eng st \<and> st_trace st' = st_trace st"
proof (cases "bs_state_f2b s AND BACKEND_SESS_LINKED_TO_QUEUE = 0")
  case True
  then show ?thesis using assms
    by (simp add: BACKEND_SESS_LINK_TO_QUEUE_def enqueued_f2b_def put_sess_def)
next
  case False
  then have "bit (bs_state_f2b s) 0"
    by (simp add: BACKEND_SESS_LINKED_TO_QUEUE_def bit_0 and_one_eq odd_iff_mod_2_eq_one)
  then have "bs_state_f2b s OR BACKEND_SESS_LINKED_TO_QUEUE = bs_state_f2b s"
    by (intro bit_word_eqI) (auto simp: BACKEND_SESS_LINKED_TO_QUEUE_def bit_or_iff bit_1_iff)
  then show ?thesis using assms False
    by (simp add: BACKEND_SESS_LINK_TO_QUEUE_def enqueued_f2b_def fun_upd_idem)
qed

lemma unat_of_nat_u16: "n < 65536 \<Longrightarrow> unat (of_nat n :: u16) = n"
  by (simp add: unat_of_nat take_bit_nat_eq_self)

lemma data_message_spec:
  assumes "engine_ready px" "high_speed_search_sess (px_backend px) i = Some p"
    and "st_sess (px_backend px) p = Some s" "bs_eng s"
    and "length d < 65536" "mo_seg_ok orc" "mo_seg_buf orc = Some buf" "length buf = length d"
  shows "\<exists>st'. backend_proxy_msg_process orc (data_message f i d @ rest) px
      = Some (BACKEND_PROXY_PROCESS_OK, px\<lparr>px_backend := st'\<rparr>)
    \<and> st_sess st' = (st_sess (px_backend px))(p \<mapsto>
        s\<lparr>bs_msg_f2b := bs_msg_f2b s @ [payload_segment d],
          bs_state_f2b := bs_state_f2b s OR BACKEND_SESS_LINKED_TO_QUEUE\<rparr>)
    \<and> st_pool st' = (st_pool (px_backend px))\<lparr>sp_queue_f2b :=
        enqueued_f2b p s (sp_queue_f2b (st_pool (px_backend px)))\<rparr>
    \<and> st_eng st' = st_eng (px_backend px) \<and> st_trace st' = st_trace (px_backend px)"
proof -
  let ?s = "s\<lparr>bs_msg_f2b := bs_msg_f2b s @ [payload_segment d]\<rparr>"
  let ?st = "put_sess p ?s (px_backend px)"
  have eng: "be_sess_pool (st_eng ?st)" using assms(1) by (simp add: engine_ready_def put_sess_def)
  from link_f2b [of ?st p ?s] assms(4) eng obtain st' where
    L: "BACKEND_SESS_LINK_TO_QUEUE p F2B ?st = Some st'"
      "st_sess st' = (st_sess ?st)(p \<mapsto> ?s\<lparr>bs_state_f2b := bs_state_f2b s OR BACKEND_SESS_LINKED_TO_QUEUE\<rparr>)"
      "st_pool st' = (st_pool ?st)\<lparr>sp_queue_f2b := enqueued_f2b p ?s (sp_queue_f2b (st_pool ?st))\<rparr>"
      "st_eng st' = st_eng ?st" "st_trace st' = st_trace ?st"
    by auto
  have "backend_proxy_msg_process orc (data_message f i d @ rest) px
      = Some (BACKEND_PROXY_PROCESS_OK, px\<lparr>px_backend := st'\<rparr>)"
    unfolding process_data_message using assms L(1)
    by (simp add: backend_proxy_data_msg_process_def sess_msg_seg_alloc_def unat_of_nat_u16
        SESS_MSG_SEG_INSERT_QUEUE_def payload_segment_def overwrite_def Let_def)
  then show ?thesis
    using L(2-5) by (intro exI [of _ st']) (simp add: enqueued_f2b_def put_sess_def)
qed

text \<open>
  A data message reaches its session.  When the backend id names a live session and memory
  is available, the message is accepted; the payload, exactly as announced by the header, is the
  last segment of the session's queue towards the socket, the session is in the pool's queue of
  sessions with data (it is added only if it was not linked), and nothing else changes: no other
  session, no other part of the pool, no queue of the engine, no system call.
\<close>

lemma data_message_queued:
  assumes "engine_ready px" "high_speed_search_sess (px_backend px) i = Some p"
    and "st_sess (px_backend px) p = Some s" "bs_eng s"
    and "length d < 65536" "mo_seg_ok orc" "mo_seg_buf orc = Some buf" "length buf = length d"
  shows "\<exists>st'. backend_proxy_msg_process orc (data_message f i d @ rest) px
      = Some (BACKEND_PROXY_PROCESS_OK, px\<lparr>px_backend := st'\<rparr>)
    \<and> st_sess st' = (st_sess (px_backend px))(p \<mapsto>
        s\<lparr>bs_msg_f2b := bs_msg_f2b s @ [payload_segment d],
          bs_state_f2b := bs_state_f2b s OR BACKEND_SESS_LINKED_TO_QUEUE\<rparr>)
    \<and> st_pool st' = (st_pool (px_backend px))\<lparr>sp_queue_f2b :=
        enqueued_f2b p s (sp_queue_f2b (st_pool (px_backend px)))\<rparr>
    \<and> st_eng st' = st_eng (px_backend px) \<and> st_trace st' = st_trace (px_backend px)"
  using assms by (rule data_message_spec)

text \<open>
  The length check does not bound the copy.  Every announced length passes the check, and a
  data message in the 4096-byte receive buffer that announces more than the 4088 bytes a message
  may carry makes the handler read beyond the end of that buffer.
\<close>

lemma overlong_data_message_overreads:
  assumes "length msg = PROXY_MSG_HDR_SIZE + PROXY_MSG_MAX_SIZE" "h = dec_ProxyMsgHeader msg"
    and "ph_proxy_msg_type h = PROXY_MSG_TYPE_DATA" "PROXY_MSG_MAX_SIZE < unat (ph_payload_len h)"
    and "engine_ready px" "high_speed_search_sess (px_backend px) (ph_backend_sess_id h) = Some p"
    and "st_sess (px_backend px) p = Some s" "mo_seg_ok orc" "mo_seg_buf orc = Some buf"
  shows "PROXY_MSG_LEN_VALID (uint (ph_payload_len h)) \<and> backend_proxy_msg_process orc msg px = None"
proof -
  have "backend_proxy_msg_process orc msg px =
      backend_proxy_data_msg_process orc (ph_backend_sess_id h) (ph_payload_len h)
        (drop PROXY_MSG_HDR_SIZE msg) px"
    using assms(1-3)
    by (simp add: backend_proxy_msg_process_def Let_def PROXY_MSG_TYPE_VALID_def proxy_msg_types)
  also have "\<dots> = None"
    using assms(1,4-9) by (simp add: backend_proxy_data_msg_process_def sess_msg_seg_alloc_def)
  finally show ?thesis by simp
qed


section \<open>Session messages\<close>

text \<open>
  A close command releases the session it names.  The message returns OK; the session
  leaves the table and the heap, its id is the last of the free queue, its descriptor is
  unregistered and closed, no other lookup changes, the pool invariant holds, and the frontend is
  sent a close response when the transmit queue has room.
\<close>

lemma close_message_releases:
  assumes "sh_version h = PROXY_PROTO_SESS_VERSION_1" "sh_msg_type h = SESS_MSG_CLOSE"
    and "sh_action_type h = ACTION_TYPE_COMMAND" "sh_payload_len h = 0"
    and "px_pool_set px" "sp_ops (st_pool (px_backend px))" "sp_engine (st_pool (px_backend px))"
    and "pool_inv (px_backend px)" "tx_ok cap bs (be_tx (st_eng (px_backend px)))"
    and "high_speed_search_sess (px_backend px) i = Some p" "st_sess (px_backend px) p = Some s"
    and "node_ok p (px_backend px)"
  shows "\<exists>st'. backend_proxy_msg_process orc (sess_message f i len h payload) px
      = Some (BACKEND_PROXY_PROCESS_OK, px\<lparr>px_backend := st'\<rparr>)
    \<and> pool_inv st' \<and> st_sess st' = (st_sess (px_backend px))(p := None)
    \<and> high_speed_search_sess st' = (high_speed_search_sess (px_backend px))(i := None)
    \<and> sp_id_queue (st_pool st') = sp_id_queue (st_pool (px_backend px)) @ [i]
    \<and> st_trace st' = st_trace (px_backend px) @
        [Ev_epoll_del (bs_nc_sock_fd s), Ev_close (bs_sock_fd s)]
    \<and> (tx_room cap (be_tx (st_eng (px_backend px))) \<longrightarrow> (\<exists>pad. tx_blocks (be_tx (st_eng st')) =
         tx_blocks (be_tx (st_eng (px_backend px))) @ [sess_response_bytes (bs_frontend_sess_id s)
           BACKEND_HANDOVER_SESSION_ID (word_of_int (bs_ip_version s)) SESS_MSG_CLOSE success_resp @ pad]))"
proof -
  from delete_sess_spec [OF assms(8,9,7,10-12), of "mo_epoll_del_ok orc"] obtain st' where
    D: "high_speed_delete_sess (mo_epoll_del_ok orc) (Some p) (px_backend px) = Some (BACKEND_PROXY_PROCESS_OK, st')"
      "pool_inv st' \<and> st_sess st' = (st_sess (px_backend px))(p := None)
    \<and> high_speed_search_sess st' = (high_speed_search_sess (px_backend px))(i := None)
    \<and> sp_id_queue (st_pool st') = sp_id_queue (st_pool (px_backend px)) @ [i]
    \<and> st_trace st' = st_trace (px_backend px) @
        [Ev_epoll_del (bs_nc_sock_fd s), Ev_close (bs_sock_fd s)]
    \<and> (tx_room cap (be_tx (st_eng (px_backend px))) \<longrightarrow> (\<exists>pad. tx_blocks (be_tx (st_eng st')) =
         tx_blocks (be_tx (st_eng (px_backend px))) @ [sess_response_bytes (bs_frontend_sess_id s)
           BACKEND_HANDOVER_SESSION_ID (word_of_int (bs_ip_version s)) SESS_MSG_CLOSE success_resp @ pad]))"
    by blast
  have "backend_proxy_msg_process orc (sess_message f i len h payload) px
      = backend_proxy_sess_msg_process_close_ver1 orc i px"
    using assms(1-4) unfolding process_sess_command [OF assms(1) disjI1 [OF assms(3)]]
    by (simp add: backend_proxy_sess_msg_process_ver1_def SESS_MSG_PAYLOAD_LEN_def msg_codes
        PROXY_MSG_INVALID_LEN_def)
  also have "\<dots> = Some (BACKEND_PROXY_PROCESS_OK, px\<lparr>px_backend := st'\<rparr>)"
    using assms(5,6,10) D(1) by (simp add: backend_proxy_sess_msg_process_close_ver1_def)
  finally show ?thesis using D(2) by blast
qed

text \<open>The parameters an IPv4 create command carries.\<close>

definition create_para :: "u16 \<Rightarrow> u16 \<Rightarrow> u16 \<Rightarrow> u16 \<Rightarrow> bytes \<Rightarrow> SessMsgPara" where
  "create_para uninit f dev proto endpoint =
     \<lparr>sm_frontend_sess_id = f, sm_backend_sess_id = uninit, sm_dev_id = dev,
      sm_ip_version = SESS_IPV4_PROTO, sm_trans_proto = proto, sm_ip_port_tuple = endpoint\<rparr>"

lemma sess_para_ip_reads:
  assumes "length endpoint = 6"
  shows "sess_para_ip SESS_IPV4_PROTO 6 uninit f (SessIPv4Params_bytes dev proto endpoint @ rest)
    = create_para uninit f dev proto endpoint"
  using assms get_put_u16_at [of "[]" 0 dev] get_put_u16_at [of "put_u16 dev" 2 proto]
  by (simp add: sess_para_ip_def create_para_def SessIPv4Params_bytes_def)

text \<open>
  A create command establishes the session it describes.  The packed IPv4 parameters are
  read back exactly: when the connection to the carried endpoint through the carried device can be
  opened and answered, the message returns OK and a session with the frontend's id, the carried
  transport and the connected descriptor is found under the id taken from the head of the free
  queue, every other lookup is unchanged, the pool invariant holds, and the newest block of the
  transmit queue is the success response with both ids.
\<close>

lemma create_message_establishes_session:
  assumes "sh_version h = PROXY_PROTO_SESS_VERSION_1" "sh_msg_type h = SESS_MSG_CREATE"
    and "sh_action_type h = ACTION_TYPE_COMMAND" "sh_ip_version h = SESS_IPV4_PROTO" "sh_payload_len h = 10"
    and "length endpoint = 6" "px_pool_set px"
    and "active_reaches_answer (mo_create orc)
           (create_para (so_uninit_id (mo_create orc)) f dev proto endpoint)
           (px_backend px) p mem0 dev_id i fd n free st1"
    and "tx_ok cap bs (be_tx (st_eng (px_backend px)))" "tx_room cap (be_tx (st_eng (px_backend px)))"
  shows "\<exists>st' s pad. backend_proxy_msg_process orc
        (sess_message f BACKEND_HANDOVER_SESSION_ID len h (SessIPv4Params_bytes dev proto endpoint @ rest)) px
      = Some (BACKEND_PROXY_PROCESS_OK, px\<lparr>px_backend := st'\<rparr>)
    \<and> pool_inv st' \<and> sp_id_queue (st_pool (px_backend px)) = i # sp_id_queue (st_pool st')
    \<and> high_speed_search_sess st' = (high_speed_search_sess (px_backend px))(i \<mapsto> p)
    \<and> st_sess st' p = Some s \<and> bs_frontend_sess_id s = f \<and> bs_backend_sess_id s = i
    \<and> bs_sock_fd s = fd \<and> bs_proto_type s = uint proto
    \<and> tx_blocks (be_tx (st_eng st')) = tx_blocks (be_tx (st_eng (px_backend px))) @
        [sess_response_bytes f i SESS_IPV4_PROTO SESS_MSG_CREATE success_resp @ pad]"
proof -
  let ?para = "create_para (so_uninit_id (mo_create orc)) f dev proto endpoint"
  from create_active_spec [OF assms(8-10)] obtain st' s pad where C:
    "high_speed_create_sess_active (mo_create orc) ?para (px_backend px) = Some (BACKEND_PROXY_PROCESS_OK, Some p, st')"
    "pool_inv st'" "sp_id_queue (st_pool (px_backend px)) = i # sp_id_queue (st_pool st')"
    "high_speed_search_sess st' = (high_speed_search_sess (px_backend px))(i \<mapsto> p)"
    "st_sess st' p = Some s" "bs_frontend_sess_id s = f" "bs_backend_sess_id s = i"
    "bs_sock_fd s = fd" "bs_proto_type s = uint proto"
    "tx_blocks (be_tx (st_eng st')) = tx_blocks (be_tx (st_eng (px_backend px))) @
        [sess_response_bytes f i SESS_IPV4_PROTO SESS_MSG_CREATE success_resp @ pad]"
    by (auto simp: create_para_def)
  have ops: "sp_ops (st_pool (px_backend px))" using assms(8) by (simp add: active_reaches_answer_def)
  have len: "length (SessIPv4Params_bytes dev proto endpoint @ rest) \<ge> 10"
    using assms(6) by (simp add: SessIPv4Params_bytes_def)
  have "backend_proxy_msg_process orc
        (sess_message f BACKEND_HANDOVER_SESSION_ID len h (SessIPv4Params_bytes dev proto endpoint @ rest)) px
      = backend_proxy_sess_msg_process_active_create_ver1 orc f SESS_IPV4_PROTO 10
          (SessIPv4Params_bytes dev proto endpoint @ rest) px"
    using assms(1-5) unfolding process_sess_command [OF assms(1) disjI1 [OF assms(3)]]
    by (simp add: backend_proxy_sess_msg_process_ver1_def SESS_MSG_PAYLOAD_LEN_def msg_codes
        PROXY_MSG_INVALID_LEN_def)
  also have "\<dots> = Some (BACKEND_PROXY_PROCESS_OK, px\<lparr>px_backend := st'\<rparr>)"
    using assms(7) ops len C(1) sess_para_ip_reads [OF assms(6)]
    by (simp add: backend_proxy_sess_msg_process_active_create_ver1_def)
  finally show ?thesis using C(2-10) by blast
qed


section \<open>CAN messages\<close>

text \<open>
  A CAN message becomes one frame, or is refused.  With an open CAN session and a message
  whose address is followed by the data \<open>d\<close>: up to 8 bytes are written to the device as one frame
  of 16 bytes with their number and zero padding, under the fixed identifier 0x123 and not the one
  the message addresses; 9 to 57 bytes, which pass the handler's own limit, are refused and nothing
  is written.
\<close>

lemma can_message_becomes_frame:
  assumes "backend_can_sess (px_iot px) = Some s" "ih_proto_type h = IOT_PROTO_TYPE_CAN"
    and "ih_payload_len h = of_nat (7 + length d)" "length d \<le> 57" "0 \<le> mo_iot_write orc"
  shows "backend_proxy_msg_process orc (iot_message f i h (enc_IotCanAddr a @ d)) px
    = Some (if length d \<le> 8
            then (BACKEND_PROXY_PROCESS_OK, px\<lparr>px_backend := emits [Ev_write (is_dev_fd s)
                   (put_u32 0x123 @ [of_nat (length d), 0, 0, 0] @ d @ replicate (8 - length d) 0)]
                   (px_backend px)\<rparr>)
            else (BACKEND_PROXY_PROCESS_ERROR, px))"
proof -
  have pl: "unat (ih_payload_len h) = 7 + length d" using assms(3,4) unat_of_nat_u16 [of "7 + length d"] by simp
  have addr: "length (enc_IotCanAddr a) = 7" by (simp add: enc_IotCanAddr_def)
  have dlc: "unat (ucast (of_nat (length d) :: u32) :: u8) = length d"
    "(ucast (of_nat (length d) :: u32) :: u8) = of_nat (length d)"
    using assms(4) by (simp_all add: unsigned_of_nat unsigned_ucast_eq take_bit_nat_eq_self)
  have same: "iot_emits ev ((px_iot px)\<lparr>backend_can_sess := Some s\<rparr>) px
      = px\<lparr>px_backend := emits ev (px_backend px)\<rparr>" for ev
    using assms(1) by (simp add: iot_emits_def)
  have none: "px\<lparr>px_backend := emits [] (px_backend px)\<rparr> = px" by (simp add: emits_def)
  have "backend_proxy_msg_process orc (iot_message f i h (enc_IotCanAddr a @ d)) px
      = backend_proxy_can_msg_process orc h (enc_IotCanAddr a @ d) px"
    unfolding process_iot_message using assms(2,4) addr
    by (simp add: backend_proxy_iot_msg_process_def header_simps iot_proto_types iot_sizes Let_def
        unat_of_nat_u16 del: of_nat_add)
  also have "\<dots> = Some (if length d \<le> 8
            then (BACKEND_PROXY_PROCESS_OK, px\<lparr>px_backend := emits [Ev_write (is_dev_fd s)
                   (put_u32 0x123 @ [of_nat (length d), 0, 0, 0] @ d @ replicate (8 - length d) 0)]
                   (px_backend px)\<rparr>)
            else (BACKEND_PROXY_PROCESS_ERROR, px))"
    using assms(1,4,5) addr pl dlc same none
    by (simp add: backend_proxy_can_msg_process_def iot_limits can_send_to_remote_def Let_def
        iot_msg_buffer_def CAN_MAX_DLEN_def enc_can_frame_def overwrite_def)
  finally show ?thesis .
qed


section \<open>Concrete messages\<close>

definition sample_iot :: iot_sessions where
  "sample_iot = \<lparr>backend_bluetooth_sess = None, backend_can_sess = Some \<lparr>is_sess_type = IOT_PROTO_TYPE_CAN,
     is_sess_state = IOT_SESS_STATE_IDLE, is_working_mode = IOT_WORK_MODE_CLIENT, is_eng = True, is_pri_data = False,
     is_dev_fd = 8, is_listen_fd = -1,
       is_bound_dev = Some 0\<rparr>, backend_zigbee_sess = None, backend_lora_sess = None, backend_powerlink_sess = None,
     backend_modbustcp_sess = None\<rparr>"

definition sample_proxy :: "backend \<Rightarrow> proxy" where
  "sample_proxy st = \<lparr>px_engine_set = True, px_pool_set = True, px_backend = st, px_iot = sample_iot\<rparr>"

definition sample_msg_oracle :: "bytes option \<Rightarrow> msg_oracle" where
  "sample_msg_oracle buf = \<lparr>mo_create = sample_oracle 0, mo_epoll_ok = True, mo_epoll_del_ok = True,
     mo_seg_ok = True, mo_seg_buf = buf, mo_iot_write = 16\<rparr>"

definition one_sess :: BackendSession where
  "one_sess = the (st_sess one_session_backend 7)"

lemma one_session_facts:
  "high_speed_search_sess one_session_backend 9 = Some 7" "st_sess one_session_backend 7 = Some one_sess"
  "engine_ready (sample_proxy one_session_backend)" "bs_eng one_sess" "pool_inv one_session_backend"
  "tx_ok 4 32 (be_tx (st_eng one_session_backend))" "sp_engine (st_pool one_session_backend)"
  "sp_ops (st_pool one_session_backend)" "node_ok 7 one_session_backend"
proof -
  show "st_sess one_session_backend 7 = Some one_sess"
    unfolding one_sess_def by (simp add: one_session_backend_def)
  show "tx_ok 4 32 (be_tx (st_eng one_session_backend))"
    using sample_tx_ok by (simp add: one_session_backend_def)
qed code_simp+

text \<open>A close command for id 4, which has no session.\<close>

theorem refused_message_changes_nothing_witness:
  "backend_proxy_msg_process (sample_msg_oracle None) (sess_message 11 4 10
     \<lparr>sh_version = 1, sh_msg_type = SESS_MSG_CLOSE, sh_action_type = ACTION_TYPE_COMMAND,
      sh_ip_version = 4, sh_payload_len = 0\<rparr> [0, 0]) (sample_proxy one_session_backend)
   = Some (BACKEND_PROXY_PROCESS_ERROR, sample_proxy one_session_backend)"
proof (rule refused_message_changes_nothing)
  show "msg_refused (sample_proxy one_session_backend) (sess_message 11 4 10
     \<lparr>sh_version = 1, sh_msg_type = SESS_MSG_CLOSE, sh_action_type = ACTION_TYPE_COMMAND,
      sh_ip_version = 4, sh_payload_len = 0\<rparr> [0, 0])" by code_simp
qed (simp add: sess_message_def PROXY_MSG_HDR_SIZE_def)

end
