(* ===== verification/Engine_Run.thy ===== *)
theory Engine_Run
  imports Proto_Lemmas
begin

text \<open>
  The engine's main loop (\<open>src/src/engine.c\<close>): take messages from the receive queue, send
  queued data to the sockets, read the sockets, hand their data to the transmit queue, serve the
  IoT devices.  Everything the loop gets from the kernel, from the devices and from the frontend
  is collected in one record per pass.
\<close>

section \<open>Environment of a pass\<close>

definition HYPERAMP_MSG_HDR_SIZE :: nat where "HYPERAMP_MSG_HDR_SIZE = 8"
definition HYPERAMP_MSG_MAX_SIZE :: nat where "HYPERAMP_MSG_MAX_SIZE = 4088"
definition HYPERAMP_MSG_HDR_PLUS_MAX_SIZE :: nat where
  "HYPERAMP_MSG_HDR_PLUS_MAX_SIZE = HYPERAMP_MSG_HDR_SIZE + HYPERAMP_MSG_MAX_SIZE"

lemmas hyperamp_msg_sizes = HYPERAMP_MSG_HDR_SIZE_def HYPERAMP_MSG_MAX_SIZE_def
  HYPERAMP_MSG_HDR_PLUS_MAX_SIZE_def

text \<open>
  \<open>ro_frontend\<close>: what the frontend does to the shared queues and their memory before the pass;
  \<open>ro_msg k\<close>: the environment of the \<open>k\<close>-th message; \<open>ro_sndbuf\<close>, \<open>ro_send\<close>, \<open>ro_del_ok\<close>: the
  kernel's answers for the socket of a session; \<open>ro_events\<close>: what \<open>epoll_wait\<close> reports; the rest
  is what the \<open>k\<close>-th read from each device gives.
\<close>

record run_oracle =
  ro_frontend :: "BackendEngine \<Rightarrow> HyperampShmQueue option \<times> HyperampShmQueue option \<times> mem"
  ro_msg :: "nat \<Rightarrow> msg_oracle"
  ro_sndbuf :: "nat \<Rightarrow> int option"
  ro_send :: "nat \<Rightarrow> nat \<Rightarrow> bytes \<Rightarrow> int"
  ro_del_ok :: "nat \<Rightarrow> bool"
  ro_events :: "(u32 \<times> nat \<times> int option \<times> (nat \<Rightarrow> read_round)) list"
  ro_bluetooth :: "nat \<Rightarrow> int \<times> bytes \<times> int \<times> (int \<times> u16 \<times> bytes) option"
  ro_can :: "nat \<Rightarrow> int \<times> can_frame \<times> int"
  ro_modbus :: "nat \<Rightarrow> u16 list option"

definition put_eng :: "BackendEngine \<Rightarrow> proxy \<Rightarrow> proxy" where
  "put_eng e px = px\<lparr>px_backend := (px_backend px)\<lparr>st_eng := e\<rparr>\<rparr>"


section \<open>Step 1: messages of the frontend\<close>

text \<open>
  The buffer is reused from message to message.  The loop ends when the queue is empty or
  broken; the code is that of the last access.  \<open>fuel\<close> bounds the number of messages of a pass.
\<close>

fun rx_loop ::
  "nat \<Rightarrow> (nat \<Rightarrow> msg_oracle) \<Rightarrow> nat \<Rightarrow> bytes \<Rightarrow> proxy \<Rightarrow> (int \<times> bytes \<times> proxy) option" where
  "rx_loop 0 orc k msg_buf px = None"
| "rx_loop (Suc fuel) orc k msg_buf px = do {
     (ret, data, eng') \<leftarrow> backend_engine_hyperamp_rx_queue_get (Some (st_eng (px_backend px)))
        HYPERAMP_MSG_HDR_PLUS_MAX_SIZE True True;
     let px1 = put_eng (the eng') px;
     let buf = overwrite data msg_buf;
     if ret = BACKEND_PROXY_PROCESS_ERROR \<or> ret = BACKEND_PROXY_PROCESS_AGAIN
     then Some (ret, buf, px1)
     else do {
       (_, px2) \<leftarrow> backend_proxy_msg_process (orc k) buf px1;
       rx_loop fuel orc (Suc k) buf px2 } }"


section \<open>Steps 2 and 4: moving data\<close>

text \<open>
  \<open>TAILQ_FOREACH_SAFE\<close> notes the successor before the body runs and the body removes no other
  session, so the walk follows the queue as it is at the start.  After an error the session is
  removed from the queue and removed again by \<open>delete_sess\<close>; with unchanged neighbours the
  second removal has no effect.
\<close>

definition unlink_done :: "nat \<Rightarrow> direction \<Rightarrow> backend \<Rightarrow> backend option" where
  "unlink_done p dir st =
     (case st_sess st p of
        None \<Rightarrow> None
      | Some s \<Rightarrow> Some ((put_sess p (set_sess_state dir
                    (sess_state dir s AND NOT BACKEND_SESS_LINKED_TO_QUEUE) s) st)
                  \<lparr>st_pool := set_pool_queue dir (remove1 p (pool_queue dir (st_pool st))) (st_pool st)\<rparr>))"

definition unlink_failed :: "bool \<Rightarrow> nat \<Rightarrow> direction \<Rightarrow> backend \<Rightarrow> backend option" where
  "unlink_failed epoll_del_ok p dir st =
     map_option snd (high_speed_delete_sess epoll_del_ok (Some p)
       (st\<lparr>st_pool := set_pool_queue dir (remove1 p (pool_queue dir (st_pool st))) (st_pool st)\<rparr>))"

fun f2b_pass :: "run_oracle \<Rightarrow> nat list \<Rightarrow> backend \<Rightarrow> backend option" where
  "f2b_pass orc [] st = Some st"
| "f2b_pass orc (p # ps) st = do {
     (ret, st1) \<leftarrow> high_speed_data_process_f2b (ro_sndbuf orc p) (ro_send orc p) p st;
     st2 \<leftarrow> (if ret = BACKEND_PROXY_PROCESS_OK then unlink_done p F2B st1
             else if ret = BACKEND_PROXY_PROCESS_ERROR then unlink_failed (ro_del_ok orc p) p F2B st1
             else Some st1);
     f2b_pass orc ps st2 }"

fun b2f_pass :: "run_oracle \<Rightarrow> nat list \<Rightarrow> backend \<Rightarrow> backend option" where
  "b2f_pass orc [] st = Some st"
| "b2f_pass orc (p # ps) st = do {
     (ret, st1) \<leftarrow> high_speed_data_process_b2f p st;
     if ret = BACKEND_PROXY_PROCESS_AGAIN then Some st1
     else do {
       st2 \<leftarrow> (if ret = BACKEND_PROXY_PROCESS_OK then unlink_done p B2F st1
               else if ret = BACKEND_PROXY_PROCESS_ERROR then unlink_failed (ro_del_ok orc p) p B2F st1
               else Some st1);
       b2f_pass orc ps st2 } }"


section \<open>Step 5: IoT devices\<close>

text \<open>Every read starts with a cleared buffer of 1024 bytes and a cleared address.\<close>

definition iot_read_buffer :: IotMsgBuffer where
  "iot_read_buffer = \<lparr>mb_data = replicate 1024 0, mb_len = 1024,
     mb_addr = \<lparr>ia_addr_type = 0, ia_addr_info = replicate sizeof_addr_info 0\<rparr>\<rparr>"

text \<open>
  The header of the message to the frontend.  The outer version and both ids are the zeros
  \<open>memset\<close> left; \<open>addr\<close> are the bytes of the address that are copied.
\<close>

definition iot_proxy_header :: "u16 \<Rightarrow> bytes \<Rightarrow> IotMsgBuffer \<Rightarrow> GeneralProxyMsgHeader" where
  "iot_proxy_header proto addr msg_buf =
     \<lparr>gh_outer_header = \<lparr>ph_version = 0, ph_proxy_msg_type = PROXY_MSG_TYPE_IOT,
        ph_frontend_sess_id = 0, ph_backend_sess_id = 0, ph_payload_len = 0\<rparr>,
      gh_inner_header = enc_IotMsgHeader \<lparr>ih_proto_ver = 1, ih_proto_type = proto, ih_opcode = 0,
        ih_dev_port_id = 0,
        ih_payload_len = ucast (mb_len msg_buf) + of_nat (get_iot_addr_length proto), ih_reserve = 0\<rparr>,
      gh_iot_addr = \<lparr>ia_addr_type = ucast proto,
        ia_addr_info = overwrite addr (replicate sizeof_addr_info 0)\<rparr>,
      gh_iot_addr_len = of_nat (get_iot_addr_length proto)\<rparr>"

text \<open>Building the message puts it into the transmit queue; the result is ignored.\<close>

definition iot_forward :: "IoTBackendSession \<Rightarrow> u16 \<Rightarrow> bytes \<Rightarrow> IotMsgBuffer \<Rightarrow> backend \<Rightarrow> backend option" where
  "iot_forward sess proto addr msg_buf st =
     map_option (\<lambda>(_, t, _, _). case t of None \<Rightarrow> st | Some t' \<Rightarrow> put_tx t' st)
       (build_proxy_general_message (if is_eng sess then Some (be_tx (st_eng st)) else None)
          (Some (iot_proxy_header proto addr msg_buf)) (Some (mb_data msg_buf)) (unat (mb_len msg_buf))
          True MEMORY_ALLOC_AMPQUEUE True None)"

fun engine_iot_bluetooth_run ::
  "nat \<Rightarrow> (nat \<Rightarrow> int \<times> bytes \<times> int \<times> (int \<times> u16 \<times> bytes) option) \<Rightarrow> nat \<Rightarrow> IoTBackendSession \<Rightarrow>
   backend \<Rightarrow> backend option" where
  "engine_iot_bluetooth_run 0 reads k sess st = None"
| "engine_iot_bluetooth_run (Suc fuel) reads k sess st =
     (let (rcv_size, rcv, errno, peer) = reads k;
          (ret, msg_buf) = bluetooth_recv_from_remote rcv_size rcv errno peer sess iot_read_buffer
      in if ret = BACKEND_PROXY_PROCESS_OK then do {
           st' \<leftarrow> iot_forward sess IOT_PROTO_TYPE_BLUETOOTH
              (take sizeof_IotBtAddr (ia_addr_info (mb_addr msg_buf))) msg_buf st;
           engine_iot_bluetooth_run fuel reads (Suc k) sess st' }
         else Some st)"

text \<open>The bus identifier is cleared, the port and the CAN identifier are copied.\<close>

fun engine_iot_can_run ::
  "nat \<Rightarrow> (nat \<Rightarrow> int \<times> can_frame \<times> int) \<Rightarrow> nat \<Rightarrow> IoTBackendSession \<Rightarrow> backend \<Rightarrow> backend option" where
  "engine_iot_can_run 0 reads k sess st = None"
| "engine_iot_can_run (Suc fuel) reads k sess st =
     (let (rcv_size, frame, errno) = reads k
      in do {
        (ret, msg_buf) \<leftarrow> can_recv_from_remote rcv_size frame errno sess iot_read_buffer;
        if ret = BACKEND_PROXY_PROCESS_OK then do {
          st' \<leftarrow> iot_forward sess IOT_PROTO_TYPE_CAN
             (take 6 (ia_addr_info (mb_addr msg_buf)) @ [0]) msg_buf st;
          engine_iot_can_run fuel reads (Suc k) sess st' }
        else Some st })"

text \<open>
  \<open>build_proxy_general_message_tmp\<close> repeats the general builder.
\<close>

fun engine_iot_modbustcp_run ::
  "nat \<Rightarrow> (nat \<Rightarrow> u16 list option) \<Rightarrow> nat \<Rightarrow> IoTBackendSession \<Rightarrow> backend \<Rightarrow>
   (IoTBackendSession \<times> backend) option" where
  "engine_iot_modbustcp_run 0 reads k sess st = None"
| "engine_iot_modbustcp_run (Suc fuel) reads k sess st = do {
     (ret, sess', msg_buf) \<leftarrow> modbustcp_recv_from_remote (reads k) sess (Some iot_read_buffer);
     if ret = BACKEND_PROXY_PROCESS_OK then do {
       st' \<leftarrow> iot_forward sess' IOT_PROTO_TYPE_MODBUSTCP
          (take sizeof_IotModbusTcpAddr (ia_addr_info (mb_addr (the msg_buf)))) (the msg_buf) st;
       engine_iot_modbustcp_run fuel reads (Suc k) sess' st' }
     else Some (sess', st) }"

definition engine_iot_dev_run :: "nat \<Rightarrow> run_oracle \<Rightarrow> proxy \<Rightarrow> proxy option" where
  "engine_iot_dev_run fuel orc px = do {
     st1 \<leftarrow> (case backend_bluetooth_sess (px_iot px) of
               None \<Rightarrow> Some (px_backend px)
             | Some sess \<Rightarrow> engine_iot_bluetooth_run fuel (ro_bluetooth orc) 0 sess (px_backend px));
     st2 \<leftarrow> (case backend_can_sess (px_iot px) of
               None \<Rightarrow> Some st1
             | Some sess \<Rightarrow> engine_iot_can_run fuel (ro_can orc) 0 sess st1);
     case backend_modbustcp_sess (px_iot px) of
       None \<Rightarrow> Some (px\<lparr>px_backend := st2\<rparr>)
     | Some sess \<Rightarrow> do {
         (sess', st3) \<leftarrow> engine_iot_modbustcp_run fuel (ro_modbus orc) 0 sess st2;
         Some (px\<lparr>px_backend := st3, px_iot := (px_iot px)\<lparr>backend_modbustcp_sess := Some sess'\<rparr>\<rparr>) } }"


section \<open>The loop\<close>

text \<open>One pass; the flag tells whether the loop goes on.\<close>

definition engine_pass ::
  "nat \<Rightarrow> run_oracle \<Rightarrow> bytes \<Rightarrow> proxy \<Rightarrow> (bool \<times> bytes \<times> proxy) option" where
  "engine_pass fuel orc msg_buf px = do {
     (ret, buf, px1) \<leftarrow> rx_loop fuel (ro_msg orc) 0 msg_buf px;
     if ret = BACKEND_PROXY_PROCESS_ERROR then Some (False, buf, px1)
     else do {
       st2 \<leftarrow> f2b_pass orc (sp_queue_f2b (st_pool (px_backend px1))) (px_backend px1);
       st3 \<leftarrow> poller_run fuel (ro_events orc) st2;
       st4 \<leftarrow> b2f_pass orc (sp_queue_b2f (st_pool st3)) st3;
       px5 \<leftarrow> engine_iot_dev_run fuel orc (px1\<lparr>px_backend := st4\<rparr>);
       Some (True, buf, px5) } }"

definition frontend_acts :: "run_oracle \<Rightarrow> proxy \<Rightarrow> proxy" where
  "frontend_acts orc px =
     (let e = st_eng (px_backend px); (rx, tx, m) = ro_frontend orc e
      in put_eng (e\<lparr>be_hyper_rx_queue := rx, be_tx := (be_tx e)\<lparr>te_hyper_tx_queue := tx, te_mem := m\<rparr>\<rparr>) px)"

text \<open>The first \<open>n\<close> passes: the flag tells whether the engine is still running after them.\<close>

fun engine_passes ::
  "nat \<Rightarrow> nat \<Rightarrow> (nat \<Rightarrow> run_oracle) \<Rightarrow> nat \<Rightarrow> bytes \<Rightarrow> proxy \<Rightarrow> (bool \<times> bytes \<times> proxy) option" where
  "engine_passes 0 fuel orcs k msg_buf px = Some (True, msg_buf, px)"
| "engine_passes (Suc n) fuel orcs k msg_buf px = do {
     (more, buf, px') \<leftarrow> engine_pass fuel (orcs k) msg_buf (frontend_acts (orcs k) px);
     if more then engine_passes n fuel orcs (Suc k) buf px' else Some (False, buf, px') }"

definition engine_run_hyperamp ::
  "nat \<Rightarrow> nat \<Rightarrow> (nat \<Rightarrow> run_oracle) \<Rightarrow> bytes \<Rightarrow> proxy \<Rightarrow> (bool \<times> bytes \<times> proxy) option" where
  "engine_run_hyperamp n fuel orcs msg_buf px =
     (let eng = st_eng (px_backend px)
      in if \<not> px_engine_set px then Some (False, msg_buf, px)
         else if be_hyper_rx_queue eng = None \<or> te_hyper_tx_queue (be_tx eng) = None \<or>
                 te_data_region (be_tx eng) = 0 then Some (False, msg_buf, px)
         else if \<not> be_sess_pool eng \<or> \<not> sp_ops (st_pool (px_backend px)) then Some (False, msg_buf, px)
         else engine_passes n fuel orcs 0 msg_buf px)"

end
