(* ===== verification/Engine_Lemmas.thy ===== *)
theory Engine_Lemmas
  imports Engine_Run
begin

text \<open>
  What a pass of the engine achieves: data of the frontend reaches the socket, data of the
  socket reaches the frontend, devices are served.
\<close>

section \<open>Receiving\<close>

definition rx_ready :: "u16 \<Rightarrow> u16 \<Rightarrow> BackendEngine \<Rightarrow> bool" where
  "rx_ready cap bs e \<longleftrightarrow> te_data_region (be_tx e) \<noteq> 0 \<and>
     (case be_hyper_rx_queue e of None \<Rightarrow> False | Some q \<Rightarrow> queue_inv (te_data_region (be_tx e)) cap bs q)"

definition rx_blocks :: "BackendEngine \<Rightarrow> bytes list" where
  "rx_blocks e = (case be_hyper_rx_queue e of None \<Rightarrow> []
     | Some q \<Rightarrow> queue_contents (te_data_region (be_tx e)) q (te_mem (be_tx e)))"

lemma rx_queue_get_spec:
  assumes "rx_ready cap bs e" "unat bs \<le> n"
  shows "\<exists>q'. backend_engine_hyperamp_rx_queue_get (Some e) n True True =
      Some (if rx_blocks e = [] then BACKEND_PROXY_PROCESS_AGAIN else BACKEND_PROXY_PROCESS_OK,
            if rx_blocks e = [] then [] else hd (rx_blocks e), Some (e\<lparr>be_hyper_rx_queue := Some q'\<rparr>))
    \<and> rx_ready cap bs (e\<lparr>be_hyper_rx_queue := Some q'\<rparr>)
    \<and> rx_blocks (e\<lparr>be_hyper_rx_queue := Some q'\<rparr>) = tl (rx_blocks e)"
proof -
  obtain q where q: "be_hyper_rx_queue e = Some q" "queue_inv (te_data_region (be_tx e)) cap bs q"
    and r: "te_data_region (be_tx e) \<noteq> 0"
    using assms(1) by (auto simp: rx_ready_def split: option.splits)
  let ?m = "te_mem (be_tx e)" and ?vb = "te_data_region (be_tx e)"
  have "0 < bs" "hq_block_size q = bs" using q(2) by (auto simp: queue_inv_def)
  then have n: "0 < n" and bs: "\<forall>b \<in> set (queue_contents ?vb q ?m). length b = unat bs"
    using assms(2) by (auto simp: queue_contents_def word_less_nat_alt)
  from dequeue_spec [OF q(2) n, of HYPERAMP_ZONE_ID_Linux ?m] obtain q' where
    D: "hyperamp_queue_dequeue (Some q) HYPERAMP_ZONE_ID_Linux True n ?vb ?m =
           Some (if queue_contents ?vb q ?m = [] then HYPERAMP_AGAIN else HYPERAMP_OK,
                 (if queue_contents ?vb q ?m = [] then [] else take n (hd (queue_contents ?vb q ?m))),
                 Some q')"
      "queue_inv ?vb cap bs q'" "queue_contents ?vb q' ?m = tl (queue_contents ?vb q ?m)" by blast
  have "queue_contents ?vb q ?m \<noteq> [] \<Longrightarrow> take n (hd (queue_contents ?vb q ?m)) = hd (queue_contents ?vb q ?m)"
    using bs assms(2) by simp
  then show ?thesis
    using q r D by (intro exI [of _ q'])
      (auto simp: backend_engine_hyperamp_rx_queue_get_def rx_ready_def rx_blocks_def hyperamp_codes proxy_codes)
qed

lemma put_eng_simps [simp]:
  "px_backend (put_eng e px) = (px_backend px)\<lparr>st_eng := e\<rparr>" "px_iot (put_eng e px) = px_iot px"
  "px_engine_set (put_eng e px) = px_engine_set px" "px_pool_set (put_eng e px) = px_pool_set px"
  by (simp_all add: put_eng_def)

lemma search_st_eng [simp]: "high_speed_search_sess (st\<lparr>st_eng := e\<rparr>) = high_speed_search_sess st"
  by (simp add: high_speed_search_sess_def fun_eq_iff)

text \<open>An empty queue ends the loop; only the lock statistics of the queue change.\<close>

lemma rx_loop_empty:
  assumes "rx_ready cap bs (st_eng (px_backend px))" "unat bs \<le> HYPERAMP_MSG_HDR_PLUS_MAX_SIZE"
    and "rx_blocks (st_eng (px_backend px)) = []" "0 < fuel"
  shows "\<exists>e q'. e = (st_eng (px_backend px))\<lparr>be_hyper_rx_queue := Some q'\<rparr>
    \<and> rx_loop fuel orc k msg_buf px = Some (BACKEND_PROXY_PROCESS_AGAIN, msg_buf,
        px\<lparr>px_backend := (px_backend px)\<lparr>st_eng := e\<rparr>\<rparr>)
    \<and> rx_ready cap bs e \<and> rx_blocks e = []"
proof -
  obtain fuel' where fuel: "fuel = Suc fuel'" using assms(4) by (cases fuel) auto
  from rx_queue_get_spec [OF assms(1,2)] assms(3) show ?thesis
    by (auto simp: fuel put_eng_def overwrite_def)
qed


section \<open>From the frontend to the socket\<close>

text \<open>What a sequence of data messages does to their session.\<close>

definition deliver :: "bytes list \<Rightarrow> BackendSession \<Rightarrow> BackendSession" where
  "deliver ds s = fold (\<lambda>d s. s\<lparr>bs_msg_f2b := bs_msg_f2b s @ [payload_segment d],
     bs_state_f2b := bs_state_f2b s OR BACKEND_SESS_LINKED_TO_QUEUE\<rparr>) ds s"

lemma deliver_simps [simp]:
  "deliver [] s = s"
  "deliver (d # ds) s = deliver ds (s\<lparr>bs_msg_f2b := bs_msg_f2b s @ [payload_segment d],
     bs_state_f2b := bs_state_f2b s OR BACKEND_SESS_LINKED_TO_QUEUE\<rparr>)"
  by (simp_all add: deliver_def)

lemma deliver_fields [simp]:
  "bs_msg_f2b (deliver ds s) = bs_msg_f2b s @ map payload_segment ds"
  "bs_sock_fd (deliver ds s) = bs_sock_fd s" "bs_eng (deliver ds s) = bs_eng s"
  by (induction ds arbitrary: s) simp_all

lemma enqueued_linked [simp]:
  "enqueued_f2b p (s\<lparr>bs_msg_f2b := q, bs_state_f2b := w OR BACKEND_SESS_LINKED_TO_QUEUE\<rparr>) ps = ps"
  by (simp add: enqueued_f2b_def BACKEND_SESS_LINKED_TO_QUEUE_def and_one_eq bit_0 [symmetric] bit_or_iff
     odd_iff_mod_2_eq_one [symmetric])

text \<open>Memory for the segments: \<open>malloc\<close> succeeds for the messages from number \<open>k\<close> on.\<close>

fun seg_memory :: "(nat \<Rightarrow> msg_oracle) \<Rightarrow> nat \<Rightarrow> bytes list \<Rightarrow> bool" where
  "seg_memory orc k [] = True"
| "seg_memory orc k (d # ds) = (mo_seg_ok (orc k) \<and>
     (case mo_seg_buf (orc k) of None \<Rightarrow> False | Some b \<Rightarrow> length b = length d) \<and>
     seg_memory orc (Suc k) ds)"

text \<open>Blocks that hold data messages of frontend session \<open>f\<close> for backend session \<open>i\<close>.\<close>

definition data_block :: "u16 \<Rightarrow> u16 \<Rightarrow> bytes \<Rightarrow> bytes \<Rightarrow> bool" where
  "data_block f i b d \<longleftrightarrow> starts_with (data_message f i d) b \<and> 0 < length d \<and> length d < 65536"

lemma rx_loop_data:
  assumes "rx_ready cap bs (st_eng (px_backend px))" "unat bs \<le> HYPERAMP_MSG_HDR_PLUS_MAX_SIZE"
    and "engine_ready px" "high_speed_search_sess (px_backend px) i = Some p"
    and "st_sess (px_backend px) p = Some s" "bs_eng s"
    and "list_all2 (data_block f i) (rx_blocks (st_eng (px_backend px))) ds"
    and "seg_memory orc k ds" "length ds < fuel"
  shows "\<exists>buf st' q'. rx_loop fuel orc k msg_buf px =
      Some (BACKEND_PROXY_PROCESS_AGAIN, buf, px\<lparr>px_backend := st'\<rparr>)
    \<and> st_sess st' = (st_sess (px_backend px))(p \<mapsto> deliver ds s)
    \<and> st_pool st' = (st_pool (px_backend px))\<lparr>sp_queue_f2b :=
        (if ds = [] then sp_queue_f2b (st_pool (px_backend px))
         else enqueued_f2b p s (sp_queue_f2b (st_pool (px_backend px))))\<rparr>
    \<and> st_eng st' = (st_eng (px_backend px))\<lparr>be_hyper_rx_queue := Some q'\<rparr>
    \<and> rx_ready cap bs (st_eng st') \<and> rx_blocks (st_eng st') = []
    \<and> st_trace st' = st_trace (px_backend px)"
  using assms
proof (induction ds arbitrary: px s k msg_buf fuel)
  case Nil
  from rx_loop_empty [OF Nil.prems(1,2), of fuel orc k msg_buf] Nil.prems obtain e q' where
    "e = (st_eng (px_backend px))\<lparr>be_hyper_rx_queue := Some q'\<rparr>"
    "rx_loop fuel orc k msg_buf px = Some (BACKEND_PROXY_PROCESS_AGAIN, msg_buf,
        px\<lparr>px_backend := (px_backend px)\<lparr>st_eng := e\<rparr>\<rparr>)"
    "rx_ready cap bs e" "rx_blocks e = []" by auto
  then show ?case
    using Nil.prems(5)
    by - (rule exI [of _ msg_buf], rule exI [of _ "(px_backend px)\<lparr>st_eng := e\<rparr>"], rule exI [of _ q'],
        auto simp: fun_upd_idem)
next
  case (Cons d ds)
  let ?e = "st_eng (px_backend px)"
  obtain fuel' where fuel: "fuel = Suc fuel'" using Cons.prems(9) by (cases fuel) auto
  obtain b bl where B: "rx_blocks ?e = b # bl" "data_block f i b d" "list_all2 (data_block f i) bl ds"
    using Cons.prems(7) by (auto simp: list_all2_Cons2)
  from rx_queue_get_spec [OF Cons.prems(1,2)] obtain q1 where
    G: "backend_engine_hyperamp_rx_queue_get (Some ?e) HYPERAMP_MSG_HDR_PLUS_MAX_SIZE True True =
      Some (BACKEND_PROXY_PROCESS_OK, b, Some (?e\<lparr>be_hyper_rx_queue := Some q1\<rparr>))"
    "rx_ready cap bs (?e\<lparr>be_hyper_rx_queue := Some q1\<rparr>)"
    "rx_blocks (?e\<lparr>be_hyper_rx_queue := Some q1\<rparr>) = bl" unfolding B by auto
  let ?px = "put_eng (?e\<lparr>be_hyper_rx_queue := Some q1\<rparr>) px"
  obtain rest where rest: "overwrite b msg_buf = data_message f i d @ rest"
    using B(2) by (metis append_assoc append_take_drop_id data_block_def overwrite_def starts_with_def)
  have d: "length d < 65536" using B(2) by (simp add: data_block_def)
  obtain sb where sb: "mo_seg_ok (orc k)" "mo_seg_buf (orc k) = Some sb" "length sb = length d"
    "seg_memory orc (Suc k) ds" using Cons.prems(8) by (auto split: option.splits)
  have ready: "engine_ready ?px" using Cons.prems(3) by (simp add: engine_ready_def)
  from data_message_spec [OF ready _ _ Cons.prems(6) d sb(1-3), of i p f rest] Cons.prems(4,5)
  obtain st1 where S: "backend_proxy_msg_process (orc k) (data_message f i d @ rest) ?px
      = Some (BACKEND_PROXY_PROCESS_OK, ?px\<lparr>px_backend := st1\<rparr>)"
    "st_sess st1 = (st_sess (px_backend px))(p \<mapsto>
        s\<lparr>bs_msg_f2b := bs_msg_f2b s @ [payload_segment d],
          bs_state_f2b := bs_state_f2b s OR BACKEND_SESS_LINKED_TO_QUEUE\<rparr>)"
    "st_pool st1 = (st_pool (px_backend px))\<lparr>sp_queue_f2b :=
        enqueued_f2b p s (sp_queue_f2b (st_pool (px_backend px)))\<rparr>"
    "st_eng st1 = ?e\<lparr>be_hyper_rx_queue := Some q1\<rparr>" "st_trace st1 = st_trace (px_backend px)" by auto
  let ?px1 = "px\<lparr>px_backend := st1\<rparr>"
  let ?s1 = "s\<lparr>bs_msg_f2b := bs_msg_f2b s @ [payload_segment d],
          bs_state_f2b := bs_state_f2b s OR BACKEND_SESS_LINKED_TO_QUEUE\<rparr>"
  have step: "rx_loop fuel orc k msg_buf px = rx_loop fuel' orc (Suc k) (overwrite b msg_buf) ?px1"
    using G(1) S(1) rest by (simp add: fuel put_eng_def proxy_codes)
  have pre: "rx_ready cap bs (st_eng (px_backend ?px1))" "engine_ready ?px1"
    "high_speed_search_sess (px_backend ?px1) i = Some p" "st_sess (px_backend ?px1) p = Some ?s1"
    "bs_eng ?s1" "list_all2 (data_block f i) (rx_blocks (st_eng (px_backend ?px1))) ds" "length ds < fuel'"
    using G S(2-5) Cons.prems B(3) fuel by (auto simp: engine_ready_def high_speed_search_sess_def)
  have upd: "?px1\<lparr>px_backend := x\<rparr> = px\<lparr>px_backend := x\<rparr>" "px_backend ?px1 = st1" for x by simp_all
  from Cons.IH [OF pre(1) Cons.prems(2) pre(2-6) sb(4) pre(7), of "overwrite b msg_buf"]
  obtain buf st' q' where R: "rx_loop fuel' orc (Suc k) (overwrite b msg_buf) ?px1 =
      Some (BACKEND_PROXY_PROCESS_AGAIN, buf, px\<lparr>px_backend := st'\<rparr>)"
    "st_sess st' = (st_sess st1)(p \<mapsto> deliver ds ?s1)"
    "st_pool st' = (st_pool st1)\<lparr>sp_queue_f2b := (if ds = [] then sp_queue_f2b (st_pool st1)
         else enqueued_f2b p ?s1 (sp_queue_f2b (st_pool st1)))\<rparr>"
    "st_eng st' = (st_eng st1)\<lparr>be_hyper_rx_queue := Some q'\<rparr>"
    "rx_ready cap bs (st_eng st')" "rx_blocks (st_eng st') = []" "st_trace st' = st_trace st1"
    unfolding upd by blast
  show ?case
    unfolding step using R S(2-5)
    by - (rule exI [of _ buf], rule exI [of _ st'], rule exI [of _ q'], simp)
qed

lemma f2b_loop_all:
  assumes "list_all full_segment segs" "\<And>k d. send_res k d = int (length d)"
    and "int (length (concat (map seg_payload segs))) < buf"
  shows "f2b_loop send_res m fd k buf segs =
    (BACKEND_PROXY_PROCESS_OK, [], map (\<lambda>seg. Ev_send fd (seg_payload seg)) segs)"
  using assms(1,3)
proof (induction segs arbitrary: k buf)
  case (Cons seg segs)
  note S = full_segmentD [of seg m]
  have "f2b_loop send_res m fd (Suc k) (buf - int (unat (sg_len seg))) segs =
    (BACKEND_PROXY_PROCESS_OK, [], map (\<lambda>seg. Ev_send fd (seg_payload seg)) segs)"
    using Cons S by auto
  then show ?case using Cons.prems S
    by (auto simp: assms(2) [of k "seg_payload seg"] Let_def)
qed simp

lemma full_payload_segment: "0 < length d \<Longrightarrow> length d < 65536 \<Longrightarrow> full_segment (payload_segment d)"
  using unat_of_nat_u16 [of "length d"] by (auto simp: full_segment_def payload_segment_def unat_eq_0 [symmetric])

lemma seg_payload_payload_segment: "length d < 65536 \<Longrightarrow> seg_payload (payload_segment d) = d"
  using unat_of_nat_u16 [of "length d"] by (simp add: seg_payload_def payload_segment_def)

lemma f2b_pass_one:
  assumes "st_sess st p = Some s" "list_all full_segment (bs_msg_f2b s)" "map seg_payload (bs_msg_f2b s) = ds"
    and "ro_sndbuf orc p = Some n" "int (length (concat ds)) < n" "\<And>k d. ro_send orc p k d = int (length d)"
  shows "\<exists>st'. f2b_pass orc [p] st = Some st' \<and> st_trace st' = st_trace st @ map (Ev_send (bs_sock_fd s)) ds
    \<and> st_sess st' = (st_sess st)(p \<mapsto> s\<lparr>bs_msg_f2b := [],
        bs_state_f2b := bs_state_f2b s AND NOT BACKEND_SESS_LINKED_TO_QUEUE\<rparr>)
    \<and> st_pool st' = (st_pool st)\<lparr>sp_queue_f2b := remove1 p (sp_queue_f2b (st_pool st))\<rparr>
    \<and> st_eng st' = st_eng st"
proof -
  have "f2b_loop (ro_send orc p) (te_mem (be_tx (st_eng st))) (bs_sock_fd s) 0 n (bs_msg_f2b s) =
      (BACKEND_PROXY_PROCESS_OK, [], map (Ev_send (bs_sock_fd s)) (map seg_payload (bs_msg_f2b s)))"
    using f2b_loop_all [OF assms(2), of "ro_send orc p" n] assms(5,6) by (simp add: assms(3) [symmetric] comp_def)
  then show ?thesis
    using assms(1,3,4)
    by (simp add: high_speed_data_process_f2b_def unlink_done_def emits_def put_sess_def del: map_map)
qed

text \<open>
  C6.  Data of the frontend reaches the socket in one pass.  The receive queue holds, in this
  order, data messages for one live session whose queue is empty; memory is available and the
  socket takes what it is given.  Then the pass of the main loop ends, the engine goes on, and the
  payloads have been sent on the descriptor of the session, one \<open>send\<close> per message, in order and
  unchanged; the receive queue, the queue of sessions with data and the queue of the session are
  empty.
\<close>

theorem frontend_data_reaches_socket:
  assumes "rx_ready cap bs (st_eng (px_backend px))" "unat bs \<le> HYPERAMP_MSG_HDR_PLUS_MAX_SIZE"
    and "engine_ready px" "high_speed_search_sess (px_backend px) i = Some p"
    and "st_sess (px_backend px) p = Some s" "bs_eng s" "bs_msg_f2b s = []"
    and "bs_state_f2b s AND BACKEND_SESS_LINKED_TO_QUEUE = 0"
    and "sp_queue_f2b (st_pool (px_backend px)) = []" "sp_queue_b2f (st_pool (px_backend px)) = []"
    and "list_all2 (data_block f i) (rx_blocks (st_eng (px_backend px))) ds" "ds \<noteq> []"
    and "seg_memory (ro_msg orc) 0 ds" "length ds < fuel"
    and "ro_sndbuf orc p = Some n" "int (length (concat ds)) < n" "\<And>k d. ro_send orc p k d = int (length d)"
    and "ro_events orc = []" "backend_bluetooth_sess (px_iot px) = None"
    and "backend_can_sess (px_iot px) = None" "backend_modbustcp_sess (px_iot px) = None"
  shows "\<exists>buf px'. engine_pass fuel orc msg_buf px = Some (True, buf, px')
    \<and> st_trace (px_backend px') = st_trace (px_backend px) @ map (Ev_send (bs_sock_fd s)) ds
    \<and> rx_blocks (st_eng (px_backend px')) = [] \<and> sp_queue_f2b (st_pool (px_backend px')) = []
    \<and> map_option bs_msg_f2b (st_sess (px_backend px') p) = Some []"
proof -
  from rx_loop_data [OF assms(1-6,11,13,14), of msg_buf] obtain buf st1 q1 where
    R: "rx_loop fuel (ro_msg orc) 0 msg_buf px = Some (BACKEND_PROXY_PROCESS_AGAIN, buf, px\<lparr>px_backend := st1\<rparr>)"
      "st_sess st1 p = Some (deliver ds s)" "sp_queue_f2b (st_pool st1) = [p]" "sp_queue_b2f (st_pool st1) = []"
      "rx_blocks (st_eng st1) = []" "st_trace st1 = st_trace (px_backend px)"
    using assms(8-10,12) by (auto simp: enqueued_f2b_def)
  have full: "list_all full_segment (bs_msg_f2b (deliver ds s))"
    using assms(7,11) full_payload_segment
    by (auto simp: list_all_iff data_block_def list_all2_conv_all_nth in_set_conv_nth)
  have pay: "map seg_payload (bs_msg_f2b (deliver ds s)) = ds"
    using assms(7,11) by (auto simp: data_block_def list_all2_conv_all_nth in_set_conv_nth
        intro!: map_idI seg_payload_payload_segment)
  from f2b_pass_one [OF R(2) full pay assms(15-17)] obtain st2 where
    F: "f2b_pass orc [p] st1 = Some st2" "st_trace st2 = st_trace st1 @ map (Ev_send (bs_sock_fd s)) ds"
      "map_option bs_msg_f2b (st_sess st2 p) = Some []" "sp_queue_f2b (st_pool st2) = []"
      "sp_queue_b2f (st_pool st2) = []" "st_eng st2 = st_eng st1"
    using R(3,4) by (auto simp del: f2b_pass.simps)
  have "engine_pass fuel orc msg_buf px = Some (True, buf, px\<lparr>px_backend := st2\<rparr>)"
    using R(1,3) F(1,5) assms(18-21) by (simp add: engine_pass_def engine_iot_dev_run_def proxy_codes)
  then show ?thesis using F R(5,6) by simp
qed


section \<open>From the socket to the frontend\<close>

lemma round_segment_facts:
  assumes "good_round r"
  shows "seg_payload (round_segment s r) =
      data_message (bs_frontend_sess_id s) (bs_backend_sess_id s) (rr_data r)"
    and "length (rr_data r) + 8 \<le> unat bs \<Longrightarrow> fits_block bs (round_segment s r)"
proof -
  note P = data_segment_payload [OF assms, of s "the (rr_buffer r)", folded round_segment_def]
  show "seg_payload (round_segment s r) =
      data_message (bs_frontend_sess_id s) (bs_backend_sess_id s) (rr_data r)"
    using P(2) by (simp add: data_message_def data_header_def)
  have "8 + length (rr_data r) \<le> length (own_bytes (sg_data (round_segment s r)))"
    using assms by (auto simp: round_segment_def data_segment_def overwrite_def good_round_def Let_def)
  then show "length (rr_data r) + 8 \<le> unat bs \<Longrightarrow> fits_block bs (round_segment s r)"
    using P(1) by (auto simp: fits_block_def full_segment_def word_le_nat_alt round_segment_def
        data_segment_def Let_def unat_eq_0 [symmetric] simp del: unat_eq_0)
qed

lemma map_upt_split:
  assumes "map f [0..<m] = xs @ ys"
  shows "xs = map f [0..<length xs]" "ys = map f [length xs..<m]" "length xs \<le> m"
proof -
  have "length (xs @ ys) = m" unfolding assms [symmetric] by simp
  then show le: "length xs \<le> m" by simp
  have "xs = take (length xs) (xs @ ys)" "ys = drop (length xs) (xs @ ys)" by simp_all
  then show "xs = map f [0..<length xs]" "ys = map f [length xs..<m]"
    unfolding assms [symmetric] using le by (simp_all add: take_map drop_map take_upt)
qed

text \<open>Reading one ready session: its data messages are queued and the session is linked.\<close>

lemma poll_one:
  assumes "st_sess st p = Some s" "bs_eng s" "be_sess_pool (st_eng st)"
    and "ev AND EPOLLERR = 0" "ev AND EPOLLHUP = 0" "ev AND EPOLLIN \<noteq> 0" "bs_nc_events s AND EPOLLIN \<noteq> 0"
    and "bs_state_b2f s AND BACKEND_SESS_LINKED_TO_QUEUE = 0"
    and "\<And>k. good_round (rounds k)" "nat n < fuel"
  shows "\<exists>m st'. poller_run fuel [(ev, p, Some n, rounds)] st = Some st'
    \<and> n \<le> (\<Sum>j<m. rr_ret (rounds j))
    \<and> st_sess st' p = Some (s\<lparr>bs_msg_b2f := bs_msg_b2f s @ map (\<lambda>k. round_segment s (rounds k)) [0..<m],
        bs_state_b2f := bs_state_b2f s OR BACKEND_SESS_LINKED_TO_QUEUE\<rparr>)
    \<and> sp_queue_b2f (st_pool st') = sp_queue_b2f (st_pool st) @ [p]
    \<and> st_eng st' = st_eng st \<and> st_trace st' = st_trace st"
proof -
  from nns_loop_spec [where rounds = rounds and k = 0 and s = s, OF assms(9,10)] obtain m where
    "nns_loop fuel rounds 0 s n = Some (BACKEND_PROXY_PROCESS_OK,
       s\<lparr>bs_msg_b2f := bs_msg_b2f s @ map (\<lambda>k. round_segment s (rounds k)) [0..<m]\<rparr>)"
      "n \<le> (\<Sum>j<m. rr_ret (rounds j))" by auto
  then show ?thesis
    using assms(1-8) by (intro exI [of _ m])
      (simp add: high_speed_data_process_nns_def BACKEND_SESS_LINK_TO_QUEUE_def put_sess_def)
qed

lemma b2f_pass_one:
  assumes "tx_ready cap bs (be_tx (st_eng st))" "st_sess st p = Some s"
    and "list_all (fits_block bs) (bs_msg_b2f s)" "sp_queue_b2f (st_pool st) = [p]"
  shows "\<exists>st' sent left blocks. b2f_pass orc [p] st = Some st' \<and> bs_msg_b2f s = sent @ left
    \<and> tx_ready cap bs (be_tx (st_eng st')) \<and> tx_blocks (be_tx (st_eng st')) = tx_blocks (be_tx (st_eng st)) @ blocks
    \<and> list_all2 (\<lambda>seg b. starts_with (seg_payload seg) b) sent blocks
    \<and> map_option bs_msg_b2f (st_sess st' p) = Some left \<and> st_trace st' = st_trace st
    \<and> (if left = [] then sp_queue_b2f (st_pool st') = []
       else sp_queue_b2f (st_pool st') = [p] \<and> \<not> tx_room cap (be_tx (st_eng st')))"
proof -
  from b2f_loop_spec [OF assms(1,3)] obtain don left env blocks where
    L: "b2f_loop (be_tx (st_eng st)) (bs_msg_b2f s) =
      Some (if left = [] then BACKEND_PROXY_PROCESS_OK else BACKEND_PROXY_PROCESS_AGAIN, left, env)"
    "bs_msg_b2f s = don @ left" "tx_ready cap bs env" "tx_blocks env = tx_blocks (be_tx (st_eng st)) @ blocks"
    "list_all2 (\<lambda>seg b. starts_with (seg_payload seg) b) don blocks" "left \<noteq> [] \<longrightarrow> \<not> tx_room cap env" by blast
  let ?st1 = "put_tx env (put_sess p (s\<lparr>bs_msg_b2f := left\<rparr>) st)"
  have step: "high_speed_data_process_b2f p st =
      Some (if left = [] then BACKEND_PROXY_PROCESS_OK else BACKEND_PROXY_PROCESS_AGAIN, ?st1)"
    using assms(2) L(1) by (simp add: high_speed_data_process_b2f_def)
  define st' where "st' = (if left = [] then the (unlink_done p B2F ?st1) else ?st1)"
  have "b2f_pass orc [p] st = Some st'"
    using step by (auto simp: st'_def proxy_codes unlink_done_def put_tx_def put_sess_def)
  then show ?thesis
    using L(2-6) assms(4) 
    by - (rule exI [of _ st'], rule exI [of _ don], rule exI [of _ left], rule exI [of _ blocks],
      auto simp: st'_def unlink_done_def put_tx_def put_sess_def)
qed

text \<open>
  C7.  Data of a socket reaches the frontend in one pass.  The receive queue is empty, one
  session is ready for reading and announces \<open>n\<close> bytes, every \<open>read\<close> delivers 1 to 4088 bytes
  that fit a block with their header.  Then the pass ends, at least \<open>n\<close> bytes are read, and the
  transmit queue grows by data messages with the ids of the session, one per \<open>read\<close>, in order,
  whose payload is what \<open>read\<close> delivered.  The messages delivered are all of them, or the queue is
  full and the others stay queued at the session, which stays linked for the next pass.
\<close>

theorem socket_data_reaches_frontend:
  assumes "rx_ready rcap rbs (st_eng (px_backend px))" "unat rbs \<le> HYPERAMP_MSG_HDR_PLUS_MAX_SIZE"
    and "rx_blocks (st_eng (px_backend px)) = []" "tx_ready cap bs (be_tx (st_eng (px_backend px)))"
    and "st_sess (px_backend px) p = Some s" "bs_eng s" "be_sess_pool (st_eng (px_backend px))"
    and "bs_msg_b2f s = []" "bs_state_b2f s AND BACKEND_SESS_LINKED_TO_QUEUE = 0"
    and "sp_queue_f2b (st_pool (px_backend px)) = []" "sp_queue_b2f (st_pool (px_backend px)) = []"
    and "ro_events orc = [(ev, p, Some n, rounds)]" "ev AND EPOLLERR = 0" "ev AND EPOLLHUP = 0"
    and "ev AND EPOLLIN \<noteq> 0" "bs_nc_events s AND EPOLLIN \<noteq> 0" "nat n < fuel"
    and "\<And>k. good_round (rounds k)" "\<And>k. length (rr_data (rounds k)) + 8 \<le> unat bs"
    and "backend_bluetooth_sess (px_iot px) = None"
    and "backend_can_sess (px_iot px) = None" "backend_modbustcp_sess (px_iot px) = None"
  shows "\<exists>buf px' m j blocks. engine_pass fuel orc msg_buf px = Some (True, buf, px')
    \<and> n \<le> (\<Sum>k<m. rr_ret (rounds k)) \<and> j \<le> m
    \<and> tx_blocks (be_tx (st_eng (px_backend px'))) = tx_blocks (be_tx (st_eng (px_backend px))) @ blocks
    \<and> list_all2 starts_with
        (map (\<lambda>k. data_message (bs_frontend_sess_id s) (bs_backend_sess_id s) (rr_data (rounds k))) [0..<j]) blocks
    \<and> map_option bs_msg_b2f (st_sess (px_backend px') p) =
        Some (map (\<lambda>k. round_segment s (rounds k)) [j..<m])
    \<and> (if j = m then sp_queue_b2f (st_pool (px_backend px')) = []
       else sp_queue_b2f (st_pool (px_backend px')) = [p] \<and> \<not> tx_room cap (be_tx (st_eng (px_backend px'))))"
proof -
  let ?st = "px_backend px"
  from rx_loop_empty [OF assms(1-3), of fuel "ro_msg orc" 0 msg_buf] assms(17) obtain e q1 where
    e: "e = (st_eng ?st)\<lparr>be_hyper_rx_queue := Some q1\<rparr>"
    and R: "rx_loop fuel (ro_msg orc) 0 msg_buf px =
      Some (BACKEND_PROXY_PROCESS_AGAIN, msg_buf, px\<lparr>px_backend := ?st\<lparr>st_eng := e\<rparr>\<rparr>)" by auto
  define st1 where "st1 = ?st\<lparr>st_eng := e\<rparr>"
  have st1: "st_sess st1 = st_sess ?st" "st_pool st1 = st_pool ?st" "be_tx (st_eng st1) = be_tx (st_eng ?st)"
    "be_sess_pool (st_eng st1) = be_sess_pool (st_eng ?st)" by (simp_all add: st1_def e)
  from poll_one [of st1 p s ev rounds n fuel] assms(5-9,13-18) st1 obtain m st2 where
    P: "poller_run fuel (ro_events orc) st1 = Some st2" "n \<le> (\<Sum>k<m. rr_ret (rounds k))"
      "st_sess st2 p = Some (s\<lparr>bs_msg_b2f := map (\<lambda>k. round_segment s (rounds k)) [0..<m],
        bs_state_b2f := bs_state_b2f s OR BACKEND_SESS_LINKED_TO_QUEUE\<rparr>)"
      "sp_queue_b2f (st_pool st2) = [p]" "st_eng st2 = st_eng st1"
    unfolding assms(12) by (auto simp: assms(11) simp del: poller_run.simps)
  have fits: "list_all (fits_block bs) (map (\<lambda>k. round_segment s (rounds k)) [0..<m])"
    using round_segment_facts(2) [OF assms(18,19)] by (simp add: list_all_iff)
  from b2f_pass_one [of cap bs st2 p _ orc] P(3-5) fits assms(4) st1(3) obtain st3 sent left blocks where
    B: "b2f_pass orc [p] st2 = Some st3" "map (\<lambda>k. round_segment s (rounds k)) [0..<m] = sent @ left"
      "tx_blocks (be_tx (st_eng st3)) = tx_blocks (be_tx (st_eng ?st)) @ blocks"
      "list_all2 (\<lambda>seg b. starts_with (seg_payload seg) b) sent blocks"
      "map_option bs_msg_b2f (st_sess st3 p) = Some left"
      "if left = [] then sp_queue_b2f (st_pool st3) = []
       else sp_queue_b2f (st_pool st3) = [p] \<and> \<not> tx_room cap (be_tx (st_eng st3))"
    by (fastforce simp del: b2f_pass.simps)
  have run: "engine_pass fuel orc msg_buf px = Some (True, msg_buf, px\<lparr>px_backend := st3\<rparr>)"
    using R [folded st1_def] P(1,4) B(1) assms(10,20-22) st1(2)
    by (simp add: engine_pass_def engine_iot_dev_run_def proxy_codes del: b2f_pass.simps)
  define j where "j = length sent"
  note split = map_upt_split [OF B(2), folded j_def]
  have "list_all2 starts_with
        (map (\<lambda>k. data_message (bs_frontend_sess_id s) (bs_backend_sess_id s) (rr_data (rounds k))) [0..<j]) blocks"
    using B(4) round_segment_facts(1) [OF assms(18)] by (subst (asm) split(1)) (simp add: list_all2_map1)
  moreover have "left = [] \<longleftrightarrow> j = m" using split(2,3) by auto
  ultimately show ?thesis
    using run P(2) B(3,5,6) split(2,3)
    by - (rule exI, rule exI [of _ "px\<lparr>px_backend := st3\<rparr>"], rule exI [of _ m], rule exI [of _ j],
        rule exI [of _ blocks], auto)
qed


section \<open>IoT devices\<close>

text \<open>
  The Bluetooth loop of a server session never ends: its receive routine reports success
  without having read anything, so every round sends another message and asks again, whatever the
  amount of fuel.  The main loop does not get past its fifth step then.
\<close>

lemma bluetooth_server_diverges:
  assumes "is_working_mode sess \<noteq> IOT_WORK_MODE_CLIENT"
  shows "engine_iot_bluetooth_run fuel reads k sess st = None
    \<and> (backend_bluetooth_sess (px_iot px) = Some sess \<longrightarrow> engine_iot_dev_run fuel orc px = None)"
proof -
  have "engine_iot_bluetooth_run fuel reads k sess st = None" for reads k st
  proof (induction fuel arbitrary: k st)
    case (Suc fuel)
    then show ?case using assms
      by (auto simp: bluetooth_recv_from_remote_def proxy_codes bind_eq_None_conv split: prod.split)
  qed simp
  then show ?thesis by (simp add: engine_iot_dev_run_def)
qed

text \<open>What the frontend receives for a packet of a device: headers, address and data.\<close>

definition iot_report :: "u16 \<Rightarrow> bytes \<Rightarrow> bytes \<Rightarrow> bytes" where
  "iot_report proto addr d =
     enc_ProxyMsgHeader \<lparr>ph_version = 0, ph_proxy_msg_type = PROXY_MSG_TYPE_IOT, ph_frontend_sess_id = 0,
       ph_backend_sess_id = 0, ph_payload_len = of_nat (length d + (12 + length addr))\<rparr> @
     enc_IotMsgHeader \<lparr>ih_proto_ver = 0, ih_proto_type = proto, ih_opcode = 0, ih_dev_port_id = 0,
       ih_payload_len = of_nat (length d + length addr), ih_reserve = 0\<rparr> @ addr @ d"

lemma iot_inner:
  assumes "length addr = get_iot_addr_length proto" "0 < get_iot_addr_length proto"
    and "n = unat (mb_len mb)" "n \<le> length (mb_data mb)"
  shows "build_inner_message (iot_proxy_header proto addr mb) (mb_data mb) n =
    Some (BACKEND_PROXY_PROCESS_OK, of_nat (12 + length addr),
      enc_IotMsgHeader \<lparr>ih_proto_ver = 0, ih_proto_type = proto, ih_opcode = 0, ih_dev_port_id = 0,
        ih_payload_len = of_nat (n + length addr), ih_reserve = 0\<rparr> @ addr @ take n (mb_data mb))"
proof -
  have le: "get_iot_addr_length proto \<le> 20"
    by (auto simp: get_iot_addr_length_def iot_sizes)
  then have "unat (of_nat (get_iot_addr_length proto) :: u16) = get_iot_addr_length proto"
    by (simp add: unat_of_nat_u16)
  then show ?thesis
    using assms le
    by (simp add: build_inner_message_def iot_proxy_header_def proxy_msg_types build_proxy_iot_message_def
        dec_enc_IotMsgHeader [where r = "[]", simplified] Let_def overwrite_def sizeof_addr_info_def
        del: of_nat_add)
qed

text \<open>A packet that fits a block enters the transmit queue, if there is room.\<close>

lemma iot_forward_spec:
  assumes "tx_ready cap bs (be_tx (st_eng st))" "unat bs \<le> sizeof_tx_buf" "is_eng sess"
    and "length addr = get_iot_addr_length proto" "0 < get_iot_addr_length proto"
    and "n = unat (mb_len mb)" "n \<le> length (mb_data mb)" "n + length addr + 20 \<le> unat bs"
    and "tx_room cap (be_tx (st_eng st))"
  shows "\<exists>t pad. iot_forward sess proto addr mb st = Some (put_tx t st) \<and> tx_ready cap bs t
    \<and> tx_blocks t = tx_blocks (be_tx (st_eng st)) @ [iot_report proto addr (take n (mb_data mb)) @ pad]"
proof -
  let ?env = "be_tx (st_eng st)" and ?h = "iot_proxy_header proto addr mb"
  obtain q where q: "te_hyper_tx_queue ?env = Some q" "queue_inv (te_data_region ?env) cap bs q"
    and e: "te_mem_pool ?env" "te_data_region ?env \<noteq> 0"
    using assms(1) by (auto simp: tx_ready_def split: option.splits)
  note inner = iot_inner [OF assms(4-7)]
  have "length addr \<le> 20" using assms(4) by (auto simp: get_iot_addr_length_def iot_sizes)
  then have w: "unat (of_nat (12 + length addr) :: u16) = 12 + length addr"
    by (simp add: unat_of_nat_u16 del: of_nat_add)
  have msg: "outer_message ?h (of_nat (12 + length addr)) n
      (enc_IotMsgHeader \<lparr>ih_proto_ver = 0, ih_proto_type = proto, ih_opcode = 0, ih_dev_port_id = 0,
        ih_payload_len = of_nat (n + length addr), ih_reserve = 0\<rparr> @ addr @ take n (mb_data mb))
      = iot_report proto addr (take n (mb_data mb))"
    using assms(7) unfolding outer_message_def w by (simp add: iot_report_def iot_proxy_header_def)
  from build_ampqueue_delivers [OF inner _ _ assms(2) q, of None] assms(7-9) w q(1) show ?thesis
    unfolding msg iot_forward_def using assms(3,6) e
    by (fastforce simp: build_proxy_general_message_def tx_blocks_def tx_ready_def)
qed

text \<open>
  Reads that deliver the packets \<open>ps\<close> (data, port, textual address of the sender) and then
  report that nothing more is there.
\<close>

fun bt_reads ::
  "(nat \<Rightarrow> int \<times> bytes \<times> int \<times> (int \<times> u16 \<times> bytes) option) \<Rightarrow> nat \<Rightarrow> (bytes \<times> u16 \<times> bytes) list \<Rightarrow> bool" where
  "bt_reads reads k [] = (case reads k of (n, _, errno, _) \<Rightarrow> n < 0 \<and> errno = EAGAIN)"
| "bt_reads reads k ((d, psm, mac) # ps) =
     (fst (reads k) = int (length d) \<and> fst (snd (reads k)) = d \<and>
      snd (snd (snd (reads k))) = Some (AF_BLUETOOTH, psm, mac) \<and>
      0 < length d \<and> length d \<le> 1024 \<and> length mac = 18 \<and> bt_reads reads (Suc k) ps)"

definition bt_report :: "bytes \<times> u16 \<times> bytes \<Rightarrow> bytes" where
  "bt_report p = (case p of (d, psm, mac) \<Rightarrow>
     iot_report IOT_PROTO_TYPE_BLUETOOTH (enc_IotBtAddr \<lparr>ba_mac = mac, ba_port = psm\<rparr>) d)"

lemma bt_recv_packet:
  assumes "is_working_mode sess = IOT_WORK_MODE_CLIENT" "bt_reads reads k ((d, psm, mac) # ps)"
    and "reads k = (n, rcv, errno, peer)"
  shows "\<exists>mb. bluetooth_recv_from_remote n rcv errno peer sess iot_read_buffer = (BACKEND_PROXY_PROCESS_OK, mb)
    \<and> unat (mb_len mb) = length d \<and> length d \<le> length (mb_data mb) \<and> take (length d) (mb_data mb) = d
    \<and> take sizeof_IotBtAddr (ia_addr_info (mb_addr mb)) = enc_IotBtAddr \<lparr>ba_mac = mac, ba_port = psm\<rparr>"
proof -
  have "length d < 4294967296" using assms(2) by simp
  then have "unat (of_nat (length d) :: u32) = length d"
    by (simp add: unat_of_nat take_bit_nat_eq_self)
  then show ?thesis
    using assms by (auto simp: bluetooth_recv_from_remote_def iot_read_buffer_def overwrite_def
        enc_IotBtAddr_def iot_sizes Let_def)
qed




section \<open>Concrete passes\<close>

definition run_sess :: BackendSession where
  "run_sess = one_sess\<lparr>bs_state_f2b := 0, bs_nc_events := EPOLLIN\<rparr>"

definition run_engine :: "nat \<Rightarrow> mem \<Rightarrow> BackendEngine" where
  "run_engine h m = (st_eng sample_backend)\<lparr>be_hyper_rx_queue :=
       Some (sample_queue\<lparr>hq_block_size := 32, hq_header := of_nat h\<rparr>),
     be_tx := sample_tx_env\<lparr>te_mem := m\<rparr>\<rparr>"

definition run_proxy :: "nat \<Rightarrow> mem \<Rightarrow> proxy" where
  "run_proxy h m = \<lparr>px_engine_set = True, px_pool_set = True,
     px_backend = put_sess 7 run_sess (sample_backend\<lparr>st_eng := run_engine h m,
       st_pool := (st_pool sample_backend)\<lparr>sp_htable := [(9, 7)]\<rparr>\<rparr>),
     px_iot = sample_iot\<lparr>backend_can_sess := None\<rparr>\<rparr>"

definition two_messages :: mem where
  "two_messages a = (let i = unat (a - slot_addr 4096 32 0)
     in if i < 11 then data_message 11 9 [1, 2, 3] ! i
        else if 32 \<le> i \<and> i < 41 then data_message 11 9 [4] ! (i - 32) else 0)"

definition run_env :: "(u32 \<times> nat \<times> int option \<times> (nat \<Rightarrow> read_round)) list \<Rightarrow> run_oracle" where
  "run_env events = \<lparr>ro_frontend = (\<lambda>e. (be_hyper_rx_queue e, te_hyper_tx_queue (be_tx e), te_mem (be_tx e))),
     ro_msg = (\<lambda>k. sample_msg_oracle (Some (replicate (if k = 0 then 3 else 1) 0))), ro_sndbuf = (\<lambda>_. Some 100),
     ro_send = (\<lambda>_ _ d. int (length d)), ro_del_ok = (\<lambda>_. True), ro_events = events,
     ro_bluetooth = (\<lambda>_. (-1, [], EAGAIN, None)), ro_can = (\<lambda>_. (-1, undefined, EAGAIN)), ro_modbus = (\<lambda>_. None)\<rparr>"

lemma run_proxy_facts:
  "rx_ready 4 32 (run_engine 2 two_messages)" "rx_ready 4 32 (run_engine 0 sample_mem)"
  "tx_ready 4 32 (be_tx (run_engine h m))"
  "st_eng (px_backend (run_proxy h m)) = run_engine h m" "st_sess (px_backend (run_proxy h m)) 7 = Some run_sess"
  "high_speed_search_sess (px_backend (run_proxy h m)) 9 = Some 7" "engine_ready (run_proxy h m)"
  "sp_queue_f2b (st_pool (px_backend (run_proxy h m))) = []" "sp_queue_b2f (st_pool (px_backend (run_proxy h m))) = []"
  "be_sess_pool (run_engine h m)"
  "st_trace (px_backend (run_proxy h m)) = []" "backend_bluetooth_sess (px_iot (run_proxy h m)) = None"
  "backend_can_sess (px_iot (run_proxy h m)) = None" "backend_modbustcp_sess (px_iot (run_proxy h m)) = None"
  by (simp_all add: sample_iot_def run_proxy_def run_engine_def rx_ready_def tx_ready_def queue_inv_def sample_queue_def
      lock_is_free_def fits_def sample_tx_env_def sample_backend_def sample_engine_def engine_ready_def
      high_speed_search_sess_def hash_find_def put_sess_def)

lemma two_messages_blocks:
  "rx_blocks (run_engine 2 two_messages) =
     [data_message 11 9 [1, 2, 3] @ replicate 21 0, data_message 11 9 [4] @ replicate 23 0]"
  by code_simp

theorem frontend_data_reaches_socket_witness:
  "\<exists>buf px'. engine_pass 5 (run_env []) [] (run_proxy 2 two_messages) = Some (True, buf, px')
    \<and> st_trace (px_backend px') = [Ev_send 5 [1, 2, 3], Ev_send 5 [4]]"
proof -
  have blocks: "list_all2 (data_block 11 9) (rx_blocks (run_engine 2 two_messages)) [[1, 2, 3], [4]]"
    unfolding two_messages_blocks by (simp add: data_block_def starts_with_def)
  have "seg_memory (ro_msg (run_env [])) 0 [[1, 2, 3], [4]]" "bs_eng run_sess" "bs_msg_f2b run_sess = []"
    "bs_state_f2b run_sess AND BACKEND_SESS_LINKED_TO_QUEUE = 0" "bs_sock_fd run_sess = 5"
    by code_simp+
  with blocks show ?thesis
    using frontend_data_reaches_socket [of 4 32 "run_proxy 2 two_messages" 9 7 run_sess 11 "[[1, 2, 3], [4]]"
        "run_env []" 5 100 "[]"] run_proxy_facts
    by (auto simp: hyperamp_msg_sizes run_env_def)
qed

theorem socket_data_reaches_frontend_witness:
  "\<exists>buf px' b bs. engine_pass 5 (run_env [(EPOLLIN, 7, Some 2, sample_round)]) [] (run_proxy 0 sample_mem)
      = Some (True, buf, px')
    \<and> tx_blocks (be_tx (st_eng (px_backend px'))) = b # bs \<and> starts_with (data_message 11 9 [0, 42]) b"
proof -
  let ?orc = "run_env [(EPOLLIN, 7, Some 2, sample_round)]" and ?px = "run_proxy 0 sample_mem"
  have c: "rx_blocks (run_engine 0 sample_mem) = []" "tx_blocks (be_tx (run_engine 0 sample_mem)) = []"
    "bs_eng run_sess" "bs_msg_b2f run_sess = []" "bs_state_b2f run_sess AND BACKEND_SESS_LINKED_TO_QUEUE = 0"
    "bs_frontend_sess_id run_sess = 11" "bs_backend_sess_id run_sess = 9" "bs_nc_events run_sess AND EPOLLIN \<noteq> 0"
    "EPOLLIN AND EPOLLERR = 0" "EPOLLIN AND EPOLLHUP = 0" "EPOLLIN AND EPOLLIN \<noteq> 0"
    by code_simp+
  have g: "good_round (sample_round k)" "length (rr_data (sample_round k)) + 8 \<le> unat (32 :: u16)" for k
    by (simp_all add: good_round_def sample_round_def PROXY_MSG_MAX_SIZE_def)
  have orc: "ro_events ?orc = [(EPOLLIN, 7, Some 2, sample_round)]" by (simp add: run_env_def)
  obtain buf px' m j blocks where R: "engine_pass 5 ?orc [] ?px = Some (True, buf, px')"
    "2 \<le> (\<Sum>k<m. rr_ret (sample_round k))" "j \<le> m" "tx_blocks (be_tx (st_eng (px_backend px'))) = blocks"
    "list_all2 starts_with (map (\<lambda>k. data_message 11 9 (rr_data (sample_round k))) [0..<j]) blocks"
    "j = m \<or> \<not> tx_room 4 (be_tx (st_eng (px_backend px')))"
    using socket_data_reaches_frontend [of 4 32 ?px 4 32 7 run_sess ?orc EPOLLIN 2 sample_round 5 "[]"]
      run_proxy_facts c g orc by (fastforce simp: hyperamp_msg_sizes)
  have "length blocks = j" using list_all2_lengthD [OF R(5)] by simp
  then have "0 < j" using R(2,4,6) by (cases j) auto
  then have "[0..<j] = 0 # [1..<j]" by (simp add: upt_conv_Cons)
  with R show ?thesis by (auto simp: list_all2_Cons1 sample_round_def)
qed

definition roomy_tx :: backend where
  "roomy_tx = put_tx (sample_tx_env\<lparr>te_hyper_tx_queue := Some (sample_queue\<lparr>hq_block_size := 64\<rparr>)\<rparr>) sample_backend"

lemma roomy_tx_facts: "tx_ready 4 64 (be_tx (st_eng roomy_tx))" "tx_blocks (be_tx (st_eng roomy_tx)) = []"
proof -
  show "tx_ready 4 64 (be_tx (st_eng roomy_tx))"
    by (simp add: roomy_tx_def put_tx_def tx_ready_def sample_tx_env_def queue_inv_def sample_queue_def
        lock_is_free_def fits_def)
qed code_simp



end
