(* ===== verification/Engine_Attach.thy ===== *)
theory Engine_Attach
  imports Hyperamp_Init Engine_Lemmas
begin

text \<open>
  Connecting the engine to its channel (\<open>src/src/engine.c\<close>), and what the two queues of a
  channel share: both address their blocks in one data region.

  The engine's pointers to the control blocks are represented by the structures found there;
  the operations on a queue change the structure, and the bytes of the data region only.
\<close>

section \<open>Operations\<close>

text \<open>The channel is the second one, and the engine connects as a non-creator.\<close>

definition engine_init_hyperamp_queue ::
  "int \<Rightarrow> u64 \<Rightarrow> u64 option \<Rightarrow> HyperampLinuxContext \<Rightarrow> BackendEngine \<Rightarrow>
   int \<times> HyperampLinuxContext \<times> BackendEngine \<times> map_event list" where
  "engine_init_hyperamp_queue fd page_size mapped g_ctx eng =
     (let (ret, ctx, m, ev) = hyperamp_linux_init fd page_size mapped SHM_CH1_PADDR 0 g_ctx (te_mem (be_tx eng))
      in if ret = HYPERAMP_ERROR then (BACKEND_PROXY_PROCESS_ERROR, ctx, eng\<lparr>be_tx := (be_tx eng)\<lparr>te_mem := m\<rparr>\<rparr>, ev)
         else (BACKEND_PROXY_PROCESS_OK, ctx,
               eng\<lparr>be_hyper_rx_queue := Some (load_queue m (lc_rx_queue ctx)),
                   be_tx := (be_tx eng)\<lparr>te_hyper_tx_queue := Some (load_queue m (lc_tx_queue ctx)),
                     te_data_region := lc_data_region ctx, te_mem := m\<rparr>\<rparr>, ev))"


section \<open>Properties\<close>

lemma fresh_queue_contents: "fresh_queue vb cap q \<Longrightarrow> queue_contents vb q m = []"
  by (simp add: fresh_queue_def queue_contents_def ring_slots_empty)

lemma attach_channel:
  assumes "lc_initialized ctx = 0" "0 \<le> fd" "base = a + page_offset page_size SHM_CH1_PADDR"
    and "fits base SHM_CH1_TOTAL_SIZE" "vb = base + of_nat (2 * SHM_QUEUE_SIZE)"
    and "fresh_queue vb 253 (load_queue (te_mem (be_tx eng)) base)"
    and "fresh_queue vb 253 (load_queue (te_mem (be_tx eng)) (base + of_nat SHM_QUEUE_SIZE))"
    and "te_mem_pool (be_tx eng)"
  shows "\<exists>ctx' rx t. engine_init_hyperamp_queue fd page_size (Some a) ctx eng
      = (BACKEND_PROXY_PROCESS_OK, ctx', eng\<lparr>be_hyper_rx_queue := Some rx, be_tx := t\<rparr>, [])
    \<and> rx_ready 253 4096 (eng\<lparr>be_hyper_rx_queue := Some rx, be_tx := t\<rparr>)
    \<and> rx_blocks (eng\<lparr>be_hyper_rx_queue := Some rx, be_tx := t\<rparr>) = [] \<and> tx_ready 253 4096 t
    \<and> tx_blocks t = [] \<and> te_mem t = te_mem (be_tx eng)"
proof -
  have p: "SHM_CH1_PADDR \<noteq> 0" by (simp add: shm_layout)
  have sizes: "channel_sizes SHM_CH1_PADDR = (SHM_CH1_TOTAL_SIZE, SHM_CH1_DATA_SIZE)"
    by (simp add: channel_sizes_def)
  have "unat vb = unat base + 8192" using channel_addresses(2) [OF sizes assms(4)] assms(5) by simp
  then have vb: "vb \<noteq> 0" by (metis add_is_0 unat_0 zero_neq_numeral)
  from linux_init_connects [OF assms(1,2) refl, of base a page_size SHM_CH1_PADDR] assms(3) p
  obtain ctx' where C: "hyperamp_linux_init fd page_size (Some a) SHM_CH1_PADDR 0 ctx (te_mem (be_tx eng)) =
      (HYPERAMP_OK, ctx', te_mem (be_tx eng), [])" "lc_rx_queue ctx' = base"
      "lc_tx_queue ctx' = base + of_nat SHM_QUEUE_SIZE" "lc_data_region ctx' = vb"
    using assms(5) by auto
  have "queue_inv vb 253 4096 (load_queue (te_mem (be_tx eng)) base)"
    "queue_inv vb 253 4096 (load_queue (te_mem (be_tx eng)) (base + of_nat SHM_QUEUE_SIZE))"
    using assms(6,7) by (simp_all add: fresh_queue_def DEFAULT_BLOCK_SIZE_def)
  then show ?thesis
    using C vb assms(8) fresh_queue_contents [OF assms(6)] fresh_queue_contents [OF assms(7)]
    by (intro exI [of _ ctx'] exI [of _ "load_queue (te_mem (be_tx eng)) base"] exI [of _ "(be_tx eng)
          \<lparr>te_hyper_tx_queue := Some (load_queue (te_mem (be_tx eng)) (base + of_nat SHM_QUEUE_SIZE)),
           te_data_region := vb\<rparr>"])
      (simp add: engine_init_hyperamp_queue_def hyperamp_codes rx_ready_def rx_blocks_def tx_ready_def tx_blocks_def)
qed

text \<open>
  Attaching the engine.  When the mapping succeeds and the creator of channel 1 has left its
  two queues in the mapped memory, the engine holds them afterwards: receive and transmit queue
  satisfy what the main loop relies on, with the capacity of the channel and blocks of 4096 bytes
  (as many as the receive buffer holds), and both are empty; the memory is unchanged.
\<close>

lemma engine_attaches_to_channel:
  assumes "lc_initialized ctx = 0" "0 \<le> fd" "base = a + page_offset page_size SHM_CH1_PADDR"
    and "fits base SHM_CH1_TOTAL_SIZE" "vb = base + of_nat (2 * SHM_QUEUE_SIZE)"
    and "fresh_queue vb 253 (load_queue (te_mem (be_tx eng)) base)"
    and "fresh_queue vb 253 (load_queue (te_mem (be_tx eng)) (base + of_nat SHM_QUEUE_SIZE))"
    and "te_mem_pool (be_tx eng)"
  shows "\<exists>ctx' eng'. engine_init_hyperamp_queue fd page_size (Some a) ctx eng
      = (BACKEND_PROXY_PROCESS_OK, ctx', eng', [])
    \<and> rx_ready 253 4096 eng' \<and> rx_blocks eng' = [] \<and> tx_ready 253 4096 (be_tx eng')
    \<and> tx_blocks (be_tx eng') = [] \<and> te_mem (be_tx eng') = te_mem (be_tx eng)
    \<and> unat (4096 :: u16) = HYPERAMP_MSG_HDR_PLUS_MAX_SIZE"
  using attach_channel [OF assms] by (fastforce simp: hyperamp_msg_sizes)

text \<open>
  Sending destroys a pending message.  Receive and transmit queue use the same data region
  and the same slot addresses.  If the slot the transmit queue fills next has the number of the
  oldest pending message of the receive queue (as for the first message in each direction on a
  fresh channel), a successful \<open>backend_engine_hyperamp_tx_queue_put\<close> overwrites that message: what
  the next \<open>backend_engine_hyperamp_rx_queue_get\<close> delivers starts with the bytes just sent.
\<close>

lemma tx_put_overwrites_pending_rx:
  assumes "rx_ready cap bs e" "tx_ready cap bs (be_tx e)" "be_hyper_rx_queue e = Some rx"
    and "te_hyper_tx_queue (be_tx e) = Some tx" "hq_header tx = hq_tail rx" "rx_blocks e \<noteq> []"
    and "tx_room cap (be_tx e)" "0 < length d" "length d \<le> unat bs"
  shows "\<exists>env' q'. backend_engine_hyperamp_tx_queue_put (be_tx e) (Some d) (length d)
      = Some (BACKEND_PROXY_PROCESS_OK, env')
    \<and> backend_engine_hyperamp_rx_queue_get (Some (e\<lparr>be_tx := env'\<rparr>)) (unat bs) True True
      = Some (BACKEND_PROXY_PROCESS_OK, d @ drop (length d) (hd (rx_blocks e)), q')"
proof -
  let ?env = "be_tx e" and ?vb = "te_data_region (be_tx e)" and ?m = "te_mem (be_tx e)"
  have r: "queue_inv ?vb cap bs rx" "?vb \<noteq> 0" and t: "queue_inv ?vb cap bs tx"
    using assms(1-4) by (auto simp: rx_ready_def tx_ready_def)
  note R = queue_inv_nat [OF r(1)] and T = queue_inv_nat [OF t]
  have w: "hq_header tx < cap" "hq_tail tx < cap" using t by (auto simp: queue_inv_def)
  define m' where "m' = hyperamp_safe_memcpy ?m (slot_addr ?vb bs (unat (hq_header tx))) d (length d)"
  have room: "ring_next_u16 cap (hq_header tx) \<noteq> hq_tail tx"
    using assms(4,7) T ring_len_full_iff [OF T(1,2)] ring_len_less [OF T(1,2)] unat_ring_next_u16 [OF w(1)]
    by (auto simp: tx_blocks_def queue_contents_def word_unat_eq_iff)
  obtain q1 where put: "backend_engine_hyperamp_tx_queue_put ?env (Some d) (length d) =
      Some (BACKEND_PROXY_PROCESS_OK, ?env\<lparr>te_hyper_tx_queue := Some q1, te_mem := m'\<rparr>)"
    using assms(4,8,9) r(2) T room
    by (auto simp: backend_engine_hyperamp_tx_queue_put_def hyperamp_queue_enqueue_def Let_def m'_def
        hyperamp_codes proxy_codes)
  have ne: "unat (hq_tail rx) \<noteq> unat (hq_header rx)"
    using assms(3,6) by (auto simp: rx_blocks_def queue_contents_def ring_slots_empty)
  note slots = ring_slots_next_tail [OF R(1,2) ne]
  have old: "hd (rx_blocks e) = slot_block ?vb bs ?m (unat (hq_tail rx))"
    using assms(3) R(3,4) by (simp add: rx_blocks_def queue_contents_def slots)
  have new: "slot_block ?vb bs m' (unat (hq_tail rx)) = d @ drop (length d) (hd (rx_blocks e))"
    using written_block [OF t assms(9), of ?m] unfolding old m'_def assms(5) .
  let ?e = "e\<lparr>be_tx := ?env\<lparr>te_hyper_tx_queue := Some q1, te_mem := m'\<rparr>\<rparr>"
  have ready: "rx_ready cap bs ?e" "rx_blocks ?e \<noteq> []" "hd (rx_blocks ?e) = d @ drop (length d) (hd (rx_blocks e))"
    using assms(1,3) R(3,4) new by (simp_all add: rx_ready_def rx_blocks_def queue_contents_def slots)
  from rx_queue_get_spec [OF ready(1) order_refl] ready(2,3) put show ?thesis by auto
qed


section \<open>Concrete channel\<close>

definition channel_engine :: BackendEngine where
  "channel_engine = run_engine 0 (created_channel SHM_CH1_PADDR 0x10000000 SHM_CH1_DATA_SIZE sample_mem)"

end
