(* ===== verification/Dictionary.thy ===== *)
theory Dictionary
  imports Keyed_Table
begin

text \<open>
  The string dictionary behind the configuration file (\<open>src/src/dictionary.c\<close>,
  \<open>src/include/dictionary.h\<close>): parallel arrays of keys, values and hash values with free slots in
  between.  A NULL pointer in an array is \<open>None\<close>.  The results of \<open>calloc\<close> and of the string
  copies are arguments; \<open>None\<close> as a result stands for a search that does not end or leaves the
  array.  Characters are unsigned, as on the target.
\<close>

section \<open>Data and operations\<close>

record dictionary =
  dc_n :: nat
  dc_size :: nat
  dc_val :: "string option list"
  dc_key :: "string option list"
  dc_hash :: "u32 list"

definition DICTMINSZ :: nat where "DICTMINSZ = 128"

definition xstrdup :: "bool \<Rightarrow> string option \<Rightarrow> string option" where
  "xstrdup malloc_ok s = (if malloc_ok then s else None)"

text \<open>One round of the hash loop, and the final mixing.\<close>

definition hash_round :: "char \<Rightarrow> u32 \<Rightarrow> u32" where
  "hash_round c h = (let h1 = h + of_char c; h2 = h1 + push_bit 10 h1 in h2 XOR drop_bit 6 h2)"

definition dictionary_hash :: "string option \<Rightarrow> u32" where
  "dictionary_hash key =
     (case key of
        None \<Rightarrow> 0
      | Some s \<Rightarrow>
          (let h = fold hash_round s 0;
               h1 = h + push_bit 3 h;
               h2 = h1 XOR drop_bit 11 h1
           in h2 + push_bit 15 h2))"

definition dictionary_new :: "nat \<Rightarrow> dictionary" where
  "dictionary_new req =
     (let sz = (if req < DICTMINSZ then DICTMINSZ else req)
      in \<lparr>dc_n = 0, dc_size = sz, dc_val = replicate sz None, dc_key = replicate sz None,
          dc_hash = replicate sz 0\<rparr>)"

definition dictionary_grow :: "bool \<Rightarrow> dictionary \<Rightarrow> int \<times> dictionary" where
  "dictionary_grow calloc_ok d =
     (if \<not> calloc_ok then (-1, d)
      else (0, d\<lparr>dc_size := dc_size d * 2,
                 dc_val := dc_val d @ replicate (dc_size d) None,
                 dc_key := dc_key d @ replicate (dc_size d) None,
                 dc_hash := dc_hash d @ replicate (dc_size d) 0\<rparr>))"

text \<open>The scan shared by lookup, update and removal: the first slot with this hash and key.\<close>

definition find_slot :: "dictionary \<Rightarrow> string \<Rightarrow> nat option" where
  "find_slot d key =
     (let hash = dictionary_hash (Some key)
      in List.find (\<lambda>i. dc_key d ! i \<noteq> None \<and> hash = dc_hash d ! i \<and> dc_key d ! i = Some key) [0..<dc_size d])"

definition dictionary_get :: "dictionary \<Rightarrow> string \<Rightarrow> string option \<Rightarrow> string option" where
  "dictionary_get d key dflt = (case find_slot d key of None \<Rightarrow> dflt | Some i \<Rightarrow> dc_val d ! i)"

text \<open>The loop that looks for an empty slot, from \<open>i\<close> on and around; \<open>fuel\<close> bounds it.\<close>

fun free_slot :: "nat \<Rightarrow> string option list \<Rightarrow> nat \<Rightarrow> nat option" where
  "free_slot 0 keys i = None"
| "free_slot (Suc fuel) keys i =
     (if \<not> i < length keys then None
      else if keys ! i = None then Some i
      else free_slot fuel keys (if Suc i = length keys then 0 else Suc i))"

text \<open>Memory for the grown arrays, the copy of the key and the copy of the value.\<close>

record dict_memory =
  dm_grow :: bool
  dm_key :: bool
  dm_val :: bool

definition dictionary_set ::
  "dict_memory \<Rightarrow> dictionary option \<Rightarrow> string option \<Rightarrow> string option \<Rightarrow> (int \<times> dictionary option) option" where
  "dictionary_set dm dict key val =
     (case (dict, key) of
        (Some d, Some k) \<Rightarrow>
          (case (if dc_n d > 0 then find_slot d k else None) of
             Some i \<Rightarrow> Some (0, Some (d\<lparr>dc_val := (dc_val d)[i := xstrdup (dm_val dm) val]\<rparr>))
           | None \<Rightarrow>
               let (ret, d1) = (if dc_n d = dc_size d then dictionary_grow (dm_grow dm) d else (0, d))
               in if ret \<noteq> 0 then Some (-1, Some d1)
                  else case free_slot (dc_size d1) (dc_key d1) (dc_n d1) of
                    None \<Rightarrow> None
                  | Some i \<Rightarrow>
                      Some (0, Some (d1\<lparr>dc_key := (dc_key d1)[i := xstrdup (dm_key dm) (Some k)],
                                        dc_val := (dc_val d1)[i := xstrdup (dm_val dm) val],
                                        dc_hash := (dc_hash d1)[i := dictionary_hash (Some k)],
                                        dc_n := dc_n d1 + 1\<rparr>)))
      | _ \<Rightarrow> Some (-1, dict))"

definition dictionary_unset :: "dictionary \<Rightarrow> string option \<Rightarrow> dictionary" where
  "dictionary_unset d key =
     (case key of
        None \<Rightarrow> d
      | Some k \<Rightarrow>
          (case find_slot d k of
             None \<Rightarrow> d
           | Some i \<Rightarrow> d\<lparr>dc_key := (dc_key d)[i := None], dc_val := (dc_val d)[i := None],
                          dc_hash := (dc_hash d)[i := 0], dc_n := dc_n d - 1\<rparr>))"


section \<open>Invariant and abstraction\<close>

definition used :: "string option list \<Rightarrow> nat" where
  "used keys = length (filter (\<lambda>k. k \<noteq> None) keys)"

definition dict_inv :: "dictionary \<Rightarrow> bool" where
  "dict_inv d \<longleftrightarrow> 0 < dc_size d \<and> length (dc_val d) = dc_size d \<and> length (dc_key d) = dc_size d \<and>
     length (dc_hash d) = dc_size d \<and> dc_n d = used (dc_key d) \<and>
     (\<forall>i<dc_size d. \<forall>k. dc_key d ! i = Some k \<longrightarrow> dc_hash d ! i = dictionary_hash (Some k) \<and>
        (\<forall>j<dc_size d. dc_key d ! j = Some k \<longrightarrow> i = j))"

text \<open>The map a dictionary represents; a key may have a NULL value.\<close>

definition dict_map :: "dictionary \<Rightarrow> string \<Rightarrow> string option option" where
  "dict_map d k = map_option (\<lambda>i. dc_val d ! i) (find_slot d k)"

lemma find_slot_Some:
  assumes "dict_inv d" "i < dc_size d" "dc_key d ! i = Some k"
  shows "find_slot d k = Some i"
proof -
  have u: "j < dc_size d \<Longrightarrow> dc_key d ! j = Some k \<Longrightarrow> i = j" for j
    using assms unfolding dict_inv_def by blast
  have h: "dc_hash d ! i = dictionary_hash (Some k)" using assms unfolding dict_inv_def by blast
  have "\<forall>j<i. dc_key d ! j \<noteq> Some k"
    using u assms(2) by (metis less_irrefl less_trans)
  then show ?thesis
    unfolding find_slot_def Let_def find_Some_iff using assms(2,3) h
    by (intro exI [of _ i]) simp
qed

lemma find_slot_D:
  assumes "find_slot d k = Some i"
  shows "i < dc_size d" "dc_key d ! i = Some k"
  using assms by (auto simp: find_slot_def Let_def find_Some_iff)

lemma find_slot_iff:
  "dict_inv d \<Longrightarrow> find_slot d k = Some i \<longleftrightarrow> i < dc_size d \<and> dc_key d ! i = Some k"
  using find_slot_Some find_slot_D by blast

lemma find_slot_None:
  "dict_inv d \<Longrightarrow> find_slot d k = None \<longleftrightarrow> (\<forall>i<dc_size d. dc_key d ! i \<noteq> Some k)"
  using find_slot_iff [of d k] by (metis not_None_eq)

lemma dict_map_Some_iff:
  "dict_inv d \<Longrightarrow> dict_map d k = Some v \<longleftrightarrow> (\<exists>i<dc_size d. dc_key d ! i = Some k \<and> dc_val d ! i = v)"
  by (auto simp: dict_map_def find_slot_iff)

text \<open>Maps are compared through their entries.\<close>

lemma dict_map_eqI:
  assumes "dict_inv d" "\<And>k v. m k = Some v \<longleftrightarrow> (\<exists>i<dc_size d. dc_key d ! i = Some k \<and> dc_val d ! i = v)"
  shows "dict_map d = m"
proof
  fix k
  have "dict_map d k = Some v \<longleftrightarrow> m k = Some v" for v
    using assms by (simp add: dict_map_Some_iff)
  then show "dict_map d k = m k" by (metis not_None_eq)
qed

lemma used_update:
  assumes "i < length keys"
  shows "used (keys[i := x]) + (if keys ! i = None then 0 else 1) = used keys + (if x = None then 0 else 1)"
proof -
  have "used (take i keys @ keys ! i # drop (Suc i) keys) =
      used (take i keys) + (if keys ! i = None then 0 else 1) + used (drop (Suc i) keys)"
    by (simp add: used_def)
  then have "used keys = used (take i keys) + (if keys ! i = None then 0 else 1) + used (drop (Suc i) keys)"
    unfolding id_take_nth_drop [OF assms, symmetric] .
  moreover have "used (keys[i := x]) = used (take i keys) + (if x = None then 0 else 1) + used (drop (Suc i) keys)"
    using assms by (simp add: used_def upd_conv_take_nth_drop)
  ultimately show ?thesis by simp
qed

lemma used_less_iff: "used keys < length keys \<longleftrightarrow> (\<exists>i<length keys. keys ! i = None)"
proof
  assume less: "used keys < length keys"
  show "\<exists>i<length keys. keys ! i = None"
  proof (rule ccontr)
    assume "\<not> ?thesis"
    then have "filter (\<lambda>k. k \<noteq> None) keys = keys" by (intro filter_True) (auto simp: in_set_conv_nth)
    with less show False by (simp add: used_def)
  qed
next
  assume "\<exists>i<length keys. keys ! i = None"
  then have "None \<in> set keys" by (metis nth_mem)
  then show "used keys < length keys" unfolding used_def by (rule length_filter_less) simp
qed

text \<open>The search for an empty slot ends when there is one; as many rounds as slots suffice.\<close>

lemma free_slot_finds:
  assumes "i < length keys" "keys ! ((i + j) mod length keys) = None" "j < fuel"
  shows "\<exists>f. free_slot fuel keys i = Some f \<and> f < length keys \<and> keys ! f = None"
  using assms
proof (induction fuel arbitrary: i j)
  case (Suc fuel)
  show ?case
  proof (cases "keys ! i = None")
    case True
    then show ?thesis using Suc.prems(1) by simp
  next
    case False
    define i' where "i' = (if Suc i = length keys then 0 else Suc i)"
    have i': "i' < length keys" "i' = Suc i mod length keys" using Suc.prems(1) by (auto simp: i'_def)
    obtain j' where j: "j = Suc j'" using False Suc.prems(1,2) by (cases j) auto
    have "(i' + j') mod length keys = (i + j) mod length keys"
      by (simp add: i'(2) j mod_add_left_eq)
    then show ?thesis
      using Suc.IH [OF i'(1), of j'] Suc.prems j False by (simp add: i'_def [symmetric])
  qed
qed simp

lemma free_slot_total:
  assumes "i < length keys" "used keys < length keys"
  shows "\<exists>f. free_slot (length keys) keys i = Some f \<and> f < length keys \<and> keys ! f = None"
proof -
  obtain g where g: "g < length keys" "keys ! g = None" using assms(2) used_less_iff by blast
  define j where "j = (if i \<le> g then g - i else length keys - i + g)"
  have "(i + j) mod length keys = g" "j < length keys" using assms(1) g(1) by (auto simp: j_def)
  then show ?thesis using free_slot_finds [OF assms(1), of j] g(2) by simp
qed


section \<open>What the operations do to the map\<close>

lemma dict_inv_keys:
  assumes "dict_inv d"
  shows "0 < dc_size d" "length (dc_val d) = dc_size d" "length (dc_key d) = dc_size d"
    "length (dc_hash d) = dc_size d" "dc_n d = used (dc_key d)"
    "i < dc_size d \<Longrightarrow> dc_key d ! i = Some k \<Longrightarrow> dc_hash d ! i = dictionary_hash (Some k)"
    "i < dc_size d \<Longrightarrow> dc_key d ! i = Some k \<Longrightarrow> j < dc_size d \<Longrightarrow> dc_key d ! j = Some k \<Longrightarrow> i = j"
  using assms unfolding dict_inv_def by blast+

lemma dict_new_empty: "dict_inv (dictionary_new n) \<and> dict_map (dictionary_new n) = Map.empty"
proof -
  have "used (replicate m None) = 0" for m by (simp add: used_def)
  then have inv: "dict_inv (dictionary_new n)"
    by (auto simp: dict_inv_def dictionary_new_def DICTMINSZ_def Let_def)
  then have "dict_map (dictionary_new n) = Map.empty"
    by (intro dict_map_eqI) (auto simp: dictionary_new_def DICTMINSZ_def Let_def)
  with inv show ?thesis by blast
qed

lemma dict_grow_keeps:
  assumes "dict_inv d" "dictionary_grow True d = (r, d')"
  shows "r = 0 \<and> dict_inv d' \<and> dict_map d' = dict_map d \<and> dc_n d' < dc_size d'"
proof -
  note I = dict_inv_keys [OF assms(1)]
  have d': "d' = d\<lparr>dc_size := dc_size d * 2, dc_val := dc_val d @ replicate (dc_size d) None,
      dc_key := dc_key d @ replicate (dc_size d) None, dc_hash := dc_hash d @ replicate (dc_size d) 0\<rparr>"
    and r: "r = 0" using assms(2) by (simp_all add: dictionary_grow_def)
  have key: "i < dc_size d' \<Longrightarrow> dc_key d' ! i = Some k \<longleftrightarrow> i < dc_size d \<and> dc_key d ! i = Some k" for i k
    using I(3) by (auto simp: d' nth_append)
  have same: "i < dc_size d \<Longrightarrow> dc_val d' ! i = dc_val d ! i \<and> dc_hash d' ! i = dc_hash d ! i" for i
    using I(2,4) by (simp add: d' nth_append)
  have lens: "dc_size d' = dc_size d * 2" "length (dc_val d') = dc_size d'" "length (dc_key d') = dc_size d'"
    "length (dc_hash d') = dc_size d'" "dc_n d' = used (dc_key d')"
    using I(2-5) by (simp_all add: d' used_def)
  have inv: "dict_inv d'"
    unfolding dict_inv_def using lens I(1) key same I(6,7) by auto
  moreover have "dict_map d' = dict_map d"
  proof (rule dict_map_eqI [OF inv])
    fix k v
    have "i < dc_size d \<Longrightarrow> i < dc_size d'" for i using lens(1) by simp
    then show "dict_map d k = Some v \<longleftrightarrow> (\<exists>i<dc_size d'. dc_key d' ! i = Some k \<and> dc_val d' ! i = v)"
      unfolding dict_map_Some_iff [OF assms(1)] using key same by metis
  qed
  moreover have "dc_n d' < dc_size d'"
    using I(1,3,5) by (simp add: d' used_def) (metis add_less_cancel_left le_add1 length_filter_le
      less_add_same_cancel1 mult.commute mult_2 order.strict_trans1)
  ultimately show ?thesis using r by blast
qed

text \<open>Writing a slot: the entry of that slot is replaced, all others stay.\<close>

lemma dict_write_slot:
  assumes "dict_inv d" "i < dc_size d" "dc_key d ! i = None" "find_slot d k = None"
    and "d' = d\<lparr>dc_key := (dc_key d)[i := Some k], dc_val := (dc_val d)[i := v],
      dc_hash := (dc_hash d)[i := dictionary_hash (Some k)], dc_n := dc_n d + 1\<rparr>"
  shows "dict_inv d' \<and> dict_map d' = (dict_map d)(k \<mapsto> v)"
proof -
  note I = dict_inv_keys [OF assms(1)]
  have absent: "\<forall>j<dc_size d. dc_key d ! j \<noteq> Some k" using assms(1,4) by (simp add: find_slot_None)
  have key: "dc_key d' ! j = Some k' \<longleftrightarrow> (if j = i then k' = k else dc_key d ! j = Some k')"
    if "j < dc_size d" for j k'
    using that assms(2) I(3) by (auto simp: assms(5))
  have val: "dc_val d' ! j = (if j = i then v else dc_val d ! j)"
    "dc_hash d' ! j = (if j = i then dictionary_hash (Some k) else dc_hash d ! j)" if "j < dc_size d" for j
    using that assms(2) I(2,4) by (auto simp: assms(5))
  have n: "dc_n d' = used (dc_key d')"
    using used_update [of i "dc_key d" "Some k"] assms(2,3) I(3,5) by (simp add: assms(5))
  have lens: "dc_size d' = dc_size d" "length (dc_val d') = dc_size d" "length (dc_key d') = dc_size d"
    "length (dc_hash d') = dc_size d" using I(2-4) by (simp_all add: assms(5))
  have inv: "dict_inv d'"
    unfolding dict_inv_def lens
  proof (intro conjI allI impI)
    fix j k' assume "j < dc_size d" "dc_key d' ! j = Some k'"
    then show "dc_hash d' ! j = dictionary_hash (Some k')"
      using key val(2) I(6) by (auto split: if_splits)
    fix j' assume "j' < dc_size d" "dc_key d' ! j' = Some k'"
    with \<open>j < dc_size d\<close> \<open>dc_key d' ! j = Some k'\<close> show "j = j'"
      using key absent I(7) by (metis (full_types))
  qed (use I(1) n in simp_all)
  moreover have "dict_map d' = (dict_map d)(k \<mapsto> v)"
  proof (rule dict_map_eqI [OF inv])
    fix k' w
    show "((dict_map d)(k \<mapsto> v)) k' = Some w \<longleftrightarrow> (\<exists>j<dc_size d'. dc_key d' ! j = Some k' \<and> dc_val d' ! j = w)"
    proof (cases "k' = k")
      case True
      then show ?thesis unfolding lens using key val(1) absent assms(2) by auto
    next
      case False
      then have "((dict_map d)(k \<mapsto> v)) k' = Some w \<longleftrightarrow> (\<exists>j<dc_size d. dc_key d ! j = Some k' \<and> dc_val d ! j = w)"
        by (simp add: dict_map_Some_iff [OF assms(1)])
      then show ?thesis unfolding lens using False key val(1) assms(3) by (metis not_None_eq)
    qed
  qed
  ultimately show ?thesis ..
qed

lemma dict_update_slot:
  assumes "dict_inv d" "find_slot d k = Some i" "d' = d\<lparr>dc_val := (dc_val d)[i := v]\<rparr>"
  shows "dict_inv d' \<and> dict_map d' = (dict_map d)(k \<mapsto> v)"
proof -
  note I = dict_inv_keys [OF assms(1)] and F = find_slot_D [OF assms(2)]
  have inv: "dict_inv d'" using assms(1) unfolding assms(3) dict_inv_def by simp
  have "dict_map d' = (dict_map d)(k \<mapsto> v)"
  proof (rule dict_map_eqI [OF inv])
    fix k' w
    have "j < dc_size d \<Longrightarrow> dc_val d' ! j = (if j = i then v else dc_val d ! j)" for j
      using F(1) I(2) by (auto simp: assms(3))
    moreover have "dc_size d' = dc_size d" "dc_key d' = dc_key d" by (simp_all add: assms(3))
    ultimately show "((dict_map d)(k \<mapsto> v)) k' = Some w \<longleftrightarrow>
        (\<exists>j<dc_size d'. dc_key d' ! j = Some k' \<and> dc_val d' ! j = w)"
      using F I(7) by (cases "k' = k") (auto simp: dict_map_Some_iff [OF assms(1)], metis option.inject)
  qed
  with inv show ?thesis ..
qed

lemma dict_clear_slot:
  assumes "dict_inv d" "find_slot d k = Some i"
    and "d' = d\<lparr>dc_key := (dc_key d)[i := None], dc_val := (dc_val d)[i := None],
      dc_hash := (dc_hash d)[i := 0], dc_n := dc_n d - 1\<rparr>"
  shows "dict_inv d' \<and> dict_map d' = (dict_map d)(k := None)"
proof -
  note I = dict_inv_keys [OF assms(1)] and F = find_slot_D [OF assms(2)]
  have key: "dc_key d' ! j = Some k' \<longleftrightarrow> j \<noteq> i \<and> dc_key d ! j = Some k'" if "j < dc_size d" for j k'
    using that F(1) I(3) by (cases "j = i") (simp_all add: assms(3))
  have val: "j \<noteq> i \<Longrightarrow> dc_val d' ! j = dc_val d ! j" "j \<noteq> i \<Longrightarrow> dc_hash d' ! j = dc_hash d ! j" for j
    by (simp_all add: assms(3))
  have lens: "dc_size d' = dc_size d" "length (dc_val d') = dc_size d" "length (dc_key d') = dc_size d"
    "length (dc_hash d') = dc_size d" using I(2-4) by (simp_all add: assms(3))
  have n: "dc_n d' = used (dc_key d')"
    using used_update [of i "dc_key d" None] F I(3,5) by (simp add: assms(3))
  have inv: "dict_inv d'"
    unfolding dict_inv_def lens using n I(1,6,7) key val(2) by auto
  have "dict_map d' = (dict_map d)(k := None)"
  proof (rule dict_map_eqI [OF inv])
    fix k' w
    show "((dict_map d)(k := None)) k' = Some w \<longleftrightarrow> (\<exists>j<dc_size d'. dc_key d' ! j = Some k' \<and> dc_val d' ! j = w)"
      unfolding lens using key val(1) F I(7)
      by (cases "k' = k") (auto simp: dict_map_Some_iff [OF assms(1)], metis option.inject)
  qed
  with inv show ?thesis ..
qed

lemma find_slot_empty: "dict_inv d \<Longrightarrow> dc_n d = 0 \<Longrightarrow> find_slot d k = None"
proof -
  assume d: "dict_inv d" "dc_n d = 0"
  then have "\<forall>x\<in>set (dc_key d). x = None" using dict_inv_keys(5) [OF d(1)] by (simp add: used_def filter_empty_conv)
  then show ?thesis using d(1) dict_inv_keys(3) [OF d(1)]
    by (simp add: find_slot_None) (metis nth_mem option.distinct(1))
qed

definition enough_memory :: dict_memory where
  "enough_memory = \<lparr>dm_grow = True, dm_key = True, dm_val = True\<rparr>"

lemma dict_set_spec:
  assumes "dict_inv d"
  shows "\<exists>d'. dictionary_set enough_memory (Some d) (Some k) v = Some (0, Some d') \<and> dict_inv d'
    \<and> dict_map d' = (dict_map d)(k \<mapsto> v)"
proof (cases "find_slot d k")
  case (Some i)
  then have "0 < dc_n d" using find_slot_empty [OF assms] by fastforce
  then show ?thesis
    using Some dict_update_slot [OF assms Some refl]
    by (simp add: dictionary_set_def enough_memory_def xstrdup_def)
next
  case None
  define d1 where "d1 = (if dc_n d = dc_size d then snd (dictionary_grow True d) else d)"
  have d1: "dict_inv d1" "dict_map d1 = dict_map d" "dc_n d1 < dc_size d1"
    "(if dc_n d = dc_size d then dictionary_grow True d else (0, d)) = (0, d1)"
  proof -
    have "dc_n d \<le> dc_size d" using dict_inv_keys(3,5) [OF assms] by (metis length_filter_le used_def)
    then show "dict_inv d1" "dict_map d1 = dict_map d" "dc_n d1 < dc_size d1"
      "(if dc_n d = dc_size d then dictionary_grow True d else (0, d)) = (0, d1)"
      using dict_grow_keeps [OF assms] assms unfolding d1_def
      by (auto simp: prod_eq_iff split: prod.split)
  qed
  have none: "find_slot d1 k = None"
    using None arg_cong [OF d1(2), of "\<lambda>m. m k"] by (simp add: dict_map_def)
  obtain i where i: "free_slot (dc_size d1) (dc_key d1) (dc_n d1) = Some i" "i < dc_size d1" "dc_key d1 ! i = None"
    using free_slot_total [of "dc_n d1" "dc_key d1"] d1(3) dict_inv_keys(3,5) [OF d1(1)] by auto
  have "dictionary_set enough_memory (Some d) (Some k) v = Some (0, Some (d1\<lparr>dc_key := (dc_key d1)[i := Some k],
      dc_val := (dc_val d1)[i := v], dc_hash := (dc_hash d1)[i := dictionary_hash (Some k)], dc_n := dc_n d1 + 1\<rparr>))"
    using None i(1) d1(4)
    by (cases "dc_n d = dc_size d") (auto simp: dictionary_set_def enough_memory_def xstrdup_def)
  then show ?thesis using dict_write_slot [OF d1(1) i(2,3) none refl, of v] d1(2) by auto
qed

lemma dict_unset_spec:
  assumes "dict_inv d"
  shows "dict_inv (dictionary_unset d (Some k)) \<and> dict_map (dictionary_unset d (Some k)) = (dict_map d)(k := None)"
proof (cases "find_slot d k")
  case None
  then have "dict_map d k = None" by (simp add: dict_map_def)
  then show ?thesis using assms None by (simp add: dictionary_unset_def fun_upd_idem)
next
  case (Some i)
  then show ?thesis using dict_clear_slot [OF assms Some refl] by (simp add: dictionary_unset_def)
qed


section \<open>The dictionary as a table\<close>

definition dict_add :: "dictionary \<Rightarrow> string \<Rightarrow> string option \<Rightarrow> dictionary" where
  "dict_add d k v = the (snd (the (dictionary_set enough_memory (Some d) (Some k) v)))"

definition dict_remove :: "dictionary \<Rightarrow> string \<Rightarrow> dictionary" where
  "dict_remove d k = dictionary_unset d (Some k)"

interpretation dict: keyed_table dict_inv dict_map "\<lambda>d k v. dict_map d k = None" dict_add dict_remove
proof
  fix d k v assume d: "dict_inv d" "dict_map d k = None"
  from dict_set_spec [OF d(1), of k v] obtain d' where
    "dict_add d k v = d'" "dict_inv d'" "dict_map d' = (dict_map d)(k \<mapsto> v)"
    by (auto simp: dict_add_def)
  then show "dict_inv (dict_add d k v)"
    and "\<And>k'. dict_map (dict_add d k v) k' = (if k' = k then Some v else dict_map d k')" by auto
qed (auto simp: dict_remove_def dict_unset_spec)



end
