(* ===== verification/Ini_Parser.thy ===== *)
theory Ini_Parser
  imports Dictionary
begin

text \<open>
  The INI parser (\<open>src/src/iniparser.c\<close>): reading a configuration file into a dictionary, the
  typed getters and writing a dictionary back.  A section \<open>s\<close> is stored under the key \<open>s\<close> with a
  NULL value, an entry \<open>k\<close> of it under \<open>s:k\<close>.  The C library functions are modelled for the \<open>C\<close>
  locale, strings without their terminating NUL; \<open>long\<close> has 64 and \<open>int\<close> 32 bits.
\<close>

section \<open>Characters and strings\<close>

definition ASCIILINESZ :: nat where "ASCIILINESZ = 1024"

definition isspace :: "char \<Rightarrow> bool" where
  "isspace c \<longleftrightarrow> c = CHR '' '' \<or> (of_char c :: nat) \<in> {9..13}"

definition tolower :: "char \<Rightarrow> char" where
  "tolower c = (let n = (of_char c :: nat) in if 65 \<le> n \<and> n \<le> 90 then char_of (n + 32) else c)"

definition strlwc :: "string option \<Rightarrow> nat \<Rightarrow> string option" where
  "strlwc s len = (if len = 0 then None else map_option (\<lambda>t. map tolower (take (len - 1) t)) s)"

definition rstrip :: "string \<Rightarrow> string" where
  "rstrip s = rev (dropWhile isspace (rev s))"

definition strstrip :: "string \<Rightarrow> string" where
  "strstrip s = rstrip (dropWhile isspace s)"

text \<open>
  \<open>sscanf\<close> with the directives used here: white space, a literal character, a scan set.  The
  result lists the strings assigned before the first directive that fails.
\<close>

datatype scan_item = Blank | Literal char | Scanset "char \<Rightarrow> bool"

fun sscanf :: "string \<Rightarrow> scan_item list \<Rightarrow> string list" where
  "sscanf s [] = []"
| "sscanf s (Blank # fs) = sscanf (dropWhile isspace s) fs"
| "sscanf s (Literal c # fs) = (case s of [] \<Rightarrow> [] | x # r \<Rightarrow> if x = c then sscanf r fs else [])"
| "sscanf s (Scanset P # fs) =
     (if takeWhile P s = [] then [] else takeWhile P s # sscanf (dropWhile P s) fs)"

text \<open>\<open>strtol\<close> with base 0: white space, a sign, then decimal, octal or hexadecimal digits.\<close>

definition digit_of :: "char \<Rightarrow> int option" where
  "digit_of c =
     (let n = of_char c :: int
      in if 48 \<le> n \<and> n \<le> 57 then Some (n - 48)
         else if 65 \<le> n \<and> n \<le> 70 then Some (n - 55)
         else if 97 \<le> n \<and> n \<le> 102 then Some (n - 87) else None)"

definition is_digit :: "int \<Rightarrow> char \<Rightarrow> bool" where
  "is_digit base c = (case digit_of c of None \<Rightarrow> False | Some n \<Rightarrow> n < base)"

definition digits_value :: "int \<Rightarrow> string \<Rightarrow> int" where
  "digits_value base s = foldl (\<lambda>n c. n * base + the (digit_of c)) 0 (takeWhile (is_digit base) s)"

definition unsigned_value :: "string \<Rightarrow> int" where
  "unsigned_value s =
     (if s \<noteq> [] \<and> hd s = CHR ''0'' then
        if 3 \<le> length s \<and> (s ! 1 = CHR ''x'' \<or> s ! 1 = CHR ''X'') \<and> is_digit 16 (s ! 2)
        then digits_value 16 (drop 2 s) else digits_value 8 s
      else digits_value 10 s)"

definition strtol :: "string \<Rightarrow> int" where
  "strtol s =
     (let t = dropWhile isspace s;
          v = (if t \<noteq> [] \<and> hd t = CHR ''-'' then - unsigned_value (tl t)
               else if t \<noteq> [] \<and> hd t = CHR ''+'' then unsigned_value (tl t)
               else unsigned_value t)
      in max (- (2 ^ 63)) (min (2 ^ 63 - 1) v))"


section \<open>Getters\<close>

text \<open>The slots in use and their keys, in the order every scan of the arrays has.\<close>

definition dict_slots :: "dictionary \<Rightarrow> nat list" where
  "dict_slots d = filter (\<lambda>i. dc_key d ! i \<noteq> None) [0..<dc_size d]"

definition slot_key :: "dictionary \<Rightarrow> nat \<Rightarrow> string" where
  "slot_key d i = the (dc_key d ! i)"

definition dict_keys :: "dictionary \<Rightarrow> string list" where
  "dict_keys d = map (slot_key d) (dict_slots d)"

definition section_names :: "dictionary \<Rightarrow> string list" where
  "section_names d = filter (\<lambda>k. CHR '':'' \<notin> set k) (dict_keys d)"

definition iniparser_getnsec :: "dictionary option \<Rightarrow> int" where
  "iniparser_getnsec dict = (case dict of None \<Rightarrow> -1 | Some d \<Rightarrow> int (length (section_names d)))"

definition iniparser_getsecname :: "dictionary option \<Rightarrow> int \<Rightarrow> string option" where
  "iniparser_getsecname dict n =
     (case dict of
        None \<Rightarrow> None
      | Some d \<Rightarrow> if n < 0 \<or> int (length (section_names d)) \<le> n then None
                  else Some (section_names d ! nat n))"

definition iniparser_getstring :: "dictionary option \<Rightarrow> string option \<Rightarrow> string option \<Rightarrow> string option" where
  "iniparser_getstring dict key dflt =
     (case (dict, strlwc key (ASCIILINESZ + 1)) of
        (Some d, Some lc_key) \<Rightarrow> dictionary_get d lc_key dflt
      | _ \<Rightarrow> dflt)"

text \<open>The same with the default \<open>INI_INVALID_KEY\<close>, an address no string has: here \<open>None\<close>.\<close>

definition find_string :: "dictionary option \<Rightarrow> string option \<Rightarrow> string option option" where
  "find_string dict key =
     (case (dict, strlwc key (ASCIILINESZ + 1)) of
        (Some d, Some lc_key) \<Rightarrow> map_option (\<lambda>i. dc_val d ! i) (find_slot d lc_key)
      | _ \<Rightarrow> None)"

definition iniparser_getlongint :: "dictionary option \<Rightarrow> string option \<Rightarrow> int \<Rightarrow> int option" where
  "iniparser_getlongint dict key notfound =
     (case find_string dict key of None \<Rightarrow> Some notfound | Some str \<Rightarrow> map_option strtol str)"

definition iniparser_getint :: "dictionary option \<Rightarrow> string option \<Rightarrow> int \<Rightarrow> int option" where
  "iniparser_getint dict key notfound =
     map_option (signed_take_bit 31) (iniparser_getlongint dict key notfound)"

definition iniparser_getboolean :: "dictionary option \<Rightarrow> string option \<Rightarrow> int \<Rightarrow> int option" where
  "iniparser_getboolean dict key notfound =
     (case find_string dict key of
        None \<Rightarrow> Some notfound
      | Some str \<Rightarrow> map_option (\<lambda>c.
          case c of
            [] \<Rightarrow> notfound
          | x # _ \<Rightarrow> if x \<in> set ''yY1tT'' then 1 else if x \<in> set ''nN0fF'' then 0 else notfound) str)"

definition iniparser_find_entry :: "dictionary option \<Rightarrow> string option \<Rightarrow> int" where
  "iniparser_find_entry dict entry = (if find_string dict entry \<noteq> None then 1 else 0)"

definition iniparser_set ::
  "dict_memory \<Rightarrow> dictionary option \<Rightarrow> string option \<Rightarrow> string option \<Rightarrow> (int \<times> dictionary option) option" where
  "iniparser_set dm dict entry val = dictionary_set dm dict (strlwc entry (ASCIILINESZ + 1)) val"

definition iniparser_unset :: "dictionary \<Rightarrow> string option \<Rightarrow> dictionary" where
  "iniparser_unset d entry = dictionary_unset d (strlwc entry (ASCIILINESZ + 1))"

text \<open>
  The keys of a section.  A name longer than the local buffer is written past its end: no
  result.
\<close>

definition section_keys :: "dictionary option \<Rightarrow> string \<Rightarrow> string list option" where
  "section_keys dict s =
     (case dict of
        None \<Rightarrow> Some []
      | Some d \<Rightarrow>
          if iniparser_find_entry dict (Some s) = 0 then Some []
          else if ASCIILINESZ < length s then None
          else Some (filter (\<lambda>k. take (length s + 1) k = map tolower s @ '':'') (dict_keys d)))"

definition iniparser_getsecnkeys :: "dictionary option \<Rightarrow> string \<Rightarrow> int option" where
  "iniparser_getsecnkeys dict s = map_option (\<lambda>ks. int (length ks)) (section_keys dict s)"

definition iniparser_getseckeys :: "dictionary option \<Rightarrow> string \<Rightarrow> bool \<Rightarrow> string list option option" where
  "iniparser_getseckeys dict s has_keys =
     (if dict = None \<or> \<not> has_keys \<or> iniparser_find_entry dict (Some s) = 0 then Some None
      else map_option Some (section_keys dict s))"


section \<open>Reading a file\<close>

datatype line_status = LINE_UNPROCESSED | LINE_ERROR | LINE_EMPTY | LINE_COMMENT | LINE_SECTION | LINE_VALUE

definition not_eq_sign :: "char \<Rightarrow> bool" where "not_eq_sign c \<longleftrightarrow> c \<noteq> CHR ''=''"

definition fmt_section :: "scan_item list" where
  "fmt_section = [Literal (CHR ''[''), Scanset (\<lambda>c. c \<noteq> CHR '']'')]"
definition fmt_quoted :: "char \<Rightarrow> scan_item list" where
  "fmt_quoted q = [Scanset not_eq_sign, Blank, Literal (CHR ''=''), Blank, Literal q,
     Scanset (\<lambda>c. c \<noteq> q), Literal q]"
definition fmt_plain :: "scan_item list" where
  "fmt_plain = [Scanset not_eq_sign, Blank, Literal (CHR ''=''), Blank,
     Scanset (\<lambda>c. c \<noteq> CHR '';'' \<and> c \<noteq> CHR ''#'')]"
definition fmt_comment :: "scan_item list" where
  "fmt_comment = [Scanset not_eq_sign, Blank, Literal (CHR ''=''), Blank,
     Scanset (\<lambda>c. c = CHR '';'' \<or> c = CHR ''#'')]"
definition fmt_no_value :: "scan_item list" where
  "fmt_no_value = [Scanset not_eq_sign, Blank, Scanset (\<lambda>c. c = CHR ''='')]"

lemmas ini_formats = fmt_section_def fmt_quoted_def fmt_plain_def fmt_comment_def fmt_no_value_def

text \<open>
  One line.  The buffers for section, key and value keep their contents when a conversion does
  not assign them.  \<open>line_ok\<close> tells whether the copy of the line got memory; without it the line
  counts as empty.
\<close>

definition lower_key :: "string \<Rightarrow> nat \<Rightarrow> string" where
  "lower_key key len = the (strlwc (Some (strstrip key)) len)"

definition iniparser_line ::
  "bool \<Rightarrow> string \<Rightarrow> string \<Rightarrow> string \<Rightarrow> string \<Rightarrow> line_status \<times> string \<times> string \<times> string" where
  "iniparser_line line_ok input_line sect key val =
     (let line = (if line_ok then strstrip input_line else []);
          len = length line;
          first_key = (case sscanf line [Scanset not_eq_sign] of [] \<Rightarrow> key | k # _ \<Rightarrow> k)
      in if len < 1 then (LINE_EMPTY, sect, key, val)
         else if hd line = CHR ''#'' \<or> hd line = CHR '';'' then (LINE_COMMENT, sect, key, val)
         else if hd line = CHR ''['' \<and> last line = CHR '']'' then
           (LINE_SECTION,
            lower_key (case sscanf line fmt_section of [] \<Rightarrow> sect | s # _ \<Rightarrow> s) len, key, val)
         else case sscanf line (fmt_quoted (CHR 0x22)) of
           [k, v] \<Rightarrow> (LINE_VALUE, sect, lower_key k len, v)
         | _ \<Rightarrow> (case sscanf line (fmt_quoted (CHR 0x27)) of
           [k, v] \<Rightarrow> (LINE_VALUE, sect, lower_key k len, v)
         | _ \<Rightarrow> (case sscanf line fmt_plain of
           [k, v] \<Rightarrow>
             (LINE_VALUE, sect, lower_key k len,
              (let w = strstrip v
               in if w = [CHR 0x22, CHR 0x22] \<or> w = [CHR 0x27, CHR 0x27] then [] else w))
         | _ \<Rightarrow> if length (sscanf line fmt_comment) = 2 \<or> length (sscanf line fmt_no_value) = 2
                then (LINE_VALUE, sect, lower_key first_key len, [])
                else (LINE_ERROR, sect, first_key, val))))"

text \<open>
  \<open>fgets\<close> on the rest of the file: at most \<open>n - 1\<close> characters, up to and with a line feed.  The
  flag is \<open>feof\<close> after the call.
\<close>

fun read_line :: "nat \<Rightarrow> string \<Rightarrow> string \<times> string \<times> bool" where
  "read_line 0 s = ([], s, False)"
| "read_line (Suc n) [] = ([], [], True)"
| "read_line (Suc n) (c # s) =
     (if c = CHR 0x0A then ([c], s, False)
      else let (l, r, e) = read_line n s in (c # l, r, e))"

definition fgets :: "nat \<Rightarrow> string \<Rightarrow> (string \<times> string \<times> bool) option" where
  "fgets n s = (let (l, r, e) = read_line (n - 1) s in if l = [] then None else Some (l, r, e))"

text \<open>Memory: for the dictionary, for the copy of a line, for an entry made by a line.\<close>

record ini_memory =
  im_dict :: bool
  im_line :: "nat \<Rightarrow> bool"
  im_set :: "nat \<Rightarrow> dict_memory"

definition finish_load :: "nat \<Rightarrow> dictionary option \<Rightarrow> dictionary option" where
  "finish_load errs d = (if errs > 0 then None else d)"

text \<open>
  The state of the loop of \<open>iniparser_load\<close>: \<open>ls_pre\<close> is what the line buffer holds before position
  \<open>last\<close> (the start of a continued line); the buffers for section, key and value; the number of
  errors; the dictionary.  A round ends the loop with a result (\<open>Inl\<close>) or gives the next state and
  the rest of the file.
\<close>

record load_state =
  ls_pre :: string
  ls_section :: string
  ls_key :: string
  ls_val :: string
  ls_errs :: nat
  ls_dict :: "dictionary option"

definition load_entry ::
  "dict_memory \<Rightarrow> string \<Rightarrow> string option \<Rightarrow> load_state \<Rightarrow> dictionary option option + load_state" where
  "load_entry dm k v st =
     (case dictionary_set dm (ls_dict st) (Some k) v of
        None \<Rightarrow> Inl None
      | Some (mem_err, d) \<Rightarrow>
          if mem_err < 0 then Inl (Some (finish_load (ls_errs st) d)) else Inr (st\<lparr>ls_dict := d\<rparr>))"

definition load_line :: "ini_memory \<Rightarrow> nat \<Rightarrow> string \<Rightarrow> load_state \<Rightarrow> dictionary option option + load_state" where
  "load_line mm n txt st =
     (let (sta, sect, key, val) = iniparser_line (im_line mm n) txt (ls_section st) (ls_key st) (ls_val st);
          st' = st\<lparr>ls_pre := [], ls_section := sect, ls_key := key, ls_val := val\<rparr>
      in case sta of
           LINE_SECTION \<Rightarrow> load_entry (im_set mm n) sect None st'
         | LINE_VALUE \<Rightarrow> load_entry (im_set mm n) (sect @ '':'' @ key) (Some val) st'
         | LINE_ERROR \<Rightarrow> Inr (st'\<lparr>ls_errs := Suc (ls_errs st)\<rparr>)
         | _ \<Rightarrow> Inr st')"

definition load_round ::
  "ini_memory \<Rightarrow> nat \<Rightarrow> load_state \<Rightarrow> string \<Rightarrow> bool \<Rightarrow> dictionary option option + load_state" where
  "load_round mm n st got eof =
     (let line = ls_pre st @ takeWhile (\<lambda>c. c \<noteq> CHR 0x00) got; txt = rstrip line
      in if length line \<le> 1 then Inr st
         else if last line \<noteq> CHR 0x0A \<and> \<not> eof then Inl (Some None)
         else if txt \<noteq> [] \<and> last txt = CHR 0x5C then Inr (st\<lparr>ls_pre := butlast txt\<rparr>)
         else load_line mm n txt st)"

fun load_loop :: "nat \<Rightarrow> ini_memory \<Rightarrow> nat \<Rightarrow> load_state \<Rightarrow> string \<Rightarrow> dictionary option option" where
  "load_loop 0 mm lineno st file = None"
| "load_loop (Suc fuel) mm lineno st file =
     (case fgets (ASCIILINESZ - length (ls_pre st)) file of
        None \<Rightarrow> Some (finish_load (ls_errs st) (ls_dict st))
      | Some (got, rest, eof) \<Rightarrow>
          (case load_round mm (Suc lineno) st got eof of
             Inl r \<Rightarrow> r
           | Inr st' \<Rightarrow> load_loop fuel mm (Suc lineno) st' rest))"

definition load_start :: load_state where
  "load_start = \<lparr>ls_pre = [], ls_section = [], ls_key = [], ls_val = [], ls_errs = 0,
     ls_dict = Some (dictionary_new 0)\<rparr>"

text \<open>\<open>file\<close> is \<open>None\<close> when \<open>fopen\<close> fails.\<close>

definition iniparser_load :: "ini_memory \<Rightarrow> string option \<Rightarrow> dictionary option option" where
  "iniparser_load mm file =
     (case file of
        None \<Rightarrow> Some None
      | Some s \<Rightarrow>
          if \<not> im_dict mm then Some None
          else load_loop (Suc (length s)) mm 0 load_start s)"


section \<open>Writing a file\<close>

definition shown :: "string \<Rightarrow> string option \<Rightarrow> string" where
  "shown null v = (case v of None \<Rightarrow> null | Some w \<Rightarrow> w)"

definition dump_line :: "dictionary \<Rightarrow> nat \<Rightarrow> nat \<Rightarrow> string" where
  "dump_line d seclen j =
     (let name = drop (seclen + 1) (slot_key d j)
      in name @ replicate (30 - length name) (CHR '' '') @ '' = '' @ shown [] (dc_val d ! j) @ [CHR 0x0A])"

definition iniparser_dumpsection_ini :: "dictionary \<Rightarrow> string \<Rightarrow> string" where
  "iniparser_dumpsection_ini d s =
     (if iniparser_find_entry (Some d) (Some s) = 0 then []
      else [CHR 0x0A, CHR ''[''] @ s @ [CHR '']'', CHR 0x0A]
           @ concat (map (dump_line d (length s))
               (filter (\<lambda>j. take (length s + 1) (slot_key d j) = s @ '':'') (dict_slots d)))
           @ [CHR 0x0A])"

definition iniparser_dump_ini :: "dictionary option \<Rightarrow> string" where
  "iniparser_dump_ini dict =
     (case dict of
        None \<Rightarrow> []
      | Some d \<Rightarrow>
          if iniparser_getnsec dict < 1
          then concat (map (\<lambda>i. slot_key d i @ '' = '' @ shown ''(null)'' (dc_val d ! i) @ [CHR 0x0A])
                 (dict_slots d))
          else concat (map (\<lambda>i. iniparser_dumpsection_ini d (the (iniparser_getsecname dict (int i))))
                 [0..<nat (iniparser_getnsec dict)]) @ [CHR 0x0A])"

end
