(* ===== verification/Ini_Lemmas.thy ===== *)
theory Ini_Lemmas
  imports Ini_Parser
begin

text \<open>
  Properties of the INI parser: loading ends on every file, and what \<open>iniparser_dump_ini\<close> writes
  is read back as the same dictionary.
\<close>

section \<open>Strings\<close>

lemma isspace_simps [simp]:
  "isspace (CHR 0x0A)" "isspace (CHR '' '')" "\<not> isspace (CHR ''='')" "\<not> isspace (CHR '']'')"
  "\<not> isspace (CHR ''['')" "\<not> isspace (CHR 0x00)"
  by (simp_all add: isspace_def)

definition trimmed :: "string \<Rightarrow> bool" where
  "trimmed s \<longleftrightarrow> s = [] \<or> \<not> isspace (hd s) \<and> \<not> isspace (last s)"

lemma rstrip_id: "s = [] \<or> \<not> isspace (last s) \<Longrightarrow> rstrip s = s"
  by (cases s rule: rev_cases) (auto simp: rstrip_def)

lemma rstrip_append_spaces: "list_all isspace sp \<Longrightarrow> rstrip (s @ sp) = rstrip s"
proof -
  assume "list_all isspace sp"
  then have "dropWhile isspace (rev sp @ rev s) = dropWhile isspace (rev s)"
    by (intro dropWhile_append2) (simp add: list_all_iff)
  then show ?thesis by (simp add: rstrip_def)
qed

lemma rstrip_prefix: "\<exists>sp. s = rstrip s @ sp \<and> list_all isspace sp"
proof -
  let ?sp = "rev (takeWhile isspace (rev s))"
  have "s = rstrip s @ ?sp" by (metis rev_append rev_rev_ident rstrip_def takeWhile_dropWhile_id)
  then show ?thesis by (metis list_all_iff set_rev set_takeWhileD)
qed

lemma length_rstrip: "length (rstrip s) \<le> length s"
  using rstrip_prefix [of s] by (metis le_add1 length_append)

lemma strstrip_trimmed:
  assumes "trimmed s" "list_all isspace sp"
  shows "strstrip (s @ sp) = s"
proof (cases s)
  case Nil
  then have "dropWhile isspace (s @ sp) = []" using assms(2) by (simp add: list_all_iff)
  then have "strstrip (s @ sp) = rstrip []" unfolding strstrip_def by (rule arg_cong)
  then show ?thesis using Nil by (simp add: rstrip_def)
next
  case (Cons c t)
  then have "dropWhile isspace (s @ sp) = s @ sp" using assms(1) by (simp add: trimmed_def)
  then show ?thesis
    using assms rstrip_append_spaces [OF assms(2)] rstrip_id by (auto simp: strstrip_def trimmed_def)
qed

lemma strstrip_id: "trimmed s \<Longrightarrow> strstrip s = s"
  using strstrip_trimmed [of s "[]"] by simp

lemma lower_key_id:
  "trimmed k \<Longrightarrow> list_all isspace sp \<Longrightarrow> map tolower k = k \<Longrightarrow> length k < n \<Longrightarrow> lower_key (k @ sp) n = k"
  by (simp add: lower_key_def strlwc_def strstrip_trimmed)


section \<open>Reading lines\<close>

lemma read_line_length:
  "read_line n s = (l, r, e) \<Longrightarrow> s = l @ r \<and> length l \<le> n"
  by (induction n s arbitrary: l r e rule: read_line.induct) (auto split: if_splits prod.splits)

lemma read_line_nonempty: "0 < n \<Longrightarrow> s \<noteq> [] \<Longrightarrow> fst (read_line n s) \<noteq> []"
  by (cases n; cases s) (auto split: prod.split)

lemma read_line_newline:
  "CHR 0x0A \<notin> set l \<Longrightarrow> length l < n \<Longrightarrow> read_line n (l @ CHR 0x0A # r) = (l @ [CHR 0x0A], r, False)"
proof (induction l arbitrary: n)
  case Nil
  then show ?case by (cases n) auto
next
  case (Cons c l)
  then show ?case by (cases n) auto
qed

lemma fgets_newline:
  "CHR 0x0A \<notin> set l \<Longrightarrow> length l + 1 < n \<Longrightarrow> fgets n (l @ CHR 0x0A # r) = Some (l @ [CHR 0x0A], r, False)"
  by (simp add: fgets_def read_line_newline)

lemma fgets_end [simp]: "fgets n [] = None"
  by (cases "n - 1") (simp_all add: fgets_def)

lemma fgets_Some:
  assumes "fgets n s = Some (l, r, e)"
  shows "s = l @ r" "l \<noteq> []" "length l \<le> n - 1"
  using assms read_line_length [of "n - 1" s] by (auto simp: fgets_def split: prod.splits if_splits)


section \<open>Loading ends\<close>

definition ini_ok :: "ini_memory \<Rightarrow> bool" where
  "ini_ok mm \<longleftrightarrow> im_dict mm \<and> (\<forall>n. im_line mm n) \<and> (\<forall>n. im_set mm n = enough_memory)"

definition load_inv :: "load_state \<Rightarrow> bool" where
  "load_inv st \<longleftrightarrow> length (ls_pre st) \<le> 1022 \<and> (\<exists>d. ls_dict st = Some d \<and> dict_inv d)"

definition load_result_ok :: "dictionary option option \<Rightarrow> bool" where
  "load_result_ok r \<longleftrightarrow> (\<exists>dict. r = Some dict \<and> (\<forall>d. dict = Some d \<longrightarrow> dict_inv d))"

lemma load_entry_ok:
  assumes "load_inv st"
  shows "\<exists>st'. load_entry enough_memory k v st = Inr st' \<and> load_inv st'"
proof -
  obtain d where d: "ls_dict st = Some d" "dict_inv d" using assms by (auto simp: load_inv_def)
  show ?thesis using dict_set_spec [OF d(2), of k v] d(1) assms
    by (auto simp: load_entry_def load_inv_def)
qed

lemma load_line_ok:
  assumes "load_inv st" "ini_ok mm"
  shows "\<exists>st'. load_line mm n txt st = Inr st' \<and> load_inv st'"
proof -
  obtain sta sect key val where
    L: "iniparser_line True txt (ls_section st) (ls_key st) (ls_val st) = (sta, sect, key, val)"
    by (metis prod_cases4)
  let ?st = "st\<lparr>ls_pre := [], ls_section := sect, ls_key := key, ls_val := val\<rparr>"
  have I: "load_inv ?st" "load_inv (?st\<lparr>ls_errs := Suc (ls_errs st)\<rparr>)"
    using assms(1) by (auto simp: load_inv_def)
  show ?thesis
    using I load_entry_ok [OF I(1)] assms(2)
    by (cases sta) (simp_all add: load_line_def L ini_ok_def)
qed

lemma load_round_ok:
  assumes "load_inv st" "ini_ok mm" "length got \<le> 1023 - length (ls_pre st)"
  shows "load_round mm n st got eof = Inl (Some None)
    \<or> (\<exists>st'. load_round mm n st got eof = Inr st' \<and> load_inv st')"
proof -
  let ?line = "ls_pre st @ takeWhile (\<lambda>c. c \<noteq> CHR 0x00) got"
  have "length (ls_pre st) \<le> 1022" using assms(1) by (simp add: load_inv_def)
  then have "length ?line \<le> 1023"
    using assms(3) length_takeWhile_le [of "\<lambda>c. c \<noteq> CHR 0x00" got] by simp
  then have "length (butlast (rstrip ?line)) \<le> 1022" using length_rstrip [of ?line] by simp
  then have "load_inv (st\<lparr>ls_pre := butlast (rstrip ?line)\<rparr>)" using assms(1) by (auto simp: load_inv_def)
  then show ?thesis using load_line_ok [OF assms(1,2), of n "rstrip ?line"] assms(1)
    by (auto simp: load_round_def Let_def)
qed

lemma load_loop_total:
  assumes "load_inv st" "ini_ok mm" "length input < fuel"
  shows "load_result_ok (load_loop fuel mm n st input)"
  using assms
proof (induction fuel arbitrary: n st input)
  case (Suc fuel)
  show ?case
  proof (cases "fgets (ASCIILINESZ - length (ls_pre st)) input")
    case None
    then show ?thesis using Suc.prems(1) by (auto simp: load_result_ok_def load_inv_def finish_load_def)
  next
    case (Some a)
    obtain got rest eof where a: "a = (got, rest, eof)" by (cases a)
    note g = fgets_Some [OF Some [unfolded a]]
    have "length got \<le> 1023 - length (ls_pre st)" "length rest < fuel"
      using g Suc.prems(1,3) by (auto simp: ASCIILINESZ_def neq_Nil_conv)
    then show ?thesis
      using load_round_ok [OF Suc.prems(1,2), of got "Suc n" eof] Suc.IH [OF _ Suc.prems(2)] Some a
      by (auto simp: load_result_ok_def)
  qed
qed simp

text \<open>
  C30.  Loading a configuration ends.  With memory available \<open>iniparser_load\<close> returns for every
  file, whatever it contains: a null pointer, or a well-formed dictionary.
\<close>

theorem ini_load_returns:
  assumes "ini_ok mm"
  shows "\<exists>dict. iniparser_load mm input = Some dict \<and> (\<forall>d. dict = Some d \<longrightarrow> dict_inv d)"
proof (cases input)
  case (Some s)
  have "load_inv load_start" by (simp add: load_inv_def load_start_def dict_new_empty)
  then show ?thesis
    using load_loop_total [OF _ assms, of load_start s "Suc (length s)" 0] assms Some
    by (simp add: iniparser_load_def load_result_ok_def ini_ok_def)
qed (simp add: iniparser_load_def)


section \<open>Lines that are read back\<close>

definition wf_name :: "string \<Rightarrow> bool" where
  "wf_name s \<longleftrightarrow> s \<noteq> [] \<and> trimmed s \<and> map tolower s = s \<and> CHR 0x0A \<notin> set s \<and> CHR 0x00 \<notin> set s"

definition wf_section :: "string \<Rightarrow> bool" where
  "wf_section s \<longleftrightarrow> wf_name s \<and> CHR '']'' \<notin> set s \<and> CHR '':'' \<notin> set s \<and> length s \<le> 1000"

definition wf_key :: "string \<Rightarrow> bool" where
  "wf_key k \<longleftrightarrow> wf_name k \<and> CHR ''='' \<notin> set k \<and> hd k \<notin> set ''#;['' \<and> length k \<le> 400"

definition wf_value :: "string \<Rightarrow> bool" where
  "wf_value v \<longleftrightarrow> trimmed v \<and> list_all (\<lambda>c. c \<notin> {CHR 0x0A, CHR 0x00, CHR '';'', CHR ''#''}) v \<and>
     (v \<noteq> [] \<longrightarrow> hd v \<notin> {CHR 0x22, CHR 0x27} \<and> last v \<noteq> CHR 0x5C) \<and> length v \<le> 500"

lemma wf_key_D:
  assumes "wf_key k"
  shows "k \<noteq> []" "trimmed k" "map tolower k = k" "CHR ''='' \<notin> set k" "CHR 0x0A \<notin> set k" "CHR 0x00 \<notin> set k"
    "hd k \<noteq> CHR ''#''" "hd k \<noteq> CHR '';''" "hd k \<noteq> CHR ''[''" "length k \<le> 400" "\<not> isspace (hd k)"
  using assms by (auto simp: wf_key_def wf_name_def trimmed_def)

lemma scan_key:
  assumes "k \<noteq> []" "CHR ''='' \<notin> set k" "list_all isspace sp"
  shows "sscanf (k @ sp @ CHR ''='' # r) (Scanset not_eq_sign # fs) = (k @ sp) # sscanf (CHR ''='' # r) fs"
proof -
  have "\<forall>c\<in>set (k @ sp). not_eq_sign c" using assms(2,3) by (auto simp: not_eq_sign_def list_all_iff)
  then have "takeWhile not_eq_sign ((k @ sp) @ CHR ''='' # r) = k @ sp"
    "dropWhile not_eq_sign ((k @ sp) @ CHR ''='' # r) = CHR ''='' # r"
    by (subst takeWhile_append2 dropWhile_append2; simp add: not_eq_sign_def)+
  then show ?thesis using assms(1) by simp
qed

lemma strip_value_line:
  assumes "wf_key k" "list_all isspace sp" "trimmed v"
  shows "rstrip (k @ sp @ ''= '' @ v) = k @ sp @ CHR ''='' # (if v = [] then [] else CHR '' '' # v)"
    and "trimmed (k @ sp @ CHR ''='' # (if v = [] then [] else CHR '' '' # v))"
proof -
  let ?t = "k @ sp @ CHR ''='' # (if v = [] then [] else CHR '' '' # v)"
  have e: "k @ sp @ ''= '' @ v = ?t @ (if v = [] then '' '' else [])" by simp
  have l: "\<not> isspace (last ?t)" using assms(3) by (auto simp: trimmed_def)
  show "rstrip (k @ sp @ ''= '' @ v) = ?t"
    unfolding e using l by (subst rstrip_append_spaces) (auto intro: rstrip_id)
  show "trimmed ?t" using l wf_key_D(1,11) [OF assms(1)] by (simp add: trimmed_def hd_append)
qed

text \<open>A line that is neither empty nor a comment nor a section and has no quoted value.\<close>

lemma line_unquoted:
  assumes "strstrip inp = t" "t \<noteq> []" "hd t \<notin> set ''#;[''"
    and "\<And>q. q \<in> {CHR 0x22, CHR 0x27} \<Longrightarrow> sscanf t (fmt_quoted q) = [k]"
  shows "sscanf t fmt_plain = [k, v] \<Longrightarrow> strstrip v \<noteq> [CHR 0x22, CHR 0x22] \<Longrightarrow>
      strstrip v \<noteq> [CHR 0x27, CHR 0x27] \<Longrightarrow>
      iniparser_line True inp sect key val = (LINE_VALUE, sect, lower_key k (length t), strstrip v)"
    and "sscanf t fmt_plain = [k] \<Longrightarrow> sscanf t fmt_no_value = [k, e] \<Longrightarrow> sscanf t [Scanset not_eq_sign] = [k] \<Longrightarrow>
      iniparser_line True inp sect key val = (LINE_VALUE, sect, lower_key k (length t), [])"
  using assms by (simp_all add: iniparser_line_def Let_def)

lemma scan_value:
  assumes "wf_value v" "r = (if v = [] then [] else CHR '' '' # v)"
  shows "q \<in> {CHR 0x22, CHR 0x27} \<Longrightarrow>
      sscanf (CHR ''='' # r) [Blank, Literal (CHR ''=''), Blank, Literal q, Scanset P, Literal q] = []"
    and "sscanf (CHR ''='' # r) [Blank, Literal (CHR ''=''), Blank, Scanset (\<lambda>c. c \<noteq> CHR '';'' \<and> c \<noteq> CHR ''#'')]
      = (if v = [] then [] else [v])"
proof -
  have tw: "takeWhile (\<lambda>c. c \<noteq> CHR '';'' \<and> c \<noteq> CHR ''#'') v = v"
    using assms(1) by (auto simp: wf_value_def list_all_iff takeWhile_eq_all_conv)
  have dw: "dropWhile isspace v = v" using assms(1) by (cases v) (auto simp: wf_value_def trimmed_def)
  show "sscanf (CHR ''='' # r) [Blank, Literal (CHR ''=''), Blank, Literal q, Scanset P, Literal q] = []"
    if "q \<in> {CHR 0x22, CHR 0x27}"
    using that assms dw by (cases v) (auto simp: wf_value_def)
  show "sscanf (CHR ''='' # r) [Blank, Literal (CHR ''=''), Blank, Scanset (\<lambda>c. c \<noteq> CHR '';'' \<and> c \<noteq> CHR ''#'')]
      = (if v = [] then [] else [v])"
    by (simp add: assms(2) dw tw)
qed

lemma line_value:
  assumes "wf_key k" "list_all isspace sp" "wf_value v"
  shows "iniparser_line True (rstrip (k @ sp @ ''= '' @ v)) sect key val = (LINE_VALUE, sect, k, v)"
proof -
  define r where "r = (if v = [] then [] else CHR '' '' # v)"
  define t where "t = k @ sp @ CHR ''='' # r"
  have v: "trimmed v" using assms(3) by (simp add: wf_value_def)
  note K = wf_key_D [OF assms(1)]
  have inp: "rstrip (k @ sp @ ''= '' @ v) = t" "strstrip t = t"
    using strip_value_line [OF assms(1,2) v] by (auto simp: t_def r_def strstrip_id)
  have scan: "sscanf t (Scanset not_eq_sign # fs) = (k @ sp) # sscanf (CHR ''='' # r) fs" for fs
    unfolding t_def by (rule scan_key [OF K(1,4) assms(2)])
  have low: "lower_key (k @ sp) (length t) = k"
    by (rule lower_key_id [OF K(2) assms(2) K(3)]) (simp add: t_def)
  note sv = scan_value [OF assms(3) r_def]
  have q: "sscanf t (fmt_quoted q) = [k @ sp]" if "q \<in> {CHR 0x22, CHR 0x27}" for q
    using sv(1) [OF that] by (simp only: fmt_quoted_def scan)
  have plain: "sscanf t fmt_plain = (k @ sp) # (if v = [] then [] else [v])"
    using sv(2) by (simp only: fmt_plain_def scan)
  have t: "t \<noteq> []" "hd t \<notin> set ''#;[''" using K by (simp_all add: t_def)
  show ?thesis
  proof (cases "v = []")
    case True
    have "sscanf t fmt_no_value = [k @ sp, ''='']" "sscanf t [Scanset not_eq_sign] = [k @ sp]"
      unfolding fmt_no_value_def scan by (simp_all add: r_def True)
    then show ?thesis using line_unquoted(2) [OF inp(2) t q] plain True low inp(1) by simp
  next
    case False
    have "v \<noteq> [CHR 0x22, CHR 0x22]" "v \<noteq> [CHR 0x27, CHR 0x27]"
      using assms(3) False by (auto simp: wf_value_def)
    then show ?thesis
      using line_unquoted(1) [OF inp(2) t q, of v] plain False low inp(1) strstrip_id [OF v] by simp
  qed
qed

lemma line_section:
  assumes "wf_section s"
  shows "iniparser_line True (CHR ''['' # s @ '']'') sect key val = (LINE_SECTION, s, key, val)"
proof -
  define t where "t = CHR ''['' # s @ '']''"
  have s: "s \<noteq> []" "trimmed s" "map tolower s = s" "\<forall>c\<in>set s. c \<noteq> CHR '']''"
    using assms by (auto simp: wf_section_def wf_name_def)
  have "strstrip t = t" by (rule strstrip_id) (simp add: trimmed_def t_def)
  moreover have "sscanf t fmt_section = [s]"
    using s(1,4) by (simp add: t_def fmt_section_def takeWhile_append2)
  moreover have "lower_key s (length t) = s"
    using lower_key_id [OF s(2) _ s(3), of "[]"] by (simp add: t_def)
  ultimately have "iniparser_line True t sect key val = (LINE_SECTION, s, key, val)"
    by (simp add: iniparser_line_def Let_def t_def)
  then show ?thesis by (simp only: t_def)
qed


section \<open>Files that are read back\<close>

datatype ini_item = Empty_line | Section_line string | Entry_line string string

fun render :: "ini_item \<Rightarrow> string" where
  "render Empty_line = [CHR 0x0A]"
| "render (Section_line s) = CHR ''['' # s @ [CHR '']'', CHR 0x0A]"
| "render (Entry_line k v) = k @ replicate (30 - length k) (CHR '' '') @ '' = '' @ v @ [CHR 0x0A]"

fun wf_item :: "ini_item \<Rightarrow> bool" where
  "wf_item Empty_line \<longleftrightarrow> True"
| "wf_item (Section_line s) \<longleftrightarrow> wf_section s"
| "wf_item (Entry_line k v) \<longleftrightarrow> wf_key k \<and> wf_value v"

text \<open>The effect of a line on the current section and on the map.\<close>

fun apply_item :: "ini_item \<Rightarrow> string \<times> (string \<rightharpoonup> string option) \<Rightarrow> string \<times> (string \<rightharpoonup> string option)" where
  "apply_item Empty_line (s, m) = (s, m)"
| "apply_item (Section_line s') (s, m) = (s', m(s' \<mapsto> None))"
| "apply_item (Entry_line k v) (s, m) = (s, m(s @ '':'' @ k \<mapsto> Some v))"

definition loads :: "load_state \<Rightarrow> string \<times> (string \<rightharpoonup> string option) \<Rightarrow> bool" where
  "loads st sm \<longleftrightarrow> ls_pre st = [] \<and> ls_errs st = 0 \<and> ls_section st = fst sm \<and>
     (\<exists>d. ls_dict st = Some d \<and> dict_inv d \<and> dict_map d = snd sm)"

lemma load_entry_loads:
  assumes "loads st (s, m)"
  shows "\<exists>st'. load_entry enough_memory k v st = Inr st' \<and> loads st' (s, m(k \<mapsto> v))"
proof -
  obtain d where d: "ls_dict st = Some d" "dict_inv d" "dict_map d = m" using assms by (auto simp: loads_def)
  show ?thesis using dict_set_spec [OF d(2), of k v] d assms by (auto simp: load_entry_def loads_def)
qed

text \<open>A line of the file without its line feed: what one round of the loop does with it.\<close>

lemma load_round_line:
  assumes "ls_pre st = []" "CHR 0x00 \<notin> set l" "l \<noteq> []" "rstrip l \<noteq> [] \<Longrightarrow> last (rstrip l) \<noteq> CHR 0x5C"
  shows "load_round mm n st (l @ [CHR 0x0A]) False = load_line mm n (rstrip l) st"
proof -
  have "takeWhile (\<lambda>c. c \<noteq> CHR 0x00) (l @ [CHR 0x0A]) = l @ [CHR 0x0A]"
    using assms(2) by (intro takeWhile_eq_all_conv [THEN iffD2]) auto
  moreover have "rstrip (l @ [CHR 0x0A]) = rstrip l" by (rule rstrip_append_spaces) simp
  ultimately show ?thesis using assms(1,3,4) by (auto simp: load_round_def Let_def)
qed

lemma load_round_section:
  assumes "loads st sm" "wf_section s" "ini_ok mm"
  shows "\<exists>st'. load_round mm n st (CHR ''['' # s @ [CHR '']'', CHR 0x0A]) False = Inr st'
    \<and> loads st' (apply_item (Section_line s) sm)"
proof -
  obtain s0 m where sm: "sm = (s0, m)" by (cases sm)
  let ?l = "CHR ''['' # s @ '']''"
  have l: "CHR 0x00 \<notin> set ?l" using assms(2) by (auto simp: wf_section_def wf_name_def)
  have r: "rstrip ?l = ?l" by (rule rstrip_id) simp
  have "load_round mm n st (?l @ [CHR 0x0A]) False = load_line mm n ?l st"
    using load_round_line [OF _ l, of st] assms(1) r by (simp add: loads_def)
  moreover have "loads (st\<lparr>ls_pre := [], ls_section := s, ls_key := ls_key st, ls_val := ls_val st\<rparr>) (s, m)"
    using assms(1) sm by (simp add: loads_def)
  then have "\<exists>st'. load_line mm n ?l st = Inr st' \<and> loads st' (s, m(s \<mapsto> None))"
    using load_entry_loads assms(3) by (simp add: load_line_def line_section [OF assms(2)] ini_ok_def)
  ultimately show ?thesis using sm by simp
qed

lemma load_round_entry:
  assumes "loads st sm" "wf_key k" "wf_value v" "ini_ok mm"
  shows "\<exists>st'. load_round mm n st (render (Entry_line k v)) False = Inr st'
    \<and> loads st' (apply_item (Entry_line k v) sm)"
proof -
  obtain s m where sm: "sm = (s, m)" by (cases sm)
  define sp where "sp = replicate (30 - length k) (CHR '' '') @ '' ''"
  define l where "l = k @ sp @ ''= '' @ v"
  have sp: "list_all isspace sp" by (simp add: list_all_iff sp_def)
  have v: "trimmed v" using assms(3) by (simp add: wf_value_def)
  have line: "iniparser_line True (rstrip l) sect key val = (LINE_VALUE, sect, k, v)" for sect key val
    unfolding l_def by (rule line_value [OF assms(2) sp assms(3)])
  have l: "CHR 0x00 \<notin> set l" "l \<noteq> []"
    using assms(2,3) by (auto simp: l_def sp_def wf_key_def wf_name_def wf_value_def list_all_iff)
  have last: "last (rstrip l) \<noteq> CHR 0x5C"
    using assms(3) unfolding l_def strip_value_line(1) [OF assms(2) sp v] by (auto simp: wf_value_def)
  have "loads (st\<lparr>ls_pre := [], ls_section := s, ls_key := k, ls_val := v\<rparr>) (s, m)"
    "ls_section st = s" "ls_pre st = []" using assms(1) sm by (simp_all add: loads_def)
  then have "\<exists>st'. load_line mm n (rstrip l) st = Inr st' \<and> loads st' (s, m(s @ '':'' @ k \<mapsto> Some v))"
    using load_entry_loads assms(4) by (simp add: load_line_def line ini_ok_def)
  moreover have "load_round mm n st (l @ [CHR 0x0A]) False = load_line mm n (rstrip l) st"
    using load_round_line [OF \<open>ls_pre st = []\<close> l last] .
  moreover have "render (Entry_line k v) = l @ [CHR 0x0A]" by (simp add: l_def sp_def)
  ultimately show ?thesis using sm by (simp del: render.simps)
qed

lemma render_line:
  assumes "wf_item it"
  shows "\<exists>l. render it = l @ [CHR 0x0A] \<and> CHR 0x0A \<notin> set l \<and> length l + 1 < ASCIILINESZ"
proof (cases it)
  case Empty_line
  then show ?thesis by (simp add: ASCIILINESZ_def)
next
  case (Section_line s)
  then show ?thesis
    using assms by (intro exI [of _ "CHR ''['' # s @ '']''"]) (simp add: wf_section_def wf_name_def ASCIILINESZ_def)
next
  case (Entry_line k v)
  have k: "CHR 0x0A \<notin> set k" "length k \<le> 400" and v: "CHR 0x0A \<notin> set v" "length v \<le> 500"
    using assms Entry_line by (auto simp: wf_key_def wf_name_def wf_value_def list_all_iff)
  have "length k + (30 - length k) \<le> 430" using k(2) by simp
  then show ?thesis
    using Entry_line k v
    by (intro exI [of _ "k @ replicate (30 - length k) (CHR '' '') @ '' = '' @ v"])
      (simp add: ASCIILINESZ_def)
qed

lemma load_item:
  assumes "loads st sm" "wf_item it" "ini_ok mm"
  shows "\<exists>st'. load_loop (Suc fuel) mm n st (render it @ rest) = load_loop fuel mm (Suc n) st' rest
    \<and> loads st' (apply_item it sm)"
proof -
  have pre: "ls_pre st = []" using assms(1) by (simp add: loads_def)
  obtain l where l: "render it = l @ [CHR 0x0A]" "CHR 0x0A \<notin> set l" "length l + 1 < ASCIILINESZ"
    using render_line [OF assms(2)] by blast
  have "fgets (ASCIILINESZ - length (ls_pre st)) (render it @ rest) = Some (render it, rest, False)"
    using fgets_newline [OF l(2,3), of rest] l(1) pre by simp
  moreover have "\<exists>st'. load_round mm (Suc n) st (render it) False = Inr st' \<and> loads st' (apply_item it sm)"
  proof (cases it)
    case Empty_line
    then show ?thesis using assms(1) pre by (cases sm) (simp add: load_round_def)
  next
    case (Section_line s)
    then show ?thesis using load_round_section [OF assms(1) _ assms(3)] assms(2) by simp
  next
    case (Entry_line k v)
    then show ?thesis using load_round_entry [OF assms(1) _ _ assms(3)] assms(2) by (simp del: render.simps)
  qed
  ultimately show ?thesis by auto
qed

lemma load_items:
  assumes "loads st sm" "list_all wf_item its" "ini_ok mm" "length its < fuel"
  shows "\<exists>d. load_loop fuel mm n st (concat (map render its)) = Some (Some d) \<and> dict_inv d
    \<and> dict_map d = snd (fold apply_item its sm)"
  using assms
proof (induction its arbitrary: fuel n st sm)
  case Nil
  then obtain f where "fuel = Suc f" by (cases fuel) auto
  with Nil.prems(1) show ?case by (auto simp: loads_def finish_load_def)
next
  case (Cons it its)
  then obtain f where f: "fuel = Suc f" "length its < f" by (cases fuel) auto
  from load_item [OF Cons.prems(1) _ Cons.prems(3), of it f n "concat (map render its)"] Cons.prems(2)
  obtain st' where st': "load_loop fuel mm n st (render it @ concat (map render its))
      = load_loop f mm (Suc n) st' (concat (map render its))" "loads st' (apply_item it sm)"
    using f(1) by auto
  show ?case using Cons.IH [OF st'(2) _ Cons.prems(3) f(2)] Cons.prems(2) st'(1) by simp
qed

lemma length_concat_render: "length its \<le> length (concat (map render its))"
proof (induction its)
  case (Cons it its)
  have "Suc 0 \<le> length (render it)" by (cases it) auto
  from add_mono [OF this Cons] show ?case by simp
qed simp

lemma load_render:
  assumes "list_all wf_item its" "ini_ok mm"
  shows "\<exists>d. iniparser_load mm (Some (concat (map render its))) = Some (Some d) \<and> dict_inv d
    \<and> dict_map d = snd (fold apply_item its ([], Map.empty))"
proof -
  have "loads load_start ([], Map.empty)"
    using dict_new_empty [of 0] by (simp add: loads_def load_start_def)
  from load_items [OF this assms, of "Suc (length (concat (map render its)))" 0]
  show ?thesis using length_concat_render [of its] assms(2) by (simp add: iniparser_load_def ini_ok_def)
qed


section \<open>Dumping and loading\<close>

text \<open>The part of a key before its first colon.\<close>

definition section_of :: "string \<Rightarrow> string" where
  "section_of k = takeWhile (\<lambda>c. c \<noteq> CHR '':'') k"

definition wf_slot :: "dictionary \<Rightarrow> nat \<Rightarrow> bool" where
  "wf_slot d i \<longleftrightarrow>
     (let k = slot_key d i
      in if CHR '':'' \<in> set k
         then section_of k \<in> set (dict_keys d) \<and> wf_key (drop (length (section_of k) + 1) k) \<and>
              (case dc_val d ! i of None \<Rightarrow> False | Some v \<Rightarrow> wf_value v)
         else wf_section k \<and> dc_val d ! i = None)"

definition wf_ini :: "dictionary \<Rightarrow> bool" where
  "wf_ini d \<longleftrightarrow> dict_inv d \<and> list_all (wf_slot d) (dict_slots d)"

definition in_section :: "string \<Rightarrow> string \<Rightarrow> bool" where
  "in_section s k \<longleftrightarrow> take (length s + 1) k = s @ '':''"

definition entry_item :: "dictionary \<Rightarrow> string \<Rightarrow> nat \<Rightarrow> ini_item" where
  "entry_item d s j = Entry_line (drop (length s + 1) (slot_key d j)) (shown [] (dc_val d ! j))"

definition section_items :: "dictionary \<Rightarrow> string \<Rightarrow> ini_item list" where
  "section_items d s = Empty_line # Section_line s
     # map (entry_item d s) (filter (\<lambda>j. in_section s (slot_key d j)) (dict_slots d)) @ [Empty_line]"

lemma dict_map_slot:
  assumes "dict_inv d" "j \<in> set (dict_slots d)"
  shows "dict_map d (slot_key d j) = Some (dc_val d ! j)"
  using assms by (auto simp: dict_map_Some_iff dict_slots_def slot_key_def)

lemma dict_keys_iff: "dict_inv d \<Longrightarrow> k \<in> set (dict_keys d) \<longleftrightarrow> dict_map d k \<noteq> None"
  by (auto simp: dict_keys_def dict_map_slot dict_slots_def slot_key_def dict_map_def find_slot_iff image_iff)

lemma section_of_split: "CHR '':'' \<notin> set s \<Longrightarrow> section_of (s @ CHR '':'' # r) = s"
  by (induction s) (auto simp: section_of_def)

lemma section_of_in_section:
  assumes "CHR '':'' \<in> set k"
  shows "in_section (section_of k) k"
proof -
  obtain a b where "k = a @ CHR '':'' # b" "CHR '':'' \<notin> set a" using split_list_first [OF assms] by blast
  then show ?thesis using section_of_split [of a b] by (simp add: in_section_def)
qed

lemma in_section_key: "in_section s k \<Longrightarrow> k = s @ CHR '':'' # drop (length s + 1) k"
  unfolding in_section_def by (metis append_Cons append_Nil append_assoc append_take_drop_id)

lemma in_section_unique:
  assumes "in_section s k" "CHR '':'' \<notin> set s"
  shows "section_of k = s \<and> CHR '':'' \<in> set k"
proof -
  obtain r where r: "k = s @ CHR '':'' # r" using in_section_key [OF assms(1)] by blast
  show ?thesis unfolding r using section_of_split [OF assms(2)] by simp
qed

section \<open>The map a dump describes\<close>

lemma wf_ini_slot:
  assumes "wf_ini d" "j \<in> set (dict_slots d)"
  shows "wf_slot d j" "dict_inv d"
  using assms by (auto simp: wf_ini_def list_all_iff)

lemma wf_entry:
  assumes "wf_ini d" "j \<in> set (dict_slots d)" "in_section s (slot_key d j)" "CHR '':'' \<notin> set s"
  shows "wf_item (entry_item d s j)" "Some (shown [] (dc_val d ! j)) = dc_val d ! j"
  using wf_ini_slot [OF assms(1,2)] in_section_unique [OF assms(3,4)]
  by (auto simp: wf_slot_def entry_item_def shown_def split: option.splits)

lemma fold_entries:
  assumes "wf_ini d" "CHR '':'' \<notin> set s"
    and "\<forall>j\<in>set js. j \<in> set (dict_slots d) \<and> in_section s (slot_key d j)"
  shows "fold apply_item (map (entry_item d s) js) (s, m)
    = (s, \<lambda>k. if k \<in> slot_key d ` set js then dict_map d k else m k)"
  using assms(3)
proof (induction js arbitrary: m)
  case (Cons j js)
  then have j: "j \<in> set (dict_slots d)" "in_section s (slot_key d j)" by auto
  have "apply_item (entry_item d s j) (s, m) = (s, m(slot_key d j \<mapsto> dc_val d ! j))"
    using wf_entry(2) [OF assms(1) j assms(2)] in_section_key [OF j(2)]
    by (simp add: entry_item_def)
  then show ?case using Cons dict_map_slot [OF wf_ini_slot(2) [OF assms(1) j(1)] j(1)] by (auto simp: fun_eq_iff)
qed simp


definition touched :: "dictionary \<Rightarrow> string \<Rightarrow> string \<Rightarrow> bool" where
  "touched d s k \<longleftrightarrow> k = s \<or> k \<in> set (dict_keys d) \<and> in_section s k"

lemma section_names_wf:
  assumes "wf_ini d" "s \<in> set (section_names d)"
  shows "wf_section s" "dict_map d s = Some None" "CHR '':'' \<notin> set s"
proof -
  obtain j where j: "j \<in> set (dict_slots d)" "slot_key d j = s" "CHR '':'' \<notin> set s"
    using assms(2) by (auto simp: section_names_def dict_keys_def)
  then have "wf_section s" "dc_val d ! j = None"
    using wf_ini_slot(1) [OF assms(1) j(1)] by (simp_all add: wf_slot_def)
  then show "wf_section s" "dict_map d s = Some None" "CHR '':'' \<notin> set s"
    using j dict_map_slot [OF wf_ini_slot(2) [OF assms(1) j(1)] j(1)] by simp_all
qed

lemma fold_section:
  assumes "wf_ini d" "s \<in> set (section_names d)"
  shows "fold apply_item (section_items d s) (s0, m)
    = (s, \<lambda>k. if touched d s k then dict_map d k else m k)"
proof -
  note s = section_names_wf [OF assms]
  let ?js = "filter (\<lambda>j. in_section s (slot_key d j)) (dict_slots d)"
  have "fold apply_item (section_items d s) (s0, m)
    = (s, \<lambda>k. if k \<in> slot_key d ` set ?js then dict_map d k else (m(s \<mapsto> None)) k)"
    using fold_entries [OF assms(1) s(3), of ?js "m(s \<mapsto> None)"] by (simp add: section_items_def)
  moreover have "k \<in> slot_key d ` set ?js \<longleftrightarrow> k \<in> set (dict_keys d) \<and> in_section s k" for k
    by (auto simp: dict_keys_def)
  ultimately show ?thesis using s(2) by (auto simp: touched_def fun_eq_iff)
qed

lemma fold_sections:
  assumes "wf_ini d" "set ss \<subseteq> set (section_names d)"
  shows "snd (fold apply_item (concat (map (section_items d) ss)) (s0, m))
    = (\<lambda>k. if \<exists>s\<in>set ss. touched d s k then dict_map d k else m k)"
  using assms(2)
proof (induction ss arbitrary: s0 m)
  case (Cons s ss)
  then show ?case using fold_section [OF assms(1), of s s0 m] by (auto simp: fun_eq_iff)
qed simp

definition dump_items :: "dictionary \<Rightarrow> ini_item list" where
  "dump_items d = (if section_names d = [] then [] else concat (map (section_items d) (section_names d)) @ [Empty_line])"

lemma key_touched:
  assumes "wf_ini d" "k \<in> set (dict_keys d)"
  shows "\<exists>s\<in>set (section_names d). touched d s k"
proof (cases "CHR '':'' \<in> set k")
  case True
  obtain j where j: "j \<in> set (dict_slots d)" "slot_key d j = k" using assms(2) by (auto simp: dict_keys_def)
  then have "section_of k \<in> set (dict_keys d)"
    using wf_ini_slot(1) [OF assms(1) j(1)] True by (simp add: wf_slot_def Let_def)
  moreover have "CHR '':'' \<notin> set (section_of k)" by (auto simp: section_of_def dest: set_takeWhileD)
  ultimately have "section_of k \<in> set (section_names d)" by (simp add: section_names_def)
  then show ?thesis using section_of_in_section [OF True] assms(2) by (auto simp: touched_def)
next
  case False
  then show ?thesis using assms(2) by (auto simp: section_names_def touched_def)
qed

lemma dump_items_map:
  assumes "wf_ini d"
  shows "snd (fold apply_item (dump_items d) ([], Map.empty)) = dict_map d"
proof -
  have inv: "dict_inv d" using assms by (simp add: wf_ini_def)
  let ?r = "fold apply_item (concat (map (section_items d) (section_names d))) ([], Map.empty)"
  have "snd ?r = (\<lambda>k. if \<exists>s\<in>set (section_names d). touched d s k then dict_map d k else None)"
    by (rule fold_sections [OF assms order_refl])
  also have "\<dots> = dict_map d"
  proof
    fix k
    show "(if \<exists>s\<in>set (section_names d). touched d s k then dict_map d k else None) = dict_map d k"
      using key_touched [OF assms, of k] dict_keys_iff [OF inv, of k] by auto
  qed
  finally have r: "snd ?r = dict_map d" .
  have "apply_item Empty_line x = x" for x by (cases x) simp
  then show ?thesis using r by (cases "section_names d = []") (simp_all add: dump_items_def)
qed

lemma dump_items_wf:
  assumes "wf_ini d"
  shows "list_all wf_item (dump_items d)"
proof -
  have "wf_item it" if "s \<in> set (section_names d)" "it \<in> set (section_items d s)" for s it
    using that wf_entry(1) [OF assms] section_names_wf [OF assms that(1)]
    by (auto simp: section_items_def)
  then show ?thesis by (auto simp: dump_items_def list_all_iff)
qed

lemma dump_section_render:
  assumes "wf_ini d" "s \<in> set (section_names d)"
  shows "iniparser_dumpsection_ini d s = concat (map render (section_items d s))"
proof -
  note s = section_names_wf [OF assms]
  have "strlwc (Some s) (ASCIILINESZ + 1) = Some s"
    using s(1) by (simp add: strlwc_def ASCIILINESZ_def wf_section_def wf_name_def)
  then have "iniparser_find_entry (Some d) (Some s) = 1"
    using s(2) by (auto simp: iniparser_find_entry_def find_string_def dict_map_def)
  moreover have e: "render \<circ> entry_item d s = dump_line d (length s)"
    by (simp add: fun_eq_iff entry_item_def dump_line_def)
  ultimately show ?thesis
    by (simp add: iniparser_dumpsection_ini_def section_items_def in_section_def e)
qed

lemma concat_map_concat: "concat (map f (concat (map g xs))) = concat (map (\<lambda>x. concat (map f (g x))) xs)"
  by (induction xs) simp_all

lemma dump_render:
  assumes "wf_ini d"
  shows "iniparser_dump_ini (Some d) = concat (map render (dump_items d))"
proof (cases "section_names d = []")
  case True
  then have "dict_keys d = []" using key_touched [OF assms] by (cases "dict_keys d") auto
  then have "dict_slots d = []" by (simp add: dict_keys_def)
  then show ?thesis using True by (simp add: iniparser_dump_ini_def dump_items_def iniparser_getnsec_def)
next
  case False
  let ?n = "length (section_names d)"
  have "map (\<lambda>i. the (iniparser_getsecname (Some d) (int i))) [0..<?n] = section_names d"
    by (intro nth_equalityI) (simp_all add: iniparser_getsecname_def)
  then have "map (\<lambda>i. iniparser_dumpsection_ini d (the (iniparser_getsecname (Some d) (int i)))) [0..<?n]
      = map (iniparser_dumpsection_ini d) (section_names d)"
    by (metis (no_types, lifting) map_map comp_apply map_cong)
  also have "\<dots> = map (\<lambda>s. concat (map render (section_items d s))) (section_names d)"
    using dump_section_render [OF assms] by simp
  finally show ?thesis
    using False
    by (simp add: iniparser_dump_ini_def dump_items_def iniparser_getnsec_def concat_map_concat Suc_le_eq)
qed



section \<open>A concrete configuration\<close>

definition all_memory :: ini_memory where
  "all_memory = \<lparr>im_dict = True, im_line = \<lambda>_. True, im_set = \<lambda>_. enough_memory\<rparr>"

definition sample_ini :: dictionary where
  "sample_ini = dict_add (dict_add (dict_add (dictionary_new 0) ''can0'' None)
     ''can0:bitrate'' (Some ''500000'')) ''can0:mode'' (Some ''normal'')"

lemma all_memory_ok: "ini_ok all_memory"
  by (simp add: ini_ok_def all_memory_def)

lemma sample_ini_inv: "dict_inv sample_ini"
proof -
  have "dict_inv (dict_add d k v)" if "dict_inv d" for d k v
    using dict_set_spec [OF that, of k v] by (auto simp: dict_add_def)
  then show ?thesis by (simp add: sample_ini_def dict_new_empty)
qed

theorem ini_load_returns_witness:
  "\<exists>dict. iniparser_load all_memory (Some ''[can0'') = Some dict"
  using ini_load_returns [OF all_memory_ok, of "Some ''[can0''"] by blast


end
