(* ===== verification/Iot_Config.thy ===== *)
theory Iot_Config
  imports Ini_Lemmas Iot_Session
begin

text \<open>
  Configured IoT devices (\<open>src/src/engine.c\<close>, \<open>src/include/dev.h\<close>): the attributes of each protocol
  read from a section of the configuration, and the table of devices built from all sections.
  A \<open>None\<close> result stands for the use of a NULL string, which a dictionary can hold as a value.
\<close>

section \<open>Devices\<close>

record BluetoothDevAttr =
  bt_port :: u16
  bt_mac :: bytes
  bt_version :: u8
  conn_interval :: u16

record CANDevAttr =
  can_port :: u16
  can_bitrate :: u32
  can_mode :: u8
  can_filter_id :: u32

record ZigbeeDevAttr =
  zigbee_pan_id :: u16
  zigbee_channel :: u8
  zigbee_mac :: bytes
  zigbee_role :: u8

record LoRaDevAttr =
  lora_port :: u16
  lora_freq_band :: u8
  lora_sf :: u8
  lora_cr :: u8
  lora_dev_eui :: u32

record PowerLinkDevAttr =
  plk_port :: u16
  plk_mac :: bytes
  plk_node_id :: u16
  plk_role :: u8
  plk_cycle_ms :: u32
  plk_rx_pdo_len :: u16
  plk_tx_pdo_len :: u16

record ModbusTCPDevAttr =
  mb_port :: u16
  mb_mac :: bytes
  mb_unit_id :: u8
  mb_proto_ver :: u8
  mb_timeout_ms :: u32
  mb_retry_cnt :: u8

text \<open>The union of the attributes; \<open>No_attr\<close> is cleared memory.\<close>

datatype IotDevSpecificAttr = No_attr | Bt_attr BluetoothDevAttr | Can_attr CANDevAttr
  | Zigbee_attr ZigbeeDevAttr | Lora_attr LoRaDevAttr | Plk_attr PowerLinkDevAttr | Mb_attr ModbusTCPDevAttr

definition IOT_DEV_TYPE_UNKNOWN :: u16 where "IOT_DEV_TYPE_UNKNOWN = 0"
definition IOT_DEV_STATUS_OFFLINE :: int where "IOT_DEV_STATUS_OFFLINE = 0"
definition IOT_DEV_STATUS_ONLINE :: int where "IOT_DEV_STATUS_ONLINE = 1"
definition IOT_DEV_STATUS_ERROR :: int where "IOT_DEV_STATUS_ERROR = 2"
definition IOT_DEV_STATUS_CONFIGURING :: int where "IOT_DEV_STATUS_CONFIGURING = 3"
definition MAX_IOT_DEV_NUM :: nat where "MAX_IOT_DEV_NUM = 16"
definition MAX_DEV_NAME :: nat where "MAX_DEV_NAME = 32"

text \<open>The session queue and the statistics of a device are cleared and never used.\<close>

record IotDevConfig =
  working_mode :: int
  config_path :: string
  auto_connect :: int

record IotDevice =
  iv_dev_id :: int
  iv_dev_type :: u16
  iv_ns_name :: "string option"
  iv_dev_status :: int
  iv_name :: string
  iv_config :: IotDevConfig
  iv_specific_attr :: IotDevSpecificAttr
  iv_sess_id :: int
  iv_physical_port :: int
  iv_fd :: int

definition cleared_device :: IotDevice where
  "cleared_device = \<lparr>iv_dev_id = 0, iv_dev_type = 0, iv_ns_name = None, iv_dev_status = 0, iv_name = [],
     iv_config = \<lparr>working_mode = 0, config_path = [], auto_connect = 0\<rparr>, iv_specific_attr = No_attr,
     iv_sess_id = 0, iv_physical_port = 0, iv_fd = 0\<rparr>"


section \<open>Scanning values\<close>

text \<open>\<open>snprintf\<close> into a buffer of 128 characters.\<close>

definition ini_key :: "string \<Rightarrow> string \<Rightarrow> string" where
  "ini_key sect name = take 127 (sect @ '':'' @ name)"

definition get_int :: "dictionary \<Rightarrow> string \<Rightarrow> string \<Rightarrow> int \<Rightarrow> int option" where
  "get_int ini sect name dflt = iniparser_getint (Some ini) (Some (ini_key sect name)) dflt"

definition get_string :: "dictionary \<Rightarrow> string \<Rightarrow> string \<Rightarrow> string \<Rightarrow> string option" where
  "get_string ini sect name dflt = iniparser_getstring (Some ini) (Some (ini_key sect name)) (Some dflt)"

text \<open>
  The conversion \<open>%02hhx\<close>: white space, then at most two characters, a sign and a digit or one or
  two digits.  \<open>0x\<close> alone is no number.
\<close>

definition scan_hhx :: "string \<Rightarrow> (u8 \<times> string) option" where
  "scan_hhx str =
     (let s = dropWhile isspace str;
          digit = (\<lambda>i. if i < length s then digit_of (s ! i) else None)
      in if s = [] then None
         else if hd s = CHR ''+'' \<or> hd s = CHR ''-'' then
           map_option (\<lambda>n. (word_of_int (if hd s = CHR ''-'' then - n else n), drop 2 s)) (digit 1)
         else if 2 \<le> length s \<and> hd s = CHR ''0'' \<and> (s ! 1 = CHR ''x'' \<or> s ! 1 = CHR ''X'') then None
         else case (digit 0, digit 1) of
           (Some a, Some b) \<Rightarrow> Some (word_of_int (16 * a + b), drop 2 s)
         | (Some a, None) \<Rightarrow> Some (word_of_int a, drop 1 s)
         | _ \<Rightarrow> None)"

text \<open>\<open>n\<close> such conversions with colons between them: the bytes that are assigned.\<close>

fun scan_mac :: "nat \<Rightarrow> string \<Rightarrow> bytes" where
  "scan_mac 0 s = []"
| "scan_mac (Suc n) s =
     (case scan_hhx s of
        None \<Rightarrow> []
      | Some (b, r) \<Rightarrow> b # (if r \<noteq> [] \<and> hd r = CHR '':'' then scan_mac n (tl r) else []))"


section \<open>Attributes\<close>

definition parse_bluetooth_attr ::
  "dictionary \<Rightarrow> string \<Rightarrow> BluetoothDevAttr \<Rightarrow> (int \<times> BluetoothDevAttr) option" where
  "parse_bluetooth_attr ini sect attr = do {
     port \<leftarrow> get_int ini sect ''bt_port'' 0;
     version \<leftarrow> get_int ini sect ''bt_version'' 5;
     interval \<leftarrow> get_int ini sect ''conn_interval'' 50;
     mac_str \<leftarrow> get_string ini sect ''bt_mac'' ''00:00:00:00:00:00'';
     Some (BACKEND_PROXY_PROCESS_OK,
       \<lparr>bt_port = word_of_int port, bt_mac = overwrite (scan_mac 6 mac_str) (bt_mac attr),
        bt_version = word_of_int version, conn_interval = word_of_int interval\<rparr>) }"

definition can_mode_of :: "string \<Rightarrow> u8 option" where
  "can_mode_of s = (if s = ''loopback'' then Some 2 else if s = ''silent'' then Some 3
     else if s = ''normal'' then Some 1 else None)"

definition can_bitrate_supported :: "u32 \<Rightarrow> bool" where
  "can_bitrate_supported b \<longleftrightarrow> b = 125000 \<or> b = 250000 \<or> b = 500000 \<or> b = 1000000"

definition parse_can_attr ::
  "dictionary \<Rightarrow> string \<Rightarrow> CANDevAttr \<Rightarrow> (int \<times> CANDevAttr) option" where
  "parse_can_attr ini sect attr = do {
     port \<leftarrow> get_int ini sect ''can_port'' 0;
     bitrate \<leftarrow> get_int ini sect ''can_bitrate'' 500000;
     let a1 = attr\<lparr>can_port := word_of_int port, can_bitrate := word_of_int bitrate\<rparr>;
     if \<not> can_bitrate_supported (can_bitrate a1) then Some (BACKEND_PROXY_PROCESS_ERROR, a1)
     else do {
       mode_str \<leftarrow> get_string ini sect ''can_mode'' ''normal'';
       case can_mode_of mode_str of
         None \<Rightarrow> Some (BACKEND_PROXY_PROCESS_ERROR, a1)
       | Some mode \<Rightarrow> do {
           filter_id \<leftarrow> get_int ini sect ''can_filter_id'' 0;
           Some (BACKEND_PROXY_PROCESS_OK, a1\<lparr>can_mode := mode, can_filter_id := word_of_int filter_id\<rparr>) } } }"

definition zigbee_role_of :: "string \<Rightarrow> u8 option" where
  "zigbee_role_of s = (if s = ''router'' then Some 2 else if s = ''enddevice'' then Some 3
     else if s = ''coordinator'' then Some 1 else None)"

definition parse_zigbee_attr ::
  "dictionary \<Rightarrow> string \<Rightarrow> ZigbeeDevAttr \<Rightarrow> (int \<times> ZigbeeDevAttr) option" where
  "parse_zigbee_attr ini sect attr = do {
     pan_id \<leftarrow> get_int ini sect ''zigbee_pan_id'' 0x1234;
     channel \<leftarrow> get_int ini sect ''zigbee_channel'' 18;
     let a1 = attr\<lparr>zigbee_pan_id := word_of_int pan_id, zigbee_channel := word_of_int channel\<rparr>;
     if zigbee_channel a1 < 11 \<or> zigbee_channel a1 > 26 then Some (BACKEND_PROXY_PROCESS_ERROR, a1)
     else do {
       role_str \<leftarrow> get_string ini sect ''zigbee_role'' ''coordinator'';
       case zigbee_role_of role_str of
         None \<Rightarrow> Some (BACKEND_PROXY_PROCESS_ERROR, a1)
       | Some role \<Rightarrow> do {
           mac_str \<leftarrow> get_string ini sect ''zigbee_mac'' ''00:00:00:00:00:00:00:00'';
           let mac = scan_mac 8 mac_str;
           let a2 = a1\<lparr>zigbee_role := role, zigbee_mac := overwrite mac (zigbee_mac a1)\<rparr>;
           Some (if length mac \<noteq> 8 then BACKEND_PROXY_PROCESS_ERROR else BACKEND_PROXY_PROCESS_OK, a2) } } }"

definition lora_band_of :: "string \<Rightarrow> u8 option" where
  "lora_band_of s = (if s = ''US915'' then Some 2 else if s = ''CN470'' then Some 3
     else if s = ''EU868'' then Some 1 else None)"

definition parse_lora_attr ::
  "dictionary \<Rightarrow> string \<Rightarrow> LoRaDevAttr \<Rightarrow> (int \<times> LoRaDevAttr) option" where
  "parse_lora_attr ini sect attr = do {
     port \<leftarrow> get_int ini sect ''lora_port'' 2;
     let a1 = attr\<lparr>lora_port := word_of_int port\<rparr>;
     freq_str \<leftarrow> get_string ini sect ''lora_freq_band'' ''EU868'';
     case lora_band_of freq_str of
       None \<Rightarrow> Some (BACKEND_PROXY_PROCESS_ERROR, a1)
     | Some band \<Rightarrow> do {
         sf \<leftarrow> get_int ini sect ''lora_sf'' 9;
         let a2 = a1\<lparr>lora_freq_band := band, lora_sf := word_of_int sf\<rparr>;
         if lora_sf a2 < 7 \<or> lora_sf a2 > 12 then Some (BACKEND_PROXY_PROCESS_ERROR, a2)
         else do {
           cr \<leftarrow> get_int ini sect ''lora_cr'' 1;
           let a3 = a2\<lparr>lora_cr := word_of_int cr\<rparr>;
           if lora_cr a3 < 1 \<or> lora_cr a3 > 4 then Some (BACKEND_PROXY_PROCESS_ERROR, a3)
           else do {
             eui \<leftarrow> get_int ini sect ''lora_dev_eui'' 0;
             Some (BACKEND_PROXY_PROCESS_OK, a3\<lparr>lora_dev_eui := word_of_int eui\<rparr>) } } } }"

definition parse_powerlink_attr ::
  "dictionary \<Rightarrow> string \<Rightarrow> PowerLinkDevAttr \<Rightarrow> (int \<times> PowerLinkDevAttr) option" where
  "parse_powerlink_attr ini sect attr = do {
     port \<leftarrow> get_int ini sect ''plk_port'' 0;
     node_id \<leftarrow> get_int ini sect ''plk_node_id'' 1;
     let a1 = attr\<lparr>plk_port := word_of_int port, plk_node_id := word_of_int node_id\<rparr>;
     if plk_node_id a1 < 1 \<or> plk_node_id a1 > 240 then Some (BACKEND_PROXY_PROCESS_ERROR, a1)
     else do {
       role_str \<leftarrow> get_string ini sect ''plk_role'' ''mn'';
       if role_str \<noteq> ''mn'' \<and> role_str \<noteq> ''cn'' then Some (BACKEND_PROXY_PROCESS_ERROR, a1)
       else do {
         let a2 = a1\<lparr>plk_role := if role_str = ''mn'' then 0 else 1\<rparr>;
         cycle \<leftarrow> get_int ini sect ''plk_cycle_ms'' 1;
         let a3 = a2\<lparr>plk_cycle_ms := word_of_int cycle\<rparr>;
         if plk_cycle_ms a3 < 1 \<or> plk_cycle_ms a3 > 10 then Some (BACKEND_PROXY_PROCESS_ERROR, a3)
         else do {
           rx_len \<leftarrow> get_int ini sect ''plk_rx_pdo_len'' 64;
           tx_len \<leftarrow> get_int ini sect ''plk_tx_pdo_len'' 64;
           mac_str \<leftarrow> get_string ini sect ''plk_mac'' ''00:00:00:00:00:00'';
           let mac = scan_mac 6 mac_str;
           let a4 = a3\<lparr>plk_rx_pdo_len := word_of_int rx_len, plk_tx_pdo_len := word_of_int tx_len,
                       plk_mac := overwrite mac (plk_mac a3)\<rparr>;
           Some (if length mac \<noteq> 6 then BACKEND_PROXY_PROCESS_ERROR else BACKEND_PROXY_PROCESS_OK, a4) } } } }"

definition mb_proto_of :: "string \<Rightarrow> u8 option" where
  "mb_proto_of s = (if s = ''rtu_over_tcp'' \<or> s = ''rtu'' then Some 1 else if s = ''tcp'' then Some 0 else None)"

text \<open>A timeout of 0 and a negative retry count are replaced.\<close>

definition mb_timeout_of :: "int \<Rightarrow> u32" where
  "mb_timeout_of timeout = (if word_of_int timeout = (0 :: u32) then 1000 else word_of_int timeout)"

definition mb_retry_of :: "int \<Rightarrow> u8" where
  "mb_retry_of retry = word_of_int (if retry < 0 then 0 else retry)"

definition parse_modbustcp_attr ::
  "dictionary \<Rightarrow> string \<Rightarrow> ModbusTCPDevAttr \<Rightarrow> (int \<times> ModbusTCPDevAttr) option" where
  "parse_modbustcp_attr ini sect attr = do {
     port \<leftarrow> get_int ini sect ''mb_port'' 502;
     let a1 = attr\<lparr>mb_port := word_of_int port\<rparr>;
     unit_id_val \<leftarrow> get_int ini sect ''mb_unit_id'' 1;
     if unit_id_val < 0 \<or> unit_id_val > 255 then Some (BACKEND_PROXY_PROCESS_ERROR, a1)
     else do {
       let a2 = a1\<lparr>mb_unit_id := word_of_int unit_id_val\<rparr>;
       proto_str \<leftarrow> get_string ini sect ''mb_proto_ver'' ''tcp'';
       case mb_proto_of proto_str of
         None \<Rightarrow> Some (BACKEND_PROXY_PROCESS_ERROR, a2)
       | Some ver \<Rightarrow> do {
           timeout \<leftarrow> get_int ini sect ''mb_timeout_ms'' 1000;
           retry \<leftarrow> get_int ini sect ''mb_retry_cnt'' 0;
           mac_str \<leftarrow> get_string ini sect ''mb_mac'' ''00:00:00:00:00:00'';
           let mac = scan_mac 6 mac_str;
           let a3 = a2\<lparr>mb_proto_ver := ver, mb_timeout_ms := mb_timeout_of timeout,
                       mb_retry_cnt := mb_retry_of retry,
                       mb_mac := overwrite mac (mb_mac a2)\<rparr>;
           Some (if length mac \<noteq> 6 then BACKEND_PROXY_PROCESS_ERROR else BACKEND_PROXY_PROCESS_OK, a3) } } }"


section \<open>The device table\<close>

text \<open>Decimal digits of \<open>%d\<close>.\<close>

fun dec_nat :: "nat \<Rightarrow> string" where
  "dec_nat n = (if n < 10 then [char_of (48 + n)] else dec_nat (n div 10) @ [char_of (48 + n mod 10)])"

declare dec_nat.simps [simp del]

definition dec_int :: "int \<Rightarrow> string" where
  "dec_int i = (if i < 0 then ''-'' @ dec_nat (nat (- i)) else dec_nat (nat i))"

definition same_word :: "string \<Rightarrow> string \<Rightarrow> bool" where
  "same_word s t \<longleftrightarrow> map tolower s = map tolower t"

definition dev_type_of :: "string \<Rightarrow> u16 option" where
  "dev_type_of s =
     (if same_word s ''bluetooth'' then Some IOT_PROTO_TYPE_BLUETOOTH
      else if same_word s ''zigbee'' then Some IOT_PROTO_TYPE_ZIGBEE
      else if same_word s ''can'' then Some IOT_PROTO_TYPE_CAN
      else if same_word s ''lora'' then Some IOT_PROTO_TYPE_LORA
      else if same_word s ''powerlink'' then Some IOT_PROTO_TYPE_POWERLINK
      else if same_word s ''modbustcp'' then Some IOT_PROTO_TYPE_MODBUSTCP else None)"

definition dev_status_of :: "string \<Rightarrow> int" where
  "dev_status_of s =
     (if same_word s ''online'' then IOT_DEV_STATUS_ONLINE
      else if same_word s ''error'' then IOT_DEV_STATUS_ERROR
      else if same_word s ''configuring'' then IOT_DEV_STATUS_CONFIGURING else IOT_DEV_STATUS_OFFLINE)"

text \<open>A copy of the namespace; the flags tell whether \<open>strdup\<close> and its repetition get memory.\<close>

definition copy_ns_name :: "bool \<times> bool \<Rightarrow> string \<Rightarrow> string option" where
  "copy_ns_name mem ns =
     (if ns \<noteq> [] \<and> fst mem then Some ns
      else if (if ns = [] then fst mem else snd mem) then Some [] else None)"

definition parse_specific_attr :: "dictionary \<Rightarrow> string \<Rightarrow> u16 \<Rightarrow> (int \<times> IotDevSpecificAttr) option" where
  "parse_specific_attr ini sect ty =
     (if ty = IOT_PROTO_TYPE_BLUETOOTH then
        map_option (map_prod id Bt_attr) (parse_bluetooth_attr ini sect
          \<lparr>bt_port = 0, bt_mac = replicate 6 0, bt_version = 0, conn_interval = 0\<rparr>)
      else if ty = IOT_PROTO_TYPE_CAN then
        map_option (map_prod id Can_attr) (parse_can_attr ini sect
          \<lparr>can_port = 0, can_bitrate = 0, can_mode = 0, can_filter_id = 0\<rparr>)
      else if ty = IOT_PROTO_TYPE_ZIGBEE then
        map_option (map_prod id Zigbee_attr) (parse_zigbee_attr ini sect
          \<lparr>zigbee_pan_id = 0, zigbee_channel = 0, zigbee_mac = replicate 8 0, zigbee_role = 0\<rparr>)
      else if ty = IOT_PROTO_TYPE_LORA then
        map_option (map_prod id Lora_attr) (parse_lora_attr ini sect
          \<lparr>lora_port = 0, lora_freq_band = 0, lora_sf = 0, lora_cr = 0, lora_dev_eui = 0\<rparr>)
      else if ty = IOT_PROTO_TYPE_POWERLINK then
        map_option (map_prod id Plk_attr) (parse_powerlink_attr ini sect
          \<lparr>plk_port = 0, plk_mac = replicate 6 0, plk_node_id = 0, plk_role = 0, plk_cycle_ms = 0,
           plk_rx_pdo_len = 0, plk_tx_pdo_len = 0\<rparr>)
      else if ty = IOT_PROTO_TYPE_MODBUSTCP then
        map_option (map_prod id Mb_attr) (parse_modbustcp_attr ini sect
          \<lparr>mb_port = 0, mb_mac = replicate 6 0, mb_unit_id = 0, mb_proto_ver = 0, mb_timeout_ms = 0,
           mb_retry_cnt = 0\<rparr>)
      else Some (BACKEND_PROXY_PROCESS_ERROR, No_attr))"

text \<open>The optional attributes every device has.\<close>

definition parse_common_attr ::
  "bool \<times> bool \<Rightarrow> dictionary \<Rightarrow> string \<Rightarrow> IotDevice \<Rightarrow> IotDevice option" where
  "parse_common_attr mem ini sect dev = do {
     ns_name \<leftarrow> get_string ini sect ''ns_name'' [];
     status_str \<leftarrow> get_string ini sect ''dev_status'' ''offline'';
     dev_name \<leftarrow> get_string ini sect ''name'' [];
     work_mode \<leftarrow> get_string ini sect ''working_mode'' ''client'';
     cfg_path \<leftarrow> get_string ini sect ''config_path'' [];
     auto \<leftarrow> get_int ini sect ''auto_connect'' 0;
     port \<leftarrow> get_int ini sect ''physical_port'' (-1);
     Some (dev\<lparr>iv_ns_name := copy_ns_name mem ns_name, iv_dev_status := dev_status_of status_str,
       iv_name := take (MAX_DEV_NAME - 1)
         (if dev_name \<noteq> [] then dev_name else ''device_'' @ dec_int (iv_dev_id dev)),
       iv_config := \<lparr>working_mode = (if same_word work_mode ''gateway'' \<or> same_word work_mode ''server'' then 1 else 0),
         config_path = take 255 (if cfg_path \<noteq> [] then cfg_path
           else ''/etc/iot/dev_'' @ dec_int (iv_dev_id dev) @ ''.conf''),
         auto_connect = auto\<rparr>,
       iv_physical_port := port\<rparr>) }"

text \<open>
  One device section: whether it is accepted, and what it leaves in its place of the table.  A
  section without a valid id or type leaves a started device, one with bad attributes a cleared one.
\<close>

definition started_device :: IotDevice where
  "started_device = cleared_device\<lparr>iv_dev_type := IOT_DEV_TYPE_UNKNOWN, iv_dev_status := IOT_DEV_STATUS_OFFLINE,
     iv_sess_id := -1, iv_fd := -1, iv_physical_port := -1\<rparr>"

definition parse_device :: "bool \<times> bool \<Rightarrow> dictionary \<Rightarrow> string \<Rightarrow> (bool \<times> IotDevice) option" where
  "parse_device mem ini sect = do {
     dev_id \<leftarrow> get_int ini sect ''dev_id'' (-1);
     let d1 = started_device\<lparr>iv_dev_id := dev_id\<rparr>;
     if dev_id = -1 then Some (False, d1)
     else do {
       dev_type_str \<leftarrow> get_string ini sect ''dev_type'' ''unknown'';
       case dev_type_of dev_type_str of
         None \<Rightarrow> Some (False, d1)
       | Some ty \<Rightarrow> do {
           d2 \<leftarrow> parse_common_attr mem ini sect (d1\<lparr>iv_dev_type := ty\<rparr>);
           (ret, attr) \<leftarrow> parse_specific_attr ini sect ty;
           Some (if ret = BACKEND_PROXY_PROCESS_OK then (True, d2\<lparr>iv_specific_attr := attr\<rparr>)
                 else (False, cleared_device)) } } }"

text \<open>The loop over the sections; \<open>mem i\<close> is the memory for section \<open>i\<close>.\<close>

fun device_loop ::
  "(nat \<Rightarrow> bool \<times> bool) \<Rightarrow> dictionary \<Rightarrow> nat list \<Rightarrow> nat \<Rightarrow> nat \<Rightarrow> IotDevice list \<Rightarrow>
   (nat \<times> nat \<times> IotDevice list) option" where
  "device_loop mem ini [] parsed failed devs = Some (parsed, failed, devs)"
| "device_loop mem ini (i # is) parsed failed devs =
     (if MAX_IOT_DEV_NUM \<le> parsed then Some (parsed, failed, devs)
      else case iniparser_getsecname (Some ini) (int i) of
        None \<Rightarrow> device_loop mem ini is parsed failed devs
      | Some sect \<Rightarrow>
          if take 7 sect \<noteq> ''device_'' then device_loop mem ini is parsed failed devs
          else do {
            (ok, dev) \<leftarrow> parse_device (mem i) ini sect;
            if ok then device_loop mem ini is (Suc parsed) failed (devs[parsed := dev])
            else device_loop mem ini is parsed (Suc failed) (devs[parsed := dev]) })"

record iot_engine =
  ie_iot_dev_set :: "IotDevice list option"
  ie_iot_dev_num :: u16

definition engine_init_iot_devices ::
  "bool \<Rightarrow> ini_memory \<Rightarrow> string option \<Rightarrow> (nat \<Rightarrow> bool \<times> bool) \<Rightarrow> iot_engine option \<Rightarrow>
   (int \<times> iot_engine option) option" where
  "engine_init_iot_devices calloc_ok mm file mem engine =
     (case engine of
        None \<Rightarrow> Some (BACKEND_PROXY_PROCESS_ERROR, None)
      | Some e \<Rightarrow>
          if ie_iot_dev_set e = None \<and> \<not> calloc_ok then Some (BACKEND_PROXY_PROCESS_ERROR, engine)
          else
            let devs = (case ie_iot_dev_set e of None \<Rightarrow> replicate MAX_IOT_DEV_NUM cleared_device | Some ds \<Rightarrow> ds)
            in do {
              loaded \<leftarrow> iniparser_load mm file;
              case loaded of
                None \<Rightarrow> Some (BACKEND_PROXY_PROCESS_ERROR, Some (e\<lparr>ie_iot_dev_set := Some devs\<rparr>))
              | Some ini \<Rightarrow> do {
                  (parsed, failed, devs') \<leftarrow>
                    device_loop mem ini [0..<nat (iniparser_getnsec (Some ini))] 0 0 devs;
                  let e' = e\<lparr>ie_iot_dev_set := Some devs'\<rparr>;
                  Some (if parsed = 0 \<or> 0 < failed then (BACKEND_PROXY_PROCESS_ERROR, Some e')
                        else (BACKEND_PROXY_PROCESS_OK, Some (e'\<lparr>ie_iot_dev_num := of_nat parsed\<rparr>))) } })"

text \<open>Cleaning up: the descriptors that are closed, and the engine without its table.\<close>

definition engine_cleanup_iot_devices :: "iot_engine option \<Rightarrow> int list \<times> iot_engine option" where
  "engine_cleanup_iot_devices engine =
     (case engine of
        None \<Rightarrow> ([], None)
      | Some e \<Rightarrow>
          (case ie_iot_dev_set e of
             None \<Rightarrow> ([], engine)
           | Some devs \<Rightarrow> (filter (\<lambda>fd. fd \<ge> 0) (map iv_fd devs), Some (e\<lparr>ie_iot_dev_set := None\<rparr>))))"

end
