(* ===== verification/Iot_Config_Lemmas.thy ===== *)
theory Iot_Config_Lemmas
  imports Iot_Config
begin

text \<open>
  Properties of the IoT configuration: accepted devices are in range, and the table holds exactly
  the accepted sections in the order of the file.
\<close>

section \<open>Accepted attributes\<close>

definition attr_in_range :: "u16 \<Rightarrow> IotDevSpecificAttr \<Rightarrow> bool" where
  "attr_in_range ty attr =
     (case attr of
        No_attr \<Rightarrow> False
      | Bt_attr a \<Rightarrow> ty = IOT_PROTO_TYPE_BLUETOOTH \<and> length (bt_mac a) = 6
      | Can_attr a \<Rightarrow> ty = IOT_PROTO_TYPE_CAN \<and> can_bitrate_supported (can_bitrate a) \<and>
          can_mode a \<in> {1, 2, 3}
      | Zigbee_attr a \<Rightarrow> ty = IOT_PROTO_TYPE_ZIGBEE \<and> 11 \<le> zigbee_channel a \<and> zigbee_channel a \<le> 26 \<and>
          zigbee_role a \<in> {1, 2, 3} \<and> length (zigbee_mac a) = 8
      | Lora_attr a \<Rightarrow> ty = IOT_PROTO_TYPE_LORA \<and> lora_freq_band a \<in> {1, 2, 3} \<and> 7 \<le> lora_sf a \<and> lora_sf a \<le> 12 \<and>
          1 \<le> lora_cr a \<and> lora_cr a \<le> 4
      | Plk_attr a \<Rightarrow> ty = IOT_PROTO_TYPE_POWERLINK \<and> 1 \<le> plk_node_id a \<and> plk_node_id a \<le> 240 \<and>
          plk_role a \<in> {0, 1} \<and> 1 \<le> plk_cycle_ms a \<and> plk_cycle_ms a \<le> 10 \<and> length (plk_mac a) = 6
      | Mb_attr a \<Rightarrow> ty = IOT_PROTO_TYPE_MODBUSTCP \<and> mb_proto_ver a \<in> {0, 1} \<and> mb_timeout_ms a \<noteq> 0 \<and>
          length (mb_mac a) = 6)"

lemma scan_mac_length: "length (scan_mac n s) \<le> n"
  by (induction n s rule: scan_mac.induct) (auto split: option.splits)

lemma overwrite_mac: "length (overwrite (scan_mac n s) (replicate n 0)) = n"
  using scan_mac_length [of n s] by (simp add: overwrite_def)

lemma nonzero_ge_1: "x \<noteq> 0 \<Longrightarrow> 1 \<le> (x :: 'a :: len word)"
  by (metis not_less word_less_1)

lemma word_codes:
  "can_mode_of s = Some r \<Longrightarrow> r \<in> {1, 2, 3}" "zigbee_role_of s = Some r \<Longrightarrow> r \<in> {1, 2, 3}"
  "lora_band_of s = Some r \<Longrightarrow> r \<in> {1, 2, 3}" "mb_proto_of s = Some r \<Longrightarrow> r \<in> {0, 1}"
  by (auto simp: can_mode_of_def zigbee_role_of_def lora_band_of_def mb_proto_of_def split: if_splits)

lemmas parse_simps = proxy_codes bind_eq_Some_conv Let_def not_less nonzero_ge_1 overwrite_mac

lemma mb_timeout_of_nonzero: "mb_timeout_of t \<noteq> 0"
  by (simp add: mb_timeout_of_def)

lemma parse_bluetooth_range:
  assumes "parse_bluetooth_attr ini sect attr = Some (ret, a)"
  shows "bt_mac attr = replicate 6 0 \<longrightarrow> length (bt_mac a) = 6"
  using assms by (clarsimp simp: parse_bluetooth_attr_def parse_simps)

lemma parse_can_range:
  assumes "parse_can_attr ini sect attr = Some (BACKEND_PROXY_PROCESS_OK, a)"
  shows "can_bitrate_supported (can_bitrate a) \<and> can_mode a \<in> {1, 2, 3}"
  using assms
  by (clarsimp simp: parse_can_attr_def parse_simps split: if_splits option.splits) (drule word_codes(1), simp)

lemma parse_zigbee_range:
  assumes "parse_zigbee_attr ini sect attr = Some (BACKEND_PROXY_PROCESS_OK, a)"
  shows "11 \<le> zigbee_channel a \<and> zigbee_channel a \<le> 26 \<and> zigbee_role a \<in> {1, 2, 3}
    \<and> (zigbee_mac attr = replicate 8 0 \<longrightarrow> length (zigbee_mac a) = 8)"
  using assms
  by (clarsimp simp: parse_zigbee_attr_def parse_simps split: if_splits option.splits) (drule word_codes(2), simp add: overwrite_mac)

lemma parse_lora_range:
  assumes "parse_lora_attr ini sect attr = Some (BACKEND_PROXY_PROCESS_OK, a)"
  shows "lora_freq_band a \<in> {1, 2, 3} \<and> 7 \<le> lora_sf a \<and> lora_sf a \<le> 12 \<and> 1 \<le> lora_cr a \<and> lora_cr a \<le> 4"
  using assms
  by (clarsimp simp: parse_lora_attr_def parse_simps split: if_splits option.splits) (drule word_codes(3), simp)

lemma parse_powerlink_range:
  assumes "parse_powerlink_attr ini sect attr = Some (BACKEND_PROXY_PROCESS_OK, a)"
  shows "1 \<le> plk_node_id a \<and> plk_node_id a \<le> 240 \<and> plk_role a \<in> {0, 1} \<and> 1 \<le> plk_cycle_ms a
    \<and> plk_cycle_ms a \<le> 10 \<and> (plk_mac attr = replicate 6 0 \<longrightarrow> length (plk_mac a) = 6)"
  using assms by (clarsimp simp: parse_powerlink_attr_def parse_simps split: if_splits)

lemma parse_modbustcp_range:
  assumes "parse_modbustcp_attr ini sect attr = Some (BACKEND_PROXY_PROCESS_OK, a)"
  shows "mb_proto_ver a \<in> {0, 1} \<and> mb_timeout_ms a \<noteq> 0 \<and> (mb_mac attr = replicate 6 0 \<longrightarrow> length (mb_mac a) = 6)"
  using assms
  by (clarsimp simp: parse_modbustcp_attr_def parse_simps split: if_splits option.splits)
    (drule word_codes(4), simp add: mb_timeout_of_nonzero overwrite_mac)

lemmas parse_ranges = parse_bluetooth_range parse_can_range parse_zigbee_range parse_lora_range
  parse_powerlink_range parse_modbustcp_range

lemma parse_specific_range:
  assumes "parse_specific_attr ini sect ty = Some (BACKEND_PROXY_PROCESS_OK, attr)"
  shows "attr_in_range ty attr"
proof -
  have *: "\<exists>a. x = Some (BACKEND_PROXY_PROCESS_OK, a) \<and> attr = c a"
    if "map_option (map_prod id c) x = Some (BACKEND_PROXY_PROCESS_OK, attr)" for c x
    using that by auto
  have "BACKEND_PROXY_PROCESS_ERROR \<noteq> BACKEND_PROXY_PROCESS_OK" by (simp add: proxy_codes)
  then show ?thesis
    using assms unfolding parse_specific_attr_def
    by (auto simp: attr_in_range_def split: if_splits dest!: * parse_ranges)
qed


lemma dev_status_range: "dev_status_of s \<in> {0..3}"
  by (simp add: dev_status_of_def IOT_DEV_STATUS_ONLINE_def IOT_DEV_STATUS_ERROR_def
      IOT_DEV_STATUS_CONFIGURING_def IOT_DEV_STATUS_OFFLINE_def)

lemma parse_common_D:
  assumes "parse_common_attr mem ini sect dev = Some d"
  shows "length (iv_name d) < MAX_DEV_NAME" "length (config_path (iv_config d)) \<le> 255"
    "working_mode (iv_config d) \<in> {0, 1}" "iv_dev_status d \<in> {0..3}"
    "iv_dev_id d = iv_dev_id dev" "iv_dev_type d = iv_dev_type dev" "iv_fd d = iv_fd dev"
proof -
  obtain ns st nm wm cp ac port where
    "d = dev\<lparr>iv_ns_name := ns, iv_dev_status := dev_status_of st, iv_name := take (MAX_DEV_NAME - 1) nm,
       iv_config := \<lparr>working_mode = (if wm then 1 else 0), config_path = take 255 cp, auto_connect = ac\<rparr>,
       iv_physical_port := port\<rparr>"
    using assms unfolding parse_common_attr_def bind_eq_Some_conv by blast
  then show "length (iv_name d) < MAX_DEV_NAME" "length (config_path (iv_config d)) \<le> 255"
    "working_mode (iv_config d) \<in> {0, 1}" "iv_dev_status d \<in> {0..3}"
    "iv_dev_id d = iv_dev_id dev" "iv_dev_type d = iv_dev_type dev" "iv_fd d = iv_fd dev"
    using dev_status_range [of st] by (simp_all add: MAX_DEV_NAME_def)
qed

lemma accepted_device_spec:
  assumes "parse_device mem ini sect = Some (True, dev)"
  shows "iv_dev_id dev \<noteq> -1" "attr_in_range (iv_dev_type dev) (iv_specific_attr dev)"
    "length (iv_name dev) < MAX_DEV_NAME" "length (config_path (iv_config dev)) \<le> 255"
    "working_mode (iv_config dev) \<in> {0, 1}" "iv_dev_status dev \<in> {0..3}" "iv_fd dev = -1"
proof -
  obtain i ty d2 attr where P: "i \<noteq> -1"
    "parse_common_attr mem ini sect (started_device\<lparr>iv_dev_id := i, iv_dev_type := ty\<rparr>) = Some d2"
    "parse_specific_attr ini sect ty = Some (BACKEND_PROXY_PROCESS_OK, attr)"
    "dev = d2\<lparr>iv_specific_attr := attr\<rparr>"
    using assms
    by (auto simp: parse_device_def Let_def bind_eq_Some_conv split: if_splits option.splits)
  note C = parse_common_D [OF P(2)]
  show "attr_in_range (iv_dev_type dev) (iv_specific_attr dev)"
    using parse_specific_range [OF P(3)] C(6) P(4) by simp
  show "iv_dev_id dev \<noteq> -1" "length (iv_name dev) < MAX_DEV_NAME" "length (config_path (iv_config dev)) \<le> 255"
    "working_mode (iv_config dev) \<in> {0, 1}" "iv_dev_status dev \<in> {0..3}" "iv_fd dev = -1"
    using C P(1,4) by (simp_all add: started_device_def)
qed

text \<open>
  C32.  Accepted devices are well typed.  A device that a section of the configuration puts into the
  table has an id, attributes of the protocol of its type with every checked value in its range, a
  name and a path that fit their buffers, one of the two working modes and one of the four states,
  and no descriptor yet.
\<close>

theorem accepted_device_well_typed:
  assumes "parse_device mem ini sect = Some (True, dev)"
  shows "iv_dev_id dev \<noteq> -1 \<and> attr_in_range (iv_dev_type dev) (iv_specific_attr dev)
    \<and> length (iv_name dev) < MAX_DEV_NAME \<and> length (config_path (iv_config dev)) < 256
    \<and> working_mode (iv_config dev) \<in> {0, 1}
    \<and> iv_dev_status dev \<in> {IOT_DEV_STATUS_OFFLINE, IOT_DEV_STATUS_ONLINE, IOT_DEV_STATUS_ERROR,
        IOT_DEV_STATUS_CONFIGURING}
    \<and> iv_fd dev = -1"
  using accepted_device_spec [OF assms]
  by (auto simp: IOT_DEV_STATUS_ONLINE_def IOT_DEV_STATUS_ERROR_def IOT_DEV_STATUS_CONFIGURING_def
      IOT_DEV_STATUS_OFFLINE_def)


section \<open>The table\<close>

definition device_sections :: "dictionary \<Rightarrow> string list" where
  "device_sections ini = filter (\<lambda>s. take 7 s = ''device_'') (section_names ini)"

text \<open>What the loop does with the results of the device sections.\<close>

fun place_devices :: "(bool \<times> IotDevice) list \<Rightarrow> nat \<Rightarrow> nat \<Rightarrow> IotDevice list \<Rightarrow> nat \<times> nat \<times> IotDevice list" where
  "place_devices [] parsed failed devs = (parsed, failed, devs)"
| "place_devices ((ok, dev) # rs) parsed failed devs =
     place_devices rs (if ok then Suc parsed else parsed) (if ok then failed else Suc failed) (devs[parsed := dev])"

lemma place_devices_spec:
  assumes "place_devices rs p f ds = (p', f', ds')" "p + length rs \<le> length ds"
  shows "p' = p + length (filter fst rs) \<and> f' = f + length (filter (\<lambda>r. \<not> fst r) rs) \<and> length ds' = length ds
    \<and> take p' ds' = take p ds @ map snd (filter fst rs)
    \<and> (list_all fst rs \<longrightarrow> drop p' ds' = drop p' ds)"
  using assms
proof (induction rs p f ds rule: place_devices.induct)
  case (2 ok dev rs p f ds)
  have p: "p < length ds" "(if ok then Suc p else p) + length rs \<le> length (ds[p := dev])"
    using "2.prems"(2) by auto
  have "take (Suc p) (ds[p := dev]) = take p ds @ [dev]" using p(1) by (simp add: take_Suc_conv_app_nth)
  then show ?case
    using "2.IH" [OF _ p(2)] "2.prems"(1) by (cases ok) (auto simp: drop_update_cancel)
qed auto

abbreviation is_device :: "string \<Rightarrow> bool" where
  "is_device s \<equiv> take 7 s = ''device_''"

lemma device_loop_place:
  assumes "\<And>i. i \<in> set is \<Longrightarrow> iniparser_getsecname (Some ini) (int i) = Some (f i)"
    and "\<And>i. i \<in> set is \<Longrightarrow> is_device (f i) \<Longrightarrow> parse_device (True, True) ini (f i) = Some (r (f i))"
    and "parsed + length (filter is_device (map f is)) \<le> MAX_IOT_DEV_NUM"
  shows "device_loop (\<lambda>_. (True, True)) ini is parsed failed devs
    = Some (place_devices (map r (filter is_device (map f is))) parsed failed devs)"
  using assms
proof (induction "is" arbitrary: parsed failed devs)
  case (Cons i "is")
  have IH: "device_loop (\<lambda>_. (True, True)) ini is q g ds
      = Some (place_devices (map r (filter is_device (map f is))) q g ds)"
    if "q + length (filter is_device (map f is)) \<le> MAX_IOT_DEV_NUM" for q g ds
    using Cons.IH [OF _ _ that] Cons.prems(1,2) by simp
  have sect: "iniparser_getsecname (Some ini) (int i) = Some (f i)" using Cons.prems(1) by simp
  show ?case
  proof (cases "is_device (f i)")
    case True
    obtain ok dev where r: "r (f i) = (ok, dev)" by fastforce
    have "parse_device (True, True) ini (f i) = Some (ok, dev)" using Cons.prems(2) True r by simp
    moreover have "\<not> MAX_IOT_DEV_NUM \<le> parsed" using Cons.prems(3) True by simp
    ultimately show ?thesis using True sect r IH Cons.prems(3) by simp
  next
    case False
    have "parsed + length (filter is_device (map f is)) \<le> MAX_IOT_DEV_NUM" using Cons.prems(3) False by simp
    then have "MAX_IOT_DEV_NUM \<le> parsed \<Longrightarrow> length (filter is_device (map f is)) = 0" by linarith
    then have "MAX_IOT_DEV_NUM \<le> parsed \<Longrightarrow> filter is_device (map f is) = []" by (simp add: filter_map)
    then show ?thesis
      using False sect IH [of parsed failed devs] Cons.prems(3) by (cases "MAX_IOT_DEV_NUM \<le> parsed") simp_all
  qed
qed simp

lemma device_table:
  assumes "\<And>s. s \<in> set (device_sections ini) \<Longrightarrow> parse_device (True, True) ini s = Some (r s)"
    and "length (device_sections ini) \<le> MAX_IOT_DEV_NUM"
  shows "device_loop (\<lambda>_. (True, True)) ini [0..<nat (iniparser_getnsec (Some ini))] 0 0 devs
    = Some (place_devices (map r (device_sections ini)) 0 0 devs)"
proof -
  let ?f = "\<lambda>i. section_names ini ! i" and ?is = "[0..<length (section_names ini)]"
  have m: "map ?f ?is = section_names ini" by (rule map_nth)
  have "device_loop (\<lambda>_. (True, True)) ini ?is 0 0 devs
      = Some (place_devices (map r (filter is_device (map ?f ?is))) 0 0 devs)"
  proof (rule device_loop_place)
    show "iniparser_getsecname (Some ini) (int i) = Some (?f i)" if "i \<in> set ?is" for i
      using that by (simp add: iniparser_getsecname_def)
    show "parse_device (True, True) ini (?f i) = Some (r (?f i))" if "i \<in> set ?is" "is_device (?f i)" for i
      using assms(1) [of "?f i"] that by (simp add: device_sections_def)
    show "0 + length (filter is_device (map ?f ?is)) \<le> MAX_IOT_DEV_NUM"
      unfolding m using assms(2) by (simp add: device_sections_def)
  qed
  then show ?thesis unfolding m by (simp add: device_sections_def iniparser_getnsec_def)
qed



text \<open>
  Cleaning up closes descriptors that were never opened.  The unused places of the table are
  cleared memory with descriptor 0, and each of them makes the clean-up close descriptor 0.
\<close>

lemma cleanup_closes_zero:
  assumes "length devs = k" "\<And>d. d \<in> set devs \<Longrightarrow> iv_fd d = -1"
  shows "engine_cleanup_iot_devices (Some \<lparr>ie_iot_dev_set = Some (devs @ replicate m cleared_device), ie_iot_dev_num = n\<rparr>)
    = (replicate m 0, Some \<lparr>ie_iot_dev_set = None, ie_iot_dev_num = n\<rparr>)"
proof -
  have "filter (\<lambda>fd. fd \<ge> 0) (map iv_fd devs) = []" using assms(2) by (auto simp: filter_empty_conv)
  then show ?thesis by (simp add: engine_cleanup_iot_devices_def cleared_device_def)
qed


section \<open>A concrete configuration\<close>

text \<open>Getters read the map a dictionary represents.\<close>

definition ini_value :: "dictionary \<Rightarrow> string \<Rightarrow> string \<Rightarrow> string option option" where
  "ini_value d sect name = dict_map d (map tolower (ini_key sect name))"

lemma lower_ini_key: "strlwc (Some (ini_key sect name)) (ASCIILINESZ + 1) = Some (map tolower (ini_key sect name))"
  by (simp add: strlwc_def ASCIILINESZ_def ini_key_def)

lemma get_string_value:
  "get_string d sect name dflt = (case ini_value d sect name of None \<Rightarrow> Some dflt | Some v \<Rightarrow> v)"
  using lower_ini_key [of sect name]
  by (simp add: get_string_def iniparser_getstring_def dictionary_get_def ini_value_def dict_map_def split: option.split)

lemma get_int_value:
  "get_int d sect name dflt = (case ini_value d sect name of None \<Rightarrow> Some (signed_take_bit 31 dflt)
     | Some v \<Rightarrow> map_option (\<lambda>s. signed_take_bit 31 (strtol s)) v)"
  using lower_ini_key [of sect name]
  by (simp add: get_int_def iniparser_getint_def iniparser_getlongint_def find_string_def ini_value_def dict_map_def
      option.map_comp comp_def split: option.split)

definition sample_iot_items :: "ini_item list" where
  "sample_iot_items = [Section_line ''device_1'', Entry_line ''dev_id'' ''7'', Entry_line ''dev_type'' ''can'']"

definition sample_iot_file :: string where
  "sample_iot_file = concat (map render sample_iot_items)"

definition sample_iot_dict :: dictionary where
  "sample_iot_dict = the (the (iniparser_load all_memory (Some sample_iot_file)))"

definition sample_iot_device :: "string \<Rightarrow> IotDevice" where
  "sample_iot_device s = snd (the (parse_device (True, True) sample_iot_dict s))"

lemma sample_iot_load:
  "iniparser_load all_memory (Some sample_iot_file) = Some (Some sample_iot_dict)"
  "dict_inv sample_iot_dict"
  "dict_map sample_iot_dict = [''device_1'' \<mapsto> None, ''device_1:dev_id'' \<mapsto> Some ''7'',
     ''device_1:dev_type'' \<mapsto> Some ''can'']"
proof -
  have "list_all wf_item sample_iot_items" by code_simp
  from load_render [OF this all_memory_ok] obtain d where
    "iniparser_load all_memory (Some sample_iot_file) = Some (Some d)" "dict_inv d"
    "dict_map d = snd (fold apply_item sample_iot_items ([], Map.empty))"
    by (auto simp: sample_iot_file_def)
  then show "iniparser_load all_memory (Some sample_iot_file) = Some (Some sample_iot_dict)"
    "dict_inv sample_iot_dict"
    "dict_map sample_iot_dict = [''device_1'' \<mapsto> None, ''device_1:dev_id'' \<mapsto> Some ''7'',
       ''device_1:dev_type'' \<mapsto> Some ''can'']"
    by (simp_all add: sample_iot_dict_def sample_iot_items_def)
qed

lemma dict_keys_distinct:
  assumes "dict_inv d"
  shows "distinct (dict_keys d)"
proof -
  have "inj_on (slot_key d) (set (dict_slots d))"
    using assms unfolding inj_on_def dict_slots_def slot_key_def dict_inv_def by fastforce
  then show ?thesis by (simp add: dict_keys_def distinct_map dict_slots_def)
qed

lemma distinct_singleton:
  assumes "distinct xs" "set xs = {a}"
  shows "xs = [a]"
proof -
  have "length xs = 1" using distinct_card [OF assms(1)] assms(2) by simp
  then show ?thesis using assms(2) by (cases xs) auto
qed

lemma sample_iot_sections: "device_sections sample_iot_dict = [''device_1'']"
proof (rule distinct_singleton)
  show "distinct (device_sections sample_iot_dict)"
    using dict_keys_distinct [OF sample_iot_load(2)] by (simp add: device_sections_def section_names_def)
  have keys: "set (dict_keys sample_iot_dict) = {''device_1'', ''device_1:dev_id'', ''device_1:dev_type''}"
    unfolding set_eq_iff dict_keys_iff [OF sample_iot_load(2)] sample_iot_load(3) by simp
  show "set (device_sections sample_iot_dict) = {''device_1''}"
    unfolding device_sections_def section_names_def set_filter keys by auto
qed

lemma sample_iot_values:
  "ini_value sample_iot_dict ''device_1'' ''dev_id'' = Some (Some ''7'')"
  "ini_value sample_iot_dict ''device_1'' ''dev_type'' = Some (Some ''can'')"
  "n \<in> {''ns_name'', ''dev_status'', ''name'', ''working_mode'', ''config_path'', ''auto_connect'', ''physical_port'',
     ''can_port'', ''can_bitrate'', ''can_mode'', ''can_filter_id''} \<Longrightarrow> ini_value sample_iot_dict ''device_1'' n = None"
proof -
  have low: "map tolower (ini_key ''device_1'' n) = ''device_1:'' @ n"
    if "n \<in> {''dev_id'', ''dev_type'', ''ns_name'', ''dev_status'', ''name'', ''working_mode'', ''config_path'', ''auto_connect'',
      ''physical_port'', ''can_port'', ''can_bitrate'', ''can_mode'', ''can_filter_id''}" for n
    using that by (elim insertE emptyE; simp only:; code_simp)
  show "ini_value sample_iot_dict ''device_1'' ''dev_id'' = Some (Some ''7'')"
    "ini_value sample_iot_dict ''device_1'' ''dev_type'' = Some (Some ''can'')"
    unfolding ini_value_def sample_iot_load(3) by (simp_all add: low)
  show "ini_value sample_iot_dict ''device_1'' n = None"
    if "n \<in> {''ns_name'', ''dev_status'', ''name'', ''working_mode'', ''config_path'', ''auto_connect'', ''physical_port'',
     ''can_port'', ''can_bitrate'', ''can_mode'', ''can_filter_id''}"
    using that low [of n] unfolding ini_value_def sample_iot_load(3) by auto
qed


lemma sample_iot_parsed:
  "parse_device (True, True) sample_iot_dict ''device_1'' = Some (True, sample_iot_device ''device_1'')"
  "iv_dev_id (sample_iot_device ''device_1'') = 7"
proof -
  have "strtol ''7'' = 7" "dev_type_of ''can'' = Some IOT_PROTO_TYPE_CAN" "can_mode_of ''normal'' = Some 1"
    by code_simp+
  moreover have "can_bitrate_supported 500000" by (simp add: can_bitrate_supported_def)
  ultimately have "\<exists>dev. parse_device (True, True) sample_iot_dict ''device_1'' = Some (True, dev) \<and> iv_dev_id dev = 7"
    by (simp add: parse_device_def parse_common_attr_def parse_specific_attr_def parse_can_attr_def
        get_int_value get_string_value sample_iot_values iot_proto_types started_device_def Let_def)
  then show "parse_device (True, True) sample_iot_dict ''device_1'' = Some (True, sample_iot_device ''device_1'')"
    "iv_dev_id (sample_iot_device ''device_1'') = 7"
    by (auto simp: sample_iot_device_def)
qed

theorem accepted_device_well_typed_witness:
  "attr_in_range (iv_dev_type (sample_iot_device ''device_1'')) (iv_specific_attr (sample_iot_device ''device_1''))"
  using accepted_device_well_typed [OF sample_iot_parsed(1)] by simp


end
