(* ===== verification/Hs_Device_Config.thy ===== *)
theory Hs_Device_Config
  imports Engine_Attach Iot_Config_Lemmas
begin

text \<open>
  High-speed network devices from the configuration (\<open>src/src/engine.c\<close>): textual addresses, the
  properties of one device, the device set with its session nodes, and the listening socket of a
  device.  A null device set of the engine is the empty list.
\<close>

section \<open>Addresses\<close>

text \<open>The pieces of a string between the occurrences of a character.\<close>

fun split_at :: "char \<Rightarrow> string \<Rightarrow> string list" where
  "split_at c [] = [[]]"
| "split_at c (x # s) = (if x = c then [] # split_at c s
     else case split_at c s of [] \<Rightarrow> [[x]] | t # ts \<Rightarrow> (x # t) # ts)"

text \<open>\<open>inet_pton\<close> for \<open>AF_INET\<close>: four decimal numbers up to 255 without leading zeros.\<close>

definition octet :: "string \<Rightarrow> u8 option" where
  "octet s =
     (if s \<noteq> [] \<and> list_all (is_digit 10) s \<and> (length s = 1 \<or> hd s \<noteq> CHR ''0'') \<and> digits_value 10 s \<le> 255
      then Some (word_of_int (digits_value 10 s)) else None)"

definition inet_pton4 :: "string \<Rightarrow> bytes option" where
  "inet_pton4 s =
     (let os = map octet (split_at (CHR ''.'') s)
      in if length os = 4 \<and> None \<notin> set os then Some (map the os) else None)"

text \<open>
  \<open>inet_pton\<close> for \<open>AF_INET6\<close>: groups of one to four hexadecimal digits, the last two of which may be
  written as an IPv4 address, and at most one \<open>::\<close> for at least one group of zeros.
\<close>

definition hex_group :: "string \<Rightarrow> bytes option" where
  "hex_group s =
     (if s \<noteq> [] \<and> length s \<le> 4 \<and> list_all (is_digit 16) s
      then Some [word_of_int (digits_value 16 s div 256), word_of_int (digits_value 16 s)] else None)"

fun hex_groups :: "bool \<Rightarrow> string list \<Rightarrow> bytes option" where
  "hex_groups dotted [] = Some []"
| "hex_groups dotted (t # ts) =
     (if dotted \<and> ts = [] \<and> CHR ''.'' \<in> set t then inet_pton4 t
      else do { g \<leftarrow> hex_group t; r \<leftarrow> hex_groups dotted ts; Some (g @ r) })"

fun split_double :: "string \<Rightarrow> (string \<times> string) option" where
  "split_double (a # b # s) =
     (if a = CHR '':'' \<and> b = CHR '':'' then Some ([], s)
      else map_option (\<lambda>(l, r). (a # l, r)) (split_double (b # s)))"
| "split_double s = None"

definition groups_of :: "bool \<Rightarrow> string \<Rightarrow> bytes option" where
  "groups_of dotted s = (if s = [] then Some [] else hex_groups dotted (split_at (CHR '':'') s))"

definition inet_pton6 :: "string \<Rightarrow> bytes option" where
  "inet_pton6 s =
     (case split_double s of
        None \<Rightarrow> do { bs \<leftarrow> groups_of True s; if length bs = 16 then Some bs else None }
      | Some (l, r) \<Rightarrow> do {
          a \<leftarrow> groups_of False l;
          b \<leftarrow> groups_of True r;
          if length a + length b < 16 then Some (a @ replicate (16 - length a - length b) 0 @ b) else None })"

definition DEV_IS_IPV4 :: "string \<Rightarrow> bool" where
  "DEV_IS_IPV4 ip_str \<longleftrightarrow> inet_pton4 ip_str \<noteq> None"

definition DEV_IS_IPV6 :: "string \<Rightarrow> bool" where
  "DEV_IS_IPV6 ip_str \<longleftrightarrow> inet_pton6 ip_str \<noteq> None"

definition SESS_NON_IP_PROTO :: int where "SESS_NON_IP_PROTO = 0"

definition DEV_IP_TYPE :: "string \<Rightarrow> int" where
  "DEV_IP_TYPE ip_str = (if DEV_IS_IPV4 ip_str then uint SESS_IPV4_PROTO
     else if DEV_IS_IPV6 ip_str then uint SESS_IPV6_PROTO else SESS_NON_IP_PROTO)"


section \<open>One device\<close>

definition MAX_SESS_NODE_NUM :: nat where "MAX_SESS_NODE_NUM = 10"
definition MAX_DEVICE_PROPERTY_NAME_LENGTH :: nat where "MAX_DEVICE_PROPERTY_NAME_LENGTH = 8"

definition IS_VALID_HS_NET_DEV_TYPE :: "int \<Rightarrow> bool" where
  "IS_VALID_HS_NET_DEV_TYPE t \<longleftrightarrow> t = 0 \<or> t = 1 \<or> t = 2 \<or> t = 3 \<or> t = 4"

definition IS_VALID_HS_NET_DEV_STATUS :: "int \<Rightarrow> bool" where
  "IS_VALID_HS_NET_DEV_STATUS s \<longleftrightarrow> s = HS_NET_DEV_INACTIVE \<or> s = HS_NET_DEV_ACTIVE"

text \<open>
  Results of the outside: the memory for the set, the descriptor of a file or a negative value, the
  address of the \<open>j\<close>-th session node of device \<open>i\<close>.
\<close>

record dev_oracle =
  dr_set_ok :: bool
  dr_open :: "string \<Rightarrow> int"
  dr_node :: "nat \<Rightarrow> nat \<Rightarrow> nat option"

definition open_named_netns :: "(string \<Rightarrow> int) \<Rightarrow> string \<Rightarrow> int" where
  "open_named_netns open_file name =
     (let ns_id = open_file (take 255 (''/var/run/netns/'' @ name))
      in if ns_id < 0 then BACKEND_PROXY_PROCESS_ERROR else ns_id)"

definition cleared_hs_dev :: HighSpeedNetDevice where
  "cleared_hs_dev = \<lparr>hd_dev_id = 0, hd_dev_type = 0, hd_ns_name = None, hd_ns_id = 0, hd_dev_status = 0,
     hd_name = [], hd_udp_node_queue = [], hd_tcp_node_queue = [], hd_free_node_queue = [],
     hd_address = replicate 16 0, hd_tcp_listening_port = 0, hd_tcp_listener = 0\<rparr>"

text \<open>The key of a property, cut to the buffer of 40 characters.\<close>

definition dev_pro_item :: "string \<Rightarrow> string \<Rightarrow> string" where
  "dev_pro_item dev_name prop =
     take (MAX_DEV_NAME + MAX_DEVICE_PROPERTY_NAME_LENGTH - 1) (dev_name @ '':'' @ prop)"

definition dev_int :: "dictionary \<Rightarrow> string \<Rightarrow> string \<Rightarrow> int option" where
  "dev_int ini dev_name prop = iniparser_getint (Some ini) (Some (dev_pro_item dev_name prop)) (-1)"

definition dev_string :: "dictionary \<Rightarrow> string \<Rightarrow> string \<Rightarrow> string option" where
  "dev_string ini dev_name prop = iniparser_getstring (Some ini) (Some (dev_pro_item dev_name prop)) None"

text \<open>The address bytes in the union of the device, or \<open>None\<close> for the error label.\<close>

definition parse_dev_address :: "string \<Rightarrow> bytes option" where
  "parse_dev_address ip_addr =
     (if DEV_IP_TYPE ip_addr = SESS_NON_IP_PROTO then None
      else if DEV_IP_TYPE ip_addr = uint SESS_IPV4_PROTO then
        map_option (\<lambda>os. overwrite (COPY_IN_TO_IPV4 (read_le ((!) os) 4)) (replicate 16 0)) (inet_pton4 ip_addr)
      else map_option (\<lambda>in6. overwrite in6 (replicate 16 0)) (inet_pton6 ip_addr))"

text \<open>
  The properties of one device up to its session nodes.  The outer \<open>None\<close> is the use of a NULL
  string.  The flag tells whether the device was marked active in the mask, which happens before the
  namespace is opened; the device is \<open>None\<close> when the error label is reached.  A listening port is
  recorded, but no listener is opened.
\<close>

definition open_hs_dev ::
  "dev_oracle \<Rightarrow> dictionary \<Rightarrow> string \<Rightarrow> HighSpeedNetDevice \<Rightarrow> HighSpeedNetDevice option option" where
  "open_hs_dev orc ini dev_name dev =
     (case dev_string ini dev_name ''ns_name'' of
        None \<Rightarrow> Some None
      | Some ns_name \<Rightarrow>
          let ns_id = open_named_netns (dr_open orc) ns_name
          in if ns_id = ERROR_NAMESPACE_ID then Some None
             else map_option (\<lambda>tcp_port. Some (dev\<lparr>hd_ns_name := Some ns_name, hd_ns_id := ns_id,
                    hd_udp_node_queue := [], hd_tcp_node_queue := [], hd_free_node_queue := [],
                    hd_tcp_listening_port := (if tcp_port > 0 then tcp_port else 0), hd_tcp_listener := -1\<rparr>))
                    (dev_int ini dev_name ''tcp_listening_port''))"

definition read_hs_dev ::
  "dev_oracle \<Rightarrow> dictionary \<Rightarrow> string \<Rightarrow> (bool \<times> HighSpeedNetDevice option) option" where
  "read_hs_dev orc ini dev_name =
     (if length dev_name > MAX_DEV_NAME then Some (False, None)
      else case dev_string ini dev_name ''ip_addr'' of
        None \<Rightarrow> Some (False, None)
      | Some ip_addr \<Rightarrow>
          (case parse_dev_address ip_addr of
             None \<Rightarrow> Some (False, None)
           | Some addr \<Rightarrow> do {
               dev_id \<leftarrow> dev_int ini dev_name ''dev_id'';
               if dev_id = -1 then Some (False, None)
               else do {
                 dev_type \<leftarrow> dev_int ini dev_name ''dev_type'';
                 if \<not> IS_VALID_HS_NET_DEV_TYPE dev_type then Some (False, None)
                 else do {
                   dev_status \<leftarrow> dev_int ini dev_name ''dev_status'';
                   if \<not> IS_VALID_HS_NET_DEV_STATUS dev_status then Some (False, None)
                   else do {
                     dev \<leftarrow> open_hs_dev orc ini dev_name (cleared_hs_dev\<lparr>hd_dev_id := dev_id,
                        hd_dev_type := dev_type, hd_dev_status := dev_status,
                        hd_name := take (MAX_DEV_NAME - 1) dev_name, hd_address := addr\<rparr>);
                     Some (dev_status = HS_NET_DEV_ACTIVE, dev) } } } }))"


section \<open>The device set\<close>

text \<open>The nodes of a device, or \<open>None\<close> when \<open>malloc\<close> fails for one of them.\<close>

definition alloc_nodes :: "(nat \<Rightarrow> nat option) \<Rightarrow> nat list option" where
  "alloc_nodes node =
     (let ns = map node [0..<MAX_SESS_NODE_NUM] in if None \<in> set ns then None else Some (map the ns))"

definition put_nodes :: "nat list \<Rightarrow> nat option option \<Rightarrow> (nat \<Rightarrow> nat option option) \<Rightarrow> nat \<Rightarrow> nat option option" where
  "put_nodes ns v store n = (if n \<in> set ns then v else store n)"

text \<open>
  The loop over the sections.  The mask is that of the engine and keeps what was set before an
  error; \<open>nodes\<close> is the store of session nodes.  On an error the nodes of the devices done so far are
  freed and so is the set.
\<close>

definition mark_active :: "nat \<Rightarrow> bool \<Rightarrow> u16 \<Rightarrow> u16" where
  "mark_active cnt active amask = (if active then amask OR push_bit cnt 1 else amask)"

definition free_all_nodes :: "nat \<Rightarrow> HighSpeedNetDevice list \<Rightarrow> (nat \<Rightarrow> nat option option) \<Rightarrow> nat \<Rightarrow> nat option option" where
  "free_all_nodes cnt devs nodes = put_nodes (concat (map hd_free_node_queue (take cnt devs))) None nodes"

fun hs_dev_loop ::
  "dev_oracle \<Rightarrow> dictionary \<Rightarrow> nat list \<Rightarrow> u16 \<Rightarrow> HighSpeedNetDevice list \<Rightarrow> (nat \<Rightarrow> nat option option) \<Rightarrow>
   (HighSpeedNetDevice list option \<times> u16 \<times> (nat \<Rightarrow> nat option option)) option" where
  "hs_dev_loop orc ini [] amask devs nodes = Some (Some devs, amask, nodes)"
| "hs_dev_loop orc ini (cnt # rest) amask devs nodes =
     (case iniparser_getsecname (Some ini) (int cnt) of
        None \<Rightarrow> hs_dev_loop orc ini rest amask devs nodes
      | Some dev_name \<Rightarrow>
          (case read_hs_dev orc ini dev_name of
             None \<Rightarrow> None
           | Some (active, None) \<Rightarrow> Some (None, mark_active cnt active amask, free_all_nodes cnt devs nodes)
           | Some (active, Some dev) \<Rightarrow>
               (case alloc_nodes (dr_node orc cnt) of
                  None \<Rightarrow> Some (None, mark_active cnt active amask, free_all_nodes cnt devs nodes)
                | Some ns \<Rightarrow>
                    hs_dev_loop orc ini rest (mark_active cnt active amask)
                      (devs[cnt := dev\<lparr>hd_free_node_queue := ns\<rparr>]) (put_nodes ns (Some None) nodes))))"

text \<open>
  No configuration file means no devices.  Afterwards the dictionary is freed, so the namespace
  names of the devices dangle.
\<close>

definition engine_init_hs_net_dev ::
  "dev_oracle \<Rightarrow> ini_memory \<Rightarrow> string option \<Rightarrow> backend \<Rightarrow> (int \<times> backend) option" where
  "engine_init_hs_net_dev orc mm file st =
     (if \<not> dr_set_ok orc then Some (BACKEND_PROXY_PROCESS_ERROR, st)
      else
        let set0 = replicate MAX_HS_DEV_NUM cleared_hs_dev
        in case iniparser_load mm file of
          None \<Rightarrow> None
        | Some None \<Rightarrow>
            Some (BACKEND_PROXY_PROCESS_OK, st\<lparr>st_eng := (st_eng st)\<lparr>be_dev_set := set0, be_dev_num := 0\<rparr>\<rparr>)
        | Some (Some ini) \<Rightarrow>
            let dev_num = nat (iniparser_getnsec (Some ini))
            in if dev_num = 0 \<or> dev_num > MAX_HS_DEV_NUM then Some (BACKEND_PROXY_PROCESS_ERROR, st)
               else
                 (case hs_dev_loop orc ini [0..<dev_num] 0 set0 (st_node st) of
                    None \<Rightarrow> None
                  | Some (None, amask, nodes) \<Rightarrow>
                      Some (BACKEND_PROXY_PROCESS_ERROR,
                        st\<lparr>st_eng := (st_eng st)\<lparr>be_active_mask := amask\<rparr>, st_node := nodes\<rparr>)
                  | Some (Some devs, amask, nodes) \<Rightarrow>
                      Some (BACKEND_PROXY_PROCESS_OK,
                        st\<lparr>st_eng := (st_eng st)\<lparr>be_dev_set := map (\<lambda>d. d\<lparr>hd_ns_name := None\<rparr>) devs,
                             be_dev_num := of_nat dev_num, be_active_mask := amask\<rparr>,
                           st_node := nodes\<rparr>)))"


section \<open>Listening sockets\<close>

text \<open>
  The kernel: the descriptor \<open>socket\<close> returns, and whether \<open>bind\<close> to an address and port in network
  byte order and \<open>listen\<close> succeed.
\<close>

record listen_kernel =
  lk_socket :: int
  lk_bind :: "u32 \<Rightarrow> u16 \<Rightarrow> bool"
  lk_listen :: bool

definition create_hs_net_dev_tcp_listener ::
  "listen_kernel \<Rightarrow> bool \<Rightarrow> HighSpeedNetDevice option \<Rightarrow> int \<Rightarrow> int \<times> HighSpeedNetDevice option \<times> sys_event list" where
  "create_hs_net_dev_tcp_listener k eng_set hs_dev ip_version =
     (case hs_dev of
        None \<Rightarrow> (BACKEND_PROXY_PROCESS_ERROR, None, [])
      | Some dev \<Rightarrow>
          if \<not> eng_set then (BACKEND_PROXY_PROCESS_ERROR, hs_dev, [])
          else if hd_tcp_listening_port dev \<le> 0
          then (BACKEND_PROXY_PROCESS_ERROR, Some (dev\<lparr>hd_tcp_listening_port := -1\<rparr>), [])
          else if ip_version \<noteq> uint SESS_IPV4_PROTO then (BACKEND_PROXY_PROCESS_ERROR, hs_dev, [])
          else if lk_socket k = -1 then (BACKEND_PROXY_PROCESS_ERROR, hs_dev, [])
          else if \<not> lk_bind k (COPY_IPV4_TO_IN (hd_address dev)) (htons (word_of_int (hd_tcp_listening_port dev)))
               \<or> \<not> lk_listen k
          then (BACKEND_PROXY_PROCESS_ERROR, hs_dev, [Ev_close (lk_socket k)])
          else (BACKEND_PROXY_PROCESS_OK, Some (dev\<lparr>hd_tcp_listener := lk_socket k\<rparr>), [Ev_nonblocking (lk_socket k)]))"

end
