(* ===== verification/Hs_Device_Lemmas.thy ===== *)
theory Hs_Device_Lemmas
  imports Hs_Device_Config
begin

text \<open>
  Properties of the device configuration: the set that is built from a file, what is left after a
  refused device, listening sockets.
\<close>

section \<open>The loop\<close>

lemma section_name:
  "i < length (section_names ini) \<Longrightarrow> iniparser_getsecname (Some ini) (int i) = Some (section_names ini ! i)"
  by (simp add: iniparser_getsecname_def)

lemma put_nodes_nil [simp]: "put_nodes [] v store = store"
  by (rule ext) (simp add: put_nodes_def)

lemma put_nodes_append: "put_nodes (a @ b) v store = put_nodes b v (put_nodes a v store)"
  by (auto simp: put_nodes_def)

lemma put_nodes_undo:
  "\<forall>n \<in> set ns. store n = None \<Longrightarrow> put_nodes ns None (put_nodes ns v store) = store"
  by (auto simp: put_nodes_def)

definition node_lists :: "HighSpeedNetDevice list \<Rightarrow> nat list" where
  "node_lists devs = concat (map hd_free_node_queue devs)"

lemma take_Suc_update:
  "i < length xs \<Longrightarrow> take (Suc i) (xs[i := x]) = take i xs @ [x]"
  by (simp add: take_Suc_conv_app_nth)

lemma node_lists_step:
  assumes "cnt < length devs"
  shows "node_lists (take (Suc cnt) (devs[cnt := d])) = node_lists (take cnt devs) @ hd_free_node_queue d"
  using assms by (simp add: node_lists_def take_Suc_update)

lemma alloc_nodes_from:
  assumes "alloc_nodes f = Some ns"
  shows "length ns = MAX_SESS_NODE_NUM" "n \<in> set ns \<Longrightarrow> \<exists>j. f j = Some n"
proof -
  have ns: "None \<notin> f ` {0..<MAX_SESS_NODE_NUM}" "ns = map (\<lambda>j. the (f j)) [0..<MAX_SESS_NODE_NUM]"
    using assms by (auto simp: alloc_nodes_def Let_def split: if_splits)
  then show "length ns = MAX_SESS_NODE_NUM" by simp
  show "\<exists>j. f j = Some n" if n: "n \<in> set ns"
  proof -
    obtain j where "j < MAX_SESS_NODE_NUM" "n = the (f j)" using n unfolding ns(2) by auto
    moreover from this ns(1) obtain m where "f j = Some m" by (cases "f j") force+
    ultimately show ?thesis by auto
  qed
qed

text \<open>After a refused device no session node is left over.\<close>

lemma hs_dev_loop_refused:
  assumes "hs_dev_loop orc ini [cnt..<num] amask devs nodes = Some (None, m', nodes')"
    and "\<forall>i j n. dr_node orc i j = Some n \<longrightarrow> nodes0 n = None"
    and "num \<le> length devs" "\<forall>n \<in> set (node_lists (take cnt devs)). nodes0 n = None"
    and "nodes = put_nodes (node_lists (take cnt devs)) (Some None) nodes0"
    and "num \<le> length (section_names ini)"
  shows "nodes' = nodes0"
  using assms
proof (induction "num - cnt" arbitrary: cnt amask devs nodes)
  case 0
  then show ?case by simp
next
  case (Suc k)
  have cnt: "cnt < num" using Suc.hyps(2) by simp
  have undo: "free_all_nodes cnt devs nodes = nodes0"
    using Suc.prems(4,5) by (simp add: free_all_nodes_def node_lists_def [symmetric] put_nodes_undo)
  note loop = Suc.prems(1) [unfolded upt_conv_Cons [OF cnt] hs_dev_loop.simps]
  have next_dev: "nodes' = nodes0"
    if "alloc_nodes (dr_node orc cnt) = Some ns"
      "hs_dev_loop orc ini [Suc cnt..<num] a (devs[cnt := d\<lparr>hd_free_node_queue := ns\<rparr>])
         (put_nodes ns (Some None) nodes) = Some (None, m', nodes')" for ns d a
  proof (rule Suc.hyps(1) [OF _ that(2) Suc.prems(2) _ _ _ Suc.prems(6)])
    let ?devs = "devs[cnt := d\<lparr>hd_free_node_queue := ns\<rparr>]"
    have len: "cnt < length devs" using cnt Suc.prems(3) by simp
    show "k = num - Suc cnt" using Suc.hyps(2) by simp
    show "num \<le> length ?devs" using Suc.prems(3) by simp
    show "\<forall>n \<in> set (node_lists (take (Suc cnt) ?devs)). nodes0 n = None"
      using Suc.prems(2,4) alloc_nodes_from(2) [OF that(1)] by (fastforce simp: node_lists_step [OF len])
    show "put_nodes ns (Some None) nodes = put_nodes (node_lists (take (Suc cnt) ?devs)) (Some None) nodes0"
      using Suc.prems(5) by (simp add: node_lists_step [OF len] put_nodes_append)
  qed
  have "iniparser_getsecname (Some ini) (int cnt) = Some (section_names ini ! cnt)"
    using cnt Suc.prems(6) by (intro section_name) simp
  then show ?case
    using loop undo next_dev by (auto split: option.splits prod.splits)
qed

lemma bit_mark_active:
  fixes m :: u16
  assumes "cnt < 16"
  shows "bit (mark_active cnt a m) i \<longleftrightarrow> bit m i \<or> a \<and> i = cnt"
  using assms by (auto simp: mark_active_def bit_or_iff bit_exp_iff)

text \<open>What a complete run of the loop has put into place \<open>i\<close>, and into the mask.\<close>

definition placed ::
  "dev_oracle \<Rightarrow> dictionary \<Rightarrow> nat \<Rightarrow> HighSpeedNetDevice \<Rightarrow> bool \<Rightarrow> bool" where
  "placed orc ini i d a \<longleftrightarrow>
     (\<exists>d0 ns. read_hs_dev orc ini (section_names ini ! i) = Some (a, Some d0)
        \<and> alloc_nodes (dr_node orc i) = Some ns \<and> d = d0\<lparr>hd_free_node_queue := ns\<rparr>)"

lemma hs_dev_loop_done:
  assumes "hs_dev_loop orc ini [cnt..<num] amask devs nodes = Some (Some devs', m', nodes')"
    and "num \<le> length devs" "num \<le> length (section_names ini)" "num \<le> 16"
  shows "length devs' = length devs \<and> (\<forall>i. i < cnt \<or> num \<le> i \<longrightarrow> devs' ! i = devs ! i \<and> bit m' i = bit amask i)
    \<and> (\<forall>i. cnt \<le> i \<and> i < num \<longrightarrow> (\<exists>a. placed orc ini i (devs' ! i) a \<and> bit m' i = (bit amask i \<or> a)))
    \<and> nodes' = put_nodes (node_lists (drop cnt (take num devs'))) (Some None) nodes"
  using assms(1,2)
proof (induction "num - cnt" arbitrary: cnt amask devs nodes)
  case 0
  then show ?case by (auto simp: node_lists_def put_nodes_def)
next
  case (Suc k)
  have cnt: "cnt < num" "cnt < length devs" "cnt < 16" using Suc.hyps(2) Suc.prems(2) assms(4) by auto
  have "iniparser_getsecname (Some ini) (int cnt) = Some (section_names ini ! cnt)"
    using cnt assms(3) by (intro section_name) simp
  with Suc.prems(1) [unfolded upt_conv_Cons [OF cnt(1)] hs_dev_loop.simps]
  obtain a d ns where D: "read_hs_dev orc ini (section_names ini ! cnt) = Some (a, Some d)"
    "alloc_nodes (dr_node orc cnt) = Some ns"
    "hs_dev_loop orc ini [Suc cnt..<num] (mark_active cnt a amask) (devs[cnt := d\<lparr>hd_free_node_queue := ns\<rparr>])
       (put_nodes ns (Some None) nodes) = Some (Some devs', m', nodes')"
    by (auto split: option.splits prod.splits)
  let ?d = "d\<lparr>hd_free_node_queue := ns\<rparr>"
  have "k = num - Suc cnt" using Suc.hyps(2) by simp
  from Suc.hyps(1) [OF this D(3)] Suc.prems(2)
  have IH: "length devs' = length devs"
    "\<And>i. i < Suc cnt \<or> num \<le> i \<Longrightarrow> devs' ! i = devs[cnt := ?d] ! i \<and> bit m' i = bit (mark_active cnt a amask) i"
    "\<And>i. Suc cnt \<le> i \<Longrightarrow> i < num \<Longrightarrow>
       \<exists>b. placed orc ini i (devs' ! i) b \<and> bit m' i = (bit (mark_active cnt a amask) i \<or> b)"
    "nodes' = put_nodes (node_lists (drop (Suc cnt) (take num devs'))) (Some None) (put_nodes ns (Some None) nodes)"
    by auto
  have here: "devs' ! cnt = ?d" "bit m' cnt = (bit amask cnt \<or> a)"
    using IH(2) [of cnt] cnt by (auto simp: bit_mark_active)
  have "drop cnt (take num devs') = ?d # drop (Suc cnt) (take num devs')"
    using cnt IH(1) here(1) Suc.prems(2) by (simp add: Cons_nth_drop_Suc [symmetric])
  then have "nodes' = put_nodes (node_lists (drop cnt (take num devs'))) (Some None) nodes"
    using IH(4) by (simp add: node_lists_def put_nodes_append)
  moreover have "placed orc ini cnt (devs' ! cnt) a" using D(1,2) here(1) by (auto simp: placed_def)
  moreover have "devs' ! i = devs ! i \<and> bit m' i = bit amask i" if "i < cnt \<or> num \<le> i" for i
    using IH(2) [of i] that cnt by (auto simp: bit_mark_active)
  moreover have "\<exists>b. placed orc ini i (devs' ! i) b \<and> bit m' i = (bit amask i \<or> b)" if "cnt < i" "i < num" for i
    using IH(3) [of i] that cnt by (auto simp: bit_mark_active)
  ultimately show ?case
    using IH(1) here(2) by (metis nless_le)
qed


section \<open>The engine\<close>

text \<open>A device as it is before any session uses it.\<close>

definition unused_dev :: "HighSpeedNetDevice \<Rightarrow> bool" where
  "unused_dev d \<longleftrightarrow> hd_dev_id d \<noteq> -1 \<and> IS_VALID_HS_NET_DEV_TYPE (hd_dev_type d)
     \<and> IS_VALID_HS_NET_DEV_STATUS (hd_dev_status d) \<and> 0 \<le> hd_ns_id d
     \<and> hd_udp_node_queue d = [] \<and> hd_tcp_node_queue d = [] \<and> length (hd_free_node_queue d) = MAX_SESS_NODE_NUM
     \<and> hd_tcp_listener d = -1 \<and> length (hd_address d) = 16"

lemma inet_pton6_length: "inet_pton6 s = Some bs \<Longrightarrow> length bs = 16"
  by (auto simp: inet_pton6_def bind_eq_Some_conv split: option.splits prod.splits if_splits)

lemma parse_dev_address_length: "parse_dev_address s = Some a \<Longrightarrow> length a = 16"
  using inet_pton6_length [of s]
  by (auto simp: parse_dev_address_def overwrite_def COPY_IN_TO_IPV4_def Let_def split: if_splits)

lemma open_hs_dev_spec:
  assumes "open_hs_dev orc ini s dev = Some (Some d)"
  shows "0 \<le> hd_ns_id d \<and> hd_udp_node_queue d = [] \<and> hd_tcp_node_queue d = [] \<and> hd_tcp_listener d = -1
    \<and> hd_dev_id d = hd_dev_id dev \<and> hd_dev_type d = hd_dev_type dev \<and> hd_dev_status d = hd_dev_status dev
    \<and> hd_name d = hd_name dev \<and> hd_address d = hd_address dev"
  using assms
  by (auto simp: open_hs_dev_def open_named_netns_def Let_def dev_codes proxy_codes split: if_splits option.splits)

lemma read_hs_dev_elim:
  assumes "read_hs_dev orc ini s = Some (a, Some d)"
  obtains ip_addr addr i ty st where
    "dev_string ini s ''ip_addr'' = Some ip_addr" "parse_dev_address ip_addr = Some addr"
    "dev_int ini s ''dev_id'' = Some i" "i \<noteq> -1" "IS_VALID_HS_NET_DEV_TYPE ty" "IS_VALID_HS_NET_DEV_STATUS st"
    "a = (st = HS_NET_DEV_ACTIVE)"
    "open_hs_dev orc ini s (cleared_hs_dev\<lparr>hd_dev_id := i, hd_dev_type := ty, hd_dev_status := st,
       hd_name := take (MAX_DEV_NAME - 1) s, hd_address := addr\<rparr>) = Some (Some d)"
  using assms unfolding read_hs_dev_def
  by (simp split: if_splits option.splits add: bind_eq_Some_conv) blast

lemma placed_unused:
  assumes "placed orc ini i d a"
  shows "unused_dev d \<and> a = (hd_dev_status d = HS_NET_DEV_ACTIVE)"
proof -
  obtain d0 ns where P: "read_hs_dev orc ini (section_names ini ! i) = Some (a, Some d0)"
    "alloc_nodes (dr_node orc i) = Some ns" "d = d0\<lparr>hd_free_node_queue := ns\<rparr>"
    using assms by (auto simp: placed_def)
  from P(1) show ?thesis
  proof (rule read_hs_dev_elim)
    fix ip_addr addr j ty st
    assume R: "parse_dev_address ip_addr = Some addr" "j \<noteq> -1" "IS_VALID_HS_NET_DEV_TYPE ty"
      "IS_VALID_HS_NET_DEV_STATUS st" "a = (st = HS_NET_DEV_ACTIVE)"
      "open_hs_dev orc ini (section_names ini ! i) (cleared_hs_dev\<lparr>hd_dev_id := j, hd_dev_type := ty, hd_dev_status := st,
       hd_name := take (MAX_DEV_NAME - 1) (section_names ini ! i), hd_address := addr\<rparr>) = Some (Some d0)"
    show ?thesis
      using open_hs_dev_spec [OF R(6)] R alloc_nodes_from(1) [OF P(2)] parse_dev_address_length [OF R(1)]
      unfolding P(3) by (simp add: unused_dev_def)
  qed
qed

lemma init_ok_cases:
  assumes "engine_init_hs_net_dev orc mm file st = Some (BACKEND_PROXY_PROCESS_OK, st')"
  obtains (no_file) "iniparser_load mm file = Some None"
      "st' = st\<lparr>st_eng := (st_eng st)\<lparr>be_dev_set := replicate MAX_HS_DEV_NUM cleared_hs_dev, be_dev_num := 0\<rparr>\<rparr>"
  | (loaded) ini devs m nodes where "iniparser_load mm file = Some (Some ini)"
      "0 < length (section_names ini)" "length (section_names ini) \<le> MAX_HS_DEV_NUM"
      "hs_dev_loop orc ini [0..<length (section_names ini)] 0 (replicate MAX_HS_DEV_NUM cleared_hs_dev) (st_node st)
         = Some (Some devs, m, nodes)"
      "st' = st\<lparr>st_eng := (st_eng st)\<lparr>be_dev_set := map (\<lambda>d. d\<lparr>hd_ns_name := None\<rparr>) devs,
         be_dev_num := of_nat (length (section_names ini)), be_active_mask := m\<rparr>, st_node := nodes\<rparr>"
  using assms unfolding engine_init_hs_net_dev_def Let_def
  by (auto simp: proxy_codes iniparser_getnsec_def split: if_splits option.splits prod.splits)

lemma placed_name: "placed orc ini i d a \<Longrightarrow> hd_name d = take 31 (section_names ini ! i)"
  by (auto simp: placed_def MAX_DEV_NAME_def elim!: read_hs_dev_elim dest!: open_hs_dev_spec)

lemma hs_devices_spec:
  assumes "engine_init_hs_net_dev orc mm file st = Some (BACKEND_PROXY_PROCESS_OK, st')"
    and "be_active_mask (st_eng st) = 0"
  shows "\<exists>names. unat (be_dev_num (st_eng st')) = length names \<and> length names \<le> MAX_HS_DEV_NUM
    \<and> (case iniparser_load mm file of Some (Some ini) \<Rightarrow> names = section_names ini | _ \<Rightarrow> names = [])
    \<and> length (be_dev_set (st_eng st')) = MAX_HS_DEV_NUM
    \<and> (\<forall>i < length names. unused_dev (get_dev i st') \<and> hd_name (get_dev i st') = take 31 (names ! i))
    \<and> (\<forall>i. bit (be_active_mask (st_eng st')) i \<longleftrightarrow>
         i < length names \<and> hd_dev_status (get_dev i st') = HS_NET_DEV_ACTIVE)"
  using assms(1)
proof (cases rule: init_ok_cases)
  case no_file
  then show ?thesis using assms(2) by simp
next
  case (loaded ini devs m nodes)
  let ?n = "length (section_names ini)"
  have "unat (of_nat ?n :: u16) = ?n" using loaded(3) by (simp add: unsigned_of_nat take_bit_nat_eq_self dev_codes)
  moreover from hs_dev_loop_done [OF loaded(4)] loaded(3)
  have L: "length devs = MAX_HS_DEV_NUM" "\<And>i. ?n \<le> i \<Longrightarrow> \<not> bit m i"
    "\<And>i. i < ?n \<Longrightarrow> \<exists>a. placed orc ini i (devs ! i) a \<and> bit m i = a"
    by (auto simp: dev_codes)
  moreover have dev: "get_dev i st' = (devs ! i)\<lparr>hd_ns_name := None\<rparr>" if "i < ?n" for i
    using that loaded(3,5) L(1) by (simp add: get_dev_def)
  moreover have "unused_dev (get_dev i st') \<and> hd_name (get_dev i st') = take 31 (section_names ini ! i)
      \<and> bit m i = (hd_dev_status (get_dev i st') = HS_NET_DEV_ACTIVE)" if "i < ?n" for i
    using L(3) [OF that] placed_unused [of orc ini i "devs ! i"] placed_name [of orc ini i "devs ! i"]
    unfolding dev [OF that] by (auto simp: unused_dev_def)
  moreover have "bit m i \<longleftrightarrow> i < ?n \<and> hd_dev_status (get_dev i st') = HS_NET_DEV_ACTIVE" for i
    using L(2) [of i] calculation(6) [of i] by (cases "i < ?n") auto
  ultimately have "unat (be_dev_num (st_eng st')) = ?n \<and> length (be_dev_set (st_eng st')) = MAX_HS_DEV_NUM
    \<and> (\<forall>i < ?n. unused_dev (get_dev i st') \<and> hd_name (get_dev i st') = take 31 (section_names ini ! i))
    \<and> (\<forall>i. bit (be_active_mask (st_eng st')) i \<longleftrightarrow> i < ?n \<and> hd_dev_status (get_dev i st') = HS_NET_DEV_ACTIVE)"
    using loaded(5) by simp
  then show ?thesis using loaded(1,3) by (intro exI [of _ "section_names ini"]) simp
qed





section \<open>A concrete configuration\<close>

lemma single_section:
  assumes "dict_inv d" "{k \<in> dom (dict_map d). CHR '':'' \<notin> set k} = {s}"
  shows "section_names d = [s]"
proof (rule distinct_singleton)
  show "distinct (section_names d)"
    using dict_keys_distinct [OF assms(1)] by (simp add: section_names_def)
  show "set (section_names d) = {s}"
    using assms(2) dict_keys_iff [OF assms(1)] by (auto simp: section_names_def domIff)
qed

definition dev_value :: "dictionary \<Rightarrow> string \<Rightarrow> string \<Rightarrow> string option option" where
  "dev_value d s item = dict_map d (map tolower (dev_pro_item s item))"

lemma lower_dev_item: "strlwc (Some (dev_pro_item s item)) (ASCIILINESZ + 1) = Some (map tolower (dev_pro_item s item))"
  by (simp add: strlwc_def ASCIILINESZ_def dev_pro_item_def MAX_DEV_NAME_def MAX_DEVICE_PROPERTY_NAME_LENGTH_def)

lemma dev_string_value: "dev_string d s item = (case dev_value d s item of None \<Rightarrow> None | Some v \<Rightarrow> v)"
  using lower_dev_item [of s item]
  by (simp add: dev_string_def iniparser_getstring_def dictionary_get_def dev_value_def dict_map_def split: option.split)

lemma dev_int_value:
  "dev_int d s item = (case dev_value d s item of None \<Rightarrow> Some (-1)
     | Some v \<Rightarrow> map_option (\<lambda>s. signed_take_bit 31 (strtol s)) v)"
  using lower_dev_item [of s item]
  by (simp add: dev_int_def iniparser_getint_def iniparser_getlongint_def find_string_def dev_value_def dict_map_def
      option.map_comp comp_def split: option.split)

definition sample_hs_items :: "ini_item list" where
  "sample_hs_items = [Section_line ''eth0'', Entry_line ''ip_addr'' ''10.0.0.1'', Entry_line ''dev_id'' ''0'',
     Entry_line ''dev_type'' ''0'', Entry_line ''dev_status'' ''1'', Entry_line ''ns_name'' ''ns1'']"

definition sample_hs_file :: string where
  "sample_hs_file = concat (map render sample_hs_items)"

definition sample_hs_dict :: dictionary where
  "sample_hs_dict = the (the (iniparser_load all_memory (Some sample_hs_file)))"

definition sample_dev_oracle :: "int \<Rightarrow> dev_oracle" where
  "sample_dev_oracle fd = \<lparr>dr_set_ok = True, dr_open = (\<lambda>_. fd), dr_node = (\<lambda>i j. Some (200 + 10 * i + j))\<rparr>"

lemma sample_hs_load:
  "iniparser_load all_memory (Some sample_hs_file) = Some (Some sample_hs_dict)"
  "dict_inv sample_hs_dict"
  "dict_map sample_hs_dict = [''eth0'' \<mapsto> None, ''eth0:ip_addr'' \<mapsto> Some ''10.0.0.1'', ''eth0:dev_id'' \<mapsto> Some ''0'',
     ''eth0:dev_type'' \<mapsto> Some ''0'', ''eth0:dev_status'' \<mapsto> Some ''1'', ''eth0:ns_name'' \<mapsto> Some ''ns1'']"
proof -
  have "list_all wf_item sample_hs_items" by code_simp
  from load_render [OF this all_memory_ok] obtain d where
    "iniparser_load all_memory (Some sample_hs_file) = Some (Some d)" "dict_inv d"
    "dict_map d = snd (fold apply_item sample_hs_items ([], Map.empty))"
    by (auto simp: sample_hs_file_def)
  then show "iniparser_load all_memory (Some sample_hs_file) = Some (Some sample_hs_dict)"
    "dict_inv sample_hs_dict"
    "dict_map sample_hs_dict = [''eth0'' \<mapsto> None, ''eth0:ip_addr'' \<mapsto> Some ''10.0.0.1'', ''eth0:dev_id'' \<mapsto> Some ''0'',
       ''eth0:dev_type'' \<mapsto> Some ''0'', ''eth0:dev_status'' \<mapsto> Some ''1'', ''eth0:ns_name'' \<mapsto> Some ''ns1'']"
    by (simp_all add: sample_hs_dict_def sample_hs_items_def)
qed

lemma sample_hs_sections: "section_names sample_hs_dict = [''eth0'']"
  by (rule single_section [OF sample_hs_load(2)]) (auto simp: sample_hs_load(3))

lemma sample_hs_values:
  "dev_value sample_hs_dict ''eth0'' ''ip_addr'' = Some (Some ''10.0.0.1'')"
  "dev_value sample_hs_dict ''eth0'' ''dev_id'' = Some (Some ''0'')"
  "dev_value sample_hs_dict ''eth0'' ''dev_type'' = Some (Some ''0'')"
  "dev_value sample_hs_dict ''eth0'' ''dev_status'' = Some (Some ''1'')"
  "dev_value sample_hs_dict ''eth0'' ''ns_name'' = Some (Some ''ns1'')"
  "dev_value sample_hs_dict ''eth0'' ''tcp_listening_port'' = None"
proof -
  have low: "map tolower (dev_pro_item ''eth0'' n) = ''eth0:'' @ n"
    if "n \<in> {''ip_addr'', ''dev_id'', ''dev_type'', ''dev_status'', ''ns_name'', ''tcp_listening_port''}" for n
    using that by (elim insertE emptyE; simp only:; code_simp)
  show "dev_value sample_hs_dict ''eth0'' ''ip_addr'' = Some (Some ''10.0.0.1'')"
    "dev_value sample_hs_dict ''eth0'' ''dev_id'' = Some (Some ''0'')"
    "dev_value sample_hs_dict ''eth0'' ''dev_type'' = Some (Some ''0'')"
    "dev_value sample_hs_dict ''eth0'' ''dev_status'' = Some (Some ''1'')"
    "dev_value sample_hs_dict ''eth0'' ''ns_name'' = Some (Some ''ns1'')"
    "dev_value sample_hs_dict ''eth0'' ''tcp_listening_port'' = None"
    unfolding dev_value_def sample_hs_load(3) by (simp_all add: low)
qed

lemma sample_hs_read:
  "\<exists>d. read_hs_dev (sample_dev_oracle 9) sample_hs_dict ''eth0'' = Some (True, Some d)"
  "read_hs_dev (sample_dev_oracle (-1)) sample_hs_dict ''eth0'' = Some (True, None)"
proof -
  have "strtol ''0'' = 0" "strtol ''1'' = 1" "parse_dev_address ''10.0.0.1'' \<noteq> None" by code_simp+
  then show "\<exists>d. read_hs_dev (sample_dev_oracle 9) sample_hs_dict ''eth0'' = Some (True, Some d)"
    "read_hs_dev (sample_dev_oracle (-1)) sample_hs_dict ''eth0'' = Some (True, None)"
    by (auto simp: read_hs_dev_def open_hs_dev_def open_named_netns_def dev_string_value dev_int_value sample_hs_values
        sample_dev_oracle_def MAX_DEV_NAME_def IS_VALID_HS_NET_DEV_TYPE_def IS_VALID_HS_NET_DEV_STATUS_def dev_codes
        proxy_codes Let_def)
qed

lemma sample_hs_runs:
  "\<exists>st'. engine_init_hs_net_dev (sample_dev_oracle 9) all_memory (Some sample_hs_file) st
     = Some (BACKEND_PROXY_PROCESS_OK, st')"
  "\<exists>st'. engine_init_hs_net_dev (sample_dev_oracle (-1)) all_memory (Some sample_hs_file) st
     = Some (BACKEND_PROXY_PROCESS_ERROR, st')"
proof -
  have "\<exists>ns. alloc_nodes (dr_node (sample_dev_oracle 9) 0) = Some ns"
    by (auto simp: alloc_nodes_def sample_dev_oracle_def Let_def)
  moreover have "iniparser_getsecname (Some sample_hs_dict) 0 = Some ''eth0''"
    using section_name [of 0 sample_hs_dict] by (simp add: sample_hs_sections)
  moreover have "iniparser_getnsec (Some sample_hs_dict) = 1" by (simp add: iniparser_getnsec_def sample_hs_sections)
  moreover have "dr_set_ok (sample_dev_oracle fd)" for fd by (simp add: sample_dev_oracle_def)
  ultimately show "\<exists>st'. engine_init_hs_net_dev (sample_dev_oracle 9) all_memory (Some sample_hs_file) st
     = Some (BACKEND_PROXY_PROCESS_OK, st')"
    "\<exists>st'. engine_init_hs_net_dev (sample_dev_oracle (-1)) all_memory (Some sample_hs_file) st
     = Some (BACKEND_PROXY_PROCESS_ERROR, st')"
    using sample_hs_read
    by (auto simp: engine_init_hs_net_dev_def sample_hs_load(1) dev_codes Let_def upt_rec)
qed



end
