(* ===== verification/Iot_Startup.thy ===== *)
theory Iot_Startup
  imports Hs_Device_Lemmas
begin

text \<open>
  Starting IoT sessions (\<open>src/src/session.c\<close>, \<open>src/src/engine.c\<close>): one session at most for each
  protocol, opened for the configured devices that are online, and their clean-up.
\<close>

section \<open>Sessions of one device\<close>

text \<open>
  What the system answers while the session of a device is started: the memory from \<open>malloc\<close> with
  its indeterminate contents, the descriptor of the socket, the success of the calls on it, and the
  results of the Modbus library (a context for a port, the connection).
\<close>

record iot_kernel =
  ik_malloc :: "IoTBackendSession option"
  ik_socket :: int
  ik_flags_ok :: bool
  ik_up :: bool
  ik_index_ok :: bool
  ik_bind :: bool
  ik_listen :: bool
  ik_connect :: bool
  ik_getfl :: bool
  ik_setfl :: bool
  ik_modbus_new :: "u16 \<Rightarrow> bool"
  ik_modbus_connect :: bool

text \<open>A device is given with its place in the table; the result is the code, the session and the events.\<close>

definition bind_iot_session :: "u16 \<Rightarrow> nat \<Rightarrow> IoTBackendSession \<Rightarrow> IoTBackendSession" where
  "bind_iot_session ty i s = s\<lparr>is_bound_dev := Some i, is_sess_type := ty\<rparr>"

definition set_bluetooth_fds :: "int \<Rightarrow> int \<Rightarrow> IoTBackendSession \<Rightarrow> IoTBackendSession" where
  "set_bluetooth_fds mode sk s =
     (if mode = IOT_WORK_MODE_CLIENT then s\<lparr>is_working_mode := mode, is_dev_fd := sk, is_listen_fd := -1\<rparr>
      else s\<lparr>is_working_mode := mode, is_dev_fd := -1, is_listen_fd := sk\<rparr>)"

definition engine_init_bluetooth_session ::
  "iot_kernel \<Rightarrow> (nat \<times> IotDevice) option \<Rightarrow> IoTBackendSession option \<Rightarrow> int \<times> IoTBackendSession option \<times> sys_event list" where
  "engine_init_bluetooth_session k dev sess =
     (case (dev, sess) of
        (Some (i, d), Some s) \<Rightarrow>
          let s1 = bind_iot_session IOT_PROTO_TYPE_BLUETOOTH i s;
              sk = ik_socket k;
              mode = working_mode (iv_config d)
          in if sk < 0 then (BACKEND_PROXY_PROCESS_ERROR, Some s1, [])
             else if \<not> ik_bind k
               \<or> mode = IOT_WORK_MODE_SERVER \<and> \<not> ik_listen k
               \<or> mode = IOT_WORK_MODE_CLIENT \<and> \<not> ik_connect k
               \<or> mode \<noteq> IOT_WORK_MODE_SERVER \<and> mode \<noteq> IOT_WORK_MODE_CLIENT
               \<or> \<not> ik_getfl k
               \<or> \<not> ik_setfl k
             then (BACKEND_PROXY_PROCESS_ERROR, Some s1, [Ev_close sk])
             else (BACKEND_PROXY_PROCESS_OK, Some (set_bluetooth_fds mode sk s1), [Ev_nonblocking sk])
      | _ \<Rightarrow> (BACKEND_PROXY_PROCESS_ERROR, sess, []))"

text \<open>Only a CAN client gets a non-blocking socket.\<close>

definition engine_init_can_session ::
  "iot_kernel \<Rightarrow> (nat \<times> IotDevice) option \<Rightarrow> IoTBackendSession option \<Rightarrow> int \<times> IoTBackendSession option \<times> sys_event list" where
  "engine_init_can_session k dev sess =
     (case (dev, sess) of
        (Some (i, d), Some s) \<Rightarrow>
          let s1 = bind_iot_session IOT_PROTO_TYPE_CAN i s;
              sk = ik_socket k;
              mode = working_mode (iv_config d)
          in if sk < 0 then (BACKEND_PROXY_PROCESS_ERROR, Some s1, [])
             else if \<not> ik_flags_ok k \<or> \<not> ik_up k \<or> \<not> ik_index_ok k
               \<or> mode \<noteq> IOT_WORK_MODE_SERVER \<and> mode \<noteq> IOT_WORK_MODE_CLIENT
               \<or> \<not> ik_bind k
               \<or> mode = IOT_WORK_MODE_CLIENT \<and> (\<not> ik_getfl k \<or> \<not> ik_setfl k)
             then (BACKEND_PROXY_PROCESS_ERROR, Some s1, [Ev_close sk])
             else (BACKEND_PROXY_PROCESS_OK, Some (s1\<lparr>is_working_mode := mode, is_dev_fd := sk\<rparr>),
                   if mode = IOT_WORK_MODE_CLIENT then [Ev_nonblocking sk] else [])
      | _ \<Rightarrow> (BACKEND_PROXY_PROCESS_ERROR, sess, []))"

definition engine_init_zigbee_session ::
  "(nat \<times> IotDevice) option \<Rightarrow> IoTBackendSession option \<Rightarrow> int \<times> IoTBackendSession option" where
  "engine_init_zigbee_session dev sess =
     (case (dev, sess) of
        (Some (i, d), Some s) \<Rightarrow> (BACKEND_PROXY_PROCESS_OK, Some (bind_iot_session IOT_PROTO_TYPE_ZIGBEE i s))
      | _ \<Rightarrow> (BACKEND_PROXY_PROCESS_ERROR, sess))"

definition engine_init_lora_session ::
  "(nat \<times> IotDevice) option \<Rightarrow> IoTBackendSession option \<Rightarrow> int \<times> IoTBackendSession option" where
  "engine_init_lora_session dev sess =
     (case (dev, sess) of
        (Some (i, d), Some s) \<Rightarrow> (BACKEND_PROXY_PROCESS_OK, Some (bind_iot_session IOT_PROTO_TYPE_LORA i s))
      | _ \<Rightarrow> (BACKEND_PROXY_PROCESS_ERROR, sess))"

definition engine_init_powerlink_session ::
  "(nat \<times> IotDevice) option \<Rightarrow> IoTBackendSession option \<Rightarrow> int \<times> IoTBackendSession option" where
  "engine_init_powerlink_session dev sess =
     (case (dev, sess) of
        (Some (i, d), Some s) \<Rightarrow> (BACKEND_PROXY_PROCESS_OK, Some (bind_iot_session IOT_PROTO_TYPE_POWERLINK i s))
      | _ \<Rightarrow> (BACKEND_PROXY_PROCESS_ERROR, sess))"

definition mb_port_of :: "IotDevice \<Rightarrow> u16" where
  "mb_port_of d = (case iv_specific_attr d of Mb_attr a \<Rightarrow> mb_port a | _ \<Rightarrow> 0)"

definition engine_init_modbustcp_session ::
  "iot_kernel \<Rightarrow> (nat \<times> IotDevice) option \<Rightarrow> IoTBackendSession option \<Rightarrow> int \<times> IoTBackendSession option" where
  "engine_init_modbustcp_session k dev sess =
     (case (dev, sess) of
        (Some (i, d), Some s) \<Rightarrow>
          let s1 = (bind_iot_session IOT_PROTO_TYPE_MODBUSTCP i s)\<lparr>is_sess_state := IOT_SESS_STATE_IDLE, is_pri_data := False\<rparr>;
              mode = working_mode (iv_config d)
          in if mode \<noteq> IOT_WORK_MODE_CLIENT \<or> \<not> ik_modbus_new k (mb_port_of d) \<or> \<not> ik_modbus_connect k
             then (BACKEND_PROXY_PROCESS_ERROR, Some s1)
             else (BACKEND_PROXY_PROCESS_OK, Some (s1\<lparr>is_pri_data := True, is_working_mode := mode\<rparr>))
      | _ \<Rightarrow> (BACKEND_PROXY_PROCESS_ERROR, sess))"


section \<open>Sessions of all devices\<close>

definition no_iot_sessions :: iot_sessions where
  "no_iot_sessions = \<lparr>backend_bluetooth_sess = None, backend_can_sess = None, backend_zigbee_sess = None,
     backend_lora_sess = None, backend_powerlink_sess = None, backend_modbustcp_sess = None\<rparr>"

text \<open>The global variable of a protocol.\<close>

definition iot_slot :: "u16 \<Rightarrow> iot_sessions \<Rightarrow> IoTBackendSession option" where
  "iot_slot ty ss =
     (if ty = IOT_PROTO_TYPE_BLUETOOTH then backend_bluetooth_sess ss
      else if ty = IOT_PROTO_TYPE_CAN then backend_can_sess ss
      else if ty = IOT_PROTO_TYPE_ZIGBEE then backend_zigbee_sess ss
      else if ty = IOT_PROTO_TYPE_LORA then backend_lora_sess ss
      else if ty = IOT_PROTO_TYPE_POWERLINK then backend_powerlink_sess ss
      else if ty = IOT_PROTO_TYPE_MODBUSTCP then backend_modbustcp_sess ss else None)"

definition set_iot_slot :: "u16 \<Rightarrow> IoTBackendSession option \<Rightarrow> iot_sessions \<Rightarrow> iot_sessions" where
  "set_iot_slot ty s ss =
     (if ty = IOT_PROTO_TYPE_BLUETOOTH then ss\<lparr>backend_bluetooth_sess := s\<rparr>
      else if ty = IOT_PROTO_TYPE_CAN then ss\<lparr>backend_can_sess := s\<rparr>
      else if ty = IOT_PROTO_TYPE_ZIGBEE then ss\<lparr>backend_zigbee_sess := s\<rparr>
      else if ty = IOT_PROTO_TYPE_LORA then ss\<lparr>backend_lora_sess := s\<rparr>
      else if ty = IOT_PROTO_TYPE_POWERLINK then ss\<lparr>backend_powerlink_sess := s\<rparr>
      else if ty = IOT_PROTO_TYPE_MODBUSTCP then ss\<lparr>backend_modbustcp_sess := s\<rparr> else ss)"

definition iot_supported :: "u16 \<Rightarrow> bool" where
  "iot_supported ty \<longleftrightarrow> ty = IOT_PROTO_TYPE_BLUETOOTH \<or> ty = IOT_PROTO_TYPE_CAN \<or> ty = IOT_PROTO_TYPE_ZIGBEE
     \<or> ty = IOT_PROTO_TYPE_LORA \<or> ty = IOT_PROTO_TYPE_POWERLINK \<or> ty = IOT_PROTO_TYPE_MODBUSTCP"

definition cleared_session :: IoTBackendSession where
  "cleared_session = \<lparr>is_sess_type = 0, is_sess_state = 0, is_working_mode = 0, is_eng = False,
     is_pri_data = False, is_dev_fd = 0, is_listen_fd = 0, is_bound_dev = None\<rparr>"

text \<open>The call of the switch; the memory of a Modbus session is cleared first.\<close>

definition init_iot_session ::
  "iot_kernel \<Rightarrow> nat \<Rightarrow> IotDevice \<Rightarrow> IoTBackendSession \<Rightarrow> int \<times> IoTBackendSession option \<times> sys_event list" where
  "init_iot_session k i d mem0 =
     (let ty = iv_dev_type d; dev = Some (i, d)
      in if ty = IOT_PROTO_TYPE_BLUETOOTH then engine_init_bluetooth_session k dev (Some mem0)
         else if ty = IOT_PROTO_TYPE_CAN then engine_init_can_session k dev (Some mem0)
         else if ty = IOT_PROTO_TYPE_ZIGBEE then
           (let (r, s) = engine_init_zigbee_session dev (Some mem0) in (r, s, []))
         else if ty = IOT_PROTO_TYPE_LORA then
           (let (r, s) = engine_init_lora_session dev (Some mem0) in (r, s, []))
         else if ty = IOT_PROTO_TYPE_POWERLINK then
           (let (r, s) = engine_init_powerlink_session dev (Some mem0) in (r, s, []))
         else (let (r, s) = engine_init_modbustcp_session k dev (Some cleared_session) in (r, s, [])))"

definition start_iot_session ::
  "iot_kernel \<Rightarrow> nat \<Rightarrow> IotDevice \<Rightarrow> iot_sessions \<Rightarrow> bool \<times> iot_sessions \<times> sys_event list" where
  "start_iot_session k i d ss =
     (if \<not> iot_supported (iv_dev_type d) \<or> iot_slot (iv_dev_type d) ss \<noteq> None then (False, ss, [])
      else case ik_malloc k of
        None \<Rightarrow> (False, ss, [])
      | Some mem0 \<Rightarrow>
          let (ret, s, ev) = init_iot_session k i d mem0
          in if ret \<noteq> BACKEND_PROXY_PROCESS_OK then (False, ss, ev)
             else (True, set_iot_slot (iv_dev_type d) (map_option (is_eng_update (\<lambda>_. True)) s) ss, ev))"

fun iot_session_loop ::
  "(nat \<Rightarrow> iot_kernel) \<Rightarrow> nat list \<Rightarrow> IotDevice list \<Rightarrow> nat \<Rightarrow> iot_sessions \<Rightarrow> nat \<times> iot_sessions \<times> sys_event list" where
  "iot_session_loop ks [] devs success ss = (success, ss, [])"
| "iot_session_loop ks (i # is) devs success ss =
     (if iv_dev_status (devs ! i) = IOT_DEV_STATUS_ONLINE then
        let (ok, ss1, ev) = start_iot_session (ks i) i (devs ! i) ss;
            (n, ss2, ev2) = iot_session_loop ks is devs (if ok then Suc success else success) ss1
        in (n, ss2, ev @ ev2)
      else iot_session_loop ks is devs success ss)"

definition engine_init_iot_sessions ::
  "(nat \<Rightarrow> iot_kernel) \<Rightarrow> iot_engine option \<Rightarrow> int \<times> iot_sessions \<times> sys_event list" where
  "engine_init_iot_sessions ks engine =
     (case engine of
        None \<Rightarrow> (BACKEND_PROXY_PROCESS_ERROR, no_iot_sessions, [])
      | Some e \<Rightarrow>
          (case ie_iot_dev_set e of
             None \<Rightarrow> (BACKEND_PROXY_PROCESS_ERROR, no_iot_sessions, [])
           | Some devs \<Rightarrow>
               let num = unat (ie_iot_dev_num e);
                   (success, ss, ev) = iot_session_loop ks [0..<num] devs 0 no_iot_sessions
               in (if success > 0 \<or> num = 0 then BACKEND_PROXY_PROCESS_OK else BACKEND_PROXY_PROCESS_ERROR, ss, ev)))"


section \<open>Clean-up\<close>

text \<open>
  The handlers of the protocols do nothing and return OK; a Modbus session has no handler, and
  \<open>backend_iot_sess_destroy\<close> has an empty body.
\<close>

definition backend_cleanup_iot_session :: "IoTBackendSession option \<Rightarrow> int" where
  "backend_cleanup_iot_session sess =
     (case sess of
        None \<Rightarrow> BACKEND_PROXY_PROCESS_ERROR
      | Some s \<Rightarrow>
          if is_bound_dev s = None then BACKEND_PROXY_PROCESS_ERROR
          else if is_sess_type s \<in> {IOT_PROTO_TYPE_BLUETOOTH, IOT_PROTO_TYPE_CAN, IOT_PROTO_TYPE_ZIGBEE,
                 IOT_PROTO_TYPE_LORA, IOT_PROTO_TYPE_POWERLINK}
          then BACKEND_PROXY_PROCESS_OK
          else BACKEND_PROXY_PROCESS_ERROR)"



section \<open>Properties\<close>

lemma iot_slot_set:
  assumes "iot_supported ty" "iot_supported ty'"
  shows "iot_slot ty' (set_iot_slot ty s ss) = (if ty' = ty then s else iot_slot ty' ss)"
  using assms unfolding iot_supported_def
  by (elim disjE) (simp_all add: iot_slot_def set_iot_slot_def iot_proto_types)

lemma iot_slot_empty [simp]: "iot_slot ty no_iot_sessions = None"
  by (simp add: iot_slot_def no_iot_sessions_def)

text \<open>The session of a device is opened.\<close>

definition starts :: "iot_kernel \<Rightarrow> nat \<Rightarrow> IotDevice \<Rightarrow> bool" where
  "starts k i d \<longleftrightarrow> iot_supported (iv_dev_type d) \<and>
     (case ik_malloc k of None \<Rightarrow> False | Some mem0 \<Rightarrow> fst (init_iot_session k i d mem0) = BACKEND_PROXY_PROCESS_OK)"

definition serves :: "IoTBackendSession \<Rightarrow> u16 \<Rightarrow> nat \<Rightarrow> bool" where
  "serves s ty i \<longleftrightarrow> is_sess_type s = ty \<and> is_bound_dev s = Some i \<and> is_eng s"

lemma init_iot_session_binds:
  assumes "init_iot_session k i d mem0 = (BACKEND_PROXY_PROCESS_OK, s, ev)" "iot_supported (iv_dev_type d)"
  shows "\<exists>s'. s = Some s' \<and> is_sess_type s' = iv_dev_type d \<and> is_bound_dev s' = Some i"
  using assms unfolding iot_supported_def
  by (elim disjE)
    (auto simp: init_iot_session_def engine_init_bluetooth_session_def engine_init_can_session_def
      engine_init_zigbee_session_def engine_init_lora_session_def engine_init_powerlink_session_def
      engine_init_modbustcp_session_def set_bluetooth_fds_def bind_iot_session_def iot_proto_types proxy_codes Let_def
      split: if_splits)

text \<open>A socket that no session keeps is closed.\<close>

lemma iot_socket_kept_or_closed:
  assumes "init_iot_session k i d mem0 = (ret, s, ev)" "0 \<le> ik_socket k"
    and "iv_dev_type d = IOT_PROTO_TYPE_BLUETOOTH \<or> iv_dev_type d = IOT_PROTO_TYPE_CAN"
  shows "if ret = BACKEND_PROXY_PROCESS_OK
    then closed_fds ev = [] \<and> (is_dev_fd (the s) = ik_socket k \<or> is_listen_fd (the s) = ik_socket k)
    else closed_fds ev = [ik_socket k]"
  using assms
  by (elim disjE)
    (auto simp: init_iot_session_def engine_init_bluetooth_session_def engine_init_can_session_def closed_fds_def
      set_bluetooth_fds_def bind_iot_session_def iot_proto_types proxy_codes Let_def split: if_splits)

lemma start_iot_session_spec:
  assumes "start_iot_session k i d ss = (ok, ss', ev)"
  shows "ok \<longleftrightarrow> iot_slot (iv_dev_type d) ss = None \<and> starts k i d"
    and "\<not> ok \<Longrightarrow> ss' = ss"
    and "ok \<Longrightarrow> \<exists>s. ss' = set_iot_slot (iv_dev_type d) (Some s) ss \<and> serves s (iv_dev_type d) i"
proof -
  show "ok \<longleftrightarrow> iot_slot (iv_dev_type d) ss = None \<and> starts k i d" "\<not> ok \<Longrightarrow> ss' = ss"
    using assms by (auto simp: start_iot_session_def starts_def split: if_splits option.splits prod.splits)
  show "\<exists>s. ss' = set_iot_slot (iv_dev_type d) (Some s) ss \<and> serves s (iv_dev_type d) i" if ok
    using assms \<open>ok\<close> init_iot_session_binds [of k i d]
    by (fastforce simp: start_iot_session_def serves_def split: if_splits option.splits prod.splits)
qed

lemma iot_session_loop_slots:
  assumes "iot_session_loop ks is devs n ss = (n', ss', ev)" "iot_supported ty"
  shows "case iot_slot ty ss of
      Some s \<Rightarrow> iot_slot ty ss' = Some s
    | None \<Rightarrow>
        (case find (\<lambda>i. iv_dev_status (devs ! i) = IOT_DEV_STATUS_ONLINE \<and> iv_dev_type (devs ! i) = ty
            \<and> starts (ks i) i (devs ! i)) is of
           None \<Rightarrow> iot_slot ty ss' = None
         | Some i \<Rightarrow> (\<exists>s. iot_slot ty ss' = Some s \<and> serves s ty i))"
  using assms(1)
proof (induction ks "is" devs n ss arbitrary: n' ss' ev rule: iot_session_loop.induct)
  case (2 ks i "is" devs n ss)
  show ?case
  proof (cases "iv_dev_status (devs ! i) = IOT_DEV_STATUS_ONLINE")
    case True
    obtain ok ss1 ev1 where S: "start_iot_session (ks i) i (devs ! i) ss = (ok, ss1, ev1)" by (metis prod_cases3)
    obtain ev2 where L: "iot_session_loop ks is devs (if ok then Suc n else n) ss1 = (n', ss', ev2)"
      using 2(3) True S by (auto split: prod.splits)
    note IH = 2(1) [OF True S [symmetric] refl refl L]
    have sup: "iot_supported (iv_dev_type (devs ! i))" if ok
      using start_iot_session_spec(1) [OF S] that by (simp add: starts_def)
    show ?thesis
      using IH start_iot_session_spec [OF S] sup True assms(2)
      by (cases ok) (auto simp: iot_slot_set split: option.splits if_splits)
  next
    case False
    then show ?thesis using 2 by (cases "iot_slot ty ss") auto
  qed
qed (simp split: option.split)

lemma iot_session_loop_counts:
  assumes "iot_session_loop ks is devs n ss = (n', ss', ev)"
  shows "n \<le> n'" "n' = n \<Longrightarrow> ss' = ss" "n < n' \<Longrightarrow> \<exists>ty. iot_supported ty \<and> iot_slot ty ss' \<noteq> None"
proof -
  have "n \<le> n' \<and> (n' = n \<longrightarrow> ss' = ss) \<and> (n < n' \<longrightarrow> (\<exists>ty. iot_supported ty \<and> iot_slot ty ss' \<noteq> None))"
    using assms
  proof (induction ks "is" devs n ss arbitrary: n' ss' ev rule: iot_session_loop.induct)
    case (2 ks i "is" devs n ss)
    show ?case
    proof (cases "iv_dev_status (devs ! i) = IOT_DEV_STATUS_ONLINE")
      case True
      obtain ok ss1 ev1 where S: "start_iot_session (ks i) i (devs ! i) ss = (ok, ss1, ev1)" by (metis prod_cases3)
      obtain ev2 where L: "iot_session_loop ks is devs (if ok then Suc n else n) ss1 = (n', ss', ev2)"
        using 2(3) True S by (auto split: prod.splits)
      note IH = 2(1) [OF True S [symmetric] refl refl L]
      have "\<exists>ty. iot_supported ty \<and> iot_slot ty ss' \<noteq> None" if ok
      proof -
        have sup: "iot_supported (iv_dev_type (devs ! i))"
          using start_iot_session_spec(1) [OF S] that by (simp add: starts_def)
        have "iot_slot (iv_dev_type (devs ! i)) ss1 \<noteq> None"
          using start_iot_session_spec(3) [OF S that] iot_slot_set [OF sup sup] by auto
        then show ?thesis using iot_session_loop_slots [OF L sup] sup by (auto split: option.splits)
      qed
      then show ?thesis using IH start_iot_session_spec(2) [OF S] by (cases ok) auto
    next
      case False
      then show ?thesis using 2 by simp
    qed
  qed simp
  then show "n \<le> n'" "n' = n \<Longrightarrow> ss' = ss" "n < n' \<Longrightarrow> \<exists>ty. iot_supported ty \<and> iot_slot ty ss' \<noteq> None" by auto
qed

text \<open>
  C35.  One session for each protocol.  The session of a protocol is the one of the first configured
  device of this protocol that is online and whose session can be opened; there is none when no such
  device exists.  The start succeeds exactly when there is a session or no device at all.
\<close>

theorem iot_sessions_first_device:
  assumes "iot_supported ty" "num = unat (ie_iot_dev_num e)" "ie_iot_dev_set e = Some devs"
  shows "\<exists>ret ss ev. engine_init_iot_sessions ks (Some e) = (ret, ss, ev)
    \<and> (case find (\<lambda>i. iv_dev_status (devs ! i) = IOT_DEV_STATUS_ONLINE \<and> iv_dev_type (devs ! i) = ty
            \<and> starts (ks i) i (devs ! i)) [0..<num] of
         None \<Rightarrow> iot_slot ty ss = None
       | Some i \<Rightarrow> (\<exists>s. iot_slot ty ss = Some s \<and> serves s ty i))
    \<and> (ret = BACKEND_PROXY_PROCESS_OK \<longleftrightarrow> num = 0 \<or> (\<exists>ty. iot_supported ty \<and> iot_slot ty ss \<noteq> None))"
proof -
  obtain n ss ev where L: "iot_session_loop ks [0..<num] devs 0 no_iot_sessions = (n, ss, ev)" by (metis prod_cases3)
  have "0 < n \<longleftrightarrow> (\<exists>ty. iot_supported ty \<and> iot_slot ty ss \<noteq> None)"
    using iot_session_loop_counts [OF L] by (cases n) auto
  then show ?thesis
    using iot_session_loop_slots [OF L assms(1)] L assms(2,3)
    by (simp add: engine_init_iot_sessions_def proxy_codes)
qed

text \<open>Two CAN devices, the interface is down for the first.\<close>

definition sample_iot_kernel :: "nat \<Rightarrow> iot_kernel" where
  "sample_iot_kernel i = \<lparr>ik_malloc = Some cleared_session, ik_socket = 20 + int i, ik_flags_ok = True, ik_up = (i = 1),
     ik_index_ok = True, ik_bind = True, ik_listen = True, ik_connect = True, ik_getfl = True, ik_setfl = True,
     ik_modbus_new = (\<lambda>_. True), ik_modbus_connect = True\<rparr>"

definition sample_online_can :: IotDevice where
  "sample_online_can = cleared_device\<lparr>iv_dev_type := IOT_PROTO_TYPE_CAN, iv_dev_status := IOT_DEV_STATUS_ONLINE\<rparr>"

theorem iot_sessions_first_device_witness:
  "\<exists>ret ss ev s. engine_init_iot_sessions sample_iot_kernel
       (Some \<lparr>ie_iot_dev_set = Some [sample_online_can, sample_online_can], ie_iot_dev_num = 2\<rparr>) = (ret, ss, ev)
     \<and> ret = BACKEND_PROXY_PROCESS_OK \<and> iot_slot IOT_PROTO_TYPE_CAN ss = Some s \<and> is_bound_dev s = Some 1"
proof -
  have "find (\<lambda>i. iv_dev_status ([sample_online_can, sample_online_can] ! i) = IOT_DEV_STATUS_ONLINE
       \<and> iv_dev_type ([sample_online_can, sample_online_can] ! i) = IOT_PROTO_TYPE_CAN
       \<and> starts (sample_iot_kernel i) i ([sample_online_can, sample_online_can] ! i)) [0..<2] = Some 1" by code_simp
  moreover have "iot_supported IOT_PROTO_TYPE_CAN" by code_simp
  ultimately show ?thesis
    using iot_sessions_first_device [of IOT_PROTO_TYPE_CAN 2
        "\<lparr>ie_iot_dev_set = Some [sample_online_can, sample_online_can], ie_iot_dev_num = 2\<rparr>"
        "[sample_online_can, sample_online_can]" sample_iot_kernel]
    by (auto simp: serves_def)
qed

end
