(* ===== verification/Engine_Setup.thy ===== *)
theory Engine_Setup
  imports Iot_Startup
begin

text \<open>
  Life of the engine (\<open>src/src/engine.c\<close>, \<open>src/src/main.c\<close>): accepting connections on the listeners
  of the devices, starting the engine, releasing its devices, and the program as a whole.
\<close>

section \<open>Accepting connections\<close>

text \<open>
  What a device gets from outside in a round of the listener: the result of \<open>accept\<close> with \<open>errno\<close>,
  the address and port of the peer in network byte order, and what a session creation gets.
\<close>

record accept_oracle =
  ac_fd :: int
  ac_errno :: int
  ac_addr :: u32
  ac_port :: u16
  ac_sess :: sess_oracle

definition passive_para :: "accept_oracle \<Rightarrow> HighSpeedNetDevice \<Rightarrow> PassiveSessParaIP" where
  "passive_para acc hs_dev =
     \<lparr>pp_fd = ac_fd acc, pp_dev_id = word_of_int (hd_dev_id hs_dev), pp_trans_proto = SESS_TCP_PROTO,
      pp_ip_version = SESS_IPV4_PROTO,
      pp_ip_port_tuple = COPY_IN_TO_IPV4 (ac_addr acc) @ put_u16 (htons (ac_port acc))\<rparr>"

text \<open>One device; the flag is false when the program exits.\<close>

definition listener_step :: "accept_oracle \<Rightarrow> nat \<Rightarrow> backend \<Rightarrow> (bool \<times> backend) option" where
  "listener_step acc cnt st =
     (if hd_tcp_listener (get_dev cnt st) = -1 then Some (True, st)
      else if ac_fd acc = -1 then Some (ac_errno acc = EAGAIN, st)
      else do {
        (ret, st1) \<leftarrow> high_speed_create_sess_passive (ac_sess acc) (Some (passive_para acc (get_dev cnt st))) True st;
        Some (True, emit (if ret \<noteq> BACKEND_PROXY_PROCESS_OK then Ev_close (ac_fd acc) else Ev_nonblocking (ac_fd acc)) st1) })"

fun listener_loop :: "(nat \<Rightarrow> accept_oracle) \<Rightarrow> nat list \<Rightarrow> backend \<Rightarrow> (bool \<times> backend) option" where
  "listener_loop acc [] st = Some (True, st)"
| "listener_loop acc (cnt # rest) st = do {
     (more, st1) \<leftarrow> listener_step (acc cnt) cnt st;
     if more then listener_loop acc rest st1 else Some (False, st1) }"

definition engine_listener_run :: "(nat \<Rightarrow> accept_oracle) \<Rightarrow> bool \<Rightarrow> backend \<Rightarrow> (bool \<times> backend) option" where
  "engine_listener_run acc eng_set st =
     (if \<not> eng_set \<or> be_dev_set (st_eng st) = [] \<or> be_dev_num (st_eng st) = 0 \<or> \<not> be_sess_pool (st_eng st)
         \<or> \<not> sp_ops (st_pool st)
      then Some (True, st)
      else listener_loop acc [0..<unat (be_dev_num (st_eng st))] st)"


section \<open>Starting\<close>

definition engine_init_eng_ops :: "BackendEngine option \<Rightarrow> int \<times> BackendEngine option" where
  "engine_init_eng_ops eng =
     (case eng of
        None \<Rightarrow> (BACKEND_PROXY_PROCESS_ERROR, None)
      | Some e \<Rightarrow> (BACKEND_PROXY_PROCESS_OK, Some (e\<lparr>be_ops := True\<rparr>)))"

text \<open>The pool takes the engine from the global pointer, which is set by then.\<close>

definition engine_init_sess_pool :: "bool \<Rightarrow> bool \<Rightarrow> backend \<Rightarrow> int \<times> backend" where
  "engine_init_sess_pool malloc_ok eng_set st =
     (if \<not> malloc_ok then (BACKEND_PROXY_PROCESS_ERROR, st)
      else (BACKEND_PROXY_PROCESS_OK,
            st\<lparr>st_pool := snd (high_speed_init_pool eng_set (st_pool st)), st_eng := (st_eng st)\<lparr>be_sess_pool := True\<rparr>\<rparr>))"

definition engine_init_shared_mem_pool :: "bool \<Rightarrow> BackendEngine \<Rightarrow> int \<times> BackendEngine" where
  "engine_init_shared_mem_pool malloc_ok eng =
     (if \<not> malloc_ok then (BACKEND_PROXY_PROCESS_ERROR, eng)
      else if init_shared_mem_pool \<noteq> BACKEND_PROXY_PROCESS_OK then (BACKEND_PROXY_PROCESS_ERROR, eng)
      else (BACKEND_PROXY_PROCESS_OK, eng\<lparr>be_tx := (be_tx eng)\<lparr>te_mem_pool := True\<rparr>\<rparr>))"

definition init_shared_mem_pool_lock :: int where
  "init_shared_mem_pool_lock = BACKEND_PROXY_PROCESS_OK"

text \<open>The lock is allocated, but never stored in the engine.\<close>

definition engine_init_shared_mem_pool_lock :: "bool \<Rightarrow> int" where
  "engine_init_shared_mem_pool_lock malloc_ok =
     (if \<not> malloc_ok then BACKEND_PROXY_PROCESS_ERROR
      else if init_shared_mem_pool_lock \<noteq> BACKEND_PROXY_PROCESS_OK then BACKEND_PROXY_PROCESS_ERROR
      else BACKEND_PROXY_PROCESS_OK)"

text \<open>The descriptor \<open>epoll_create\<close> returned is stored in any case.\<close>

definition poller_init :: "int \<Rightarrow> int \<times> int" where
  "poller_init created = (if created \<le> 0 then BACKEND_PROXY_PROCESS_ERROR else BACKEND_PROXY_PROCESS_OK, created)"

definition engine_init_poller :: "int \<Rightarrow> int \<times> int" where
  "engine_init_poller created = poller_init created"

text \<open>
  The engine with what the other records leave out: the descriptor of the poller, the global
  context of the channel, the table of IoT devices.
\<close>

record engine_state =
  es_proxy :: proxy
  es_epfd :: int
  es_ctx :: HyperampLinuxContext
  es_iot :: iot_engine
  es_maps :: "map_event list"

record init_oracle =
  io_dev :: dev_oracle
  io_dev_mem :: ini_memory
  io_dev_file :: "string option"
  io_pool_ok :: bool
  io_mem_pool_ok :: bool
  io_lock_ok :: bool
  io_epoll :: int
  io_mem_fd :: int
  io_page_size :: u64
  io_mapped :: "u64 option"
  io_iot_set_ok :: bool
  io_iot_mem :: ini_memory
  io_iot_file :: "string option"
  io_iot_ns :: "nat \<Rightarrow> bool \<times> bool"
  io_iot :: "nat \<Rightarrow> iot_kernel"

text \<open>The engine cleared by \<open>memset\<close>; the memory and the transmit buffer are not part of it.\<close>

definition cleared_engine :: "BackendEngine \<Rightarrow> BackendEngine" where
  "cleared_engine e = \<lparr>be_dev_set = [], be_dev_num = 0, be_active_mask = 0, be_selector_id = 0, be_sess_pool = False,
     be_ops = False, be_hyper_rx_queue = None,
     be_tx = \<lparr>te_mem_pool = False, te_hyper_tx_queue = None, te_data_region = 0, te_mem = te_mem (be_tx e),
              te_tx_buf = te_tx_buf (be_tx e)\<rparr>\<rparr>"

definition set_px_backend :: "backend \<Rightarrow> engine_state \<Rightarrow> engine_state" where
  "set_px_backend st es = es\<lparr>es_proxy := (es_proxy es)\<lparr>px_backend := st\<rparr>\<rparr>"

definition set_px_eng :: "BackendEngine \<Rightarrow> engine_state \<Rightarrow> engine_state" where
  "set_px_eng e es = set_px_backend ((px_backend (es_proxy es))\<lparr>st_eng := e\<rparr>) es"

text \<open>The steps from the poller on.\<close>

definition engine_init_channel :: "init_oracle \<Rightarrow> engine_state \<Rightarrow> int \<times> engine_state" where
  "engine_init_channel orc es =
     (let (ret, ctx, eng, ev) = engine_init_hyperamp_queue (io_mem_fd orc) (io_page_size orc) (io_mapped orc) (es_ctx es)
            (st_eng (px_backend (es_proxy es)))
      in (ret, (set_px_eng eng es)\<lparr>es_ctx := ctx, es_maps := es_maps es @ ev\<rparr>))"

definition engine_init_iot :: "init_oracle \<Rightarrow> engine_state \<Rightarrow> engine_state option" where
  "engine_init_iot orc es = do {
     (ret, ie) \<leftarrow> engine_init_iot_devices (io_iot_set_ok orc) (io_iot_mem orc) (io_iot_file orc) (io_iot_ns orc) (Some (es_iot es));
     let es1 = es\<lparr>es_iot := the ie\<rparr>;
     if ret \<noteq> BACKEND_PROXY_PROCESS_OK then Some es1
     else
       let (_, ss, ev) = engine_init_iot_sessions (io_iot orc) ie
       in Some (set_px_backend (emits ev (px_backend (es_proxy es1))) (es1\<lparr>es_proxy := (es_proxy es1)\<lparr>px_iot := ss\<rparr>\<rparr>)) }"

definition engine_init_comm :: "init_oracle \<Rightarrow> engine_state \<Rightarrow> engine_state option" where
  "engine_init_comm orc es =
     (let (ret, epfd) = engine_init_poller (io_epoll orc);
          es1 = es\<lparr>es_epfd := epfd\<rparr>
      in if ret \<noteq> BACKEND_PROXY_PROCESS_OK then Some es1
         else
           let (ret, es2) = engine_init_channel orc es1
           in if ret \<noteq> BACKEND_PROXY_PROCESS_OK then Some es2 else engine_init_iot orc es2)"

text \<open>Session pool, memory pool and lock; the flag tells whether the start goes on.\<close>

definition engine_init_pools :: "init_oracle \<Rightarrow> engine_state \<Rightarrow> bool \<times> engine_state" where
  "engine_init_pools orc es =
     (let (_, st1) = engine_init_selector (px_backend (es_proxy es));
          (ret, st2) = engine_init_sess_pool (io_pool_ok orc) (px_engine_set (es_proxy es)) st1
      in if ret \<noteq> BACKEND_PROXY_PROCESS_OK then (False, set_px_backend st2 es)
         else
           let (ret, eng) = engine_init_shared_mem_pool (io_mem_pool_ok orc) (st_eng st2);
               px = (es_proxy es)\<lparr>px_pool_set := True, px_backend := st2\<lparr>st_eng := eng\<rparr>\<rparr>
           in (ret = BACKEND_PROXY_PROCESS_OK \<and>
                 engine_init_shared_mem_pool_lock (io_lock_ok orc) = BACKEND_PROXY_PROCESS_OK, es\<lparr>es_proxy := px\<rparr>))"

text \<open>
  \<open>engine_init\<close> returns nothing, so the caller does not see at which step it gave up.  The outer
  \<open>None\<close> is a crash in the configuration.
\<close>

definition engine_init :: "init_oracle \<Rightarrow> engine_state \<Rightarrow> engine_state option" where
  "engine_init orc es =
     (let st = px_backend (es_proxy es);
          st0 = st\<lparr>st_eng := cleared_engine (st_eng st)\<rparr>;
          es0 = es\<lparr>es_proxy := (es_proxy es)\<lparr>px_engine_set := True, px_backend := st0\<rparr>, es_epfd := 0,
                   es_iot := \<lparr>ie_iot_dev_set = None, ie_iot_dev_num = 0\<rparr>\<rparr>
      in do {
        (ret, st1) \<leftarrow> engine_init_hs_net_dev (io_dev orc) (io_dev_mem orc) (io_dev_file orc) st0;
        let es1 = set_px_backend st1 es0;
        if ret \<noteq> BACKEND_PROXY_PROCESS_OK then Some es1
        else
          let (ret, eng) = engine_init_eng_ops (Some (st_eng st1));
              es2 = set_px_eng (the eng) es1
          in if ret \<noteq> BACKEND_PROXY_PROCESS_OK then Some es2
             else
               let (more, es3) = engine_init_pools orc es2
               in if more then engine_init_comm orc es3 else Some es3 })"



section \<open>Releasing\<close>

text \<open>Taking a node out of the queue of TCP or UDP sessions of device \<open>cnt\<close>, and freeing nodes.\<close>

definition unqueue_node :: "bool \<Rightarrow> nat \<Rightarrow> nat \<Rightarrow> backend \<Rightarrow> backend" where
  "unqueue_node tcp cnt n st =
     put_dev cnt (if tcp then (get_dev cnt st)\<lparr>hd_tcp_node_queue := remove1 n (hd_tcp_node_queue (get_dev cnt st))\<rparr>
                  else (get_dev cnt st)\<lparr>hd_udp_node_queue := remove1 n (hd_udp_node_queue (get_dev cnt st))\<rparr>) st"

definition free_nodes :: "nat list \<Rightarrow> backend \<Rightarrow> backend" where
  "free_nodes ns st = st\<lparr>st_node := put_nodes ns None (st_node st)\<rparr>"

definition clear_dev_link :: "nat \<Rightarrow> backend \<Rightarrow> backend option" where
  "clear_dev_link p st = map_option
     (\<lambda>s. put_sess p (s\<lparr>bs_sess_dev_link_state := bs_sess_dev_link_state s AND NOT BACKEND_SESS_LINKED_TO_DEV_NODE\<rparr>) st)
     (st_sess st p)"

text \<open>The loop over one queue: delete the session of each node, then free the node.\<close>

fun release_sess_nodes :: "(nat \<Rightarrow> bool) \<Rightarrow> bool \<Rightarrow> nat \<Rightarrow> nat list \<Rightarrow> backend \<Rightarrow> backend option" where
  "release_sess_nodes ok tcp cnt [] st = Some st"
| "release_sess_nodes ok tcp cnt (n # ns) st =
     (case st_node st n of
        Some (Some p) \<Rightarrow> do {
          st1 \<leftarrow> clear_dev_link p (unqueue_node tcp cnt n st);
          (_, st2) \<leftarrow> high_speed_delete_sess (ok p) (Some p) st1;
          release_sess_nodes ok tcp cnt ns (free_nodes [n] st2) }
      | _ \<Rightarrow> None)"

definition close_listener :: "nat \<Rightarrow> backend \<Rightarrow> backend" where
  "close_listener cnt st =
     (let dev = get_dev cnt st
      in if hd_tcp_listening_port dev > 0 \<and> hd_tcp_listener dev \<noteq> -1 then emit (Ev_close (hd_tcp_listener dev)) st else st)"

definition release_dev :: "(nat \<Rightarrow> bool) \<Rightarrow> nat \<Rightarrow> backend \<Rightarrow> backend option" where
  "release_dev ok cnt st = do {
     let st0 = close_listener cnt st;
     st1 \<leftarrow> release_sess_nodes ok True cnt (hd_tcp_node_queue (get_dev cnt st0)) st0;
     let st2 = put_dev cnt ((get_dev cnt st1)\<lparr>hd_tcp_node_queue := []\<rparr>) st1;
     st3 \<leftarrow> release_sess_nodes ok False cnt (hd_udp_node_queue (get_dev cnt st2)) st2;
     let st4 = put_dev cnt ((get_dev cnt st3)\<lparr>hd_udp_node_queue := []\<rparr>) st3;
     let st5 = free_nodes (hd_free_node_queue (get_dev cnt st4)) st4;
     Some (put_dev cnt ((get_dev cnt st5)\<lparr>hd_free_node_queue := []\<rparr>) st5) }"

fun release_devs :: "(nat \<Rightarrow> bool) \<Rightarrow> nat list \<Rightarrow> backend \<Rightarrow> backend option" where
  "release_devs ok [] st = Some st"
| "release_devs ok (cnt # rest) st = do { st1 \<leftarrow> release_dev ok cnt st; release_devs ok rest st1 }"

text \<open>\<open>ok p\<close> is the result of \<open>epoll_ctl\<close> when the session \<open>p\<close> is deleted.\<close>

definition engine_destory_hs_net_dev :: "(nat \<Rightarrow> bool) \<Rightarrow> bool \<Rightarrow> int \<Rightarrow> backend \<Rightarrow> backend option" where
  "engine_destory_hs_net_dev ok eng_set epfd st =
     (if \<not> eng_set \<or> be_dev_set (st_eng st) = [] \<or> \<not> be_sess_pool (st_eng st) \<or> \<not> sp_ops (st_pool st)
      then Some st
      else map_option (emit (Ev_close epfd)) (release_devs ok [0..<unat (be_dev_num (st_eng st))] st))"

definition engine_destory :: "(nat \<Rightarrow> bool) \<Rightarrow> engine_state \<Rightarrow> engine_state option" where
  "engine_destory ok es = do {
     st \<leftarrow> engine_destory_hs_net_dev ok True (es_epfd es) (px_backend (es_proxy es));
     Some (es\<lparr>es_proxy := (es_proxy es)\<lparr>px_engine_set := True, px_backend := st\<lparr>st_eng := cleared_engine (st_eng st)\<rparr>\<rparr>,
              es_epfd := 0, es_iot := \<lparr>ie_iot_dev_set = None, ie_iot_dev_num = 0\<rparr>\<rparr>) }"

text \<open>The program; \<open>n\<close> passes of the main loop are looked at.\<close>

definition main :: "init_oracle \<Rightarrow> nat \<Rightarrow> nat \<Rightarrow> (nat \<Rightarrow> run_oracle) \<Rightarrow> bytes \<Rightarrow> (nat \<Rightarrow> bool) \<Rightarrow> engine_state \<Rightarrow>
   (bool \<times> engine_state) option" where
  "main orc n fuel orcs msg_buf ok es = do {
     es1 \<leftarrow> engine_init orc es;
     (running, _, px) \<leftarrow> engine_run_hyperamp n fuel orcs msg_buf (es_proxy es1);
     if running then Some (True, es1\<lparr>es_proxy := px\<rparr>)
     else map_option (Pair False) (engine_destory ok (es1\<lparr>es_proxy := px\<rparr>)) }"

end
