(* ===== verification/Engine_Setup_Lemmas.thy ===== *)
theory Engine_Setup_Lemmas
  imports Engine_Setup
begin

text \<open>
  Properties of the engine's life: a started engine satisfies what the main loop and the sessions
  rely on, a refused configuration ends the program, the configuration opens no listener, and a
  connection accepted on a listener is announced to the frontend.
\<close>

section \<open>Starting\<close>

lemma fresh_pool_inv:
  "st_pool st = snd (high_speed_init_pool b pool) \<Longrightarrow> pool_inv st"
  using pool_inv_init [where st = st and eng = b and pool = pool] by (cases st) simp

lemma init_hs_net_dev_frame:
  assumes "engine_init_hs_net_dev orc mm file st = Some (BACKEND_PROXY_PROCESS_OK, st')"
  shows "st_pool st' = st_pool st \<and> be_tx (st_eng st') = be_tx (st_eng st)"
  using assms by (cases rule: init_ok_cases) auto

lemma engine_init_pools_ok:
  assumes "io_pool_ok orc" "io_mem_pool_ok orc" "io_lock_ok orc"
  shows "\<exists>es'. engine_init_pools orc es = (True, es')
    \<and> es_proxy es' = (es_proxy es)\<lparr>px_pool_set := True, px_backend := (px_backend (es_proxy es))
        \<lparr>st_pool := snd (high_speed_init_pool (px_engine_set (es_proxy es)) (st_pool (px_backend (es_proxy es)))),
         st_eng := (st_eng (px_backend (es_proxy es)))\<lparr>be_selector_id := 0, be_sess_pool := True,
           be_tx := (be_tx (st_eng (px_backend (es_proxy es))))\<lparr>te_mem_pool := True\<rparr>\<rparr>\<rparr>\<rparr>
    \<and> es_ctx es' = es_ctx es \<and> es_iot es' = es_iot es"
  using assms
  by (simp add: engine_init_pools_def engine_init_selector_def engine_init_sess_pool_def
      engine_init_shared_mem_pool_def init_shared_mem_pool_def engine_init_shared_mem_pool_lock_def
      init_shared_mem_pool_lock_def proxy_codes Let_def)

lemma engine_init_iot_frame:
  assumes "engine_init_iot_devices (io_iot_set_ok orc) (io_iot_mem orc) (io_iot_file orc) (io_iot_ns orc)
      (Some (es_iot es)) \<noteq> None"
  shows "\<exists>es' ss ev. engine_init_iot orc es = Some es'
    \<and> es_proxy es' = (es_proxy es)\<lparr>px_iot := ss, px_backend := emits ev (px_backend (es_proxy es))\<rparr>"
proof -
  obtain ret ie where D: "engine_init_iot_devices (io_iot_set_ok orc) (io_iot_mem orc) (io_iot_file orc) (io_iot_ns orc)
      (Some (es_iot es)) = Some (ret, ie)" using assms by auto
  obtain r ss ev where S: "engine_init_iot_sessions (io_iot orc) ie = (r, ss, ev)" by (metis prod_cases3)
  show ?thesis
  proof (cases "ret = BACKEND_PROXY_PROCESS_OK")
    case True
    then show ?thesis using D S by (auto simp: engine_init_iot_def set_px_backend_def)
  next
    case False
    then have "engine_init_iot orc es = Some (es\<lparr>es_iot := the ie\<rparr>)" using D by (simp add: engine_init_iot_def)
    moreover have "emits [] st = st" for st by (simp add: emits_def)
    ultimately show ?thesis
      by (intro exI [of _ "es\<lparr>es_iot := the ie\<rparr>"] exI [of _ "px_iot (es_proxy es)"] exI [of _ "[]"]) simp
  qed
qed

lemma engine_init_comm_ok:
  assumes "e = st_eng (px_backend (es_proxy es))" "0 < io_epoll orc" "te_mem_pool (be_tx e)"
    and "lc_initialized (es_ctx es) = 0" "0 \<le> io_mem_fd orc" "io_mapped orc = Some a"
    and "base = a + page_offset (io_page_size orc) SHM_CH1_PADDR" "fits base SHM_CH1_TOTAL_SIZE"
    and "vb = base + of_nat (2 * SHM_QUEUE_SIZE)"
    and "fresh_queue vb 253 (load_queue (te_mem (be_tx e)) base)"
    and "fresh_queue vb 253 (load_queue (te_mem (be_tx e)) (base + of_nat SHM_QUEUE_SIZE))"
    and "engine_init_iot_devices (io_iot_set_ok orc) (io_iot_mem orc) (io_iot_file orc) (io_iot_ns orc)
      (Some (es_iot es)) \<noteq> None"
  shows "\<exists>es' e' rx t ev. engine_init_comm orc es = Some es' \<and> e' = e\<lparr>be_hyper_rx_queue := Some rx, be_tx := t\<rparr>
    \<and> px_engine_set (es_proxy es') = px_engine_set (es_proxy es) \<and> px_pool_set (es_proxy es') = px_pool_set (es_proxy es)
    \<and> px_backend (es_proxy es') = emits ev ((px_backend (es_proxy es))\<lparr>st_eng := e'\<rparr>)
    \<and> rx_ready 253 4096 e' \<and> rx_blocks e' = [] \<and> tx_ready 253 4096 t \<and> tx_blocks t = []"
proof -
  from attach_channel [OF assms(4,5,7,8,9,10,11,3)]
  obtain ctx rx t where A: "engine_init_hyperamp_queue (io_mem_fd orc) (io_page_size orc) (Some a) (es_ctx es) e
      = (BACKEND_PROXY_PROCESS_OK, ctx, e\<lparr>be_hyper_rx_queue := Some rx, be_tx := t\<rparr>, [])"
    "rx_ready 253 4096 (e\<lparr>be_hyper_rx_queue := Some rx, be_tx := t\<rparr>)"
    "rx_blocks (e\<lparr>be_hyper_rx_queue := Some rx, be_tx := t\<rparr>) = []" "tx_ready 253 4096 t" "tx_blocks t = []"
    by auto
  define es1 where "es1 = (set_px_eng (e\<lparr>be_hyper_rx_queue := Some rx, be_tx := t\<rparr>) (es\<lparr>es_epfd := io_epoll orc\<rparr>))
      \<lparr>es_ctx := ctx, es_maps := es_maps es\<rparr>"
  have es1: "es_iot es1 = es_iot es" "px_engine_set (es_proxy es1) = px_engine_set (es_proxy es)"
    "px_pool_set (es_proxy es1) = px_pool_set (es_proxy es)"
    "px_backend (es_proxy es1) = (px_backend (es_proxy es))\<lparr>st_eng := e\<lparr>be_hyper_rx_queue := Some rx, be_tx := t\<rparr>\<rparr>"
    by (simp_all add: es1_def set_px_eng_def set_px_backend_def)
  have chan: "engine_init_channel orc (es\<lparr>es_epfd := io_epoll orc\<rparr>) = (BACKEND_PROXY_PROCESS_OK, es1)"
    using A(1) assms(1,6) by (simp add: engine_init_channel_def es1_def set_px_eng_def set_px_backend_def)
  from engine_init_iot_frame [of orc es1] assms(12) es1(1) obtain es' ss ev where
    I: "engine_init_iot orc es1 = Some es'"
    "es_proxy es' = (es_proxy es1)\<lparr>px_iot := ss, px_backend := emits ev (px_backend (es_proxy es1))\<rparr>" by auto
  have "engine_init_comm orc es = Some es'"
    using assms(2) chan I(1) by (simp add: engine_init_comm_def engine_init_poller_def poller_init_def)
  then show ?thesis
    using I(2) es1 A by (intro exI [of _ es'] exI [of _ "e\<lparr>be_hyper_rx_queue := Some rx, be_tx := t\<rparr>"]
      exI [of _ rx] exI [of _ t] exI [of _ ev]) simp
qed

lemma engine_started:
  assumes "st = px_backend (es_proxy es)" "st0 = st\<lparr>st_eng := cleared_engine (st_eng st)\<rparr>"
    and "engine_init_hs_net_dev (io_dev orc) (io_dev_mem orc) (io_dev_file orc) st0
      = Some (BACKEND_PROXY_PROCESS_OK, st1)"
    and "io_pool_ok orc" "io_mem_pool_ok orc" "io_lock_ok orc" "0 < io_epoll orc"
    and "lc_initialized (es_ctx es) = 0" "0 \<le> io_mem_fd orc" "io_mapped orc = Some a"
    and "base = a + page_offset (io_page_size orc) SHM_CH1_PADDR" "fits base SHM_CH1_TOTAL_SIZE"
    and "vb = base + of_nat (2 * SHM_QUEUE_SIZE)"
    and "fresh_queue vb 253 (load_queue (te_mem (be_tx (st_eng st))) base)"
    and "fresh_queue vb 253 (load_queue (te_mem (be_tx (st_eng st))) (base + of_nat SHM_QUEUE_SIZE))"
    and "engine_init_iot_devices (io_iot_set_ok orc) (io_iot_mem orc) (io_iot_file orc) (io_iot_ns orc)
      (Some \<lparr>ie_iot_dev_set = None, ie_iot_dev_num = 0\<rparr>) \<noteq> None"
  shows "\<exists>es' rx t. engine_init orc es = Some es' \<and> px_engine_set (es_proxy es') \<and> px_pool_set (es_proxy es')
    \<and> st_pool (px_backend (es_proxy es')) = snd (high_speed_init_pool True (st_pool st1))
    \<and> st_node (px_backend (es_proxy es')) = st_node st1
    \<and> st_eng (px_backend (es_proxy es')) = (st_eng st1)\<lparr>be_ops := True, be_selector_id := 0, be_sess_pool := True,
         be_hyper_rx_queue := Some rx, be_tx := t\<rparr>
    \<and> rx_ready 253 4096 (st_eng (px_backend (es_proxy es'))) \<and> rx_blocks (st_eng (px_backend (es_proxy es'))) = []
    \<and> tx_ready 253 4096 t \<and> tx_blocks t = []"
proof -
  define es1 where "es1 = set_px_eng ((st_eng st1)\<lparr>be_ops := True\<rparr>)
    (set_px_backend st1 (es\<lparr>es_proxy := (es_proxy es)\<lparr>px_engine_set := True, px_backend := st0\<rparr>, es_epfd := 0,
       es_iot := \<lparr>ie_iot_dev_set = None, ie_iot_dev_num = 0\<rparr>\<rparr>))"
  have es1: "px_engine_set (es_proxy es1)" "px_backend (es_proxy es1) = st1\<lparr>st_eng := (st_eng st1)\<lparr>be_ops := True\<rparr>\<rparr>"
    "es_ctx es1 = es_ctx es" "es_iot es1 = \<lparr>ie_iot_dev_set = None, ie_iot_dev_num = 0\<rparr>"
    by (simp_all add: es1_def set_px_eng_def set_px_backend_def)
  from engine_init_pools_ok [OF assms(4-6), of es1] obtain es2 where
    P: "engine_init_pools orc es1 = (True, es2)"
    "px_engine_set (es_proxy es2)" "px_pool_set (es_proxy es2)" "es_ctx es2 = es_ctx es" "es_iot es2 = es_iot es1"
    "px_backend (es_proxy es2) = st1\<lparr>st_pool := snd (high_speed_init_pool True (st_pool st1)),
       st_eng := (st_eng st1)\<lparr>be_ops := True, be_selector_id := 0, be_sess_pool := True,
         be_tx := (be_tx (st_eng st1))\<lparr>te_mem_pool := True\<rparr>\<rparr>\<rparr>"
    using es1 by auto
  let ?e = "st_eng (px_backend (es_proxy es2))"
  have mem: "te_mem (be_tx ?e) = te_mem (be_tx (st_eng st))" "te_mem_pool (be_tx ?e)"
    using P(6) init_hs_net_dev_frame [OF assms(3)] by (simp_all add: assms(2) cleared_engine_def)
  from engine_init_comm_ok [OF refl assms(7), of es2 a base vb] assms(8-16) P(4,5) es1(4) mem
  obtain es' rx t ev where C: "engine_init_comm orc es2 = Some es'" "px_engine_set (es_proxy es')" "px_pool_set (es_proxy es')"
    "px_backend (es_proxy es') = emits ev ((px_backend (es_proxy es2))\<lparr>st_eng := ?e\<lparr>be_hyper_rx_queue := Some rx, be_tx := t\<rparr>\<rparr>)"
    "rx_ready 253 4096 (?e\<lparr>be_hyper_rx_queue := Some rx, be_tx := t\<rparr>)"
    "rx_blocks (?e\<lparr>be_hyper_rx_queue := Some rx, be_tx := t\<rparr>) = []" "tx_ready 253 4096 t" "tx_blocks t = []"
    using P(2,3) by auto
  have run: "engine_init orc es = Some es'"
    using assms(1-3) P(1) C(1) es1_def by (simp add: engine_init_def engine_init_eng_ops_def Let_def)
  have "st_eng (px_backend (es_proxy es')) = ?e\<lparr>be_hyper_rx_queue := Some rx, be_tx := t\<rparr>"
    using C(4) by (simp add: emits_def)
  then show ?thesis
    using run C P(6) by (intro exI [of _ es'] exI [of _ rx] exI [of _ t]) (simp add: emits_def)
qed

text \<open>
  C11.  A started engine is ready.  When the network devices are accepted, memory and poller are
  available and the creator of the channel has left its two queues, \<open>engine_init\<close> ends in a state in
  which everything the main loop and the sessions rely on holds: the handlers find engine and pools,
  the session pool satisfies its invariant, both queues are ready and empty, the devices are those of
  the configuration; and the main loop enters its passes.  This holds whatever the IoT configuration
  contains, as long as reading it does not crash.
\<close>

theorem engine_init_starts_engine:
  assumes "st = px_backend (es_proxy es)" "st0 = st\<lparr>st_eng := cleared_engine (st_eng st)\<rparr>"
    and "engine_init_hs_net_dev (io_dev orc) (io_dev_mem orc) (io_dev_file orc) st0
      = Some (BACKEND_PROXY_PROCESS_OK, st1)"
    and "io_pool_ok orc" "io_mem_pool_ok orc" "io_lock_ok orc" "0 < io_epoll orc"
    and "lc_initialized (es_ctx es) = 0" "0 \<le> io_mem_fd orc" "io_mapped orc = Some a"
    and "base = a + page_offset (io_page_size orc) SHM_CH1_PADDR" "fits base SHM_CH1_TOTAL_SIZE"
    and "vb = base + of_nat (2 * SHM_QUEUE_SIZE)"
    and "fresh_queue vb 253 (load_queue (te_mem (be_tx (st_eng st))) base)"
    and "fresh_queue vb 253 (load_queue (te_mem (be_tx (st_eng st))) (base + of_nat SHM_QUEUE_SIZE))"
    and "engine_init_iot_devices (io_iot_set_ok orc) (io_iot_mem orc) (io_iot_file orc) (io_iot_ns orc)
      (Some \<lparr>ie_iot_dev_set = None, ie_iot_dev_num = 0\<rparr>) \<noteq> None"
  shows "\<exists>es' px st'. engine_init orc es = Some es' \<and> px = es_proxy es' \<and> st' = px_backend px
    \<and> engine_ready px \<and> pool_inv st' \<and> sp_engine (st_pool st') \<and> be_ops (st_eng st')
    \<and> rx_ready 253 4096 (st_eng st') \<and> rx_blocks (st_eng st') = []
    \<and> tx_ok 253 4096 (be_tx (st_eng st')) \<and> tx_blocks (be_tx (st_eng st')) = []
    \<and> be_dev_set (st_eng st') = be_dev_set (st_eng st1) \<and> be_dev_num (st_eng st') = be_dev_num (st_eng st1)
    \<and> be_active_mask (st_eng st') = be_active_mask (st_eng st1) \<and> st_node st' = st_node st1
    \<and> engine_run_hyperamp n fuel orcs msg_buf px = engine_passes n fuel orcs 0 msg_buf px"
proof -
  from engine_started [OF assms] obtain es' rx t where S: "engine_init orc es = Some es'"
    "px_engine_set (es_proxy es')" "st_pool (px_backend (es_proxy es')) = snd (high_speed_init_pool True (st_pool st1))"
    "st_node (px_backend (es_proxy es')) = st_node st1"
    "st_eng (px_backend (es_proxy es')) = (st_eng st1)\<lparr>be_ops := True, be_selector_id := 0, be_sess_pool := True,
         be_hyper_rx_queue := Some rx, be_tx := t\<rparr>"
    "rx_ready 253 4096 (st_eng (px_backend (es_proxy es')))" "rx_blocks (st_eng (px_backend (es_proxy es'))) = []"
    "tx_ready 253 4096 t" "tx_blocks t = []" by blast
  have "engine_ready (es_proxy es')"
    using S(2,8) by (simp add: engine_ready_def S(3,5) tx_ready_def high_speed_init_pool_def)
  moreover have "pool_inv (px_backend (es_proxy es'))" using S(3) by (rule fresh_pool_inv)
  moreover have "tx_ok 253 4096 t" using S(8) by (simp add: tx_ok_def sizeof_tx_buf_def)
  moreover have "engine_run_hyperamp n fuel orcs msg_buf (es_proxy es') = engine_passes n fuel orcs 0 msg_buf (es_proxy es')"
    using S(2,8) by (auto simp: engine_run_hyperamp_def S(3,5) tx_ready_def high_speed_init_pool_def Let_def split: option.splits)
  moreover have "sp_engine (st_pool (px_backend (es_proxy es')))" by (simp add: S(3) high_speed_init_pool_def)
  ultimately show ?thesis
    using S(1,4,6,7,9) by (intro exI [of _ es'] exI [of _ "es_proxy es'"] exI [of _ "px_backend (es_proxy es')"]) (simp add: S(5))
qed

lemma init_hs_net_dev_error_frame:
  assumes "engine_init_hs_net_dev orc mm file st = Some (BACKEND_PROXY_PROCESS_ERROR, st')"
  shows "\<exists>m nodes. st' = st\<lparr>st_eng := (st_eng st)\<lparr>be_active_mask := m\<rparr>, st_node := nodes\<rparr>"
proof (cases "st' = st")
  case True
  then show ?thesis by (intro exI [of _ "be_active_mask (st_eng st)"] exI [of _ "st_node st"]) simp
next
  case False
  then show ?thesis
    using assms unfolding engine_init_hs_net_dev_def Let_def
    by (auto simp: proxy_codes split: if_splits option.splits prod.splits)
qed

text \<open>
  A refused configuration ends the program.  When a network device is refused, the program
  neither reads a message nor opens, closes or sends on a descriptor: the main loop is left at once,
  for want of queues, and the shutdown finds nothing to release.
\<close>

lemma refused_devices_end_program:
  assumes "st = px_backend (es_proxy es)" "st0 = st\<lparr>st_eng := cleared_engine (st_eng st)\<rparr>"
    and "engine_init_hs_net_dev (io_dev orc) (io_dev_mem orc) (io_dev_file orc) st0
      = Some (BACKEND_PROXY_PROCESS_ERROR, st1)"
  shows "\<exists>es'. main orc n fuel orcs msg_buf ok es = Some (False, es')
    \<and> st_trace (px_backend (es_proxy es')) = st_trace st \<and> st_sess (px_backend (es_proxy es')) = st_sess st
    \<and> te_mem (be_tx (st_eng (px_backend (es_proxy es')))) = te_mem (be_tx (st_eng st))"
proof -
  obtain m nodes where st1: "st1 = st0\<lparr>st_eng := (st_eng st0)\<lparr>be_active_mask := m\<rparr>, st_node := nodes\<rparr>"
    using init_hs_net_dev_error_frame [OF assms(3)] by blast
  define es1 where "es1 = set_px_backend st1 (es\<lparr>es_proxy := (es_proxy es)\<lparr>px_engine_set := True, px_backend := st0\<rparr>,
    es_epfd := 0, es_iot := \<lparr>ie_iot_dev_set = None, ie_iot_dev_num = 0\<rparr>\<rparr>)"
  have init: "engine_init orc es = Some es1"
    using assms by (simp add: engine_init_def es1_def proxy_codes Let_def)
  have px: "px_backend (es_proxy es1) = st1" "px_engine_set (es_proxy es1)"
    by (simp_all add: es1_def set_px_backend_def)
  have run: "engine_run_hyperamp n fuel orcs msg_buf (es_proxy es1) = Some (False, msg_buf, es_proxy es1)"
    using px by (simp add: engine_run_hyperamp_def st1 assms(2) cleared_engine_def)
  have "engine_destory_hs_net_dev ok True (es_epfd es1) st1 = Some st1"
    by (simp add: engine_destory_hs_net_dev_def st1 assms(2) cleared_engine_def)
  then show ?thesis
    using init run px by (simp add: main_def engine_destory_def st1 assms(2) cleared_engine_def)
qed


section \<open>Listeners\<close>

text \<open>
  The configuration opens no listener, so the listener loop accepts nothing on the devices of a
  started engine, whatever is waiting.
\<close>

lemma listener_loop_idle:
  assumes "\<forall>i \<in> set is. hd_tcp_listener (get_dev i st) = -1"
  shows "listener_loop acc is st = Some (True, st)"
  using assms by (induction "is") (simp_all add: listener_step_def)

lemma listener_never_accepts:
  assumes "engine_init_hs_net_dev orc mm file st = Some (BACKEND_PROXY_PROCESS_OK, st1)"
    and "be_active_mask (st_eng st) = 0" "be_dev_set (st_eng st') = be_dev_set (st_eng st1)"
    and "be_dev_num (st_eng st') = be_dev_num (st_eng st1)"
  shows "engine_listener_run acc b st' = Some (True, st')"
proof -
  have "\<forall>i < unat (be_dev_num (st_eng st')). hd_tcp_listener (get_dev i st') = -1"
    using hs_devices_spec [OF assms(1,2)] assms(3,4) by (auto simp: get_dev_def unused_dev_def)
  then show ?thesis
    using listener_loop_idle [of "[0..<unat (be_dev_num (st_eng st'))]" st' acc] by (simp add: engine_listener_run_def)
qed

text \<open>The command that announces an accepted connection, on the transmit queue.\<close>

definition passive_create_bytes :: "u16 \<Rightarrow> u16 \<Rightarrow> bytes \<Rightarrow> bytes" where
  "passive_create_bytes i dev_id endpoint =
     enc_ProxyMsgHeader \<lparr>ph_version = PROXY_PROTO_VERSION_1, ph_proxy_msg_type = PROXY_MSG_TYPE_SESS,
       ph_frontend_sess_id = FRONTEND_HANDOVER_SESSION_ID, ph_backend_sess_id = i, ph_payload_len = 20\<rparr> @
     enc_SessMsgHeader \<lparr>sh_version = PROXY_PROTO_SESS_VERSION_1, sh_msg_type = SESS_MSG_CREATE,
       sh_action_type = ACTION_TYPE_COMMAND, sh_ip_version = SESS_IPV4_PROTO, sh_payload_len = 10\<rparr> @
     put_u16 dev_id @ put_u16 SESS_TCP_PROTO @ endpoint"

lemma build_passive_create_spec:
  assumes "tx_ok cap bs env" "28 \<le> unat bs" "length endpoint = 6"
  shows "\<exists>env'. build_proxy_general_message (Some env) (Some (passive_create_header i SESS_IPV4_PROTO))
      (Some (SessIPv4Params_bytes dev_id SESS_TCP_PROTO endpoint)) 10 True MEMORY_ALLOC_AMPQUEUE True None =
      Some (if tx_room cap env then BACKEND_PROXY_PROCESS_OK else BACKEND_PROXY_PROCESS_AGAIN, Some env', None, None)
    \<and> (if tx_room cap env
       then \<exists>pad. tx_blocks env' = tx_blocks env @ [passive_create_bytes i dev_id endpoint @ pad]
       else tx_blocks env' = tx_blocks env)"
proof -
  obtain q where q: "te_hyper_tx_queue env = Some q" "queue_inv (te_data_region env) cap bs q"
    and e: "te_mem_pool env" "te_data_region env \<noteq> 0" "unat bs \<le> sizeof_tx_buf"
    using assms(1) by (auto simp: tx_ok_def tx_ready_def split: option.splits)
  let ?h = "passive_create_header i SESS_IPV4_PROTO"
  let ?p = "SessIPv4Params_bytes dev_id SESS_TCP_PROTO endpoint"
  let ?sh = "\<lparr>sh_version = PROXY_PROTO_SESS_VERSION_1, sh_msg_type = SESS_MSG_CREATE,
        sh_action_type = ACTION_TYPE_COMMAND, sh_ip_version = SESS_IPV4_PROTO, sh_payload_len = 10\<rparr>"
  have len: "length ?p = 10" using assms(3) by (simp add: SessIPv4Params_bytes_def put_u16_def)
  have inner: "build_inner_message ?h ?p 10 = Some (BACKEND_PROXY_PROCESS_OK, 10, enc_SessMsgHeader ?sh @ ?p)"
    using len by (intro build_sess_inner [where rest = "[]"])
      (auto simp: passive_create_header_def SESS_MSG_HEADER_PAYLOAD_LEN_def SESS_MSG_PAYLOAD_LEN_def msg_codes)
  have bytes: "outer_message ?h 10 10 (enc_SessMsgHeader ?sh @ ?p) = passive_create_bytes i dev_id endpoint"
    using assms(3) by (simp add: outer_message_def passive_create_bytes_def passive_create_header_def SessIPv4Params_bytes_def)
  from build_ampqueue_delivers [OF inner _ _ e(3) q, of None] len assms(2) show ?thesis
    unfolding bytes using e q(1)
    by (fastforce simp: build_proxy_general_message_def tx_blocks_def split: if_splits)
qed

text \<open>
  C36.  An accepted connection becomes a session.  When a device with a listener accepts a
  connection, an id, session memory and a free node are there and the transmit queue has room, the
  connection gets a session with the first free id and its descriptor, linked to the device through
  its first free node; the frontend is sent a create command with the id, the device and the address
  and port of the peer; and the descriptor becomes non-blocking.  The session table does not change.
\<close>

theorem accepted_connection_announced:
  assumes "dev = get_dev cnt st" "hd_tcp_listener dev \<noteq> -1" "ac_fd acc \<noteq> -1"
    and "hd_dev_id dev = int cnt" "cnt < MAX_HS_DEV_NUM" "length (be_dev_set (st_eng st)) = MAX_HS_DEV_NUM"
    and "sp_engine (st_pool st)" "be_ops (st_eng st)" "sp_ops (st_pool st)"
    and "so_malloc (ac_sess acc) = Some (p, mem0)" "sp_id_queue (st_pool st) = i # ids" "i \<noteq> 0"
    and "hd_free_node_queue dev = n # free"
    and "tx_ok cap bs (be_tx (st_eng st))" "28 \<le> unat bs" "tx_room cap (be_tx (st_eng st))"
  shows "\<exists>st' s pad. listener_step acc cnt st = Some (True, st')
    \<and> st_sess st' = (st_sess st)(p \<mapsto> s) \<and> bs_backend_sess_id s = i \<and> bs_sock_fd s = ac_fd acc
    \<and> bs_dev_id s = int cnt \<and> bs_sess_node s = Some n \<and> st_node st' n = Some (Some p)
    \<and> get_dev cnt st' = dev\<lparr>hd_free_node_queue := free, hd_tcp_node_queue := hd_tcp_node_queue dev @ [n]\<rparr>
    \<and> sp_id_queue (st_pool st') = ids \<and> high_speed_search_sess st' = high_speed_search_sess st
    \<and> tx_blocks (be_tx (st_eng st')) = tx_blocks (be_tx (st_eng st)) @
        [passive_create_bytes i (of_nat cnt) (COPY_IN_TO_IPV4 (ac_addr acc) @ put_u16 (htons (ac_port acc))) @ pad]
    \<and> st_trace st' = st_trace st @ [Ev_nonblocking (ac_fd acc)]"
proof -
  let ?peer = "COPY_IN_TO_IPV4 (ac_addr acc) @ put_u16 (htons (ac_port acc))"
  have d: "unat (word_of_int (int cnt) :: u16) = cnt" "uint (word_of_int (int cnt) :: u16) = int cnt"
    using assms(5) by (simp_all add: dev_codes unsigned_of_nat take_bit_nat_eq_self)
  have "length ?peer = 6" by (simp add: COPY_IN_TO_IPV4_def put_u16_def Let_def)
  from build_passive_create_spec [OF assms(14,15) this, of i "of_nat cnt"] assms(16)
  obtain t pad where B: "build_proxy_general_message (Some (be_tx (st_eng st)))
       (Some (passive_create_header i SESS_IPV4_PROTO))
       (Some (SessIPv4Params_bytes (of_nat cnt) SESS_TCP_PROTO ?peer)) 10 True MEMORY_ALLOC_AMPQUEUE True None
      = Some (BACKEND_PROXY_PROCESS_OK, Some t, None, None)"
    "tx_blocks t = tx_blocks (be_tx (st_eng st)) @ [passive_create_bytes i (of_nat cnt) ?peer @ pad]" by auto
  let ?s = "(init_passive_sess (passive_para acc dev) i n mem0)\<lparr>bs_sess_dev_link_state :=
      (bs_sess_dev_link_state mem0 AND NOT BACKEND_SESS_LINKED_TO_DEV_NODE) OR BACKEND_SESS_LINKED_TO_DEV_NODE\<rparr>"
  let ?st3 = "put_dev cnt (dev\<lparr>hd_free_node_queue := free, hd_tcp_node_queue := hd_tcp_node_queue dev @ [n]\<rparr>)
     (put_node n (Some p) (put_sess p ?s (set_ids ids st)))"
  have "high_speed_create_sess_passive (ac_sess acc) (Some (passive_para acc dev)) True st
      = Some (BACKEND_PROXY_PROCESS_OK, put_tx t ?st3)"
    using assms(5-13) B(1) d assms(1,4)
    by (simp add: high_speed_create_sess_passive_def passive_para_def init_passive_sess_def allocate_id_def
        HIGH_SPEED_NET_DEV_POP_FREE_SESSION_NODE_def HIGH_SPEED_NET_DEV_INSERT_SESSION_NODE_def Let_def proxy_codes
        state_upds get_dev_def SESS_UDP_PROTO_def SESS_TCP_PROTO_def)
  then have "listener_step acc cnt st = Some (True, emit (Ev_nonblocking (ac_fd acc)) (put_tx t ?st3))"
    using assms(1-3) by (simp add: listener_step_def)
  then show ?thesis
    using B(2) d assms(1,4,5,6,11)
    by (intro exI [of _ "emit (Ev_nonblocking (ac_fd acc)) (put_tx t ?st3)"] exI [of _ ?s] exI [of _ pad]
        conjI ext)
      (simp_all add: init_passive_sess_def passive_para_def high_speed_search_sess_def state_upds get_dev_def)
qed

section \<open>A concrete engine\<close>

definition off_state :: engine_state where
  "off_state = \<lparr>es_proxy = \<lparr>px_engine_set = False, px_pool_set = False,
       px_backend = sample_backend\<lparr>st_eng := channel_engine\<rparr>, px_iot = sample_iot\<rparr>,
     es_epfd = 0, es_ctx = zero_context, es_iot = \<lparr>ie_iot_dev_set = None, ie_iot_dev_num = 0\<rparr>, es_maps = []\<rparr>"

text \<open>\<open>fd\<close> is what opening the namespace returns; there is no IoT configuration.\<close>

definition sample_init :: "int \<Rightarrow> init_oracle" where
  "sample_init fd = \<lparr>io_dev = sample_dev_oracle fd, io_dev_mem = all_memory, io_dev_file = Some sample_hs_file,
     io_pool_ok = True, io_mem_pool_ok = True, io_lock_ok = True, io_epoll = 6, io_mem_fd = 3, io_page_size = 4096,
     io_mapped = Some 0x10000000, io_iot_set_ok = True, io_iot_mem = all_memory, io_iot_file = None,
     io_iot_ns = (\<lambda>_. (True, True)), io_iot = sample_iot_kernel\<rparr>"

theorem engine_init_starts_engine_witness:
  "\<exists>es'. engine_init (sample_init 9) off_state = Some es' \<and> engine_ready (es_proxy es')
    \<and> pool_inv (px_backend (es_proxy es')) \<and> tx_blocks (be_tx (st_eng (px_backend (es_proxy es')))) = []"
proof -
  let ?st = "px_backend (es_proxy off_state)"
  let ?cleared = "?st\<lparr>st_eng := cleared_engine (st_eng ?st)\<rparr>"
  obtain st1 where D: "engine_init_hs_net_dev (io_dev (sample_init 9)) (io_dev_mem (sample_init 9))
      (io_dev_file (sample_init 9)) ?cleared = Some (BACKEND_PROXY_PROCESS_OK, st1)"
    using sample_hs_runs(1) [of ?cleared] by (auto simp: sample_init_def)
  have sizes: "channel_sizes SHM_CH1_PADDR = (SHM_CH1_TOTAL_SIZE, SHM_CH1_DATA_SIZE)"
    by (simp add: channel_sizes_def)
  have f: "fits 0x10000000 SHM_CH1_TOTAL_SIZE" by (simp add: shm_layout fits_def)
  have p: "page_offset 4096 SHM_CH1_PADDR = 0" by code_simp
  have m: "te_mem (be_tx (st_eng ?st)) = created_channel SHM_CH1_PADDR 0x10000000 SHM_CH1_DATA_SIZE sample_mem"
    by (simp add: off_state_def channel_engine_def run_engine_def)
  note Q = created_channel_queues [OF sizes f refl, where m = sample_mem, unfolded channel_1_capacity]
  have i: "engine_init_iot_devices True all_memory None ns (Some \<lparr>ie_iot_dev_set = None, ie_iot_dev_num = 0\<rparr>) \<noteq> None" for ns
    by (simp add: engine_init_iot_devices_def iniparser_load_def)
  show ?thesis
    using engine_init_starts_engine [OF refl refl D, where a = "0x10000000" and base = "0x10000000" and
        n = 0 and fuel = 0 and orcs = undefined and msg_buf = "[]"] Q f p m i
    by (auto simp: sample_init_def off_state_def zero_context_def)
qed

definition listening_backend :: backend where
  "listening_backend = put_dev 1 ((sample_dev 1)\<lparr>hd_tcp_listener := 4\<rparr>) sample_backend"

definition sample_accept :: accept_oracle where
  "sample_accept = \<lparr>ac_fd = 8, ac_errno = 0, ac_addr = 0x0100000A, ac_port = 80, ac_sess = sample_oracle 0\<rparr>"

theorem accepted_connection_announced_witness:
  "\<exists>st' s pad. listener_step sample_accept 1 listening_backend = Some (True, st')
    \<and> st_sess st' 7 = Some s \<and> bs_sock_fd s = 8
    \<and> tx_blocks (be_tx (st_eng st')) = [passive_create_bytes 1 1 [10, 0, 0, 1, 0, 80] @ pad]"
proof -
  have e: "COPY_IN_TO_IPV4 0x0100000A @ put_u16 (htons 80) = [10, 0, 0, 1, 0, 80]" by code_simp
  have b: "be_tx (st_eng listening_backend) = be_tx (st_eng sample_backend)"
    "tx_blocks (be_tx (st_eng sample_backend)) = []" by code_simp+
  have d: "get_dev 1 listening_backend = (sample_dev 1)\<lparr>hd_tcp_listener := 4\<rparr>"
    "length (be_dev_set (st_eng listening_backend)) = 16" by code_simp+
  show ?thesis
    using accepted_connection_announced [of "get_dev 1 listening_backend" 1 listening_backend sample_accept 7 sample_mem0 1
        "[2, 3]" 100 "[101]" 4 32] sample_tx_ok sample_room d b
    by (auto simp: sample_accept_def sample_oracle_def sample_dev_def listening_backend_def sample_backend_def
        sample_engine_def MAX_HS_DEV_NUM_def state_upds e)
qed

end
