(* ===== verification/Engine_Shutdown.thy ===== *)
theory Engine_Shutdown
  imports Engine_Setup
begin

text \<open>
  Shutting down: \<open>engine_destory_hs_net_dev\<close> releases every session and node of the devices.
\<close>

section \<open>Deleting a session that gave up its node\<close>

definition live :: "u16 \<Rightarrow> u16 \<Rightarrow> backend \<Rightarrow> bool" where
  "live cap bs st \<longleftrightarrow> pool_inv st \<and> tx_ok cap bs (be_tx (st_eng st)) \<and> sp_engine (st_pool st)"

lemma pool_inv_same_ids:
  assumes "pool_inv st" "st_pool st' = st_pool st"
    and "\<And>q s. st_sess st q = Some s \<Longrightarrow> \<exists>s'. st_sess st' q = Some s' \<and> bs_backend_sess_id s' = bs_backend_sess_id s"
  shows "pool_inv st'"
  using assms(1,3) unfolding pool_inv_def Let_def assms(2) by (fastforce split: option.splits)

text \<open>Deleting a session that is not linked to a device touches no device and no node.\<close>

lemma delete_unlinked_sess:
  assumes "live cap bs st" "high_speed_search_sess st i = Some p" "st_sess st p = Some s"
    and "bs_sess_dev_link_state s AND BACKEND_SESS_LINKED_TO_DEV_NODE = 0"
  shows "\<exists>st' t. high_speed_delete_sess ok (Some p) st = Some (BACKEND_PROXY_PROCESS_OK, st') \<and> live cap bs st'
    \<and> st_sess st' = (st_sess st)(p := None) \<and> high_speed_search_sess st' = (high_speed_search_sess st)(i := None)
    \<and> st_node st' = st_node st \<and> st_eng st' = (st_eng st)\<lparr>be_tx := t\<rparr>
    \<and> st_trace st' = st_trace st @ [Ev_epoll_del (bs_nc_sock_fd s), Ev_close (bs_sock_fd s)]"
proof -
  have L: "pool_inv st" "tx_ok cap bs (be_tx (st_eng st))" "sp_engine (st_pool st)" using assms(1) by (auto simp: live_def)
  obtain s' st1 where D: "detached p s st s' st1"
    and run: "high_speed_delete_sess ok (Some p) st = do {
      st8 \<leftarrow> recycle_on_delete p st1;
      (_, st9) \<leftarrow> send_standalone_response (bs_frontend_sess_id s) (bs_backend_sess_id s)
         (word_of_int (bs_ip_version s)) SESS_MSG_CLOSE success_resp (free_sess p st8);
      Some (BACKEND_PROXY_PROCESS_OK, st9) }"
    using delete_sess_detaches [OF assms(3) L(3), of ok] by blast
  have R: "recycle_on_delete p st1 = Some st1"
    using D assms(4) by (simp add: recycle_on_delete_def detached_def)
  have tx: "tx_ok cap bs (be_tx (st_eng (free_sess p st1)))" using L(2) D by (simp add: detached_def)
  from send_standalone_response_spec [OF this, of SESS_MSG_CLOSE "bs_frontend_sess_id s"
      "word_of_int (bs_ip_version s)" success_resp "bs_backend_sess_id s"]
  obtain r t where T: "send_standalone_response (bs_frontend_sess_id s) (bs_backend_sess_id s)
       (word_of_int (bs_ip_version s)) SESS_MSG_CLOSE success_resp (free_sess p st1)
       = Some (r, put_tx t (free_sess p st1))" "tx_ok cap bs t"
    by (fastforce simp: IS_VALID_SESS_MSG_TYPE_def sends_def split: if_splits)
  let ?st' = "put_tx t (free_sess p st1)"
  have sess: "st_sess ?st' = (st_sess st)(p := None)" "st_pool ?st' = st_pool st1" using D by (auto simp: detached_def)
  note P = detached_pool_inv [OF L(1) assms(2,3) D sess(2,1)]
  have "high_speed_delete_sess ok (Some p) st = Some (BACKEND_PROXY_PROCESS_OK, ?st')" unfolding run using R T(1) by simp
  moreover have "live cap bs ?st'" using P(1) T(2) L(3) D by (simp add: live_def detached_def)
  ultimately show ?thesis
    using P(2) sess D by (intro exI [of _ ?st'] exI [of _ t]) (simp add: detached_def state_upds)
qed

text \<open>Nodes of live sessions, each of another one; \<open>sess_gone ns st p\<close>: \<open>p\<close> is the session of one of the nodes.\<close>

definition held :: "nat list \<Rightarrow> backend \<Rightarrow> bool" where
  "held ns st \<longleftrightarrow> distinct ns \<and> inj_on (st_node st) (set ns) \<and>
     (\<forall>n \<in> set ns. \<exists>p s. st_node st n = Some (Some p) \<and> st_sess st p = Some s \<and>
        high_speed_search_sess st (bs_backend_sess_id s) = Some p)"

definition sess_gone :: "nat list \<Rightarrow> backend \<Rightarrow> nat \<Rightarrow> bool" where
  "sess_gone ns st p \<longleftrightarrow> Some (Some p) \<in> st_node st ` set ns"

text \<open>The nodes \<open>ns\<close> with their sessions and the nodes \<open>fs\<close> are released.\<close>

definition released :: "nat list \<Rightarrow> nat list \<Rightarrow> backend \<Rightarrow> backend \<Rightarrow> bool" where
  "released ns fs st st' \<longleftrightarrow>
     st_node st' = put_nodes (ns @ fs) None (st_node st) \<and>
     st_sess st' = (\<lambda>p. if sess_gone ns st p then None else st_sess st p) \<and>
     high_speed_search_sess st' = (\<lambda>i. case high_speed_search_sess st i of None \<Rightarrow> None
        | Some p \<Rightarrow> if sess_gone ns st p then None else Some p) \<and>
     (\<exists>ev. st_trace st' = st_trace st @ ev \<and>
        (\<forall>p s. sess_gone ns st p \<and> st_sess st p = Some s \<longrightarrow> Ev_close (bs_sock_fd s) \<in> set ev))"

lemma sess_gone_append: "sess_gone (ns @ ms) st p \<longleftrightarrow> sess_gone ns st p \<or> sess_gone ms st p"
  by (auto simp: sess_gone_def)

lemma heldD:
  "held ns st \<Longrightarrow> n \<in> set ns \<Longrightarrow> \<exists>p s. st_node st n = Some (Some p) \<and> st_sess st p = Some s \<and>
     high_speed_search_sess st (bs_backend_sess_id s) = Some p"
  by (simp add: held_def)

lemma held_distinct_sess:
  assumes "held (ns @ ms) st" "n \<in> set ms" "st_node st n = Some (Some p)"
  shows "\<not> sess_gone ns st p"
proof
  assume "sess_gone ns st p"
  then obtain m where m: "m \<in> set ns" "st_node st m = Some (Some p)" unfolding sess_gone_def by force
  have "inj_on (st_node st) (set ns \<union> set ms)" "set ns \<inter> set ms = {}" using assms(1) by (auto simp: held_def)
  then show False using m assms(2,3) by (metis IntI Un_iff empty_iff inj_onD)
qed

lemma held_after:
  assumes "released ns fs st st'" "held (ns @ ms) st" "set fs \<inter> set ms = {}"
  shows "held ms st'" "n \<in> set ms \<Longrightarrow> st_node st' n = st_node st n"
proof -
  have H: "distinct ms" "set ns \<inter> set ms = {}" "inj_on (st_node st) (set ms)" using assms(2)
    by (auto simp: held_def inj_on_Un)
  have same: "st_node st' n = st_node st n" if "n \<in> set ms" for n
    using assms(1,3) H(2) that by (auto simp: released_def put_nodes_def)
  show "st_node st' n = st_node st n" if "n \<in> set ms" using same [OF that] .
  have "\<exists>p s. st_node st' n = Some (Some p) \<and> st_sess st' p = Some s \<and>
      high_speed_search_sess st' (bs_backend_sess_id s) = Some p" if n: "n \<in> set ms" for n
  proof -
    obtain p s where p: "st_node st n = Some (Some p)" "st_sess st p = Some s"
      "high_speed_search_sess st (bs_backend_sess_id s) = Some p"
      using heldD [OF assms(2), of n] n by auto
    then show ?thesis
      using held_distinct_sess [OF assms(2) n p(1)] same [OF n] assms(1) by (simp add: released_def)
  qed
  then show "held ms st'" using H(1,3) same by (simp add: held_def inj_on_def)
qed

lemma released_trans:
  assumes "released ns fs st st1" "released ms gs st1 st2" "held (ns @ ms) st" "set fs \<inter> set ms = {}"
  shows "released (ns @ ms) (fs @ gs) st st2"
proof -
  have gone: "sess_gone ms st1 p = sess_gone ms st p" for p
    using held_after(2) [OF assms(1,3,4)] by (simp add: sess_gone_def cong: image_cong)
  have later: "\<not> sess_gone ns st p" if "sess_gone ms st p" for p
    using that held_distinct_sess [OF assms(3)] unfolding sess_gone_def by (metis imageE)
  have "st_node st2 = put_nodes ((ns @ ms) @ (fs @ gs)) None (st_node st)"
    using assms(1,2) by (auto simp: released_def put_nodes_def)
  moreover have "st_sess st2 = (\<lambda>p. if sess_gone (ns @ ms) st p then None else st_sess st p)"
    using assms(1,2) gone by (auto simp: released_def sess_gone_append)
  moreover have "high_speed_search_sess st2 = (\<lambda>i. case high_speed_search_sess st i of None \<Rightarrow> None
        | Some p \<Rightarrow> if sess_gone (ns @ ms) st p then None else Some p)"
    using assms(1,2) gone by (auto simp: released_def sess_gone_append fun_eq_iff split: option.split)
  moreover have "\<exists>ev. st_trace st2 = st_trace st @ ev \<and>
        (\<forall>p s. sess_gone (ns @ ms) st p \<and> st_sess st p = Some s \<longrightarrow> Ev_close (bs_sock_fd s) \<in> set ev)"
  proof -
    obtain e1 e2 where E: "st_trace st1 = st_trace st @ e1" "st_trace st2 = st_trace st1 @ e2"
      "\<And>p s. sess_gone ns st p \<Longrightarrow> st_sess st p = Some s \<Longrightarrow> Ev_close (bs_sock_fd s) \<in> set e1"
      "\<And>p s. sess_gone ms st p \<Longrightarrow> st_sess st1 p = Some s \<Longrightarrow> Ev_close (bs_sock_fd s) \<in> set e2"
      using assms(1,2) gone unfolding released_def by auto
    have "Ev_close (bs_sock_fd s) \<in> set (e1 @ e2)" if "sess_gone (ns @ ms) st p" "st_sess st p = Some s" for p s
      using that E(3,4) later [of p] assms(1) by (auto simp: sess_gone_append released_def)
    then show ?thesis using E(1,2) by (intro exI [of _ "e1 @ e2"] conjI allI impI) auto
  qed
  ultimately show ?thesis unfolding released_def by blast
qed

lemma released_none: "released [] [] st st"
  by (simp add: released_def sess_gone_def fun_eq_iff split: option.split)

text \<open>Devices other than \<open>cnt\<close> keep their contents, and that one all but the queues of its sessions.\<close>

definition same_devs :: "nat \<Rightarrow> backend \<Rightarrow> backend \<Rightarrow> bool" where
  "same_devs cnt st st' \<longleftrightarrow> length (be_dev_set (st_eng st')) = length (be_dev_set (st_eng st))
     \<and> (\<forall>i. i \<noteq> cnt \<longrightarrow> get_dev i st' = get_dev i st)"

lemma same_devs_trans: "same_devs cnt st st1 \<Longrightarrow> same_devs cnt st1 st2 \<Longrightarrow> same_devs cnt st st2"
  by (simp add: same_devs_def)

lemma same_devs_put [simp]: "same_devs cnt st (put_dev cnt d st)"
  by (auto simp: same_devs_def put_dev_def get_dev_def)

lemma get_dev_put: "cnt < length (be_dev_set (st_eng st)) \<Longrightarrow> get_dev cnt (put_dev cnt d st) = d"
  by (simp add: get_dev_def put_dev_def)

lemma released_deleted:
  assumes "live cap bs st" "st_node st n = Some (Some p)" "st_sess st p = Some s"
    and "high_speed_search_sess st (bs_backend_sess_id s) = Some p" "st_sess st' = (st_sess st)(p := None)"
    and "high_speed_search_sess st' = (high_speed_search_sess st)(bs_backend_sess_id s := None)"
    and "st_node st' = st_node st" "st_trace st' = st_trace st @ [Ev_epoll_del fd, Ev_close (bs_sock_fd s)]"
  shows "released [n] [] st (free_nodes [n] st')"
proof -
  have gone: "sess_gone [n] st = (\<lambda>q. q = p)" using assms(2) by (auto simp: sess_gone_def)
  have id: "i = bs_backend_sess_id s \<longleftrightarrow> high_speed_search_sess st i = Some p" for i
    using assms(1,3,4) pool_inv_search [of st i p] by (auto simp: live_def)
  have "high_speed_search_sess st' = (\<lambda>i. case high_speed_search_sess st i of None \<Rightarrow> None
      | Some q \<Rightarrow> if q = p then None else Some q)"
    unfolding assms(6) by (auto simp: fun_eq_iff id split: option.split)
  then show ?thesis
    using assms(3,5,7,8) unfolding released_def gone
    by (auto simp: free_nodes_def high_speed_search_sess_def [abs_def])
qed

text \<open>One node: the session is deleted, the node freed.\<close>

definition other_queues :: "bool \<Rightarrow> HighSpeedNetDevice \<Rightarrow> HighSpeedNetDevice \<Rightarrow> bool" where
  "other_queues tcp d d' \<longleftrightarrow> hd_free_node_queue d' = hd_free_node_queue d
     \<and> (if tcp then hd_udp_node_queue d' = hd_udp_node_queue d else hd_tcp_node_queue d' = hd_tcp_node_queue d)"

lemma release_one:
  assumes "live cap bs st" "held (n # ns) st" "cnt < length (be_dev_set (st_eng st))"
  shows "\<exists>st'. release_sess_nodes ok tcp cnt (n # ns) st = release_sess_nodes ok tcp cnt ns st' \<and> live cap bs st'
    \<and> released [n] [] st st' \<and> same_devs cnt st st' \<and> other_queues tcp (get_dev cnt st) (get_dev cnt st')"
proof -
  obtain p s where p: "st_node st n = Some (Some p)" "st_sess st p = Some s"
    "high_speed_search_sess st (bs_backend_sess_id s) = Some p"
    using heldD [OF assms(2), of n] by auto
  define s1 where "s1 = s\<lparr>bs_sess_dev_link_state := bs_sess_dev_link_state s AND NOT BACKEND_SESS_LINKED_TO_DEV_NODE\<rparr>"
  have s1_sock: "bs_sock_fd s1 = bs_sock_fd s" by (simp add: s1_def)
  define st1 where "st1 = put_sess p s1 (unqueue_node tcp cnt n st)"
  have frame: "st_sess st1 = (st_sess st)(p \<mapsto> s1)" "st_pool st1 = st_pool st" "st_node st1 = st_node st"
    "st_trace st1 = st_trace st" "be_tx (st_eng st1) = be_tx (st_eng st)"
    by (simp_all add: st1_def unqueue_node_def state_upds)
  have clear: "clear_dev_link p (unqueue_node tcp cnt n st) = Some st1"
    using p(2) by (simp add: clear_dev_link_def st1_def s1_def unqueue_node_def)
  have "pool_inv st1"
    by (rule pool_inv_same_ids [of st]) (use assms(1) p(2) in \<open>auto simp: live_def frame s1_def\<close>)
  then have live1: "live cap bs st1" using assms(1) by (simp add: live_def frame)
  have search: "high_speed_search_sess st1 = high_speed_search_sess st"
    by (rule ext) (simp add: high_speed_search_sess_def frame)
  have "bs_sess_dev_link_state s1 AND BACKEND_SESS_LINKED_TO_DEV_NODE = 0" by (simp add: s1_def)
  moreover have "high_speed_search_sess st1 (bs_backend_sess_id s) = Some p" "st_sess st1 p = Some s1"
    using p(3) by (simp_all add: search frame)
  ultimately obtain st2 t where D0: "high_speed_delete_sess (ok p) (Some p) st1 = Some (BACKEND_PROXY_PROCESS_OK, st2)"
    "live cap bs st2" "st_sess st2 = (st_sess st1)(p := None)"
    "high_speed_search_sess st2 = (high_speed_search_sess st1)(bs_backend_sess_id s := None)"
    "st_node st2 = st_node st1" "st_eng st2 = (st_eng st1)\<lparr>be_tx := t\<rparr>"
    "st_trace st2 = st_trace st1 @ [Ev_epoll_del (bs_nc_sock_fd s1), Ev_close (bs_sock_fd s1)]"
    using delete_unlinked_sess [OF live1] by blast
  note D = D0(1,2) D0(3) [unfolded frame fun_upd_upd] D0(4) [unfolded search] D0(5) [unfolded frame] D0(6)
    D0(7) [unfolded frame]
  let ?st' = "free_nodes [n] st2"
  have "release_sess_nodes ok tcp cnt (n # ns) st = release_sess_nodes ok tcp cnt ns ?st'"
    using p(1) clear D(1) by simp
  moreover have "live cap bs ?st'" using D(2) by (simp add: live_def free_nodes_def pool_inv_def)
  moreover have "released [n] [] st ?st'"
    by (rule released_deleted [OF assms(1) p D(3,4,5,7) [unfolded s1_sock]])
  moreover have "same_devs cnt st ?st'" "other_queues tcp (get_dev cnt st) (get_dev cnt ?st')"
    using assms(3)
    by (simp_all add: same_devs_def get_dev_def other_queues_def free_nodes_def D(6) st1_def unqueue_node_def put_dev_def)
  ultimately show ?thesis by blast
qed

lemma release_sess_nodes_spec:
  assumes "live cap bs st" "held ns st" "cnt < length (be_dev_set (st_eng st))"
  shows "\<exists>st'. release_sess_nodes ok tcp cnt ns st = Some st' \<and> live cap bs st'
    \<and> released ns [] st st' \<and> same_devs cnt st st' \<and> other_queues tcp (get_dev cnt st) (get_dev cnt st')"
  using assms
proof (induction ns arbitrary: st)
  case Nil
  then show ?case by (simp add: released_none same_devs_def other_queues_def)
next
  case (Cons n ns)
  obtain st1 where R: "release_sess_nodes ok tcp cnt (n # ns) st = release_sess_nodes ok tcp cnt ns st1" "live cap bs st1"
    "released [n] [] st st1" "same_devs cnt st st1" "other_queues tcp (get_dev cnt st) (get_dev cnt st1)"
    using release_one [OF Cons.prems] by blast
  have h: "held ([n] @ ns) st" using Cons.prems(2) by simp
  have "held ns st1" using held_after(1) [OF R(3) h] by simp
  moreover have "cnt < length (be_dev_set (st_eng st1))" using R(4) Cons.prems(3) by (simp add: same_devs_def)
  ultimately obtain st' where S: "release_sess_nodes ok tcp cnt ns st1 = Some st'" "live cap bs st'"
    "released ns [] st1 st'" "same_devs cnt st1 st'" "other_queues tcp (get_dev cnt st1) (get_dev cnt st')"
    using Cons.IH [OF R(2)] by blast
  have "released ([n] @ ns) ([] @ []) st st'" using released_trans [OF R(3) S(3) h] by simp
  then show ?case
    using R(1,5) S same_devs_trans [OF R(4) S(4)] by (auto simp: other_queues_def)
qed

lemma live_frame [simp]:
  "live cap bs (emit e st) = live cap bs st" "live cap bs (put_dev i d st) = live cap bs st"
  "live cap bs (free_nodes ns st) = live cap bs st"
  by (simp_all add: live_def pool_inv_def state_upds free_nodes_def)

lemma released_put_dev: "released ns fs st st1 \<Longrightarrow> released ns fs st (put_dev i d st1)"
  by (simp add: released_def state_upds high_speed_search_sess_def [abs_def])

lemma released_free: 
  assumes "released ns fs st st1"
  shows "released ns (fs @ gs) st (free_nodes gs st1)"
proof -
  have "put_nodes gs None (put_nodes (ns @ fs) None f) = put_nodes (ns @ fs @ gs) None f" for f :: "nat \<Rightarrow> nat option option"
    by (auto simp: put_nodes_def fun_eq_iff)
  then show ?thesis
    using assms unfolding released_def by (simp add: free_nodes_def high_speed_search_sess_def [abs_def])
qed

lemma released_emit: "released [] [] st (emit e st)"
  using released_none [of st] by (simp add: released_def state_upds high_speed_search_sess_def [abs_def] sess_gone_def)

lemmas released_frame = released_put_dev released_free released_emit

lemma held_frame [simp]: "held ns (put_dev i d st) = held ns st" "held ns (emit e st) = held ns st"
  by (simp_all add: held_def high_speed_search_sess_def state_upds)

abbreviation sess_nodes :: "HighSpeedNetDevice \<Rightarrow> nat list" where
  "sess_nodes d \<equiv> hd_tcp_node_queue d @ hd_udp_node_queue d"

definition no_nodes :: "HighSpeedNetDevice \<Rightarrow> bool" where
  "no_nodes d \<longleftrightarrow> hd_tcp_node_queue d = [] \<and> hd_udp_node_queue d = [] \<and> hd_free_node_queue d = []"

lemma close_listener_frame:
  "live cap bs (close_listener cnt st) = live cap bs st" "released [] [] st (close_listener cnt st)"
  "held ns (close_listener cnt st) = held ns st" "same_devs i st (close_listener cnt st)"
  "get_dev i (close_listener cnt st) = get_dev i st" "be_dev_set (st_eng (close_listener cnt st)) = be_dev_set (st_eng st)"
  by (simp_all add: close_listener_def released_frame released_none same_devs_def get_dev_def Let_def)

lemma release_dev_spec:
  assumes "live cap bs st" "d = get_dev cnt st" "held (sess_nodes d) st" "cnt < length (be_dev_set (st_eng st))"
  shows "\<exists>st'. release_dev ok cnt st = Some st' \<and> live cap bs st' \<and> same_devs cnt st st' \<and> no_nodes (get_dev cnt st')
    \<and> released (sess_nodes d) (hd_free_node_queue d) st st'"
proof -
  let ?t = "hd_tcp_node_queue d" and ?u = "hd_udp_node_queue d" and ?f = "hd_free_node_queue d"
  define st0 where "st0 = close_listener cnt st"
  have z: "live cap bs st0" "held (?t @ ?u) st0" "cnt < length (be_dev_set (st_eng st0))" "get_dev cnt st0 = d"
    "released [] [] st st0" "same_devs cnt st st0"
    using assms by (simp_all add: st0_def close_listener_frame)
  have "held ?t st0" using z(2) by (auto simp: held_def inj_on_def)
  from release_sess_nodes_spec [OF z(1) this z(3), of ok True] z(4) obtain st1 where A:
    "release_sess_nodes ok True cnt ?t st0 = Some st1" "live cap bs st1" "released ?t [] st0 st1"
    "same_devs cnt st0 st1" "hd_udp_node_queue (get_dev cnt st1) = ?u" "hd_free_node_queue (get_dev cnt st1) = ?f"
    by (auto simp: other_queues_def)
  define st2 where "st2 = put_dev cnt ((get_dev cnt st1)\<lparr>hd_tcp_node_queue := []\<rparr>) st1"
  have len: "cnt < length (be_dev_set (st_eng st1))" "cnt < length (be_dev_set (st_eng st2))"
    using A(4) z(3) by (auto simp: st2_def same_devs_def put_dev_def)
  have dev2: "get_dev cnt st2 = (get_dev cnt st1)\<lparr>hd_tcp_node_queue := []\<rparr>"
    using len(1) by (simp add: st2_def get_dev_put)
  have r2: "released ?t [] st0 st2" using A(3) by (simp add: st2_def released_frame)
  have "live cap bs st2" "held ?u st2" using A(2) held_after(1) [OF r2 z(2)] by (simp_all add: st2_def)
  from release_sess_nodes_spec [OF this len(2), of ok False] dev2 A(5,6) obtain st3 where B:
    "release_sess_nodes ok False cnt ?u st2 = Some st3" "live cap bs st3" "released ?u [] st2 st3"
    "same_devs cnt st2 st3" "hd_tcp_node_queue (get_dev cnt st3) = []" "hd_free_node_queue (get_dev cnt st3) = ?f"
    by (auto simp: other_queues_def)
  define st4 where "st4 = put_dev cnt ((get_dev cnt st3)\<lparr>hd_udp_node_queue := []\<rparr>) st3"
  have len3: "cnt < length (be_dev_set (st_eng st3))" using B(4) len(2) by (simp add: same_devs_def)
  have dev4: "get_dev cnt st4 = (get_dev cnt st3)\<lparr>hd_udp_node_queue := []\<rparr>"
    using len3 by (simp add: st4_def get_dev_put)
  define st' where "st' = put_dev cnt ((get_dev cnt (free_nodes ?f st4))\<lparr>hd_free_node_queue := []\<rparr>) (free_nodes ?f st4)"
  have "release_dev ok cnt st = Some st'"
    unfolding release_dev_def
    using A(1,5) B(1,6) z(4) dev2 dev4 by (simp add: st0_def [symmetric] st2_def [symmetric] st4_def [symmetric] st'_def Let_def)
  moreover have "live cap bs st'" using B(2) by (simp add: st'_def st4_def)
  moreover have "same_devs cnt st st'" "no_nodes (get_dev cnt st')"
    using z(6) A(4) B(4,5) len len3 dev4
    by (auto simp: same_devs_def st'_def st4_def st2_def free_nodes_def get_dev_def put_dev_def no_nodes_def)
  moreover have "released (?t @ ?u) ?f st st'"
  proof -
    have "released (?t @ ?u) [] st0 st3" using released_trans [OF r2 B(3) z(2)] by simp
    then have "released (?t @ ?u) ([] @ ?f) st0 st'"
      unfolding st'_def st4_def by (intro released_frame)
    then show ?thesis using released_trans [OF z(5), of "?t @ ?u" "[] @ ?f" st'] assms(2,3) by simp
  qed
  ultimately show ?thesis by blast
qed

text \<open>All devices.\<close>

definition all_sess_nodes :: "nat list \<Rightarrow> backend \<Rightarrow> nat list" where
  "all_sess_nodes is st = concat (map (\<lambda>i. sess_nodes (get_dev i st)) is)"

definition all_free_nodes :: "nat list \<Rightarrow> backend \<Rightarrow> nat list" where
  "all_free_nodes is st = concat (map (\<lambda>i. hd_free_node_queue (get_dev i st)) is)"

lemma all_nodes_same:
  assumes "same_devs cnt st st'" "cnt \<notin> set is"
  shows "all_sess_nodes is st' = all_sess_nodes is st" "all_free_nodes is st' = all_free_nodes is st"
proof -
  have "get_dev i st' = get_dev i st" if "i \<in> set is" for i using assms that by (auto simp: same_devs_def)
  then show "all_sess_nodes is st' = all_sess_nodes is st" "all_free_nodes is st' = all_free_nodes is st"
    by (simp_all add: all_sess_nodes_def all_free_nodes_def cong: map_cong)
qed

lemma release_devs_spec:
  assumes "live cap bs st" "held (all_sess_nodes is st) st" "distinct is"
    and "\<forall>i \<in> set is. i < length (be_dev_set (st_eng st))"
    and "set (all_free_nodes is st) \<inter> set (all_sess_nodes is st) = {}"
  shows "\<exists>st'. release_devs ok is st = Some st' \<and> live cap bs st'
    \<and> released (all_sess_nodes is st) (all_free_nodes is st) st st'
    \<and> (\<forall>i \<in> set is. no_nodes (get_dev i st')) \<and> (\<forall>i. i \<notin> set is \<longrightarrow> get_dev i st' = get_dev i st)"
  using assms
proof (induction "is" arbitrary: st)
  case Nil
  then show ?case by (simp add: all_sess_nodes_def all_free_nodes_def released_none)
next
  case (Cons c "is")
  let ?ns = "sess_nodes (get_dev c st)" and ?fs = "hd_free_node_queue (get_dev c st)"
  have split: "all_sess_nodes (c # is) st = ?ns @ all_sess_nodes is st"
    "all_free_nodes (c # is) st = ?fs @ all_free_nodes is st"
    by (simp_all add: all_sess_nodes_def all_free_nodes_def)
  have h: "held (?ns @ all_sess_nodes is st) st" "held ?ns st"
    using Cons.prems(2) split(1) by (auto simp: held_def inj_on_def)
  have disj: "set ?fs \<inter> set (all_sess_nodes is st) = {}" "set (all_free_nodes is st) \<inter> set (all_sess_nodes is st) = {}"
    using Cons.prems(5) unfolding split by auto
  obtain st1 where A: "release_dev ok c st = Some st1" "live cap bs st1" "same_devs c st st1" "no_nodes (get_dev c st1)"
    "released ?ns ?fs st st1"
    using release_dev_spec [OF Cons.prems(1) refl h(2)] Cons.prems(4) by auto
  note same = all_nodes_same [OF A(3)]
  have c: "c \<notin> set is" "distinct is" using Cons.prems(3) by auto
  have "held (all_sess_nodes is st) st1" by (rule held_after(1) [OF A(5) h(1) disj(1)])
  moreover have "\<forall>i \<in> set is. i < length (be_dev_set (st_eng st1))" using Cons.prems(4) A(3) by (simp add: same_devs_def)
  ultimately obtain st' where B: "release_devs ok is st1 = Some st'" "live cap bs st'"
    "released (all_sess_nodes is st) (all_free_nodes is st) st1 st'"
    "\<forall>i \<in> set is. no_nodes (get_dev i st')" "\<forall>i. i \<notin> set is \<longrightarrow> get_dev i st' = get_dev i st1"
    using Cons.IH [OF A(2) _ c(2)] disj(2) by (auto simp: same [OF c(1)])
  have "released (all_sess_nodes (c # is) st) (all_free_nodes (c # is) st) st st'"
    unfolding split by (rule released_trans [OF A(5) B(3) h(1) disj(1)])
  moreover have "\<forall>i. i \<notin> set (c # is) \<longrightarrow> get_dev i st' = get_dev i st" using A(3) B(5) by (simp add: same_devs_def)
  ultimately show ?case using A(1,4) B c(1) by auto
qed

text \<open>
  C13.  Shutting down releases the devices.  In a state in which no node is in two queues and
  those in the session queues of the devices hold live sessions of the table, each another one, \<open>engine_destory_hs_net_dev\<close> ends
  normally: every node of every device is freed, each of these sessions is freed, taken out of the
  table and its descriptor closed, other sessions stay, the pool keeps its invariant and last the
  poller is closed.
\<close>

theorem shutdown_releases_devices:
  assumes "pool_inv st" "sp_engine (st_pool st)" "sp_ops (st_pool st)" "be_sess_pool (st_eng st)"
    and "tx_ok cap bs (be_tx (st_eng st))" "be_dev_set (st_eng st) \<noteq> []"
    and "is = [0..<unat (be_dev_num (st_eng st))]" "unat (be_dev_num (st_eng st)) \<le> length (be_dev_set (st_eng st))"
    and "held (all_sess_nodes is st) st" "distinct (all_sess_nodes is st @ all_free_nodes is st)"
  shows "\<exists>st' ev. engine_destory_hs_net_dev ok True epfd st = Some st' \<and> pool_inv st'
    \<and> (\<forall>i \<in> set is. no_nodes (get_dev i st'))
    \<and> (\<forall>n. st_node st' n = (if n \<in> set (all_sess_nodes is st) \<union> set (all_free_nodes is st) then None else st_node st n))
    \<and> (\<forall>p. st_sess st' p = (if \<exists>n \<in> set (all_sess_nodes is st). st_node st n = Some (Some p) then None else st_sess st p))
    \<and> (\<forall>i p. high_speed_search_sess st' i = Some p \<longleftrightarrow> high_speed_search_sess st i = Some p
          \<and> (\<forall>n \<in> set (all_sess_nodes is st). st_node st n \<noteq> Some (Some p)))
    \<and> st_trace st' = st_trace st @ ev @ [Ev_close epfd]
    \<and> (\<forall>n \<in> set (all_sess_nodes is st). \<forall>p s. st_node st n = Some (Some p) \<longrightarrow> st_sess st p = Some s \<longrightarrow>
          Ev_close (bs_sock_fd s) \<in> set ev)"
proof -
  have gone: "sess_gone ns st p \<longleftrightarrow> (\<exists>n \<in> set ns. st_node st n = Some (Some p))" for ns p
    by (force simp: sess_gone_def)
  have "live cap bs st" using assms(1,2,5) by (simp add: live_def)
  from release_devs_spec [OF this assms(9), of ok] assms(7,8,10) obtain st1 where
    R: "release_devs ok is st = Some st1" "live cap bs st1" "\<forall>i \<in> set is. no_nodes (get_dev i st1)"
    "released (all_sess_nodes is st) (all_free_nodes is st) st st1" by (auto simp: Int_commute)
  obtain ev where ev: "st_trace st1 = st_trace st @ ev"
    "\<forall>p s. sess_gone (all_sess_nodes is st) st p \<and> st_sess st p = Some s \<longrightarrow> Ev_close (bs_sock_fd s) \<in> set ev"
    using R(4) unfolding released_def by blast
  define st' where "st' = emit (Ev_close epfd) st1"
  have frame: "st_node st' = st_node st1" "st_sess st' = st_sess st1" "\<And>i. get_dev i st' = get_dev i st1"
    "\<And>i. high_speed_search_sess st' i = high_speed_search_sess st1 i" "st_trace st' = st_trace st @ ev @ [Ev_close epfd]"
    using ev(1) by (simp_all add: st'_def high_speed_search_sess_def get_dev_def emit_def)
  have "engine_destory_hs_net_dev ok True epfd st = Some st'"
    using assms(3,4,6) R(1) by (simp add: engine_destory_hs_net_dev_def st'_def assms(7))
  moreover have "pool_inv st'" using R(2) by (simp add: live_def pool_inv_def st'_def)
  moreover have "high_speed_search_sess st' i = Some p \<longleftrightarrow> high_speed_search_sess st i = Some p \<and>
      (\<forall>n \<in> set (all_sess_nodes is st). st_node st n \<noteq> Some (Some p))" for i p
    using R(4) by (auto simp: released_def frame gone split: option.splits if_splits)
  moreover have "st_node st' n = (if n \<in> set (all_sess_nodes is st) \<union> set (all_free_nodes is st) then None else st_node st n)" for n
    using R(4) by (simp add: released_def frame put_nodes_def)
  moreover have "st_sess st' p = (if \<exists>n \<in> set (all_sess_nodes is st). st_node st n = Some (Some p) then None else st_sess st p)" for p
    using R(4) by (simp add: released_def frame gone)
  moreover have "Ev_close (bs_sock_fd s) \<in> set ev"
    if "n \<in> set (all_sess_nodes is st)" "st_node st n = Some (Some p)" "st_sess st p = Some s" for n p s
    using ev(2) gone that by blast
  ultimately show ?thesis
    using R(3) frame(3,5) by (intro exI [of _ st'] exI [of _ ev]) auto
qed

definition busy_backend :: backend where
  "busy_backend = put_sess 7 run_sess (sample_backend\<lparr>
     st_eng := sample_engine\<lparr>be_dev_set := [(sample_dev 0)\<lparr>hd_tcp_node_queue := [102]\<rparr>], be_dev_num := 1\<rparr>,
     st_pool := (st_pool sample_backend)\<lparr>sp_htable := [(9, 7)], sp_sess_num := 1\<rparr>,
     st_node := (st_node sample_backend)(102 := Some (Some 7))\<rparr>)"

theorem shutdown_releases_devices_witness:
  "\<exists>st' ev. engine_destory_hs_net_dev (\<lambda>_. True) True 6 busy_backend = Some st'
    \<and> st_sess st' 7 = None \<and> st_node st' 100 = None \<and> st_node st' 102 = None
    \<and> st_trace st' = ev @ [Ev_close 6] \<and> Ev_close 5 \<in> set ev"
proof -
  have n: "all_sess_nodes [0] busy_backend = [102]" "all_free_nodes [0] busy_backend = [100, 101]"
    "unat (be_dev_num (st_eng busy_backend)) = 1" "be_tx (st_eng busy_backend) = be_tx (st_eng sample_backend)"
    "pool_inv busy_backend" "bs_sock_fd run_sess = 5" "high_speed_search_sess busy_backend 9 = Some 7"
    "bs_backend_sess_id run_sess = 9"
    by code_simp+
  have s: "st_node busy_backend 102 = Some (Some 7)" "st_sess busy_backend 7 = Some run_sess" "st_trace busy_backend = []"
    by (simp_all add: busy_backend_def put_sess_def sample_backend_def)
  have h: "held [102] busy_backend" using s n by (simp add: held_def)
  show ?thesis
    using shutdown_releases_devices [of busy_backend 4 32 "[0]" "\<lambda>_. True" 6] sample_tx_ok n s h
    by (fastforce simp: busy_backend_def put_sess_def sample_backend_def sample_engine_def)
qed

end
