(* ===== verification/Uthash.thy ===== *)
theory Uthash
  imports Session_Lemmas
begin

text \<open>
  The hash table behind the session pool (\<open>src/include/uthash.h\<close>): the macros the pool expands,
  with the Jenkins hash, the doubling of the buckets and the list in order of insertion.

  A chain of hash handles is a list; the elements are addresses.  The key of a handle points to the
  id inside the session, which does not change while the session is in the table, so the handle
  holds its bytes.  Memory is a predicate on sizes: an allocation that fails ends the program, which
  is the result \<open>None\<close>.  The Bloom filter and the consistency checks of the header are disabled.
\<close>

section \<open>Hash function\<close>

definition HASH_JEN_MIX :: "u32 \<Rightarrow> u32 \<Rightarrow> u32 \<Rightarrow> u32 \<times> u32 \<times> u32" where
  "HASH_JEN_MIX a0 b0 c0 =
     (let a = (a0 - b0 - c0) XOR drop_bit 13 c0;
          b = (b0 - c0 - a) XOR push_bit 8 a;
          c = (c0 - a - b) XOR drop_bit 13 b;
          a = (a - b - c) XOR drop_bit 12 c;
          b = (b - c - a) XOR push_bit 16 a;
          c = (c - a - b) XOR drop_bit 5 b;
          a = (a - b - c) XOR drop_bit 3 c;
          b = (b - c - a) XOR push_bit 10 a;
          c = (c - a - b) XOR drop_bit 15 b
      in (a, b, c))"

definition jen_byte :: "bytes \<Rightarrow> nat \<Rightarrow> nat \<Rightarrow> u32" where
  "jen_byte key i shift = push_bit shift (ucast (key ! i))"

definition jen_word :: "bytes \<Rightarrow> nat \<Rightarrow> u32" where
  "jen_word key i = jen_byte key i 0 + jen_byte key (i + 1) 8 + jen_byte key (i + 2) 16 + jen_byte key (i + 3) 24"

function jen_loop :: "bytes \<Rightarrow> u32 \<times> u32 \<times> u32 \<Rightarrow> bytes \<times> u32 \<times> u32 \<times> u32" where
  "jen_loop key (i, j, h) =
     (if 12 \<le> length key
      then jen_loop (drop 12 key) (HASH_JEN_MIX (i + jen_word key 0) (j + jen_word key 4) (h + jen_word key 8))
      else (key, i, j, h))"
  by pat_completeness auto
termination by (relation "measure (\<lambda>(key, _). length key)") auto

text \<open>A byte of the switch, which falls through from the number of bytes left.\<close>

definition jen_rest :: "bytes \<Rightarrow> nat \<Rightarrow> nat \<Rightarrow> u32" where
  "jen_rest key i shift = (if i < length key then jen_byte key i shift else 0)"

definition HASH_JEN :: "bytes \<Rightarrow> u32" where
  "HASH_JEN key =
     (let (rest, i, j, h) = jen_loop key (0x9e3779b9, 0x9e3779b9, 0xfeedbeef);
          h = h + of_nat (length key) + jen_rest rest 10 24 + jen_rest rest 9 16 + jen_rest rest 8 8;
          j = j + jen_rest rest 7 24 + jen_rest rest 6 16 + jen_rest rest 5 8 + jen_rest rest 4 0;
          i = i + jen_rest rest 3 24 + jen_rest rest 2 16 + jen_rest rest 1 8 + jen_rest rest 0 0
      in snd (snd (HASH_JEN_MIX i j h)))"


section \<open>Tables\<close>

record UT_hash_handle =
  ut_elem :: nat
  ut_key :: bytes
  ut_keylen :: u32
  ut_hashv :: u32

record UT_hash_bucket =
  hh_head :: "UT_hash_handle list"
  ut_count :: u32
  expand_mult :: u32

text \<open>\<open>ut_order\<close> is the list through \<open>next\<close> and \<open>prev\<close>, from the head to the tail.\<close>

record UT_hash_table =
  buckets :: "UT_hash_bucket list"
  num_buckets :: u32
  log2_num_buckets :: u32
  num_items :: u32
  ut_order :: "UT_hash_handle list"
  ideal_chain_maxlen :: u32
  nonideal_items :: u32
  ineff_expands :: u32
  noexpand :: bool

definition HASH_INITIAL_NUM_BUCKETS :: u32 where "HASH_INITIAL_NUM_BUCKETS = 32"
definition HASH_INITIAL_NUM_BUCKETS_LOG2 :: u32 where "HASH_INITIAL_NUM_BUCKETS_LOG2 = 5"
definition HASH_BKT_CAPACITY_THRESH :: u32 where "HASH_BKT_CAPACITY_THRESH = 10"

definition sizeof_UT_hash_table :: nat where "sizeof_UT_hash_table = 64"
definition sizeof_UT_hash_bucket :: nat where "sizeof_UT_hash_bucket = 16"

lemmas uthash_codes = HASH_INITIAL_NUM_BUCKETS_def HASH_INITIAL_NUM_BUCKETS_LOG2_def HASH_BKT_CAPACITY_THRESH_def
  sizeof_UT_hash_table_def sizeof_UT_hash_bucket_def

definition empty_bucket :: UT_hash_bucket where
  "empty_bucket = \<lparr>hh_head = [], ut_count = 0, expand_mult = 0\<rparr>"

definition HASH_TO_BKT :: "u32 \<Rightarrow> u32 \<Rightarrow> nat" where
  "HASH_TO_BKT hashv num_bkts = unat (hashv AND (num_bkts - 1))"

fun HASH_FIND_IN_BKT :: "UT_hash_handle list \<Rightarrow> bytes \<Rightarrow> u32 \<Rightarrow> nat option" where
  "HASH_FIND_IN_BKT [] key hashv = None"
| "HASH_FIND_IN_BKT (h # hs) key hashv =
     (if ut_hashv h = hashv \<and> ut_keylen h = of_nat (length key) \<and> take (length key) (ut_key h) = key then Some (ut_elem h)
      else HASH_FIND_IN_BKT hs key hashv)"

definition HASH_FIND :: "UT_hash_table option \<Rightarrow> bytes \<Rightarrow> nat option" where
  "HASH_FIND head key =
     (case head of
        None \<Rightarrow> None
      | Some tbl \<Rightarrow>
          let hashv = HASH_JEN key
          in HASH_FIND_IN_BKT (hh_head (buckets tbl ! HASH_TO_BKT hashv (num_buckets tbl))) key hashv)"

definition HASH_MAKE_TABLE :: "(nat \<Rightarrow> bool) \<Rightarrow> UT_hash_handle \<Rightarrow> UT_hash_table option" where
  "HASH_MAKE_TABLE mem h =
     (if \<not> mem sizeof_UT_hash_table then None
      else if \<not> mem (unat HASH_INITIAL_NUM_BUCKETS * sizeof_UT_hash_bucket) then None
      else Some \<lparr>buckets = replicate (unat HASH_INITIAL_NUM_BUCKETS) empty_bucket,
        num_buckets = HASH_INITIAL_NUM_BUCKETS, log2_num_buckets = HASH_INITIAL_NUM_BUCKETS_LOG2, num_items = 0,
        ut_order = [h], ideal_chain_maxlen = 0, nonideal_items = 0, ineff_expands = 0, noexpand = False\<rparr>)"

text \<open>Moving one item into the new buckets, with the number of items beyond the ideal chain length.\<close>

definition expand_item :: "u32 \<Rightarrow> u32 \<Rightarrow> UT_hash_handle \<Rightarrow> UT_hash_bucket list \<times> u32 \<Rightarrow> UT_hash_bucket list \<times> u32" where
  "expand_item new_num ideal h acc =
     (let (bs, nonideal) = acc;
          bkt = HASH_TO_BKT (ut_hashv h) new_num;
          b = bs ! bkt;
          n = ut_count b + 1
      in (bs[bkt := \<lparr>hh_head = h # hh_head b, ut_count = n,
                     expand_mult = (if n > ideal \<and> n > expand_mult b * ideal then expand_mult b + 1 else expand_mult b)\<rparr>],
          if n > ideal then nonideal + 1 else nonideal))"

text \<open>The longest chain when the items are spread evenly over twice the buckets.\<close>

definition ideal_chain :: "UT_hash_table \<Rightarrow> u32" where
  "ideal_chain tbl = drop_bit (unat (log2_num_buckets tbl + 1)) (num_items tbl)
     + (if num_items tbl AND (num_buckets tbl * 2 - 1) \<noteq> 0 then 1 else 0)"

definition HASH_EXPAND_BUCKETS :: "(nat \<Rightarrow> bool) \<Rightarrow> UT_hash_table \<Rightarrow> UT_hash_table option" where
  "HASH_EXPAND_BUCKETS mem tbl =
     (if \<not> mem (sizeof_UT_hash_bucket * unat (num_buckets tbl) * 2) then None
      else
        let ideal = ideal_chain tbl;
            (bs, nonideal) = fold (\<lambda>b. fold (expand_item (num_buckets tbl * 2) ideal) (hh_head b)) (buckets tbl)
              (replicate (unat (num_buckets tbl) * 2) empty_bucket, 0);
            ineff = (if nonideal > drop_bit 1 (num_items tbl) then ineff_expands tbl + 1 else 0)
        in Some (tbl\<lparr>buckets := bs, num_buckets := num_buckets tbl * 2, log2_num_buckets := log2_num_buckets tbl + 1,
             ideal_chain_maxlen := ideal, nonideal_items := nonideal, ineff_expands := ineff,
             noexpand := (noexpand tbl \<or> ineff > 1)\<rparr>))"

definition HASH_ADD_TO_BKT :: "(nat \<Rightarrow> bool) \<Rightarrow> nat \<Rightarrow> UT_hash_handle \<Rightarrow> UT_hash_table \<Rightarrow> UT_hash_table option" where
  "HASH_ADD_TO_BKT mem bkt h tbl =
     (let b = buckets tbl ! bkt;
          b1 = b\<lparr>hh_head := h # hh_head b, ut_count := ut_count b + 1\<rparr>;
          tbl1 = tbl\<lparr>buckets := (buckets tbl)[bkt := b1]\<rparr>
      in if ut_count b1 \<ge> (expand_mult b1 + 1) * HASH_BKT_CAPACITY_THRESH \<and> \<not> noexpand tbl1
         then HASH_EXPAND_BUCKETS mem tbl1 else Some tbl1)"

definition HASH_ADD_TO_TABLE :: "(nat \<Rightarrow> bool) \<Rightarrow> UT_hash_handle \<Rightarrow> UT_hash_table \<Rightarrow> UT_hash_table option" where
  "HASH_ADD_TO_TABLE mem h tbl =
     (let tbl1 = tbl\<lparr>num_items := num_items tbl + 1\<rparr>
      in HASH_ADD_TO_BKT mem (HASH_TO_BKT (ut_hashv h) (num_buckets tbl1)) h tbl1)"

text \<open>The handle of an element with a key.\<close>

definition handle_of :: "bytes \<Rightarrow> nat \<Rightarrow> UT_hash_handle" where
  "handle_of key p = \<lparr>ut_elem = p, ut_key = key, ut_keylen = of_nat (length key), ut_hashv = HASH_JEN key\<rparr>"

definition HASH_APPEND_LIST :: "UT_hash_handle \<Rightarrow> UT_hash_table \<Rightarrow> UT_hash_table" where
  "HASH_APPEND_LIST h tbl = tbl\<lparr>ut_order := ut_order tbl @ [h]\<rparr>"

definition HASH_ADD :: "(nat \<Rightarrow> bool) \<Rightarrow> UT_hash_table option \<Rightarrow> bytes \<Rightarrow> nat \<Rightarrow> UT_hash_table option option" where
  "HASH_ADD mem head key p =
     (let h = handle_of key p
      in do {
        tbl \<leftarrow> (case head of None \<Rightarrow> HASH_MAKE_TABLE mem h | Some tbl \<Rightarrow> Some (HASH_APPEND_LIST h tbl));
        tbl1 \<leftarrow> HASH_ADD_TO_TABLE mem h tbl;
        Some (Some tbl1) })"

definition HASH_DEL_IN_BKT :: "UT_hash_handle \<Rightarrow> UT_hash_bucket \<Rightarrow> UT_hash_bucket" where
  "HASH_DEL_IN_BKT h b =
     b\<lparr>ut_count := ut_count b - 1, hh_head := filter (\<lambda>x. ut_elem x \<noteq> ut_elem h) (hh_head b)\<rparr>"

text \<open>
  The handle of the element is inside it.  When the element is the only one the table is freed; the
  result \<open>None\<close> is the deletion of an element that is not in a table, which follows stray pointers.
\<close>

definition HASH_DELETE :: "UT_hash_table option \<Rightarrow> nat \<Rightarrow> UT_hash_table option option" where
  "HASH_DELETE head p = do {
     tbl \<leftarrow> head;
     h \<leftarrow> List.find (\<lambda>h. ut_elem h = p) (ut_order tbl);
     if length (ut_order tbl) = 1 then Some None
     else
       let bkt = HASH_TO_BKT (ut_hashv h) (num_buckets tbl)
       in Some (Some (tbl\<lparr>ut_order := filter (\<lambda>x. ut_elem x \<noteq> p) (ut_order tbl),
            buckets := (buckets tbl)[bkt := HASH_DEL_IN_BKT h (buckets tbl ! bkt)],
            num_items := num_items tbl - 1\<rparr>)) }"

end
