(* ===== verification/Uthash_Lemmas.thy ===== *)
theory Uthash_Lemmas
  imports Uthash "HOL-Library.Multiset"
begin

text \<open>
  The hash table keeps its invariant through doublings and implements the session table of the pool.
\<close>

section \<open>Invariant\<close>

text \<open>
  A table with \<open>2 ^ k\<close> buckets: every handle is in the bucket of its hash value, the counters are
  right, and the buckets hold the items of the list.
\<close>

definition handles :: "UT_hash_bucket list \<Rightarrow> UT_hash_handle list" where
  "handles bs = concat (map hh_head bs)"

definition bucket_ok :: "u32 \<Rightarrow> nat \<Rightarrow> UT_hash_bucket \<Rightarrow> bool" where
  "bucket_ok num j b \<longleftrightarrow> ut_count b = of_nat (length (hh_head b)) \<and> (\<forall>h \<in> set (hh_head b). HASH_TO_BKT (ut_hashv h) num = j)"

definition buckets_ok :: "nat \<Rightarrow> u32 \<Rightarrow> UT_hash_bucket list \<Rightarrow> bool" where
  "buckets_ok k num bs \<longleftrightarrow> k \<le> 31 \<and> num = 2 ^ k \<and> length bs = 2 ^ k \<and> (\<forall>j < 2 ^ k. bucket_ok num j (bs ! j))"

definition table_ok :: "UT_hash_table \<Rightarrow> bool" where
  "table_ok tbl \<longleftrightarrow> (\<exists>k. buckets_ok k (num_buckets tbl) (buckets tbl) \<and> log2_num_buckets tbl = of_nat k)
     \<and> mset (handles (buckets tbl)) = mset (ut_order tbl) \<and> num_items tbl = of_nat (length (ut_order tbl))"

lemma HASH_TO_BKT_less: "k \<le> 31 \<Longrightarrow> HASH_TO_BKT hashv (2 ^ k) < 2 ^ k"
proof -
  assume "k \<le> 31"
  have "HASH_TO_BKT hashv (2 ^ k) = take_bit k (unat hashv)"
    by (simp add: HASH_TO_BKT_def mask_eq_exp_minus_1 [symmetric] take_bit_eq_mask [symmetric] unsigned_take_bit_eq)
  then show ?thesis by (simp add: take_bit_nat_less_exp)
qed

lemma unat_exp_u32: "k \<le> 31 \<Longrightarrow> unat (2 ^ k :: u32) = 2 ^ k"
proof -
  assume "k \<le> 31"
  then have "(2 :: nat) ^ k < 2 ^ 32" by (intro power_strict_increasing) auto
  then show ?thesis using unat_of_nat [where 'a = 32, of "2 ^ k"] by (simp add: take_bit_nat_eq_self)
qed

lemma mset_handles_update:
  "i < length bs \<Longrightarrow> mset (handles (bs[i := b])) + mset (hh_head (bs ! i)) = mset (handles bs) + mset (hh_head b)"
proof (induction bs arbitrary: i)
  case Nil
  then show ?case by simp
next
  case (Cons a bs)
  then show ?case by (cases i) (auto simp: handles_def ac_simps)
qed

lemma handles_replicate [simp]: "handles (replicate n empty_bucket) = []"
  by (simp add: handles_def empty_bucket_def)

lemma in_handles: "j < length bs \<Longrightarrow> h \<in> set (hh_head (bs ! j)) \<Longrightarrow> h \<in> set (handles bs)"
  by (auto simp: handles_def)

lemma bucket_ok_empty [simp]: "bucket_ok num j empty_bucket"
  by (simp add: bucket_ok_def empty_bucket_def)

lemma bucket_ok_push:
  assumes "bucket_ok num j b" "HASH_TO_BKT (ut_hashv h) num = j"
  shows "bucket_ok num j \<lparr>hh_head = h # hh_head b, ut_count = ut_count b + 1, expand_mult = m\<rparr>"
  using assms by (auto simp: bucket_ok_def)

lemma buckets_ok_update:
  assumes "buckets_ok k num bs" "bucket_ok num j b"
  shows "buckets_ok k num (bs[j := b])"
proof -
  have "bucket_ok num i (bs[j := b] ! i)" if "i < 2 ^ k" for i
    using assms that by (cases "i = j") (auto simp: buckets_ok_def)
  then show ?thesis using assms(1) by (simp add: buckets_ok_def)
qed

lemma buckets_ok_bkt:
  assumes "buckets_ok k num bs"
  shows "HASH_TO_BKT hashv num < length bs" "bucket_ok num (HASH_TO_BKT hashv num) (bs ! HASH_TO_BKT hashv num)"
  using assms HASH_TO_BKT_less by (auto simp: buckets_ok_def)

lemma bucket_of:
  "buckets_ok k num bs \<Longrightarrow> j < length bs \<Longrightarrow> h \<in> set (hh_head (bs ! j)) \<Longrightarrow> HASH_TO_BKT (ut_hashv h) num = j"
  by (auto simp: buckets_ok_def bucket_ok_def)


section \<open>Lookup\<close>

lemma handle_of_simps [simp]:
  "ut_elem (handle_of key p) = p" "ut_key (handle_of key p) = key"
  "ut_keylen (handle_of key p) = of_nat (length key)" "ut_hashv (handle_of key p) = HASH_JEN key"
  by (simp_all add: handle_of_def)

lemma find_in_bkt_handle:
  assumes "\<forall>h \<in> set hs. h = handle_of (ut_key h) (ut_elem h) \<and> length (ut_key h) = length key" "inj_on ut_key (set hs)"
  shows "HASH_FIND_IN_BKT hs key (HASH_JEN key) = Some p \<longleftrightarrow> handle_of key p \<in> set hs"
  using assms
proof (induction hs)
  case Nil
  then show ?case by simp
next
  case (Cons h hs)
  have hh: "h = handle_of (ut_key h) (ut_elem h)" "length (ut_key h) = length key" using Cons.prems(1) by auto
  have h: "ut_hashv h = HASH_JEN (ut_key h)" "ut_keylen h = of_nat (length key)"
    using handle_of_simps(3,4) [of "ut_key h" "ut_elem h"] hh by simp_all
  have eq: "h = handle_of key q \<longleftrightarrow> ut_key h = key \<and> ut_elem h = q" for q
    using hh(1) handle_of_simps(1,2) by metis
  show ?case
  proof (cases "ut_key h = key")
    case True
    have "q = ut_elem h" if "handle_of key q \<in> set hs" for q
    proof -
      have "handle_of key q = h" using inj_onD [OF Cons.prems(2), of "handle_of key q" h] that True by simp
      then show ?thesis by auto
    qed
    then show ?thesis using True h hh(2) eq [of p] by auto
  next
    case False
    then show ?thesis using Cons h hh(2) eq [of p] by auto
  qed
qed


section \<open>Doubling\<close>

lemma div_round_up:
  fixes n m :: nat
  assumes "0 < m"
  shows "n div m + (if n mod m \<noteq> 0 then 1 else 0) = (n + (m - 1)) div m"
proof -
  have "n + (m - 1) = m * (n div m) + (n mod m + (m - 1))" by (simp add: mult.commute)
  then have "(n + (m - 1)) div m = n div m + (n mod m + (m - 1)) div m"
    using assms by (metis div_mult_self2 add.commute less_numeral_extra(3))
  moreover have "(n mod m + (m - 1)) div m = (if n mod m \<noteq> 0 then 1 else 0)"
    using assms mod_less_divisor [OF assms, of n] by (auto simp: div_nat_eqI)
  ultimately show ?thesis by simp
qed

text \<open>
  As the header claims, the shift and the mask compute the number of items divided by twice the
  number of buckets, rounded up.
\<close>

lemma ideal_chain_rounds_up:
  assumes "buckets_ok k (num_buckets tbl) (buckets tbl)" "log2_num_buckets tbl = of_nat k" "k < 31"
  shows "unat (ideal_chain tbl) = (unat (num_items tbl) + (2 * 2 ^ k - 1)) div (2 * 2 ^ k)"
proof -
  let ?n = "unat (num_items tbl)"
  have "unat (of_nat (Suc k) :: u32) = Suc k"
    unfolding unat_of_nat using assms(3) by (intro mod_less) simp
  moreover have "log2_num_buckets tbl + 1 = of_nat (Suc k)" by (simp add: assms(2))
  ultimately have "unat (log2_num_buckets tbl + 1) = Suc k" by metis
  moreover have "num_buckets tbl * 2 - 1 = mask (Suc k)" using assms(1) by (simp add: buckets_ok_def mask_eq_exp_minus_1)
  ultimately have d: "ideal_chain tbl = drop_bit (Suc k) (num_items tbl) + (if take_bit (Suc k) (num_items tbl) \<noteq> 0 then 1 else 0)"
    by (simp only: ideal_chain_def take_bit_eq_mask)
  have m: "take_bit (Suc k) (num_items tbl) \<noteq> 0 \<longleftrightarrow> ?n mod 2 ^ Suc k \<noteq> 0"
    using unsigned_take_bit_eq [where 'a = nat, of "Suc k" "num_items tbl"] unat_eq_0
    by (metis take_bit_eq_mod)
  have q: "unat (drop_bit (Suc k) (num_items tbl)) = ?n div 2 ^ Suc k"
    using unat_drop_bit_eq [of "Suc k" "num_items tbl"] by (metis drop_bit_eq_div)
  have "?n div 2 ^ Suc k \<le> ?n div 2" by (intro div_le_mono2) simp_all
  moreover have "?n div 2 < 2 ^ 31" using unsigned_less [where 'a = nat, of "num_items tbl"] by (simp add: less_mult_imp_div_less)
  ultimately have "?n div 2 ^ Suc k < 2 ^ 31" by linarith
  then have "unat (ideal_chain tbl) = ?n div 2 ^ Suc k + (if ?n mod 2 ^ Suc k \<noteq> 0 then 1 else 0)"
    unfolding d using q m by (simp add: unat_word_ariths del: power_Suc)
  also have "\<dots> = (?n + (2 ^ Suc k - 1)) div 2 ^ Suc k"
    by (rule div_round_up) simp
  finally show ?thesis by simp
qed

lemma expand_item_ok:
  assumes "buckets_ok k num bs" "expand_item num ideal h (bs, n) = (bs', n')"
  shows "buckets_ok k num bs' \<and> mset (handles bs') = add_mset h (mset (handles bs))"
proof -
  let ?j = "HASH_TO_BKT (ut_hashv h) num"
  obtain m where bs': "bs' = bs[?j := \<lparr>hh_head = h # hh_head (bs ! ?j), ut_count = ut_count (bs ! ?j) + 1, expand_mult = m\<rparr>]"
    using assms(2) by (auto simp: expand_item_def Let_def)
  note j = buckets_ok_bkt [OF assms(1), of "ut_hashv h"]
  have "mset (handles bs') + mset (hh_head (bs ! ?j)) = add_mset h (mset (handles bs)) + mset (hh_head (bs ! ?j))"
    unfolding bs' using mset_handles_update [OF j(1)] by simp
  then have "mset (handles bs') = add_mset h (mset (handles bs))" by (simp only: add_right_cancel)
  then show ?thesis
    using buckets_ok_update [OF assms(1) bucket_ok_push [OF j(2) refl]] bs' by simp
qed

lemma expand_items_ok:
  assumes "buckets_ok k num bs" "fold (expand_item num ideal) hs (bs, n) = (bs', n')"
  shows "buckets_ok k num bs' \<and> mset (handles bs') = mset (handles bs) + mset hs"
  using assms
proof (induction hs arbitrary: bs n)
  case (Cons h hs)
  obtain bs1 n1 where e: "expand_item num ideal h (bs, n) = (bs1, n1)" by fastforce
  from expand_item_ok [OF Cons.prems(1) e] Cons.IH [of bs1 n1] Cons.prems(2) e show ?case by simp
qed simp

lemma fold_handles: "fold (\<lambda>b. fold f (hh_head b)) bs acc = fold f (handles bs) acc"
  by (induction bs arbitrary: acc) (simp_all add: handles_def)

lemma expand_buckets_ok:
  assumes "table_ok tbl" "\<forall>n. mem n \<longrightarrow> n < 2 ^ 36"
  shows "case HASH_EXPAND_BUCKETS mem tbl of None \<Rightarrow> \<not> mem (32 * unat (num_buckets tbl))
    | Some tbl' \<Rightarrow> table_ok tbl' \<and> ut_order tbl' = ut_order tbl"
proof (cases "mem (32 * unat (num_buckets tbl))")
  case True
  obtain k where k: "buckets_ok k (num_buckets tbl) (buckets tbl)" "log2_num_buckets tbl = of_nat k"
    using assms(1) by (auto simp: table_ok_def)
  have n: "k \<le> 31" "num_buckets tbl = 2 ^ k" using k(1) by (auto simp: buckets_ok_def)
  have "32 * 2 ^ k < (2 :: nat) ^ 36" using assms(2) True n unat_exp_u32 [OF n(1)] by auto
  then have k31: "Suc k \<le> 31" using power_less_imp_less_exp [of "2 :: nat" "k + 5" 36] by (simp add: power_add)
  have fresh: "buckets_ok (Suc k) (num_buckets tbl * 2) (replicate (unat (num_buckets tbl) * 2) empty_bucket)"
    using k31 n unat_exp_u32 [of k] by (simp add: buckets_ok_def)
  obtain bs m where E: "fold (expand_item (num_buckets tbl * 2) (ideal_chain tbl)) (handles (buckets tbl))
      (replicate (unat (num_buckets tbl) * 2) empty_bucket, 0) = (bs, m)" by fastforce
  then obtain tbl' where T: "HASH_EXPAND_BUCKETS mem tbl = Some tbl'" "buckets tbl' = bs"
    "num_buckets tbl' = num_buckets tbl * 2" "log2_num_buckets tbl' = log2_num_buckets tbl + 1"
    "num_items tbl' = num_items tbl" "ut_order tbl' = ut_order tbl"
    using True by (simp add: HASH_EXPAND_BUCKETS_def sizeof_UT_hash_bucket_def fold_handles Let_def mult.commute)
  from expand_items_ok [OF fresh E] have "buckets_ok (Suc k) (num_buckets tbl') (buckets tbl')"
    "mset (handles (buckets tbl')) = mset (handles (buckets tbl))" by (simp_all add: T)
  then have "table_ok tbl'" using assms(1) k(2) T(4-6) unfolding table_ok_def by (auto intro!: exI [of _ "Suc k"])
  then show ?thesis using T by simp
next
  case False
  then show ?thesis by (simp add: HASH_EXPAND_BUCKETS_def sizeof_UT_hash_bucket_def)
qed


section \<open>Insertion\<close>

lemma add_to_bucket:
  assumes "buckets_ok k num bs" "j = HASH_TO_BKT (ut_hashv h) num" "b = bs ! j"
  shows "buckets_ok k num (bs[j := b\<lparr>hh_head := h # hh_head b, ut_count := ut_count b + 1\<rparr>])"
    "mset (handles (bs[j := b\<lparr>hh_head := h # hh_head b, ut_count := ut_count b + 1\<rparr>])) = add_mset h (mset (handles bs))"
proof -
  note j = buckets_ok_bkt [OF assms(1), of "ut_hashv h", folded assms(2)]
  have "bucket_ok num j (b\<lparr>hh_head := h # hh_head b, ut_count := ut_count b + 1\<rparr>)"
    using j(2) assms(2,3) by (auto simp: bucket_ok_def)
  then show "buckets_ok k num (bs[j := b\<lparr>hh_head := h # hh_head b, ut_count := ut_count b + 1\<rparr>])"
    by (rule buckets_ok_update [OF assms(1)])
  show "mset (handles (bs[j := b\<lparr>hh_head := h # hh_head b, ut_count := ut_count b + 1\<rparr>])) = add_mset h (mset (handles bs))"
    using mset_handles_update [OF j(1), of "b\<lparr>hh_head := h # hh_head b, ut_count := ut_count b + 1\<rparr>"] assms(3) by simp
qed

lemma add_to_table_ok:
  assumes "buckets_ok k (num_buckets tbl) (buckets tbl)" "log2_num_buckets tbl = of_nat k"
    and "mset (handles (buckets tbl)) = mset hs" "num_items tbl = of_nat (length hs)" "ut_order tbl = hs @ [h]"
    and "\<forall>n. mem n \<longrightarrow> n < 2 ^ 36"
  shows "case HASH_ADD_TO_TABLE mem h tbl of None \<Rightarrow> \<not> mem (32 * unat (num_buckets tbl))
    | Some tbl' \<Rightarrow> table_ok tbl' \<and> ut_order tbl' = hs @ [h]"
proof -
  let ?j = "HASH_TO_BKT (ut_hashv h) (num_buckets tbl)"
  let ?b = "buckets tbl ! ?j"
  define tbl1 where "tbl1 = tbl\<lparr>num_items := num_items tbl + 1,
    buckets := (buckets tbl)[?j := ?b\<lparr>hh_head := h # hh_head ?b, ut_count := ut_count ?b + 1\<rparr>]\<rparr>"
  have ok: "table_ok tbl1"
    unfolding table_ok_def
    using add_to_bucket [OF assms(1) refl refl, of h] assms(2-5)
    by (auto simp: tbl1_def intro!: exI [of _ k])
  have "HASH_ADD_TO_TABLE mem h tbl \<in> {Some tbl1, HASH_EXPAND_BUCKETS mem tbl1}"
    by (simp add: HASH_ADD_TO_TABLE_def HASH_ADD_TO_BKT_def tbl1_def Let_def)
  moreover have "num_buckets tbl1 = num_buckets tbl" "ut_order tbl1 = hs @ [h]" using assms(5) by (simp_all add: tbl1_def)
  ultimately show ?thesis using ok expand_buckets_ok [OF ok assms(6)] by (auto split: option.splits)
qed


section \<open>Refinement of the session table\<close>

text \<open>The list through the elements is the table of the session pool.\<close>

definition sess_handle :: "u16 \<times> nat \<Rightarrow> UT_hash_handle" where
  "sess_handle e = handle_of (put_u16 (fst e)) (snd e)"

definition ut_rel :: "UT_hash_table option \<Rightarrow> (u16 \<times> nat) list \<Rightarrow> bool" where
  "ut_rel head es \<longleftrightarrow> htable_inv es \<and>
     (case head of None \<Rightarrow> es = [] | Some tbl \<Rightarrow> es \<noteq> [] \<and> table_ok tbl \<and> ut_order tbl = map sess_handle es)"

text \<open>The program ends for want of memory.\<close>

definition out_of_memory :: "(nat \<Rightarrow> bool) \<Rightarrow> UT_hash_table option \<Rightarrow> bool" where
  "out_of_memory mem head \<longleftrightarrow> (case head of None \<Rightarrow> \<not> mem 64 \<or> \<not> mem 512
     | Some tbl \<Rightarrow> \<not> mem (32 * unat (num_buckets tbl)))"

lemma put_u16_inj: "put_u16 i = put_u16 j \<longleftrightarrow> i = j"
  using get_put_u16 by metis

lemma HASH_FIND_rel:
  assumes "ut_rel head es"
  shows "HASH_FIND head (put_u16 i) = hash_find es i"
proof (cases head)
  case None
  then show ?thesis using assms by (simp add: HASH_FIND_def ut_rel_def hash_find_def)
next
  case (Some tbl)
  have T: "table_ok tbl" "ut_order tbl = map sess_handle es" "distinct (map fst es)"
    using assms Some by (auto simp: ut_rel_def htable_inv_def)
  obtain k where k: "buckets_ok k (num_buckets tbl) (buckets tbl)" using T(1) by (auto simp: table_ok_def)
  let ?key = "put_u16 i"
  let ?j = "HASH_TO_BKT (HASH_JEN ?key) (num_buckets tbl)"
  let ?c = "hh_head (buckets tbl ! ?j)"
  have all: "set (handles (buckets tbl)) = sess_handle ` set es"
    using T(1,2) by (metis table_ok_def list.set_map set_mset_mset)
  have sub: "set ?c \<subseteq> sess_handle ` set es"
    using in_handles [OF buckets_ok_bkt(1) [OF k]] all by blast
  have "inj_on ut_key (sess_handle ` set es)"
    using T(3) by (auto simp: inj_on_def sess_handle_def put_u16_inj distinct_map)
  then have inj: "inj_on ut_key (set ?c)" using sub by (rule inj_on_subset)
  have "\<forall>h \<in> set ?c. h = handle_of (ut_key h) (ut_elem h) \<and> length (ut_key h) = length ?key"
    using sub by (auto simp: sess_handle_def)
  note F = find_in_bkt_handle [OF this inj]
  have "handle_of ?key p \<in> set ?c \<longleftrightarrow> (i, p) \<in> set es" for p
  proof
    assume "handle_of ?key p \<in> set ?c"
    then obtain e where "e \<in> set es" "handle_of ?key p = sess_handle e" using sub by auto
    then show "(i, p) \<in> set es"
      using put_u16_inj [of i "fst e"] by (metis handle_of_simps(1,2) prod.collapse sess_handle_def)
  next
    assume "(i, p) \<in> set es"
    then have "handle_of ?key p \<in> set (handles (buckets tbl))" using all by (force simp: sess_handle_def)
    then obtain j where "j < length (buckets tbl)" "handle_of ?key p \<in> set (hh_head (buckets tbl ! j))"
      by (auto simp: handles_def in_set_conv_nth) (metis in_set_conv_nth)
    moreover from this have "j = ?j" using bucket_of [OF k, of j "handle_of ?key p"] by simp
    ultimately show "handle_of ?key p \<in> set ?c" by simp
  qed
  then have "HASH_FIND head ?key = Some p \<longleftrightarrow> hash_find es i = Some p" for p
    using F [of p] T(3) Some by (simp add: HASH_FIND_def hash_find_def Let_def)
  then show ?thesis by (cases "hash_find es i") (metis not_Some_eq)+
qed


lemma HASH_ADD_rel:
  assumes "ut_rel head es" "hash_fresh es i p" "\<forall>n. mem n \<longrightarrow> n < 2 ^ 36"
  shows "case HASH_ADD mem head (put_u16 i) p of None \<Rightarrow> out_of_memory mem head
    | Some head' \<Rightarrow> ut_rel head' (hash_add es i p)"
proof -
  have inv: "htable_inv (hash_add es i p)" using assms(1,2) ht.inv_add by (simp add: ut_rel_def)
  let ?h = "handle_of (put_u16 i) p"
  have order: "map sess_handle (hash_add es i p) = map sess_handle es @ [?h]" by (simp add: hash_add_def sess_handle_def)
  show ?thesis
  proof (cases head)
    case None
    then have es: "es = []" using assms(1) by (simp add: ut_rel_def)
    show ?thesis
    proof (cases "mem 64 \<and> mem 512")
      case True
      obtain tbl where M: "HASH_MAKE_TABLE mem ?h = Some tbl" "ut_order tbl = [?h]" "num_items tbl = 0"
        "buckets tbl = replicate 32 empty_bucket" "num_buckets tbl = 2 ^ 5" "log2_num_buckets tbl = 5"
        using True by (simp add: HASH_MAKE_TABLE_def uthash_codes)
      have ok: "buckets_ok 5 (num_buckets tbl) (buckets tbl)" by (simp add: buckets_ok_def M)
      have "\<not> (10 :: u32) \<le> 1" by (simp add: word_le_nat_alt)
      then have "HASH_ADD_TO_TABLE mem ?h tbl \<noteq> None"
        using buckets_ok_bkt(1) [OF ok, of "ut_hashv ?h"]
        by (simp add: HASH_ADD_TO_TABLE_def HASH_ADD_TO_BKT_def M empty_bucket_def uthash_codes Let_def)
      moreover note add_to_table_ok [OF ok _ _ _ _ assms(3), of "[]" ?h]
      ultimately show ?thesis
        using None M es inv order by (auto simp: HASH_ADD_def ut_rel_def hash_add_def Let_def split: option.splits)
    next
      case False
      then have "HASH_MAKE_TABLE mem ?h = None" by (simp add: HASH_MAKE_TABLE_def uthash_codes)
      then show ?thesis using False by (simp add: None HASH_ADD_def out_of_memory_def Let_def)
    qed
  next
    case (Some tbl)
    let ?t = "HASH_APPEND_LIST ?h tbl"
    obtain k where k: "buckets_ok k (num_buckets tbl) (buckets tbl)" "log2_num_buckets tbl = of_nat k"
      using assms(1) Some by (auto simp: ut_rel_def table_ok_def)
    have "case HASH_ADD_TO_TABLE mem ?h ?t of None \<Rightarrow> \<not> mem (32 * unat (num_buckets ?t))
      | Some tbl' \<Rightarrow> table_ok tbl' \<and> ut_order tbl' = map sess_handle es @ [?h]"
      using assms(1,3) Some k by (intro add_to_table_ok [of k]) (auto simp: HASH_APPEND_LIST_def ut_rel_def table_ok_def)
    then show ?thesis
      using Some inv order
      by (auto simp: HASH_ADD_def ut_rel_def out_of_memory_def hash_add_def HASH_APPEND_LIST_def split: option.splits)
  qed
qed

lemma mset_filter_other:
  assumes "distinct (map ut_elem c)" "h \<in> set c"
  shows "mset c = add_mset h (mset (filter (\<lambda>x. ut_elem x \<noteq> ut_elem h) c))"
  using assms
proof (induction c)
  case (Cons a c)
  show ?case
  proof (cases "a = h")
    case True
    then have "filter (\<lambda>x. ut_elem x \<noteq> ut_elem h) c = c" using Cons.prems(1) by (intro filter_True) (metis distinct.simps(2) image_eqI list.set_map list.simps(9))
    then show ?thesis using True by simp
  next
    case False
    then have "ut_elem a \<noteq> ut_elem h" using Cons.prems by auto
    then show ?thesis using Cons False by (simp add: add_mset_commute)
  qed
qed simp

lemma distinct_bucket:
  assumes "distinct (map ut_elem (handles bs))" "j < length bs"
  shows "distinct (map ut_elem (hh_head (bs ! j)))"
proof -
  have "map ut_elem (handles bs) = concat (map (\<lambda>b. map ut_elem (hh_head b)) bs)"
    by (simp add: handles_def map_concat comp_def)
  then show ?thesis using assms by (auto simp: distinct_concat_iff)
qed

lemma del_in_bucket:
  assumes "buckets_ok k num bs" "j = HASH_TO_BKT (ut_hashv h) num" "h \<in> set (handles bs)"
    and "distinct (map ut_elem (handles bs))"
  shows "buckets_ok k num (bs[j := HASH_DEL_IN_BKT h (bs ! j)])"
    "mset (handles bs) = add_mset h (mset (handles (bs[j := HASH_DEL_IN_BKT h (bs ! j)])))"
proof -
  let ?c = "hh_head (bs ! j)" and ?d = "hh_head (HASH_DEL_IN_BKT h (bs ! j))"
  note j = buckets_ok_bkt [OF assms(1), of "ut_hashv h", folded assms(2)]
  obtain i where "i < length bs" "h \<in> set (hh_head (bs ! i))"
    using assms(3) by (auto simp: handles_def in_set_conv_nth) (metis in_set_conv_nth)
  then have "h \<in> set ?c" using bucket_of [OF assms(1), of i h] assms(2) by simp
  from mset_filter_other [OF distinct_bucket [OF assms(4) j(1)] this]
  have c: "mset ?c = add_mset h (mset ?d)" by (simp add: HASH_DEL_IN_BKT_def)
  then have "length ?c = Suc (length ?d)" by (metis size_add_mset size_mset)
  moreover have "set ?d \<subseteq> set ?c" by (auto simp: HASH_DEL_IN_BKT_def)
  ultimately have "bucket_ok num j (HASH_DEL_IN_BKT h (bs ! j))"
    using j(2) by (auto simp: bucket_ok_def HASH_DEL_IN_BKT_def)
  then show "buckets_ok k num (bs[j := HASH_DEL_IN_BKT h (bs ! j)])" by (rule buckets_ok_update [OF assms(1)])
  show "mset (handles bs) = add_mset h (mset (handles (bs[j := HASH_DEL_IN_BKT h (bs ! j)])))"
    using mset_handles_update [OF j(1), of "HASH_DEL_IN_BKT h (bs ! j)"] c by simp
qed


lemma HASH_DELETE_rel:
  assumes "ut_rel head es" "p \<in> snd ` set es"
  shows "\<exists>head'. HASH_DELETE head p = Some head' \<and> ut_rel head' (hash_del es p)"
proof -
  obtain i where i: "(i, p) \<in> set es" using assms(2) by force
  then obtain tbl where tbl: "head = Some tbl" "table_ok tbl" "ut_order tbl = map sess_handle es" "htable_inv es"
    using assms(1) by (cases head) (auto simp: ut_rel_def)
  let ?h = "sess_handle (i, p)"
  have elems: "map ut_elem (ut_order tbl) = map snd es" by (simp add: tbl(3) sess_handle_def comp_def)
  have dist: "distinct (map ut_elem (ut_order tbl))" using tbl(4) elems by (simp add: htable_inv_def)
  have h: "?h \<in> set (ut_order tbl)" "ut_elem ?h = p" using imageI [OF i, of sess_handle] tbl(3) by (simp_all add: sess_handle_def [of "(i, p)"])
  have find: "List.find (\<lambda>h. ut_elem h = p) (ut_order tbl) = Some ?h"
  proof -
    have "List.find (\<lambda>h. ut_elem h = p) (ut_order tbl) \<noteq> None" using h by (auto simp: find_None_iff)
    then obtain x where x: "List.find (\<lambda>h. ut_elem h = p) (ut_order tbl) = Some x" by blast
    then have "x \<in> set (ut_order tbl)" "ut_elem x = p" by (auto simp: find_Some_iff in_set_conv_nth)
    moreover have "inj_on ut_elem (set (ut_order tbl))" using dist by (simp add: distinct_map)
    ultimately have "x = ?h" using h by (auto dest: inj_onD)
    then show ?thesis using x by simp
  qed
  have order: "filter (\<lambda>x. ut_elem x \<noteq> p) (ut_order tbl) = map sess_handle (hash_del es p)"
    unfolding tbl(3) hash_del_def by (induction es) (auto simp: sess_handle_def)
  have inv: "htable_inv (hash_del es p)" using tbl(4) by blast
  have one: "mset (ut_order tbl) = add_mset ?h (mset (map sess_handle (hash_del es p)))"
    using mset_filter_other [OF dist h(1)] h(2) order by simp
  then have len: "length (ut_order tbl) = Suc (length (hash_del es p))" by (metis length_map size_add_mset size_mset)
  show ?thesis
  proof (cases "length (ut_order tbl) = 1")
    case True
    then show ?thesis using tbl(1) find len by (auto simp: HASH_DELETE_def ut_rel_def htable_inv_def)
  next
    case False
    obtain k where k: "buckets_ok k (num_buckets tbl) (buckets tbl)" "log2_num_buckets tbl = of_nat k"
      using tbl(2) by (auto simp: table_ok_def)
    let ?j = "HASH_TO_BKT (ut_hashv ?h) (num_buckets tbl)"
    define tbl1 where "tbl1 = tbl\<lparr>ut_order := filter (\<lambda>x. ut_elem x \<noteq> p) (ut_order tbl),
      buckets := (buckets tbl)[?j := HASH_DEL_IN_BKT ?h (buckets tbl ! ?j)], num_items := num_items tbl - 1\<rparr>"
    have m: "mset (handles (buckets tbl)) = mset (ut_order tbl)" using tbl(2) by (simp add: table_ok_def)
    then have "?h \<in> set (handles (buckets tbl))" "distinct (map ut_elem (handles (buckets tbl)))"
      using h(1) dist by (metis set_mset_mset, metis mset_eq_imp_distinct_iff mset_map)
    note D = del_in_bucket [OF k(1) refl this]
    have "table_ok tbl1"
      unfolding table_ok_def using D k(2) m one order len tbl(2)
      by (auto simp: tbl1_def table_ok_def intro!: exI [of _ k])
    moreover have "HASH_DELETE head p = Some (Some tbl1)" using tbl(1) find False by (simp add: HASH_DELETE_def tbl1_def Let_def)
    moreover have "hash_del es p \<noteq> []" using False len by auto
    ultimately show ?thesis using inv order by (auto simp: ut_rel_def tbl1_def)
  qed
qed


text \<open>Memory of a process: no allocation of 64 GiB succeeds.\<close>

definition process_memory :: "(nat \<Rightarrow> bool) \<Rightarrow> nat \<Rightarrow> bool" where
  "process_memory mem n \<longleftrightarrow> mem n \<and> n < 2 ^ 36"

text \<open>
  The session table as the pool uses it: an id and a session are entered when both are new, and only
  sessions of the table are removed.
\<close>

definition sess_enter :: "(u16 \<times> nat) list \<Rightarrow> u16 \<Rightarrow> nat \<Rightarrow> (u16 \<times> nat) list option" where
  "sess_enter es i p = (if hash_fresh es i p then Some (hash_add es i p) else None)"

definition sess_leave :: "(u16 \<times> nat) list \<Rightarrow> nat \<Rightarrow> (u16 \<times> nat) list option" where
  "sess_leave es p = (if p \<in> snd ` set es then Some (hash_del es p) else None)"

definition uthash_enter :: "(nat \<Rightarrow> bool) \<Rightarrow> UT_hash_table option \<Rightarrow> u16 \<Rightarrow> nat \<Rightarrow> UT_hash_table option option" where
  "uthash_enter mem head i p = HASH_ADD (process_memory mem) head (put_u16 i) p"

definition uthash_find :: "UT_hash_table option \<Rightarrow> u16 \<Rightarrow> nat option" where
  "uthash_find head i = HASH_FIND head (put_u16 i)"

interpretation uh: table_simulation ut_rel uthash_find "uthash_enter mem" HASH_DELETE hash_find sess_enter sess_leave
  "out_of_memory (process_memory mem)" for mem
proof (unfold_locales, goal_cases)
  case (1 head es i)
  then show ?case by (simp add: uthash_find_def HASH_FIND_rel)
next
  case (2 head es i p es')
  then show ?case
    using HASH_ADD_rel [of head es i p "process_memory mem"]
    by (auto simp: sess_enter_def uthash_enter_def process_memory_def split: if_splits)
next
  case (3 head es p es')
  then show ?case using HASH_DELETE_rel [of head es p] by (auto simp: sess_leave_def split: if_splits)
qed

text \<open>
  C16.  The hash table implements the session table.  Whatever sequence of insertions and removals
  the session pool performs, the table of buckets, with the Jenkins hash and its doublings, holds
  the entries of the table the pool is specified with, in the order of insertion, and every lookup
  agrees.  Otherwise the program has ended because memory for the table or for twice its buckets was
  refused.
\<close>

theorem uthash_refines_session_table:
  assumes "run_entries sess_enter sess_leave [] ops = Some es"
  shows "case run_entries (uthash_enter mem) HASH_DELETE None ops of
      None \<Rightarrow> \<exists>pre post head. ops = pre @ post \<and> run_entries (uthash_enter mem) HASH_DELETE None pre = Some head
        \<and> out_of_memory (process_memory mem) head
    | Some head \<Rightarrow> (\<forall>i. uthash_find head i = hash_find es i) \<and>
        (case head of None \<Rightarrow> es = [] | Some tbl \<Rightarrow> ut_order tbl = map sess_handle es \<and> table_ok tbl)"
proof -
  have "ut_rel None []" by (simp add: ut_rel_def htable_inv_def)
  from uh.run_refines [OF this assms, of mem] show ?thesis
    by (auto simp: ut_rel_def split: option.splits)
qed

theorem uthash_refines_session_table_witness:
  "case run_entries (uthash_enter (\<lambda>_. True)) HASH_DELETE None [Enter 1 7, Enter 2 8, Leave 7] of
      None \<Rightarrow> \<exists>pre post head. [Enter 1 7, Enter 2 8, Leave 7] = pre @ post
        \<and> run_entries (uthash_enter (\<lambda>_. True)) HASH_DELETE None pre = Some head
        \<and> out_of_memory (process_memory (\<lambda>_. True)) head
    | Some head \<Rightarrow> uthash_find head 2 = Some 8 \<and> uthash_find head 1 = None"
proof -
  have "run_entries sess_enter sess_leave [] [Enter 1 7, Enter 2 8, Leave 7] = Some [(2, 8)]"
    by (simp add: sess_enter_def sess_leave_def hash_fresh_def hash_add_def hash_del_def)
  from uthash_refines_session_table [OF this, of "\<lambda>_. True"] show ?thesis
    by (auto simp: hash_find_def split: option.splits)
qed

end
