(* ===== verification/Message_Dump.thy ===== *)
theory Message_Dump
  imports Hs_Device_Config
begin

text \<open>
  Printing messages (\<open>src/src/common_utils.c\<close>).  The queues print every message they store or
  deliver, so the reads of these functions matter: a buffer is a list of bytes, and a read past its
  end gives the result \<open>None\<close>.  What is printed is the result.
\<close>

section \<open>Formats\<close>

abbreviation nl :: string where "nl \<equiv> [CHR 0x0A]"

definition digit_char :: "nat \<Rightarrow> char" where
  "digit_char d = (char_of (if d < 10 then 48 + d else 55 + d) :: char)"

fun number :: "nat \<Rightarrow> nat \<Rightarrow> string" where
  "number base n = (if base < 2 \<or> n < base then [digit_char n] else number base (n div base) @ [digit_char (n mod base)])"

declare number.simps [simp del]

text \<open>\<open>%u\<close>, and \<open>%0wX\<close> for a width \<open>w\<close>.\<close>

definition dec :: "'a :: len word \<Rightarrow> string" where
  "dec w = number 10 (unat w)"

definition hex :: "nat \<Rightarrow> 'a :: len word \<Rightarrow> string" where
  "hex width w = (let s = number 16 (unat w) in replicate (width - length s) (CHR ''0'') @ s)"

definition line :: "string list \<Rightarrow> string" where
  "line parts = concat parts @ nl"

text \<open>The characters of an array up to its first zero byte.\<close>

definition c_string :: "bytes \<Rightarrow> string" where
  "c_string b = map (\<lambda>w. char_of (unat w)) (takeWhile (\<lambda>w. w \<noteq> 0) b)"


section \<open>Reads\<close>

definition rd :: "bytes \<Rightarrow> nat \<Rightarrow> nat \<Rightarrow> bytes option" where
  "rd buf off n = (if off + n \<le> length buf then Some (take n (drop off buf)) else None)"

definition rd_u8 :: "bytes \<Rightarrow> nat \<Rightarrow> u8 option" where
  "rd_u8 buf off = map_option (\<lambda>b. get_u8 b 0) (rd buf off 1)"

definition rd_u16 :: "bytes \<Rightarrow> nat \<Rightarrow> u16 option" where
  "rd_u16 buf off = map_option (\<lambda>b. get_u16 b 0) (rd buf off 2)"

definition rd_proxy :: "bytes \<Rightarrow> ProxyMsgHeader option" where
  "rd_proxy buf = map_option dec_ProxyMsgHeader (rd buf 0 8)"

definition hex_bytes :: "bytes \<Rightarrow> string" where
  "hex_bytes d = concat (map (\<lambda>b. hex 2 b @ '' '') d)"

definition print_hex_block :: "string \<Rightarrow> bytes \<Rightarrow> nat \<Rightarrow> nat \<Rightarrow> string option" where
  "print_hex_block label buf off len =
     (if len = 0 then Some []
      else do {
        d \<leftarrow> rd buf off len;
        Some (''  '' @ label @ '': '' @
          concat (map (\<lambda>i. hex 2 (d ! i) @ '' '' @ (if (i + 1) mod 16 = 0 then nl @ replicate 13 (CHR '' '') else [])) [0..<len])
          @ nl) })"

definition print_binary_mask :: "string \<Rightarrow> u16 \<Rightarrow> string" where
  "print_binary_mask label amask =
     ''  '' @ label @ '': 0x'' @ hex 4 amask @ '' ('' @
     concat (map (\<lambda>i. (if bit amask i then ''1'' else ''0'') @ (if i = 8 then '' '' else [])) (rev [0..<16])) @ line ['')'']"


section \<open>Names\<close>

definition get_proxy_type_str :: "u8 \<Rightarrow> string" where
  "get_proxy_type_str t =
     (if t = PROXY_MSG_TYPE_DEV then ''DEV (Device)'' else if t = PROXY_MSG_TYPE_STRGY then ''STRGY (Strategy)''
      else if t = PROXY_MSG_TYPE_SESS then ''SESS (Session)'' else if t = PROXY_MSG_TYPE_DATA then ''DATA (Data)'' else ''UNKNOWN'')"

definition get_dev_msg_type_str :: "u16 \<Rightarrow> string" where
  "get_dev_msg_type_str t =
     (if t = DEV_MSG_DISABLE then ''DISABLE'' else if t = DEV_MSG_ENABLE then ''ENABLE''
      else if t = DEV_MSG_QUERY then ''QUERY'' else ''UNKNOWN'')"

definition get_action_type_str :: "u16 \<Rightarrow> string" where
  "get_action_type_str t =
     (if t = ACTION_TYPE_COMMAND then ''COMMAND'' else if t = ACTION_TYPE_RESPONSE then ''RESPONSE'' else ''UNKNOWN'')"

definition get_strgy_msg_type_str :: "u16 \<Rightarrow> string" where
  "get_strgy_msg_type_str t =
     (if t = STRGY_MSG_SET then ''SET'' else if t = STRGY_MSG_QUERY then ''QUERY'' else ''UNKNOWN'')"

definition get_strgy_param_str :: "u16 \<Rightarrow> string" where
  "get_strgy_param_str p =
     (if p = 0 then ''Round Robin'' else if p = 1 then ''Max Bandwidth'' else if p = 2 then ''Min Latency'' else ''Unknown Param'')"

definition get_sess_msg_type_str :: "u16 \<Rightarrow> string" where
  "get_sess_msg_type_str t =
     (if t = SESS_MSG_CLOSE then ''CLOSE'' else if t = SESS_MSG_CREATE then ''CREATE'' else ''UNKNOWN'')"

definition get_sess_ip_version_str :: "u16 \<Rightarrow> string" where
  "get_sess_ip_version_str v =
     (if uint v = SESS_NON_IP_PROTO then ''Non-IP'' else if v = SESS_IPV4_PROTO then ''IPv4''
      else if v = SESS_IPV6_PROTO then ''IPv6'' else ''Unknown'')"

definition get_sess_trans_proto_str :: "u16 \<Rightarrow> string" where
  "get_sess_trans_proto_str p =
     (if p = SESS_UDP_PROTO then ''UDP'' else if p = SESS_TCP_PROTO then ''TCP''
      else if p = SESS_FASTPATH_PROTO then ''FastPath (XDP/eBPF)'' else ''Unknown Proto'')"

definition get_sess_op_status_str :: "u8 \<Rightarrow> string" where
  "get_sess_op_status_str s =
     (if s = SESS_OP_STATUS_SUCCESS then ''SUCCESS'' else if s = SESS_OP_STATUS_FAIL then ''FAIL'' else ''UNKNOWN'')"

definition get_sess_op_code_str :: "u8 \<Rightarrow> string" where
  "get_sess_op_code_str c =
     (if c = SESS_OP_CODE_SUCCESS then ''Success'' else if c = 1 then ''No Permission''
      else if c = SESS_OP_CODE_DEVICE_ERROR then ''Device Error''
      else if c = SESS_OP_CODE_RESOURCE_INSUFFICIENT then ''Resource Insufficient''
      else if c = SESS_OP_CODE_NETWORK_UNREACHABLE then ''Network Unreachable'' else ''Unknown Code'')"


section \<open>Content of a message\<close>

definition end_rule :: string where "end_rule = line [''  ------------------------------'']"

definition link_line :: "ProxyMsgHeader \<Rightarrow> string" where
  "link_line ph = line [''  [Link] Frontend Session: '', dec (ph_frontend_sess_id ph), '', Backend Session: '',
     dec (ph_backend_sess_id ph)]"

definition truncation_warning :: "u16 \<Rightarrow> nat \<Rightarrow> string" where
  "truncation_warning len space =
     (if unat len > space
      then line [''  [WARNING] Declared payload len ('', dec len, '') > Available space ('', number 10 space, ''). Truncating read.'']
      else [])"

text \<open>A command that should carry no payload.\<close>

definition expect_empty :: "string \<Rightarrow> bytes \<Rightarrow> nat \<Rightarrow> nat \<Rightarrow> string option" where
  "expect_empty what header off n =
     (if n > 0 then do {
        x \<leftarrow> print_hex_block ''Unexpected Data'' header off n;
        Some (line [''  [WARNING] '', what, '' CMD should have 0 payload, but found '', number 10 n, '' bytes.''] @ x) }
      else Some (line [''  [INFO] Payload is empty (Correct)'']))"

definition extra_data :: "bytes \<Rightarrow> nat \<Rightarrow> nat \<Rightarrow> nat \<Rightarrow> string option" where
  "extra_data header off skip n =
     (if n > skip then print_hex_block ''Extra Data'' header (off + skip) (n - skip) else Some [])"

text \<open>Result and error code, which device and strategy responses start with.\<close>

definition result_lines :: "bytes \<Rightarrow> nat \<Rightarrow> string option" where
  "result_lines header off = do {
     r \<leftarrow> rd_u8 header off;
     e \<leftarrow> rd_u8 header (off + 1);
     Some (line [''  [RSP] Result: '', if r = 1 then ''SUCCESS'' else ''FAILED'', '' (0x'', hex 2 r, '')'']
       @ line [''  [RSP] Error Code: 0x'', hex 2 e]) }"

definition dev_command_body :: "bytes \<Rightarrow> u16 \<Rightarrow> nat \<Rightarrow> string option" where
  "dev_command_body header m_type n =
     (if m_type = DEV_MSG_DISABLE \<or> m_type = DEV_MSG_ENABLE then do {
        m \<leftarrow> (if n \<ge> 2 then map_option (print_binary_mask ''Device Mask'') (rd_u16 header 18)
              else Some (line [''  [ERROR] Payload too short for Mask (Need 2 bytes)'']));
        Some (line [''  [CMD] Operation: '', if m_type = DEV_MSG_DISABLE then ''Disable'' else ''Enable'', '' Device(s)''] @ m) }
      else if m_type = DEV_MSG_QUERY then do {
        x \<leftarrow> expect_empty ''Query'' header 18 n;
        Some (line [''  [CMD] Operation: Query Devices''] @ x) }
      else Some [])"

definition dev_response_body :: "bytes \<Rightarrow> u16 \<Rightarrow> nat \<Rightarrow> string option" where
  "dev_response_body header m_type n =
     (if m_type = DEV_MSG_DISABLE \<or> m_type = DEV_MSG_ENABLE then do {
        x \<leftarrow> extra_data header 18 2 n;
        Some (line [''  [RSP] Context: Enable/Disable Response''] @ x) }
      else if m_type = DEV_MSG_QUERY then do {
        x \<leftarrow> (if n \<ge> 4 then do {
                m \<leftarrow> rd_u16 header 20;
                x \<leftarrow> extra_data header 18 4 n;
                Some (print_binary_mask ''Active Devices'' m @ x) }
              else Some (line [''  [ERROR] Query Response payload too short (Need 4 bytes)'']));
        Some (line [''  [RSP] Context: Query Response''] @ x) }
      else Some [])"

definition proxy_dev_msg_content_dump :: "bytes \<Rightarrow> string option" where
  "proxy_dev_msg_content_dump header = do {
     ph \<leftarrow> rd_proxy header;
     if unat (ph_payload_len ph) < 10 then Some (line [''  [ERROR] Proxy payload too short for DevMsgHeader''])
     else do {
       dh \<leftarrow> map_option dec_DevMsgHeader (rd header 8 10);
       let space = unat (ph_payload_len ph) - 10;
       let n = min (unat (dh_payload_len dh)) space;
       let top = line [''  --- Device Message Details ---''] @ link_line ph
             @ line [''  Dev Version: '', dec (dh_version dh)]
             @ line [''  Msg Type: '', get_dev_msg_type_str (dh_msg_type dh), '' ('', dec (dh_msg_type dh), '')'']
             @ line [''  Msg ID: '', dec (dh_msg_id dh)]
             @ line [''  Action Type: '', get_action_type_str (dh_action_type dh), '' ('', dec (dh_action_type dh), '')'']
             @ line [''  Dev Payload Len: '', dec (dh_payload_len dh)] @ truncation_warning (dh_payload_len dh) space;
       if dh_action_type dh = ACTION_TYPE_COMMAND then do {
         x \<leftarrow> dev_command_body header (dh_msg_type dh) n;
         Some (top @ x @ end_rule) }
       else if dh_action_type dh = ACTION_TYPE_RESPONSE then
         (if n < 2 then Some (top @ line [''  [ERROR] Response payload too short (Need Result+Error)''])
          else do {
            r \<leftarrow> result_lines header 18;
            x \<leftarrow> dev_response_body header (dh_msg_type dh) n;
            Some (top @ r @ x @ end_rule) })
       else Some (top @ end_rule) } }"

definition strgy_command_body :: "bytes \<Rightarrow> u16 \<Rightarrow> nat \<Rightarrow> string option" where
  "strgy_command_body header m_type n =
     (if m_type = STRGY_MSG_SET then do {
        x \<leftarrow> (if n \<ge> 2 then do {
                p \<leftarrow> rd_u16 header 18;
                x \<leftarrow> extra_data header 18 2 n;
                Some (line [''  [CMD] Strategy Parameter: '', get_strgy_param_str p, '' ('', dec p, '')''] @ x) }
              else Some (line [''  [ERROR] Payload too short for Set Command (Need 2 bytes)'']));
        Some (line [''  [CMD] Operation: Set Strategy''] @ x) }
      else if m_type = STRGY_MSG_QUERY then do {
        x \<leftarrow> expect_empty ''Query'' header 18 n;
        Some (line [''  [CMD] Operation: Query Strategy''] @ x) }
      else Some (line [''  [UNKNOWN] Unknown Strategy Msg Type in CMD: '', dec m_type]))"

definition strgy_response_body :: "bytes \<Rightarrow> u16 \<Rightarrow> nat \<Rightarrow> string option" where
  "strgy_response_body header m_type n =
     (if m_type = STRGY_MSG_SET then do {
        x \<leftarrow> extra_data header 18 2 n;
        Some (line [''  [RSP] Context: Set Strategy Response''] @ x) }
      else if m_type = STRGY_MSG_QUERY then do {
        x \<leftarrow> (if n \<ge> 4 then do {
                s \<leftarrow> rd_u16 header 20;
                x \<leftarrow> extra_data header 18 4 n;
                Some (line [''  [RSP] Current Active Strategy: '', get_strgy_param_str s, '' ('', dec s, '')''] @ x) }
              else Some (line [''  [ERROR] Query Response payload too short (Need 4 bytes: Result+Error+StrgyID)'']));
        Some (line [''  [RSP] Context: Query Strategy Response''] @ x) }
      else Some (line [''  [UNKNOWN] Unknown Strategy Msg Type in RSP: '', dec m_type]))"

definition proxy_strgy_msg_content_dump :: "bytes \<Rightarrow> string option" where
  "proxy_strgy_msg_content_dump header = do {
     ph \<leftarrow> rd_proxy header;
     if unat (ph_payload_len ph) < 10 then Some (line [''  [ERROR] Proxy payload too short for StrgyMsgHeader''])
     else do {
       th \<leftarrow> map_option dec_StrgyMsgHeader (rd header 8 10);
       let space = unat (ph_payload_len ph) - 10;
       let n = min (unat (th_payload_len th)) space;
       let top = line [''  --- Strategy Message Details ---''] @ link_line ph
             @ line [''  Strgy Version: '', dec (th_version th)]
             @ line [''  Msg Type: '', get_strgy_msg_type_str (th_msg_type th), '' ('', dec (th_msg_type th), '')'']
             @ line [''  Msg ID: '', dec (th_msg_id th)]
             @ line [''  Action Type: '', get_action_type_str (th_action_type th), '' ('', dec (th_action_type th), '')'']
             @ line [''  Strgy Payload Len: '', dec (th_payload_len th)] @ truncation_warning (th_payload_len th) space;
       if th_action_type th = ACTION_TYPE_COMMAND then do {
         x \<leftarrow> strgy_command_body header (th_msg_type th) n;
         Some (top @ x @ end_rule) }
       else if th_action_type th = ACTION_TYPE_RESPONSE then
         (if n < 2 then Some (top @ line [''  [ERROR] Response payload too short (Need Result+Error)''])
          else do {
            r \<leftarrow> result_lines header 18;
            x \<leftarrow> strgy_response_body header (th_msg_type th) n;
            Some (top @ r @ x @ end_rule) })
       else Some (top @ line [''  [ERROR] Unknown Action Type: '', dec (th_action_type th)] @ end_rule) } }"


text \<open>The parameters of a create command, \<open>v6\<close> for IPv6.\<close>

definition sizeof_SessPara :: "bool \<Rightarrow> nat" where
  "sizeof_SessPara v6 = (if v6 then 22 else 10)"

definition ipv4_text :: "bytes \<Rightarrow> string" where
  "ipv4_text a = concat [dec (a ! 0), ''.'', dec (a ! 1), ''.'', dec (a ! 2), ''.'', dec (a ! 3)]"

definition hex_low :: "string \<Rightarrow> string" where
  "hex_low s = map tolower s"

definition ipv6_text :: "bytes \<Rightarrow> string" where
  "ipv6_text a = concat (map (\<lambda>k. hex_low (hex 2 (a ! (2 * k))) @ hex_low (hex 2 (a ! (2 * k + 1))) @ (if 2 * k < 14 then '':'' else []))
     [0..<8])"

definition create_params :: "bytes \<Rightarrow> bool \<Rightarrow> nat \<Rightarrow> string option" where
  "create_params header v6 n =
     (if n < sizeof_SessPara v6 then
        Some (line [''  [ERROR] Payload too short for '', if v6 then ''IPv6'' else ''IPv4'', '' Create Params (Need '',
          number 10 (sizeof_SessPara v6), '' bytes)''])
      else do {
        dev_id \<leftarrow> rd_u16 header 18;
        trans \<leftarrow> rd_u16 header 20;
        addr \<leftarrow> rd header 22 (if v6 then 16 else 4);
        port \<leftarrow> rd_u16 header (if v6 then 38 else 26);
        x \<leftarrow> extra_data header 18 (sizeof_SessPara v6) n;
        Some (line [''  [CMD] Device ID: '', dec dev_id]
          @ line [''  [CMD] Transport: '', get_sess_trans_proto_str trans, '' ('', dec trans, '')'']
          @ line (if v6 then [''  [CMD] IPv6 Address: '', ipv6_text addr] else [''  [CMD] IPv4 Address: '', ipv4_text addr])
          @ line [''  [CMD] Port: '', dec port] @ x @ end_rule) })"

definition sess_command_body :: "bytes \<Rightarrow> u16 \<Rightarrow> u16 \<Rightarrow> nat \<Rightarrow> string option" where
  "sess_command_body header m_type ip_ver n =
     (if m_type = SESS_MSG_CREATE then do {
        x \<leftarrow> (if ip_ver = SESS_IPV4_PROTO then create_params header False n
              else if ip_ver = SESS_IPV6_PROTO then create_params header True n
              else Some (line [''  [ERROR] Unknown IP Version '', dec ip_ver, '' for Create Command''] @ end_rule));
        Some (line [''  [CMD] Operation: Create Session''] @ x) }
      else if m_type = SESS_MSG_CLOSE then do {
        x \<leftarrow> expect_empty ''Close'' header 18 n;
        Some (line [''  [CMD] Operation: Close Session''] @ x @ end_rule) }
      else Some (line [''  [UNKNOWN] Unknown Session Msg Type in CMD: '', dec m_type] @ end_rule))"

definition sess_response_body :: "bytes \<Rightarrow> u16 \<Rightarrow> nat \<Rightarrow> string option" where
  "sess_response_body header m_type n =
     (if m_type = SESS_MSG_CREATE \<or> m_type = SESS_MSG_CLOSE then
        (let top = line [''  [RSP] Context: '', if m_type = SESS_MSG_CREATE then ''Create'' else ''Close'', '' Session Response'']
         in if n < 2 then Some (top @ line [''  [ERROR] Response payload too short (Need Status+Code)''])
            else do {
              s \<leftarrow> rd_u8 header 18;
              c \<leftarrow> rd_u8 header 19;
              x \<leftarrow> extra_data header 18 2 n;
              Some (top @ line [''  [RSP] Status: '', get_sess_op_status_str s, '' ('', dec s, '')'']
                @ line [''  [RSP] Code: '', get_sess_op_code_str c, '' ('', dec c, '')''] @ x @ end_rule) })
      else Some (line [''  [UNKNOWN] Unknown Session Msg Type in RSP: '', dec m_type] @ end_rule))"

definition proxy_sess_msg_content_dump :: "bytes \<Rightarrow> string option" where
  "proxy_sess_msg_content_dump header = do {
     ph \<leftarrow> rd_proxy header;
     if unat (ph_payload_len ph) < 10 then Some (line [''  [ERROR] Proxy payload too short for SessMsgHeader''])
     else do {
       sh \<leftarrow> map_option dec_SessMsgHeader (rd header 8 10);
       let space = unat (ph_payload_len ph) - 10;
       let n = min (unat (sh_payload_len sh)) space;
       x \<leftarrow> (if uint (sh_ip_version sh) = SESS_NON_IP_PROTO then do {
               x \<leftarrow> (if n > 0 then print_hex_block ''Raw Non-IP Payload'' header 18 n else Some []);
               Some (line [''  [INFO] Non-IP Protocol detected. No further payload interpretation performed.''] @ x @ end_rule) }
             else if sh_action_type sh = ACTION_TYPE_COMMAND then sess_command_body header (sh_msg_type sh) (sh_ip_version sh) n
             else if sh_action_type sh = ACTION_TYPE_RESPONSE then sess_response_body header (sh_msg_type sh) n
             else Some (line [''  [ERROR] Unknown Action Type: '', dec (sh_action_type sh)] @ end_rule));
       Some (line [''  --- Session Message Details ---''] @ link_line ph
         @ line [''  Sess Version: '', dec (sh_version sh)]
         @ line [''  Msg Type: '', get_sess_msg_type_str (sh_msg_type sh), '' ('', dec (sh_msg_type sh), '')'']
         @ line [''  Action Type: '', get_action_type_str (sh_action_type sh), '' ('', dec (sh_action_type sh), '')'']
         @ line [''  IP Version: '', get_sess_ip_version_str (sh_ip_version sh), '' ('', dec (sh_ip_version sh), '')'']
         @ line [''  Sess Payload Len: '', dec (sh_payload_len sh)] @ truncation_warning (sh_payload_len sh) space @ x) } }"

definition proxy_data_msg_content_dump :: "bytes \<Rightarrow> string option" where
  "proxy_data_msg_content_dump header = do {
     ph \<leftarrow> rd_proxy header;
     let len = unat (ph_payload_len ph);
     x \<leftarrow> (if len > 0 then do {
             x \<leftarrow> print_hex_block ''Data Preview'' header 8 (min len 32);
             Some (x @ (if len > 32 then line [''  ... ('', number 10 len, '' bytes total)''] else [])) }
           else Some []);
     Some (line [''  --- Data Message (Transparent) ---'']
       @ line [''  [Link] Session IDs: FE='', dec (ph_frontend_sess_id ph), '', BE='', dec (ph_backend_sess_id ph)] @ x) }"

definition proxy_msg_content_dump :: "bytes option \<Rightarrow> string option" where
  "proxy_msg_content_dump buffer =
     (case buffer of
        None \<Rightarrow> Some (line [''[ERROR] Null pointer provided.''])
      | Some header \<Rightarrow> do {
          ph \<leftarrow> rd_proxy header;
          let t = ph_proxy_msg_type ph;
          x \<leftarrow> (if t = PROXY_MSG_TYPE_DEV then proxy_dev_msg_content_dump header
                else if t = PROXY_MSG_TYPE_STRGY then proxy_strgy_msg_content_dump header
                else if t = PROXY_MSG_TYPE_SESS then proxy_sess_msg_content_dump header
                else if t = PROXY_MSG_TYPE_DATA then proxy_data_msg_content_dump header
                else Some (line [''  [ERROR] Unknown message type '', dec t]));
          Some (nl @ line [''>>> PROXY MESSAGE DUMP <<<''] @ line [''Version: '', dec (ph_version ph)]
            @ line [''Type   : '', get_proxy_type_str t, '' ('', dec t, '')'']
            @ line [''FE Ses : '', dec (ph_frontend_sess_id ph)] @ line [''BE Ses : '', dec (ph_backend_sess_id ph)]
            @ line [''Payload: '', dec (ph_payload_len ph), '' bytes''] @ x) })"


section \<open>Summary of a message\<close>

text \<open>The result is the code and the output.\<close>

definition parse_err :: "string list \<Rightarrow> (int \<times> string) option" where
  "parse_err parts = Some (BACKEND_PROXY_PROCESS_ERROR, line (''[PROXY_PARSE_ERR] '' # parts))"

definition parsed :: "string \<Rightarrow> (int \<times> string) option" where
  "parsed s = Some (BACKEND_PROXY_PROCESS_OK, s)"

definition action_str :: "u16 \<Rightarrow> string" where
  "action_str a = (if a = ACTION_TYPE_COMMAND then ''CMD'' else ''RESP'')"

definition result_pair :: "bytes \<Rightarrow> nat \<Rightarrow> string option" where
  "result_pair buf off = do {
     r \<leftarrow> rd_u8 buf off;
     e \<leftarrow> rd_u8 buf (off + 1);
     Some (line [''  -> Result: Success='', dec r, '', ErrCode='', dec e]) }"

definition parse_dev :: "bytes \<Rightarrow> nat \<Rightarrow> (int \<times> string) option" where
  "parse_dev buf len =
     (if len < 10 then parse_err [''Device message payload too short.'']
      else do {
        dh \<leftarrow> map_option dec_DevMsgHeader (rd buf 8 10);
        let content_len = len - 10;
        x \<leftarrow> (if content_len > 0 then do {
                d \<leftarrow> rd buf 18 (min content_len 16);
                r \<leftarrow> (if dh_action_type dh = ACTION_TYPE_RESPONSE \<and> content_len \<ge> 2 then result_pair buf 18 else Some []);
                Some (line [''  Content Hex: '', hex_bytes d, if content_len > 16 then ''...'' else []] @ r) }
              else Some (line [''  Content: (Empty)'']));
        parsed (line [''[DEVICE MSG] Type='', if dh_msg_type dh = DEV_MSG_DISABLE then ''DISABLE''
            else if dh_msg_type dh = DEV_MSG_ENABLE then ''ENABLE'' else ''QUERY'', ''('', dec (dh_msg_type dh), ''), Action='',
          action_str (dh_action_type dh), ''('', dec (dh_action_type dh), ''), MsgID='', dec (dh_msg_id dh), '', SubLen='',
          dec (dh_payload_len dh)] @ x) })"

definition parse_strgy :: "bytes \<Rightarrow> nat \<Rightarrow> (int \<times> string) option" where
  "parse_strgy buf len =
     (if len < 10 then parse_err [''Strategy message payload too short.'']
      else do {
        th \<leftarrow> map_option dec_StrgyMsgHeader (rd buf 8 10);
        parsed (line [''[STRATEGY MSG] Type='', if th_msg_type th = STRGY_MSG_SET then ''SET'' else ''QUERY'', ''('',
          dec (th_msg_type th), ''), Action='', action_str (th_action_type th), ''('', dec (th_action_type th), ''), MsgID='',
          dec (th_msg_id th), '', SubLen='', dec (th_payload_len th)]) })"

definition parse_create :: "bytes \<Rightarrow> bool \<Rightarrow> nat \<Rightarrow> (int \<times> string) option" where
  "parse_create buf v6 inner_len =
     (if inner_len < sizeof_SessPara v6 then
        parse_err [if v6 then ''IPv6'' else ''IPv4'', '' Create payload incomplete.'']
      else do {
        dev_id \<leftarrow> rd_u16 buf 18;
        trans \<leftarrow> rd_u16 buf 20;
        addr \<leftarrow> rd buf 22 (if v6 then 2 else 4);
        port \<leftarrow> (if v6 then Some 0 else rd_u16 buf 26);
        parsed (line ([''  -> Target: DevID='', dec dev_id, '', Proto='', dec trans, '', Addr=''] @
          (if v6 then [''IPv6('', hex_low (hex 2 (addr ! 0)), hex_low (hex 2 (addr ! 1)), '':...)'']
           else [ipv4_text addr, '':'', dec port]))) })"

definition parse_sess :: "bytes \<Rightarrow> nat \<Rightarrow> (int \<times> string) option" where
  "parse_sess buf len =
     (if len < 10 then parse_err [''Session message payload too short.'']
      else do {
        sh \<leftarrow> map_option dec_SessMsgHeader (rd buf 8 10);
        let v = sh_ip_version sh;
        if v \<noteq> SESS_IPV4_PROTO \<and> v \<noteq> SESS_IPV6_PROTO then parse_err [''Invalid IP Version: '', dec v, '' (Must be 4 or 6).'']
        else do {
          let inner_len = len - 10;
          (ret, x) \<leftarrow>
            (if sh_msg_type sh = SESS_MSG_CREATE \<and> sh_action_type sh = ACTION_TYPE_COMMAND
             then parse_create buf (v \<noteq> SESS_IPV4_PROTO) inner_len
             else if sh_action_type sh = ACTION_TYPE_RESPONSE then
               (if inner_len < 2 then parse_err [''Session Response payload too short.'']
                else do { r \<leftarrow> result_pair buf 18; parsed r })
             else parsed (line [''  -> Content: (Empty or Command Close)'']));
          Some (ret, line [''[SESSION MSG] Type='', if sh_msg_type sh = SESS_MSG_CREATE then ''CREATE'' else ''CLOSE'', ''('',
            dec (sh_msg_type sh), ''), Action='', action_str (sh_action_type sh), ''('', dec (sh_action_type sh), ''), IP='',
            if v = SESS_IPV4_PROTO then ''IPv4'' else ''IPv6'', ''('', dec v, '')''] @ x) } })"

definition parse_data :: "bytes \<Rightarrow> nat \<Rightarrow> (int \<times> string) option" where
  "parse_data buf len = do {
     x \<leftarrow> (if len > 0 then map_option (\<lambda>d. line [''  First 16 bytes: '', hex_bytes d]) (rd buf 8 (min len 16)) else Some []);
     parsed (line [''[DATA MSG] Raw Data Length: '', number 10 len, '' bytes''] @ x) }"


definition iot_proto_str :: "u16 \<Rightarrow> string" where
  "iot_proto_str p =
     (if p = IOT_PROTO_TYPE_BLUETOOTH then ''BLUETOOTH'' else if p = IOT_PROTO_TYPE_ZIGBEE then ''ZIGBEE''
      else if p = IOT_PROTO_TYPE_CAN then ''CAN'' else if p = IOT_PROTO_TYPE_LORA then ''LORA''
      else if p = IOT_PROTO_TYPE_POWERLINK then ''POWERLINK'' else if p = IOT_PROTO_TYPE_MODBUSTCP then ''MODBUS_TCP''
      else ''UNKNOWN'')"

definition hex_run :: "bytes \<Rightarrow> string" where
  "hex_run d = concat (map (hex 2) d)"

text \<open>The address, given as the bytes of its structure.\<close>

definition iot_addr_info :: "u16 \<Rightarrow> bytes \<Rightarrow> string" where
  "iot_addr_info p a =
     (if p = IOT_PROTO_TYPE_BLUETOOTH then line [''MAC='', c_string (take 18 a), '', Port='', dec (get_u16 a 18)]
      else if p = IOT_PROTO_TYPE_CAN then
        line [''BusID='', dec (get_u8 a 6), '', CanID=0x'', hex 0 (get_u32 a 2), '', Port='', dec (get_u16 a 0)]
      else if p = IOT_PROTO_TYPE_ZIGBEE then
        line [''PAN=0x'', hex 4 (get_u16 a 8), '', EP='', dec (get_u8 a 10), '', MAC='', hex_run (take 8 a)]
      else if p = IOT_PROTO_TYPE_LORA then
        line [''DevEUI='', dec (read_le (\<lambda>i. a ! i) 8 :: u64), '', Port='', dec (get_u16 a 8), '', Band='', dec (get_u8 a 10)]
      else if p = IOT_PROTO_TYPE_POWERLINK then
        line [''NodeID='', dec (get_u16 a 0), '', PDO='', dec (get_u16 a 8), '', MAC='', hex_run (take 6 (drop 2 a))]
      else
        line [''IP='', ipv4_text a, '', Port='', dec (get_u16 a 4)]
        @ line [''    UnitID='', dec (get_u8 a 6), '', RegAddr='', dec (get_u16 a 7), '', RegNum='', dec (get_u16 a 9)])"

text \<open>The length of the address is not compared with the announced lengths.\<close>

definition parse_iot :: "bytes \<Rightarrow> nat \<Rightarrow> (int \<times> string) option" where
  "parse_iot buf len =
     (if len < 12 then parse_err [''IoT message payload too short for header.'']
      else do {
        ih \<leftarrow> map_option dec_IotMsgHeader (rd buf 8 12);
        let p = ih_proto_type ih;
        let top = line [''[IOT MSG] Proto='', iot_proto_str p, ''('', dec p, ''), Opcode='', dec (ih_opcode ih), '', PortID='',
              dec (ih_dev_port_id ih), '', PayloadLen='', dec (ih_payload_len ih)];
        let n = unat (ih_payload_len ih);
        (ret, x) \<leftarrow>
          (if get_iot_addr_length p = 0 then parse_err [''Unknown IoT Protocol Type: '', dec p]
           else if len < 12 + n then parse_err [''IoT message internal length mismatch.'']
           else do {
             a \<leftarrow> rd buf 20 (get_iot_addr_length p);
             x \<leftarrow> (if n > 0 then
                     map_option (\<lambda>d. line [''  IoT Payload (First 16 bytes): '', hex_bytes d])
                       (rd buf (20 + get_iot_addr_length p) (min n 16))
                   else Some []);
             parsed (''  Address Info: '' @ iot_addr_info p a @ x) });
        Some (ret, top @ x) })"

definition parse_proxy_protocol_and_print :: "bytes option \<Rightarrow> (int \<times> string) option" where
  "parse_proxy_protocol_and_print buffer =
     (case buffer of
        None \<Rightarrow> parse_err [''buffer is NULL.'']
      | Some buf \<Rightarrow> do {
          ph \<leftarrow> rd_proxy buf;
          let t = ph_proxy_msg_type ph;
          let len = unat (ph_payload_len ph);
          (ret, x) \<leftarrow>
            (if t = PROXY_MSG_TYPE_DEV then parse_dev buf len
             else if t = PROXY_MSG_TYPE_STRGY then parse_strgy buf len
             else if t = PROXY_MSG_TYPE_SESS then parse_sess buf len
             else if t = PROXY_MSG_TYPE_DATA then parse_data buf len
             else if t = PROXY_MSG_TYPE_IOT then parse_iot buf len
             else parse_err [''Unknown Proxy Message Type: '', dec t]);
          Some (ret, line [''=== Proxy Packet Received ===''] @ line [''Header: Ver='', dec (ph_version ph), '', Type='', dec t,
              '', F-SID='', dec (ph_frontend_sess_id ph), '', B-SID='', dec (ph_backend_sess_id ph), '', PayloadLen='',
              dec (ph_payload_len ph)] @ x
            @ (if ret = BACKEND_PROXY_PROCESS_OK then line [''===========================''] else [])) })"


section \<open>Header of a message under construction\<close>

definition colon_hex :: "bytes \<Rightarrow> string" where
  "colon_hex d = concat (map (\<lambda>i. hex 2 (d ! i) @ (if i < length d - 1 then '':'' else [])) [0..<length d])"

definition print_iot_addr_details :: "IotAddr \<Rightarrow> string" where
  "print_iot_addr_details addr =
     (let t = ia_addr_type addr; a = ia_addr_info addr
      in ''  Protocol Type: '' @ dec t @ '' '' @
        (if t = 0 then line [''(UNKNOWN)'']
         else if t = ucast IOT_PROTO_TYPE_BLUETOOTH then
           line [''(BLUETOOTH)''] @ line [''  MAC:   '', c_string (take 17 a)] @ line [''  Port:  '', dec (get_u16 a 18)]
         else if t = ucast IOT_PROTO_TYPE_ZIGBEE then
           line [''(ZIGBEE)''] @ line [''  MAC:     '', colon_hex (take 8 a)] @ line [''  PAN ID:  0x'', hex 4 (get_u16 a 8)]
           @ line [''  Endpoint:'', dec (get_u8 a 10)]
         else if t = ucast IOT_PROTO_TYPE_CAN then
           line [''(CAN)''] @ line [''  Port:   '', dec (get_u16 a 0)] @ line [''  CAN ID: 0x'', hex 8 (get_u32 a 2)]
           @ line [''  Bus ID: '', dec (get_u8 a 6)]
         else if t = ucast IOT_PROTO_TYPE_LORA then
           line [''(LORA)''] @ line [''  Dev EUI:   0x'', hex_low (hex 16 (read_le (\<lambda>i. a ! i) 8 :: u64))]
           @ line [''  Port: '', dec (get_u16 a 8)] @ line [''  Freq Band: '', dec (get_u8 a 10)]
         else if t = ucast IOT_PROTO_TYPE_POWERLINK then
           line [''(POWERLINK)''] @ line [''  Node ID: '', dec (get_u16 a 0)] @ line [''  MAC: '', colon_hex (take 6 (drop 2 a))]
           @ line [''  PDO ID:  '', dec (get_u16 a 8)]
         else if t = ucast IOT_PROTO_TYPE_MODBUSTCP then
           line [''(MODBUS TCP)''] @ line [''  IP:   '', ipv4_text a] @ line [''  Port: '', dec (get_u16 a 4)]
           @ line [''    UnitID='', dec (get_u8 a 6), '', RegAddr='', dec (get_u16 a 7), '', RegNum='', dec (get_u16 a 9)]
         else line [''(UNSUPPORTED)'']))"

definition outer_type_str :: "u8 \<Rightarrow> string" where
  "outer_type_str t =
     (if t = PROXY_MSG_TYPE_DEV then ''(DEV)'' else if t = PROXY_MSG_TYPE_STRGY then ''(STRATEGY)''
      else if t = PROXY_MSG_TYPE_SESS then ''(SESSION)'' else if t = PROXY_MSG_TYPE_DATA then ''(DATA)''
      else if t = PROXY_MSG_TYPE_IOT then ''(IOT)'' else ''(UNKNOWN)'')"

definition five_fields :: "string \<Rightarrow> string \<Rightarrow> u16 list \<Rightarrow> string" where
  "five_fields third fourth v = line [''  Version: '', dec (v ! 0), '', MsgType: '', dec (v ! 1), third, dec (v ! 2), fourth,
     dec (v ! 3), '', PayLen: '', dec (v ! 4)]"

definition print_iot_header :: "u16 \<Rightarrow> bytes \<Rightarrow> IotAddr \<Rightarrow> string" where
  "print_iot_header outer_len inner addr =
     (let ih = dec_IotMsgHeader inner; p = ih_proto_type ih; n = unat (ih_payload_len ih)
      in line [''[Inner Header: IOT]''] @ line [''  Proto Ver:   '', dec (ih_proto_ver ih)]
        @ line [''  Proto Type:  '', dec p, '' ('',
            if p = IOT_PROTO_TYPE_MODBUSTCP then ''MODBUS TCP'' else iot_proto_str p, '')'']
        @ line [''  Opcode:      '', dec (ih_opcode ih)] @ line [''  Dev Port ID: '', dec (ih_dev_port_id ih)]
        @ line [''  Payload Len: '', dec (ih_payload_len ih), '' (Includes Addr + Data)'']
        @ line [''  Reserve:     '', dec (ih_reserve ih)]
        @ (if unat outer_len \<noteq> 12 + n then
             line [''  [WARNING] Length Mismatch!'']
             @ line [''            Outer Payload ('', dec outer_len, '') != IotHeader Size (12) + Inner Payload ('', dec (ih_payload_len ih), '')'']
             @ line [''            Expected: '', number 10 (12 + n), '', Got: '', dec outer_len]
           else line [''  [OK] Length validation passed.''])
        @ (if get_iot_addr_length p > 0 \<and> n < get_iot_addr_length p then
             line [''  [ERROR] Inner Payload ('', dec (ih_payload_len ih), '') is smaller than minimum Address Size ('',
               number 10 (get_iot_addr_length p), '') for this protocol!'']
           else [])
        @ line [''[IoT Address Info]''] @ print_iot_addr_details addr)"

definition print_general_proxy_msg_header :: "GeneralProxyMsgHeader option \<Rightarrow> string" where
  "print_general_proxy_msg_header hdr =
     (case hdr of
        None \<Rightarrow> line [''[ERROR] Input header pointer is NULL.'']
      | Some h \<Rightarrow>
          let ph = gh_outer_header h; t = ph_proxy_msg_type ph; inner = gh_inner_header h
          in line [''=== GeneralProxyMsgHeader Dump ===''] @ line [''[Outer Header]'']
            @ line [''  Version:          '', dec (ph_version ph)] @ line [''  Msg Type:         '', dec t, '' '', outer_type_str t]
            @ line [''  Frontend Sess ID: '', dec (ph_frontend_sess_id ph)] @ line [''  Backend Sess ID:  '', dec (ph_backend_sess_id ph)]
            @ line [''  Payload Len:      '', dec (ph_payload_len ph)]
            @ (if t = PROXY_MSG_TYPE_DEV then
                 line [''[Inner Header: DEV]''] @ five_fields '', ID: '' '', Action: '' (map (get_u16 inner) [0, 2, 4, 6, 8])
               else if t = PROXY_MSG_TYPE_STRGY then
                 line [''[Inner Header: STRATEGY]''] @ five_fields '', ID: '' '', Action: '' (map (get_u16 inner) [0, 2, 4, 6, 8])
               else if t = PROXY_MSG_TYPE_SESS then
                 line [''[Inner Header: SESSION]''] @ five_fields '', Action: '' '', IPVer: '' (map (get_u16 inner) [0, 2, 4, 6, 8])
               else if t = PROXY_MSG_TYPE_DATA then line [''[Inner Header: DATA] (No specific inner header)'']
               else if t = PROXY_MSG_TYPE_IOT then print_iot_header (ph_payload_len ph) inner (gh_iot_addr h)
               else line [''[Inner Header]: Unknown type.''])
            @ line [replicate 50 (CHR ''-'')])"


text \<open>
  Printing a buffer for an IoT device.  The texts of its two pointers, the identifier and the time are
  arguments; a pointer that is not null points to the bytes that follow it.
\<close>

definition print_iot_addr :: "IotAddr option \<Rightarrow> string" where
  "print_iot_addr addr =
     (case addr of
        None \<Rightarrow> line [''  [Address] NULL'']
      | Some ad \<Rightarrow>
          let t = ia_addr_type ad; a = ia_addr_info ad;
              expected = (\<lambda>p. line [''  (Expected Struct Size: '', number 10 (get_iot_addr_length p), '' bytes)''])
          in ''  Protocol Type: '' @ dec t @ '' '' @
            (if t = 0 then line [''(UNKNOWN)''] @ line [''  (No address parsing for UNKNOWN type)'']
             else if t = ucast IOT_PROTO_TYPE_BLUETOOTH then
               line [''(BLUETOOTH)''] @ line [''  MAC:   '', c_string (take 17 a)] @ line [''  Port:  '', dec (get_u16 a 18)]
               @ expected IOT_PROTO_TYPE_BLUETOOTH
             else if t = ucast IOT_PROTO_TYPE_ZIGBEE then
               line [''(ZIGBEE)''] @ line [''  MAC:     '', colon_hex (take 8 a)] @ line [''  PAN ID:  0x'', hex 4 (get_u16 a 8)]
               @ line [''  Endpoint:'', dec (get_u8 a 10)] @ expected IOT_PROTO_TYPE_ZIGBEE
             else if t = ucast IOT_PROTO_TYPE_CAN then
               line [''(CAN)''] @ line [''  Port:   '', dec (get_u16 a 0)] @ line [''  CAN ID: 0x'', hex 8 (get_u32 a 2)]
               @ line [''  Bus ID: '', dec (get_u8 a 6)] @ expected IOT_PROTO_TYPE_CAN
             else if t = ucast IOT_PROTO_TYPE_LORA then
               line [''(LORA)''] @ line [''  Dev EUI:   0x'', hex_low (hex 16 (read_le (\<lambda>i. a ! i) 8 :: u64))]
               @ line [''  Port:      '', dec (get_u16 a 8)] @ line [''  Freq Band: '', dec (get_u8 a 10)]
               @ expected IOT_PROTO_TYPE_LORA
             else if t = ucast IOT_PROTO_TYPE_POWERLINK then
               line [''(POWERLINK)''] @ line [''  Node ID: '', dec (get_u16 a 0)] @ line [''  MAC:     '', colon_hex (take 6 (drop 2 a))]
               @ line [''  PDO ID:  '', dec (get_u16 a 8)] @ expected IOT_PROTO_TYPE_POWERLINK
             else if t = ucast IOT_PROTO_TYPE_MODBUSTCP then
               line [''(MODBUS TCP)''] @ line [''  IP:      '', ipv4_text a] @ line [''  Port:    '', dec (get_u16 a 4)]
               @ expected IOT_PROTO_TYPE_MODBUSTCP
             else line [''(UNSUPPORTED)''] @ line [''  Raw Bytes: '', hex_bytes (take 16 a)]))"

record iot_buffer_view =
  bv_msg_id :: u32
  bv_timestamp :: u64
  bv_len :: u32
  bv_data_text :: string
  bv_data :: "bytes option"
  bv_ext_text :: "string option"
  bv_addr :: IotAddr

definition raw_data_lines :: "u32 \<Rightarrow> bytes \<Rightarrow> string option" where
  "raw_data_lines len data =
     (let n = (if len > 64 then 64 else unat len)
      in do {
        d \<leftarrow> rd data 0 n;
        Some (line [''  Showing first '', number 10 n, '' of '', dec len, '' bytes:'']
          @ concat (map (\<lambda>i. (if i mod 16 = 0 then ''  '' @ hex 4 (of_nat i :: u32) @ '': '' else []) @ hex 2 (d ! i) @ '' ''
              @ (if (i + 1) mod 16 = 0 then nl else [])) [0..<n])
          @ (if n mod 16 \<noteq> 0 then nl else [])
          @ (if len > 64 then line [''  ... ('', dec (len - 64), '' bytes omitted)''] else [])) })"

definition print_iot_msg_buffer :: "iot_buffer_view option \<Rightarrow> string option" where
  "print_iot_msg_buffer view =
     (case view of
        None \<Rightarrow> Some (line [''[ERROR] Input IotMsgBuffer pointer is NULL.''])
      | Some v \<Rightarrow> do {
          x \<leftarrow> (case bv_data v of
                 None \<Rightarrow> Some (line [''  (No data to display)''])
               | Some d \<Rightarrow> if bv_len v = 0 then Some (line [''  (No data to display)'']) else raw_data_lines (bv_len v) d);
          Some (line [''=== IotMsgBuffer Dump ===''] @ line [''[Metadata]''] @ line [''  Message ID:    '', dec (bv_msg_id v)]
            @ line [''  Timestamp:     '', dec (bv_timestamp v), '' ms''] @ line [''  Data Length:   '', dec (bv_len v), '' bytes'']
            @ line [''  Data Pointer:  '', bv_data_text v]
            @ (if bv_data v = None \<and> bv_len v > 0 then line [''  [WARNING] Data length is > 0 but data pointer is NULL!''] else [])
            @ line [''[Extended Info]'']
            @ (case bv_ext_text v of None \<Rightarrow> line [''  Ptr:           NULL'']
               | Some s \<Rightarrow> line [''  Ptr:           '', s, '' (Content not parsed)''])
            @ line [''[Address Information]''] @ print_iot_addr (Some (bv_addr v)) @ line [''[Raw Data Payload]''] @ x
            @ line [replicate 50 (CHR ''-'')]) })"

text \<open>
  The variant of \<open>build_proxy_general_message\<close> for Modbus answers prints the header first; its other
  statements are the same.
\<close>

definition build_proxy_general_message_tmp ::
  "tx_env option \<Rightarrow> GeneralProxyMsgHeader option \<Rightarrow> bytes option \<Rightarrow> nat \<Rightarrow> bool \<Rightarrow>
   MemoryAllocMode \<Rightarrow> bool \<Rightarrow> SharedMemoryPoolQueue option \<Rightarrow> string \<times> build_result option" where
  "build_proxy_general_message_tmp engine header payload payload_len has_result alloc_mode malloc_ok ring_buf =
     (print_general_proxy_msg_header header,
      build_proxy_general_message engine header payload payload_len has_result alloc_mode malloc_ok ring_buf)"


section \<open>Reads stay inside\<close>

text \<open>
  A part of the output stays inside the buffer if it is not \<open>None\<close>.  The rules follow the structure
  of the printing functions, so that what is left of a goal is arithmetic on offsets.
\<close>

definition stays_inside :: "'a option \<Rightarrow> bool" where
  "stays_inside m \<longleftrightarrow> m \<noteq> None"

named_theorems dump_in "parts of the output that read inside the buffer"

lemma stays_Some [dump_in]: "stays_inside (Some x)"
  by (simp add: stays_inside_def)

lemma stays_bind [dump_in]:
  "stays_inside m \<Longrightarrow> (\<And>x. m = Some x \<Longrightarrow> stays_inside (f x)) \<Longrightarrow> stays_inside (Option.bind m f)"
  by (cases m) (auto simp: stays_inside_def)

lemma stays_map [dump_in]: "stays_inside m \<Longrightarrow> stays_inside (map_option f m)"
  by (simp add: stays_inside_def)

lemma stays_if [dump_in]:
  "(c \<Longrightarrow> stays_inside a) \<Longrightarrow> (\<not> c \<Longrightarrow> stays_inside b) \<Longrightarrow> stays_inside (if c then a else b)"
  by simp

lemma stays_prod [dump_in]:
  "(\<And>a b. p = (a, b) \<Longrightarrow> stays_inside (f a b)) \<Longrightarrow> stays_inside (case p of (a, b) \<Rightarrow> f a b)"
  by (cases p) simp

lemma rd_in [dump_in]:
  "off + n \<le> length buf \<Longrightarrow> stays_inside (rd buf off n)"
  "off + 1 \<le> length buf \<Longrightarrow> stays_inside (rd_u8 buf off)"
  "off + 2 \<le> length buf \<Longrightarrow> stays_inside (rd_u16 buf off)"
  by (auto simp: stays_inside_def rd_def rd_u8_def rd_u16_def)

lemma get_u16_take: "k + 2 \<le> n \<Longrightarrow> n \<le> length b \<Longrightarrow> get_u16 (take n b) k = get_u16 b k"
  unfolding get_u16_def by (rule read_le_cong) simp

lemma rd_proxy_dec: "8 \<le> length buf \<Longrightarrow> rd_proxy buf = Some (dec_ProxyMsgHeader buf)"
  by (simp add: rd_proxy_def rd_def dec_ProxyMsgHeader_def get_u8_def get_u16_take)

lemma print_hex_block_in [dump_in]: "off + n \<le> length buf \<Longrightarrow> stays_inside (print_hex_block label buf off n)"
  unfolding print_hex_block_def by (intro dump_in; simp)

lemma expect_empty_in [dump_in]: "off + n \<le> length buf \<Longrightarrow> stays_inside (expect_empty what buf off n)"
  unfolding expect_empty_def by (intro dump_in; simp)

lemma extra_data_in [dump_in]: "off + n \<le> length buf \<Longrightarrow> stays_inside (extra_data buf off skip n)"
  unfolding extra_data_def by (intro dump_in; simp)

lemma result_in [dump_in]:
  "off + 2 \<le> length buf \<Longrightarrow> stays_inside (result_lines buf off)"
  "off + 2 \<le> length buf \<Longrightarrow> stays_inside (result_pair buf off)"
  unfolding result_lines_def result_pair_def by (intro dump_in; simp)+

lemma body_in [dump_in]:
  assumes "18 + n \<le> length buf"
  shows "stays_inside (dev_command_body buf m n)" "stays_inside (dev_response_body buf m n)"
    "stays_inside (strgy_command_body buf m n)" "stays_inside (strgy_response_body buf m n)"
    "stays_inside (create_params buf v6 n)" "stays_inside (sess_response_body buf m n)"
  using assms
  unfolding dev_command_body_def dev_response_body_def strgy_command_body_def strgy_response_body_def
    create_params_def sess_response_body_def Let_def
  by (intro dump_in; simp add: sizeof_SessPara_def split: if_splits)+

lemma sess_command_body_in [dump_in]: "18 + n \<le> length buf \<Longrightarrow> stays_inside (sess_command_body buf m v n)"
  unfolding sess_command_body_def by (intro dump_in; simp)

definition announced :: "bytes \<Rightarrow> nat" where
  "announced buf = unat (ph_payload_len (dec_ProxyMsgHeader buf))"

lemma stays_header:
  "8 \<le> length buf \<Longrightarrow> stays_inside (f (dec_ProxyMsgHeader buf)) \<Longrightarrow> stays_inside (Option.bind (rd_proxy buf) f)"
  by (simp add: rd_proxy_dec)

lemma dumps_in [dump_in]:
  assumes "8 + announced buf \<le> length buf"
  shows "stays_inside (proxy_dev_msg_content_dump buf)" "stays_inside (proxy_strgy_msg_content_dump buf)"
    "stays_inside (proxy_sess_msg_content_dump buf)" "stays_inside (proxy_data_msg_content_dump buf)"
  using assms
  unfolding proxy_dev_msg_content_dump_def proxy_strgy_msg_content_dump_def proxy_sess_msg_content_dump_def
    proxy_data_msg_content_dump_def Let_def announced_def
  by (intro stays_header, simp, intro dump_in; auto)+

text \<open>
  Printing the content of a message stays inside it.  For every message whose buffer holds the
  header and as many bytes as the header announces, whatever its type, its inner lengths and its
  content, \<open>proxy_msg_content_dump\<close> reads nothing past the buffer.
\<close>

lemma content_dump_stays_inside:
  assumes "8 + announced buf \<le> length buf"
  shows "\<exists>out. proxy_msg_content_dump (Some buf) = Some out"
proof -
  have "stays_inside (proxy_msg_content_dump (Some buf))"
    using assms unfolding proxy_msg_content_dump_def Let_def option.case by (intro stays_header, simp, intro dump_in; simp)
  then show ?thesis by (simp add: stays_inside_def)
qed

definition close_command :: bytes where
  "close_command =
     enc_ProxyMsgHeader \<lparr>ph_version = 1, ph_proxy_msg_type = PROXY_MSG_TYPE_SESS, ph_frontend_sess_id = 7,
       ph_backend_sess_id = 9, ph_payload_len = 11\<rparr>
     @ enc_SessMsgHeader \<lparr>sh_version = 1, sh_msg_type = SESS_MSG_CLOSE, sh_action_type = ACTION_TYPE_COMMAND,
       sh_ip_version = 4, sh_payload_len = 60\<rparr> @ [5]"

lemma raw_data_in [dump_in]: "unat len \<le> length data \<Longrightarrow> stays_inside (raw_data_lines len data)"
  unfolding raw_data_lines_def Let_def
  by (intro dump_in) (auto simp: word_less_nat_alt split: if_splits)

text \<open>The dump of a device buffer reads inside the data when there are as many bytes as announced.\<close>

lemma buffer_dump_stays_inside:
  assumes "\<And>d. bv_data v = Some d \<Longrightarrow> unat (bv_len v) \<le> length d"
  shows "\<exists>out. print_iot_msg_buffer (Some v) = Some out"
proof -
  have "stays_inside (print_iot_msg_buffer (Some v))"
    unfolding print_iot_msg_buffer_def option.case
    by (intro dump_in) (auto split: option.split intro!: dump_in simp: assms)
  then show ?thesis by (simp add: stays_inside_def)
qed

lemma get_iot_addr_length_le: "get_iot_addr_length p \<le> 20"
  by (simp add: get_iot_addr_length_def iot_sizes)

lemma parse_result_in [dump_in]: "stays_inside (parse_err ps)" "stays_inside (parsed s)"
  by (simp_all add: stays_inside_def parse_err_def parsed_def)

lemma parse_in [dump_in]:
  assumes "8 + n \<le> length buf \<or> 56 \<le> length buf"
  shows "stays_inside (parse_dev buf n)" "stays_inside (parse_strgy buf n)" "stays_inside (parse_data buf n)"
  using assms unfolding parse_dev_def parse_strgy_def parse_data_def Let_def
  by (intro dump_in; auto)+

lemma parse_create_in [dump_in]:
  "18 + n \<le> length buf \<or> 56 \<le> length buf \<Longrightarrow> stays_inside (parse_create buf v6 n)"
  unfolding parse_create_def by (intro dump_in; auto simp: sizeof_SessPara_def split: if_splits)

lemma parse_sess_in [dump_in]: "8 + n \<le> length buf \<or> 56 \<le> length buf \<Longrightarrow> stays_inside (parse_sess buf n)"
  unfolding parse_sess_def Let_def by (intro dump_in; auto)

lemma parse_iot_in:
  assumes "56 \<le> length buf"
  shows "stays_inside (parse_iot buf n)"
proof -
  have "20 + get_iot_addr_length p \<le> length buf" "20 + get_iot_addr_length p + min m 16 \<le> length buf" for p m
    using assms get_iot_addr_length_le [of p] by simp_all
  then show ?thesis
    unfolding parse_iot_def Let_def using assms by (intro dump_in; simp)
qed

text \<open>
  C27.  The summary that both ends of a queue print of every message.  A device, strategy, session or
  data message is read inside the bytes its header announces; a message of any type is read inside
  its first 56 bytes.
\<close>

theorem summary_stays_inside:
  assumes "8 \<le> length buf"
    "56 \<le> length buf \<or> ph_proxy_msg_type (dec_ProxyMsgHeader buf) \<noteq> PROXY_MSG_TYPE_IOT \<and> 8 + announced buf \<le> length buf"
  shows "\<exists>ret out. parse_proxy_protocol_and_print (Some buf) = Some (ret, out)"
proof -
  have "stays_inside (parse_proxy_protocol_and_print (Some buf))"
    using assms unfolding parse_proxy_protocol_and_print_def Let_def option.case announced_def
    by (intro stays_header, simp, intro dump_in parse_iot_in; auto)
  then show ?thesis by (auto simp: stays_inside_def)
qed

theorem summary_stays_inside_witness:
  "8 \<le> length close_command \<and> \<not> 56 \<le> length close_command \<and>
   (\<exists>ret out. parse_proxy_protocol_and_print (Some close_command) = Some (ret, out))"
proof -
  have "8 \<le> length close_command" "\<not> 56 \<le> length close_command" "8 + announced close_command \<le> length close_command"
    "ph_proxy_msg_type (dec_ProxyMsgHeader close_command) \<noteq> PROXY_MSG_TYPE_IOT"
    by (simp_all add: announced_def close_command_def dec_enc_ProxyMsgHeader proxy_msg_types)
  with summary_stays_inside [of close_command] show ?thesis by blast
qed

text \<open>
  An IoT message is not: the summary prints as many bytes after the address as the address and the
  data have together, here for a CAN message with one byte of data.
\<close>

definition can_message :: bytes where
  "can_message =
     enc_ProxyMsgHeader \<lparr>ph_version = 1, ph_proxy_msg_type = PROXY_MSG_TYPE_IOT, ph_frontend_sess_id = 7,
       ph_backend_sess_id = 9, ph_payload_len = 20\<rparr>
     @ enc_IotMsgHeader \<lparr>ih_proto_ver = 1, ih_proto_type = IOT_PROTO_TYPE_CAN, ih_opcode = 0, ih_dev_port_id = 0,
       ih_payload_len = 8, ih_reserve = 0\<rparr> @ replicate 7 0 @ [5]"

lemma iot_summary_overreads:
  "length can_message = 8 + announced can_message" "parse_proxy_protocol_and_print (Some can_message) = None"
proof -
  have l: "length can_message = 28" by (simp add: can_message_def)
  have p: "ph_payload_len (dec_ProxyMsgHeader can_message) = 20"
    "ph_proxy_msg_type (dec_ProxyMsgHeader can_message) = PROXY_MSG_TYPE_IOT"
    by (simp_all add: can_message_def dec_enc_ProxyMsgHeader)
  show "length can_message = 8 + announced can_message" by (simp add: announced_def l p)
  have "rd can_message 8 12 = Some (enc_IotMsgHeader \<lparr>ih_proto_ver = 1, ih_proto_type = IOT_PROTO_TYPE_CAN,
      ih_opcode = 0, ih_dev_port_id = 0, ih_payload_len = 8, ih_reserve = 0\<rparr>)"
    by (simp add: rd_def l) (simp add: can_message_def)
  then have i: "map_option dec_IotMsgHeader (rd can_message 8 12) = Some \<lparr>ih_proto_ver = 1, ih_proto_type = IOT_PROTO_TYPE_CAN,
      ih_opcode = 0, ih_dev_port_id = 0, ih_payload_len = 8, ih_reserve = 0\<rparr>"
    using dec_enc_IotMsgHeader [of _ "[]"] by simp
  have c: "get_iot_addr_length IOT_PROTO_TYPE_CAN = 7" by code_simp
  have "rd can_message 20 7 = Some (take 7 (drop 20 can_message))" "rd can_message 27 8 = None" by (simp_all add: rd_def l)
  then have "parse_iot can_message 20 = None" by (simp add: parse_iot_def i c del: map_option_eq_Some)
  then show "parse_proxy_protocol_and_print (Some can_message) = None"
    by (simp add: parse_proxy_protocol_and_print_def rd_proxy_dec l p proxy_msg_types)
qed

end
