(* ===== verification/Device_Stats.thy ===== *)
theory Device_Stats
  imports Message_Dump Ini_Lemmas
begin

text \<open>
  Measurements.  Counters of a network interface (\<open>src/src/ethtool_stats.c\<close>): the output of \<open>ethtool -S\<close>
  is read line by line and known counters are kept.  The output of the command is an argument, \<open>None\<close>
  when the command cannot be run; \<open>None\<close> as a result is a call with a null pointer.  Round-trip times
  (\<open>src/src/rtt_stats.c\<close>): fifty requests on one connection whose answers are appended to a file; what
  is printed is left out.
\<close>

section \<open>Counters\<close>

definition STATS_BUFFER_SIZE :: nat where "STATS_BUFFER_SIZE = 256"
definition DEFAULT_INTERVAL :: int where "DEFAULT_INTERVAL = 2"

record NetworkStats =
  ns_name :: "string option"
  ns_rx_bytes :: u64
  ns_rx_packets :: u64
  ns_tx_bytes :: u64
  ns_tx_packets :: u64
  ns_errors :: u64
  ns_tx_dropped :: u64

definition no_stats :: NetworkStats where
  "no_stats = \<lparr>ns_name = None, ns_rx_bytes = 0, ns_rx_packets = 0, ns_tx_bytes = 0, ns_tx_packets = 0,
     ns_errors = 0, ns_tx_dropped = 0\<rparr>"

fun strstr :: "string \<Rightarrow> string \<Rightarrow> bool" where
  "strstr [] w = (w = [])"
| "strstr (c # s) w = (take (length w) (c # s) = w \<or> strstr s w)"

text \<open>\<open>strtoul\<close> with base 10: a value that does not fit gives the largest one, a sign negates.\<close>

definition strtoul :: "string \<Rightarrow> u64" where
  "strtoul s =
     (let t = dropWhile isspace s;
          minus = (t \<noteq> [] \<and> hd t = CHR ''-'');
          u = (if t \<noteq> [] \<and> (hd t = CHR ''-'' \<or> hd t = CHR ''+'') then tl t else t);
          v = digits_value 10 u
      in if v \<ge> 2 ^ 64 then -1 else if minus then - of_int v else of_int v)"

definition stats_line :: "string \<Rightarrow> NetworkStats \<Rightarrow> NetworkStats" where
  "stats_line result stats =
     (let r = takeWhile (\<lambda>c. c \<noteq> CHR 0x00) result
      in if CHR '':'' \<notin> set r then stats
         else let key = takeWhile (\<lambda>c. c \<noteq> CHR '':'') r;
                  val = strtoul (dropWhile (\<lambda>c. c = CHR '' '' \<or> c = CHR 0x09) (tl (dropWhile (\<lambda>c. c \<noteq> CHR '':'') r)))
              in if strstr key ''rx_bytes'' then stats\<lparr>ns_rx_bytes := val\<rparr>
                 else if strstr key ''rx_packets'' then stats\<lparr>ns_rx_packets := val\<rparr>
                 else if strstr key ''tx_bytes'' then stats\<lparr>ns_tx_bytes := val\<rparr>
                 else if strstr key ''tx_packets'' then stats\<lparr>ns_tx_packets := val\<rparr>
                 else if strstr key ''errors'' then stats\<lparr>ns_errors := val\<rparr>
                 else if strstr key ''tx_dropped'' then stats\<lparr>ns_tx_dropped := val\<rparr>
                 else stats)"

function stats_loop :: "string \<Rightarrow> NetworkStats \<Rightarrow> NetworkStats" where
  "stats_loop file stats =
     (case fgets STATS_BUFFER_SIZE file of
        None \<Rightarrow> stats
      | Some (l, rest, e) \<Rightarrow> stats_loop rest (stats_line l stats))"
  by pat_completeness auto

termination stats_loop
proof (relation "measure (length \<circ> fst)")
  fix inp :: string and stats :: NetworkStats and x l y rest e
  assume "fgets STATS_BUFFER_SIZE inp = Some x" "(l, y) = x" "(rest, e) = y"
  then show "((rest, stats_line l stats), inp, stats) \<in> measure (length \<circ> fst)"
    using fgets_Some [of STATS_BUFFER_SIZE inp l rest e] by auto
qed simp

declare stats_loop.simps [simp del]

text \<open>
  The counters the global pointer leads to, and the blocks of memory that are in use.
\<close>

record stats_state =
  ss_stats :: "NetworkStats option"
  ss_blocks :: nat

text \<open>
  A pass: the memory for the line and for the name, and the output.  A missing command and missing
  memory are reported, and the pass goes on with the null pointer.
\<close>

record stats_answers =
  sa_pipe :: "string option"
  sa_line_mem :: bool
  sa_name_mem :: bool

definition get_ethtool_stats :: "stats_answers \<Rightarrow> string \<Rightarrow> stats_state \<Rightarrow> stats_state option" where
  "get_ethtool_stats a iface st =
     (case (sa_pipe a, ss_stats st) of
        (Some text, Some stats) \<Rightarrow>
          if \<not> sa_line_mem a \<or> \<not> sa_name_mem a then None
          else Some (st\<lparr>ss_stats := Some (stats_loop text (stats\<lparr>ns_name := Some iface\<rparr>)), ss_blocks := ss_blocks st + 2\<rparr>)
      | _ \<Rightarrow> None)"

definition atoi :: "string \<Rightarrow> int" where
  "atoi s =
     (let t = dropWhile isspace s;
          v = (if t \<noteq> [] \<and> hd t = CHR ''-'' then - digits_value 10 (tl t)
               else if t \<noteq> [] \<and> hd t = CHR ''+'' then digits_value 10 (tl t) else digits_value 10 t)
      in signed_take_bit 31 (max (- (2 ^ 63)) (min (2 ^ 63 - 1) v)))"

definition stats_interval :: "string list \<Rightarrow> int" where
  "stats_interval argv =
     (if length argv = 2 then (let i = atoi (argv ! 1) in if i \<le> 0 then DEFAULT_INTERVAL else i)
      else DEFAULT_INTERVAL)"

text \<open>The loop has no end; this is the state after a number of passes.\<close>

fun stats_passes :: "nat \<Rightarrow> (nat \<Rightarrow> stats_answers) \<Rightarrow> stats_state \<Rightarrow> stats_state option" where
  "stats_passes 0 answers st = Some st"
| "stats_passes (Suc n) answers st = do {
     st' \<leftarrow> stats_passes n answers st;
     get_ethtool_stats (answers n) ''ens33'' st' }"

definition ethtool_stats :: "bool \<Rightarrow> nat \<Rightarrow> (nat \<Rightarrow> stats_answers) \<Rightarrow> stats_state option" where
  "ethtool_stats malloc_ok n answers =
     (if \<not> malloc_ok then None else stats_passes n answers \<lparr>ss_stats = Some no_stats, ss_blocks = 1\<rparr>)"


section \<open>Reading what is printed\<close>

lemma digit_of_char:
  assumes "d < 10"
  shows "digit_of (digit_char d) = Some (int d)"
proof -
  have "list_all (\<lambda>d. digit_of (digit_char d) = Some (int d)) [0..<10]" by code_simp
  with assms show ?thesis by (simp only: list_all_iff set_upt) simp
qed

lemma is_digit_char: "d < 10 \<Longrightarrow> is_digit 10 (digit_char d)"
  by (simp add: is_digit_def digit_of_char)

lemma number_digits: "list_all (is_digit 10) (number 10 n)"
proof (induction "10 :: nat" n rule: number.induct)
  case (1 n)
  then show ?case by (subst number.simps) (auto simp: is_digit_char)
qed

lemma digits_value_snoc:
  assumes "list_all (is_digit 10) s" "is_digit 10 c"
  shows "digits_value 10 (s @ [c]) = digits_value 10 s * 10 + the (digit_of c)"
  using assms by (simp add: digits_value_def list_all_iff takeWhile_eq_all_conv [THEN iffD2])

lemma digits_value_number: "digits_value 10 (number 10 n) = int n"
proof (induction "10 :: nat" n rule: number.induct)
  case (1 n)
  show ?case
  proof (cases "n < 10")
    case True
    then show ?thesis by (simp add: number.simps digits_value_def is_digit_char digit_of_char)
  next
    case False
    then have "number 10 n = number 10 (n div 10) @ [digit_char (n mod 10)]" by (subst number.simps) simp
    then show ?thesis
      using 1 False by (simp add: digits_value_snoc number_digits is_digit_char digit_of_char)
        (metis div_mult_mod_eq of_nat_add of_nat_mult of_nat_numeral)
  qed
qed

lemma digits_value_stop:
  "list_all (is_digit 10) s \<Longrightarrow> r = [] \<or> \<not> is_digit 10 (hd r) \<Longrightarrow> digits_value 10 (s @ r) = digits_value 10 s"
  by (cases r) (auto simp: digits_value_def list_all_iff takeWhile_append2 takeWhile_eq_all_conv [THEN iffD2])

lemma digit_not_special:
  assumes "is_digit 10 c"
  shows "\<not> isspace c" "c \<notin> {CHR ''-'', CHR ''+'', CHR '' '', CHR 0x09, CHR 0x0A, CHR 0x00, CHR '':''}"
  using assms of_nat_of_char [of c, where 'a = int]
  by (auto simp: is_digit_def digit_of_def isspace_def Let_def split: if_splits option.splits)

lemma number_cons: "\<exists>c s. number 10 n = c # s \<and> is_digit 10 c \<and> list_all (is_digit 10) s"
proof (cases "number 10 n")
  case Nil
  then show ?thesis by (subst (asm) number.simps) (simp split: if_splits)
qed (use number_digits [of n] in auto)

lemma strtoul_number: "strtoul (number 10 (unat (w :: u64)) @ [CHR 0x0A]) = w"
proof -
  obtain c s where n: "number 10 (unat w) = c # s" "is_digit 10 c" "list_all (is_digit 10) s" using number_cons by blast
  have "digits_value 10 ((c # s) @ [CHR 0x0A]) = int (unat w)"
    using digits_value_stop [of "c # s" "[CHR 0x0A]"] n digits_value_number [of "unat w"]
    by (simp add: is_digit_def digit_of_def)
  moreover have "int (unat w) < 2 ^ 64" using uint_lt2p [of w] by simp
  ultimately show ?thesis
    using digit_not_special [OF n(2)] by (simp add: strtoul_def n(1) Let_def)
qed

text \<open>A line of the command's output.\<close>

definition stats_text :: "string \<Rightarrow> u64 \<Rightarrow> string" where
  "stats_text key v = ''     '' @ key @ '': '' @ number 10 (unat v) @ [CHR 0x0A]"

lemma span_at:
  "c \<notin> set xs \<Longrightarrow> takeWhile (\<lambda>x. x \<noteq> c) (xs @ c # ys) = xs"
  "c \<notin> set xs \<Longrightarrow> dropWhile (\<lambda>x. x \<noteq> c) (xs @ c # ys) = c # ys"
  by (induction xs) auto

lemma stats_line_text:
  assumes "CHR '':'' \<notin> set key" "CHR 0x00 \<notin> set key"
  shows "stats_line (stats_text key v) stats =
    (let k = ''     '' @ key
     in if strstr k ''rx_bytes'' then stats\<lparr>ns_rx_bytes := v\<rparr>
        else if strstr k ''rx_packets'' then stats\<lparr>ns_rx_packets := v\<rparr>
        else if strstr k ''tx_bytes'' then stats\<lparr>ns_tx_bytes := v\<rparr>
        else if strstr k ''tx_packets'' then stats\<lparr>ns_tx_packets := v\<rparr>
        else if strstr k ''errors'' then stats\<lparr>ns_errors := v\<rparr>
        else if strstr k ''tx_dropped'' then stats\<lparr>ns_tx_dropped := v\<rparr> else stats)"
proof -
  let ?n = "number 10 (unat v)"
  obtain c s where n: "?n = c # s" "is_digit 10 c" using number_cons by blast
  have special: "x \<notin> {CHR '' '', CHR 0x09, CHR 0x0A, CHR 0x00}" if "x \<in> set ?n" for x
    using digit_not_special [of x] number_digits [of "unat v"] that by (auto simp: list_all_iff)
  have z: "takeWhile (\<lambda>c. c \<noteq> CHR 0x00) (stats_text key v) = stats_text key v"
    unfolding takeWhile_eq_all_conv stats_text_def using special assms(2) by auto
  have "CHR '':'' \<notin> set (''     '' @ key)" using assms(1) by simp
  then have k: "takeWhile (\<lambda>c. c \<noteq> CHR '':'') (stats_text key v) = ''     '' @ key"
    "dropWhile (\<lambda>c. c \<noteq> CHR '':'') (stats_text key v) = '': '' @ ?n @ [CHR 0x0A]"
    unfolding stats_text_def by (simp_all add: span_at assms(1))
  have "CHR '':'' \<in> set (stats_text key v)" by (simp add: stats_text_def)
  moreover have "dropWhile (\<lambda>c. c = CHR '' '' \<or> c = CHR 0x09) ('' '' @ ?n @ [CHR 0x0A]) = ?n @ [CHR 0x0A]"
    using special [of c] n(1) by simp
  ultimately show ?thesis using strtoul_number [of v] unfolding stats_line_def z k Let_def by simp
qed

lemma stats_text_length: "length (stats_text key v) \<le> length key + 28"
proof -
  have l: "length (number 10 n) \<le> Suc k" if "n < 10 ^ Suc k" for n k
    using that
  proof (induction k arbitrary: n)
    case (Suc k)
    have "n div 10 < 10 ^ Suc k" using Suc.prems by (simp add: less_mult_imp_div_less mult.commute)
    from Suc.IH [OF this] show ?case by (subst number.simps) simp
  qed (simp add: number.simps)
  have "unat v < 2 ^ 64" using unsigned_less [of v] by simp
  also have "(2 :: nat) ^ 64 < 10 ^ Suc 19" by simp
  finally have "unat v < 10 ^ Suc 19" .
  from l [OF this] show ?thesis by (simp add: stats_text_def)
qed

lemma stats_loop_text:
  assumes "CHR 0x0A \<notin> set key" "length key < 200"
  shows "stats_loop (stats_text key v @ rest) stats = stats_loop rest (stats_line (stats_text key v) stats)"
proof -
  define l where "l = ''     '' @ key @ '': '' @ number 10 (unat v)"
  have "x \<noteq> CHR 0x0A" if "x \<in> set (number 10 (unat v))" for x
    using digit_not_special [of x] number_digits [of "unat v"] that by (auto simp: list_all_iff)
  then have "CHR 0x0A \<notin> set l" using assms(1) by (auto simp: l_def)
  moreover have t: "stats_text key v = l @ [CHR 0x0A]" by (simp add: stats_text_def l_def)
  moreover have "length l + 1 < STATS_BUFFER_SIZE"
    using stats_text_length [of key v] assms(2) by (simp add: t STATS_BUFFER_SIZE_def)
  ultimately have "fgets STATS_BUFFER_SIZE (stats_text key v @ rest) = Some (stats_text key v, rest, False)"
    using fgets_newline [of l STATS_BUFFER_SIZE rest] by simp
  then show ?thesis by (subst stats_loop.simps) simp
qed

text \<open>
  The counters a command prints are the counters that are kept, whatever was there before.
\<close>

definition stats_title :: string where
  "stats_title = ''NIC statistics'' @ [CHR 0x0A]"

definition stats_output :: "NetworkStats \<Rightarrow> string" where
  "stats_output s = concat [stats_title, stats_text ''rx_packets'' (ns_rx_packets s), stats_text ''tx_packets'' (ns_tx_packets s),
     stats_text ''rx_bytes'' (ns_rx_bytes s), stats_text ''tx_bytes'' (ns_tx_bytes s),
     stats_text ''rx_errors'' (ns_errors s), stats_text ''tx_dropped'' (ns_tx_dropped s)]"

lemma stats_roundtrip: "stats_loop (stats_output s) old = s\<lparr>ns_name := ns_name old\<rparr>"
proof -
  have "fgets STATS_BUFFER_SIZE (stats_title @ r) = Some (stats_title, r, False)" for r
    using fgets_newline [of "''NIC statistics''" STATS_BUFFER_SIZE r] by (simp add: STATS_BUFFER_SIZE_def stats_title_def)
  moreover have "stats_line stats_title st = st" for st by (simp add: stats_line_def stats_title_def)
  ultimately have first: "stats_loop (stats_title @ r) st = stats_loop r st" for r st
    by (subst stats_loop.simps) simp
  have fin: "stats_loop [] st = st" for st by (subst stats_loop.simps) simp
  have last: "stats_loop (stats_text key v) st = stats_line (stats_text key v) st"
    if "CHR 0x0A \<notin> set key" "length key < 200" for key v st
    using stats_loop_text [OF that, of v "[]" st] fin by simp
  show ?thesis
    unfolding stats_output_def by (simp add: first stats_loop_text last stats_line_text)
qed

text \<open>Every pass keeps two more blocks of memory: neither the line nor the old name is released.\<close>

lemma stats_passes_leak:
  "stats_passes n answers st = Some st' \<Longrightarrow> ss_blocks st' = ss_blocks st + 2 * n"
proof (induction n arbitrary: st')
  case (Suc n)
  then obtain s where s: "stats_passes n answers st = Some s" "get_ethtool_stats (answers n) ''ens33'' s = Some st'"
    by (auto simp: bind_eq_Some_conv)
  then show ?case
    using Suc.IH [OF s(1)] by (auto simp: get_ethtool_stats_def split: option.splits if_splits)
qed simp


section \<open>Round-trip times\<close>

definition RTT_BUFFER_SIZE :: nat where "RTT_BUFFER_SIZE = 4096"

text \<open>What \<open>read\<close> answers: some bytes, or the end of the stream, a timeout or an error.\<close>

datatype read_answer = Read_bytes bytes | Read_stop

record rtt_answers =
  ra_host :: bool
  ra_socket :: int
  ra_rcv_timeout :: int
  ra_snd_timeout :: int
  ra_connect :: int
  ra_file :: bool
  ra_write :: "nat \<Rightarrow> int"
  ra_read :: "nat \<Rightarrow> nat \<Rightarrow> read_answer"

text \<open>The program leaves with a failure, or returns with the file and the number of bytes per request.\<close>

datatype rtt_result = Rtt_failure | Rtt_success "bytes" "nat list"

definition set_socket_timeout :: "rtt_answers \<Rightarrow> bool" where
  "set_socket_timeout a \<longleftrightarrow> \<not> ra_rcv_timeout a < 0 \<and> \<not> ra_snd_timeout a < 0"

text \<open>The answers to one request; an answer fills the buffer but for its last byte.\<close>

fun rtt_read_loop :: "nat \<Rightarrow> (nat \<Rightarrow> read_answer) \<Rightarrow> nat \<Rightarrow> bytes \<Rightarrow> bytes option" where
  "rtt_read_loop 0 answer n got = None"
| "rtt_read_loop (Suc fuel) answer n got =
     (case answer n of
        Read_stop \<Rightarrow> Some got
      | Read_bytes d \<Rightarrow>
          let b = take (RTT_BUFFER_SIZE - 1) d
          in if b = [] then Some got else rtt_read_loop fuel answer (Suc n) (got @ b))"

text \<open>The requests from \<open>cnt\<close> on: \<open>left\<close> more, the file (if it is open) and the totals so far.\<close>

fun rtt_requests :: "nat \<Rightarrow> rtt_answers \<Rightarrow> nat \<Rightarrow> nat \<Rightarrow> bytes \<Rightarrow> nat list \<Rightarrow> rtt_result option" where
  "rtt_requests fuel a cnt 0 out totals = (if ra_file a then Some (Rtt_success out totals) else None)"
| "rtt_requests fuel a cnt (Suc left) out totals =
     (if ra_write a cnt < 0 then Some Rtt_failure
      else do {
        got \<leftarrow> rtt_read_loop fuel (ra_read a cnt) 0 [];
        rtt_requests fuel a (Suc cnt) left (if ra_file a then out @ got else out) (totals @ [length got]) })"

definition rtt_stats :: "nat \<Rightarrow> rtt_answers \<Rightarrow> bytes \<Rightarrow> rtt_result option" where
  "rtt_stats fuel a old =
     (if \<not> ra_host a then Some Rtt_failure
      else if ra_socket a < 0 then Some Rtt_failure
      else if \<not> set_socket_timeout a then Some Rtt_failure
      else if ra_connect a < 0 then Some Rtt_failure
      else rtt_requests fuel a 1 50 old [])"

lemma rtt_read_loop_all:
  assumes "\<And>i. i < length ds \<Longrightarrow> answer (n + i) = Read_bytes (ds ! i)" "answer (n + length ds) = Read_stop"
    and "\<And>d. d \<in> set ds \<Longrightarrow> d \<noteq> [] \<and> length d < RTT_BUFFER_SIZE" "length ds < fuel"
  shows "rtt_read_loop fuel answer n got = Some (got @ concat ds)"
  using assms
proof (induction ds arbitrary: n fuel got)
  case Nil
  then show ?case by (cases fuel) auto
next
  case (Cons d ds)
  then obtain f where f: "fuel = Suc f" "length ds < f" by (cases fuel) auto
  have "answer n = Read_bytes d" using Cons.prems(1) [of 0] by simp
  moreover have "answer (Suc n + i) = Read_bytes (ds ! i)" if "i < length ds" for i using Cons.prems(1) [of "Suc i"] that by simp
  moreover have "take (RTT_BUFFER_SIZE - 1) d = d" "d \<noteq> []" using Cons.prems(3) [of d] by auto
  ultimately show ?case using Cons.IH [of "Suc n" f "got @ d"] Cons.prems(2,3) f by (simp add: Let_def)
qed

text \<open>
  When every request is answered by finitely many pieces the program returns, and the file holds all
  of them in order.  Without the file it does not return: the null pointer is closed.
\<close>

lemma rtt_requests_all:
  assumes "\<And>i. ra_write a i \<ge> 0"
    and "\<And>i k. k < length (ds i) \<Longrightarrow> ra_read a i k = Read_bytes (ds i ! k)" "\<And>i. ra_read a i (length (ds i)) = Read_stop"
    and "\<And>i d. d \<in> set (ds i) \<Longrightarrow> d \<noteq> [] \<and> length d < RTT_BUFFER_SIZE" "\<And>i. length (ds i) < fuel"
  shows "rtt_requests fuel a cnt left out totals =
    (if ra_file a then Some (Rtt_success (out @ concat (map (\<lambda>i. concat (ds i)) [cnt..<cnt + left]))
        (totals @ map (\<lambda>i. length (concat (ds i))) [cnt..<cnt + left])) else None)"
proof (induction left arbitrary: cnt out totals)
  case (Suc left)
  have "rtt_read_loop fuel (ra_read a cnt) 0 [] = Some (concat (ds cnt))"
    using rtt_read_loop_all [of "ds cnt" "ra_read a cnt" 0 fuel "[]"] assms(2-5) by simp
  moreover have "[cnt..<cnt + Suc left] = cnt # [Suc cnt..<Suc cnt + left]" by (simp add: upt_conv_Cons)
  ultimately show ?case using Suc.IH [of "Suc cnt"] assms(1) [of cnt] by (simp del: upt_Suc)
qed simp

lemma rtt_file_missing:
  assumes "rtt_stats fuel a old = Some r" "\<not> ra_file a"
  shows "r = Rtt_failure"
proof -
  have "rtt_requests fuel a cnt left out totals = Some r \<Longrightarrow> r = Rtt_failure" for cnt left out totals
    by (induction left arbitrary: cnt out totals) (auto simp: assms(2) bind_eq_Some_conv split: if_splits)
  with assms(1) show ?thesis by (auto simp: rtt_stats_def split: if_splits)
qed

end
