(* ===== verification/Net_Channel.thy ===== *)
theory Net_Channel
  imports Session_Data
begin

text \<open>
  Channels of the poller (\<open>src/src/poller.c\<close>, \<open>src/include/channel.h\<close>): entering a descriptor into
  the epoll instance, removing it, and the receiving callback.  The event loop itself is
  \<open>poller_run\<close> of theory \<open>Session_Data\<close>.
\<close>

section \<open>The epoll instance\<close>

text \<open>
  The open descriptors, each with the events it is registered for, if it is.  \<open>epoll_ctl\<close> refuses a
  closed descriptor, adding twice, and changing or removing what is not registered; \<open>ok\<close> is false
  when the kernel lacks the memory for a registration.
\<close>

type_synonym epoll = "int \<rightharpoonup> u32 option"

datatype epoll_op = EPOLL_CTL_ADD | EPOLL_CTL_MOD | EPOLL_CTL_DEL

definition epoll_ctl :: "bool \<Rightarrow> epoll_op \<Rightarrow> int \<Rightarrow> u32 \<Rightarrow> epoll \<Rightarrow> int \<times> epoll" where
  "epoll_ctl ok op fd events k =
     (case (op, k fd) of
        (EPOLL_CTL_ADD, Some None) \<Rightarrow> if ok then (0, k(fd \<mapsto> Some events)) else (-1, k)
      | (EPOLL_CTL_MOD, Some (Some _)) \<Rightarrow> (0, k(fd \<mapsto> Some events))
      | (EPOLL_CTL_DEL, Some (Some _)) \<Rightarrow> (0, k(fd \<mapsto> None))
      | _ \<Rightarrow> (-1, k))"

text \<open>Closing a descriptor removes its registration.\<close>

definition epoll_close :: "int \<Rightarrow> epoll \<Rightarrow> epoll" where
  "epoll_close fd k = k(fd := None)"


section \<open>Channels\<close>

definition EPOLLOUT :: u32 where "EPOLLOUT = 4"
definition EPOLLET :: u32 where "EPOLLET = 0x80000000"

datatype CALLBACK = No_cb | Recv_cb | Send_cb | Other_cb nat

text \<open>\<open>arg\<close> is the descriptor of the poller it points to.\<close>

record NetChannel =
  ch_sock_fd :: int
  ch_events :: u32
  ch_arg :: "int option"
  ch_status :: int
  ch_callback :: CALLBACK
  ch_sess :: "nat option"

definition channel_set :: "NetChannel \<Rightarrow> int \<Rightarrow> CALLBACK \<Rightarrow> int option \<Rightarrow> NetChannel" where
  "channel_set ch fd callback a = ch\<lparr>ch_sock_fd := fd, ch_callback := callback, ch_events := 0, ch_arg := a\<rparr>"

definition channel_set_sess :: "NetChannel \<Rightarrow> nat option \<Rightarrow> NetChannel" where
  "channel_set_sess ch sess = ch\<lparr>ch_sess := sess\<rparr>"

definition event_add :: "bool \<Rightarrow> u32 \<Rightarrow> NetChannel \<Rightarrow> epoll \<Rightarrow> int \<times> NetChannel \<times> epoll" where
  "event_add ok events ch k =
     (let ch1 = ch\<lparr>ch_events := events\<rparr>;
          (op, ch2) = (if ch_status ch1 = 1 then (EPOLL_CTL_MOD, ch1) else (EPOLL_CTL_ADD, ch1\<lparr>ch_status := 1\<rparr>));
          (r, k') = epoll_ctl ok op (ch_sock_fd ch2) events k
      in if r < 0 then (-1, ch2, k') else (BACKEND_PROXY_PROCESS_OK, ch2, k'))"

definition event_del :: "NetChannel \<Rightarrow> epoll \<Rightarrow> int \<times> NetChannel \<times> epoll" where
  "event_del ch k =
     (if ch_status ch \<noteq> 1 then (-1, ch, k)
      else (BACKEND_PROXY_PROCESS_OK, ch\<lparr>ch_status := 0\<rparr>, snd (epoll_ctl True EPOLL_CTL_DEL (ch_sock_fd ch) 0 k)))"

text \<open>
  What \<open>recv\<close> answers: data for the buffer of five bytes, the end of the stream, nothing at the
  moment, or an error.
\<close>

datatype recv_answer = Got bytes | Got_eof | Got_again | Got_error

text \<open>The loop writes what it gets to the standard output; \<open>None\<close> when the bound is used up.\<close>

fun recv_loop :: "nat \<Rightarrow> (nat \<Rightarrow> recv_answer) \<Rightarrow> nat \<Rightarrow> bytes \<Rightarrow> (recv_answer \<times> bytes) option" where
  "recv_loop 0 answer n out = None"
| "recv_loop (Suc fuel) answer n out =
     (case answer n of
        Got d \<Rightarrow> recv_loop fuel answer (Suc n) (out @ take 5 d)
      | a \<Rightarrow> Some (a, out))"

datatype cb_result = Cb_exit bytes | Cb_return int NetChannel epoll bytes

text \<open>
  The length declared before the loop is hidden by the one inside, so the result is always its initial
  value.
\<close>

definition recv_cb :: "nat \<Rightarrow> (nat \<Rightarrow> recv_answer) \<Rightarrow> bool \<Rightarrow> int \<Rightarrow> NetChannel \<Rightarrow> epoll \<Rightarrow> cb_result option" where
  "recv_cb fuel answer ok fd ch k = do {
     (a, out) \<leftarrow> recv_loop fuel answer 0 [];
     if a = Got_error then Some (Cb_exit out)
     else do {
       let (ch1, k1) = (if a = Got_eof then let (_, ch1, k1) = event_del ch k in (ch1, epoll_close fd k1) else (ch, k));
       let ch2 = channel_set ch1 fd Send_cb (ch_arg ch1);
       let (_, ch3, k3) = event_add ok (EPOLLOUT OR EPOLLET) ch2 k1;
       Some (Cb_return (-1) ch3 k3 out) } }"

definition send_cb :: "int \<Rightarrow> u32 \<Rightarrow> NetChannel \<Rightarrow> int" where
  "send_cb fd events ch = -1"

definition poller_destory :: "int \<Rightarrow> epoll \<Rightarrow> int \<times> epoll" where
  "poller_destory epfd k = (BACKEND_PROXY_PROCESS_OK, epoll_close epfd k)"


section \<open>The status of a channel\<close>

text \<open>The channel knows whether its descriptor is registered, and for what.\<close>

definition synced :: "NetChannel \<Rightarrow> epoll \<Rightarrow> bool" where
  "synced ch k \<longleftrightarrow> ch_status ch \<in> {0, 1} \<and>
     (case k (ch_sock_fd ch) of Some (Some ev) \<Rightarrow> ch_status ch = 1 \<and> ev = ch_events ch | _ \<Rightarrow> ch_status ch = 0)"

text \<open>
  With an open descriptor and memory for the registration the status stays right, whether the channel
  was registered before or not.
\<close>

lemma event_add_synced:
  assumes "synced ch k" "k (ch_sock_fd ch) \<noteq> None"
  shows "\<exists>ch' k'. event_add True events ch k = (BACKEND_PROXY_PROCESS_OK, ch', k') \<and> synced ch' k'
    \<and> k' = k(ch_sock_fd ch \<mapsto> Some events) \<and> ch' = ch\<lparr>ch_events := events, ch_status := 1\<rparr>"
  using assms by (auto simp: event_add_def epoll_ctl_def synced_def Let_def split: option.splits)

lemma event_del_synced:
  assumes "synced ch k" "event_del ch k = (r, ch', k')"
  shows "synced ch' k'" "r = (if ch_status ch = 1 then BACKEND_PROXY_PROCESS_OK else -1)"
  using assms by (auto simp: event_del_def epoll_ctl_def synced_def split: option.splits if_splits)

text \<open>
  A registration that fails is not forgotten: the status is set before the call, so every later
  attempt changes a registration that does not exist and fails as well, memory or not.
\<close>

lemma failed_add_sticks:
  assumes "synced ch k" "k (ch_sock_fd ch) = Some None" "event_add False events ch k = (r, ch1, k1)"
  shows "r = -1 \<and> ch_status ch1 = 1 \<and> k1 = k \<and> (\<forall>ok ev. fst (event_add ok ev ch1 k1) = -1)"
  using assms by (auto simp: event_add_def epoll_ctl_def synced_def Let_def split: option.splits)

lemma recv_loop_drains:
  assumes "\<And>i. i < m \<Longrightarrow> answer (n + i) = Got (d i) \<and> length (d i) \<le> 5" "\<And>x. answer (n + m) \<noteq> Got x" "m < fuel"
  shows "recv_loop fuel answer n out = Some (answer (n + m), out @ concat (map d [0..<m]))"
  using assms
proof (induction m arbitrary: n fuel out d)
  case 0
  then obtain f where "fuel = Suc f" by (cases fuel) auto
  with 0(2) show ?case by (simp split: recv_answer.split)
next
  case (Suc m)
  then obtain f where f: "fuel = Suc f" "m < f" by (cases fuel) auto
  have d0: "answer n = Got (d 0)" "take 5 (d 0) = d 0" using Suc.prems(1) [of 0] by auto
  have "recv_loop f answer (Suc n) (out @ d 0) = Some (answer (Suc n + m), (out @ d 0) @ concat (map (\<lambda>i. d (Suc i)) [0..<m]))"
  proof (rule Suc.IH)
    fix i assume "i < m" then show "answer (Suc n + i) = Got (d (Suc i)) \<and> length (d (Suc i)) \<le> 5"
      using Suc.prems(1) [of "Suc i"] by simp
  qed (use Suc.prems(2) f in auto)
  moreover have "concat (map d [0..<Suc m]) = d 0 @ concat (map (\<lambda>i. d (Suc i)) [0..<m])"
    by (simp only: upt_conv_Cons zero_less_Suc map_Suc_upt [symmetric] list.map concat.simps map_map o_def)
  ultimately show ?case by (simp add: f(1) d0)
qed

text \<open>
  A registered channel whose socket runs dry: everything received is written in order, and the channel
  waits for the socket to take data, with the other callback.  The result is -1.
\<close>

lemma recv_cb_drained:
  assumes "synced ch k" "ch_status ch = 1" "ch_sock_fd ch = fd"
    and "\<And>i. i < m \<Longrightarrow> answer i = Got (d i) \<and> length (d i) \<le> 5" "answer m = Got_again" "m < fuel"
  shows "\<exists>ch'. recv_cb fuel answer ok fd ch k
      = Some (Cb_return (-1) ch' (k(fd \<mapsto> Some (EPOLLOUT OR EPOLLET))) (concat (map d [0..<m])))
    \<and> ch_callback ch' = Send_cb \<and> ch_events ch' = EPOLLOUT OR EPOLLET \<and> ch_status ch' = 1"
proof -
  have l: "recv_loop fuel answer 0 [] = Some (Got_again, concat (map d [0..<m]))"
    using recv_loop_drains [of m answer 0 d fuel "[]"] assms(4-6) by simp
  obtain ev where "k fd = Some (Some ev)" using assms(1-3) by (auto simp: synced_def split: option.splits)
  then show ?thesis
    using assms(2,3) by (simp add: recv_cb_def l channel_set_def event_add_def epoll_ctl_def Let_def)
qed

text \<open>
  After the end of the stream the descriptor is closed and then registered again: the registration
  fails, and the channel is left marked as registered.
\<close>

lemma recv_cb_eof:
  assumes "answer 0 = Got_eof" "ch_status ch = 1" "ch_sock_fd ch = fd" "0 < fuel"
  shows "\<exists>ch' k'. recv_cb fuel answer ok fd ch k = Some (Cb_return (-1) ch' k' []) \<and> k' fd = None
    \<and> ch_status ch' = 1 \<and> \<not> synced ch' k'"
proof -
  have l: "recv_loop fuel answer 0 [] = Some (Got_eof, [])" using assms(1,4) by (cases fuel) simp_all
  show ?thesis
    by (simp add: recv_cb_def l event_del_def epoll_close_def channel_set_def event_add_def epoll_ctl_def synced_def
        assms(2,3) Let_def)
qed

end
