(* ===== verification/Pool_Queue_Setup.thy ===== *)
theory Pool_Queue_Setup
  imports Shm_Pool_Queue
begin

text \<open>
  Creating the two queues over the memory pool (\<open>engine_init_shared_mem_queue\<close> in
  \<open>src/src/engine.c\<close>).  The call in \<open>engine_init\<close> is disabled.
\<close>

definition HSNET_RX_PHY_ADDR_BASE :: u64 where "HSNET_RX_PHY_ADDR_BASE = 0xA000"
definition HSNET_MEM_BLOCK_SIZE :: u64 where "HSNET_MEM_BLOCK_SIZE = 4096"
definition HSNET_TX_PHY_ADDR_BASE :: u64 where
  "HSNET_TX_PHY_ADDR_BASE = HSNET_RX_PHY_ADDR_BASE + HSNET_MEM_BLOCK_SIZE * of_nat MAX_MAP_TABLE_ENTRY_COUNT"

definition high_speed_net_rx_queue_config :: SharedMemoryPoolQueueConfig where
  "high_speed_net_rx_queue_config = \<lparr>sc_pool = False, sc_map_mode = SHARE_MEM_MAP_MODE_CONTIGUOUS_BOTH,
     sc_phy_addr = HSNET_RX_PHY_ADDR_BASE, sc_virt_addr = 0, sc_capacity = of_nat MAX_MAP_TABLE_ENTRY_COUNT, sc_block_size = 4096\<rparr>"

definition high_speed_net_tx_queue_config :: SharedMemoryPoolQueueConfig where
  "high_speed_net_tx_queue_config = \<lparr>sc_pool = False, sc_map_mode = SHARE_MEM_MAP_MODE_CONTIGUOUS_BOTH,
     sc_phy_addr = HSNET_TX_PHY_ADDR_BASE, sc_virt_addr = 0, sc_capacity = of_nat MAX_MAP_TABLE_ENTRY_COUNT, sc_block_size = 4096\<rparr>"

text \<open>
  What the function works on: the pool of the engine, its two queues, the two configurations and the
  queues that were released.
\<close>

record pool_queues =
  pq_mem_pool :: bool
  pq_rx_queue :: "SharedMemoryPoolQueue option"
  pq_tx_queue :: "SharedMemoryPoolQueue option"
  pq_rx_conf :: SharedMemoryPoolQueueConfig
  pq_tx_conf :: SharedMemoryPoolQueueConfig
  pq_freed :: "SharedMemoryPoolQueue list"

definition engine_init_shared_mem_queue ::
  "SharedMemoryPoolQueue option \<times> u64 option \<Rightarrow> SharedMemoryPoolQueue option \<times> u64 option \<Rightarrow>
   pool_queues option \<Rightarrow> int \<times> pool_queues option" where
  "engine_init_shared_mem_queue rx_mem tx_mem engine =
     (case engine of
        None \<Rightarrow> (BACKEND_PROXY_PROCESS_ERROR, engine)
      | Some eng \<Rightarrow>
          (case shared_mem_pool_queue_create_backend (fst rx_mem) (snd rx_mem) (Some (pq_rx_conf eng)) of
             None \<Rightarrow> (BACKEND_PROXY_PROCESS_ERROR, engine)
           | Some rx_queue \<Rightarrow>
               (case shared_mem_pool_queue_create_backend (fst tx_mem) (snd tx_mem) (Some (pq_tx_conf eng)) of
                  None \<Rightarrow> (BACKEND_PROXY_PROCESS_ERROR, Some (eng\<lparr>pq_freed := pq_freed eng @ [rx_queue]\<rparr>))
                | Some tx_queue \<Rightarrow>
                    (BACKEND_PROXY_PROCESS_OK,
                     Some (eng\<lparr>pq_rx_conf := (pq_rx_conf eng)\<lparr>sc_pool := pq_mem_pool eng\<rparr>,
                       pq_tx_conf := (pq_tx_conf eng)\<lparr>sc_pool := pq_mem_pool eng\<rparr>,
                       pq_rx_queue := Some rx_queue, pq_tx_queue := Some tx_queue\<rparr>)))))"

text \<open>
  The queues are empty and have the configured geometry.  The pool reaches the configurations only
  after the queues were created from them, so both queues are left without a pool.
\<close>

lemma pool_queues_created:
  assumes "pq_rx_conf eng = high_speed_net_rx_queue_config" "pq_tx_conf eng = high_speed_net_tx_queue_config"
    and "unat rx_base + 257 * 4096 < 2 ^ 64" "unat tx_base + 257 * 4096 < 2 ^ 64"
  shows "\<exists>eng' rx tx. engine_init_shared_mem_queue (Some r, Some rx_base) (Some t, Some tx_base) (Some eng)
       = (BACKEND_PROXY_PROCESS_OK, Some eng')
    \<and> pq_rx_queue eng' = Some rx \<and> shm_inv rx_base 256 4096 rx \<and> shm_contents rx m = []
    \<and> pq_tx_queue eng' = Some tx \<and> shm_inv tx_base 256 4096 tx \<and> shm_contents tx m = []
    \<and> \<not> sq_pool rx \<and> \<not> sq_pool tx"
  using assms
  by (simp add: engine_init_shared_mem_queue_def shared_mem_pool_queue_create_backend_def IS_VALID_SHM_CONF_MAP_MODE_def
      high_speed_net_rx_queue_config_def high_speed_net_tx_queue_config_def MAX_MAP_TABLE_ENTRY_COUNT_def map_modes
      shm_inv_def shm_contents_def ring_slots_empty Let_def)

end
