(* ===== verification/Config_Dump.thy ===== *)
theory Config_Dump
  imports Ini_Parser
begin

text \<open>
  Printing and releasing a dictionary (\<open>src/src/dictionary.c\<close>, \<open>src/src/iniparser.c\<close>).
\<close>

definition pad_left :: "nat \<Rightarrow> string \<Rightarrow> string" where
  "pad_left w s = replicate (w - length s) (CHR '' '') @ s"

text \<open>The slots in order, with key and value.\<close>

definition slots :: "dictionary \<Rightarrow> (string option \<times> string option) list" where
  "slots d = map (\<lambda>i. (dc_key d ! i, dc_val d ! i)) [0..<dc_size d]"

fun dump_slot :: "string option \<times> string option \<Rightarrow> string" where
  "dump_slot (None, v) = []"
| "dump_slot (Some k, v) =
     pad_left 20 k @ [CHR 0x09] @ ''['' @ (case v of None \<Rightarrow> ''UNDEF'' | Some s \<Rightarrow> s) @ '']'' @ [CHR 0x0A]"

definition dictionary_dump :: "dictionary option \<Rightarrow> string" where
  "dictionary_dump dict =
     (case dict of
        None \<Rightarrow> []
      | Some d \<Rightarrow> if dc_n d < 1 then ''empty dictionary'' @ [CHR 0x0A] else concat (map dump_slot (slots d)))"

fun ini_dump_slot :: "string option \<times> string option \<Rightarrow> string" where
  "ini_dump_slot (None, v) = []"
| "ini_dump_slot (Some k, Some s) = ''['' @ k @ '']=['' @ s @ '']'' @ [CHR 0x0A]"
| "ini_dump_slot (Some k, None) = ''['' @ k @ '']=UNDEF'' @ [CHR 0x0A]"

definition iniparser_dump :: "dictionary option \<Rightarrow> string" where
  "iniparser_dump dict = (case dict of None \<Rightarrow> [] | Some d \<Rightarrow> concat (map ini_dump_slot (slots d)))"

text \<open>The blocks of memory a dictionary consists of.\<close>

datatype dict_block = Key_block nat | Val_block nat | Val_array | Key_array | Hash_array | Dict_block

fun release_slot :: "nat \<times> string option \<times> string option \<Rightarrow> dict_block list" where
  "release_slot (i, k, v) = (if k \<noteq> None then [Key_block i] else []) @ (if v \<noteq> None then [Val_block i] else [])"

definition dictionary_del :: "dictionary option \<Rightarrow> dict_block list" where
  "dictionary_del dict =
     (case dict of
        None \<Rightarrow> []
      | Some d \<Rightarrow> concat (map release_slot (zip [0..<dc_size d] (slots d))) @ [Val_array, Key_array, Hash_array, Dict_block])"

definition iniparser_freedict :: "dictionary option \<Rightarrow> dict_block list" where
  "iniparser_freedict d = dictionary_del d"


section \<open>Properties\<close>

text \<open>The dump has one line for every entry of the dictionary, and nothing else.\<close>

lemma concat_map_filter: "(\<And>x. \<not> p x \<Longrightarrow> f x = []) \<Longrightarrow> concat (map f xs) = concat (map f (filter p xs))"
  by (induction xs) auto

lemma iniparser_dump_entries:
  assumes "dict_inv d"
  shows "\<exists>ks. distinct ks \<and> set ks = dom (dict_map d)
    \<and> iniparser_dump (Some d) = concat (map (\<lambda>k. ini_dump_slot (Some k, the (dict_map d k))) ks)"
proof -
  let ?p = "\<lambda>i. dc_key d ! i \<noteq> None"
  let ?is = "filter ?p [0..<dc_size d]"
  let ?ks = "map (\<lambda>i. the (dc_key d ! i)) ?is"
  have entry: "dict_map d (the (dc_key d ! i)) = Some (dc_val d ! i)" if "i \<in> set ?is" for i
    using that by (auto simp: dict_map_Some_iff [OF assms])
  have "distinct ?ks"
    using dict_inv_keys [OF assms] by (auto simp: distinct_map inj_on_def)
  moreover have "set ?ks = dom (dict_map d)"
    using entry by (force simp: dom_def dict_map_Some_iff [OF assms])
  moreover have "iniparser_dump (Some d) = concat (map (\<lambda>k. ini_dump_slot (Some k, the (dict_map d k))) ?ks)"
  proof -
    have "iniparser_dump (Some d) = concat (map (\<lambda>i. ini_dump_slot (dc_key d ! i, dc_val d ! i)) ?is)"
      unfolding iniparser_dump_def slots_def by (simp add: o_def) (rule concat_map_filter, simp)
    also have "map (\<lambda>i. ini_dump_slot (dc_key d ! i, dc_val d ! i)) ?is
        = map (\<lambda>i. ini_dump_slot (Some (the (dc_key d ! i)), the (dict_map d (the (dc_key d ! i))))) ?is"
      using entry by (auto simp del: ini_dump_slot.simps)
    finally show ?thesis by (simp add: o_def)
  qed
  ultimately show ?thesis by blast
qed

text \<open>Releasing a dictionary frees every string it holds and its four blocks, each once.\<close>

lemma release_slots:
  "concat (map release_slot (zip [0..<dc_size d] (slots d))) = concat (map (\<lambda>i. release_slot (i, dc_key d ! i, dc_val d ! i)) [0..<dc_size d])"
  by (simp add: slots_def zip_map2 zip_same_conv_map o_def)

lemma release_slots_distinct: "distinct (concat (map (\<lambda>i. release_slot (i, f i, g i)) [0..<n]))"
  by (induction n) auto

lemma dictionary_del_frees_all:
  assumes "dict_inv d"
  shows "distinct (dictionary_del (Some d))"
    and "set (dictionary_del (Some d)) = {Key_block i | i. i < dc_size d \<and> dc_key d ! i \<noteq> None}
      \<union> {Val_block i | i. i < dc_size d \<and> dc_val d ! i \<noteq> None} \<union> {Val_array, Key_array, Hash_array, Dict_block}"
    and "length (filter (\<lambda>b. \<exists>i. b = Key_block i) (dictionary_del (Some d))) = dc_n d"
proof -
  show "distinct (dictionary_del (Some d))"
    using release_slots_distinct [of "\<lambda>i. dc_key d ! i" "\<lambda>i. dc_val d ! i" "dc_size d"]
    by (auto simp: dictionary_del_def release_slots split: if_splits)
  show "set (dictionary_del (Some d)) = {Key_block i | i. i < dc_size d \<and> dc_key d ! i \<noteq> None}
      \<union> {Val_block i | i. i < dc_size d \<and> dc_val d ! i \<noteq> None} \<union> {Val_array, Key_array, Hash_array, Dict_block}"
    by (auto simp: dictionary_del_def release_slots split: if_splits)
  have "length (filter (\<lambda>b. \<exists>i. b = Key_block i) (concat (map (\<lambda>i. release_slot (i, f i, g i)) [0..<n])))
      = length (filter (\<lambda>i. f i \<noteq> None) [0..<n])" for f g n
    by (induction n) auto
  moreover have "length (filter (\<lambda>i. dc_key d ! i \<noteq> None) [0..<length (dc_key d)]) = used (dc_key d)"
    unfolding used_def by (subst map_nth [symmetric], subst filter_map) (simp add: o_def)
  ultimately show "length (filter (\<lambda>b. \<exists>i. b = Key_block i) (dictionary_del (Some d))) = dc_n d"
    using assms unfolding dict_inv_def by (simp add: dictionary_del_def release_slots)
qed

end
