(* ===== verification/Xsk_Ring.thy ===== *)
theory Xsk_Ring
  imports Prelude
begin

text \<open>
  The rings between a program and the kernel's AF_XDP socket, as the inline functions of
  \<open>src/lib/libbpfdev-arm64/usr/include/bpf-0.5.0/xsk.h\<close> use them.  A ring has a power of two of slots; producer and consumer are 32-bit
  counters that are never reduced, the slot of a counter is its value under the mask.  Each side
  keeps a private copy of the other side's counter.  The FILL and TX rings are produced by the
  program, the RX and COMPLETION rings by the kernel.
\<close>

section \<open>Rings\<close>

record 'a xsk_ring =
  xr_cached_prod :: u32
  xr_cached_cons :: u32
  xr_mask :: u32
  xr_size :: u32
  xr_producer :: u32
  xr_consumer :: u32
  xr_ring :: "'a list"
  xr_flags :: u32

definition XDP_RING_NEED_WAKEUP :: u32 where "XDP_RING_NEED_WAKEUP = 1"

text \<open>
  \<open>ring[idx & mask]\<close>: \<open>xsk_ring_prod__fill_addr\<close>, \<open>xsk_ring_prod__tx_desc\<close>, \<open>xsk_ring_cons__rx_desc\<close>
  and \<open>xsk_ring_cons__comp_addr\<close> are this expression at their types of entries.
\<close>

definition xsk_slot :: "'a xsk_ring \<Rightarrow> u32 \<Rightarrow> nat" where
  "xsk_slot r idx = unat (idx AND xr_mask r)"

definition xsk_ring_get :: "'a xsk_ring \<Rightarrow> u32 \<Rightarrow> 'a" where
  "xsk_ring_get r idx = xr_ring r ! xsk_slot r idx"

definition xsk_ring_set :: "'a xsk_ring \<Rightarrow> u32 \<Rightarrow> 'a \<Rightarrow> 'a xsk_ring" where
  "xsk_ring_set r idx v = r\<lparr>xr_ring := (xr_ring r)[xsk_slot r idx := v]\<rparr>"

definition xsk_ring_prod__needs_wakeup :: "'a xsk_ring \<Rightarrow> bool" where
  "xsk_ring_prod__needs_wakeup r \<longleftrightarrow> xr_flags r AND XDP_RING_NEED_WAKEUP \<noteq> 0"

definition xsk_prod_nb_free :: "'a xsk_ring \<Rightarrow> u32 \<Rightarrow> u32 \<times> 'a xsk_ring" where
  "xsk_prod_nb_free r nb =
     (let free_entries = xr_cached_cons r - xr_cached_prod r in
      if free_entries \<ge> nb then (free_entries, r)
      else let r' = r\<lparr>xr_cached_cons := xr_consumer r + xr_size r\<rparr>
           in (xr_cached_cons r' - xr_cached_prod r', r'))"

definition xsk_cons_nb_avail :: "'a xsk_ring \<Rightarrow> u32 \<Rightarrow> u32 \<times> 'a xsk_ring" where
  "xsk_cons_nb_avail r nb =
     (let entries = xr_cached_prod r - xr_cached_cons r;
          r' = (if entries = 0 then r\<lparr>xr_cached_prod := xr_producer r\<rparr> else r);
          entries = (if entries = 0 then xr_cached_prod r' - xr_cached_cons r' else entries)
      in (if entries > nb then nb else entries, r'))"

text \<open>The second component is what \<open>*idx\<close> holds afterwards.\<close>

definition xsk_ring_prod__reserve :: "'a xsk_ring \<Rightarrow> u32 \<Rightarrow> u32 \<Rightarrow> u32 \<times> u32 \<times> 'a xsk_ring" where
  "xsk_ring_prod__reserve r nb idx =
     (let (free, r) = xsk_prod_nb_free r nb in
      if free < nb then (0, idx, r)
      else (nb, xr_cached_prod r, r\<lparr>xr_cached_prod := xr_cached_prod r + nb\<rparr>))"

definition xsk_ring_prod__submit :: "'a xsk_ring \<Rightarrow> u32 \<Rightarrow> 'a xsk_ring" where
  "xsk_ring_prod__submit r nb = r\<lparr>xr_producer := xr_producer r + nb\<rparr>"

definition xsk_ring_cons__peek :: "'a xsk_ring \<Rightarrow> u32 \<Rightarrow> u32 \<Rightarrow> u32 \<times> u32 \<times> 'a xsk_ring" where
  "xsk_ring_cons__peek r nb idx =
     (let (entries, r) = xsk_cons_nb_avail r nb in
      if entries > 0 then (entries, xr_cached_cons r, r\<lparr>xr_cached_cons := xr_cached_cons r + entries\<rparr>)
      else (entries, idx, r))"

definition xsk_ring_cons__cancel :: "'a xsk_ring \<Rightarrow> u32 \<Rightarrow> 'a xsk_ring" where
  "xsk_ring_cons__cancel r nb = r\<lparr>xr_cached_cons := xr_cached_cons r - nb\<rparr>"

definition xsk_ring_cons__release :: "'a xsk_ring \<Rightarrow> u32 \<Rightarrow> 'a xsk_ring" where
  "xsk_ring_cons__release r nb = r\<lparr>xr_consumer := xr_consumer r + nb\<rparr>"


section \<open>Addresses in the packet memory\<close>

definition xsk_umem__extract_addr :: "u64 \<Rightarrow> u64" where
  "xsk_umem__extract_addr addr = addr AND (push_bit 48 1 - 1)"

definition xsk_umem__extract_offset :: "u64 \<Rightarrow> u64" where
  "xsk_umem__extract_offset addr = drop_bit 48 addr"

definition xsk_umem__add_offset_to_addr :: "u64 \<Rightarrow> u64" where
  "xsk_umem__add_offset_to_addr addr = xsk_umem__extract_addr addr + xsk_umem__extract_offset addr"


section \<open>The queue a ring represents\<close>

text \<open>Entries that are produced and not yet consumed, oldest first.\<close>

definition xr_len :: "'a xsk_ring \<Rightarrow> nat" where
  "xr_len r = unat (xr_producer r - xr_consumer r)"

definition xr_entries :: "'a xsk_ring \<Rightarrow> 'a list" where
  "xr_entries r = map (\<lambda>i. xsk_ring_get r (xr_consumer r + of_nat i)) [0..<xr_len r]"

definition xr_geometry :: "'a xsk_ring \<Rightarrow> bool" where
  "xr_geometry r \<longleftrightarrow> (\<exists>k<32. xr_size r = 2 ^ k) \<and> xr_mask r = xr_size r - 1
     \<and> length (xr_ring r) = unat (xr_size r) \<and> xr_len r \<le> unat (xr_size r)"

text \<open>
  The private counters of a producer with \<open>n\<close> reserved entries, and of a consumer with \<open>n\<close>
  entries it is working on.
\<close>

definition xr_prod_ok :: "nat \<Rightarrow> 'a xsk_ring \<Rightarrow> bool" where
  "xr_prod_ok n r \<longleftrightarrow> xr_geometry r \<and> xr_len r + n \<le> unat (xr_size r)
     \<and> xr_cached_prod r = xr_producer r + of_nat n
     \<and> unat (xr_cached_cons r - xr_cached_prod r) \<le> unat (xr_size r) - (xr_len r + n)"

definition xr_cons_ok :: "nat \<Rightarrow> 'a xsk_ring \<Rightarrow> bool" where
  "xr_cons_ok n r \<longleftrightarrow> xr_geometry r \<and> n \<le> xr_len r \<and> xr_cached_cons r = xr_consumer r + of_nat n
     \<and> unat (xr_cached_prod r - xr_cached_cons r) \<le> xr_len r - n"

lemma length_xr_entries [simp]: "length (xr_entries r) = xr_len r"
  by (simp add: xr_entries_def)

lemma nth_xr_entries: "i < xr_len r \<Longrightarrow> xr_entries r ! i = xsk_ring_get r (xr_consumer r + of_nat i)"
  by (simp add: xr_entries_def)

lemma unat_u32_less: "unat (w :: u32) < 2 ^ 32"
  using unsigned_less [of w] by simp

lemma unat_of_nat_u32: "n < 2 ^ 32 \<Longrightarrow> unat (of_nat n :: u32) = n"
  by (simp add: unat_of_nat take_bit_nat_eq_self)

lemma unat_size:
  assumes "xr_geometry r"
  obtains k where "k < 32" "xr_size r = 2 ^ k" "unat (xr_size r) = 2 ^ k"
proof -
  obtain k where k: "k < 32" "xr_size r = 2 ^ k" using assms by (auto simp: xr_geometry_def)
  have "(2 ^ k :: nat) < 2 ^ 32" using k(1) by (rule power_strict_increasing) simp
  then have "unat (of_nat (2 ^ k) :: u32) = 2 ^ k" by (rule unat_of_nat_u32)
  then have "unat (xr_size r) = 2 ^ k" using k by simp
  then show thesis using k that by blast
qed

lemma unat_size_le:
  assumes "xr_geometry r"
  shows "unat (xr_size r) \<le> 2 ^ 31"
proof -
  obtain k where k: "k < 32" "unat (xr_size r) = 2 ^ k" using assms by (rule unat_size)
  then have "(2 ^ k :: nat) \<le> 2 ^ 31" by (intro power_increasing) auto
  then show ?thesis using k(2) by simp
qed

lemma unat_size_pos: "xr_geometry r \<Longrightarrow> 0 < unat (xr_size r)"
  by (erule unat_size) simp

lemma xsk_slot_mod:
  assumes "xr_geometry r"
  shows "xsk_slot r (c + of_nat i) = (unat c + i) mod unat (xr_size r)"
proof -
  obtain k where k: "k < 32" "xr_size r = 2 ^ k" "unat (xr_size r) = 2 ^ k" using assms by (rule unat_size)
  have "xr_mask r = (mask k :: u32)"
    using assms k(2) by (simp add: xr_geometry_def mask_eq_exp_minus_1)
  then have "xsk_slot r (c + of_nat i) = take_bit k (unat (c + of_nat i :: u32))"
    by (simp add: xsk_slot_def flip: take_bit_eq_mask) (simp add: unsigned_take_bit_eq)
  also have "unat (c + of_nat i :: u32) = take_bit 32 (unat c + i)"
    by (simp add: unat_word_ariths unat_of_nat take_bit_eq_mod mod_simps)
  also have "take_bit k (take_bit 32 (unat c + i)) = take_bit k (unat c + i)"
    using k(1) by (simp add: take_bit_take_bit min_def)
  finally show ?thesis by (simp add: take_bit_eq_mod k(3))
qed

lemma xsk_slot_less: "xr_geometry r \<Longrightarrow> xsk_slot r c < length (xr_ring r)"
  using xsk_slot_mod [of r c 0] unat_size_pos [of r] by (simp add: xr_geometry_def)

lemma xsk_slot_inj:
  assumes "xr_geometry r" "i < unat (xr_size r)" "j < unat (xr_size r)"
    "xsk_slot r (c + of_nat i) = xsk_slot r (c + of_nat j)"
  shows "i = j"
proof -
  have "\<And>a b. a \<le> b \<Longrightarrow> b < n \<Longrightarrow> (x + a) mod n = (x + b) mod n \<Longrightarrow> a = b" for x n :: nat
  proof -
    fix a b assume "a \<le> b" "b < n" "(x + a) mod n = (x + b) mod n"
    then have "n dvd (x + b) - (x + a)" by (metis mod_eq_dvd_iff_nat add_left_mono)
    then have "n dvd b - a" by simp
    then show "a = b" using \<open>a \<le> b\<close> \<open>b < n\<close> by (auto dest: dvd_imp_le)
  qed
  from this [of i j "unat (xr_size r)" "unat c"] this [of j i "unat (xr_size r)" "unat c"] show ?thesis
    using assms by (simp add: xsk_slot_mod) (metis nat_le_linear)
qed


section \<open>Operations on the queue\<close>

text \<open>Entries written behind the producer counter and not yet submitted.\<close>

definition xr_reserved :: "nat \<Rightarrow> 'a xsk_ring \<Rightarrow> 'a list" where
  "xr_reserved n r = map (\<lambda>i. xsk_ring_get r (xr_producer r + of_nat i)) [0..<n]"

lemma length_xr_reserved [simp]: "length (xr_reserved n r) = n"
  by (simp add: xr_reserved_def)

lemma xr_lenI: "xr_producer r - xr_consumer r = of_nat n \<Longrightarrow> n < 2 ^ 32 \<Longrightarrow> xr_len r = n"
  unfolding xr_len_def by (simp only: unat_of_nat_u32)

lemma xr_producer_eq: "xr_producer r = xr_consumer r + of_nat (xr_len r)"
  by (simp add: xr_len_def)

lemma xsk_ring_get_set:
  assumes g: "xr_geometry r" and "i < unat (xr_size r)" "j < unat (xr_size r)"
  shows "xsk_ring_get (xsk_ring_set r (c + of_nat i) v) (c + of_nat j)
           = (if i = j then v else xsk_ring_get r (c + of_nat j))"
proof -
  have "xsk_slot (xsk_ring_set r x v) = xsk_slot r" for x by (auto simp: xsk_slot_def xsk_ring_set_def)
  moreover have "i \<noteq> j \<Longrightarrow> xsk_slot r (c + of_nat i) \<noteq> xsk_slot r (c + of_nat j)"
    using xsk_slot_inj [OF assms] by blast
  ultimately show ?thesis
    using xsk_slot_less [OF g] by (auto simp: xsk_ring_get_def) (auto simp: xsk_ring_set_def)
qed

lemma xr_set_frame [simp]:
  "xr_len (xsk_ring_set r i v) = xr_len r"
  "xr_producer (xsk_ring_set r i v) = xr_producer r"
  "xr_consumer (xsk_ring_set r i v) = xr_consumer r"
  "xr_size (xsk_ring_set r i v) = xr_size r"
  "xr_geometry (xsk_ring_set r i v) = xr_geometry r"
  "xr_prod_ok n (xsk_ring_set r i v) = xr_prod_ok n r"
  "xr_cons_ok n (xsk_ring_set r i v) = xr_cons_ok n r"
  by (auto simp: xsk_ring_set_def xr_len_def xr_geometry_def xr_prod_ok_def xr_cons_ok_def)

lemma xr_entries_set:
  assumes "xr_geometry r" "xr_len r + n \<le> unat (xr_size r)" "i < n"
  shows "xr_entries (xsk_ring_set r (xr_producer r + of_nat i) v) = xr_entries r"
proof (rule nth_equalityI)
  fix j assume "j < length (xr_entries (xsk_ring_set r (xr_producer r + of_nat i) v))"
  then have "j < xr_len r" by simp
  moreover have "xr_producer r + of_nat i = xr_consumer r + of_nat (xr_len r + i)"
    using xr_producer_eq [of r] by simp
  ultimately show "xr_entries (xsk_ring_set r (xr_producer r + of_nat i) v) ! j = xr_entries r ! j"
    using assms xsk_ring_get_set [OF assms(1), of "xr_len r + i" j "xr_consumer r" v]
    by (simp add: nth_xr_entries add.assoc)
qed simp

lemma xr_reserved_set:
  assumes "xr_geometry r" "n \<le> unat (xr_size r)" "i < n"
  shows "xr_reserved n (xsk_ring_set r (xr_producer r + of_nat i) v) = (xr_reserved n r)[i := v]"
  using assms xsk_ring_get_set [OF assms(1), of i _ "xr_producer r" v]
  by (intro nth_equalityI) (auto simp: xr_reserved_def nth_list_update)

lemma xr_len_submit:
  assumes "xr_geometry r" "xr_len r + n \<le> unat (xr_size r)"
  shows "xr_len (xsk_ring_prod__submit r (of_nat n)) = xr_len r + n"
proof (rule xr_lenI)
  show "xr_producer (xsk_ring_prod__submit r (of_nat n)) - xr_consumer (xsk_ring_prod__submit r (of_nat n))
      = of_nat (xr_len r + n)"
    using xr_producer_eq [of r] by (simp add: xsk_ring_prod__submit_def)
  show "xr_len r + n < 2 ^ 32" using assms(2) unat_u32_less [of "xr_size r"] by simp
qed

lemma xr_entries_submit:
  assumes "xr_geometry r" "xr_len r + n \<le> unat (xr_size r)"
  shows "xr_entries (xsk_ring_prod__submit r (of_nat n)) = xr_entries r @ xr_reserved n r"
proof (rule nth_equalityI)
  fix j assume "j < length (xr_entries (xsk_ring_prod__submit r (of_nat n)))"
  then have j: "j < xr_len r + n" using xr_len_submit [OF assms] by simp
  have get: "xsk_ring_get (xsk_ring_prod__submit r m) c = xsk_ring_get r c" for m c
    by (simp add: xsk_ring_get_def xsk_slot_def xsk_ring_prod__submit_def)
  have behind: "xsk_ring_get r (xr_consumer r + of_nat j) = xr_reserved n r ! (j - xr_len r)" if "\<not> j < xr_len r"
  proof -
    have "xr_consumer r + of_nat j = xr_producer r + of_nat (j - xr_len r)"
      using that xr_producer_eq [of r] by (simp add: of_nat_diff)
    moreover have "j - xr_len r < n" using that j by simp
    then have "xr_reserved n r ! (j - xr_len r) = xsk_ring_get r (xr_producer r + of_nat (j - xr_len r))"
      by (simp add: xr_reserved_def)
    ultimately show ?thesis by (simp only:)
  qed
  have "xr_consumer (xsk_ring_prod__submit r (of_nat n)) = xr_consumer r" by (simp add: xsk_ring_prod__submit_def)
  then show "xr_entries (xsk_ring_prod__submit r (of_nat n)) ! j = (xr_entries r @ xr_reserved n r) ! j"
    using j behind xr_len_submit [OF assms] by (auto simp: nth_append nth_xr_entries get)
qed (simp add: xr_len_submit [OF assms])

lemma xr_len_release:
  assumes "n \<le> xr_len r"
  shows "xr_len (xsk_ring_cons__release r (of_nat n)) = xr_len r - n"
proof (rule xr_lenI)
  show "xr_producer (xsk_ring_cons__release r (of_nat n)) - xr_consumer (xsk_ring_cons__release r (of_nat n))
      = of_nat (xr_len r - n)"
    using xr_producer_eq [of r] assms by (simp add: xsk_ring_cons__release_def of_nat_diff)
  have "xr_len r < 2 ^ 32" unfolding xr_len_def by (rule unat_u32_less)
  then show "xr_len r - n < 2 ^ 32" by simp
qed

lemma xr_entries_release:
  assumes "n \<le> xr_len r"
  shows "xr_entries (xsk_ring_cons__release r (of_nat n)) = drop n (xr_entries r)"
proof (rule nth_equalityI)
  fix j assume "j < length (xr_entries (xsk_ring_cons__release r (of_nat n)))"
  then have "j < xr_len r - n" using xr_len_release [OF assms] by simp
  then show "xr_entries (xsk_ring_cons__release r (of_nat n)) ! j = drop n (xr_entries r) ! j"
    using xr_len_release [OF assms] assms
    by (simp add: nth_xr_entries)
       (simp add: xsk_ring_get_def xsk_slot_def xsk_ring_cons__release_def add.assoc)
qed (simp add: xr_len_release [OF assms])


text \<open>What the program does to its own counters.\<close>

lemma unat_le_of_nat: "unat (a :: u32) \<le> n \<Longrightarrow> a = of_nat m \<Longrightarrow> m < 2 ^ 32 \<Longrightarrow> m \<le> n"
  by (simp add: unat_of_nat_u32)

lemma xr_prod_ok_submit:
  assumes "xr_prod_ok n r"
  shows "xr_prod_ok 0 (xsk_ring_prod__submit r (of_nat n))"
proof -
  have "xr_geometry r" "xr_len r + n \<le> unat (xr_size r)" using assms by (auto simp: xr_prod_ok_def)
  then have "xr_len (xsk_ring_prod__submit r (of_nat n)) = xr_len r + n" by (rule xr_len_submit)
  then show ?thesis
    using assms by (auto simp: xr_prod_ok_def xr_geometry_def) (auto simp: xsk_ring_prod__submit_def)
qed

lemma xr_cons_ok_release:
  assumes "xr_cons_ok n r"
  shows "xr_cons_ok 0 (xsk_ring_cons__release r (of_nat n))"
proof -
  have "n \<le> xr_len r" using assms by (simp add: xr_cons_ok_def)
  then have "xr_len (xsk_ring_cons__release r (of_nat n)) = xr_len r - n" by (rule xr_len_release)
  then show ?thesis
    using assms by (auto simp: xr_cons_ok_def xr_geometry_def) (auto simp: xsk_ring_cons__release_def)
qed

lemma xr_frame_cached [simp]:
  "xr_len (r\<lparr>xr_cached_cons := c\<rparr>) = xr_len r" "xr_len (r\<lparr>xr_cached_prod := c\<rparr>) = xr_len r"
  "xr_entries (r\<lparr>xr_cached_cons := c\<rparr>) = xr_entries r" "xr_entries (r\<lparr>xr_cached_prod := c\<rparr>) = xr_entries r"
  "xr_geometry (r\<lparr>xr_cached_cons := c\<rparr>) = xr_geometry r" "xr_geometry (r\<lparr>xr_cached_prod := c\<rparr>) = xr_geometry r"
  by (auto simp: xr_len_def xr_entries_def xsk_ring_get_def xsk_slot_def xr_geometry_def)

lemma xr_free_room:
  assumes "xr_geometry r" "xr_len r \<le> unat (xr_size r)"
  shows "unat (xr_consumer r + xr_size r - xr_producer r) = unat (xr_size r) - xr_len r"
proof -
  have "xr_consumer r + xr_size r - xr_producer r = of_nat (unat (xr_size r) - xr_len r)"
    using assms(2) xr_producer_eq [of r] by (simp add: of_nat_diff)
  moreover have "unat (xr_size r) - xr_len r < 2 ^ 32" using unat_u32_less [of "xr_size r"] by simp
  ultimately show ?thesis by (simp only: unat_of_nat_u32)
qed

lemma reserve_succeeds:
  assumes ok: "xr_prod_ok 0 r" and room: "xr_len r + unat nb \<le> unat (xr_size r)"
  obtains r' where "xsk_ring_prod__reserve r nb idx = (nb, xr_producer r, r')" "xr_prod_ok (unat nb) r'"
    "xr_entries r' = xr_entries r" "xr_producer r' = xr_producer r" "xr_size r' = xr_size r" "xr_len r' = xr_len r"
proof -
  have g: "xr_geometry r" and p: "xr_cached_prod r = xr_producer r"
    and c: "unat (xr_cached_cons r - xr_producer r) \<le> unat (xr_size r) - xr_len r" and l: "xr_len r \<le> unat (xr_size r)"
    using ok by (auto simp: xr_prod_ok_def)
  define r1 where "r1 = snd (xsk_prod_nb_free r nb)"
  have r1: "r1 = r \<or> r1 = r\<lparr>xr_cached_cons := xr_consumer r + xr_size r\<rparr>"
    by (simp add: r1_def xsk_prod_nb_free_def Let_def)
  have free: "fst (xsk_prod_nb_free r nb) = xr_cached_cons r1 - xr_producer r"
    by (simp add: r1_def xsk_prod_nb_free_def Let_def p)
  have ge: "nb \<le> xr_cached_cons r1 - xr_producer r"
    using room xr_free_room [OF g l] by (auto simp: r1_def xsk_prod_nb_free_def Let_def p word_le_nat_alt)
  have le: "unat (xr_cached_cons r1 - xr_producer r) \<le> unat (xr_size r) - xr_len r"
    using r1 c xr_free_room [OF g l] by auto
  let ?r' = "r1\<lparr>xr_cached_prod := xr_cached_prod r1 + nb\<rparr>"
  have "unat (xr_cached_cons r1 - (xr_producer r + nb)) = unat (xr_cached_cons r1 - xr_producer r) - unat nb"
    using unat_sub [OF ge] by (simp only: diff_diff_eq)
  then have sub: "unat (xr_cached_cons r1 - (xr_producer r + nb)) \<le> unat (xr_size r) - (xr_len r + unat nb)"
    using le by linarith
  have "xsk_ring_prod__reserve r nb idx = (nb, xr_cached_prod r1, ?r')"
    using ge free by (auto simp: xsk_ring_prod__reserve_def r1_def split_beta)
  moreover have "xr_prod_ok (unat nb) ?r'"
    using r1 g p room sub by (auto simp: xr_prod_ok_def)
  ultimately show thesis using r1 p that [of ?r'] by auto
qed

lemma reserve_fails:
  assumes ok: "xr_prod_ok 0 r" and full: "unat (xr_size r) < xr_len r + unat nb"
  obtains r' where "xsk_ring_prod__reserve r nb idx = (0, idx, r')" "xr_prod_ok 0 r'"
    "xr_entries r' = xr_entries r" "xr_producer r' = xr_producer r" "xr_size r' = xr_size r" "xr_len r' = xr_len r"
proof -
  have g: "xr_geometry r" and p: "xr_cached_prod r = xr_producer r"
    and c: "unat (xr_cached_cons r - xr_producer r) \<le> unat (xr_size r) - xr_len r" and l: "xr_len r \<le> unat (xr_size r)"
    using ok by (auto simp: xr_prod_ok_def)
  let ?r' = "r\<lparr>xr_cached_cons := xr_consumer r + xr_size r\<rparr>"
  have lt: "xr_cached_cons r - xr_producer r < nb" "xr_consumer r + xr_size r - xr_producer r < nb"
    unfolding word_less_nat_alt using c full l xr_free_room [OF g l] by linarith+
  then have "xsk_ring_prod__reserve r nb idx = (0, idx, ?r')"
    by (simp add: xsk_ring_prod__reserve_def xsk_prod_nb_free_def Let_def p not_le [symmetric])
  moreover have "xr_prod_ok 0 ?r'" using g p l xr_free_room [OF g l] by (simp add: xr_prod_ok_def)
  ultimately show thesis using that [of ?r'] by simp
qed

lemma xsk_peek_spec:
  assumes ok: "xr_cons_ok 0 r"
  obtains n r' where "xsk_ring_cons__peek r nb idx = (of_nat n, if n = 0 then idx else xr_consumer r, r')"
    "n \<le> unat nb" "n \<le> xr_len r" "n = 0 \<longrightarrow> nb = 0 \<or> xr_len r = 0" "xr_cons_ok n r'" "xr_entries r' = xr_entries r"
    "xr_len r' = xr_len r" "xr_consumer r' = xr_consumer r" "\<And>i. xsk_ring_get r' i = xsk_ring_get r i"
proof -
  define r1 where "r1 = snd (xsk_cons_nb_avail r nb)"
  have g: "xr_geometry r" and c: "xr_cached_cons r = xr_consumer r"
    and le: "unat (xr_cached_prod r - xr_consumer r) \<le> xr_len r" using ok by (auto simp: xr_cons_ok_def)
  have r1: "r1 = r \<and> xr_cached_prod r \<noteq> xr_consumer r \<or> r1 = r\<lparr>xr_cached_prod := xr_producer r\<rparr>"
    by (auto simp: r1_def xsk_cons_nb_avail_def Let_def c)
  define e where "e = xr_cached_prod r1 - xr_consumer r"
  have fst: "fst (xsk_cons_nb_avail r nb) = (if e > nb then nb else e)"
    by (auto simp: e_def r1_def xsk_cons_nb_avail_def Let_def c)
  have e: "unat e \<le> xr_len r" using r1 le by (auto simp: e_def xr_len_def)
  have e0: "e = 0 \<Longrightarrow> xr_len r = 0" using r1 by (auto simp: e_def xr_len_def)
  define n where "n = unat (if e > nb then nb else e)"
  have n: "n \<le> unat nb" "n \<le> unat e" "n = 0 \<longrightarrow> nb = 0 \<or> e = 0"
    by (auto simp: n_def word_less_nat_alt unat_eq_zero)
  let ?r' = "if n = 0 then r1 else r1\<lparr>xr_cached_cons := xr_consumer r + of_nat n\<rparr>"
  have peek: "xsk_ring_cons__peek r nb idx = (of_nat n, if n = 0 then idx else xr_consumer r, ?r')"
    using fst r1 c by (auto simp: xsk_ring_cons__peek_def split_beta n_def r1_def [symmetric] word_gt_0 unat_eq_zero)
  have "unat (e - of_nat n) = unat e - n"
    using n(2) by (simp add: unat_sub word_le_nat_alt unat_of_nat take_bit_nat_eq_self_iff n_def)
  then have left: "unat (xr_cached_prod r1 - (xr_consumer r + of_nat n)) \<le> xr_len r - n"
    using e by (simp only: e_def diff_diff_eq)
  then have "xr_cons_ok n ?r'" using n e r1 g c by (auto simp: xr_cons_ok_def)
  then show thesis
    using that [of n ?r'] peek n e e0 r1 by (auto simp: xsk_ring_get_def xsk_slot_def)
qed

text \<open>What the other side does to a ring the program produces for, or consumes from.\<close>

lemma xr_prod_ok_consumed:
  assumes ok: "xr_prod_ok n r" and "m \<le> xr_len r"
  shows "xr_prod_ok n (xsk_ring_cons__release r (of_nat m))"
    and "xr_reserved n (xsk_ring_cons__release r (of_nat m)) = xr_reserved n r"
proof -
  have "xr_len (xsk_ring_cons__release r (of_nat m)) = xr_len r - m" using assms(2) by (rule xr_len_release)
  then show "xr_prod_ok n (xsk_ring_cons__release r (of_nat m))"
    using ok by (auto simp: xr_prod_ok_def xr_geometry_def) (auto simp: xsk_ring_cons__release_def)
  show "xr_reserved n (xsk_ring_cons__release r (of_nat m)) = xr_reserved n r"
    by (simp add: xr_reserved_def xsk_ring_get_def xsk_slot_def xsk_ring_cons__release_def)
qed

lemma xr_cons_ok_produced:
  assumes ok: "xr_cons_ok n r" and "xr_len r < unat (xr_size r)"
  shows "xr_cons_ok n (xsk_ring_prod__submit (xsk_ring_set r (xr_producer r) v) 1)"
    and "xr_entries (xsk_ring_prod__submit (xsk_ring_set r (xr_producer r) v) 1) = xr_entries r @ [v]"
proof -
  let ?r = "xsk_ring_set r (xr_producer r) v"
  have g: "xr_geometry r" using ok by (simp add: xr_cons_ok_def)
  have room: "xr_len r + 1 \<le> unat (xr_size r)" using assms(2) by simp
  have len: "xr_len (xsk_ring_prod__submit ?r 1) = xr_len r + 1" using xr_len_submit [of ?r 1] g room by simp
  show "xr_cons_ok n (xsk_ring_prod__submit ?r 1)"
    using ok len room by (auto simp: xr_cons_ok_def xr_geometry_def) (auto simp: xsk_ring_prod__submit_def xsk_ring_set_def)
  have "xr_reserved 1 ?r = [v]" using xr_reserved_set [of r 1 0 v] g unat_size_pos [OF g] by (simp add: xr_reserved_def)
  moreover have "xr_entries ?r = xr_entries r" using xr_entries_set [of r 1 0 v] g room by simp
  ultimately show "xr_entries (xsk_ring_prod__submit ?r 1) = xr_entries r @ [v]"
    using xr_entries_submit [of ?r 1] g room by simp
qed

end
