(* ===== verification/Xdp_Sample.thy ===== *)
theory Xdp_Sample
  imports Message_Dump Xsk_Ring "HOL-Library.Multiset"
begin

text \<open>
  The AF_XDP program (\<open>src/xdp/xdp_redirect_sock_user.c\<close>) and its kernel part.  The program shares a
  memory of frames and four rings with the kernel.  The kernel runs beside the program: before every
  access of the program to shared memory it gets a turn, in which it may take frames from the FILL
  ring, write packets into frames it holds, deliver them on the RX ring, take addresses from the TX
  ring and complete them.  What it may do is the relation \<open>kernel_step\<close>; which steps it takes is an
  argument.
\<close>

section \<open>Constants and data\<close>

definition NUM_FRAMES :: nat where "NUM_FRAMES = 4 * 1024"
definition BATCH_SIZE :: u32 where "BATCH_SIZE = 64"
definition XSK_RING_DEFAULT_NUM_DESCS :: nat where "XSK_RING_DEFAULT_NUM_DESCS = 2048"
definition XSK_UMEM__DEFAULT_FRAME_SHIFT :: nat where "XSK_UMEM__DEFAULT_FRAME_SHIFT = 12"
definition opt_xsk_frame_size :: nat where "opt_xsk_frame_size = 2 ^ XSK_UMEM__DEFAULT_FRAME_SHIFT"
definition opt_unaligned_chunks :: int where "opt_unaligned_chunks = 0"
definition opt_need_wakeup :: bool where "opt_need_wakeup = True"

text \<open>\<open>XDP_FLAGS_UPDATE_IF_NOEXIST | XDP_FLAGS_SKB_MODE\<close>\<close>

definition opt_xdp_flags :: u32 where "opt_xdp_flags = 1 OR 2"

lemmas xdp_consts = NUM_FRAMES_def BATCH_SIZE_def XSK_RING_DEFAULT_NUM_DESCS_def
  XSK_UMEM__DEFAULT_FRAME_SHIFT_def opt_xsk_frame_size_def

record xdp_desc =
  xd_addr :: u64
  xd_len :: u32

record xsk_umem_info =
  um_fq :: "u64 xsk_ring"
  um_cq :: "u64 xsk_ring"

record xsk_socket_info =
  xs_rx :: "xdp_desc xsk_ring"
  xs_tx :: "xdp_desc xsk_ring"
  xs_rx_npkts :: u64
  xs_tx_npkts :: u64
  xs_outstanding_tx :: u32

text \<open>Calls of the program that release something outside it.\<close>

datatype xdp_call =
    Bpf_set_link_xdp_fd int int u32
  | Xsk_socket_delete
  | Xsk_umem_delete
  | Munmap nat

text \<open>
  \<open>xw_buffer\<close> is the shared memory of frames.  The last three fields belong to the kernel: the frames
  it has taken from the FILL ring, the addresses it is sending, and the packets it has delivered.
\<close>

record xdp_world =
  xw_umem :: xsk_umem_info
  xw_xsk :: xsk_socket_info
  xw_buffer :: mem
  xw_ifindex :: int
  xw_prog_id :: u32
  xw_out :: string
  xw_calls :: "xdp_call list"
  xw_turn :: nat
  xw_held :: "u64 list"
  xw_sending :: "u64 list"
  xw_delivered :: "bytes list"

text \<open>What the kernel and the libraries answer.\<close>

record xdp_env =
  xe_turn :: "nat \<Rightarrow> xdp_world \<Rightarrow> xdp_world"
  xe_sendto :: "nat \<Rightarrow> int \<times> int"
  xe_link_id :: "nat \<Rightarrow> int \<times> u32"
  xe_ifindex :: int
  xe_mmap :: bool
  xe_calloc_umem :: bool
  xe_calloc_xsk :: bool
  xe_umem_create :: "int \<times> u64 xsk_ring \<times> u64 xsk_ring"
  xe_socket_create :: "int \<times> xdp_desc xsk_ring \<times> xdp_desc xsk_ring"

abbreviation fq :: "xdp_world \<Rightarrow> u64 xsk_ring" where "fq w \<equiv> um_fq (xw_umem w)"
abbreviation cq :: "xdp_world \<Rightarrow> u64 xsk_ring" where "cq w \<equiv> um_cq (xw_umem w)"
abbreviation rx :: "xdp_world \<Rightarrow> xdp_desc xsk_ring" where "rx w \<equiv> xs_rx (xw_xsk w)"
abbreviation tx :: "xdp_world \<Rightarrow> xdp_desc xsk_ring" where "tx w \<equiv> xs_tx (xw_xsk w)"

definition set_fq :: "u64 xsk_ring \<Rightarrow> xdp_world \<Rightarrow> xdp_world" where
  "set_fq r w = w\<lparr>xw_umem := (xw_umem w)\<lparr>um_fq := r\<rparr>\<rparr>"

definition set_cq :: "u64 xsk_ring \<Rightarrow> xdp_world \<Rightarrow> xdp_world" where
  "set_cq r w = w\<lparr>xw_umem := (xw_umem w)\<lparr>um_cq := r\<rparr>\<rparr>"

definition set_rx :: "xdp_desc xsk_ring \<Rightarrow> xdp_world \<Rightarrow> xdp_world" where
  "set_rx r w = w\<lparr>xw_xsk := (xw_xsk w)\<lparr>xs_rx := r\<rparr>\<rparr>"

definition set_tx :: "xdp_desc xsk_ring \<Rightarrow> xdp_world \<Rightarrow> xdp_world" where
  "set_tx r w = w\<lparr>xw_xsk := (xw_xsk w)\<lparr>xs_tx := r\<rparr>\<rparr>"

lemmas set_rings = set_fq_def set_cq_def set_rx_def set_tx_def

datatype 'a xdp_result =
    Exited int xdp_world
  | Returns 'a
  | Stuck


section \<open>The kernel\<close>

text \<open>
  Aligned mode: an address on the FILL ring stands for the frame it lies in.  The kernel delivers
  Ethernet frames, which have at least 14 bytes, inside one frame of the memory.
\<close>

definition frame_of :: "u64 \<Rightarrow> u64" where
  "frame_of a = a AND NOT (mask 12)"

definition frame_offset :: "u64 \<Rightarrow> nat" where
  "frame_offset a = unat a mod opt_xsk_frame_size"

definition umem_size :: nat where
  "umem_size = NUM_FRAMES * opt_xsk_frame_size"

definition packet_at :: "mem \<Rightarrow> xdp_desc \<Rightarrow> bytes" where
  "packet_at b d = read_bytes b (xd_addr d) (unat (xd_len d))"

definition desc_inside :: "xdp_desc \<Rightarrow> bool" where
  "desc_inside d \<longleftrightarrow> 14 \<le> unat (xd_len d) \<and> frame_offset (xd_addr d) + unat (xd_len d) \<le> opt_xsk_frame_size"

inductive kernel_step :: "xdp_world \<Rightarrow> xdp_world \<Rightarrow> bool" where
  take_frame: "0 < xr_len (fq w) \<Longrightarrow>
    kernel_step w ((set_fq (xsk_ring_cons__release (fq w) 1) w)\<lparr>xw_held :=
      (if unat (hd (xr_entries (fq w))) < umem_size then xw_held w @ [frame_of (hd (xr_entries (fq w)))]
       else xw_held w)\<rparr>)"
| write_frame: "f \<in> set (xw_held w) \<Longrightarrow> \<forall>x. frame_of x \<noteq> f \<longrightarrow> b x = xw_buffer w x \<Longrightarrow>
    kernel_step w (w\<lparr>xw_buffer := b\<rparr>)"
| deliver: "frame_of (xd_addr d) \<in> set (xw_held w) \<Longrightarrow> desc_inside d \<Longrightarrow> xr_len (rx w) < unat (xr_size (rx w)) \<Longrightarrow>
    kernel_step w ((set_rx (xsk_ring_prod__submit (xsk_ring_set (rx w) (xr_producer (rx w)) d) 1) w)
      \<lparr>xw_held := remove1 (frame_of (xd_addr d)) (xw_held w),
       xw_delivered := xw_delivered w @ [packet_at (xw_buffer w) d]\<rparr>)"
| fill_flags: "kernel_step w (set_fq ((fq w)\<lparr>xr_flags := x\<rparr>) w)"
| tx_flags: "kernel_step w (set_tx ((tx w)\<lparr>xr_flags := x\<rparr>) w)"
| send_frame: "0 < xr_len (tx w) \<Longrightarrow> length (xw_sending w) + xr_len (cq w) < unat (xr_size (cq w)) \<Longrightarrow>
    kernel_step w ((set_tx (xsk_ring_cons__release (tx w) 1) w)
      \<lparr>xw_sending := xw_sending w @ [xd_addr (hd (xr_entries (tx w)))]\<rparr>)"
| complete: "a \<in> set (xw_sending w) \<Longrightarrow> xr_len (cq w) < unat (xr_size (cq w)) \<Longrightarrow>
    kernel_step w ((set_cq (xsk_ring_prod__submit (xsk_ring_set (cq w) (xr_producer (cq w)) a) 1) w)
      \<lparr>xw_sending := remove1 a (xw_sending w)\<rparr>)"

definition kernel_ok :: "xdp_env \<Rightarrow> bool" where
  "kernel_ok E \<longleftrightarrow> (\<forall>n w. kernel_step\<^sup>*\<^sup>* w (xe_turn E n w))"

definition kernel_turn :: "xdp_env \<Rightarrow> xdp_world \<Rightarrow> xdp_world" where
  "kernel_turn E w = (let w' = w\<lparr>xw_turn := Suc (xw_turn w)\<rparr> in xe_turn E (xw_turn w) w')"


section \<open>Leaving the program\<close>

definition remove_xdp_program :: "xdp_env \<Rightarrow> xdp_world \<Rightarrow> xdp_world xdp_result" where
  "remove_xdp_program E w =
     (let (ret, curr_prog_id) = xe_link_id E (xw_turn w) in
      if ret \<noteq> 0 then Exited 1 (w\<lparr>xw_out := xw_out w @ line [''bpf_get_link_xdp_id failed'']\<rparr>)
      else if xw_prog_id w = curr_prog_id
      then Returns (w\<lparr>xw_calls := xw_calls w @ [Bpf_set_link_xdp_fd (xw_ifindex w) (- 1) opt_xdp_flags]\<rparr>)
      else if curr_prog_id = 0
      then Returns (w\<lparr>xw_out := xw_out w @ line [''couldn't find a prog id on a given interface'']\<rparr>)
      else Returns (w\<lparr>xw_out := xw_out w @ line [''program on interface changed, not removing'']\<rparr>))"

definition int_exit :: "xdp_env \<Rightarrow> xdp_world \<Rightarrow> xdp_world xdp_result" where
  "int_exit E w =
     (case remove_xdp_program E (w\<lparr>xw_calls := xw_calls w @ [Xsk_socket_delete, Xsk_umem_delete]\<rparr>) of
        Returns w \<Rightarrow> Exited 0 (w\<lparr>xw_calls := xw_calls w @ [Munmap umem_size]\<rparr>)
      | r \<Rightarrow> r)"

definition exit_with_error :: "xdp_env \<Rightarrow> xdp_world \<Rightarrow> 'a xdp_result" where
  "exit_with_error E w =
     (case remove_xdp_program E w of Returns w \<Rightarrow> Exited 1 w | Exited c w \<Rightarrow> Exited c w | Stuck \<Rightarrow> Stuck)"


section \<open>Receiving\<close>

definition lower_hex :: "nat \<Rightarrow> char" where
  "lower_hex d = (char_of (if d < 10 then 48 + d else 87 + d) :: char)"

text \<open>\<open>%02x\<close> of a byte, \<open>%04x\<close> of the two bytes of \<open>h_proto\<close> in network order.\<close>

definition hex02 :: "u8 \<Rightarrow> string" where
  "hex02 b = [lower_hex (unat b div 16), lower_hex (unat b mod 16)]"

definition mac_str :: "bytes \<Rightarrow> string" where
  "mac_str b = hex02 (b ! 0) @ '':'' @ hex02 (b ! 1) @ '':'' @ hex02 (b ! 2) @ '':'' @ hex02 (b ! 3)
     @ '':'' @ hex02 (b ! 4) @ '':'' @ hex02 (b ! 5)"

definition process_packet :: "bytes \<Rightarrow> u32 \<Rightarrow> string" where
  "process_packet eth len =
     line [''Packet received ('', dec len, '' bytes):'']
     @ line [''  Destination MAC: '', mac_str (take 6 eth)]
     @ line [''  Source MAC: '', mac_str (take 6 (drop 6 eth))]
     @ line [''  Ethertype: 0x'', hex02 (eth ! 12), hex02 (eth ! 13)]
     @ line []"

text \<open>A read of the shared memory, which ends with it.\<close>

definition umem_read :: "xdp_world \<Rightarrow> u64 \<Rightarrow> nat \<Rightarrow> bytes option" where
  "umem_read w addr n = (if unat addr + n \<le> umem_size then Some (read_bytes (xw_buffer w) addr n) else None)"

text \<open>
  The loop that waits for room in the FILL ring: \<open>n\<close> bounds the rounds, \<open>ret\<close> is what the last
  reservation returned.
\<close>

fun reserve_wait :: "xdp_env \<Rightarrow> nat \<Rightarrow> u32 \<Rightarrow> u32 \<Rightarrow> u32 \<Rightarrow> xdp_world \<Rightarrow> (u32 \<times> xdp_world) xdp_result" where
  "reserve_wait E n rcvd ret idx w =
     (if ret = rcvd then Returns (idx, w)
      else if sint ret < 0 then exit_with_error E w
      else case n of
        0 \<Rightarrow> Stuck
      | Suc n \<Rightarrow>
          let w = kernel_turn E w;
              w = (if xsk_ring_prod__needs_wakeup (fq w) then kernel_turn E w else w);
              w = kernel_turn E w;
              (ret, idx, r) = xsk_ring_prod__reserve (fq w) rcvd idx
          in reserve_wait E n rcvd ret idx (set_fq r w))"

declare reserve_wait.simps [simp del]

primrec rx_packets :: "xdp_env \<Rightarrow> nat \<Rightarrow> u32 \<Rightarrow> u32 \<Rightarrow> xdp_world \<Rightarrow> xdp_world option" where
  "rx_packets E 0 idx_rx idx_fq w = Some w"
| "rx_packets E (Suc n) idx_rx idx_fq w =
     (let w = kernel_turn E w;
          d = xsk_ring_get (rx w) idx_rx;
          orig = xsk_umem__extract_addr (xd_addr d);
          addr = xsk_umem__add_offset_to_addr (xd_addr d)
      in case umem_read w addr 14 of
           None \<Rightarrow> None
         | Some eth \<Rightarrow>
             rx_packets E n (idx_rx + 1) (idx_fq + 1)
               (set_fq (xsk_ring_set (fq w) idx_fq orig)
                  (w\<lparr>xw_out := xw_out w @ process_packet eth (xd_len d)\<rparr>)))"

definition rx_finish :: "xdp_env \<Rightarrow> u32 \<Rightarrow> xdp_world \<Rightarrow> xdp_world" where
  "rx_finish E rcvd w =
     (let w = kernel_turn E w;
          w = set_fq (xsk_ring_prod__submit (fq w) rcvd) w;
          w = kernel_turn E w;
          w = set_rx (xsk_ring_cons__release (rx w) rcvd) w
      in w\<lparr>xw_xsk := (xw_xsk w)\<lparr>xs_rx_npkts := xs_rx_npkts (xw_xsk w) + ucast rcvd\<rparr>\<rparr>)"

definition rx_drop :: "xdp_env \<Rightarrow> nat \<Rightarrow> xdp_world \<Rightarrow> xdp_world xdp_result" where
  "rx_drop E fuel w =
     (let w = kernel_turn E w;
          (rcvd, idx_rx, r) = xsk_ring_cons__peek (rx w) BATCH_SIZE 0;
          w = set_rx r w
      in if rcvd = 0 then
           (let w = kernel_turn E w
            in Returns (if xsk_ring_prod__needs_wakeup (fq w) then kernel_turn E w else w))
         else
           (let w = kernel_turn E w;
                (ret, idx_fq, r) = xsk_ring_prod__reserve (fq w) rcvd 0
            in case reserve_wait E fuel rcvd ret idx_fq (set_fq r w) of
                 Returns (idx_fq, w) \<Rightarrow>
                   (case rx_packets E (unat rcvd) idx_rx idx_fq w of
                      None \<Rightarrow> Stuck
                    | Some w \<Rightarrow> Returns (rx_finish E rcvd w))
               | Exited c w \<Rightarrow> Exited c w
               | Stuck \<Rightarrow> Stuck))"

text \<open>The first \<open>n\<close> rounds of the endless loop of \<open>rx\<close>.\<close>

primrec rx_rounds :: "xdp_env \<Rightarrow> nat \<Rightarrow> nat \<Rightarrow> xdp_world \<Rightarrow> xdp_world xdp_result" where
  "rx_rounds E fuel 0 w = Returns w"
| "rx_rounds E fuel (Suc n) w =
     (case rx_drop E fuel w of Returns w \<Rightarrow> rx_rounds E fuel n w | r \<Rightarrow> r)"


section \<open>Sending\<close>

definition pkt_data :: bytes where
  "pkt_data = [0x00, 0x50, 0x56, 0xC0, 0x00, 0x08, 0x00, 0x0C, 0x29, 0xF1, 0x8A, 0x0F, 0x08, 0x00,
     0x45, 0x00, 0x00, 0x2E, 0x00, 0x00, 0x00, 0x00, 0x40, 0x11, 0x7A, 0x8D, 0xC0, 0xA8, 0xB3, 0x89,
     0xC0, 0xA8, 0xB3, 0x01, 0x22, 0xB8, 0x22, 0xB8, 0x00, 0x1A, 0x1E, 0xA5, 0x34, 0x33, 0x1F, 0x69,
     0x40, 0x6B, 0x54, 0x59, 0xB6, 0x14, 0x2D, 0x11, 0x44, 0xBF, 0xAF, 0xD9, 0xBE, 0xAA]"

definition gen_eth_frame :: "u64 \<Rightarrow> xdp_world \<Rightarrow> xdp_world" where
  "gen_eth_frame addr w = w\<lparr>xw_buffer := write_loop (xw_buffer w) addr ((!) pkt_data) (length pkt_data)\<rparr>"

text \<open>\<open>ENOBUFS\<close>, \<open>EAGAIN\<close> and \<open>EBUSY\<close> are 105, 11 and 16.\<close>

definition kick_tx :: "xdp_env \<Rightarrow> xdp_world \<Rightarrow> xdp_world xdp_result" where
  "kick_tx E w =
     (let (ret, errno) = xe_sendto E (xw_turn w); w = kernel_turn E w in
      if ret \<ge> 0 \<or> errno = 105 \<or> errno = 11 \<or> errno = 16 then Returns w
      else exit_with_error E w)"

definition complete_tx_only :: "xdp_env \<Rightarrow> xdp_world \<Rightarrow> xdp_world xdp_result" where
  "complete_tx_only E w =
     (if xs_outstanding_tx (xw_xsk w) = 0 then Returns w
      else let w = kernel_turn E w in
        case (if \<not> opt_need_wakeup \<or> xsk_ring_prod__needs_wakeup (tx w) then kick_tx E w else Returns w) of
          Returns w \<Rightarrow>
            (let w = kernel_turn E w;
                 (rcvd, idx, r) = xsk_ring_cons__peek (cq w) BATCH_SIZE 0;
                 w = set_cq r w
             in if rcvd > 0 then
                  (let w = kernel_turn E w;
                       w = set_cq (xsk_ring_cons__release (cq w) rcvd) w
                   in Returns (w\<lparr>xw_xsk := (xw_xsk w)\<lparr>
                        xs_outstanding_tx := xs_outstanding_tx (xw_xsk w) - rcvd,
                        xs_tx_npkts := xs_tx_npkts (xw_xsk w) + ucast rcvd\<rparr>\<rparr>))
                else Returns w)
        | r \<Rightarrow> r)"

text \<open>The descriptors of a batch: frames \<open>frame_nb + i\<close>, each with the packet.\<close>

primrec tx_batch :: "xdp_env \<Rightarrow> nat \<Rightarrow> u32 \<Rightarrow> u32 \<Rightarrow> xdp_world \<Rightarrow> xdp_world" where
  "tx_batch E 0 idx frame_nb w = w"
| "tx_batch E (Suc n) idx frame_nb w =
     (let w = kernel_turn E w in
      tx_batch E n (idx + 1) (frame_nb + 1)
        (set_tx (xsk_ring_set (tx w) idx
           \<lparr>xd_addr = ucast (push_bit XSK_UMEM__DEFAULT_FRAME_SHIFT frame_nb),
            xd_len = of_nat (length pkt_data)\<rparr>) w))"

text \<open>\<open>frame_nb\<close> is passed by value: what \<open>tx_only\<close> adds to it is lost.\<close>

definition tx_only :: "xdp_env \<Rightarrow> u32 \<Rightarrow> xdp_world \<Rightarrow> xdp_world xdp_result" where
  "tx_only E frame_nb w =
     (let w = kernel_turn E w;
          (n, idx, r) = xsk_ring_prod__reserve (tx w) BATCH_SIZE 0;
          w = set_tx r w
      in complete_tx_only E
           (if n = BATCH_SIZE then
              (let w = tx_batch E (unat BATCH_SIZE) idx frame_nb w;
                   w = kernel_turn E w;
                   w = set_tx (xsk_ring_prod__submit (tx w) BATCH_SIZE) w
               in w\<lparr>xw_xsk := (xw_xsk w)\<lparr>xs_outstanding_tx := xs_outstanding_tx (xw_xsk w) + BATCH_SIZE\<rparr>\<rparr>)
            else w))"

primrec tx_rounds :: "xdp_env \<Rightarrow> nat \<Rightarrow> u32 \<Rightarrow> xdp_world \<Rightarrow> xdp_world xdp_result" where
  "tx_rounds E 0 frame_nb w = Returns w"
| "tx_rounds E (Suc n) frame_nb w =
     (case tx_only E frame_nb w of Returns w \<Rightarrow> tx_rounds E n frame_nb w | r \<Rightarrow> r)"

text \<open>\<open>tx\<close>: every frame gets the packet, then \<open>n\<close> rounds of the endless loop.\<close>

primrec gen_frames :: "nat \<Rightarrow> xdp_world \<Rightarrow> xdp_world" where
  "gen_frames 0 w = w"
| "gen_frames (Suc n) w = gen_eth_frame (of_nat (n * opt_xsk_frame_size)) (gen_frames n w)"

definition xdp_tx :: "xdp_env \<Rightarrow> nat \<Rightarrow> xdp_world \<Rightarrow> xdp_world xdp_result" where
  "xdp_tx E n w = tx_rounds E n 0 (gen_frames NUM_FRAMES w)"


section \<open>Start\<close>

definition xsk_configure_umem :: "xdp_env \<Rightarrow> xdp_world \<Rightarrow> xdp_world xdp_result" where
  "xsk_configure_umem E w =
     (if \<not> xe_calloc_umem E then exit_with_error E w
      else case xe_umem_create E of (ret, f, c) \<Rightarrow>
        if ret \<noteq> 0 then exit_with_error E w
        else Returns (set_fq f (set_cq c w)))"

text \<open>The loop \<open>*xsk_ring_prod__fill_addr(fq, idx++) = i * opt_xsk_frame_size\<close>.\<close>

primrec fill_frames :: "nat \<Rightarrow> u32 \<Rightarrow> u64 xsk_ring \<Rightarrow> u64 xsk_ring" where
  "fill_frames 0 idx r = r"
| "fill_frames (Suc n) idx r =
     xsk_ring_set (fill_frames n idx r) (idx + of_nat n) (of_nat (n * opt_xsk_frame_size))"

definition xsk_configure_socket :: "xdp_env \<Rightarrow> xdp_world \<Rightarrow> xdp_world xdp_result" where
  "xsk_configure_socket E w =
     (if \<not> xe_calloc_xsk E then exit_with_error E w
      else case xe_socket_create E of (ret, r, t) \<Rightarrow>
        if ret \<noteq> 0 then exit_with_error E w
        else let w = w\<lparr>xw_xsk := \<lparr>xs_rx = r, xs_tx = t, xs_rx_npkts = 0, xs_tx_npkts = 0, xs_outstanding_tx = 0\<rparr>\<rparr>;
                 (ret, id) = xe_link_id E (xw_turn w)
             in if ret \<noteq> 0 then exit_with_error E w
                else let w = w\<lparr>xw_prog_id := id\<rparr>;
                         (n, idx, f) = xsk_ring_prod__reserve (fq w) (of_nat XSK_RING_DEFAULT_NUM_DESCS) 0
                     in if n \<noteq> of_nat XSK_RING_DEFAULT_NUM_DESCS then exit_with_error E (set_fq f w)
                        else Returns (set_fq (xsk_ring_prod__submit
                               (fill_frames XSK_RING_DEFAULT_NUM_DESCS idx f) (of_nat XSK_RING_DEFAULT_NUM_DESCS)) w))"

text \<open>\<open>parse_params\<close> reports a missing interface and continues.\<close>

definition parse_params :: "xdp_env \<Rightarrow> xdp_world \<Rightarrow> xdp_world" where
  "parse_params E w = w\<lparr>xw_ifindex := xe_ifindex E\<rparr>"

text \<open>\<open>main\<close>, up to round \<open>n\<close> of its receiving loop.\<close>

definition xdp_main :: "xdp_env \<Rightarrow> nat \<Rightarrow> nat \<Rightarrow> xdp_world \<Rightarrow> xdp_world xdp_result" where
  "xdp_main E fuel n w =
     (let w = parse_params E w in
      if \<not> xe_mmap E then Exited 1 (w\<lparr>xw_out := xw_out w @ line [''ERROR: mmap failed'']\<rparr>)
      else case xsk_configure_umem E w of
        Returns w \<Rightarrow> (case xsk_configure_socket E w of Returns w \<Rightarrow> rx_rounds E fuel n w | r \<Rightarrow> r)
      | r \<Rightarrow> r)"

text \<open>The kernel's part: a packet goes to the socket bound to its queue, if there is one.\<close>

definition xdp_sock_prog :: "(u32 \<rightharpoonup> 'sock) \<Rightarrow> ((u32 \<rightharpoonup> 'sock) \<Rightarrow> u32 \<Rightarrow> int \<Rightarrow> int) \<Rightarrow> u32 \<Rightarrow> int" where
  "xdp_sock_prog xsks_map bpf_redirect_map rx_queue_index =
     (if xsks_map rx_queue_index \<noteq> None then bpf_redirect_map xsks_map rx_queue_index 0 else 2)"

end
