(* ===== verification/Xdp_Lemmas.thy ===== *)
theory Xdp_Lemmas
  imports Xdp_Sample
begin

text \<open>
  The frames of the shared memory are never lost and never owned twice: while the program receives,
  every frame is in exactly one of the FILL ring, the kernel and the RX ring, whatever the kernel
  does between the accesses of the program.  From this follows that the program never waits for
  room in the FILL ring, that it reads inside the memory, and that it shows the packets as delivered.
\<close>

section \<open>Frames\<close>

definition all_frames :: "u64 multiset" where
  "all_frames = mset (map (\<lambda>i. of_nat (i * opt_xsk_frame_size)) [0..<XSK_RING_DEFAULT_NUM_DESCS])"

lemma bit_frame_of: "bit (frame_of a) i \<longleftrightarrow> bit a i \<and> 12 \<le> i"
  by (auto simp: frame_of_def bit_and_iff bit_not_iff bit_mask_iff dest: bit_imp_le_length)

lemma frame_of_eq_drop: "frame_of a = push_bit 12 (drop_bit 12 a)"
  by (rule bit_word_eqI) (auto simp: bit_frame_of bit_push_bit_iff bit_drop_bit_eq)

lemma unat_u64_less: "unat (w :: u64) < 2 ^ 64"
  using unsigned_less [of w] by simp

lemma unat_drop_bit: "unat (drop_bit n (a :: u64)) = unat a div 2 ^ n"
  by (subst unat_drop_bit_eq) (simp only: drop_bit_eq_div)

lemma frame_of_cong: "unat a div 4096 = unat b div 4096 \<Longrightarrow> frame_of a = frame_of b"
proof -
  assume "unat a div 4096 = unat b div 4096"
  then have "unat (drop_bit 12 a) = unat (drop_bit 12 b)" by (simp add: unat_drop_bit)
  then have "drop_bit 12 a = drop_bit 12 b" by (simp only: word_unat_eq_iff)
  then show ?thesis by (simp add: frame_of_eq_drop)
qed

lemma unat_frame_of: "unat (frame_of a) = unat a div 4096 * 4096"
proof -
  have "unat (drop_bit 12 a) = unat a div 4096" by (simp add: unat_drop_bit)
  moreover have "unat a div 4096 * 4096 < 2 ^ 64" using unat_u64_less [of a] div_times_less_eq_dividend [of "unat a" 4096] by simp
  ultimately show ?thesis
    by (simp add: frame_of_eq_drop push_bit_eq_mult unat_word_ariths)
qed

lemma frame_of_frame: "i < 2048 \<Longrightarrow> frame_of (of_nat (i * 4096)) = of_nat (i * 4096)"
proof -
  assume "i < 2048"
  then have "i * 4096 < 2 ^ 64" by simp
  then have "unat (of_nat (i * 4096) :: u64) = i * 4096" by (rule unat_of_nat_u64)
  then have "unat (frame_of (of_nat (i * 4096))) = unat (of_nat (i * 4096) :: u64)" by (simp only: unat_frame_of) simp
  then show ?thesis by (simp only: word_unat_eq_iff)
qed

lemma all_frames_less: "f \<in># all_frames \<Longrightarrow> unat f < 2 ^ 23"
proof -
  assume "f \<in># all_frames"
  then obtain i where i: "i < 2048" "f = of_nat (i * 4096)" by (auto simp: all_frames_def xdp_consts)
  have "i * 4096 < 2 ^ 64" using i(1) by simp
  then have "unat f = i * 4096" unfolding i(2) by (rule unat_of_nat_u64)
  then show ?thesis using i(1) by simp
qed

lemma distinct_frames: "distinct (map (\<lambda>i. of_nat (i * opt_xsk_frame_size) :: u64) [0..<XSK_RING_DEFAULT_NUM_DESCS])"
proof -
  have "inj_on (\<lambda>i. of_nat (i * opt_xsk_frame_size) :: u64) {0..<XSK_RING_DEFAULT_NUM_DESCS}"
  proof (rule inj_onI)
    fix i j assume ij: "i \<in> {0..<XSK_RING_DEFAULT_NUM_DESCS}" "j \<in> {0..<XSK_RING_DEFAULT_NUM_DESCS}"
      and eq: "(of_nat (i * opt_xsk_frame_size) :: u64) = of_nat (j * opt_xsk_frame_size)"
    from ij have "i * opt_xsk_frame_size < 2 ^ 64" "j * opt_xsk_frame_size < 2 ^ 64" by (auto simp: xdp_consts)
    then have "i * opt_xsk_frame_size = j * opt_xsk_frame_size" using eq by (metis unat_of_nat_u64)
    then show "i = j" by (simp add: xdp_consts)
  qed
  then show ?thesis by (simp add: distinct_map)
qed

lemma all_frames_once: "count all_frames f \<le> 1"
  using distinct_frames unfolding all_frames_def by (simp add: distinct_count_atmost_1)

lemma all_frames_disjoint: "A + B + C = all_frames \<Longrightarrow> f \<in># B \<Longrightarrow> g \<in># C \<Longrightarrow> f \<noteq> g"
proof
  assume "A + B + C = all_frames" "f \<in># B" "g \<in># C" "f = g"
  then have "count all_frames f = count A f + count B f + count C f" "0 < count B f" "0 < count C f"
    by (auto simp flip: count_union)
  then show False using all_frames_once [of f] by linarith
qed

lemma size_all_frames: "size all_frames = 2048"
  by (simp add: all_frames_def xdp_consts)

text \<open>A descriptor the kernel delivers stays inside its frame.\<close>

lemma desc_frame:
  assumes "desc_inside d" "i < unat (xd_len d)" "unat (frame_of (xd_addr d)) < 2 ^ 23"
  shows "unat (xd_addr d + of_nat i) = unat (xd_addr d) + i" "frame_of (xd_addr d + of_nat i) = frame_of (xd_addr d)"
proof -
  let ?a = "unat (xd_addr d)"
  have off: "?a mod 4096 + i < 4096" using assms(1,2) by (auto simp: desc_inside_def frame_offset_def xdp_consts)
  have "?a div 4096 * 4096 < 8388608" using assms(3) by (simp only: unat_frame_of) simp
  then have "?a + i < 8388608 + 4096" using off div_mult_mod_eq [of ?a 4096] by linarith
  then have "?a + i < 2 ^ 64" by simp
  then show u: "unat (xd_addr d + of_nat i) = ?a + i" by (rule unat_add_of_nat)
  have "(?a + i) div 4096 = ?a div 4096" using off by (subst div_add1_eq) simp
  then show "frame_of (xd_addr d + of_nat i) = frame_of (xd_addr d)" by (intro frame_of_cong) (simp only: u)
qed

lemma packet_at_kept:
  assumes "desc_inside d" "unat (frame_of (xd_addr d)) < 2 ^ 23" "\<forall>x. frame_of x = frame_of (xd_addr d) \<longrightarrow> b x = c x"
  shows "packet_at b d = packet_at c d"
  unfolding packet_at_def using assms desc_frame [OF assms(1) _ assms(2)] by (intro read_bytes_cong) (simp add: byte_at_def)

lemma desc_addr:
  assumes "desc_inside d" "unat (frame_of (xd_addr d)) < 2 ^ 23"
  shows "xsk_umem__extract_addr (xd_addr d) = xd_addr d" "xsk_umem__add_offset_to_addr (xd_addr d) = xd_addr d"
    "unat (xd_addr d) + 14 \<le> umem_size"
proof -
  let ?a = "unat (xd_addr d)"
  have "?a div 4096 * 4096 < 2 ^ 23" using assms(2) by (simp add: unat_frame_of)
  then have a: "?a < 2 ^ 23 + 4096" using div_mult_mod_eq [of ?a 4096] mod_less_divisor [of 4096 ?a] by linarith
  then show "?a + 14 \<le> umem_size" by (simp add: umem_size_def xdp_consts)
  have "take_bit 48 ?a = ?a" using a by (intro take_bit_nat_eq_self) simp
  then have "unat (take_bit 48 (xd_addr d)) = ?a" by (simp add: unsigned_take_bit_eq)
  then have "take_bit 48 (xd_addr d) = xd_addr d" by (simp only: word_unat_eq_iff)
  moreover have "push_bit 48 1 - 1 = (mask 48 :: u64)" by (simp add: mask_eq_exp_minus_1)
  ultimately show e: "xsk_umem__extract_addr (xd_addr d) = xd_addr d"
    unfolding xsk_umem__extract_addr_def by (simp only: take_bit_eq_mask)
  have "unat (drop_bit 48 (xd_addr d)) = 0" using a by (simp only: unat_drop_bit) simp
  then have "drop_bit 48 (xd_addr d) = 0" by (simp only: unat_eq_zero)
  then show "xsk_umem__add_offset_to_addr (xd_addr d) = xd_addr d"
    by (simp only: xsk_umem__add_offset_to_addr_def xsk_umem__extract_offset_def e add_0_right)
qed


section \<open>An environment that runs beside the program\<close>

text \<open>
  Whatever every step of the environment keeps, a turn of any number of steps keeps.  \<open>inv\<close> is what holds
  of the state and \<open>keeps\<close> what stays the same, both with the position of the program as parameter.
\<close>

locale environment_contract =
  fixes step :: "'w \<Rightarrow> 'w \<Rightarrow> bool" and inv :: "'p \<Rightarrow> 'w \<Rightarrow> bool" and keeps :: "'p \<Rightarrow> 'w \<Rightarrow> 'w \<Rightarrow> bool"
  assumes step_keeps: "step w w' \<Longrightarrow> inv p w \<Longrightarrow> inv p w' \<and> keeps p w w'"
    and keeps_refl: "keeps p w w"
    and keeps_trans: "keeps p w w' \<Longrightarrow> keeps p w' w'' \<Longrightarrow> keeps p w w''"
begin

lemma steps_keep: "step\<^sup>*\<^sup>* w w' \<Longrightarrow> inv p w \<Longrightarrow> inv p w' \<and> keeps p w w'"
proof (induction rule: rtranclp_induct)
  case base
  then show ?case using keeps_refl by blast
next
  case (step y z)
  then show ?case using step_keeps keeps_trans by blast
qed

end

lemma kernel_turn_steps: "kernel_ok E \<Longrightarrow> kernel_step\<^sup>*\<^sup>* (w\<lparr>xw_turn := Suc (xw_turn w)\<rparr>) (kernel_turn E w)"
  by (simp add: kernel_ok_def kernel_turn_def Let_def)


section \<open>The state while receiving\<close>

definition show_packet :: "bytes \<Rightarrow> string" where
  "show_packet p = process_packet (take 14 p) (of_nat (length p))"

text \<open>
  \<open>n\<close> entries of the RX ring are being worked on, \<open>s\<close> of them have been shown, the frames of \<open>m\<close> of
  them are back on the FILL ring, on which \<open>k\<close> entries are reserved.
\<close>

definition frames_kept :: "nat \<Rightarrow> xdp_world \<Rightarrow> bool" where
  "frames_kept m w \<longleftrightarrow> mset (map frame_of (xr_entries (fq w))) + mset (xw_held w)
     + mset (map (\<lambda>d. frame_of (xd_addr d)) (drop m (xr_entries (rx w)))) = all_frames"

definition shown_packets :: "nat \<Rightarrow> xdp_world \<Rightarrow> bool" where
  "shown_packets s w \<longleftrightarrow> (\<exists>shown. xw_out w = concat (map show_packet shown)
     \<and> xw_delivered w = shown @ map (packet_at (xw_buffer w)) (drop s (xr_entries (rx w))))"

definition rx_state :: "nat \<Rightarrow> nat \<Rightarrow> nat \<Rightarrow> nat \<Rightarrow> xdp_world \<Rightarrow> bool" where
  "rx_state m s n k w \<longleftrightarrow> xr_prod_ok k (fq w) \<and> xr_size (fq w) = 2048 \<and> xr_cons_ok n (rx w) \<and> m \<le> s \<and> s \<le> n
     \<and> frames_kept m w \<and> (\<forall>d \<in> set (drop m (xr_entries (rx w))). desc_inside d) \<and> shown_packets s w"

text \<open>What the kernel leaves alone.\<close>

definition untouched :: "nat \<Rightarrow> nat \<Rightarrow> xdp_world \<Rightarrow> xdp_world \<Rightarrow> bool" where
  "untouched n k w w' \<longleftrightarrow> xr_producer (fq w') = xr_producer (fq w) \<and> xr_reserved k (fq w') = xr_reserved k (fq w)
     \<and> xr_consumer (rx w') = xr_consumer (rx w) \<and> take n (xr_entries (rx w')) = take n (xr_entries (rx w))
     \<and> xs_rx_npkts (xw_xsk w') = xs_rx_npkts (xw_xsk w)"

lemma untouched_refl: "untouched n k w w"
  by (simp add: untouched_def)

lemma untouched_trans: "untouched n k w w' \<Longrightarrow> untouched n k w' w'' \<Longrightarrow> untouched n k w w''"
  by (simp add: untouched_def)

lemma rx_stateD:
  assumes "rx_state m s n k w"
  shows "xr_prod_ok k (fq w)" "xr_geometry (fq w)" "xr_cons_ok n (rx w)" "n \<le> xr_len (rx w)" "m \<le> n"
  using assms by (auto simp: rx_state_def xr_prod_ok_def xr_cons_ok_def)

lemma rx_frame_less:
  assumes "rx_state m s n k w" "d \<in> set (drop m (xr_entries (rx w)))"
  shows "unat (frame_of (xd_addr d)) < 2 ^ 23"
proof -
  have "frame_of (xd_addr d) \<in># mset (map (\<lambda>d. frame_of (xd_addr d)) (drop m (xr_entries (rx w))))"
    using assms(2) by simp
  then have "frame_of (xd_addr d) \<in># all_frames"
    using assms(1) unfolding rx_state_def frames_kept_def by (metis union_iff)
  then show ?thesis by (rule all_frames_less)
qed

lemma xr_entries_Cons:
  assumes "0 < xr_len r"
  shows "xr_entries r = hd (xr_entries r) # xr_entries (xsk_ring_cons__release r 1)"
proof -
  have "xr_entries r \<noteq> []" using assms length_xr_entries [of r] by (metis list.size(3) less_numeral_extra(3))
  moreover have "xr_entries (xsk_ring_cons__release r 1) = drop 1 (xr_entries r)"
    using xr_entries_release [of 1 r] assms by simp
  ultimately show ?thesis by (simp add: drop_Suc)
qed

lemma take_frame_keeps:
  assumes st: "rx_state m s n k w" and "0 < xr_len (fq w)"
    and w': "w' = (set_fq (xsk_ring_cons__release (fq w) 1) w)\<lparr>xw_held :=
      (if unat (hd (xr_entries (fq w))) < umem_size then xw_held w @ [frame_of (hd (xr_entries (fq w)))] else xw_held w)\<rparr>"
  shows "rx_state m s n k w' \<and> untouched n k w w'"
proof -
  let ?a = "hd (xr_entries (fq w))" and ?f = "xsk_ring_cons__release (fq w) 1"
  have e: "xr_entries (fq w) = ?a # xr_entries ?f" using assms(2) by (rule xr_entries_Cons)
  have "frame_of ?a \<in># mset (map frame_of (xr_entries (fq w)))" by (subst e) simp
  then have "frame_of ?a \<in># all_frames" using st unfolding rx_state_def frames_kept_def by (metis union_iff)
  then have "unat (frame_of ?a) < 2 ^ 23" by (rule all_frames_less)
  then have "unat ?a div 4096 * 4096 < 8388608" by (simp only: unat_frame_of) simp
  then have "unat ?a < 8388608 + 4096" using div_mult_mod_eq [of "unat ?a" 4096] mod_less_divisor [of 4096 "unat ?a"] by linarith
  then have valid: "unat ?a < umem_size" by (simp add: umem_size_def xdp_consts)
  have "mset (map frame_of (xr_entries (fq w))) = add_mset (frame_of ?a) (mset (map frame_of (xr_entries ?f)))"
    by (subst e) simp
  then have "frames_kept m w'" using st valid by (simp add: rx_state_def frames_kept_def w' set_rings)
  moreover have "xr_prod_ok k ?f" "xr_reserved k ?f = xr_reserved k (fq w)"
    using xr_prod_ok_consumed [of k "fq w" 1] rx_stateD(1) [OF st] assms(2) by auto
  moreover have "xr_size ?f = xr_size (fq w)" "xr_producer ?f = xr_producer (fq w)" by (simp_all add: xsk_ring_cons__release_def)
  ultimately show ?thesis
    using st by (simp add: rx_state_def untouched_def shown_packets_def w' set_rings)
qed

lemma write_frame_keeps:
  assumes st: "rx_state m s n k w" and f: "f \<in> set (xw_held w)" and b: "\<forall>x. frame_of x \<noteq> f \<longrightarrow> b x = xw_buffer w x"
  shows "rx_state m s n k (w\<lparr>xw_buffer := b\<rparr>) \<and> untouched n k w (w\<lparr>xw_buffer := b\<rparr>)"
proof -
  have sub: "set (drop s (xr_entries (rx w))) \<subseteq> set (drop m (xr_entries (rx w)))"
    using st set_drop_subset_set_drop [of m s] by (simp add: rx_state_def)
  have "packet_at b d = packet_at (xw_buffer w) d" if "d \<in> set (drop s (xr_entries (rx w)))" for d
  proof (rule packet_at_kept)
    have d: "d \<in> set (drop m (xr_entries (rx w)))" using that sub by blast
    then show "desc_inside d" using st by (simp add: rx_state_def)
    show "unat (frame_of (xd_addr d)) < 2 ^ 23" using st d by (rule rx_frame_less)
    have "f \<noteq> frame_of (xd_addr d)"
      using st f d unfolding rx_state_def frames_kept_def
      by (intro all_frames_disjoint [of "mset (map frame_of (xr_entries (fq w)))" "mset (xw_held w)"
            "mset (map (\<lambda>d. frame_of (xd_addr d)) (drop m (xr_entries (rx w))))"]) auto
    then show "\<forall>x. frame_of x = frame_of (xd_addr d) \<longrightarrow> b x = xw_buffer w x" using b by metis
  qed
  then have eq: "map (packet_at b) (drop s (xr_entries (rx w))) = map (packet_at (xw_buffer w)) (drop s (xr_entries (rx w)))"
    by simp
  have "shown_packets s (w\<lparr>xw_buffer := b\<rparr>) = shown_packets s w" by (simp add: shown_packets_def eq)
  then show ?thesis using st by (simp add: rx_state_def frames_kept_def untouched_def)
qed

lemma deliver_keeps:
  assumes st: "rx_state m s n k w" and f: "frame_of (xd_addr d) \<in> set (xw_held w)" "desc_inside d"
    and room: "xr_len (rx w) < unat (xr_size (rx w))"
    and w': "w' = (set_rx (xsk_ring_prod__submit (xsk_ring_set (rx w) (xr_producer (rx w)) d) 1) w)
      \<lparr>xw_held := remove1 (frame_of (xd_addr d)) (xw_held w), xw_delivered := xw_delivered w @ [packet_at (xw_buffer w) d]\<rparr>"
  shows "rx_state m s n k w' \<and> untouched n k w w'"
proof -
  let ?r = "xsk_ring_prod__submit (xsk_ring_set (rx w) (xr_producer (rx w)) d) 1"
  note p = xr_cons_ok_produced [OF rx_stateD(3) [OF st] room, of d]
  have le: "m \<le> xr_len (rx w)" "s \<le> xr_len (rx w)" "n \<le> xr_len (rx w)" using st by (auto simp: rx_state_def xr_cons_ok_def)
  have e: "xr_entries (rx w') = xr_entries (rx w) @ [d]" using p(2) by (simp add: w' set_rings)
  have "mset (xw_held w) = add_mset (frame_of (xd_addr d)) (mset (xw_held w'))" using f(1) by (simp add: w' set_rings)
  then have "frames_kept m w'" using st le e by (simp add: rx_state_def frames_kept_def) (simp add: w' set_rings)
  moreover have "shown_packets s w'" using st le e by (auto simp: rx_state_def shown_packets_def) (auto simp: w' set_rings)
  moreover have "fq w' = fq w" "rx w' = ?r" "xr_consumer ?r = xr_consumer (rx w)"
    by (simp_all add: w' set_rings xsk_ring_prod__submit_def)
  moreover have "xs_rx_npkts (xw_xsk w') = xs_rx_npkts (xw_xsk w)" by (simp add: w' set_rings)
  ultimately show ?thesis using st p le f(2) e by (auto simp: rx_state_def untouched_def)
qed

lemma xr_flags_frame [simp]:
  "xr_prod_ok k (r\<lparr>xr_flags := x\<rparr>) = xr_prod_ok k r" "xr_reserved k (r\<lparr>xr_flags := x\<rparr>) = xr_reserved k r"
  "xr_entries (r\<lparr>xr_flags := x\<rparr>) = xr_entries r" "xr_cons_ok k (r\<lparr>xr_flags := x\<rparr>) = xr_cons_ok k r"
  "xr_len (r\<lparr>xr_flags := x\<rparr>) = xr_len r"
  by (auto simp: xr_prod_ok_def xr_cons_ok_def xr_geometry_def xr_len_def xr_reserved_def xr_entries_def
      xsk_ring_get_def xsk_slot_def)

lemma kernel_step_keeps:
  "kernel_step w w' \<Longrightarrow> rx_state m s n k w \<Longrightarrow> rx_state m s n k w' \<and> untouched n k w w'"
proof (induction rule: kernel_step.cases)
  case (take_frame w)
  then show ?case using take_frame_keeps [of m s n k w] by blast
next
  case (write_frame f w b)
  then show ?case using write_frame_keeps [of m s n k w f b] by blast
next
  case (deliver d w)
  then show ?case using deliver_keeps [of m s n k w d] by blast
qed (auto simp: rx_state_def untouched_def frames_kept_def shown_packets_def set_rings)

interpretation receiving: environment_contract kernel_step
    "\<lambda>(m, s, n, k). rx_state m s n k" "\<lambda>(m, s, n, k). untouched n k"
  by unfold_locales (use kernel_step_keeps untouched_refl untouched_trans in \<open>auto split: prod.splits\<close>)

lemma kernel_turn_keeps:
  assumes "kernel_ok E" "rx_state m s n k w"
  shows "rx_state m s n k (kernel_turn E w) \<and> untouched n k w (kernel_turn E w)"
proof -
  let ?w = "w\<lparr>xw_turn := Suc (xw_turn w)\<rparr>"
  have "rx_state m s n k ?w" "untouched n k w ?w"
    using assms(2) by (simp_all add: rx_state_def frames_kept_def shown_packets_def untouched_def)
  then show ?thesis
    using receiving.steps_keep [OF kernel_turn_steps [OF assms(1), of w], of "(m, s, n, k)"] untouched_trans by auto
qed


section \<open>A round of receiving\<close>

lemma frames_counted:
  assumes "rx_state m s n k w"
  shows "xr_len (fq w) + length (xw_held w) + (xr_len (rx w) - m) = 2048"
proof -
  have "size (mset (map frame_of (xr_entries (fq w))) + mset (xw_held w)
     + mset (map (\<lambda>d. frame_of (xd_addr d)) (drop m (xr_entries (rx w))))) = 2048"
    using assms by (simp only: rx_state_def frames_kept_def size_all_frames)
  then show ?thesis by simp
qed

lemma rx_peeks:
  assumes st: "rx_state 0 0 0 0 w"
  obtains n i r where "xsk_ring_cons__peek (rx w) BATCH_SIZE 0 = (of_nat n, i, r)" "n \<le> 64" "n = 0 \<longrightarrow> xr_len (rx w) = 0"
    "n \<noteq> 0 \<longrightarrow> i = xr_consumer r" "rx_state 0 0 n 0 (set_rx r w)"
proof -
  obtain n r where r: "xsk_ring_cons__peek (rx w) BATCH_SIZE 0 = (of_nat n, if n = 0 then 0 else xr_consumer (rx w), r)"
    "n \<le> unat BATCH_SIZE" "n \<le> xr_len (rx w)" "n = 0 \<longrightarrow> BATCH_SIZE = 0 \<or> xr_len (rx w) = 0" "xr_cons_ok n r"
    "xr_entries r = xr_entries (rx w)" "xr_consumer r = xr_consumer (rx w)"
    using xsk_peek_spec [OF rx_stateD(3) [OF st], of BATCH_SIZE 0] by metis
  have "rx_state 0 0 n 0 (set_rx r w)"
    using st r by (simp add: rx_state_def frames_kept_def shown_packets_def set_rings)
  then show thesis using that [OF r(1)] r by (simp add: BATCH_SIZE_def)
qed

lemma rx_reserves:
  assumes st: "rx_state 0 0 n 0 w" and n: "n \<le> 64"
  obtains r where "xsk_ring_prod__reserve (fq w) (of_nat n) 0 = (of_nat n, xr_producer (fq w), r)"
    "rx_state 0 0 n n (set_fq r w)" "xr_producer r = xr_producer (fq w)"
proof -
  have u: "unat (of_nat n :: u32) = n" using n by (intro unat_of_nat_u32) simp
  have "xr_len (fq w) + unat (of_nat n :: u32) \<le> unat (xr_size (fq w))"
    using frames_counted [OF st] rx_stateD(4) [OF st] st u by (simp add: rx_state_def)
  then obtain r where r: "xsk_ring_prod__reserve (fq w) (of_nat n) 0 = (of_nat n, xr_producer (fq w), r)"
      "xr_prod_ok (unat (of_nat n :: u32)) r" "xr_entries r = xr_entries (fq w)" "xr_producer r = xr_producer (fq w)"
      "xr_size r = xr_size (fq w)"
    using reserve_succeeds [OF rx_stateD(1) [OF st]] by metis
  then have "rx_state 0 0 n n (set_fq r w)"
    using st u by (simp add: rx_state_def frames_kept_def shown_packets_def set_rings)
  then show thesis using that [OF r(1)] r(4) by blast
qed

text \<open>Showing one packet and writing its frame behind the FILL ring.\<close>

lemma rx_shows_one:
  assumes st: "rx_state 0 i n n w" and i: "i < n"
    and w': "w' = set_fq (xsk_ring_set (fq w) (xr_producer (fq w) + of_nat i) a)
      (w\<lparr>xw_out := xw_out w @ process_packet (read_bytes (xw_buffer w) (xd_addr d) 14) (xd_len d)\<rparr>)"
    and d: "d = xr_entries (rx w) ! i"
  shows "rx_state 0 (Suc i) n n w'" "xr_reserved n (fq w') = (xr_reserved n (fq w))[i := a]"
proof -
  have ok: "xr_len (fq w) + n \<le> unat (xr_size (fq w))" using rx_stateD(1) [OF st] by (simp add: xr_prod_ok_def)
  have il: "i < length (xr_entries (rx w))" using i rx_stateD(4) [OF st] by simp
  then have e: "drop i (xr_entries (rx w)) = d # drop (Suc i) (xr_entries (rx w))" unfolding d by (rule Cons_nth_drop_Suc [symmetric])
  have "d \<in> set (xr_entries (rx w))" using il d by simp
  then have "desc_inside d" using st by (simp add: rx_state_def)
  then have "show_packet (packet_at (xw_buffer w) d) = process_packet (read_bytes (xw_buffer w) (xd_addr d) 14) (xd_len d)"
    by (simp add: show_packet_def packet_at_def take_read_bytes desc_inside_def)
  moreover obtain shown where "xw_out w = concat (map show_packet shown)"
      "xw_delivered w = shown @ map (packet_at (xw_buffer w)) (drop i (xr_entries (rx w)))"
    using st by (auto simp: rx_state_def shown_packets_def)
  ultimately have "shown_packets (Suc i) w'"
    unfolding shown_packets_def using e by (intro exI [of _ "shown @ [packet_at (xw_buffer w) d]"]) (simp add: w' set_rings)
  moreover have "xr_entries (fq w') = xr_entries (fq w)"
    using xr_entries_set [OF rx_stateD(2) [OF st] ok i] by (simp add: w' set_rings)
  moreover have "fq w' = xsk_ring_set (fq w) (xr_producer (fq w) + of_nat i) a" "rx w' = rx w" "xw_held w' = xw_held w"
    by (simp_all add: w' set_rings)
  ultimately show "rx_state 0 (Suc i) n n w'"
    using st i by (simp add: rx_state_def frames_kept_def)
  show "xr_reserved n (fq w') = (xr_reserved n (fq w))[i := a]"
    using xr_reserved_set [OF rx_stateD(2) [OF st] _ i] ok by (simp add: w' set_rings)
qed

lemma rx_packets_shown:
  assumes K: "kernel_ok E"
  shows "rx_state 0 i n n w \<Longrightarrow> i + j = n \<Longrightarrow>
    take i (xr_reserved n (fq w)) = map xd_addr (take i (xr_entries (rx w))) \<Longrightarrow>
    \<exists>w'. rx_packets E j (xr_consumer (rx w) + of_nat i) (xr_producer (fq w) + of_nat i) w = Some w' \<and> rx_state 0 n n n w'
      \<and> xr_reserved n (fq w') = map xd_addr (take n (xr_entries (rx w')))
      \<and> xs_rx_npkts (xw_xsk w') = xs_rx_npkts (xw_xsk w)"
proof (induction j arbitrary: i w)
  case 0
  then show ?case by simp
next
  case (Suc j)
  define v where "v = kernel_turn E w"
  have st: "rx_state 0 i n n v" and un: "untouched n n w v" using kernel_turn_keeps [OF K Suc.prems(1)] by (auto simp: v_def)
  have i: "i < n" using Suc.prems(2) by simp
  define d where "d = xr_entries (rx v) ! i"
  have il: "i < xr_len (rx v)" using i rx_stateD(4) [OF st] by simp
  have get: "xsk_ring_get (rx v) (xr_consumer (rx w) + of_nat i) = d"
    using nth_xr_entries [OF il] un by (simp add: d_def untouched_def)
  have mem: "d \<in> set (drop 0 (xr_entries (rx v)))" using il by (simp add: d_def)
  then have "desc_inside d" "unat (frame_of (xd_addr d)) < 2 ^ 23" using st rx_frame_less [OF st] by (auto simp: rx_state_def)
  note da = desc_addr [OF this]
  define v' where "v' = set_fq (xsk_ring_set (fq v) (xr_producer (fq v) + of_nat i) (xd_addr d))
      (v\<lparr>xw_out := xw_out v @ process_packet (read_bytes (xw_buffer v) (xd_addr d) 14) (xd_len d)\<rparr>)"
  note one = rx_shows_one [OF st i v'_def d_def]
  have rd: "umem_read v (xd_addr d) 14 = Some (read_bytes (xw_buffer v) (xd_addr d) 14)" using da by (simp add: umem_read_def)
  have fr: "xr_consumer (rx v') = xr_consumer (rx w)" "xr_producer (fq v') = xr_producer (fq w)" "rx v' = rx v"
    "xs_rx_npkts (xw_xsk v') = xs_rx_npkts (xw_xsk w)"
    using un by (simp_all add: v'_def untouched_def set_rings)
  have "take (Suc i) (xr_reserved n (fq v')) = take i (xr_reserved n (fq v)) @ [xd_addr d]"
    using i by (simp add: one(2) take_Suc_conv_app_nth)
  also have "take i (xr_reserved n (fq v)) = map xd_addr (take i (xr_entries (rx v)))"
  proof -
    have "take i (take n (xr_entries (rx v))) = take i (take n (xr_entries (rx w)))" using un by (simp only: untouched_def)
    then show ?thesis using Suc.prems(3) un i by (simp add: untouched_def min_def)
  qed
  finally have "take (Suc i) (xr_reserved n (fq v')) = map xd_addr (take (Suc i) (xr_entries (rx v')))"
    using il by (simp add: fr take_Suc_conv_app_nth d_def)
  then obtain w' where "rx_packets E j (xr_consumer (rx v') + of_nat (Suc i)) (xr_producer (fq v') + of_nat (Suc i)) v' = Some w'"
      "rx_state 0 n n n w'" "xr_reserved n (fq w') = map xd_addr (take n (xr_entries (rx w')))"
      "xs_rx_npkts (xw_xsk w') = xs_rx_npkts (xw_xsk v')"
    using Suc.IH [OF one(1)] Suc.prems(2) by auto
  moreover have "rx_packets E (Suc j) (xr_consumer (rx w) + of_nat i) (xr_producer (fq w) + of_nat i) w
      = rx_packets E j (xr_consumer (rx v') + of_nat (Suc i)) (xr_producer (fq v') + of_nat (Suc i)) v'"
  proof -
    have p: "xr_producer (fq v) = xr_producer (fq w)" using un by (simp add: untouched_def)
    have "x + of_nat (Suc i) = x + of_nat i + (1 :: u32)" for x by simp
    then show ?thesis
      unfolding fr(1,2) unfolding rx_packets.simps v_def [symmetric] Let_def get da rd option.case v'_def p by (simp only:)
  qed
  ultimately show ?case using fr(4) by auto
qed


lemma rx_finishes:
  assumes K: "kernel_ok E" and st: "rx_state 0 n n n w" and res: "xr_reserved n (fq w) = map xd_addr (take n (xr_entries (rx w)))"
  shows "rx_state 0 0 0 0 (rx_finish E (of_nat n) w)"
    "xs_rx_npkts (xw_xsk (rx_finish E (of_nat n) w)) = xs_rx_npkts (xw_xsk w) + ucast (of_nat n :: u32)"
proof -
  define v where "v = kernel_turn E w"
  have v: "rx_state 0 n n n v" "untouched n n w v" using kernel_turn_keeps [OF K st] by (auto simp: v_def)
  have resv: "xr_reserved n (fq v) = map xd_addr (take n (xr_entries (rx v)))" using res v(2) by (simp add: untouched_def)
  define u where "u = set_fq (xsk_ring_prod__submit (fq v) (of_nat n)) v"
  have ok: "xr_geometry (fq v)" "xr_len (fq v) + n \<le> unat (xr_size (fq v))" using rx_stateD(1) [OF v(1)] by (auto simp: xr_prod_ok_def)
  have "xr_entries (fq u) = xr_entries (fq v) @ map xd_addr (take n (xr_entries (rx v)))"
    using xr_entries_submit [OF ok] resv by (simp add: u_def set_rings)
  then have fu: "mset (map frame_of (xr_entries (fq u))) = mset (map frame_of (xr_entries (fq v)))
      + mset (map (\<lambda>d. frame_of (xd_addr d)) (take n (xr_entries (rx v))))" by (simp add: comp_def image_mset.compositionality)
  have split: "mset (map (\<lambda>d. frame_of (xd_addr d)) xs)
      = mset (map (\<lambda>d. frame_of (xd_addr d)) (take n xs)) + mset (map (\<lambda>d. frame_of (xd_addr d)) (drop n xs))" for xs
    by (metis append_take_drop_id map_append mset_append)
  have ru: "rx u = rx v" "xw_held u = xw_held v" by (simp_all add: u_def set_rings)
  have "frames_kept 0 v" using v(1) by (simp add: rx_state_def)
  then have "frames_kept n u"
    unfolding frames_kept_def ru fu drop_0 split [of "xr_entries (rx v)"] by (simp only: ac_simps)
  moreover have "xr_prod_ok 0 (fq u)" "xr_size (fq u) = xr_size (fq v)"
    using xr_prod_ok_submit [OF rx_stateD(1) [OF v(1)]] by (simp_all add: u_def set_rings xsk_ring_prod__submit_def)
  moreover have "shown_packets n u" using v(1) by (simp add: rx_state_def shown_packets_def u_def set_rings)
  moreover have "\<forall>d \<in> set (drop n (xr_entries (rx v))). desc_inside d"
    using v(1) set_drop_subset [of n "xr_entries (rx v)"] by (auto simp: rx_state_def)
  ultimately have u: "rx_state n n n 0 u" using v(1) ru by (simp add: rx_state_def)
  define t where "t = kernel_turn E u"
  have t: "rx_state n n n 0 t" "untouched n 0 u t" using kernel_turn_keeps [OF K u] by (auto simp: t_def)
  define z where "z = set_rx (xsk_ring_cons__release (rx t) (of_nat n)) t"
  have "xr_entries (rx z) = drop n (xr_entries (rx t))"
    using xr_entries_release [OF rx_stateD(4) [OF t(1)]] by (simp add: z_def set_rings)
  moreover have "xr_cons_ok 0 (rx z)" using xr_cons_ok_release [OF rx_stateD(3) [OF t(1)]] by (simp add: z_def set_rings)
  ultimately have "rx_state 0 0 0 0 z"
    using t(1) by (auto simp: rx_state_def frames_kept_def shown_packets_def) (auto simp: z_def set_rings)
  moreover have fin: "rx_finish E (of_nat n) w = z\<lparr>xw_xsk := (xw_xsk z)\<lparr>xs_rx_npkts := xs_rx_npkts (xw_xsk z) + ucast (of_nat n :: u32)\<rparr>\<rparr>"
    by (simp add: rx_finish_def Let_def v_def [symmetric] u_def [symmetric] t_def [symmetric] z_def [symmetric])
  ultimately show "rx_state 0 0 0 0 (rx_finish E (of_nat n) w)"
    by (simp add: rx_state_def frames_kept_def shown_packets_def)
  have "xs_rx_npkts (xw_xsk z) = xs_rx_npkts (xw_xsk w)"
    using t(2) v(2) by (simp add: untouched_def z_def u_def set_rings)
  then show "xs_rx_npkts (xw_xsk (rx_finish E (of_nat n) w)) = xs_rx_npkts (xw_xsk w) + ucast (of_nat n :: u32)"
    using fin by simp
qed

text \<open>A round never waits and never leaves the program.\<close>

lemma rx_drop_returns:
  assumes K: "kernel_ok E" and st: "rx_state 0 0 0 0 w"
  shows "\<exists>w'. rx_drop E fuel w = Returns w' \<and> rx_state 0 0 0 0 w'"
proof -
  define v where "v = kernel_turn E w"
  have v: "rx_state 0 0 0 0 v" using kernel_turn_keeps [OF K st] by (simp add: v_def)
  obtain n i r where peek: "xsk_ring_cons__peek (rx v) BATCH_SIZE 0 = (of_nat n, i, r)" and n: "n \<le> 64"
    and i: "n \<noteq> 0 \<longrightarrow> i = xr_consumer r" and p: "rx_state 0 0 n 0 (set_rx r v)"
    using rx_peeks [OF v] by metis
  have u: "unat (of_nat n :: u32) = n" using n by (intro unat_of_nat_u32) simp
  define u where "u = kernel_turn E (set_rx r v)"
  have ku: "rx_state 0 0 n 0 u" "untouched n 0 (set_rx r v) u" using kernel_turn_keeps [OF K p] by (auto simp: u_def)
  show ?thesis
  proof (cases "n = 0")
    case True
    then have "rx_drop E fuel w = Returns (if xsk_ring_prod__needs_wakeup (fq u) then kernel_turn E u else u)"
      by (simp add: rx_drop_def v_def [symmetric] peek Let_def u_def [symmetric])
    then show ?thesis using kernel_turn_keeps [OF K, of 0 0 0 0 u] ku True by auto
  next
    case False
    then have nz: "(of_nat n :: u32) \<noteq> 0" using u by (metis unat_0)
    have iu: "i = xr_consumer (rx u)" using i False ku(2) by (simp add: untouched_def set_rings)
    obtain f where f: "xsk_ring_prod__reserve (fq u) (of_nat n) 0 = (of_nat n, xr_producer (fq u), f)"
        "rx_state 0 0 n n (set_fq f u)" "xr_producer f = xr_producer (fq u)"
      using rx_reserves [OF ku(1) n] by metis
    obtain w' where w': "rx_packets E n (xr_consumer (rx u)) (xr_producer (fq u)) (set_fq f u) = Some w'" "rx_state 0 n n n w'"
        "xr_reserved n (fq w') = map xd_addr (take n (xr_entries (rx w')))"
      using rx_packets_shown [OF K f(2), of n] f(3) by (auto simp: set_rings)
    have "rx_drop E fuel w = Returns (rx_finish E (of_nat n) w')"
      using nz by (simp add: rx_drop_def v_def [symmetric] peek Let_def u_def [symmetric] f(1) iu u w'(1)
          reserve_wait.simps [of E fuel "of_nat n" "of_nat n"])
    then show ?thesis using rx_finishes(1) [OF K w'(2,3)] by auto
  qed
qed

lemma rx_rounds_return:
  assumes K: "kernel_ok E"
  shows "rx_state 0 0 0 0 w \<Longrightarrow> \<exists>w'. rx_rounds E fuel n w = Returns w' \<and> rx_state 0 0 0 0 w'"
proof (induction n arbitrary: w)
  case (Suc n)
  then show ?case using rx_drop_returns [OF K Suc.prems, of fuel] by auto
qed simp

end
