(* ===== verification/Xdp_Run.thy ===== *)
theory Xdp_Run
  imports Xdp_Lemmas
begin

text \<open>
  The whole AF_XDP program: what its start leaves on the FILL ring, its receiving loop from the
  start on, and the sending loop the source keeps beside it.
\<close>

section \<open>Start\<close>

text \<open>Rings as \<open>xsk_umem__create\<close> and \<open>xsk_socket__create\<close> hand them out: of the size asked for, and empty.\<close>

definition fresh_ring :: "bool \<Rightarrow> 'a xsk_ring \<Rightarrow> bool" where
  "fresh_ring produce r \<longleftrightarrow> xr_size r = 2048 \<and> xr_mask r = 2047 \<and> length (xr_ring r) = 2048
     \<and> xr_producer r = xr_consumer r \<and> xr_cached_prod r = xr_producer r
     \<and> xr_cached_cons r = xr_consumer r + (if produce then 2048 else 0)"

definition libraries_ok :: "xdp_env \<Rightarrow> bool" where
  "libraries_ok E \<longleftrightarrow> xe_mmap E \<and> xe_calloc_umem E \<and> xe_calloc_xsk E
     \<and> fst (xe_umem_create E) = 0 \<and> fresh_ring True (fst (snd (xe_umem_create E))) \<and> fresh_ring False (snd (snd (xe_umem_create E)))
     \<and> fst (xe_socket_create E) = 0 \<and> fresh_ring False (fst (snd (xe_socket_create E)))
     \<and> fresh_ring True (snd (snd (xe_socket_create E))) \<and> (\<forall>n. fst (xe_link_id E n) = 0)"

lemma fresh_geometry: "fresh_ring b r \<Longrightarrow> xr_geometry r" "fresh_ring b r \<Longrightarrow> xr_len r = 0" "fresh_ring b r \<Longrightarrow> xr_entries r = []"
proof -
  have two: "(2 :: u32) ^ 11 = 2048" by simp
  show "fresh_ring b r \<Longrightarrow> xr_len r = 0" "fresh_ring b r \<Longrightarrow> xr_entries r = []"
    by (auto simp: fresh_ring_def xr_len_def xr_entries_def)
  then show "fresh_ring b r \<Longrightarrow> xr_geometry r"
    unfolding xr_geometry_def fresh_ring_def by (intro conjI exI [of _ 11]) (auto simp: two)
qed

lemma fresh_ok: "fresh_ring True r \<Longrightarrow> xr_prod_ok 0 r" "fresh_ring False r \<Longrightarrow> xr_cons_ok 0 r"
  using fresh_geometry [of True r] fresh_geometry [of False r]
  by (auto simp: xr_prod_ok_def xr_cons_ok_def) (auto simp: fresh_ring_def)

lemma fill_frames_frame:
  "xr_prod_ok m (fill_frames n i r) = xr_prod_ok m r" "xr_len (fill_frames n i r) = xr_len r"
  "xr_size (fill_frames n i r) = xr_size r" "xr_producer (fill_frames n i r) = xr_producer r"
  "xr_geometry (fill_frames n i r) = xr_geometry r"
  by (induction n) auto

lemma fill_frames_reserved:
  assumes "xr_prod_ok n r"
  shows "j \<le> n \<Longrightarrow> xr_reserved n (fill_frames j (xr_producer r) r)
    = map (\<lambda>i. of_nat (i * opt_xsk_frame_size)) [0..<j] @ drop j (xr_reserved n r)
    \<and> xr_entries (fill_frames j (xr_producer r) r) = xr_entries r"
proof (induction j)
  case (Suc j)
  let ?r = "fill_frames j (xr_producer r) r"
  have ok: "xr_geometry ?r" "xr_len ?r + n \<le> unat (xr_size ?r)" using assms by (auto simp: fill_frames_frame xr_prod_ok_def)
  have IH: "xr_reserved n ?r = map (\<lambda>i. of_nat (i * opt_xsk_frame_size)) [0..<j] @ drop j (xr_reserved n r)"
    "xr_entries ?r = xr_entries r" using Suc by auto
  have "drop j (xr_reserved n r) = xr_reserved n r ! j # drop (Suc j) (xr_reserved n r)"
    using Suc.prems by (intro Cons_nth_drop_Suc [symmetric]) simp
  moreover have "xr_reserved n (fill_frames (Suc j) (xr_producer r) r)
      = (xr_reserved n ?r)[j := of_nat (j * opt_xsk_frame_size)]"
    using xr_reserved_set [OF ok(1), of n j] ok(2) Suc.prems by (simp add: fill_frames_frame)
  moreover have "xr_entries (fill_frames (Suc j) (xr_producer r) r) = xr_entries ?r"
    using xr_entries_set [OF ok, of j] Suc.prems by (simp add: fill_frames_frame)
  ultimately show ?case using IH by (simp add: list_update_append)
qed simp

lemma fill_ring_filled:
  assumes "fresh_ring True r"
  obtains f where "xsk_ring_prod__reserve r 2048 0 = (2048, xr_producer r, f)"
    "xr_prod_ok 0 (xsk_ring_prod__submit (fill_frames 2048 (xr_producer r) f) 2048)"
    "xr_entries (xsk_ring_prod__submit (fill_frames 2048 (xr_producer r) f) 2048)
       = map (\<lambda>i. of_nat (i * opt_xsk_frame_size)) [0..<2048]"
    "xr_size (xsk_ring_prod__submit (fill_frames 2048 (xr_producer r) f) 2048) = 2048"
proof -
  have room: "xr_len r + unat (2048 :: u32) \<le> unat (xr_size r)" using assms fresh_geometry(2) [OF assms] by (simp add: fresh_ring_def)
  obtain f where f: "xsk_ring_prod__reserve r 2048 0 = (2048, xr_producer r, f)" "xr_prod_ok (unat (2048 :: u32)) f"
      "xr_entries f = xr_entries r" "xr_producer f = xr_producer r" "xr_size f = xr_size r" "xr_len f = xr_len r"
    using reserve_succeeds [OF fresh_ok(1) [OF assms] room] by metis
  let ?f = "fill_frames 2048 (xr_producer r) f"
  have pf: "xr_prod_ok 2048 f" using f(2) by simp
  have r: "xr_reserved 2048 ?f = map (\<lambda>i. of_nat (i * opt_xsk_frame_size)) [0..<2048]" "xr_entries ?f = []"
    using fill_frames_reserved [OF pf order_refl] f(3,4) fresh_geometry(3) [OF assms] by auto
  have ok1: "xr_prod_ok 2048 ?f" using pf by (simp only: fill_frames_frame)
  then have ok: "xr_prod_ok 2048 ?f" "xr_geometry ?f" "xr_len ?f + 2048 \<le> unat (xr_size ?f)"
    by (auto simp: xr_prod_ok_def)
  have n: "(of_nat 2048 :: u32) = 2048" by simp
  have "xr_entries (xsk_ring_prod__submit ?f 2048) = map (\<lambda>i. of_nat (i * opt_xsk_frame_size)) [0..<2048]"
    using xr_entries_submit [OF ok(2,3)] r unfolding n by simp
  moreover have "xr_prod_ok 0 (xsk_ring_prod__submit ?f 2048)" using xr_prod_ok_submit [OF ok(1)] unfolding n .
  moreover have "xr_size (xsk_ring_prod__submit ?f 2048) = 2048"
    using f(5) assms by (simp add: xsk_ring_prod__submit_def fill_frames_frame fresh_ring_def)
  ultimately show thesis using that f(1) by blast
qed

lemma xdp_starts:
  assumes L: "libraries_ok E" and w: "xw_held w = []" "xw_delivered w = []" "xw_out w = []"
  obtains v where "\<And>fuel n. xdp_main E fuel n w = rx_rounds E fuel n v" "rx_state 0 0 0 0 v"
proof -
  obtain f c where uc: "xe_umem_create E = (0, f, c)" "fresh_ring True f" using L by (cases "xe_umem_create E") (auto simp: libraries_ok_def)
  obtain r t where sc: "xe_socket_create E = (0, r, t)" "fresh_ring False r" using L by (cases "xe_socket_create E") (auto simp: libraries_ok_def)
  obtain g where g: "xsk_ring_prod__reserve f 2048 0 = (2048, xr_producer f, g)"
    "xr_prod_ok 0 (xsk_ring_prod__submit (fill_frames 2048 (xr_producer f) g) 2048)"
    "xr_entries (xsk_ring_prod__submit (fill_frames 2048 (xr_producer f) g) 2048) = map (\<lambda>i. of_nat (i * opt_xsk_frame_size)) [0..<2048]"
    "xr_size (xsk_ring_prod__submit (fill_frames 2048 (xr_producer f) g) 2048) = 2048"
    using fill_ring_filled [OF uc(2)] by metis
  define h where "h = xsk_ring_prod__submit (fill_frames 2048 (xr_producer f) g) 2048"
  define v where "v = set_fq h ((set_fq f (set_cq c (w\<lparr>xw_ifindex := xe_ifindex E\<rparr>)))
    \<lparr>xw_xsk := \<lparr>xs_rx = r, xs_tx = t, xs_rx_npkts = 0, xs_tx_npkts = 0, xs_outstanding_tx = 0\<rparr>,
     xw_prog_id := snd (xe_link_id E (xw_turn w))\<rparr>)"
  have link: "fst (xe_link_id E (xw_turn w)) = 0" using L by (simp add: libraries_ok_def)
  have flags: "xe_mmap E" "xe_calloc_umem E" "xe_calloc_xsk E" using L by (auto simp: libraries_ok_def)
  have "xdp_main E fuel n w = rx_rounds E fuel n v" for fuel n
    using flags link by (simp add: xdp_main_def parse_params_def xsk_configure_umem_def xsk_configure_socket_def uc(1) sc(1) Let_def
        XSK_RING_DEFAULT_NUM_DESCS_def g(1) split_beta v_def h_def set_rings)
  moreover have "rx_state 0 0 0 0 v"
  proof -
    have "map frame_of (map (\<lambda>i. of_nat (i * opt_xsk_frame_size)) [0..<2048]) = map (\<lambda>i. of_nat (i * opt_xsk_frame_size)) [0..<2048]"
      using frame_of_frame by (simp add: xdp_consts)
    then have "mset (map frame_of (xr_entries h)) = all_frames"
      by (simp only: h_def g(3) all_frames_def XSK_RING_DEFAULT_NUM_DESCS_def)
    then show ?thesis
      using g(2,4) w fresh_ok(2) [OF sc(2)] fresh_geometry(3) [OF sc(2)]
      by (simp add: rx_state_def frames_kept_def shown_packets_def v_def set_rings h_def [symmetric])
  qed
  ultimately show thesis using that by blast
qed


section \<open>The state while sending\<close>

text \<open>
  \<open>k\<close> entries of the TX ring are reserved, \<open>c\<close> completions are being counted.  \<open>A\<close> holds the addresses in
  circulation.
\<close>

definition tx_state :: "u64 set \<Rightarrow> nat \<Rightarrow> nat \<Rightarrow> xdp_world \<Rightarrow> bool" where
  "tx_state A k c w \<longleftrightarrow> xr_prod_ok k (tx w) \<and> xr_size (tx w) = 2048 \<and> xr_cons_ok c (cq w) \<and> xr_size (cq w) = 2048
     \<and> unat (xs_outstanding_tx (xw_xsk w)) = xr_len (tx w) + length (xw_sending w) + xr_len (cq w)
     \<and> length (xw_sending w) + xr_len (cq w) \<le> 2048
     \<and> xd_addr ` set (xr_entries (tx w)) \<union> set (xw_sending w) \<union> set (xr_entries (cq w)) \<subseteq> A"

definition tx_untouched :: "nat \<Rightarrow> xdp_world \<Rightarrow> xdp_world \<Rightarrow> bool" where
  "tx_untouched k w w' \<longleftrightarrow> xr_producer (tx w') = xr_producer (tx w) \<and> xr_reserved k (tx w') = xr_reserved k (tx w)
     \<and> xs_outstanding_tx (xw_xsk w') = xs_outstanding_tx (xw_xsk w) \<and> xs_tx_npkts (xw_xsk w') = xs_tx_npkts (xw_xsk w)"

lemma tx_stateD:
  assumes "tx_state A k c w"
  shows "xr_prod_ok k (tx w)" "xr_geometry (tx w)" "xr_len (tx w) + k \<le> 2048" "xr_cons_ok c (cq w)" "c \<le> xr_len (cq w)"
  using assms by (auto simp: tx_state_def xr_prod_ok_def xr_cons_ok_def)

lemma send_keeps:
  assumes st: "tx_state A k c w" and "0 < xr_len (tx w)" "length (xw_sending w) + xr_len (cq w) < unat (xr_size (cq w))"
    and w': "w' = (set_tx (xsk_ring_cons__release (tx w) 1) w)\<lparr>xw_sending := xw_sending w @ [xd_addr (hd (xr_entries (tx w)))]\<rparr>"
  shows "tx_state A k c w' \<and> tx_untouched k w w'"
proof -
  let ?r = "xsk_ring_cons__release (tx w) 1"
  have e: "xr_entries (tx w) = hd (xr_entries (tx w)) # xr_entries ?r" using assms(2) by (rule xr_entries_Cons)
  have sub: "insert (xd_addr (hd (xr_entries (tx w)))) (xd_addr ` set (xr_entries ?r)) = xd_addr ` set (xr_entries (tx w))"
    by (metis e list.set(2) image_insert)
  have "xr_len ?r = xr_len (tx w) - 1" using xr_len_release [of 1 "tx w"] assms(2) by simp
  moreover have "xr_prod_ok k ?r" "xr_reserved k ?r = xr_reserved k (tx w)"
    using xr_prod_ok_consumed [of k "tx w" 1] tx_stateD(1) [OF st] assms(2) by auto
  moreover have "xr_size ?r = xr_size (tx w)" "xr_producer ?r = xr_producer (tx w)" by (simp_all add: xsk_ring_cons__release_def)
  ultimately show ?thesis
    using st assms(2,3) sub by (auto simp: tx_state_def tx_untouched_def w' set_rings)
qed

lemma complete_keeps:
  assumes st: "tx_state A k c w" and a: "a \<in> set (xw_sending w)" and room: "xr_len (cq w) < unat (xr_size (cq w))"
    and w': "w' = (set_cq (xsk_ring_prod__submit (xsk_ring_set (cq w) (xr_producer (cq w)) a) 1) w)
      \<lparr>xw_sending := remove1 a (xw_sending w)\<rparr>"
  shows "tx_state A k c w' \<and> tx_untouched k w w'"
proof -
  let ?r = "xsk_ring_prod__submit (xsk_ring_set (cq w) (xr_producer (cq w)) a) 1"
  note p = xr_cons_ok_produced [OF tx_stateD(4) [OF st] room, of a]
  have "length (xr_entries ?r) = length (xr_entries (cq w)) + 1" using p(2) by simp
  then have "xr_len ?r = xr_len (cq w) + 1" by simp
  moreover have "length (xw_sending w) = length (remove1 a (xw_sending w)) + 1"
    using a by (simp add: length_remove1) (metis Suc_pred length_pos_if_in_set)
  moreover have "xr_size ?r = xr_size (cq w)" by (simp add: xsk_ring_prod__submit_def)
  moreover have "set (remove1 a (xw_sending w)) \<subseteq> set (xw_sending w)" by (rule set_remove1_subset)
  ultimately show ?thesis
    using st p a by (auto simp: tx_state_def tx_untouched_def w' set_rings)
qed

lemma kernel_step_keeps_tx:
  "kernel_step w w' \<Longrightarrow> tx_state A k c w \<Longrightarrow> tx_state A k c w' \<and> tx_untouched k w w'"
proof (induction rule: kernel_step.cases)
  case (send_frame w)
  then show ?case using send_keeps [of A k c w] by blast
next
  case (complete a w)
  then show ?case using complete_keeps [of A k c w a] by blast
qed (auto simp: tx_state_def tx_untouched_def set_rings)

interpretation sending: environment_contract kernel_step
    "\<lambda>(A, k, c). tx_state A k c" "\<lambda>(A, k, c). tx_untouched k"
  by unfold_locales (use kernel_step_keeps_tx in \<open>auto simp: tx_untouched_def split: prod.splits\<close>)

lemma kernel_turn_keeps_tx:
  assumes "kernel_ok E" "tx_state A k c w"
  shows "tx_state A k c (kernel_turn E w) \<and> tx_untouched k w (kernel_turn E w)"
proof -
  let ?w = "w\<lparr>xw_turn := Suc (xw_turn w)\<rparr>"
  have "tx_state A k c ?w" "tx_untouched k w ?w" using assms(2) by (simp_all add: tx_state_def tx_untouched_def)
  then show ?thesis
    using sending.steps_keep [OF kernel_turn_steps [OF assms(1), of w], of "(A, k, c)"] by (auto simp: tx_untouched_def)
qed


section \<open>A round of sending\<close>

definition first_frames :: "u64 set" where
  "first_frames = (\<lambda>i. of_nat (i * opt_xsk_frame_size)) ` {0..<unat BATCH_SIZE}"

definition batch_desc :: "nat \<Rightarrow> xdp_desc" where
  "batch_desc i = \<lparr>xd_addr = of_nat (i * opt_xsk_frame_size), xd_len = of_nat (length pkt_data)\<rparr>"

lemma batch_desc_shift:
  "i < 64 \<Longrightarrow> \<lparr>xd_addr = ucast (push_bit XSK_UMEM__DEFAULT_FRAME_SHIFT (of_nat i :: u32)), xd_len = of_nat (length pkt_data)\<rparr> = batch_desc i"
proof -
  assume i: "i < 64"
  have "push_bit XSK_UMEM__DEFAULT_FRAME_SHIFT (of_nat i :: u32) = of_nat (i * 4096)"
    by (simp add: XSK_UMEM__DEFAULT_FRAME_SHIFT_def push_bit_eq_mult)
  moreover have "unat (of_nat (i * 4096) :: u32) = i * 4096" using i by (intro unat_of_nat_u32) simp
  moreover have "unat (of_nat (i * 4096) :: u64) = i * 4096" using i by (intro unat_of_nat_u64) simp
  ultimately have "unat (ucast (push_bit XSK_UMEM__DEFAULT_FRAME_SHIFT (of_nat i :: u32)) :: u64) = unat (of_nat (i * 4096) :: u64)"
    using take_bit_nat_eq_self [of "i * 4096" 64] i by (simp only: unsigned_ucast_eq) simp
  then show ?thesis by (simp only: word_unat_eq_iff batch_desc_def) (simp add: xdp_consts word_unat_eq_iff)
qed

lemma tx_batch_writes:
  assumes K: "kernel_ok E"
  shows "tx_state A 64 0 w \<Longrightarrow> i + j = 64 \<Longrightarrow> take i (xr_reserved 64 (tx w)) = map batch_desc [0..<i] \<Longrightarrow>
    tx_state A 64 0 (tx_batch E j (xr_producer (tx w) + of_nat i) (of_nat i) w)
    \<and> xr_reserved 64 (tx (tx_batch E j (xr_producer (tx w) + of_nat i) (of_nat i) w)) = map batch_desc [0..<64]"
proof (induction j arbitrary: i w)
  case (Suc j)
  define v where "v = kernel_turn E w"
  have st: "tx_state A 64 0 v" and un: "tx_untouched 64 w v" using kernel_turn_keeps_tx [OF K Suc.prems(1)] by (auto simp: v_def)
  have i: "i < 64" using Suc.prems(2) by simp
  define v' where "v' = set_tx (xsk_ring_set (tx v) (xr_producer (tx v) + of_nat i) (batch_desc i)) v"
  have ok: "xr_geometry (tx v)" "xr_len (tx v) + 64 \<le> unat (xr_size (tx v))" using tx_stateD(1) [OF st] by (auto simp: xr_prod_ok_def)
  have "xr_entries (tx v') = xr_entries (tx v)" using xr_entries_set [OF ok i] by (simp add: v'_def set_rings)
  then have st': "tx_state A 64 0 v'" using st by (simp add: tx_state_def) (simp add: v'_def set_rings)
  have "xr_reserved 64 (tx v') = (xr_reserved 64 (tx v))[i := batch_desc i]"
    using xr_reserved_set [OF ok(1) _ i] ok(2) by (simp add: v'_def set_rings)
  then have "take (Suc i) (xr_reserved 64 (tx v')) = map batch_desc [0..<Suc i]"
    using i un Suc.prems(3) by (simp add: take_Suc_conv_app_nth tx_untouched_def)
  note IH = Suc.IH [OF st' _ this]
  have p: "xr_producer (tx v') = xr_producer (tx w)" "xr_producer (tx v) = xr_producer (tx w)"
    using un by (simp_all add: v'_def set_rings tx_untouched_def)
  have "x + of_nat (Suc i) = x + of_nat i + (1 :: u32)" "of_nat (Suc i) = of_nat i + (1 :: u32)" for x by simp_all
  then have "tx_batch E (Suc j) (xr_producer (tx w) + of_nat i) (of_nat i) w
      = tx_batch E j (xr_producer (tx v') + of_nat (Suc i)) (of_nat (Suc i)) v'"
    unfolding p(1) unfolding tx_batch.simps v_def [symmetric] Let_def batch_desc_shift [OF i] v'_def p(2) by (simp only:)
  then show ?case using IH Suc.prems(2) by simp
qed simp

definition sendto_ok :: "xdp_env \<Rightarrow> bool" where
  "sendto_ok E \<longleftrightarrow> (\<forall>n. fst (xe_sendto E n) \<ge> 0 \<or> snd (xe_sendto E n) \<in> {105, 11, 16})"

text \<open>Counting \<open>c\<close> completed packets.\<close>

definition completed :: "nat \<Rightarrow> xdp_world \<Rightarrow> xdp_world" where
  "completed c w = (let z = set_cq (xsk_ring_cons__release (cq w) (of_nat c)) w in
     z\<lparr>xw_xsk := (xw_xsk z)\<lparr>xs_outstanding_tx := xs_outstanding_tx (xw_xsk z) - of_nat c,
       xs_tx_npkts := xs_tx_npkts (xw_xsk z) + ucast (of_nat c :: u32)\<rparr>\<rparr>)"

lemma completed_keeps:
  assumes q: "tx_state A 0 c q" and cu: "unat (of_nat c :: u32) = c"
  shows "tx_state A 0 0 (completed c q)"
proof -
  have c: "c \<le> xr_len (cq q)" using tx_stateD(5) [OF q] .
  have "unat (xs_outstanding_tx (xw_xsk q)) = xr_len (tx q) + length (xw_sending q) + xr_len (cq q)" using q by (simp add: tx_state_def)
  then have "(of_nat c :: u32) \<le> xs_outstanding_tx (xw_xsk q)" using c by (simp add: word_le_nat_alt cu)
  then have "unat (xs_outstanding_tx (xw_xsk q) - of_nat c) = unat (xs_outstanding_tx (xw_xsk q)) - c"
    by (simp add: unat_sub cu)
  moreover have "set (drop c (xr_entries (cq q))) \<subseteq> set (xr_entries (cq q))" by (rule set_drop_subset)
  moreover have "xr_size (xsk_ring_cons__release (cq q) (of_nat c)) = xr_size (cq q)" by (simp add: xsk_ring_cons__release_def)
  ultimately show ?thesis
    using q c xr_len_release [OF c] xr_entries_release [OF c] xr_cons_ok_release [OF tx_stateD(4) [OF q]]
    by (auto simp: tx_state_def completed_def Let_def set_rings)
qed

lemma complete_tx_only_keeps:
  assumes K: "kernel_ok E" and S: "sendto_ok E" and st: "tx_state A 0 0 w"
  shows "\<exists>w'. complete_tx_only E w = Returns w' \<and> tx_state A 0 0 w'"
proof (cases "xs_outstanding_tx (xw_xsk w) = 0")
  case True
  then show ?thesis using st by (simp add: complete_tx_only_def)
next
  case False
  define v where "v = kernel_turn E w"
  have v: "tx_state A 0 0 v" using kernel_turn_keeps_tx [OF K st] by (simp add: v_def)
  have S': "0 \<le> fst (xe_sendto E m) \<or> snd (xe_sendto E m) = 105 \<or> snd (xe_sendto E m) = 11 \<or> snd (xe_sendto E m) = 16" for m
    using S by (auto simp: sendto_ok_def)
  have "kick_tx E v = Returns (kernel_turn E v)"
    using S' [of "xw_turn v"] by (simp add: kick_tx_def split_beta Let_def)
  then obtain u where u: "(if \<not> opt_need_wakeup \<or> xsk_ring_prod__needs_wakeup (tx v) then kick_tx E v else Returns v) = Returns u"
      "tx_state A 0 0 u"
    using kernel_turn_keeps_tx [OF K v] v by (cases "\<not> opt_need_wakeup \<or> xsk_ring_prod__needs_wakeup (tx v)") auto
  define t where "t = kernel_turn E u"
  have t: "tx_state A 0 0 t" using kernel_turn_keeps_tx [OF K u(2)] by (simp add: t_def)
  obtain c r where r: "xsk_ring_cons__peek (cq t) BATCH_SIZE 0 = (of_nat c, if c = 0 then 0 else xr_consumer (cq t), r)"
    "c \<le> unat BATCH_SIZE" "xr_cons_ok c r" "xr_entries r = xr_entries (cq t)" "xr_len r = xr_len (cq t)"
    using xsk_peek_spec [OF tx_stateD(4) [OF t], of BATCH_SIZE 0] by metis
  have size: "xr_size r = xr_size (cq t)"
    using r(1) by (auto simp: xsk_ring_cons__peek_def xsk_cons_nb_avail_def Let_def split: if_splits)
  have s: "tx_state A 0 c (set_cq r t)" using t r size by (simp add: tx_state_def set_rings)
  have cu: "unat (of_nat c :: u32) = c" using r(2) by (intro unat_of_nat_u32) (simp add: BATCH_SIZE_def)
  show ?thesis
  proof (cases "c = 0")
    case True
    then have "complete_tx_only E w = Returns (set_cq r t)"
      using False unfolding complete_tx_only_def Let_def v_def [symmetric] u(1) by (simp add: t_def [symmetric] r(1))
    then show ?thesis using s True by simp
  next
    case nz: False
    define q where "q = kernel_turn E (set_cq r t)"
    have q: "tx_state A 0 c q" using kernel_turn_keeps_tx [OF K s] by (simp add: q_def)
    have pos: "(0 :: u32) < of_nat c" using nz cu by (metis unat_0 word_neq_0_conv)
    have "complete_tx_only E w = Returns (completed c q)"
      using False pos nz unfolding complete_tx_only_def Let_def v_def [symmetric] u(1)
      by (simp add: t_def [symmetric] r(1) q_def [symmetric] completed_def Let_def)
    then show ?thesis using completed_keeps [OF q cu] by blast
  qed
qed

lemma tx_only_keeps:
  assumes K: "kernel_ok E" and S: "sendto_ok E" and st: "tx_state first_frames 0 0 w"
  shows "\<exists>w'. tx_only E 0 w = Returns w' \<and> tx_state first_frames 0 0 w'"
proof -
  define v where "v = kernel_turn E w"
  have v: "tx_state first_frames 0 0 v" using kernel_turn_keeps_tx [OF K st] by (simp add: v_def)
  have b: "unat BATCH_SIZE = 64" "BATCH_SIZE \<noteq> 0" "(of_nat 64 :: u32) = BATCH_SIZE" by (simp_all add: BATCH_SIZE_def)
  show ?thesis
  proof (cases "xr_len (tx v) + unat BATCH_SIZE \<le> unat (xr_size (tx v))")
    case True
    obtain r where r: "xsk_ring_prod__reserve (tx v) BATCH_SIZE 0 = (BATCH_SIZE, xr_producer (tx v), r)" "xr_prod_ok (unat BATCH_SIZE) r"
        "xr_entries r = xr_entries (tx v)" "xr_producer r = xr_producer (tx v)" "xr_size r = xr_size (tx v)" "xr_len r = xr_len (tx v)"
      using reserve_succeeds [OF tx_stateD(1) [OF v] True] by metis
    have s: "tx_state first_frames 64 0 (set_tx r v)" using v r by (simp add: tx_state_def set_rings b)
    define u where "u = tx_batch E 64 (xr_producer (tx v)) 0 (set_tx r v)"
    have u: "tx_state first_frames 64 0 u" "xr_reserved 64 (tx u) = map batch_desc [0..<64]"
      using tx_batch_writes [OF K s, of 0 64] r(4) by (auto simp: u_def set_rings)
    define t where "t = kernel_turn E u"
    have t: "tx_state first_frames 64 0 t" "xr_reserved 64 (tx t) = map batch_desc [0..<64]"
      using kernel_turn_keeps_tx [OF K u(1)] u(2) by (auto simp: t_def tx_untouched_def)
    have ok: "xr_geometry (tx t)" "xr_len (tx t) + 64 \<le> unat (xr_size (tx t))" using tx_stateD(1) [OF t(1)] by (auto simp: xr_prod_ok_def)
    define z where "z = set_tx (xsk_ring_prod__submit (tx t) BATCH_SIZE) t"
    define q where "q = z\<lparr>xw_xsk := (xw_xsk z)\<lparr>xs_outstanding_tx := xs_outstanding_tx (xw_xsk z) + BATCH_SIZE\<rparr>\<rparr>"
    have e: "xr_entries (xsk_ring_prod__submit (tx t) BATCH_SIZE) = xr_entries (tx t) @ map batch_desc [0..<64]"
      "xr_len (xsk_ring_prod__submit (tx t) BATCH_SIZE) = xr_len (tx t) + 64"
      "xr_prod_ok 0 (xsk_ring_prod__submit (tx t) BATCH_SIZE)"
      using xr_entries_submit [OF ok] xr_len_submit [OF ok] xr_prod_ok_submit [OF tx_stateD(1) [OF t(1)]] t(2)
      unfolding b(3) by simp_all
    have "xr_size (xsk_ring_prod__submit (tx t) BATCH_SIZE) = xr_size (tx t)" by (simp add: xsk_ring_prod__submit_def)
    note e = e this
    have out: "unat (xs_outstanding_tx (xw_xsk t)) = xr_len (tx t) + length (xw_sending t) + xr_len (cq t)"
      "length (xw_sending t) + xr_len (cq t) \<le> 2048" "xr_len (tx t) \<le> 2048"
      using t(1) tx_stateD(3) [OF t(1)] by (auto simp: tx_state_def)
    then have "unat (xs_outstanding_tx (xw_xsk t) + BATCH_SIZE) = unat (xs_outstanding_tx (xw_xsk t)) + 64"
      by (simp add: unat_word_ariths b(1))
    moreover have "xd_addr ` set (map batch_desc [0..<64]) \<subseteq> first_frames" by (auto simp: first_frames_def batch_desc_def b(1))
    ultimately have q: "tx_state first_frames 0 0 q" using t(1) e out by (auto simp: tx_state_def q_def z_def set_rings)
    have "tx_only E 0 w = complete_tx_only E q"
      by (simp add: tx_only_def v_def [symmetric] r(1) Let_def b(1) u_def [symmetric] t_def [symmetric] z_def [symmetric] q_def [symmetric])
    then show ?thesis using complete_tx_only_keeps [OF K S q] by simp
  next
    case False
    then obtain r where r: "xsk_ring_prod__reserve (tx v) BATCH_SIZE 0 = (0, 0, r)" "xr_prod_ok 0 r"
        "xr_entries r = xr_entries (tx v)" "xr_size r = xr_size (tx v)" "xr_len r = xr_len (tx v)"
      using reserve_fails [OF tx_stateD(1) [OF v], of BATCH_SIZE] by (metis not_le)
    have "tx_state first_frames 0 0 (set_tx r v)" using v r by (simp add: tx_state_def set_rings)
    moreover have "tx_only E 0 w = complete_tx_only E (set_tx r v)"
      using b(2) by (simp add: tx_only_def v_def [symmetric] r(1) Let_def)
    ultimately show ?thesis using complete_tx_only_keeps [OF K S] by simp
  qed
qed

lemma tx_rounds_keep:
  assumes "kernel_ok E" "sendto_ok E"
  shows "tx_state first_frames 0 0 w \<Longrightarrow> \<exists>w'. tx_rounds E n 0 w = Returns w' \<and> tx_state first_frames 0 0 w'"
proof (induction n arbitrary: w)
  case (Suc n)
  then show ?case using tx_only_keeps [OF assms Suc.prems] by auto
qed simp

lemma gen_frames_frame [simp]: "xw_umem (gen_frames n w) = xw_umem w" "xw_xsk (gen_frames n w) = xw_xsk w"
  "xw_sending (gen_frames n w) = xw_sending w"
  by (induction n) (auto simp: gen_eth_frame_def)


section \<open>An instance\<close>

text \<open>
  A kernel that in each turn takes a frame and delivers a packet in the first frame it holds, and takes
  and completes a descriptor to send.
\<close>

definition some_take :: "xdp_world \<Rightarrow> xdp_world" where
  "some_take w = (if 0 < xr_len (fq w)
     then (set_fq (xsk_ring_cons__release (fq w) 1) w)\<lparr>xw_held :=
       (if unat (hd (xr_entries (fq w))) < umem_size then xw_held w @ [frame_of (hd (xr_entries (fq w)))] else xw_held w)\<rparr>
     else w)"

definition some_deliver :: "xdp_world \<Rightarrow> xdp_world" where
  "some_deliver w =
     (let d = \<lparr>xd_addr = hd (xw_held w) + 256, xd_len = 60\<rparr> in
      if frame_of (xd_addr d) \<in> set (xw_held w) \<and> desc_inside d \<and> xr_len (rx w) < unat (xr_size (rx w))
      then (set_rx (xsk_ring_prod__submit (xsk_ring_set (rx w) (xr_producer (rx w)) d) 1) w)
        \<lparr>xw_held := remove1 (frame_of (xd_addr d)) (xw_held w), xw_delivered := xw_delivered w @ [packet_at (xw_buffer w) d]\<rparr>
      else w)"

definition some_send :: "xdp_world \<Rightarrow> xdp_world" where
  "some_send w = (if 0 < xr_len (tx w) \<and> length (xw_sending w) + xr_len (cq w) < unat (xr_size (cq w))
     then (set_tx (xsk_ring_cons__release (tx w) 1) w)\<lparr>xw_sending := xw_sending w @ [xd_addr (hd (xr_entries (tx w)))]\<rparr>
     else w)"

definition empty_ring :: "bool \<Rightarrow> 'a \<Rightarrow> 'a xsk_ring" where
  "empty_ring produce x = \<lparr>xr_cached_prod = 0, xr_cached_cons = (if produce then 2048 else 0), xr_mask = 2047, xr_size = 2048,
     xr_producer = 0, xr_consumer = 0, xr_ring = replicate 2048 x, xr_flags = 1\<rparr>"

definition some_env :: xdp_env where
  "some_env = \<lparr>xe_turn = (\<lambda>n w. some_send (some_deliver (some_take w))), xe_sendto = (\<lambda>n. (0, 0)),
     xe_link_id = (\<lambda>n. (0, 7)), xe_ifindex = 3, xe_mmap = True, xe_calloc_umem = True, xe_calloc_xsk = True,
     xe_umem_create = (0, empty_ring True 0, empty_ring False 0),
     xe_socket_create = (0, empty_ring False \<lparr>xd_addr = 0, xd_len = 0\<rparr>, empty_ring True \<lparr>xd_addr = 0, xd_len = 0\<rparr>)\<rparr>"

definition some_world :: xdp_world where
  "some_world = \<lparr>xw_umem = \<lparr>um_fq = empty_ring True 0, um_cq = empty_ring False 0\<rparr>,
     xw_xsk = \<lparr>xs_rx = empty_ring False \<lparr>xd_addr = 0, xd_len = 0\<rparr>, xs_tx = empty_ring True \<lparr>xd_addr = 0, xd_len = 0\<rparr>,
       xs_rx_npkts = 0, xs_tx_npkts = 0, xs_outstanding_tx = 0\<rparr>,
     xw_buffer = (\<lambda>x. 0), xw_ifindex = 0, xw_prog_id = 0, xw_out = [], xw_calls = [], xw_turn = 0,
     xw_held = [], xw_sending = [], xw_delivered = []\<rparr>"

lemma some_kernel_ok: "kernel_ok some_env"
proof -
  have "kernel_step\<^sup>*\<^sup>* w (some_take w)" for w
    unfolding some_take_def using r_into_rtranclp [of kernel_step, OF kernel_step.take_frame [of w]]
    by (cases "0 < xr_len (fq w)") (simp_all only: if_True if_False rtranclp.rtrancl_refl)
  moreover have "kernel_step\<^sup>*\<^sup>* w (some_deliver w)" for w
    using kernel_step.deliver [of "\<lparr>xd_addr = hd (xw_held w) + 256, xd_len = 60\<rparr>" w]
    by (auto simp: some_deliver_def Let_def)
  moreover have "kernel_step\<^sup>*\<^sup>* w (some_send w)" for w
    by (auto simp: some_send_def intro!: r_into_rtranclp kernel_step.send_frame)
  ultimately have "kernel_step\<^sup>*\<^sup>* w (some_send (some_deliver (some_take w)))" for w
    by (meson rtranclp_trans)
  then show ?thesis by (simp add: kernel_ok_def some_env_def)
qed

lemma empty_ring_fresh: "fresh_ring b (empty_ring b x)"
  by (simp add: fresh_ring_def empty_ring_def)

lemma some_libraries_ok: "libraries_ok some_env"
  by (simp add: libraries_ok_def some_env_def empty_ring_fresh)


section \<open>Properties\<close>

text \<open>
  C24.  Frames are never lost or owned twice.  However the kernel interleaves with the program, every
  number of rounds of the receiving loop is completed: the loop that waits for room in the FILL ring
  never turns, nothing ends the program and no packet is read outside the memory.  Afterwards each of
  the 2048 frames handed out at the start is in exactly one place: on the FILL ring, with the kernel,
  or on the RX ring.
\<close>

theorem xdp_frames_owned_once:
  assumes "kernel_ok E" "libraries_ok E" "xw_held w = []" "xw_delivered w = []" "xw_out w = []"
  shows "\<exists>w'. xdp_main E fuel n w = Returns w'
    \<and> mset (map frame_of (xr_entries (fq w'))) + mset (xw_held w')
        + mset (map (\<lambda>d. frame_of (xd_addr d)) (xr_entries (rx w')))
      = mset (map (\<lambda>i. of_nat (i * opt_xsk_frame_size)) [0..<XSK_RING_DEFAULT_NUM_DESCS])"
proof -
  obtain v where v: "xdp_main E fuel n w = rx_rounds E fuel n v" "rx_state 0 0 0 0 v"
    using xdp_starts [OF assms(2-5)] by metis
  then show ?thesis
    using rx_rounds_return [OF assms(1) v(2), of fuel n] by (auto simp: rx_state_def frames_kept_def all_frames_def)
qed

theorem xdp_frames_owned_once_witness:
  "kernel_ok some_env \<and> libraries_ok some_env \<and> (\<exists>w'. xdp_main some_env 0 3 some_world = Returns w'
    \<and> mset (map frame_of (xr_entries (fq w'))) + mset (xw_held w')
        + mset (map (\<lambda>d. frame_of (xd_addr d)) (xr_entries (rx w')))
      = mset (map (\<lambda>i. of_nat (i * opt_xsk_frame_size)) [0..<XSK_RING_DEFAULT_NUM_DESCS]))"
proof -
  have "xw_held some_world = []" "xw_delivered some_world = []" "xw_out some_world = []" by (simp_all add: some_world_def)
  then show ?thesis
    using xdp_frames_owned_once [OF some_kernel_ok some_libraries_ok] some_kernel_ok some_libraries_ok by blast
qed

text \<open>
  C25.  What the program shows is what the kernel delivered: after any number of rounds its output is
  the list of the delivered packets in the order of delivery, without those that still wait on the RX
  ring; none is lost, repeated or changed by later packets.
\<close>

theorem xdp_shows_delivered:
  assumes "kernel_ok E" "libraries_ok E" "xw_held w = []" "xw_delivered w = []" "xw_out w = []"
  shows "\<exists>w' shown. xdp_main E fuel n w = Returns w' \<and> xw_out w' = concat (map show_packet shown)
    \<and> xw_delivered w' = shown @ map (packet_at (xw_buffer w')) (xr_entries (rx w'))"
proof -
  obtain v where v: "xdp_main E fuel n w = rx_rounds E fuel n v" "rx_state 0 0 0 0 v"
    using xdp_starts [OF assms(2-5)] by metis
  then show ?thesis
    using rx_rounds_return [OF assms(1) v(2), of fuel n] by (auto simp: rx_state_def shown_packets_def)
qed

theorem xdp_shows_delivered_witness:
  "kernel_ok some_env \<and> libraries_ok some_env \<and>
   (\<exists>w' shown. xdp_main some_env 0 3 some_world = Returns w' \<and> xw_out w' = concat (map show_packet shown)
    \<and> xw_delivered w' = shown @ map (packet_at (xw_buffer w')) (xr_entries (rx w')))"
proof -
  have "xw_held some_world = []" "xw_delivered some_world = []" "xw_out some_world = []" by (simp_all add: some_world_def)
  then show ?thesis
    using xdp_shows_delivered [OF some_kernel_ok some_libraries_ok] some_kernel_ok some_libraries_ok by blast
qed

text \<open>
  C26.  The sending loop sends only the first 64 of the 4096 frames it prepares: \<open>tx_only\<close> advances a
  copy of the frame number, so every batch starts at frame 0.  The counter of outstanding packets is
  exact: queued, in the kernel or completed and not yet counted.
\<close>

theorem xdp_tx_sends_first_frames:
  assumes "kernel_ok E" "sendto_ok E" "fresh_ring True (tx w)" "fresh_ring False (cq w)"
    "xw_sending w = []" "xs_outstanding_tx (xw_xsk w) = 0"
  shows "\<exists>w'. xdp_tx E n w = Returns w'
    \<and> xd_addr ` set (xr_entries (tx w')) \<union> set (xw_sending w') \<union> set (xr_entries (cq w'))
        \<subseteq> (\<lambda>i. of_nat (i * opt_xsk_frame_size)) ` {0..<unat BATCH_SIZE}
    \<and> unat (xs_outstanding_tx (xw_xsk w')) = xr_len (tx w') + length (xw_sending w') + xr_len (cq w')"
proof -
  have "tx_state first_frames 0 0 (gen_frames NUM_FRAMES w)"
    using assms fresh_ok [of "tx w"] fresh_ok [of "cq w"] fresh_geometry [of True "tx w"] fresh_geometry [of False "cq w"]
    by (simp add: tx_state_def fresh_ring_def)
  then obtain w' where "xdp_tx E n w = Returns w'" "tx_state first_frames 0 0 w'"
    using tx_rounds_keep [OF assms(1,2), of "gen_frames NUM_FRAMES w" n] unfolding xdp_tx_def by blast
  then show ?thesis by (simp add: tx_state_def first_frames_def)
qed

theorem xdp_tx_sends_first_frames_witness:
  "kernel_ok some_env \<and> sendto_ok some_env \<and> (\<exists>w'. xdp_tx some_env 2 some_world = Returns w'
    \<and> xd_addr ` set (xr_entries (tx w')) \<union> set (xw_sending w') \<union> set (xr_entries (cq w'))
        \<subseteq> (\<lambda>i. of_nat (i * opt_xsk_frame_size)) ` {0..<unat BATCH_SIZE}
    \<and> unat (xs_outstanding_tx (xw_xsk w')) = xr_len (tx w') + length (xw_sending w') + xr_len (cq w'))"
proof -
  have S: "sendto_ok some_env" by (simp add: sendto_ok_def some_env_def)
  have "fresh_ring True (tx some_world)" "fresh_ring False (cq some_world)" by (simp_all add: some_world_def empty_ring_fresh)
  moreover have "xw_sending some_world = []" "xs_outstanding_tx (xw_xsk some_world) = 0" by (simp_all add: some_world_def)
  ultimately show ?thesis
    using xdp_tx_sends_first_frames [OF some_kernel_ok S] some_kernel_ok S by blast
qed

end
