(* ===== verification/Node_Ownership.thy ===== *)
theory Node_Ownership
  imports Proto_Lemmas
begin

text \<open>
  Session nodes of the devices (\<open>src/include/dev.h\<close>, \<open>src/src/session_pool.c\<close>) over the life of
  sessions: a node is free in at most one device or belongs to one session.  Creating and deleting
  sessions keep this, on the successful and on every failing path; it is what lets a later deletion
  follow the pointers from session to node and back.
\<close>

section \<open>Free nodes\<close>

definition unused_nodes :: "backend \<Rightarrow> nat list" where
  "unused_nodes st = concat (map hd_free_node_queue (be_dev_set (st_eng st)))"

definition owns_node :: "backend \<Rightarrow> nat \<Rightarrow> bool" where
  "owns_node st p \<longleftrightarrow>
     (\<exists>s n. st_sess st p = Some s \<and> bs_eng s \<and> bs_sess_node s = Some n \<and> st_node st n = Some (Some p))"

definition nodes_ok :: "backend \<Rightarrow> bool" where
  "nodes_ok st \<longleftrightarrow> length (be_dev_set (st_eng st)) = MAX_HS_DEV_NUM \<and> distinct (unused_nodes st)
     \<and> (\<forall>n \<in> set (unused_nodes st). st_node st n = Some None)
     \<and> (\<forall>i p. high_speed_search_sess st i = Some p \<longrightarrow> owns_node st p)"

lemma mset_concat_update:
  "i < length xs \<Longrightarrow>
   mset (concat (map f (xs[i := x]))) + mset (f (xs ! i)) = mset (concat (map f xs)) + mset (f x)"
proof (induction xs arbitrary: i)
  case (Cons y ys)
  then show ?case by (cases i) (auto simp: add.assoc add.commute add.left_commute)
qed simp

lemma unused_nodes_put_dev:
  assumes "i < length (be_dev_set (st_eng st))"
  shows "mset (unused_nodes (put_dev i d st)) + mset (hd_free_node_queue (get_dev i st))
    = mset (unused_nodes st) + mset (hd_free_node_queue d)"
  using mset_concat_update [OF assms, of hd_free_node_queue d]
  by (simp add: unused_nodes_def put_dev_def get_dev_def)

lemma unused_nodes_cong: "be_dev_set (st_eng st') = be_dev_set (st_eng st) \<Longrightarrow> unused_nodes st' = unused_nodes st"
  by (simp add: unused_nodes_def)

text \<open>The facts about nodes depend on the free nodes as a multiset only.\<close>

lemma nodes_okI:
  assumes "length (be_dev_set (st_eng st)) = MAX_HS_DEV_NUM" "mset (unused_nodes st) = mset ns" "distinct ns"
    and "\<And>n. n \<in> set ns \<Longrightarrow> st_node st n = Some None"
    and "\<And>i p. high_speed_search_sess st i = Some p \<Longrightarrow> owns_node st p"
  shows "nodes_ok st"
  using assms mset_eq_setD [OF assms(2)] mset_eq_imp_distinct_iff [OF assms(2)] by (auto simp: nodes_ok_def)

lemma get_dev_free: "i < length (be_dev_set (st_eng st)) \<Longrightarrow> n \<in> set (hd_free_node_queue (get_dev i st)) \<Longrightarrow> n \<in> set (unused_nodes st)"
  by (auto simp: unused_nodes_def get_dev_def)

text \<open>An opened session names a device of the array.\<close>

lemma open_session_device:
  assumes "open_session c r orc para st = Some (Inr (dev_id, i, fd), st1)"
  shows "unat dev_id < MAX_HS_DEV_NUM"
  using assms unfolding open_session_def Let_def
  by (auto simp: GET_NS_ID_def split: if_splits prod.splits option.splits bind_splits)


section \<open>Creation\<close>

definition same_switches :: "backend \<Rightarrow> backend \<Rightarrow> bool" where
  "same_switches st st' \<longleftrightarrow> sp_engine (st_pool st') = sp_engine (st_pool st) \<and> sp_ops (st_pool st') = sp_ops (st_pool st)
     \<and> be_sess_pool (st_eng st') = be_sess_pool (st_eng st) \<and> be_ops (st_eng st') = be_ops (st_eng st)"

text \<open>All a failing creation took is back, except the session memory \<open>p\<close> and the id.\<close>

definition given_back :: "nat \<Rightarrow> u16 list \<Rightarrow> backend \<Rightarrow> backend \<Rightarrow> bool" where
  "given_back p ids st st' \<longleftrightarrow> st_pool st' = (st_pool st)\<lparr>sp_id_queue := ids\<rparr> \<and> (\<forall>q. q \<noteq> p \<longrightarrow> st_sess st' q = st_sess st q)
     \<and> be_tx (st_eng st') = be_tx (st_eng st) \<and> be_sess_pool (st_eng st') = be_sess_pool (st_eng st)
     \<and> be_ops (st_eng st') = be_ops (st_eng st) \<and> st_node st' = st_node st
     \<and> length (be_dev_set (st_eng st')) = length (be_dev_set (st_eng st)) \<and> mset (unused_nodes st') = mset (unused_nodes st)"

text \<open>
  A creation that failed, and one that succeeded, with the answer the frontend gets.
\<close>

definition not_created :: "u16 \<Rightarrow> u16 \<Rightarrow> SessMsgPara \<Rightarrow> backend \<Rightarrow> backend \<Rightarrow> bool" where
  "not_created cap bs para st st' \<longleftrightarrow> pool_inv st' \<and> nodes_ok st' \<and> tx_ok cap bs (be_tx (st_eng st')) \<and> same_switches st st'
     \<and> st_sess st' = st_sess st \<and> sp_htable (st_pool st') = sp_htable (st_pool st)
     \<and> sp_id_queue (st_pool st') = rotate1 (sp_id_queue (st_pool st))
     \<and> (\<exists>resp pad. ro_status resp \<noteq> SESS_OP_STATUS_SUCCESS \<and> tx_blocks (be_tx (st_eng st')) = tx_blocks (be_tx (st_eng st)) @
          [sess_response_bytes (sm_frontend_sess_id para) BACKEND_HANDOVER_SESSION_ID (sm_ip_version para) SESS_MSG_CREATE resp @ pad])"

lemma search_cong: "sp_htable (st_pool st') = sp_htable (st_pool st) \<Longrightarrow> high_speed_search_sess st' = high_speed_search_sess st"
  by (simp add: high_speed_search_sess_def fun_eq_iff)

lemma create_error_not_created:
  assumes inv: "pool_inv st" "nodes_ok st" "tx_ok cap bs (be_tx (st_eng st))" "st_sess st p = None"
      "tx_room cap (be_tx (st_eng st))" and resp: "ro_status resp \<noteq> SESS_OP_STATUS_SUCCESS"
    and al: "allocate_id (sp_id_queue (st_pool st)) = (i, ids)" and gb: "given_back p ids st st1"
  shows "\<exists>st'. create_sess_error para resp (Some p) i fd st1 = Some (BACKEND_PROXY_PROCESS_ERROR, st') \<and> not_created cap bs para st st'"
proof -
  have "tx_ok cap bs (be_tx (st_eng st1))" using inv(3) gb by (simp add: given_back_def)
  from create_sess_error_spec [OF this, of para resp "Some p" i fd] obtain t where
    T: "create_sess_error para resp (Some p) i fd st1 = Some (BACKEND_PROXY_PROCESS_ERROR, given_up (Some p) i fd (put_tx t st1))"
      "tx_ok cap bs t" "\<exists>pad. tx_blocks t = tx_blocks (be_tx (st_eng st)) @ [sess_response_bytes (sm_frontend_sess_id para)
         BACKEND_HANDOVER_SESSION_ID (sm_ip_version para) SESS_MSG_CREATE resp @ pad]"
    using gb inv(5) by (auto simp: given_back_def)
  define st' where "st' = given_up (Some p) i fd (put_tx t st1)"
  note A = pool_inv_alloc [OF inv(1) al]
  have pool: "st_pool st' = (if i = 0 then st_pool st else (st_pool st)\<lparr>sp_id_queue := ids @ [i]\<rparr>)"
    using gb A by (auto simp: st'_def given_back_def put_tx_def)
  have sess: "st_sess st' = st_sess st" using gb inv(4) by (auto simp: st'_def given_back_def)
  have tbl: "sp_htable (st_pool st') = sp_htable (st_pool st)" "sp_id_queue (st_pool st') = rotate1 (sp_id_queue (st_pool st))"
    unfolding pool using A by auto
  have eng: "be_tx (st_eng st') = t" "be_dev_set (st_eng st') = be_dev_set (st_eng st1)" "st_node st' = st_node st"
    using gb by (auto simp: st'_def given_back_def put_tx_def put_node_def)
  have "pool_inv st'" by (rule pool_inv_rotate [OF inv(1) al pool]) (simp add: sess)
  moreover have "nodes_ok st'"
    using inv(2) gb unused_nodes_cong [OF eng(2)]
    by (intro nodes_okI [where ns = "unused_nodes st"])
      (auto simp: nodes_ok_def given_back_def eng owns_node_def sess search_cong [OF tbl(1)])
  moreover have "same_switches st st'"
    using gb A unfolding same_switches_def pool by (auto simp: st'_def given_back_def put_tx_def)
  ultimately have "not_created cap bs para st st'" using T(2,3) resp eng(1) sess tbl unfolding not_created_def by blast
  then show ?thesis using T(1) by (simp add: st'_def)
qed

text \<open>A device whose first free node went and came back.\<close>

lemma unused_nodes_round_trip:
  assumes "dev < length (be_dev_set (st_eng st))" "hd_free_node_queue (get_dev dev st) = n # free"
    and "be_dev_set (st_eng st') = (be_dev_set (st_eng st))[dev := d]" "hd_free_node_queue d = free @ [n]"
  shows "mset (unused_nodes st') = mset (unused_nodes st)"
proof -
  have "unused_nodes st' = unused_nodes (put_dev dev d st)" by (rule unused_nodes_cong) (simp add: assms(3) put_dev_def)
  then show ?thesis using unused_nodes_put_dev [OF assms(1), of d] assms(2,4) by simp
qed

lemma remove_keeps_free:
  "HIGH_SPEED_NET_DEV_REMOVE_SESSION_NODE d n s proto = (d', s') \<Longrightarrow> hd_free_node_queue d' = hd_free_node_queue d"
  by (auto simp: HIGH_SPEED_NET_DEV_REMOVE_SESSION_NODE_def split: option.splits if_splits)

lemma recycle_gives_back:
  assumes dev: "dev < length (be_dev_set (st_eng st))" "hd_free_node_queue (get_dev dev st) = n # free" "st_node st n = Some None"
    and st1: "be_dev_set (st_eng st1) = (be_dev_set (st_eng st))[dev := dx]" "hd_free_node_queue dx = free"
      "st_sess st1 = (st_sess st)(p := Some sx)" "st_pool st1 = st_pool st" "be_tx (st_eng st1) = be_tx (st_eng st)"
      "be_sess_pool (st_eng st1) = be_sess_pool (st_eng st)" "be_ops (st_eng st1) = be_ops (st_eng st)"
      "st_node st1 = (st_node st)(n := x)"
  shows "\<exists>st2. recycle_sess_node dev n p st1 = Some st2 \<and> given_back p (sp_id_queue (st_pool st)) st st2"
proof -
  obtain d2 s2 where R: "HIGH_SPEED_NET_DEV_REMOVE_SESSION_NODE (get_dev dev st1) n (Some sx) (bs_proto_type sx) = (d2, s2)"
    by (metis surj_pair)
  have "get_dev dev st1 = dx" using dev(1) st1(1) by (simp add: get_dev_def)
  then have d2: "hd_free_node_queue d2 = free" using remove_keeps_free [OF R] st1(2) by simp
  define st2 where "st2 = put_dev dev (HIGH_SPEED_NET_DEV_PUSH_FREE_SESSION_NODE d2 (Some n))
      (put_node n None (put_sess p ((the s2)\<lparr>bs_sess_node := None\<rparr>) st1))"
  have run: "recycle_sess_node dev n p st1 = Some st2"
    using st1(3) R by (simp add: recycle_sess_node_def st2_def)
  have devs: "be_dev_set (st_eng st2) = (be_dev_set (st_eng st))[dev := HIGH_SPEED_NET_DEV_PUSH_FREE_SESSION_NODE d2 (Some n)]"
    using st1(1) by (simp add: st2_def put_dev_def put_node_def put_sess_def)
  have "mset (unused_nodes st2) = mset (unused_nodes st)"
    using dev(1,2) devs by (rule unused_nodes_round_trip) (simp add: HIGH_SPEED_NET_DEV_PUSH_FREE_SESSION_NODE_def d2)
  moreover have "st_node st2 = st_node st"
    using st1(8) dev(3) by (auto simp: st2_def put_dev_def put_node_def put_sess_def)
  ultimately have "given_back p (sp_id_queue (st_pool st)) st st2"
    using st1(3-7) devs by (auto simp: given_back_def) (auto simp: st2_def put_dev_def put_node_def put_sess_def)
  then show ?thesis using run by blast
qed


definition created :: "u16 \<Rightarrow> u16 \<Rightarrow> SessMsgPara \<Rightarrow> nat \<Rightarrow> backend \<Rightarrow> backend \<Rightarrow> bool" where
  "created cap bs para p st st' \<longleftrightarrow> pool_inv st' \<and> nodes_ok st' \<and> tx_ok cap bs (be_tx (st_eng st')) \<and> same_switches st st'
     \<and> (\<exists>i s. sp_id_queue (st_pool st) = i # sp_id_queue (st_pool st')
         \<and> high_speed_search_sess st' = (high_speed_search_sess st)(i \<mapsto> p) \<and> st_sess st' = (st_sess st)(p \<mapsto> s)
         \<and> bs_frontend_sess_id s = sm_frontend_sess_id para \<and> bs_msg_f2b s = []
         \<and> (\<exists>pad. tx_blocks (be_tx (st_eng st')) = tx_blocks (be_tx (st_eng st)) @
               [sess_response_bytes (sm_frontend_sess_id para) i (sm_ip_version para) SESS_MSG_CREATE success_resp @ pad]))"

lemma nodes_ok_entered:
  assumes ok: "nodes_ok st" and dev: "dev < MAX_HS_DEV_NUM" "hd_free_node_queue (get_dev dev st) = n # free"
    and st': "be_dev_set (st_eng st') = (be_dev_set (st_eng st))[dev := d]" "hd_free_node_queue d = free"
      "st_node st' = (st_node st)(n := Some (Some p))" "st_sess st' = (st_sess st)(p \<mapsto> s)"
      "high_speed_search_sess st' = (high_speed_search_sess st)(i \<mapsto> p)"
    and s: "bs_sess_node s = Some n" "bs_eng s" and p: "st_sess st p = None"
  shows "nodes_ok st'"
proof -
  have len: "dev < length (be_dev_set (st_eng st))" using ok dev(1) by (simp add: nodes_ok_def)
  have "unused_nodes st' = unused_nodes (put_dev dev d st)" by (rule unused_nodes_cong) (simp add: st'(1) put_dev_def)
  then have ms: "mset (unused_nodes st) = add_mset n (mset (unused_nodes st'))"
    using unused_nodes_put_dev [OF len, of d] dev(2) st'(2) by simp
  then have "mset (unused_nodes st) = mset (n # unused_nodes st')" by simp
  then have dist: "distinct (n # unused_nodes st')" and set: "set (unused_nodes st) = set (n # unused_nodes st')"
    using ok mset_eq_imp_distinct_iff mset_eq_setD unfolding nodes_ok_def by blast+
  have free: "st_node st m = Some None" if "m \<in> set (unused_nodes st)" for m using ok that by (simp add: nodes_ok_def)
  have own: "owns_node st' q" if "high_speed_search_sess st' j = Some q" for j q
  proof (cases "q = p")
    case True
    then show ?thesis using st'(3,4) s by (auto simp: owns_node_def)
  next
    case False
    then have "high_speed_search_sess st j = Some q" using that st'(5) by (auto split: if_splits)
    then have "owns_node st q" using ok by (auto simp: nodes_ok_def)
    then obtain t m where t: "st_sess st q = Some t" "bs_eng t" "bs_sess_node t = Some m" "st_node st m = Some (Some q)"
      by (auto simp: owns_node_def)
    then have "m \<noteq> n" using free [of n] set by auto
    then show ?thesis using t False st'(3,4) by (auto simp: owns_node_def)
  qed
  show ?thesis
  proof (rule nodes_okI [OF _ refl])
    show "length (be_dev_set (st_eng st')) = MAX_HS_DEV_NUM" using ok st'(1) by (simp add: nodes_ok_def)
    show "distinct (unused_nodes st')" using dist by simp
    show "st_node st' m = Some None" if "m \<in> set (unused_nodes st')" for m
      using that dist free [of m] set st'(3) by auto
  qed (rule own)
qed

lemma create_answered:
  assumes R: "active_reaches_answer orc para st p mem0 dev_id i fd n free st1"
    and tx: "tx_ok cap bs (be_tx (st_eng st))" "tx_room cap (be_tx (st_eng st))" and ok: "nodes_ok st"
  shows "\<exists>st'. high_speed_create_sess_active orc para st = Some (BACKEND_PROXY_PROCESS_OK, Some p, st')
    \<and> created cap bs para p st st'"
proof -
  define st2 where "st2 = put_sess p (active_sess para i fd mem0) st1"
  define d where "d = (get_dev (unat dev_id) st2)\<lparr>hd_free_node_queue := free\<rparr>"
  note D = active_reaches_answerD [OF R st2_def d_def]
  define s0 where "s0 = active_sess para i fd mem0"
  define e where "e = entered (unat dev_id) p n s0 d st2"
  have node1: "st_node st1 = st_node st" and dev: "unat dev_id < MAX_HS_DEV_NUM" "hd_free_node_queue (get_dev (unat dev_id) st) = n # free"
    and p: "st_sess st p = None"
  proof -
    note A = R [unfolded active_reaches_answer_def]
    obtain j ids where "allocate_id (sp_id_queue (st_pool (put_sess p mem0 st))) = (j, ids)" by (metis surj_pair)
    with open_session_frame A have "same_but_ids ids (put_sess p mem0 st) st1" by fastforce
    then show "st_node st1 = st_node st" by (simp add: same_but_ids_def put_sess_def)
    show "unat dev_id < MAX_HS_DEV_NUM" using A open_session_device by blast
    show "hd_free_node_queue (get_dev (unat dev_id) st) = n # free" "st_sess st p = None" using A by auto
  qed
  have "sends cap bs (sess_response_bytes (sm_frontend_sess_id para) i (sm_ip_version para)
      SESS_MSG_CREATE success_resp) e (send_session_response p SESS_MSG_CREATE success_resp e)"
    using send_session_response_spec [of cap bs e p "linked_sess n s0" SESS_MSG_CREATE success_resp] tx(1) D(1)
    by (simp add: IS_VALID_SESS_MSG_TYPE_def e_def s0_def)
  then obtain t where T: "send_session_response p SESS_MSG_CREATE success_resp e = Some (BACKEND_PROXY_PROCESS_OK, put_tx t e)"
      "tx_ok cap bs t"
    using tx(2) D(1) unfolding sends_def by (auto simp: e_def)
  have run: "high_speed_create_sess_active orc para st = Some (BACKEND_PROXY_PROCESS_OK, Some p, put_tx t e)"
    unfolding D(7) s0_def [symmetric] e_def [symmetric] T(1) by simp
  obtain st' where C: "high_speed_create_sess_active orc para st = Some (BACKEND_PROXY_PROCESS_OK, Some p, st')"
    "pool_inv st'" "sp_id_queue (st_pool st) = i # sp_id_queue (st_pool st')"
    "high_speed_search_sess st' = (high_speed_search_sess st)(i \<mapsto> p)"
    "\<exists>pad. tx_blocks (be_tx (st_eng st')) = tx_blocks (be_tx (st_eng st)) @
        [sess_response_bytes (sm_frontend_sess_id para) i (sm_ip_version para) SESS_MSG_CREATE success_resp @ pad]"
    using create_active_spec [OF R tx] by blast
  have st': "st' = put_tx t e" using C(1) run by simp
  have sess: "st_sess st' = (st_sess st)(p \<mapsto> linked_sess n s0)" using D(2) by (simp add: st' e_def)
  have devs: "be_dev_set (st_eng st') = (be_dev_set (st_eng st))[unat dev_id := dev_with_node (bs_proto_type s0) n d]"
    using D(1) by (simp add: st' e_def entered_def Let_def state_upds)
  have "nodes_ok st'"
  proof (rule nodes_ok_entered [OF ok dev devs _ _ sess C(4) _ _ p])
    show "hd_free_node_queue (dev_with_node (bs_proto_type s0) n d) = free" by (simp add: dev_with_node_def d_def)
    show "st_node st' = (st_node st)(n := Some (Some p))"
      using node1 by (simp add: st' e_def entered_def Let_def state_upds st2_def)
  qed (simp_all add: s0_def)
  moreover have "same_switches st st'"
    using D(1) arg_cong [OF D(5), of sp_engine] arg_cong [OF D(5), of sp_ops]
    by (simp add: same_switches_def st' e_def entered_def Let_def state_upds inc_sess_num_def)
  moreover have "tx_ok cap bs (be_tx (st_eng st'))" using T(2) by (simp add: st')
  moreover have "bs_frontend_sess_id (linked_sess n s0) = sm_frontend_sess_id para" "bs_msg_f2b (linked_sess n s0) = []"
    by (simp_all add: s0_def)
  ultimately have "created cap bs para p st st'" unfolding created_def using C(2-5) sess by blast
  then show ?thesis using C(1) by blast
qed


text \<open>The three failures after the connection was opened: no node, no transport, no epoll.\<close>

definition step2_undone :: "sess_oracle \<Rightarrow> SessMsgPara \<Rightarrow> nat \<Rightarrow> u16 \<Rightarrow> u16 \<Rightarrow> int \<Rightarrow> backend \<Rightarrow> bool" where
  "step2_undone orc para p dev_id i fd st \<longleftrightarrow> (\<exists>resp st'. active_step2 orc para p dev_id i fd st
      = map_option (\<lambda>(ret, st'). (ret, None, st')) (create_sess_error para resp (Some p) i fd st')
    \<and> ro_status resp \<noteq> SESS_OP_STATUS_SUCCESS \<and> given_back p (sp_id_queue (st_pool st)) st st')"

lemma step2_no_node:
  assumes "hd_free_node_queue (get_dev (unat dev_id) st) = []"
  shows "step2_undone orc para p dev_id i fd st"
proof -
  have "put_dev (unat dev_id) (get_dev (unat dev_id) st) st = st" by (simp add: put_dev_def get_dev_def)
  then have "active_step2 orc para p dev_id i fd st = map_option (\<lambda>(ret, st'). (ret, None, st'))
      (create_sess_error para (fail_resp SESS_OP_CODE_RESOURCE_INSUFFICIENT) (Some p) i fd st)"
    using assms by (simp add: active_step2_def HIGH_SPEED_NET_DEV_POP_FREE_SESSION_NODE_def)
  moreover have "given_back p (sp_id_queue (st_pool st)) st st" by (simp add: given_back_def)
  moreover have "ro_status (fail_resp SESS_OP_CODE_RESOURCE_INSUFFICIENT) \<noteq> SESS_OP_STATUS_SUCCESS"
    by (simp add: fail_resp_def sess_op_codes)
  ultimately show ?thesis unfolding step2_undone_def by blast
qed

text \<open>The device without the popped node, and the session that got it.\<close>

definition popped :: "nat list \<Rightarrow> HighSpeedNetDevice \<Rightarrow> HighSpeedNetDevice" where
  "popped free dev = dev\<lparr>hd_free_node_queue := free\<rparr>"

definition with_node :: "nat \<Rightarrow> BackendSession \<Rightarrow> BackendSession" where
  "with_node n s = s\<lparr>bs_sess_dev_link_state := bs_sess_dev_link_state s AND NOT BACKEND_SESS_LINKED_TO_DEV_NODE, bs_sess_node := Some n\<rparr>"

lemma pop_first: "hd_free_node_queue dev = n # free \<Longrightarrow> HIGH_SPEED_NET_DEV_POP_FREE_SESSION_NODE dev = (Some n, popped free dev)"
  by (simp add: HIGH_SPEED_NET_DEV_POP_FREE_SESSION_NODE_def popped_def)

lemma step2_no_transport:
  assumes len: "unat dev_id < length (be_dev_set (st_eng st))" and dev: "hd_free_node_queue (get_dev (unat dev_id) st) = n # free"
    and n: "st_node st n = Some None" and s0: "st_sess st p = Some s0"
    and proto: "bs_proto_type s0 \<noteq> uint SESS_UDP_PROTO" "bs_proto_type s0 \<noteq> uint SESS_TCP_PROTO"
  shows "step2_undone orc para p dev_id i fd st"
proof -
  let ?dev = "unat dev_id"
  define d where "d = popped free (get_dev ?dev st)"
  define s1 where "s1 = with_node n s0"
  have ins: "HIGH_SPEED_NET_DEV_INSERT_SESSION_NODE d n (Some s1) (bs_proto_type s0) = (BACKEND_PROXY_PROCESS_ERROR, d, Some s1)"
    using proto by (auto simp: HIGH_SPEED_NET_DEV_INSERT_SESSION_NODE_def)
  define st' where "st' = put_dev ?dev (HIGH_SPEED_NET_DEV_PUSH_FREE_SESSION_NODE d (Some n))
    (put_node n None (put_sess p (s1\<lparr>bs_sess_node := None\<rparr>) (put_dev ?dev d (put_node n (Some p) (put_sess p s1 (put_dev ?dev d st))))))"
  have "active_step2 orc para p dev_id i fd st = map_option (\<lambda>(ret, st'). (ret, None, st'))
      (create_sess_error para (fail_resp SESS_OP_CODE_DEVICE_ERROR) (Some p) i fd st')"
    using s0 ins unfolding active_step2_def pop_first [OF dev]
    by (simp add: d_def [symmetric] with_node_def [symmetric] s1_def [symmetric] Let_def proxy_codes) (simp add: s1_def with_node_def st'_def)
  moreover have "mset (unused_nodes st') = mset (unused_nodes st)"
    by (rule unused_nodes_round_trip [OF len dev, where d = "HIGH_SPEED_NET_DEV_PUSH_FREE_SESSION_NODE d (Some n)"])
      (simp_all add: st'_def state_upds HIGH_SPEED_NET_DEV_PUSH_FREE_SESSION_NODE_def d_def popped_def)
  then have "given_back p (sp_id_queue (st_pool st)) st st'"
    using n by (auto simp: given_back_def) (auto simp: st'_def state_upds)
  moreover have "ro_status (fail_resp SESS_OP_CODE_DEVICE_ERROR) \<noteq> SESS_OP_STATUS_SUCCESS"
    by (simp add: fail_resp_def sess_op_codes)
  ultimately show ?thesis unfolding step2_undone_def by blast
qed

lemma step2_no_epoll:
  assumes len: "unat dev_id < length (be_dev_set (st_eng st))" and dev: "hd_free_node_queue (get_dev (unat dev_id) st) = n # free"
    and n: "st_node st n = Some None" and s0: "st_sess st p = Some s0" "bs_nc_status s0 = EPOLL_REG_STATUS_UNREGISTERED"
    and proto: "bs_proto_type s0 = uint SESS_UDP_PROTO \<or> bs_proto_type s0 = uint SESS_TCP_PROTO" and epoll: "\<not> so_epoll_ok orc"
  shows "step2_undone orc para p dev_id i fd st"
proof -
  let ?dev = "unat dev_id"
  let ?resp = "\<lparr>ro_status = SESS_OP_CODE_RESOURCE_INSUFFICIENT, ro_code = so_uninit_code orc\<rparr>"
  define d where "d = popped free (get_dev ?dev st)"
  define s1 where "s1 = with_node n s0"
  define s2 where "s2 = s1\<lparr>bs_sess_dev_link_state :=
        (bs_sess_dev_link_state s0 AND NOT BACKEND_SESS_LINKED_TO_DEV_NODE) OR BACKEND_SESS_LINKED_TO_DEV_NODE\<rparr>"
  have ins: "HIGH_SPEED_NET_DEV_INSERT_SESSION_NODE d n (Some s1) (bs_proto_type s0) =
      (BACKEND_PROXY_PROCESS_OK, dev_with_node (bs_proto_type s0) n d, Some s2)"
    using proto by (auto simp: HIGH_SPEED_NET_DEV_INSERT_SESSION_NODE_def dev_with_node_def msg_codes s2_def s1_def with_node_def)
  define st2 where "st2 = put_dev ?dev (dev_with_node (bs_proto_type s0) n d) (put_node n (Some p) (put_sess p s2 (put_dev ?dev d st)))"
  define s3 where "s3 = s2\<lparr>bs_nc_events := EPOLLIN, bs_nc_status := EPOLL_REG_STATUS_REGISTERED\<rparr>"
  define st3 where "st3 = emit (Ev_epoll_add (bs_nc_sock_fd s2) EPOLLIN p) (put_sess p s3 st2)"
  have reg: "BACKEND_SESS_REGISTER_EPOLL (so_epoll_ok orc) p EPOLLIN st2 = Some (BACKEND_PROXY_PROCESS_ERROR, st3)"
    using epoll s0(2) by (simp add: BACKEND_SESS_REGISTER_EPOLL_def st2_def st3_def s3_def s2_def s1_def with_node_def)
  have run: "active_step2 orc para p dev_id i fd st = do { st' \<leftarrow> recycle_sess_node ?dev n p st3;
      map_option (\<lambda>(ret, st'). (ret, None, st')) (create_sess_error para ?resp (Some p) i fd st') }"
    using s0(1) ins unfolding active_step2_def pop_first [OF dev]
    by (simp add: d_def [symmetric] with_node_def [symmetric] s1_def [symmetric] Let_def proxy_codes)
      (simp add: s1_def with_node_def reg [unfolded st2_def] proxy_codes)
  have "\<exists>st4. recycle_sess_node ?dev n p st3 = Some st4 \<and> given_back p (sp_id_queue (st_pool st)) st st4"
    by (rule recycle_gives_back [OF len dev n, where dx = "dev_with_node (bs_proto_type s0) n d" and sx = s3])
      (simp_all add: st3_def st2_def state_upds dev_with_node_def d_def popped_def)
  moreover have "ro_status ?resp \<noteq> SESS_OP_STATUS_SUCCESS" by (simp add: sess_op_codes)
  ultimately show ?thesis unfolding step2_undone_def run by (metis (no_types, lifting) bind.bind_lunit)
qed

lemma step2_gives_back:
  assumes ok: "nodes_ok st" and dev: "unat dev_id < MAX_HS_DEV_NUM" and s0: "st_sess st p = Some s0"
    and st: "bs_nc_status s0 = EPOLL_REG_STATUS_UNREGISTERED"
    and fails: "hd_free_node_queue (get_dev (unat dev_id) st) = []
      \<or> bs_proto_type s0 \<noteq> uint SESS_UDP_PROTO \<and> bs_proto_type s0 \<noteq> uint SESS_TCP_PROTO \<or> \<not> so_epoll_ok orc"
  shows "step2_undone orc para p dev_id i fd st"
proof (cases "hd_free_node_queue (get_dev (unat dev_id) st)")
  case Nil
  then show ?thesis by (rule step2_no_node)
next
  case (Cons n free)
  have len: "unat dev_id < length (be_dev_set (st_eng st))" using ok dev by (simp add: nodes_ok_def)
  have "st_node st n = Some None" using ok get_dev_free [OF len, of n] Cons by (auto simp: nodes_ok_def)
  then show ?thesis
    using step2_no_transport [OF len Cons _ s0] step2_no_epoll [OF len Cons _ s0 st] fails Cons by fastforce
qed

lemma open_session_refusal:
  assumes "open_session c r orc para st = Some (Inl (resp, i, fd), st1)" "ro_status r \<noteq> SESS_OP_STATUS_SUCCESS"
  shows "ro_status resp \<noteq> SESS_OP_STATUS_SUCCESS"
  using assms unfolding open_session_def Let_def
  by (auto simp: fail_resp_def sess_op_codes split: if_splits prod.splits option.splits bind_splits)

lemma create_refused:
  assumes inv: "pool_inv st" "nodes_ok st" "tx_ok cap bs (be_tx (st_eng st))" "tx_room cap (be_tx (st_eng st))"
    and on: "sp_engine (st_pool st)" "be_ops (st_eng st)" "sp_ops (st_pool st)"
    and m: "so_malloc orc = Some (p, mem0)" "st_sess st p = None"
    and op: "open_session True \<lparr>ro_status = SESS_OP_CODE_NETWORK_UNREACHABLE, ro_code = so_uninit_code orc\<rparr>
           orc para (put_sess p mem0 st) = Some (opened, st1)"
    and fails: "\<forall>dev_id i fd. opened = Inr (dev_id, i, fd) \<longrightarrow> hd_free_node_queue (get_dev (unat dev_id) st) = []
      \<or> sm_trans_proto para \<noteq> SESS_UDP_PROTO \<and> sm_trans_proto para \<noteq> SESS_TCP_PROTO \<or> \<not> so_epoll_ok orc"
  shows "\<exists>st'. high_speed_create_sess_active orc para st = Some (BACKEND_PROXY_PROCESS_ERROR, None, st') \<and> not_created cap bs para st st'"
proof -
  obtain i ids where al: "allocate_id (sp_id_queue (st_pool st)) = (i, ids)" by (metis surj_pair)
  then have "allocate_id (sp_id_queue (st_pool (put_sess p mem0 st))) = (i, ids)" by simp
  from open_session_frame [OF op this] have F: "same_but_ids ids (put_sess p mem0 st) st1" and i: "opened_id opened = i" by auto
  note err = create_error_not_created [OF inv(1-3) m(2) inv(4) _ al]
  show ?thesis
  proof (cases opened)
    case (Inl x)
    obtain resp fd where x: "x = (resp, i, fd)" using i Inl by (cases x) auto
    have "unused_nodes st1 = unused_nodes st" using F by (intro unused_nodes_cong) (simp add: same_but_ids_def)
    then have "given_back p ids st st1" using F by (auto simp: given_back_def same_but_ids_def put_sess_def)
    moreover have "ro_status resp \<noteq> SESS_OP_STATUS_SUCCESS"
      using open_session_refusal [OF op [unfolded Inl x]] by (simp add: sess_op_codes)
    ultimately have "\<exists>st'. create_sess_error para resp (Some p) i fd st1 = Some (BACKEND_PROXY_PROCESS_ERROR, st') \<and> not_created cap bs para st st'"
      by (intro err)
    then show ?thesis
      using on m(1) op Inl x by (auto simp: high_speed_create_sess_active_def)
  next
    case (Inr x)
    obtain dev_id fd where x: "x = (dev_id, i, fd)" using i Inr by (cases x) auto
    define st2 where "st2 = put_sess p (active_sess para i fd mem0) st1"
    have st2: "st_eng st2 = st_eng st" "st_node st2 = st_node st" "st_pool st2 = (st_pool st)\<lparr>sp_id_queue := ids\<rparr>"
      "\<And>q. q \<noteq> p \<Longrightarrow> st_sess st2 q = st_sess st q"
      using F by (auto simp: st2_def same_but_ids_def put_sess_def)
    have same: "unused_nodes st2 = unused_nodes st" "get_dev d st2 = get_dev d st" for d
      using st2(1) by (simp_all add: unused_nodes_def get_dev_def)
    have "\<not> owns_node st p" using m(2) by (simp add: owns_node_def)
    then have no: "high_speed_search_sess st j \<noteq> Some p" for j using inv(2) by (auto simp: nodes_ok_def)
    have search: "high_speed_search_sess st2 = high_speed_search_sess st" by (rule search_cong) (simp add: st2(3))
    have "owns_node st2 q" if "high_speed_search_sess st2 j = Some q" for j q
    proof -
      have "q \<noteq> p" "owns_node st q" using that no [of j] inv(2) by (auto simp: search nodes_ok_def)
      then show ?thesis using st2(2,4) by (auto simp: owns_node_def)
    qed
    then have ok2: "nodes_ok st2" using inv(2) by (simp add: nodes_ok_def same st2(1,2))
    have dev: "unat dev_id < MAX_HS_DEV_NUM" using op Inr x open_session_device by blast
    have s0: "st_sess st2 p = Some (active_sess para i fd mem0)" "bs_nc_status (active_sess para i fd mem0) = EPOLL_REG_STATUS_UNREGISTERED"
      by (simp_all add: st2_def init_active_sess_def)
    have "hd_free_node_queue (get_dev (unat dev_id) st2) = []
      \<or> bs_proto_type (active_sess para i fd mem0) \<noteq> uint SESS_UDP_PROTO \<and> bs_proto_type (active_sess para i fd mem0) \<noteq> uint SESS_TCP_PROTO
      \<or> \<not> so_epoll_ok orc"
      using fails [rule_format, of dev_id i fd] Inr x by (auto simp: same word_uint_eq_iff)
    from step2_gives_back [OF ok2 dev s0 this, of para i fd, unfolded step2_undone_def] obtain resp st3 where
      S: "active_step2 orc para p dev_id i fd st2 = map_option (\<lambda>(ret, st'). (ret, None, st')) (create_sess_error para resp (Some p) i fd st3)"
        "given_back p (sp_id_queue (st_pool st2)) st2 st3" "ro_status resp \<noteq> SESS_OP_STATUS_SUCCESS" by blast
    from S(2) have "given_back p ids st st3" using st2 same(1) by (auto simp: given_back_def)
    from err [OF S(3) this, of para fd] show ?thesis
      using on m(1) op Inr x S(1) by (auto simp: high_speed_create_sess_active_def st2_def)
  qed
qed

text \<open>An active creation either establishes its session or changes nothing but the order of the free ids.\<close>

lemma create_outcome:
  assumes inv: "pool_inv st" "nodes_ok st" "tx_ok cap bs (be_tx (st_eng st))" "tx_room cap (be_tx (st_eng st))"
    and on: "sp_engine (st_pool st)" "be_ops (st_eng st)" "sp_ops (st_pool st)"
    and m: "so_malloc orc = Some (p, mem0)" "st_sess st p = None"
    and op: "open_session True \<lparr>ro_status = SESS_OP_CODE_NETWORK_UNREACHABLE, ro_code = so_uninit_code orc\<rparr>
           orc para (put_sess p mem0 st) \<noteq> None"
  shows "\<exists>r q st'. high_speed_create_sess_active orc para st = Some (r, q, st')
    \<and> (r = BACKEND_PROXY_PROCESS_OK \<and> created cap bs para p st st'
       \<or> r = BACKEND_PROXY_PROCESS_ERROR \<and> not_created cap bs para st st')"
proof -
  obtain opened st1 where O: "open_session True \<lparr>ro_status = SESS_OP_CODE_NETWORK_UNREACHABLE, ro_code = so_uninit_code orc\<rparr>
      orc para (put_sess p mem0 st) = Some (opened, st1)" using op by auto
  show ?thesis
  proof (cases "\<exists>dev_id i fd n free. opened = Inr (dev_id, i, fd) \<and> hd_free_node_queue (get_dev (unat dev_id) st) = n # free
      \<and> (sm_trans_proto para = SESS_UDP_PROTO \<or> sm_trans_proto para = SESS_TCP_PROTO) \<and> so_epoll_ok orc")
    case True
    then obtain dev_id i fd n free where "active_reaches_answer orc para st p mem0 dev_id i fd n free st1"
      using inv on m O unfolding active_reaches_answer_def by blast
    from create_answered [OF this inv(3,4,2)] show ?thesis by blast
  next
    case False
    then have "\<forall>dev_id i fd. opened = Inr (dev_id, i, fd) \<longrightarrow> hd_free_node_queue (get_dev (unat dev_id) st) = []
      \<or> sm_trans_proto para \<noteq> SESS_UDP_PROTO \<and> sm_trans_proto para \<noteq> SESS_TCP_PROTO \<or> \<not> so_epoll_ok orc"
      by (metis neq_Nil_conv)
    from create_refused [OF inv on m O this] show ?thesis by blast
  qed
qed


section \<open>Deletion\<close>

text \<open>
  A deleted session's node returns to the free nodes of the device the session names, if the session
  names one; otherwise the node stays taken.
\<close>

lemma recycle_on_delete_nodes:
  assumes ok: "length (be_dev_set (st_eng st)) = MAX_HS_DEV_NUM" and s: "st_sess st p = Some s" "bs_sess_node s = Some n"
    and n: "st_node st n = Some (Some p)"
  obtains st' s' where "recycle_on_delete p st = Some st'" "st_sess st' = (st_sess st)(p := Some s')" "st_pool st' = st_pool st"
    "be_tx (st_eng st') = be_tx (st_eng st)" "be_sess_pool (st_eng st') = be_sess_pool (st_eng st)"
    "be_ops (st_eng st') = be_ops (st_eng st)" "length (be_dev_set (st_eng st')) = MAX_HS_DEV_NUM"
    "st_node st' = st_node st \<and> mset (unused_nodes st') = mset (unused_nodes st)
     \<or> st_node st' = (st_node st)(n := Some None) \<and> mset (unused_nodes st') = add_mset n (mset (unused_nodes st))"
proof (cases "0 \<le> bs_dev_id s \<and> bs_dev_id s < int MAX_HS_DEV_NUM \<and> bs_sess_dev_link_state s AND BACKEND_SESS_LINKED_TO_DEV_NODE \<noteq> 0")
  case False
  then have "recycle_on_delete p st = Some st" using s by (auto simp: recycle_on_delete_def)
  moreover have "st_sess st = (st_sess st)(p := Some s)" using s by auto
  ultimately show thesis using that ok by blast
next
  case True
  let ?dev = "nat (bs_dev_id s)"
  obtain d1 s1 where R: "HIGH_SPEED_NET_DEV_REMOVE_SESSION_NODE (get_dev ?dev st) n (Some s) (bs_proto_type s) = (d1, s1)"
    by (metis surj_pair)
  define d2 where "d2 = HIGH_SPEED_NET_DEV_PUSH_FREE_SESSION_NODE d1 (Some n)"
  define st' where "st' = put_dev ?dev d2 (put_node n None (put_sess p (the s1) st))"
  have run: "recycle_on_delete p st = Some st'" using True s n R by (simp add: recycle_on_delete_def st'_def d2_def)
  have len: "?dev < length (be_dev_set (st_eng (put_node n None (put_sess p (the s1) st))))" using True ok by auto
  have "hd_free_node_queue d2 = hd_free_node_queue (get_dev ?dev st) @ [n]"
    using remove_keeps_free [OF R] by (simp add: d2_def HIGH_SPEED_NET_DEV_PUSH_FREE_SESSION_NODE_def)
  then have "mset (unused_nodes st') = add_mset n (mset (unused_nodes st))"
    using unused_nodes_put_dev [OF len, of d2] by (simp add: st'_def unused_nodes_def get_dev_def)
  then show thesis using that [OF run, of "the s1"] ok by (simp add: st'_def state_upds)
qed

definition deleted :: "u16 \<Rightarrow> u16 \<Rightarrow> u16 \<Rightarrow> nat \<Rightarrow> backend \<Rightarrow> backend \<Rightarrow> bool" where
  "deleted cap bs i p st st' \<longleftrightarrow> pool_inv st' \<and> nodes_ok st' \<and> tx_ok cap bs (be_tx (st_eng st')) \<and> same_switches st st'
     \<and> st_sess st' = (st_sess st)(p := None) \<and> high_speed_search_sess st' = (high_speed_search_sess st)(i := None)
     \<and> sp_id_queue (st_pool st') = sp_id_queue (st_pool st) @ [i]
     \<and> (\<exists>s pad. st_sess st p = Some s \<and> tx_blocks (be_tx (st_eng st')) = tx_blocks (be_tx (st_eng st)) @
           [sess_response_bytes (bs_frontend_sess_id s) BACKEND_HANDOVER_SESSION_ID (word_of_int (bs_ip_version s)) SESS_MSG_CLOSE
              success_resp @ pad])"

lemma nodes_ok_released:
  assumes inv: "pool_inv st" "nodes_ok st" and p: "high_speed_search_sess st i = Some p" and n: "st_node st n = Some (Some p)"
    and st': "length (be_dev_set (st_eng st')) = MAX_HS_DEV_NUM" "st_sess st' = (st_sess st)(p := None)"
      "high_speed_search_sess st' = (high_speed_search_sess st)(i := None)"
      "st_node st' = st_node st \<and> mset (unused_nodes st') = mset (unused_nodes st)
       \<or> st_node st' = (st_node st)(n := Some None) \<and> mset (unused_nodes st') = add_mset n (mset (unused_nodes st))"
  shows "nodes_ok st'"
proof -
  have taken: "n \<notin> set (unused_nodes st)" using inv(2) n by (auto simp: nodes_ok_def)
  have own: "owns_node st' q" if "high_speed_search_sess st' j = Some q" for j q
  proof -
    have j: "j \<noteq> i" "high_speed_search_sess st j = Some q" using that st'(3) by (auto split: if_splits)
    then have "q \<noteq> p" using pool_inv_search [OF inv(1) j(2)] pool_inv_search [OF inv(1) p] by auto
    have "owns_node st q" using inv(2) j(2) by (auto simp: nodes_ok_def)
    then obtain t m where t: "st_sess st q = Some t" "bs_eng t" "bs_sess_node t = Some m" "st_node st m = Some (Some q)"
      by (auto simp: owns_node_def)
    moreover have "m \<noteq> n" using t(4) n \<open>q \<noteq> p\<close> by auto
    ultimately show ?thesis using st'(4) \<open>q \<noteq> p\<close> by (auto simp: owns_node_def st'(2))
  qed
  show ?thesis
    by (rule nodes_okI [where ns = "if mset (unused_nodes st') = mset (unused_nodes st) then unused_nodes st else n # unused_nodes st"])
      (use st'(1,4) inv(2) taken own in \<open>auto simp: nodes_ok_def split: if_splits\<close>)
qed

lemma delete_outcome:
  assumes inv: "pool_inv st" "nodes_ok st" "tx_ok cap bs (be_tx (st_eng st))" "sp_engine (st_pool st)"
    and room: "tx_room cap (be_tx (st_eng st))" and p: "high_speed_search_sess st i = Some p"
  shows "\<exists>st'. high_speed_delete_sess ok (Some p) st = Some (BACKEND_PROXY_PROCESS_OK, st') \<and> deleted cap bs i p st st'"
proof -
  have "owns_node st p" using inv(2) p by (auto simp: nodes_ok_def)
  then obtain s n where s: "st_sess st p = Some s" "bs_sess_node s = Some n" "st_node st n = Some (Some p)"
    by (auto simp: owns_node_def)
  obtain s' st1 where D: "detached p s st s' st1"
    and run: "high_speed_delete_sess ok (Some p) st = do {
      st8 \<leftarrow> recycle_on_delete p st1;
      (_, st9) \<leftarrow> send_standalone_response (bs_frontend_sess_id s) (bs_backend_sess_id s)
         (word_of_int (bs_ip_version s)) SESS_MSG_CLOSE success_resp (free_sess p st8);
      Some (BACKEND_PROXY_PROCESS_OK, st9) }"
    using delete_sess_detaches [OF s(1) inv(4), of ok] by blast
  have d: "st_sess st1 p = Some s'" "bs_sess_node s' = Some n" "st_node st1 n = Some (Some p)" "st_eng st1 = st_eng st"
    "st_node st1 = st_node st" "st_sess st1 = (st_sess st)(p := Some s')"
    using D s by (auto simp: detached_def)
  have len: "length (be_dev_set (st_eng st1)) = MAX_HS_DEV_NUM" using inv(2) d(4) by (simp add: nodes_ok_def)
  obtain st8 s8 where R: "recycle_on_delete p st1 = Some st8" "st_sess st8 = (st_sess st1)(p := Some s8)" "st_pool st8 = st_pool st1"
    "be_tx (st_eng st8) = be_tx (st_eng st1)" "be_sess_pool (st_eng st8) = be_sess_pool (st_eng st1)"
    "be_ops (st_eng st8) = be_ops (st_eng st1)" "length (be_dev_set (st_eng st8)) = MAX_HS_DEV_NUM"
    "st_node st8 = st_node st1 \<and> mset (unused_nodes st8) = mset (unused_nodes st1)
     \<or> st_node st8 = (st_node st1)(n := Some None) \<and> mset (unused_nodes st8) = add_mset n (mset (unused_nodes st1))"
    using recycle_on_delete_nodes [OF len d(1-3)] by metis
  have "tx_ok cap bs (be_tx (st_eng (free_sess p st8)))" using inv(3) R(4) d(4) by simp
  from send_standalone_response_spec [OF this, of SESS_MSG_CLOSE "bs_frontend_sess_id s"
      "word_of_int (bs_ip_version s)" success_resp "bs_backend_sess_id s"]
  obtain r t where T: "send_standalone_response (bs_frontend_sess_id s) (bs_backend_sess_id s)
       (word_of_int (bs_ip_version s)) SESS_MSG_CLOSE success_resp (free_sess p st8) = Some (r, put_tx t (free_sess p st8))"
      "tx_ok cap bs t" "\<exists>pad. tx_blocks t = tx_blocks (be_tx (st_eng st)) @ [sess_response_bytes (bs_frontend_sess_id s)
         BACKEND_HANDOVER_SESSION_ID (word_of_int (bs_ip_version s)) SESS_MSG_CLOSE success_resp @ pad]"
    using room R(4) d(4) by (auto simp: sends_def IS_VALID_SESS_MSG_TYPE_def)
  define st' where "st' = put_tx t (free_sess p st8)"
  have fin: "high_speed_delete_sess ok (Some p) st = Some (BACKEND_PROXY_PROCESS_OK, st')"
    unfolding run using R(1) T(1) by (simp add: st'_def)
  have pool: "st_pool st' = st_pool st1" and sess: "st_sess st' = (st_sess st)(p := None)"
    using R(2,3) d(6) by (auto simp: st'_def)
  note P = detached_pool_inv [OF inv(1) p s(1) D pool sess]
  have id: "bs_backend_sess_id s = i" using pool_inv_search [OF inv(1) p] s(1) by auto
  have eng: "be_dev_set (st_eng st') = be_dev_set (st_eng st8)" "st_node st' = st_node st8" by (simp_all add: st'_def state_upds)
  have fn: "unused_nodes st' = unused_nodes st8" "unused_nodes st1 = unused_nodes st"
    using eng(1) d(4) by (auto intro: unused_nodes_cong)
  have "nodes_ok st'"
    using R(7,8) d(5) eng by (intro nodes_ok_released [OF inv(1,2) p s(3) _ sess P(2)]) (simp_all add: fn)
  moreover have "same_switches st st'"
    using R(3,5,6) D d(4) by (auto simp: same_switches_def detached_def st'_def state_upds)
  moreover have "sp_id_queue (st_pool st') = sp_id_queue (st_pool st) @ [i]" using D id by (simp add: pool detached_def)
  moreover have "tx_ok cap bs (be_tx (st_eng st'))" using T(2) by (simp add: st'_def)
  moreover have "be_tx (st_eng st') = t" by (simp add: st'_def)
  ultimately have "deleted cap bs i p st st'" unfolding deleted_def using P sess s(1) T(3) by blast
  then show ?thesis using fin by blast
qed

end
