(* ===== verification/Protocol_Run.thy ===== *)
theory Protocol_Run
  imports Node_Ownership Engine_Lemmas
begin

text \<open>
  Sequences of frontend commands.  The abstract view of the backend is a list of free session ids and
  a map from the ids in use to the frontend's session and the data queued for its socket.  Every command
  handled by the dispatcher is a step of this view, its answers are the answers of the step, and the
  state the dispatcher relies on holds again afterwards, so this extends to sequences of commands.
\<close>

section \<open>The abstract protocol\<close>

text \<open>
  A command opens a session (frontend id, device, transport, endpoint), carries data, or closes a
  session (both with frontend id and backend id).
\<close>

datatype command = Open u16 u16 u16 bytes | Data u16 u16 bytes | Close u16 u16

datatype reply = Created u16 u16 | Refused u16 | Closed u16

record sessions =
  free_ids :: "u16 list"
  open_sessions :: "u16 \<rightharpoonup> u16 \<times> bytes list"

inductive spec_step :: "command \<Rightarrow> sessions \<Rightarrow> int \<times> reply list \<Rightarrow> sessions \<Rightarrow> bool" where
  opened: "free_ids a = i # rest \<Longrightarrow> spec_step (Open f dev proto endpoint) a (BACKEND_PROXY_PROCESS_OK, [Created f i])
    (a\<lparr>free_ids := rest, open_sessions := (open_sessions a)(i \<mapsto> (f, []))\<rparr>)"
| refused: "spec_step (Open f dev proto endpoint) a (BACKEND_PROXY_PROCESS_ERROR, [Refused f])
    (a\<lparr>free_ids := rotate1 (free_ids a)\<rparr>)"
| queued: "open_sessions a i = Some (g, q) \<Longrightarrow> spec_step (Data f i d) a (BACKEND_PROXY_PROCESS_OK, [])
    (a\<lparr>open_sessions := (open_sessions a)(i \<mapsto> (g, q @ [d]))\<rparr>)"
| unknown_data: "open_sessions a i = None \<Longrightarrow> spec_step (Data f i d) a (BACKEND_PROXY_PROCESS_ERROR, []) a"
| closed: "open_sessions a i = Some (g, q) \<Longrightarrow> spec_step (Close f i) a (BACKEND_PROXY_PROCESS_OK, [Closed g])
    (a\<lparr>free_ids := free_ids a @ [i], open_sessions := (open_sessions a)(i := None)\<rparr>)"
| unknown_close: "open_sessions a i = None \<Longrightarrow> spec_step (Close f i) a (BACKEND_PROXY_PROCESS_ERROR, []) a"

inductive_cases spec_step_cases: "spec_step c a r b"

inductive spec_run :: "command list \<Rightarrow> sessions \<Rightarrow> (int \<times> reply list) list \<Rightarrow> sessions \<Rightarrow> bool" where
  spec_nil: "spec_run [] a [] a"
| spec_cons: "spec_step c a r b \<Longrightarrow> spec_run cs b rs d \<Longrightarrow> spec_run (c # cs) a (r # rs) d"

text \<open>No id is lost or handed out twice.\<close>

definition ids_ok :: "sessions \<Rightarrow> bool" where
  "ids_ok a \<longleftrightarrow> distinct (free_ids a) \<and> set (free_ids a) \<inter> dom (open_sessions a) = {}"

lemma spec_step_ids:
  "spec_step c a r b \<Longrightarrow> ids_ok a \<Longrightarrow> ids_ok b \<and> set (free_ids b) \<union> dom (open_sessions b) = set (free_ids a) \<union> dom (open_sessions a)"
  by (erule spec_step_cases) (auto simp: ids_ok_def)

lemma spec_run_ids:
  "spec_run cs a rs b \<Longrightarrow> ids_ok a \<Longrightarrow> ids_ok b \<and> set (free_ids b) \<union> dom (open_sessions b) = set (free_ids a) \<union> dom (open_sessions a)"
proof (induction rule: spec_run.induct)
  case (spec_cons c a r b cs rs d)
  then show ?case using spec_step_ids [OF spec_cons.hyps(1)] by auto
qed simp


section \<open>Commands as messages\<close>

definition open_header :: SessMsgHeader where
  "open_header = \<lparr>sh_version = PROXY_PROTO_SESS_VERSION_1, sh_msg_type = SESS_MSG_CREATE,
     sh_action_type = ACTION_TYPE_COMMAND, sh_ip_version = SESS_IPV4_PROTO, sh_payload_len = 10\<rparr>"

definition close_header :: SessMsgHeader where
  "close_header = \<lparr>sh_version = PROXY_PROTO_SESS_VERSION_1, sh_msg_type = SESS_MSG_CLOSE,
     sh_action_type = ACTION_TYPE_COMMAND, sh_ip_version = SESS_IPV4_PROTO, sh_payload_len = 0\<rparr>"

text \<open>The message of a command, followed by the rest of the receive buffer.\<close>

fun message :: "command \<Rightarrow> bytes \<Rightarrow> bytes" where
  "message (Open f dev proto endpoint) rest =
     sess_message f BACKEND_HANDOVER_SESSION_ID 20 open_header (SessIPv4Params_bytes dev proto endpoint @ rest)"
| "message (Data f i d) rest = data_message f i d @ rest"
| "message (Close f i) rest = sess_message f i 10 close_header rest"

text \<open>
  One request: the transmit queue as the frontend left it, the answers of the environment, the command.
\<close>

record request =
  rq_tx :: tx_env
  rq_oracle :: msg_oracle
  rq_command :: command
  rq_rest :: bytes

definition with_tx :: "tx_env \<Rightarrow> proxy \<Rightarrow> proxy" where
  "with_tx t px = px\<lparr>px_backend := put_tx t (px_backend px)\<rparr>"

text \<open>Handling a request gives the code, the blocks added to the transmit queue and the new state.\<close>

definition serve :: "request \<Rightarrow> proxy \<Rightarrow> (int \<times> bytes list \<times> proxy) option" where
  "serve rq px = map_option (\<lambda>(ret, px'). (ret, drop (length (tx_blocks (rq_tx rq))) (tx_blocks (be_tx (st_eng (px_backend px')))), px'))
     (backend_proxy_msg_process (rq_oracle rq) (message (rq_command rq) (rq_rest rq)) (with_tx (rq_tx rq) px))"

fun serve_all :: "request list \<Rightarrow> proxy \<Rightarrow> ((int \<times> bytes list) list \<times> proxy) option" where
  "serve_all [] px = Some ([], px)"
| "serve_all (rq # rqs) px =
     (case serve rq px of
        None \<Rightarrow> None
      | Some (ret, out, px') \<Rightarrow> map_option (\<lambda>(outs, px''). ((ret, out) # outs, px'')) (serve_all rqs px'))"

text \<open>What the environment grants: room for an answer, memory, and for a new session a device that can be used.\<close>

definition granted :: "u16 \<Rightarrow> u16 \<Rightarrow> request \<Rightarrow> proxy \<Rightarrow> bool" where
  "granted cap bs rq px \<longleftrightarrow> tx_ok cap bs (rq_tx rq) \<and> tx_room cap (rq_tx rq) \<and>
     (case rq_command rq of
        Open f dev proto endpoint \<Rightarrow> length endpoint = 6 \<and>
          (\<exists>p mem0. so_malloc (mo_create (rq_oracle rq)) = Some (p, mem0) \<and> st_sess (px_backend px) p = None \<and>
             open_session True \<lparr>ro_status = SESS_OP_CODE_NETWORK_UNREACHABLE, ro_code = so_uninit_code (mo_create (rq_oracle rq))\<rparr>
               (mo_create (rq_oracle rq)) (create_para (so_uninit_id (mo_create (rq_oracle rq))) f dev proto endpoint)
               (put_sess p mem0 (put_tx (rq_tx rq) (px_backend px))) \<noteq> None)
      | Data f i d \<Rightarrow> length d < 65536 \<and> mo_seg_ok (rq_oracle rq) \<and>
          (\<exists>buf. mo_seg_buf (rq_oracle rq) = Some buf \<and> length buf = length d)
      | Close f i \<Rightarrow> True)"

fun all_granted :: "u16 \<Rightarrow> u16 \<Rightarrow> request list \<Rightarrow> proxy \<Rightarrow> bool" where
  "all_granted cap bs [] px = True"
| "all_granted cap bs (rq # rqs) px = (granted cap bs rq px \<and>
     (case serve rq px of None \<Rightarrow> True | Some (ret, out, px') \<Rightarrow> all_granted cap bs rqs px'))"


section \<open>Abstraction\<close>

definition session_view :: "backend \<Rightarrow> u16 \<Rightarrow> (u16 \<times> bytes list) option" where
  "session_view st i = do {
     p \<leftarrow> high_speed_search_sess st i;
     s \<leftarrow> st_sess st p;
     Some (bs_frontend_sess_id s, map seg_payload (bs_msg_f2b s)) }"

definition sessions_of :: "proxy \<Rightarrow> sessions" where
  "sessions_of px = \<lparr>free_ids = sp_id_queue (st_pool (px_backend px)), open_sessions = session_view (px_backend px)\<rparr>"

definition serving :: "u16 \<Rightarrow> u16 \<Rightarrow> proxy \<Rightarrow> bool" where
  "serving cap bs px \<longleftrightarrow> engine_ready px \<and> px_pool_set px \<and> sp_engine (st_pool (px_backend px)) \<and> be_ops (st_eng (px_backend px))
     \<and> pool_inv (px_backend px) \<and> nodes_ok (px_backend px) \<and> tx_ok cap bs (be_tx (st_eng (px_backend px)))"

fun reply_block :: "reply \<Rightarrow> bytes \<Rightarrow> bool" where
  "reply_block (Created f i) b = (\<exists>pad. b = sess_response_bytes f i SESS_IPV4_PROTO SESS_MSG_CREATE success_resp @ pad)"
| "reply_block (Refused f) b = (\<exists>resp pad. ro_status resp \<noteq> SESS_OP_STATUS_SUCCESS
     \<and> b = sess_response_bytes f BACKEND_HANDOVER_SESSION_ID SESS_IPV4_PROTO SESS_MSG_CREATE resp @ pad)"
| "reply_block (Closed f) b = (\<exists>ip pad. b = sess_response_bytes f BACKEND_HANDOVER_SESSION_ID ip SESS_MSG_CLOSE success_resp @ pad)"

definition refines :: "u16 \<Rightarrow> u16 \<Rightarrow> request \<Rightarrow> proxy \<Rightarrow> bool" where
  "refines cap bs rq px \<longleftrightarrow> (\<exists>ret out px' replies. serve rq px = Some (ret, out, px') \<and> serving cap bs px'
     \<and> spec_step (rq_command rq) (sessions_of px) (ret, replies) (sessions_of px') \<and> list_all2 reply_block replies out)"

lemma refinesI:
  assumes "backend_proxy_msg_process (rq_oracle rq) (message (rq_command rq) (rq_rest rq)) (with_tx (rq_tx rq) px) = Some (ret, px')"
    and "serving cap bs px'" "tx_blocks (be_tx (st_eng (px_backend px'))) = tx_blocks (rq_tx rq) @ out"
    and "spec_step (rq_command rq) (sessions_of px) (ret, replies) (sessions_of px')" "list_all2 reply_block replies out"
  shows "refines cap bs rq px"
  unfolding refines_def serve_def using assms by auto

lemma with_tx_facts:
  assumes "serving cap bs px" "tx_ok cap bs t"
  shows "serving cap bs (with_tx t px)" "sessions_of (with_tx t px) = sessions_of px" "be_tx (st_eng (px_backend (with_tx t px))) = t"
    "st_sess (px_backend (with_tx t px)) = st_sess (px_backend px)"
proof -
  let ?st = "px_backend px"
  have "high_speed_search_sess (put_tx t ?st) = high_speed_search_sess ?st" by (rule search_cong) simp
  then show "sessions_of (with_tx t px) = sessions_of px"
    by (simp add: sessions_of_def with_tx_def session_view_def fun_eq_iff)
  have "pool_inv (put_tx t ?st)" using assms(1) by (auto simp: serving_def intro: pool_inv_cong)
  moreover have "nodes_ok (put_tx t ?st)"
    using assms(1) \<open>high_speed_search_sess (put_tx t ?st) = _\<close>
    by (auto simp: serving_def nodes_ok_def unused_nodes_def owns_node_def put_tx_def)
  moreover have "te_mem_pool t" using assms(2) by (simp add: tx_ok_def tx_ready_def)
  ultimately show "serving cap bs (with_tx t px)"
    using assms by (simp add: serving_def with_tx_def engine_ready_def) (simp add: put_tx_def)
  show "be_tx (st_eng (px_backend (with_tx t px))) = t" "st_sess (px_backend (with_tx t px)) = st_sess (px_backend px)"
    by (simp_all add: with_tx_def)
qed


section \<open>Every command is a step\<close>

lemma process_open:
  assumes "px_pool_set px" "sp_ops (st_pool (px_backend px))" "length endpoint = 6"
  shows "backend_proxy_msg_process orc (message (Open f dev proto endpoint) rest) px
    = set_backend px (map_option (\<lambda>(ret, _, st). (ret, st)) (high_speed_create_sess_active (mo_create orc)
        (create_para (so_uninit_id (mo_create orc)) f dev proto endpoint) (px_backend px)))"
proof -
  have v: "sh_version open_header = PROXY_PROTO_SESS_VERSION_1"
    "sh_action_type open_header = ACTION_TYPE_COMMAND \<or> sh_action_type open_header = ACTION_TYPE_RESPONSE"
    by (simp_all add: open_header_def)
  have len: "length (SessIPv4Params_bytes dev proto endpoint @ rest) \<ge> 10" using assms(3) by (simp add: SessIPv4Params_bytes_def)
  show ?thesis
    unfolding message.simps process_sess_command [OF v]
    using assms len sess_para_ip_reads [OF assms(3)]
    by (simp add: open_header_def backend_proxy_sess_msg_process_ver1_def SESS_MSG_PAYLOAD_LEN_def msg_codes PROXY_MSG_INVALID_LEN_def
        backend_proxy_sess_msg_process_active_create_ver1_def)
qed

lemma process_close:
  "backend_proxy_msg_process orc (message (Close f i) rest) px = backend_proxy_sess_msg_process_close_ver1 orc i px"
proof -
  have v: "sh_version close_header = PROXY_PROTO_SESS_VERSION_1"
    "sh_action_type close_header = ACTION_TYPE_COMMAND \<or> sh_action_type close_header = ACTION_TYPE_RESPONSE"
    by (simp_all add: close_header_def)
  show ?thesis
    unfolding message.simps process_sess_command [OF v]
    by (simp add: close_header_def backend_proxy_sess_msg_process_ver1_def SESS_MSG_PAYLOAD_LEN_def msg_codes PROXY_MSG_INVALID_LEN_def)
qed

lemma session_view_none: "pool_inv st \<Longrightarrow> session_view st i = None \<longleftrightarrow> high_speed_search_sess st i = None"
  using pool_inv_search [of st i] by (auto simp: session_view_def split: bind_splits)

lemma serving_switches:
  assumes "serving cap bs px" "same_switches (px_backend px) st'" "pool_inv st'" "nodes_ok st'" "tx_ok cap bs (be_tx (st_eng st'))"
  shows "serving cap bs (px\<lparr>px_backend := st'\<rparr>)"
  using assms by (auto simp: serving_def engine_ready_def same_switches_def tx_ok_def tx_ready_def)

lemma fresh_not_found:
  assumes "pool_inv st" "st_sess st p = None"
  shows "high_speed_search_sess st j \<noteq> Some p"
  using pool_inv_search [OF assms(1), of j p] assms(2) by auto

lemma search_inj:
  assumes "pool_inv st" "high_speed_search_sess st i = Some p" "high_speed_search_sess st j = Some p"
  shows "j = i"
  using pool_inv_search [OF assms(1,2)] pool_inv_search [OF assms(1,3)] by auto

text \<open>A command for an id without a session changes nothing.\<close>

lemma unchanged_refines:
  assumes "backend_proxy_msg_process (rq_oracle rq) (message (rq_command rq) (rq_rest rq)) (with_tx (rq_tx rq) px)
      = Some (ret, with_tx (rq_tx rq) px)"
    and "serving cap bs px" "tx_ok cap bs (rq_tx rq)" "spec_step (rq_command rq) (sessions_of px) (ret, []) (sessions_of px)"
  shows "refines cap bs rq px"
  using with_tx_facts [OF assms(2,3)] assms(4)
  by (intro refinesI [OF assms(1), where out = "[]" and replies = "[]"]) auto

lemma open_refines:
  assumes S: "serving cap bs px" and G: "granted cap bs rq px" and c: "rq_command rq = Open f dev proto endpoint"
  shows "refines cap bs rq px"
proof -
  define px1 where "px1 = with_tx (rq_tx rq) px"
  define orc where "orc = mo_create (rq_oracle rq)"
  define para where "para = create_para (so_uninit_id orc) f dev proto endpoint"
  have tx: "tx_ok cap bs (rq_tx rq)" "tx_room cap (rq_tx rq)" using G by (auto simp: granted_def)
  note W = with_tx_facts [OF S tx(1), folded px1_def]
  obtain p mem0 where m: "so_malloc orc = Some (p, mem0)" "st_sess (px_backend px1) p = None" and ep: "length endpoint = 6"
    and op: "open_session True \<lparr>ro_status = SESS_OP_CODE_NETWORK_UNREACHABLE, ro_code = so_uninit_code orc\<rparr> orc para
        (put_sess p mem0 (px_backend px1)) \<noteq> None"
    using G c W(4) by (auto simp: granted_def orc_def para_def px1_def with_tx_def)
  have on: "sp_engine (st_pool (px_backend px1))" "be_ops (st_eng (px_backend px1))" "sp_ops (st_pool (px_backend px1))"
    "px_pool_set px1" "pool_inv (px_backend px1)" "nodes_ok (px_backend px1)"
    "tx_ok cap bs (be_tx (st_eng (px_backend px1)))" "tx_room cap (be_tx (st_eng (px_backend px1)))"
    using W(1,3) tx(2) by (auto simp: serving_def engine_ready_def)
  obtain r q st' where C: "high_speed_create_sess_active orc para (px_backend px1) = Some (r, q, st')"
    "r = BACKEND_PROXY_PROCESS_OK \<and> created cap bs para p (px_backend px1) st'
       \<or> r = BACKEND_PROXY_PROCESS_ERROR \<and> not_created cap bs para (px_backend px1) st'"
    using create_outcome [OF on(5-8) on(1-3) m op] by blast
  have run: "backend_proxy_msg_process (rq_oracle rq) (message (rq_command rq) (rq_rest rq)) (with_tx (rq_tx rq) px)
      = Some (r, px1\<lparr>px_backend := st'\<rparr>)"
    unfolding c px1_def [symmetric] process_open [OF on(4,3) ep] orc_def [symmetric] para_def [symmetric] C(1) by simp
  have pf: "sm_frontend_sess_id para = f" "sm_ip_version para = SESS_IPV4_PROTO" by (simp_all add: para_def create_para_def)
  show ?thesis using C(2)
  proof
    assume *: "r = BACKEND_PROXY_PROCESS_OK \<and> created cap bs para p (px_backend px1) st'"
    then obtain i s pad where i: "sp_id_queue (st_pool (px_backend px1)) = i # sp_id_queue (st_pool st')"
      "high_speed_search_sess st' = (high_speed_search_sess (px_backend px1))(i \<mapsto> p)" "st_sess st' = (st_sess (px_backend px1))(p \<mapsto> s)"
      "bs_frontend_sess_id s = f" "bs_msg_f2b s = []"
      "tx_blocks (be_tx (st_eng st')) = tx_blocks (rq_tx rq) @ [sess_response_bytes f i SESS_IPV4_PROTO SESS_MSG_CREATE success_resp @ pad]"
      unfolding created_def pf W(3) by blast
    have view: "session_view st' = (session_view (px_backend px1))(i \<mapsto> (f, []))"
      using i fresh_not_found [OF on(5) m(2)] by (auto simp: session_view_def fun_eq_iff split: bind_splits)
    have "spec_step (rq_command rq) (sessions_of px1) (r, [Created f i]) (sessions_of (px1\<lparr>px_backend := st'\<rparr>))"
      using spec_step.opened [of "sessions_of px1" i "sp_id_queue (st_pool st')" f dev proto endpoint] * i(1)
      by (simp add: c sessions_of_def view)
    then show ?thesis
      using serving_switches [OF W(1)] * run i(6) unfolding created_def W(2)
      by (intro refinesI [OF run, where out = "[_]" and replies = "[Created f i]"]) auto
  next
    assume *: "r = BACKEND_PROXY_PROCESS_ERROR \<and> not_created cap bs para (px_backend px1) st'"
    then obtain resp pad where i: "sp_id_queue (st_pool st') = rotate1 (sp_id_queue (st_pool (px_backend px1)))"
      "sp_htable (st_pool st') = sp_htable (st_pool (px_backend px1))" "st_sess st' = st_sess (px_backend px1)"
      "ro_status resp \<noteq> SESS_OP_STATUS_SUCCESS"
      "tx_blocks (be_tx (st_eng st')) = tx_blocks (rq_tx rq) @
         [sess_response_bytes f BACKEND_HANDOVER_SESSION_ID SESS_IPV4_PROTO SESS_MSG_CREATE resp @ pad]"
      unfolding not_created_def pf W(3) by blast
    have view: "session_view st' = session_view (px_backend px1)"
      using i(3) search_cong [OF i(2)] by (simp add: session_view_def fun_eq_iff)
    have "spec_step (rq_command rq) (sessions_of px1) (r, [Refused f]) (sessions_of (px1\<lparr>px_backend := st'\<rparr>))"
      using spec_step.refused [of f dev proto endpoint "sessions_of px1"] * i(1) by (simp add: c sessions_of_def view)
    then show ?thesis
      using serving_switches [OF W(1)] * run i(4,5) unfolding not_created_def W(2)
      by (intro refinesI [OF run, where out = "[_]" and replies = "[Refused f]"]) auto
  qed
qed

lemma close_refines:
  assumes S: "serving cap bs px" and G: "granted cap bs rq px" and c: "rq_command rq = Close f i"
  shows "refines cap bs rq px"
proof -
  define px1 where "px1 = with_tx (rq_tx rq) px"
  have tx: "tx_ok cap bs (rq_tx rq)" "tx_room cap (rq_tx rq)" using G by (auto simp: granted_def)
  note W = with_tx_facts [OF S tx(1), folded px1_def]
  let ?st = "px_backend px1"
  have on: "sp_engine (st_pool ?st)" "sp_ops (st_pool ?st)" "px_pool_set px1" "pool_inv ?st" "nodes_ok ?st"
    "tx_ok cap bs (be_tx (st_eng ?st))" "tx_room cap (be_tx (st_eng ?st))"
    using W(1,3) tx(2) by (auto simp: serving_def engine_ready_def)
  have msg: "backend_proxy_msg_process (rq_oracle rq) (message (rq_command rq) (rq_rest rq)) (with_tx (rq_tx rq) px)
      = backend_proxy_sess_msg_process_close_ver1 (rq_oracle rq) i px1"
    unfolding c px1_def [symmetric] by (rule process_close)
  show ?thesis
  proof (cases "high_speed_search_sess ?st i")
    case None
    then have run: "backend_proxy_msg_process (rq_oracle rq) (message (rq_command rq) (rq_rest rq)) (with_tx (rq_tx rq) px)
        = Some (BACKEND_PROXY_PROCESS_ERROR, px1)"
      unfolding msg using on by (simp add: backend_proxy_sess_msg_process_close_ver1_def)
    have "open_sessions (sessions_of px1) i = None" using None session_view_none [OF on(4)] by (simp add: sessions_of_def)
    then show ?thesis
      using run S tx(1) spec_step.unknown_close unfolding px1_def W(2) [unfolded px1_def] by (intro unchanged_refines) (auto simp: c)
  next
    case (Some p)
    obtain st' where D: "high_speed_delete_sess (mo_epoll_del_ok (rq_oracle rq)) (Some p) ?st = Some (BACKEND_PROXY_PROCESS_OK, st')"
      "deleted cap bs i p ?st st'"
      using delete_outcome [OF on(4-6) on(1) on(7) Some] by blast
    have run: "backend_proxy_msg_process (rq_oracle rq) (message (rq_command rq) (rq_rest rq)) (with_tx (rq_tx rq) px)
        = Some (BACKEND_PROXY_PROCESS_OK, px1\<lparr>px_backend := st'\<rparr>)"
      unfolding msg using on Some D(1) by (simp add: backend_proxy_sess_msg_process_close_ver1_def)
    obtain s pad where s: "st_sess ?st p = Some s" "tx_blocks (be_tx (st_eng st')) = tx_blocks (rq_tx rq) @
         [sess_response_bytes (bs_frontend_sess_id s) BACKEND_HANDOVER_SESSION_ID (word_of_int (bs_ip_version s)) SESS_MSG_CLOSE
            success_resp @ pad]"
      using D(2) unfolding deleted_def W(3) by blast
    have d: "st_sess st' = (st_sess ?st)(p := None)" "high_speed_search_sess st' = (high_speed_search_sess ?st)(i := None)"
      "sp_id_queue (st_pool st') = sp_id_queue (st_pool ?st) @ [i]" using D(2) by (auto simp: deleted_def)
    note other = search_inj [OF on(4) Some]
    have view: "session_view st' = (session_view ?st)(i := None)"
      using d(1,2) other by (auto simp: session_view_def fun_eq_iff split: bind_splits)
    have "open_sessions (sessions_of px1) i = Some (bs_frontend_sess_id s, map seg_payload (bs_msg_f2b s))"
      using Some s(1) by (simp add: sessions_of_def session_view_def)
    from spec_step.closed [OF this, of f]
    have "spec_step (rq_command rq) (sessions_of px1) (BACKEND_PROXY_PROCESS_OK, [Closed (bs_frontend_sess_id s)])
        (sessions_of (px1\<lparr>px_backend := st'\<rparr>))"
      by (simp add: c sessions_of_def view d(3))
    then show ?thesis
      using serving_switches [OF W(1)] D(2) run s(2) unfolding deleted_def W(2)
      by (intro refinesI [OF run, where out = "[_]" and replies = "[Closed (bs_frontend_sess_id s)]"]) auto
  qed
qed

lemma pool_inv_update:
  assumes "pool_inv st" "st_sess st p = Some s" "st_sess st' = (st_sess st)(p \<mapsto> s')" "bs_backend_sess_id s' = bs_backend_sess_id s"
    "sp_id_queue (st_pool st') = sp_id_queue (st_pool st)" "sp_htable (st_pool st') = sp_htable (st_pool st)"
    "sp_sess_num (st_pool st') = sp_sess_num (st_pool st)"
  shows "pool_inv st'"
proof -
  have "(case st_sess st' q of None \<Rightarrow> False | Some s \<Rightarrow> bs_backend_sess_id s = i)
      = (case st_sess st q of None \<Rightarrow> False | Some s \<Rightarrow> bs_backend_sess_id s = i)" for q i
    using assms(2-4) by simp
  then show ?thesis using assms(1,5-7) unfolding pool_inv_def Let_def by simp
qed

lemma data_message_nodes:
  assumes "backend_proxy_data_msg_process orc i len msg px = Some (r, px')"
  shows "st_node (px_backend px') = st_node (px_backend px)"
proof -
  have "BACKEND_SESS_LINK_TO_QUEUE p dir st = Some st' \<Longrightarrow> st_node st' = st_node st" for p dir st st'
    by (auto simp: BACKEND_SESS_LINK_TO_QUEUE_def put_sess_def split: option.splits if_splits)
  moreover have "st_node (put_sess p s st) = st_node st" for p s st by (simp add: put_sess_def)
  ultimately show ?thesis
    using assms by (auto simp: backend_proxy_data_msg_process_def Let_def set_backend_def split: if_splits option.splits)
qed

text \<open>A session whose id and node stay the same keeps the invariants and only its own view changes.\<close>

lemma session_updated:
  assumes inv: "pool_inv st" "nodes_ok st" and p: "high_speed_search_sess st i = Some p" "st_sess st p = Some s"
    and s': "bs_backend_sess_id s' = bs_backend_sess_id s" "bs_eng s' = bs_eng s" "bs_sess_node s' = bs_sess_node s"
    and st': "st_sess st' = (st_sess st)(p \<mapsto> s')" "st_pool st' = (st_pool st)\<lparr>sp_queue_f2b := q\<rparr>" "st_eng st' = st_eng st"
      "st_node st' = st_node st"
  shows "pool_inv st'" "nodes_ok st'"
    "session_view st' = (session_view st)(i \<mapsto> (bs_frontend_sess_id s', map seg_payload (bs_msg_f2b s')))"
proof -
  have search: "high_speed_search_sess st' = high_speed_search_sess st" by (rule search_cong) (simp add: st'(2))
  show "pool_inv st'" by (rule pool_inv_update [OF inv(1) p(2) st'(1) s'(1)]) (simp_all add: st'(2))
  have "owns_node st' q" if "high_speed_search_sess st j = Some q" for j q
  proof -
    have "owns_node st q" using that inv(2) by (auto simp: nodes_ok_def)
    then obtain t m where "st_sess st q = Some t" "bs_eng t" "bs_sess_node t = Some m" "st_node st m = Some (Some q)"
      by (auto simp: owns_node_def)
    then show ?thesis using p(2) s' by (cases "q = p") (auto simp: owns_node_def st'(1,4))
  qed
  then show "nodes_ok st'" using inv(2) unused_nodes_cong [of st' st] by (simp add: nodes_ok_def search st'(3,4))
  show "session_view st' = (session_view st)(i \<mapsto> (bs_frontend_sess_id s', map seg_payload (bs_msg_f2b s')))"
  proof
    fix j
    have "j \<noteq> i \<Longrightarrow> high_speed_search_sess st j \<noteq> Some p" using search_inj [OF inv(1) p(1)] by blast
    then show "session_view st' j = ((session_view st)(i \<mapsto> (bs_frontend_sess_id s', map seg_payload (bs_msg_f2b s')))) j"
      using p(1) by (cases "high_speed_search_sess st j") (auto simp: session_view_def search st'(1))
  qed
qed

lemma data_refines:
  assumes S: "serving cap bs px" and G: "granted cap bs rq px" and c: "rq_command rq = Data f i d"
  shows "refines cap bs rq px"
proof -
  define px1 where "px1 = with_tx (rq_tx rq) px"
  have tx: "tx_ok cap bs (rq_tx rq)" using G by (auto simp: granted_def)
  note W = with_tx_facts [OF S tx, folded px1_def]
  let ?st = "px_backend px1"
  have on: "engine_ready px1" "pool_inv ?st" "nodes_ok ?st" using W(1) by (auto simp: serving_def)
  obtain buf where mem: "length d < 65536" "mo_seg_ok (rq_oracle rq)" "mo_seg_buf (rq_oracle rq) = Some buf" "length buf = length d"
    using G c by (auto simp: granted_def)
  show ?thesis
  proof (cases "high_speed_search_sess ?st i")
    case None
    then have run: "backend_proxy_msg_process (rq_oracle rq) (message (rq_command rq) (rq_rest rq)) (with_tx (rq_tx rq) px)
        = Some (BACKEND_PROXY_PROCESS_ERROR, px1)"
      unfolding c message.simps px1_def [symmetric] process_data_message by (simp add: backend_proxy_data_msg_process_def)
    have "open_sessions (sessions_of px1) i = None" using None session_view_none [OF on(2)] by (simp add: sessions_of_def)
    then show ?thesis
      using run S tx spec_step.unknown_data unfolding px1_def W(2) [unfolded px1_def] by (intro unchanged_refines) (auto simp: c)
  next
    case (Some p)
    have "owns_node ?st p" using on(3) Some by (auto simp: nodes_ok_def)
    then obtain s where s: "st_sess ?st p = Some s" "bs_eng s" by (auto simp: owns_node_def)
    obtain st' where D: "backend_proxy_msg_process (rq_oracle rq) (data_message f i d @ rq_rest rq) px1
        = Some (BACKEND_PROXY_PROCESS_OK, px1\<lparr>px_backend := st'\<rparr>)"
      "st_sess st' = (st_sess ?st)(p \<mapsto> s\<lparr>bs_msg_f2b := bs_msg_f2b s @ [payload_segment d],
          bs_state_f2b := bs_state_f2b s OR BACKEND_SESS_LINKED_TO_QUEUE\<rparr>)"
      "st_pool st' = (st_pool ?st)\<lparr>sp_queue_f2b := enqueued_f2b p s (sp_queue_f2b (st_pool ?st))\<rparr>" "st_eng st' = st_eng ?st"
      using data_message_spec [OF on(1) Some s mem, of f "rq_rest rq"] by blast
    have node: "st_node st' = st_node ?st" using data_message_nodes [OF D(1) [unfolded process_data_message]] by simp
    note U = session_updated [OF on(2,3) Some s(1) _ _ _ D(2,3,4) node, simplified]
    have run: "backend_proxy_msg_process (rq_oracle rq) (message (rq_command rq) (rq_rest rq)) (with_tx (rq_tx rq) px)
        = Some (BACKEND_PROXY_PROCESS_OK, px1\<lparr>px_backend := st'\<rparr>)"
      unfolding c message.simps px1_def [symmetric] by (rule D(1))
    have "same_switches ?st st'" by (simp add: same_switches_def D(3,4))
    then have sv: "serving cap bs (px1\<lparr>px_backend := st'\<rparr>)"
      using serving_switches [OF W(1), of st'] W(3) tx U(1,2) by (simp add: D(4))
    have "open_sessions (sessions_of px1) i = Some (bs_frontend_sess_id s, map seg_payload (bs_msg_f2b s))"
      using Some s(1) by (simp add: sessions_of_def session_view_def)
    from spec_step.queued [OF this, of f d]
    have "spec_step (rq_command rq) (sessions_of px1) (BACKEND_PROXY_PROCESS_OK, []) (sessions_of (px1\<lparr>px_backend := st'\<rparr>))"
      by (simp add: c sessions_of_def U(3) D(3) seg_payload_payload_segment [OF mem(1)])
    then show ?thesis
      using sv W(3) by (intro refinesI [OF run, where out = "[]" and replies = "[]"]) (auto simp: W(2) D(4))
  qed
qed

lemma command_refines:
  assumes "serving cap bs px" "granted cap bs rq px"
  shows "refines cap bs rq px"
  using open_refines [OF assms] data_refines [OF assms] close_refines [OF assms] by (cases "rq_command rq") auto

lemma commands_refine:
  "serving cap bs px \<Longrightarrow> all_granted cap bs rqs px \<Longrightarrow>
   \<exists>outs px' replies. serve_all rqs px = Some (outs, px') \<and> serving cap bs px'
     \<and> spec_run (map rq_command rqs) (sessions_of px) replies (sessions_of px')
     \<and> list_all2 (\<lambda>(r, rs) (ret, out). r = ret \<and> list_all2 reply_block rs out) replies outs"
proof (induction rqs arbitrary: px)
  case Nil
  then show ?case using spec_nil by (intro exI [of _ "[]"] exI [of _ px]) auto
next
  case (Cons rq rqs)
  have "granted cap bs rq px" using Cons.prems(2) by simp
  from command_refines [OF Cons.prems(1) this] obtain ret out px1 rs where
    R: "serve rq px = Some (ret, out, px1)" "serving cap bs px1"
      "spec_step (rq_command rq) (sessions_of px) (ret, rs) (sessions_of px1)" "list_all2 reply_block rs out"
    unfolding refines_def by blast
  have "all_granted cap bs rqs px1" using Cons.prems(2) R(1) by simp
  from Cons.IH [OF R(2) this] obtain outs px' replies where
    I: "serve_all rqs px1 = Some (outs, px')" "serving cap bs px'"
      "spec_run (map rq_command rqs) (sessions_of px1) replies (sessions_of px')"
      "list_all2 (\<lambda>(r, rs) (ret, out). r = ret \<and> list_all2 reply_block rs out) replies outs"
    by blast
  have "spec_run (map rq_command (rq # rqs)) (sessions_of px) ((ret, rs) # replies) (sessions_of px')"
    using spec_cons [OF R(3) I(3)] by simp
  moreover have "serve_all (rq # rqs) px = Some ((ret, out) # outs, px')" using R(1) I(1) by simp
  ultimately show ?case using I(2,4) R(4) by (intro exI [of _ "(ret, out) # outs"] exI [of _ px'] exI [of _ "(ret, rs) # replies"]) auto
qed

lemma serving_ids_ok: "serving cap bs px \<Longrightarrow> ids_ok (sessions_of px)"
proof -
  assume "serving cap bs px"
  then have inv: "pool_inv (px_backend px)" by (simp add: serving_def)
  have "i \<notin> set (sp_id_queue (st_pool (px_backend px)))" if v: "session_view (px_backend px) i = Some x" for i x
  proof -
    obtain p where "high_speed_search_sess (px_backend px) i = Some p" using v by (auto simp: session_view_def split: bind_splits)
    then have "(i, p) \<in> set (sp_htable (st_pool (px_backend px)))" using hash_find_in by (simp add: high_speed_search_sess_def)
    then show ?thesis using inv by (auto simp: pool_inv_def Let_def)
  qed
  then show ?thesis using inv by (auto simp: ids_ok_def sessions_of_def pool_inv_def Let_def)
qed


section \<open>Properties\<close>




section \<open>Concrete commands\<close>

text \<open>The sample backend with the nodes on device 1 only.\<close>

definition session_backend :: backend where
  "session_backend = sample_backend\<lparr>st_eng := sample_engine\<lparr>be_dev_set :=
     map (\<lambda>i. (sample_dev i)\<lparr>hd_free_node_queue := if i = 1 then [100, 101] else []\<rparr>) [0..15]\<rparr>\<rparr>"

lemma session_backend_same:
  "st_pool session_backend = st_pool sample_backend" "st_sess session_backend = (\<lambda>_. None)"
  "st_node session_backend = st_node sample_backend" "be_tx (st_eng session_backend) = sample_tx_env"
  "be_ops (st_eng session_backend)" "sp_engine (st_pool sample_backend)"
  by (simp_all add: session_backend_def sample_backend_def sample_engine_def)

lemma session_backend_unknown: "high_speed_search_sess session_backend i = None"
  by (simp add: session_backend_same high_speed_search_sess_def hash_find_def) (simp add: sample_backend_def)

lemma sample_serving: "serving 4 32 (sample_proxy session_backend)"
proof -
  have free: "unused_nodes session_backend = [100, 101]" by code_simp
  have "length (be_dev_set (st_eng session_backend)) = MAX_HS_DEV_NUM" by code_simp
  then have "nodes_ok session_backend"
    unfolding nodes_ok_def free by (auto simp: session_backend_unknown session_backend_same) (simp_all add: sample_backend_def)
  moreover have "engine_ready (sample_proxy session_backend)" by code_simp
  moreover have "pool_inv session_backend"
    using sample_pool_inv by (simp add: pool_inv_def session_backend_same) (simp add: sample_backend_def)
  moreover have "tx_ok 4 32 sample_tx_env" using sample_tx_ok by (simp add: sample_backend_def sample_engine_def)
  ultimately show ?thesis by (simp add: serving_def sample_proxy_def session_backend_same)
qed

definition sample_requests :: "request list" where
  "sample_requests =
     [\<lparr>rq_tx = sample_tx_env, rq_oracle = sample_msg_oracle None, rq_command = Open 11 1 SESS_TCP_PROTO [10, 0, 0, 2, 80, 0], rq_rest = []\<rparr>,
      \<lparr>rq_tx = sample_tx_env, rq_oracle = sample_msg_oracle (Some [0, 0, 0]), rq_command = Data 11 1 [1, 2, 3], rq_rest = [0]\<rparr>,
      \<lparr>rq_tx = sample_tx_env, rq_oracle = sample_msg_oracle None, rq_command = Close 11 1, rq_rest = []\<rparr>]"

lemma sample_granted: "all_granted 4 32 sample_requests (sample_proxy session_backend)"
proof -
  have tx: "tx_ok 4 32 sample_tx_env" "tx_room 4 sample_tx_env"
    using sample_tx_ok sample_room by (simp_all add: sample_backend_def sample_engine_def)
  have same: "put_tx sample_tx_env session_backend = session_backend"
    by (simp add: put_tx_def session_backend_def sample_backend_def sample_engine_def)
  have "map_option fst (open_session True sample_unreachable (sample_oracle 0) (create_para 0 11 1 SESS_TCP_PROTO [10, 0, 0, 2, 80, 0])
     (put_sess 7 sample_mem0 session_backend)) = Some (Inr (1, 1, 5))" by code_simp
  then have "open_session True sample_unreachable (sample_oracle 0) (create_para 0 11 1 SESS_TCP_PROTO [10, 0, 0, 2, 80, 0])
     (put_sess 7 sample_mem0 session_backend) \<noteq> None" by auto
  then have "granted 4 32 (hd sample_requests) (sample_proxy session_backend)"
    using tx by (auto simp: granted_def sample_requests_def sample_msg_oracle_def sample_proxy_def same sample_oracle_def session_backend_same)
  moreover have "granted 4 32 (sample_requests ! 1) px" "granted 4 32 (sample_requests ! 2) px" for px
    using tx by (simp_all add: granted_def sample_requests_def sample_msg_oracle_def)
  ultimately show ?thesis by (auto simp: sample_requests_def split: option.splits)
qed

lemma sample_sessions: "sessions_of (sample_proxy session_backend) = \<lparr>free_ids = [1, 2, 3], open_sessions = Map.empty\<rparr>"
  by (simp add: sessions_of_def sample_proxy_def session_view_def fun_eq_iff session_backend_unknown session_backend_same)
    (simp add: sample_backend_def)



end
