(* ===== verification/Protocol_Start.thy ===== *)
theory Protocol_Start
  imports Protocol_Run Engine_Setup_Lemmas
begin

text \<open>
  From the start of the program to the session protocol: the devices of an accepted configuration own
  distinct free nodes, so a started engine serves, with all 1024 session ids free and no session.
\<close>

section \<open>Nodes of a configuration\<close>

text \<open>\<open>malloc\<close> gives different addresses to the nodes of all devices.\<close>

definition distinct_nodes :: "dev_oracle \<Rightarrow> bool" where
  "distinct_nodes orc \<longleftrightarrow> (\<forall>i j i' j' n. j < MAX_SESS_NODE_NUM \<longrightarrow> j' < MAX_SESS_NODE_NUM \<longrightarrow>
     dr_node orc i j = Some n \<longrightarrow> dr_node orc i' j' = Some n \<longrightarrow> i = i' \<and> j = j')"

lemma alloc_nodes_list:
  assumes "alloc_nodes f = Some ns"
  shows "ns = map (\<lambda>j. the (f j)) [0..<MAX_SESS_NODE_NUM]" "\<And>j. j < MAX_SESS_NODE_NUM \<Longrightarrow> f j = Some (ns ! j)"
proof -
  have ns: "None \<notin> f ` {0..<MAX_SESS_NODE_NUM}" "ns = map (\<lambda>j. the (f j)) [0..<MAX_SESS_NODE_NUM]"
    using assms by (auto simp: alloc_nodes_def Let_def split: if_splits)
  show "ns = map (\<lambda>j. the (f j)) [0..<MAX_SESS_NODE_NUM]" by (rule ns)
  show "f j = Some (ns ! j)" if "j < MAX_SESS_NODE_NUM" for j
    using ns that by (cases "f j") (force simp: image_iff)+
qed

lemma placed_node:
  assumes "placed orc ini i d a" "n \<in> set (hd_free_node_queue d)"
  shows "\<exists>j < MAX_SESS_NODE_NUM. dr_node orc i j = Some n"
proof -
  obtain ns where N: "alloc_nodes (dr_node orc i) = Some ns" "hd_free_node_queue d = ns"
    using assms(1) by (auto simp: placed_def)
  then obtain j where "j < length ns" "ns ! j = n" using assms(2) by (auto simp: in_set_conv_nth)
  then show ?thesis using alloc_nodes_list(2) [OF N(1), of j] alloc_nodes_from(1) [OF N(1)] by auto
qed

lemma placed_distinct:
  assumes "placed orc ini i d a" "distinct_nodes orc"
  shows "distinct (hd_free_node_queue d)"
proof -
  obtain ns where N: "alloc_nodes (dr_node orc i) = Some ns" "hd_free_node_queue d = ns"
    using assms(1) by (auto simp: placed_def)
  have "length ns = MAX_SESS_NODE_NUM" using alloc_nodes_from(1) [OF N(1)] .
  moreover have "j = j'" if "j < MAX_SESS_NODE_NUM" "j' < MAX_SESS_NODE_NUM" "ns ! j = ns ! j'" for j j'
    using that alloc_nodes_list(2) [OF N(1), of j] alloc_nodes_list(2) [OF N(1), of j'] assms(2)
    unfolding distinct_nodes_def by metis
  ultimately show ?thesis unfolding N(2) distinct_conv_nth by metis
qed

lemma distinct_node_lists:
  assumes "\<And>i. i < length devs \<Longrightarrow> distinct (hd_free_node_queue (devs ! i))"
    and "\<And>i k n. i < length devs \<Longrightarrow> k < length devs \<Longrightarrow> n \<in> set (hd_free_node_queue (devs ! i)) \<Longrightarrow>
      n \<in> set (hd_free_node_queue (devs ! k)) \<Longrightarrow> i = k"
  shows "distinct (node_lists devs)"
  using assms
proof (induction devs)
  case (Cons d devs)
  have "distinct (node_lists devs)"
  proof (rule Cons.IH)
    show "distinct (hd_free_node_queue (devs ! i))" if "i < length devs" for i
      using Cons.prems(1) [of "Suc i"] that by simp
    show "i = k" if "i < length devs" "k < length devs" "n \<in> set (hd_free_node_queue (devs ! i))"
      "n \<in> set (hd_free_node_queue (devs ! k))" for i k n
      using Cons.prems(2) [of "Suc i" "Suc k" n] that by simp
  qed
  moreover have "distinct (hd_free_node_queue d)" using Cons.prems(1) [of 0] by simp
  moreover have "set (hd_free_node_queue d) \<inter> set (node_lists devs) = {}"
  proof -
    have False if n: "n \<in> set (hd_free_node_queue d)" "n \<in> set (node_lists devs)" for n
    proof -
      obtain e where e: "e \<in> set devs" "n \<in> set (hd_free_node_queue e)"
        using n(2) by (auto simp: node_lists_def)
      then obtain k where "k < length devs" "devs ! k = e" by (auto simp: in_set_conv_nth)
      then show False using Cons.prems(2) [of 0 "Suc k" n] n(1) e(2) by simp
    qed
    then show ?thesis by blast
  qed
  ultimately show ?case by (simp add: node_lists_def)
qed (simp add: node_lists_def)

lemma node_lists_cleared:
  assumes "\<And>i. m \<le> i \<Longrightarrow> i < length devs \<Longrightarrow> hd_free_node_queue (devs ! i) = []"
  shows "node_lists devs = node_lists (take m devs)"
proof -
  have "concat (map hd_free_node_queue (drop m devs)) = []"
    using assms by (auto simp: in_set_conv_nth)
  then show ?thesis
    by (metis append_Nil2 append_take_drop_id concat_append map_append node_lists_def)
qed

text \<open>After the configuration was accepted, every free node is allocated, unused and in one device only.\<close>

lemma configured_nodes:
  assumes "engine_init_hs_net_dev orc mm file st = Some (BACKEND_PROXY_PROCESS_OK, st')" "distinct_nodes orc"
  shows "length (be_dev_set (st_eng st')) = MAX_HS_DEV_NUM" "distinct (unused_nodes st')"
    "\<forall>n \<in> set (unused_nodes st'). st_node st' n = Some None"
proof -
  have "length (be_dev_set (st_eng st')) = MAX_HS_DEV_NUM \<and> distinct (unused_nodes st')
    \<and> (\<forall>n \<in> set (unused_nodes st'). st_node st' n = Some None)"
    using assms(1)
  proof (cases rule: init_ok_cases)
    case no_file
    then show ?thesis by (simp add: unused_nodes_def cleared_hs_dev_def)
  next
    case (loaded ini devs m nodes)
    let ?n = "length (section_names ini)"
    from hs_dev_loop_done [OF loaded(4)] loaded(3)
    have L: "length devs = MAX_HS_DEV_NUM" "\<And>i. ?n \<le> i \<Longrightarrow> i < MAX_HS_DEV_NUM \<Longrightarrow> devs ! i = cleared_hs_dev"
      "\<And>i. i < ?n \<Longrightarrow> \<exists>a. placed orc ini i (devs ! i) a"
      "nodes = put_nodes (node_lists (take ?n devs)) (Some None) (st_node st)"
      by (auto simp: dev_codes)
    have unused: "unused_nodes st' = node_lists (take ?n devs)"
      using node_lists_cleared [of ?n devs] L(1,2) loaded(5)
      by (simp add: unused_nodes_def node_lists_def cleared_hs_dev_def comp_def)
    have "distinct (node_lists (take ?n devs))"
    proof (rule distinct_node_lists)
      show "distinct (hd_free_node_queue (take ?n devs ! i))" if "i < length (take ?n devs)" for i
        using that L(3) [of i] placed_distinct [OF _ assms(2)] by auto
      show "i = k" if "i < length (take ?n devs)" "k < length (take ?n devs)"
        "n \<in> set (hd_free_node_queue (take ?n devs ! i))" "n \<in> set (hd_free_node_queue (take ?n devs ! k))" for i k n
        using that L(3) [of i] L(3) [of k] placed_node [of orc ini i "devs ! i"] placed_node [of orc ini k "devs ! k"] assms(2)
        unfolding distinct_nodes_def by (simp add: nth_take) metis
    qed
    then show ?thesis using L(1,4) loaded(5) unused by (simp add: put_nodes_def)
  qed
  then show "length (be_dev_set (st_eng st')) = MAX_HS_DEV_NUM" "distinct (unused_nodes st')"
    "\<forall>n \<in> set (unused_nodes st'). st_node st' n = Some None" by blast+
qed


section \<open>The started engine\<close>

definition fresh_sessions :: sessions where
  "fresh_sessions = \<lparr>free_ids = map of_nat [1..<Suc 1024], open_sessions = Map.empty\<rparr>"

lemma started_serves:
  assumes "st = px_backend (es_proxy es)" "st0 = st\<lparr>st_eng := cleared_engine (st_eng st)\<rparr>"
    and "engine_init_hs_net_dev (io_dev orc) (io_dev_mem orc) (io_dev_file orc) st0
      = Some (BACKEND_PROXY_PROCESS_OK, st1)"
    and "io_pool_ok orc" "io_mem_pool_ok orc" "io_lock_ok orc" "0 < io_epoll orc"
    and "lc_initialized (es_ctx es) = 0" "0 \<le> io_mem_fd orc" "io_mapped orc = Some a"
    and "base = a + page_offset (io_page_size orc) SHM_CH1_PADDR" "fits base SHM_CH1_TOTAL_SIZE"
    and "vb = base + of_nat (2 * SHM_QUEUE_SIZE)"
    and "fresh_queue vb 253 (load_queue (te_mem (be_tx (st_eng st))) base)"
    and "fresh_queue vb 253 (load_queue (te_mem (be_tx (st_eng st))) (base + of_nat SHM_QUEUE_SIZE))"
    and "engine_init_iot_devices (io_iot_set_ok orc) (io_iot_mem orc) (io_iot_file orc) (io_iot_ns orc)
      (Some \<lparr>ie_iot_dev_set = None, ie_iot_dev_num = 0\<rparr>) \<noteq> None"
    and "distinct_nodes (io_dev orc)"
  shows "\<exists>es'. engine_init orc es = Some es' \<and> serving 253 4096 (es_proxy es') \<and> sessions_of (es_proxy es') = fresh_sessions"
proof -
  from engine_started [OF assms(1-16)] obtain es' rx t where S: "engine_init orc es = Some es'"
    "px_engine_set (es_proxy es')" "px_pool_set (es_proxy es')"
    "st_pool (px_backend (es_proxy es')) = snd (high_speed_init_pool True (st_pool st1))"
    "st_node (px_backend (es_proxy es')) = st_node st1"
    "st_eng (px_backend (es_proxy es')) = (st_eng st1)\<lparr>be_ops := True, be_selector_id := 0, be_sess_pool := True,
         be_hyper_rx_queue := Some rx, be_tx := t\<rparr>" "tx_ready 253 4096 t" by blast
  let ?st = "px_backend (es_proxy es')"
  note N = configured_nodes [OF assms(3,17)]
  have table: "sp_htable (st_pool ?st) = []" "sp_id_queue (st_pool ?st) = map of_nat [1..<Suc 1024]"
    by (simp_all add: S(4) high_speed_init_pool_def fill_id_queue_def del: upt_Suc)
  have none: "high_speed_search_sess ?st i = None" for i
    by (simp add: high_speed_search_sess_def hash_find_def table)
  have "unused_nodes ?st = unused_nodes st1" by (rule unused_nodes_cong) (simp add: S(6))
  then have "nodes_ok ?st" using N by (simp add: nodes_ok_def none S(5,6))
  moreover have "engine_ready (es_proxy es')" using S(2,7) by (simp add: engine_ready_def S(4,6) tx_ready_def high_speed_init_pool_def)
  moreover have "pool_inv ?st" using S(4) by (rule fresh_pool_inv)
  moreover have "tx_ok 253 4096 t" using S(7) by (simp add: tx_ok_def sizeof_tx_buf_def)
  ultimately have "serving 253 4096 (es_proxy es')" using S(3) by (simp add: serving_def S(4,6) high_speed_init_pool_def)
  moreover have "sessions_of (es_proxy es') = fresh_sessions"
    unfolding sessions_of_def fresh_sessions_def session_view_def none table by (simp add: fun_eq_iff)
  ultimately show ?thesis using S(1) by blast
qed



section \<open>A concrete start\<close>

lemma sample_distinct_nodes: "distinct_nodes (io_dev (sample_init 9))"
proof -
  have "i = i' \<and> j = j'" if "j < 10" "j' < 10" "10 * i' + j' = 10 * i + j" for i j i' j' :: nat
    using that by presburger
  then show ?thesis
    by (simp add: distinct_nodes_def sample_init_def sample_dev_oracle_def MAX_SESS_NODE_NUM_def)
qed

text \<open>A transmit queue of the size of the channel.\<close>

definition channel_tx :: tx_env where
  "channel_tx = sample_tx_env\<lparr>te_hyper_tx_queue := Some (sample_queue\<lparr>hq_capacity := 253, hq_block_size := 4096\<rparr>)\<rparr>"

lemma channel_tx_facts: "tx_ok 253 4096 channel_tx" "tx_room 253 channel_tx"
proof -
  show "tx_ok 253 4096 channel_tx"
    by (simp add: tx_ok_def tx_ready_def channel_tx_def sample_tx_env_def queue_inv_def sample_queue_def lock_is_free_def
        fits_def sizeof_tx_buf_def)
  show "tx_room 253 channel_tx"
    by (simp add: channel_tx_def sample_tx_env_def tx_blocks_def queue_contents_def sample_queue_def ring_slots_def ring_len_def)
qed

definition early_requests :: "request list" where
  "early_requests =
     [\<lparr>rq_tx = channel_tx, rq_oracle = sample_msg_oracle (Some [0, 0, 0]), rq_command = Data 11 1 [1, 2, 3], rq_rest = []\<rparr>,
      \<lparr>rq_tx = channel_tx, rq_oracle = sample_msg_oracle None, rq_command = Close 11 1, rq_rest = []\<rparr>]"

lemma early_granted: "all_granted 253 4096 early_requests px"
  using channel_tx_facts by (auto simp: early_requests_def granted_def sample_msg_oracle_def split: option.splits)


end
