(* ===== verification/Can_Device.thy ===== *)
theory Can_Device
  imports Message_Dump Iot_Startup
begin

text \<open>
  The CAN device the backend talks to (\<open>src/can/can_server.c\<close>) and its test client
  (\<open>src/can/can_client.c\<close>).  What the kernel answers is an argument; what reaches standard output,
  the frames sent and the descriptors closed are the result.  Messages on standard error are left out.
\<close>

section \<open>Frames\<close>

definition CAN_EFF_FLAG :: u32 where "CAN_EFF_FLAG = 0x80000000"
definition CAN_FRAME_SIZE :: int where "CAN_FRAME_SIZE = 16"

text \<open>The bytes the two display loops visit.\<close>

definition shown_data :: "can_frame \<Rightarrow> bytes" where
  "shown_data f = take (min (unat (cf_can_dlc f)) 8) (cf_data f)"

definition ascii_or_dot :: "u8 \<Rightarrow> char" where
  "ascii_or_dot b = (if 32 \<le> b \<and> b \<le> 126 then char_of (unat b) else CHR ''.'')"

definition show_can_frame :: "can_frame \<Rightarrow> string" where
  "show_can_frame f =
     line [''Received CAN frame:'']
     @ line [''  CAN ID: 0x'', hex 0 (cf_can_id f), if cf_can_id f AND CAN_EFF_FLAG \<noteq> 0 then '' (Extended)'' else '''']
     @ line [''  Data Length: '', dec (cf_can_dlc f)]
     @ ''  Data: '' @ hex_bytes (shown_data f) @ nl
     @ ''  ASCII: '' @ map ascii_or_dot (shown_data f)"

definition hello_frame :: can_frame where
  "hello_frame = \<lparr>cf_can_id = 0x123, cf_can_dlc = 5, cf_data = map (of_char :: char \<Rightarrow> u8) ''Hello'' @ [0, 0, 0]\<rparr>"

definition world_frame :: can_frame where
  "world_frame = \<lparr>cf_can_id = 0x124, cf_can_dlc = 5, cf_data = map (of_char :: char \<Rightarrow> u8) ''World'' @ [0, 0, 0]\<rparr>"

text \<open>The filter the server installs, and what the kernel does with a filter.\<close>

record can_filter =
  fi_can_id :: u32
  fi_can_mask :: u32

definition server_filter :: can_filter where
  "server_filter = \<lparr>fi_can_id = 0x123, fi_can_mask = 0x7FF\<rparr>"

definition passes :: "can_filter \<Rightarrow> can_frame \<Rightarrow> bool" where
  "passes flt f \<longleftrightarrow> cf_can_id f AND fi_can_mask flt = fi_can_id flt AND fi_can_mask flt"


section \<open>Answers of the kernel\<close>

record can_net =
  cn_socket :: int
  cn_filter_set :: int
  cn_ifindex :: "int option"
  cn_bind :: int

datatype can_read = Read_frame int can_frame | Read_failed int

text \<open>One round of the server: a signal may arrive during the read.\<close>

record can_turn =
  ct_read :: can_read
  ct_signal :: bool
  ct_write :: int

record can_world =
  cw_running :: bool
  cw_out :: string
  cw_sent :: "can_frame list"
  cw_closed :: "int list"

definition can_start :: can_world where
  "can_start = \<lparr>cw_running = True, cw_out = [], cw_sent = [], cw_closed = []\<rparr>"

definition can_print :: "string \<Rightarrow> can_world \<Rightarrow> can_world" where
  "can_print s w = w\<lparr>cw_out := cw_out w @ s\<rparr>"

definition can_close :: "int \<Rightarrow> can_world \<Rightarrow> can_world" where
  "can_close fd w = w\<lparr>cw_closed := cw_closed w @ [fd]\<rparr>"


section \<open>The server\<close>

definition signal_handler :: "can_world \<Rightarrow> can_world" where
  "signal_handler w = can_print (nl @ line [''Shutting down CAN server...'']) (w\<lparr>cw_running := False\<rparr>)"

text \<open>The answer to a frame whose data starts with H.\<close>

definition can_answer :: "int \<Rightarrow> can_frame \<Rightarrow> can_world \<Rightarrow> can_world" where
  "can_answer response_bytes f w =
     (if 0 < cf_can_dlc f \<and> cf_data f ! 0 = of_char (CHR ''H'') then
        if response_bytes < 0 then w
        else if response_bytes \<noteq> CAN_FRAME_SIZE then w
        else can_print (line [''Sent response frame successfully'']) (w\<lparr>cw_sent := cw_sent w @ [world_frame]\<rparr>)
      else w)"

definition can_round :: "can_turn \<Rightarrow> can_world \<Rightarrow> can_world" where
  "can_round t w =
     (let w = (if ct_signal t then signal_handler w else w) in
      case ct_read t of
        Read_failed errno \<Rightarrow> w
      | Read_frame nbytes f \<Rightarrow>
          if nbytes < CAN_FRAME_SIZE then w
          else can_answer (ct_write t) f (can_print (show_can_frame f @ nl @ line [''---'']) w))"

text \<open>\<open>Inl\<close>: the loop still runs after these rounds.\<close>

fun can_loop :: "can_turn list \<Rightarrow> can_world \<Rightarrow> can_world + can_world" where
  "can_loop [] w = (if cw_running w then Inl w else Inr w)"
| "can_loop (t # ts) w = (if cw_running w then can_loop ts (can_round t w) else Inr w)"

definition can_server :: "can_net \<Rightarrow> can_turn list \<Rightarrow> can_world + int \<times> can_world" where
  "can_server N ts =
     (let s = cn_socket N; w = can_start in
      if s < 0 then Inr (1, w)
      else if cn_filter_set N < 0 then Inr (1, can_close s w)
      else case cn_ifindex N of
        None \<Rightarrow> Inr (1, can_close s w)
      | Some _ \<Rightarrow>
          if cn_bind N < 0 then Inr (1, can_close s w)
          else (case can_loop ts (can_print (line [''Server started on can0, waiting for CAN frames (Press Ctrl+C to stop)...'']) w) of
                  Inl w \<Rightarrow> Inl w
                | Inr w \<Rightarrow> Inr (0, can_print (line [''CAN server stopped successfully.'']) (can_close s w))))"


section \<open>The client\<close>

definition can_client :: "can_net \<Rightarrow> int \<Rightarrow> can_read \<Rightarrow> int \<times> can_world" where
  "can_client N written got =
     (let s = cn_socket N; w = can_start in
      if s < 0 then (1, w)
      else case cn_ifindex N of
        None \<Rightarrow> (1, can_close s w)
      | Some idx \<Rightarrow>
          let w = can_print (line [''can0 interface index: '', dec_int idx]) w in
          if cn_bind N < 0 then (1, can_close s w)
          else if written < 0 then (1, can_close s w)
          else if written \<noteq> CAN_FRAME_SIZE then (1, can_close s w)
          else
            let w = can_print (line [''Sent CAN frame: ID=0x'', hex 0 (cf_can_id hello_frame), '', DLC='',
                      dec (cf_can_dlc hello_frame), '', Data=Hello'']) (w\<lparr>cw_sent := cw_sent w @ [hello_frame]\<rparr>)
            in case got of
                 Read_failed errno \<Rightarrow> (1, w)
               | Read_frame nbytes f \<Rightarrow>
                   if nbytes < CAN_FRAME_SIZE then (1, w)
                   else (0, can_close s (can_print (show_can_frame f) w)))"


section \<open>Lemmas\<close>

lemmas can_step_defs = can_round_def can_answer_def signal_handler_def can_print_def can_close_def

definition complete_frame :: "can_turn \<Rightarrow> can_frame option" where
  "complete_frame t = (case ct_read t of Read_frame n f \<Rightarrow> if n < CAN_FRAME_SIZE then None else Some f | _ \<Rightarrow> None)"

definition asks :: "can_turn \<Rightarrow> bool" where
  "asks t \<longleftrightarrow> (case complete_frame t of
     Some f \<Rightarrow> 0 < cf_can_dlc f \<and> cf_data f ! 0 = of_char (CHR ''H'') \<and> ct_write t = CAN_FRAME_SIZE | None \<Rightarrow> False)"

lemma can_round_sent: "cw_sent (can_round t w) = cw_sent w @ (if asks t then [world_frame] else [])"
  by (auto simp: can_step_defs asks_def complete_frame_def Let_def CAN_FRAME_SIZE_def split: can_read.splits)

lemma can_round_running: "cw_running (can_round t w) = (cw_running w \<and> \<not> ct_signal t)"
  by (auto simp: can_step_defs Let_def split: can_read.splits)

lemma can_round_closed: "cw_closed (can_round t w) = cw_closed w"
  by (auto simp: can_step_defs Let_def split: can_read.splits)

lemmas can_round_simps = can_round_sent can_round_running can_round_closed

text \<open>While no signal arrives the server answers each frame that starts with H, in order, and nothing else.\<close>

lemma can_loop_serves:
  assumes "cw_running w" "\<forall>t \<in> set ts. \<not> ct_signal t"
  shows "\<exists>w'. can_loop ts w = Inl w' \<and> cw_running w' \<and> cw_closed w' = cw_closed w
    \<and> cw_sent w' = cw_sent w @ map (\<lambda>_. world_frame) (filter asks ts)"
  using assms
proof (induction ts arbitrary: w)
  case (Cons t ts)
  then show ?case using Cons.IH [of "can_round t w"] by (auto simp: can_round_simps)
qed simp

text \<open>The round in which a signal arrives is completed and is the last one.\<close>

lemma can_loop_stops:
  assumes "cw_running w" "\<forall>t \<in> set ts. \<not> ct_signal t" "ct_signal t"
  shows "\<exists>w'. can_loop (ts @ t # later) w = Inr w' \<and> cw_closed w' = cw_closed w
    \<and> cw_sent w' = cw_sent w @ map (\<lambda>_. world_frame) (filter asks (ts @ [t]))"
  using assms
proof (induction ts arbitrary: w)
  case Nil
  then have "can_loop (t # later) w = Inr (can_round t w)"
    by (cases later) (simp_all add: can_round_simps)
  then show ?case by (simp add: can_round_simps)
next
  case (Cons u us)
  then show ?case using Cons.IH [of "can_round u w"] by (auto simp: can_round_simps)
qed

definition net_up :: "can_net \<Rightarrow> bool" where
  "net_up N \<longleftrightarrow> 0 \<le> cn_socket N \<and> 0 \<le> cn_filter_set N \<and> cn_ifindex N \<noteq> None \<and> 0 \<le> cn_bind N"

lemma can_server_stops:
  assumes "net_up N" "\<forall>t \<in> set ts. \<not> ct_signal t" "ct_signal t"
  shows "\<exists>w. can_server N (ts @ t # later) = Inr (0, w) \<and> cw_closed w = [cn_socket N]
    \<and> cw_sent w = map (\<lambda>_. world_frame) (filter asks (ts @ [t]))"
proof -
  let ?w = "can_print (line [''Server started on can0, waiting for CAN frames (Press Ctrl+C to stop)...'']) can_start"
  have "cw_running ?w" "cw_sent ?w = []" "cw_closed ?w = []" by (simp_all add: can_print_def can_start_def)
  then show ?thesis
    using assms(1) can_loop_stops [OF _ assms(2,3), of ?w later]
    by (auto simp: can_server_def net_up_def Let_def can_print_def can_close_def)
qed

text \<open>Every failure of the setup ends with code 1, nothing sent and the socket closed if it was opened.\<close>

lemma can_server_setup_fails:
  assumes "\<not> net_up N"
  shows "can_server N ts = Inr (1, can_start\<lparr>cw_closed := if cn_socket N < 0 then [] else [cn_socket N]\<rparr>)"
  using assms by (auto simp: can_server_def net_up_def Let_def can_close_def can_start_def split: option.splits)

lemma filter_passes: "passes server_filter hello_frame" "\<not> passes server_filter world_frame"
  by (simp_all add: passes_def server_filter_def hello_frame_def world_frame_def)

text \<open>An extended identifier passes the filter too when its last eleven bits are 0x123.\<close>

lemma filter_passes_extended: "passes server_filter (f\<lparr>cf_can_id := 0x123 OR CAN_EFF_FLAG\<rparr>)"
  by (simp add: passes_def server_filter_def CAN_EFF_FLAG_def)

text \<open>After a failed or short read the client ends without closing its socket.\<close>

lemma can_client_leaks:
  assumes "net_up N" "case got of Read_failed e \<Rightarrow> True | Read_frame n f \<Rightarrow> n < CAN_FRAME_SIZE"
  shows "fst (can_client N CAN_FRAME_SIZE got) = 1 \<and> cw_closed (snd (can_client N CAN_FRAME_SIZE got)) = []"
  using assms by (auto simp: can_client_def net_up_def Let_def can_print_def can_start_def CAN_FRAME_SIZE_def split: can_read.splits)


text \<open>The client shows the answer of the server and ends with code 0.\<close>

lemma can_client_shows_answer:
  assumes "net_up N"
  shows "\<exists>w out. can_client N CAN_FRAME_SIZE (Read_frame CAN_FRAME_SIZE world_frame) = (0, w)
    \<and> cw_sent w = [hello_frame] \<and> cw_closed w = [cn_socket N] \<and> cw_out w = out @ ''  ASCII: World''"
proof -
  have "map ascii_or_dot (shown_data world_frame) = ''World''" by code_simp
  then show ?thesis
    using assms by (auto simp: can_client_def net_up_def Let_def can_print_def can_close_def can_start_def CAN_FRAME_SIZE_def
        show_can_frame_def)
qed


section \<open>Property\<close>

text \<open>
  C39.  A CAN message of the backend is answered once.  A message of one to eight bytes that starts with
  H and is written by a CAN session is a frame that passes the filter of the server; the server answers it
  with one frame, also among other traffic, and does not see its own answers although it asks for the
  frames it sends; at a signal it completes its round, closes its socket and ends with code 0.
\<close>

theorem can_message_answered_once:
  assumes "net_up N" "1 \<le> length d" "length d \<le> 8" "hd d = of_char (CHR ''H'')"
    "mb_len m = of_nat (length d)" "mb_data m = d @ rest"
    "\<forall>t \<in> set (before @ after). \<not> ct_signal t \<and> \<not> asks t" "ct_signal t" "\<not> asks t"
  shows "\<exists>f w. can_send_to_remote CAN_FRAME_SIZE (Some s) (Some m)
       = Some (BACKEND_PROXY_PROCESS_OK, Some s, [Ev_write (is_dev_fd s) (enc_can_frame f)])
    \<and> length (enc_can_frame f) = nat CAN_FRAME_SIZE \<and> passes server_filter f
    \<and> can_server N (before @ \<lparr>ct_read = Read_frame CAN_FRAME_SIZE f, ct_signal = False, ct_write = CAN_FRAME_SIZE\<rparr> # after @ [t])
       = Inr (0, w)
    \<and> cw_sent w = [world_frame] \<and> \<not> passes server_filter world_frame \<and> cw_closed w = [cn_socket N]"
proof -
  define f where "f = \<lparr>cf_can_id = 0x123, cf_can_dlc = of_nat (length d), cf_data = overwrite d (replicate 8 0)\<rparr>"
  let ?t = "\<lparr>ct_read = Read_frame CAN_FRAME_SIZE f, ct_signal = False, ct_write = CAN_FRAME_SIZE\<rparr>"
  have len: "unat (of_nat (length d) :: u8) = length d" using assms(3) by (simp add: unat_of_nat take_bit_nat_eq_self)
  have dlc: "(ucast (of_nat (length d) :: u32) :: u8) = of_nat (length d)" using assms(3) by (simp add: unsigned_of_nat take_bit_nat_eq_self)
  have S: "can_send_to_remote CAN_FRAME_SIZE (Some s) (Some m)
       = Some (BACKEND_PROXY_PROCESS_OK, Some s, [Ev_write (is_dev_fd s) (enc_can_frame f)])"
    using assms(3,5,6) by (simp add: can_send_to_remote_def Let_def f_def dlc len CAN_MAX_DLEN_def CAN_FRAME_SIZE_def)
  have ne: "d \<noteq> []" using assms(2) by auto
  then have "0 < (of_nat (length d) :: u8)" using len by (simp add: word_less_nat_alt)
  moreover note ne
  ultimately have "asks ?t" using assms(4) by (simp add: asks_def complete_frame_def f_def overwrite_def nth_append hd_conv_nth CAN_FRAME_SIZE_def)
  then have "filter asks (before @ ?t # after @ [t]) = [?t]" using assms(7,9) by (simp add: filter_empty_conv)
  then show ?thesis
    using S can_server_stops [OF assms(1), of "before @ ?t # after" t "[]"] assms(3,7,8) filter_passes(2)
    by (intro exI [of _ f]) (auto simp: passes_def server_filter_def f_def enc_can_frame_def overwrite_def CAN_FRAME_SIZE_def)
qed

definition sample_net :: can_net where
  "sample_net = \<lparr>cn_socket = 3, cn_filter_set = 0, cn_ifindex = Some 4, cn_bind = 0\<rparr>"

theorem can_message_answered_once_witness:
  "\<exists>f w. passes server_filter f
    \<and> can_server sample_net [\<lparr>ct_read = Read_failed 11, ct_signal = False, ct_write = 0\<rparr>,
         \<lparr>ct_read = Read_frame CAN_FRAME_SIZE f, ct_signal = False, ct_write = CAN_FRAME_SIZE\<rparr>,
         \<lparr>ct_read = Read_failed 4, ct_signal = True, ct_write = 0\<rparr>] = Inr (0, w)
    \<and> cw_sent w = [world_frame] \<and> cw_closed w = [3]"
proof -
  have N: "net_up sample_net" "cn_socket sample_net = 3" by (simp_all add: net_up_def sample_net_def)
  show ?thesis
    using can_message_answered_once [OF N(1), of "[0x48, 0x69]" "\<lparr>mb_data = [0x48, 0x69], mb_len = 2, mb_addr = \<lparr>ia_addr_type = 0, ia_addr_info = []\<rparr>\<rparr>" "[]"
        "[\<lparr>ct_read = Read_failed 11, ct_signal = False, ct_write = 0\<rparr>]" "[]"
        "\<lparr>ct_read = Read_failed 4, ct_signal = True, ct_write = 0\<rparr>" cleared_session] N(2)
    by (auto simp: asks_def complete_frame_def)
qed

end
