(* ===== verification/Bt_Device.thy ===== *)
theory Bt_Device
  imports Message_Dump
begin

text \<open>
  The Bluetooth device the backend talks to: an L2CAP server that sends back what it receives
  (\<open>src/bt/bt_server.c\<close>), and a test client (\<open>src/bt/bt_client.c\<close>).  The socket keeps packets
  apart.  Results of the system calls are arguments; packets sent, standard output of the server and
  the descriptors closed are the result.
\<close>

section \<open>State\<close>

datatype l2_read = L2_packet bytes | L2_error

record l2_world =
  lw_out :: string
  lw_sent :: "bytes list"
  lw_closed :: "int list"

definition l2_start :: l2_world where
  "l2_start = \<lparr>lw_out = [], lw_sent = [], lw_closed = []\<rparr>"

definition l2_print :: "string \<Rightarrow> l2_world \<Rightarrow> l2_world" where
  "l2_print s w = w\<lparr>lw_out := lw_out w @ s\<rparr>"

definition l2_close :: "int \<Rightarrow> l2_world \<Rightarrow> l2_world" where
  "l2_close fd w = w\<lparr>lw_closed := lw_closed w @ [fd]\<rparr>"

definition L2_BUF_SIZE :: nat where "L2_BUF_SIZE = 1024"

text \<open>
  \<open>read\<close> into all but the last byte of a cleared buffer: the number of bytes and the buffer.  What a
  packet has beyond the buffer is lost.
\<close>

definition l2_receive :: "l2_read \<Rightarrow> int \<times> bytes" where
  "l2_receive r = (case r of
     L2_error \<Rightarrow> (- 1, replicate L2_BUF_SIZE 0)
   | L2_packet p \<Rightarrow> (let d = take (L2_BUF_SIZE - 1) p in (int (length d), d @ replicate (L2_BUF_SIZE - length d) 0)))"

text \<open>\<open>%.*s\<close>\<close>

definition l2_text :: "int \<Rightarrow> bytes \<Rightarrow> string" where
  "l2_text n buf = c_string (take (nat n) buf)"


section \<open>The server\<close>

text \<open>
  The echo loop over pairs of what the next read gives and what the write of it returns.  \<open>Inl\<close>: the
  loop waits for another packet; \<open>Inr\<close>: it was left, with the number of bytes of the last read.
\<close>

fun echo_loop :: "(l2_read \<times> int) list \<Rightarrow> int \<Rightarrow> l2_world \<Rightarrow> l2_world + int \<times> l2_world" where
  "echo_loop [] sk w = Inl w"
| "echo_loop ((r, bytes_written) # ts) sk w =
     (let (bytes_read, buf) = l2_receive r in
      if bytes_read > 0 then
        let w = l2_print (line [''Received['', number 10 (nat bytes_read), '' bytes]: '', l2_text bytes_read buf]) w
        in if bytes_written < 0 then Inr (bytes_read, w)
           else let w = w\<lparr>lw_sent := lw_sent w @ [take (nat bytes_written) (take (nat bytes_read) buf)]\<rparr>
                in if bytes_written \<noteq> bytes_read then Inr (bytes_read, w)
                   else echo_loop ts sk w
      else Inr (bytes_read, w))"

record l2_net =
  ln_socket :: int
  ln_setsockopt :: int
  ln_bind :: int
  ln_listen :: int
  ln_accept :: int
  ln_peer :: string

definition bt_server :: "l2_net \<Rightarrow> (l2_read \<times> int) list \<Rightarrow> l2_world + int \<times> l2_world" where
  "bt_server N ts =
     (let s = ln_socket N; w = l2_start in
      if s < 0 then Inr (1, w)
      else if ln_setsockopt N < 0 then Inr (1, l2_close s w)
      else if ln_bind N < 0 then Inr (1, l2_close s w)
      else if ln_listen N < 0 then Inr (1, l2_close s w)
      else
        let w = l2_print (line [''L2CAP server listening on PSM: 0x1001'']) w; c = ln_accept N
        in if c < 0 then Inr (1, l2_close s w)
           else (case echo_loop ts c (l2_print (line [''Accepted connection from '', ln_peer N]) w) of
                   Inl w \<Rightarrow> Inl w
                 | Inr (bytes_read, w) \<Rightarrow>
                     Inr (0, l2_print (line [''Server stopped.'']) (l2_close s (l2_close c
                       (if bytes_read = 0 then l2_print (line [''Client disconnected'']) w else w))))))"


section \<open>The client\<close>

text \<open>Without an argument the client ends at once.  What it shows of the echo is the last component.\<close>

definition hello_l2cap :: bytes where
  "hello_l2cap = map of_char ''Hello, L2CAP!''"

definition bt_client ::
  "string list \<Rightarrow> int \<Rightarrow> int \<Rightarrow> (string \<Rightarrow> int) \<Rightarrow> int \<Rightarrow> l2_read \<Rightarrow> int \<times> l2_world \<times> string option" where
  "bt_client args sk bound connect bytes_written got =
     (case args of
        dest # _ \<Rightarrow>
          if sk < 0 then (1, l2_start, None)
          else if bound < 0 then (1, l2_close sk l2_start, None)
          else if connect (take 17 dest) = 0 then
            (if bytes_written > 0 then
               let w = l2_start\<lparr>lw_sent := [take (nat bytes_written) hello_l2cap]\<rparr>;
                   (bytes_read, buf) = l2_receive got
               in (0, l2_close sk w, if bytes_read > 0 then Some (l2_text bytes_read buf) else None)
             else (0, l2_close sk l2_start, None))
          else (1, l2_close sk l2_start, None)
      | [] \<Rightarrow> (1, l2_start, None))"


section \<open>Lemmas\<close>

definition small_packet :: "bytes \<Rightarrow> bool" where
  "small_packet p \<longleftrightarrow> p \<noteq> [] \<and> length p < L2_BUF_SIZE"

lemma l2_receive_small: "small_packet p \<Longrightarrow> l2_receive (L2_packet p) = (int (length p), p @ replicate (L2_BUF_SIZE - length p) 0)"
  by (auto simp: small_packet_def l2_receive_def Let_def min_def)

lemma l2_receive_end: "fst (l2_receive (L2_packet [])) = 0" "fst (l2_receive L2_error) = - 1"
  by (simp_all add: l2_receive_def Let_def)

definition echoes :: "bytes list \<Rightarrow> (l2_read \<times> int) list" where
  "echoes ps = map (\<lambda>p. (L2_packet p, int (length p))) ps"

text \<open>Packets that fit the buffer and are written completely come back in order, and the loop goes on.\<close>

lemma echo_loop_echoes:
  assumes "\<forall>p \<in> set ps. small_packet p"
  shows "\<exists>w'. echo_loop (echoes ps @ ts) sk w = echo_loop ts sk w' \<and> lw_sent w' = lw_sent w @ ps \<and> lw_closed w' = lw_closed w"
  using assms
proof (induction ps arbitrary: w)
  case (Cons p ps)
  let ?w = "(l2_print (line [''Received['', number 10 (length p), '' bytes]: '', l2_text (int (length p)) (p @ replicate (L2_BUF_SIZE - length p) 0)]) w)"
  have "echo_loop (echoes (p # ps) @ ts) sk w = echo_loop (echoes ps @ ts) sk (?w\<lparr>lw_sent := lw_sent ?w @ [p]\<rparr>)"
    using Cons.prems by (simp add: echoes_def l2_receive_small small_packet_def Let_def)
  then show ?case
    using Cons.IH [of "?w\<lparr>lw_sent := lw_sent ?w @ [p]\<rparr>"] Cons.prems by (auto simp: l2_print_def)
qed (auto simp: echoes_def)

definition l2_up :: "l2_net \<Rightarrow> bool" where
  "l2_up N \<longleftrightarrow> 0 \<le> ln_socket N \<and> 0 \<le> ln_setsockopt N \<and> 0 \<le> ln_bind N \<and> 0 \<le> ln_listen N \<and> 0 \<le> ln_accept N"

lemma bt_server_runs:
  assumes "l2_up N" "echo_loop ts (ln_accept N) (l2_print (line [''Accepted connection from '', ln_peer N])
      (l2_print (line [''L2CAP server listening on PSM: 0x1001'']) l2_start)) = Inr (n, w)"
  shows "\<exists>w'. bt_server N ts = Inr (0, w') \<and> lw_sent w' = lw_sent w \<and> lw_closed w' = lw_closed w @ [ln_accept N, ln_socket N]"
  using assms by (auto simp: l2_up_def bt_server_def Let_def l2_close_def l2_print_def)

text \<open>
  The server sends every packet back unchanged and in order until the client closes the connection, the
  read fails, or a write fails or is incomplete; it ends with code 0 and both sockets closed.
\<close>

lemma bt_server_echoes:
  assumes "l2_up N" "\<forall>p \<in> set ps. small_packet p" "r = L2_packet [] \<or> r = L2_error"
  shows "\<exists>w. bt_server N (echoes ps @ (r, n) # later) = Inr (0, w) \<and> lw_sent w = ps
    \<and> lw_closed w = [ln_accept N, ln_socket N]"
proof -
  let ?w = "l2_print (line [''Accepted connection from '', ln_peer N]) (l2_print (line [''L2CAP server listening on PSM: 0x1001'']) l2_start)"
  have s: "lw_sent ?w = []" "lw_closed ?w = []" by (simp_all add: l2_print_def l2_start_def)
  obtain w' where w': "echo_loop (echoes ps @ (r, n) # later) (ln_accept N) ?w = echo_loop ((r, n) # later) (ln_accept N) w'"
    "lw_sent w' = ps" "lw_closed w' = []"
    using echo_loop_echoes [OF assms(2), of "(r, n) # later" "ln_accept N" ?w] s by auto
  have "echo_loop ((r, n) # later) (ln_accept N) w' = Inr (fst (l2_receive r), w')"
    using assms(3) by (auto simp: l2_receive_def Let_def)
  then show ?thesis using bt_server_runs [OF assms(1) w'(1) [THEN trans]] w'(2,3) by auto
qed

lemma bt_server_write_fails:
  assumes "l2_up N" "\<forall>p \<in> set ps. small_packet p" "small_packet q" "n < int (length q)"
  shows "\<exists>w. bt_server N (echoes ps @ (L2_packet q, n) # later) = Inr (0, w)
    \<and> lw_sent w = ps @ (if n < 0 then [] else [take (nat n) q]) \<and> lw_closed w = [ln_accept N, ln_socket N]"
proof -
  let ?w = "l2_print (line [''Accepted connection from '', ln_peer N]) (l2_print (line [''L2CAP server listening on PSM: 0x1001'']) l2_start)"
  have s: "lw_sent ?w = []" "lw_closed ?w = []" by (simp_all add: l2_print_def l2_start_def)
  obtain w' where w': "echo_loop (echoes ps @ (L2_packet q, n) # later) (ln_accept N) ?w = echo_loop ((L2_packet q, n) # later) (ln_accept N) w'"
    "lw_sent w' = ps" "lw_closed w' = []"
    using echo_loop_echoes [OF assms(2), of "(L2_packet q, n) # later" "ln_accept N" ?w] s by auto
  have "\<exists>v. echo_loop ((L2_packet q, n) # later) (ln_accept N) w' = Inr (int (length q), v)
      \<and> lw_sent v = ps @ (if n < 0 then [] else [take (nat n) q]) \<and> lw_closed v = []"
    using assms(3,4) w'(2,3) by (auto simp: l2_receive_small small_packet_def Let_def l2_print_def)
  then show ?thesis using bt_server_runs [OF assms(1) w'(1) [THEN trans]] by auto
qed

text \<open>Client and server: the client shows its own message.\<close>

lemma bt_client_shows_echo:
  assumes "l2_up N" "0 \<le> sk" "0 \<le> bound" "connect (take 17 dest) = 0"
  shows "\<exists>w v. bt_client (dest # args) sk bound connect 13 (L2_packet (hd (lw_sent w))) = (0, v, Some ''Hello, L2CAP!'')
    \<and> bt_server N [(L2_packet (hd (lw_sent v)), 13), (L2_packet [], 0)] = Inr (0, w) \<and> lw_closed v = [sk]"
proof -
  have h: "small_packet hello_l2cap" "length hello_l2cap = 13" by (simp_all add: small_packet_def hello_l2cap_def L2_BUF_SIZE_def)
  obtain w where w: "bt_server N [(L2_packet hello_l2cap, 13), (L2_packet [], 0)] = Inr (0, w)" "lw_sent w = [hello_l2cap]"
    using bt_server_echoes [OF assms(1), of "[hello_l2cap]" "L2_packet []" 0 "[]"] h by (auto simp: echoes_def)
  have "l2_text 13 (hello_l2cap @ replicate (L2_BUF_SIZE - 13) 0) = ''Hello, L2CAP!''" by code_simp
  then show ?thesis
    using assms(2-4) w h
    by - (rule exI [of _ w], auto simp: bt_client_def l2_receive_small Let_def l2_close_def l2_start_def)
qed

end
