(* ===== verification/Modbus_Device.thy ===== *)
theory Modbus_Device
  imports Message_Dump
begin

text \<open>
  The simulated Modbus TCP device (\<open>src/modbusTCP/server.c\<close>) and its test client
  (\<open>src/modbusTCP/client.c\<close>).  The library libmodbus is a parameter: what its functions return, and for
  the requests of the client the whole device behind them as a state.  Messages on standard error are
  left out.
\<close>

section \<open>The server\<close>

record modbus_mapping_t =
  tab_bits :: "u8 list"
  tab_input_bits :: "u8 list"
  tab_registers :: "u16 list"
  tab_input_registers :: "u16 list"

datatype modbus_call = Modbus_free | Modbus_mapping_free | Modbus_close | Close_socket int

text \<open>The two loops that set the first ten registers and coils.\<close>

primrec set_registers :: "nat \<Rightarrow> modbus_mapping_t \<Rightarrow> modbus_mapping_t" where
  "set_registers 0 m = m"
| "set_registers (Suc i) m = (let m = set_registers i m in m\<lparr>tab_registers := (tab_registers m)[i := of_nat (i * 3)]\<rparr>)"

primrec set_coils :: "nat \<Rightarrow> modbus_mapping_t \<Rightarrow> modbus_mapping_t" where
  "set_coils 0 m = m"
| "set_coils (Suc i) m = (let m = set_coils i m in m\<lparr>tab_bits := (tab_bits m)[i := of_nat (i mod 2)]\<rparr>)"

text \<open>
  The requests of one connection, given by what each \<open>modbus_receive\<close> returns.  The first component
  says whether the loop was left.
\<close>

fun serve_requests ::
  "(bytes \<Rightarrow> int \<Rightarrow> modbus_mapping_t \<Rightarrow> int \<times> modbus_mapping_t) \<Rightarrow> (int \<times> bytes) list \<Rightarrow> modbus_mapping_t \<Rightarrow> bool \<times> modbus_mapping_t" where
  "serve_requests modbus_reply [] m = (False, m)"
| "serve_requests modbus_reply ((rc, query) # rs) m =
     (if rc = - 1 then (True, m)
      else if rc = 0 then serve_requests modbus_reply rs m
      else let (rc, m) = modbus_reply query rc m in
        if rc = - 1 then (True, m) else serve_requests modbus_reply rs m)"

text \<open>\<open>Inl\<close>: the server waits for a connection or a request; \<open>Inr\<close>: accepting failed.\<close>

fun serve_clients ::
  "(bytes \<Rightarrow> int \<Rightarrow> modbus_mapping_t \<Rightarrow> int \<times> modbus_mapping_t) \<Rightarrow> (int \<times> (int \<times> bytes) list) list
   \<Rightarrow> modbus_mapping_t \<Rightarrow> modbus_mapping_t + modbus_mapping_t" where
  "serve_clients modbus_reply [] m = Inl m"
| "serve_clients modbus_reply ((accepted, rs) # cs) m =
     (if accepted = - 1 then Inr m
      else case serve_requests modbus_reply rs m of
        (left, m) \<Rightarrow> if left then serve_clients modbus_reply cs m else Inl m)"

record modbus_lib =
  ml_new_tcp :: bool
  ml_mapping_new :: "modbus_mapping_t option"
  ml_listen :: int
  ml_reply :: "bytes \<Rightarrow> int \<Rightarrow> modbus_mapping_t \<Rightarrow> int \<times> modbus_mapping_t"

definition modbus_server ::
  "modbus_lib \<Rightarrow> (int \<times> (int \<times> bytes) list) list \<Rightarrow> modbus_mapping_t + int \<times> modbus_call list" where
  "modbus_server L cs =
     (if \<not> ml_new_tcp L then Inr (- 1, [])
      else case ml_mapping_new L of
        None \<Rightarrow> Inr (- 1, [Modbus_free])
      | Some m \<Rightarrow>
          let m = set_coils 10 (set_registers 10 m); s = ml_listen L in
          if s = - 1 then Inr (- 1, [Modbus_mapping_free, Modbus_free])
          else case serve_clients (ml_reply L) cs m of
            Inl m \<Rightarrow> Inl m
          | Inr m \<Rightarrow> Inr (0, (if s \<noteq> - 1 then [Close_socket s] else []) @ [Modbus_mapping_free, Modbus_close, Modbus_free]))"


section \<open>The client\<close>

text \<open>The functions of the library the client calls, on the state \<open>'s\<close> of the device behind them.\<close>

record 's modbus_api =
  api_read_registers :: "nat \<Rightarrow> nat \<Rightarrow> 's \<Rightarrow> int \<times> u16 list \<times> 's"
  api_read_input_registers :: "nat \<Rightarrow> nat \<Rightarrow> 's \<Rightarrow> int \<times> u16 list \<times> 's"
  api_read_bits :: "nat \<Rightarrow> nat \<Rightarrow> 's \<Rightarrow> int \<times> u8 list \<times> 's"
  api_read_input_bits :: "nat \<Rightarrow> nat \<Rightarrow> 's \<Rightarrow> int \<times> u8 list \<times> 's"
  api_write_register :: "nat \<Rightarrow> u16 \<Rightarrow> 's \<Rightarrow> int \<times> 's"
  api_write_registers :: "nat \<Rightarrow> u16 list \<Rightarrow> 's \<Rightarrow> int \<times> 's"
  api_write_bit :: "nat \<Rightarrow> int \<Rightarrow> 's \<Rightarrow> int \<times> 's"
  api_write_bits :: "nat \<Rightarrow> u8 list \<Rightarrow> 's \<Rightarrow> int \<times> 's"

record 's modbus_run =
  mr_out :: string
  mr_regs :: "u16 list"
  mr_bits :: "u8 list"
  mr_dev :: 's

definition mb_say :: "string \<Rightarrow> 's modbus_run \<Rightarrow> 's modbus_run" where
  "mb_say s r = r\<lparr>mr_out := mr_out r @ s\<rparr>"

definition mb_title :: "string \<Rightarrow> 's modbus_run \<Rightarrow> 's modbus_run" where
  "mb_title s r = mb_say (nl @ line [''--- '', s, '' ---'']) r"

text \<open>The values of a read overwrite the start of the client's array.\<close>

definition mb_store :: "'a list \<Rightarrow> 'a list \<Rightarrow> 'a list" where
  "mb_store new old = new @ drop (length new) old"

text \<open>The display loop over \<open>rc\<close> values of the array, numbered from \<open>base\<close>.\<close>

definition mb_values :: "string \<Rightarrow> nat \<Rightarrow> int \<Rightarrow> 'a :: len word list \<Rightarrow> string" where
  "mb_values label base rc a = concat (map (\<lambda>i. line [label, ''['', number 10 (base + i), ''] = '', dec (a ! i)]) [0..<nat rc])"

definition mb_read_regs ::
  "('s \<Rightarrow> int \<times> u16 list \<times> 's) \<Rightarrow> (int \<Rightarrow> u16 list \<Rightarrow> string) \<Rightarrow> 's modbus_run \<Rightarrow> 's modbus_run" where
  "mb_read_regs call show r =
     (let (rc, vs, d) = call (mr_dev r); r = r\<lparr>mr_dev := d\<rparr> in
      if rc = - 1 then r
      else let r = r\<lparr>mr_regs := mb_store vs (mr_regs r)\<rparr> in mb_say (show rc (mr_regs r)) r)"

definition mb_read_coils ::
  "('s \<Rightarrow> int \<times> u8 list \<times> 's) \<Rightarrow> (int \<Rightarrow> u8 list \<Rightarrow> string) \<Rightarrow> 's modbus_run \<Rightarrow> 's modbus_run" where
  "mb_read_coils call show r =
     (let (rc, vs, d) = call (mr_dev r); r = r\<lparr>mr_dev := d\<rparr> in
      if rc = - 1 then r
      else let r = r\<lparr>mr_bits := mb_store vs (mr_bits r)\<rparr> in mb_say (show rc (mr_bits r)) r)"

definition mb_write :: "('s \<Rightarrow> int \<times> 's) \<Rightarrow> string \<Rightarrow> 's modbus_run \<Rightarrow> 's modbus_run" where
  "mb_write call msg r =
     (let (rc, d) = call (mr_dev r); r = r\<lparr>mr_dev := d\<rparr> in if rc = - 1 then r else mb_say (line [msg]) r)"

definition show_many :: "string \<Rightarrow> string \<Rightarrow> nat \<Rightarrow> int \<Rightarrow> 'a :: len word list \<Rightarrow> string" where
  "show_many kind label base rc a = line [''Successfully read '', number 10 (nat rc), '' '', kind, '':''] @ mb_values label base rc a"

text \<open>The ten requests in the order of the source.\<close>

definition client_writes :: "'s modbus_api \<Rightarrow> 's modbus_run \<Rightarrow> 's modbus_run" where
  "client_writes A r =
     (let r = mb_read_regs (api_read_registers A 0 5) (show_many ''registers'' ''Register'' 0) (mb_title ''Reading Holding Registers'' r);
          r = mb_read_coils (api_read_bits A 0 5) (show_many ''coils'' ''Coil'' 0) (mb_title ''Reading Coils'' r);
          r = mb_write (api_write_register A 5 999) ''Successfully wrote register[5] = 999'' (mb_title ''Writing Single Register'' r);
          r = mb_read_regs (api_read_registers A 5 1) (\<lambda>rc a. line [''Register[5] = '', dec (a ! 0)])
                (mb_title ''Reading Register After Write'' r);
          r = mb_write (api_write_registers A 6 [100, 200, 300]) ''Successfully wrote 3 registers starting at address 6''
                (mb_title ''Writing Multiple Registers'' r)
      in mb_read_regs (api_read_registers A 6 3) (show_many ''registers'' ''Register'' 6)
           (mb_title ''Reading Registers After Multiple Write'' r))"

definition client_coils :: "'s modbus_api \<Rightarrow> 's modbus_run \<Rightarrow> 's modbus_run" where
  "client_coils A r =
     (let r = mb_write (api_write_bit A 5 1) ''Successfully wrote coil[5] = 1'' (mb_title ''Writing Single Coil'' r);
          r = mb_read_coils (api_read_bits A 5 1) (\<lambda>rc a. line [''Coil[5] = '', dec (a ! 0)]) (mb_title ''Reading Coil After Write'' r);
          r = mb_write (api_write_bits A 7 [1, 0, 1]) ''Successfully wrote 3 coils starting at address 7''
                (mb_title ''Writing Multiple Coils'' r);
          r = mb_read_regs (api_read_input_registers A 0 5) (show_many ''input registers'' ''Input Register'' 0)
                (mb_title ''Reading Input Registers'' r)
      in mb_read_coils (api_read_input_bits A 0 5) (show_many ''discrete inputs'' ''Discrete Input'' 0)
           (mb_title ''Reading Discrete Inputs'' r))"

definition modbus_client ::
  "'s modbus_api \<Rightarrow> bool \<Rightarrow> int \<Rightarrow> 's modbus_run \<Rightarrow> int \<times> modbus_call list \<times> 's modbus_run" where
  "modbus_client A new_tcp connected r =
     (if \<not> new_tcp then (- 1, [], r)
      else if connected = - 1 then (- 1, [Modbus_free], r)
      else let r = client_coils A (client_writes A (mb_say (line [''Connected to Modbus TCP server'']) r))
           in (0, [Modbus_close, Modbus_free], mb_say (nl @ line [''Disconnected from server'']) r))"


section \<open>Lemmas\<close>

lemma set_registers_values:
  "n \<le> length (tab_registers m) \<Longrightarrow>
   tab_registers (set_registers n m) = map (\<lambda>i. of_nat (i * 3)) [0..<n] @ drop n (tab_registers m)"
proof (induction n)
  case (Suc n)
  then show ?case
    by (simp add: Let_def list_update_append Cons_nth_drop_Suc [symmetric])
qed simp

lemma set_registers_keeps [simp]: "tab_bits (set_registers n m) = tab_bits m"
  by (induction n) (simp_all add: Let_def)

lemma set_coils_values:
  "n \<le> length (tab_bits m) \<Longrightarrow>
   tab_bits (set_coils n m) = map (\<lambda>i. of_nat (i mod 2)) [0..<n] @ drop n (tab_bits m)"
proof (induction n)
  case (Suc n)
  then show ?case
    by (simp add: Let_def list_update_append Cons_nth_drop_Suc [symmetric])
qed simp

lemma set_coils_keeps [simp]: "tab_registers (set_coils n m) = tab_registers m"
  by (induction n) (simp_all add: Let_def)

text \<open>The device starts with the multiples of three in its registers and alternating coils.\<close>

lemma modbus_server_starts:
  assumes "ml_new_tcp L" "ml_mapping_new L = Some m" "ml_listen L \<noteq> - 1"
    "10 \<le> length (tab_registers m)" "10 \<le> length (tab_bits m)"
  shows "\<exists>m'. modbus_server L [] = Inl m' \<and> take 10 (tab_registers m') = [0, 3, 6, 9, 12, 15, 18, 21, 24, 27]
    \<and> take 10 (tab_bits m') = [0, 1, 0, 1, 0, 1, 0, 1, 0, 1]"
  using assms by (simp add: modbus_server_def Let_def set_registers_values set_coils_values upt_rec)

text \<open>
  However the server ends, what it created is released once, in this order; it ends with code 0 only
  when accepting a connection fails.
\<close>

lemma modbus_server_releases:
  assumes "modbus_server L cs = Inr (code, calls)"
  shows "count_list calls Modbus_free = (if ml_new_tcp L then 1 else 0)
    \<and> count_list calls Modbus_mapping_free = (if ml_new_tcp L \<and> ml_mapping_new L \<noteq> None then 1 else 0)
    \<and> (code = 0 \<longleftrightarrow> ml_new_tcp L \<and> ml_mapping_new L \<noteq> None \<and> ml_listen L \<noteq> - 1)"
  using assms by (auto simp: modbus_server_def Let_def split: if_splits option.splits sum.splits)

text \<open>
  A device keeps what is written to it: reads give the current values, writes change the addressed
  ones only.
\<close>

definition device_laws :: "'s modbus_api \<Rightarrow> ('s \<Rightarrow> nat \<Rightarrow> u16) \<Rightarrow> ('s \<Rightarrow> nat \<Rightarrow> u8) \<Rightarrow> bool" where
  "device_laws A reg coil \<longleftrightarrow>
     (\<forall>a n s. api_read_registers A a n s = (int n, map (reg s) [a..<a + n], s))
   \<and> (\<forall>a n s. api_read_bits A a n s = (int n, map (coil s) [a..<a + n], s))
   \<and> (\<forall>a v s. \<exists>s'. api_write_register A a v s = (1, s') \<and> reg s' = (reg s)(a := v) \<and> coil s' = coil s)
   \<and> (\<forall>a vs s. \<exists>s'. api_write_registers A a vs s = (int (length vs), s') \<and> coil s' = coil s
        \<and> reg s' = (\<lambda>i. if a \<le> i \<and> i < a + length vs then vs ! (i - a) else reg s i))
   \<and> (\<forall>a v s. \<exists>s'. api_write_bit A a v s = (1, s') \<and> coil s' = (coil s)(a := if v = 0 then 0 else 1) \<and> reg s' = reg s)"

lemma device_lawsD:
  assumes "device_laws A reg coil"
  shows "api_read_registers A a n s = (int n, map (reg s) [a..<a + n], s)"
    "api_read_bits A a n s = (int n, map (coil s) [a..<a + n], s)"
    "\<exists>s'. api_write_register A a v s = (1, s') \<and> reg s' = (reg s)(a := v) \<and> coil s' = coil s"
    "\<exists>s'. api_write_registers A a vs s = (int (length vs), s') \<and> coil s' = coil s
        \<and> reg s' = (\<lambda>i. if a \<le> i \<and> i < a + length vs then vs ! (i - a) else reg s i)"
    "\<exists>s'. api_write_bit A a b s = (1, s') \<and> coil s' = (coil s)(a := if b = 0 then 0 else 1) \<and> reg s' = reg s"
  using assms unfolding device_laws_def by blast+

lemma mb_accessors [simp]:
  "mr_dev (mb_say s r) = mr_dev r" "mr_regs (mb_say s r) = mr_regs r" "mr_bits (mb_say s r) = mr_bits r"
  "mr_out (mb_say s r) = mr_out r @ s"
  "mr_dev (mb_title s r) = mr_dev r" "mr_regs (mb_title s r) = mr_regs r"
  "mr_bits (mb_title s r) = mr_bits r" "mr_out (mb_title s r) = mr_out r @ nl @ line [''--- '', s, '' ---'']"
  by (simp_all add: mb_say_def mb_title_def)

lemma mb_read_regs_done:
  assumes "call (mr_dev r) = (rc, vs, d)" "rc \<noteq> - 1"
  shows "mr_dev (mb_read_regs call show r) = d" "mr_out (mb_read_regs call show r) = mr_out r @ show rc (mb_store vs (mr_regs r))"
  using assms by (simp_all add: mb_read_regs_def Let_def)

lemma mb_read_coils_done:
  assumes "call (mr_dev r) = (rc, vs, d)" "rc \<noteq> - 1"
  shows "mr_dev (mb_read_coils call show r) = d" "mr_out (mb_read_coils call show r) = mr_out r @ show rc (mb_store vs (mr_bits r))"
  using assms by (simp_all add: mb_read_coils_def Let_def)

lemma mb_write_done:
  assumes "call (mr_dev r) = (rc, d)"
  shows "mr_dev (mb_write call msg r) = d"
  using assms by (simp add: mb_write_def mb_say_def Let_def)

text \<open>Against such a device the client reads back what it wrote.\<close>

lemma client_writes_read_back:
  assumes "device_laws A reg coil"
  shows "\<exists>out. mr_out (client_writes A r) = out @ mb_values ''Register'' 6 3 ([100, 200, 300] :: u16 list)
    \<and> reg (mr_dev (client_writes A r)) 5 = 999 \<and> coil (mr_dev (client_writes A r)) = coil (mr_dev r)"
proof -
  note reads = device_lawsD(1,2) [OF assms]
  define r1 where "r1 = mb_read_regs (api_read_registers A 0 5) (show_many ''registers'' ''Register'' 0) (mb_title ''Reading Holding Registers'' r)"
  define r2 where "r2 = mb_read_coils (api_read_bits A 0 5) (show_many ''coils'' ''Coil'' 0) (mb_title ''Reading Coils'' r1)"
  define r3 where "r3 = mb_write (api_write_register A 5 999) ''Successfully wrote register[5] = 999'' (mb_title ''Writing Single Register'' r2)"
  define r4 where "r4 = mb_read_regs (api_read_registers A 5 1) (\<lambda>rc a. line [''Register[5] = '', dec (a ! 0)])
    (mb_title ''Reading Register After Write'' r3)"
  define r5 where "r5 = mb_write (api_write_registers A 6 [100, 200, 300]) ''Successfully wrote 3 registers starting at address 6''
    (mb_title ''Writing Multiple Registers'' r4)"
  have r12: "mr_dev r2 = mr_dev r" unfolding r2_def r1_def by (simp add: mb_read_regs_done mb_read_coils_done reads)
  obtain s1 where s1: "api_write_register A 5 999 (mr_dev r) = (1, s1)" "reg s1 = (reg (mr_dev r))(5 := 999)" "coil s1 = coil (mr_dev r)"
    using device_lawsD(3) [OF assms] by blast
  have r34: "mr_dev r4 = s1" unfolding r4_def r3_def using s1(1) by (simp add: mb_read_regs_done mb_write_done reads r12)
  obtain s2 where s2: "api_write_registers A 6 [100, 200, 300] s1 = (3, s2)" "coil s2 = coil s1"
    "reg s2 = (\<lambda>i. if 6 \<le> i \<and> i < 9 then [100, 200, 300] ! (i - 6) else reg s1 i)"
    using device_lawsD(4) [OF assms, of 6 "[100, 200, 300]" s1] by (auto simp: numeral_eq_Suc)
  have r5: "mr_dev r5 = s2" unfolding r5_def using s2(1) by (simp add: mb_write_done r34)
  have vals: "map (reg s2) [6..<9] = [100, 200, 300]" unfolding s2(3) by (simp add: upt_rec)
  have last: "client_writes A r = mb_read_regs (api_read_registers A 6 3) (show_many ''registers'' ''Register'' 6)
    (mb_title ''Reading Registers After Multiple Write'' r5)"
    unfolding client_writes_def Let_def r1_def r2_def r3_def r4_def r5_def by (rule refl)
  have call: "api_read_registers A 6 3 (mr_dev (mb_title ''Reading Registers After Multiple Write'' r5)) = (3, [100, 200, 300], s2)"
    by (simp add: reads r5 vals del: upt_rec_numeral)
  have shown: "show_many ''registers'' ''Register'' 6 3 (mb_store [100, 200, 300] (mr_regs r5))
    = line [''Successfully read '', number 10 3, '' '', ''registers'', '':''] @ mb_values ''Register'' 6 3 ([100, 200, 300] :: u16 list)"
    by (simp add: show_many_def mb_values_def mb_store_def upt_rec)
  have "mr_dev (client_writes A r) = s2" unfolding last by (rule mb_read_regs_done(1) [of "api_read_registers A 6 3", OF call]) simp
  moreover have "mr_out (client_writes A r) = mr_out (mb_title ''Reading Registers After Multiple Write'' r5)
     @ show_many ''registers'' ''Register'' 6 3 (mb_store [100, 200, 300] (mr_regs r5))"
    unfolding last by (subst mb_read_regs_done(2) [of "api_read_registers A 6 3", OF call]) simp_all
  ultimately show ?thesis unfolding shown using s1 s2 by (auto simp del: append_assoc simp add: append_assoc [symmetric])
qed

end
