(* ===== verification/Scenario_Test.thy ===== *)
theory Scenario_Test
  imports Engine_Lemmas
begin

text \<open>
  The scenario functions (\<open>src/senario_src/senario_test.c\<close>) that feed the backend with fixed messages
  through the queue over the memory pool and drive the steps of the main loop one by one.  They are
  compiled into the program; their calls in \<open>main\<close> are disabled.
\<close>

section \<open>Fixed messages\<close>

definition general_header :: "u8 \<Rightarrow> u16 \<Rightarrow> u16 \<Rightarrow> u16 \<Rightarrow> bytes \<Rightarrow> GeneralProxyMsgHeader" where
  "general_header ty fid bid len inner =
     \<lparr>gh_outer_header = \<lparr>ph_version = PROXY_PROTO_VERSION_1, ph_proxy_msg_type = ty, ph_frontend_sess_id = fid,
        ph_backend_sess_id = bid, ph_payload_len = len\<rparr>,
      gh_inner_header = inner, gh_iot_addr = \<lparr>ia_addr_type = 0, ia_addr_info = []\<rparr>, gh_iot_addr_len = 0\<rparr>"

definition dev_enable_msg_hdr :: GeneralProxyMsgHeader where
  "dev_enable_msg_hdr = general_header PROXY_MSG_TYPE_DEV PROXY_ADMIN_SESSION_ID PROXY_ADMIN_SESSION_ID (10 + 2)
     (enc_DevMsgHeader \<lparr>dh_version = PROXY_PROTO_DEV_VERSION_1, dh_msg_type = DEV_MSG_ENABLE, dh_msg_id = 0,
        dh_action_type = ACTION_TYPE_COMMAND, dh_payload_len = 2\<rparr>)"

definition strgy_set_msg_hdr :: GeneralProxyMsgHeader where
  "strgy_set_msg_hdr = general_header PROXY_MSG_TYPE_STRGY PROXY_ADMIN_SESSION_ID PROXY_ADMIN_SESSION_ID (10 + 2)
     (enc_StrgyMsgHeader \<lparr>th_version = PROXY_PROTO_STRGY_VERSION_1, th_msg_type = STRGY_MSG_SET, th_msg_id = 0,
        th_action_type = ACTION_TYPE_COMMAND, th_payload_len = 2\<rparr>)"

definition sess_create_msg_hdr :: GeneralProxyMsgHeader where
  "sess_create_msg_hdr = general_header PROXY_MSG_TYPE_SESS 1 BACKEND_HANDOVER_SESSION_ID (10 + 10)
     (enc_SessMsgHeader \<lparr>sh_version = PROXY_PROTO_SESS_VERSION_1, sh_msg_type = SESS_MSG_CREATE,
        sh_action_type = ACTION_TYPE_COMMAND, sh_ip_version = SESS_IPV4_PROTO, sh_payload_len = 10\<rparr>)"

text \<open>\<open>data_msg_inject\<close> stores the length before it sends; the inner header is not used.\<close>

definition proxy_data_msg_hdr :: "u16 \<Rightarrow> GeneralProxyMsgHeader" where
  "proxy_data_msg_hdr len = general_header PROXY_MSG_TYPE_DATA 1 1 len (replicate 12 0)"

definition test_msg :: bytes where
  "test_msg = map of_char ''test msg''"

text \<open>UDP to \<open>192.168.137.2:8888\<close> through any device.\<close>

definition test_params :: bytes where
  "test_params = SessIPv4Params_bytes 0xFF SESS_UDP_PROTO ([192, 168, 137, 2] @ put_u16 8888)"


section \<open>Injection\<close>

text \<open>The checks of the source in their order; the allocation modes of the type are all valid.\<close>

definition scenario_msg_inject ::
  "tx_env option \<Rightarrow> SharedMemoryPoolQueue option \<Rightarrow> GeneralProxyMsgHeader option \<Rightarrow> bytes option \<Rightarrow> nat \<Rightarrow>
   MemoryAllocMode \<Rightarrow> bool \<Rightarrow> bool \<Rightarrow> nat \<Rightarrow> bool \<Rightarrow> build_result option" where
  "scenario_msg_inject engine rx_queue msg_header msg_payload msg_payload_len alloc_mode has_result has_desc desc_len malloc_ok =
     (let failed = Some (BACKEND_PROXY_PROCESS_ERROR, engine, rx_queue, None) in
      if engine = None then failed
      else if rx_queue = None then failed
      else if msg_header = None then failed
      else if \<not> has_result then failed
      else if \<not> has_desc then failed
      else if msg_payload = None \<and> msg_payload_len > 0 then failed
      else if desc_len = 0 then failed
      else build_proxy_general_message engine msg_header msg_payload msg_payload_len has_result alloc_mode malloc_ok rx_queue)"

definition inject_shared ::
  "GeneralProxyMsgHeader \<Rightarrow> bytes \<Rightarrow> tx_env \<Rightarrow> SharedMemoryPoolQueue option \<Rightarrow> build_result option" where
  "inject_shared h p env rx = scenario_msg_inject (Some env) rx (Some h) (Some p) (length p) MEMORY_ALLOC_SHARED True True 100 True"

definition device_msg_inject :: "tx_env \<Rightarrow> SharedMemoryPoolQueue option \<Rightarrow> build_result option" where
  "device_msg_inject = inject_shared dev_enable_msg_hdr (put_u16 0xFF)"

definition strategy_msg_inject :: "tx_env \<Rightarrow> SharedMemoryPoolQueue option \<Rightarrow> build_result option" where
  "strategy_msg_inject = inject_shared strgy_set_msg_hdr (put_u16 0)"

definition session_msg_inject :: "tx_env \<Rightarrow> SharedMemoryPoolQueue option \<Rightarrow> build_result option" where
  "session_msg_inject = inject_shared sess_create_msg_hdr test_params"

definition data_msg_inject :: "tx_env \<Rightarrow> SharedMemoryPoolQueue option \<Rightarrow> build_result option" where
  "data_msg_inject = inject_shared (proxy_data_msg_hdr (of_nat (length test_msg))) test_msg"

text \<open>The status, error and mask of a report, sent under the header of an enable command.\<close>

definition device_msg_inject_backend_hyperamp :: "tx_env \<Rightarrow> SharedMemoryPoolQueue option \<Rightarrow> build_result option" where
  "device_msg_inject_backend_hyperamp env rx =
     scenario_msg_inject (Some env) rx (Some dev_enable_msg_hdr)
       (Some ([SESS_OP_STATUS_SUCCESS, SESS_OP_CODE_SUCCESS] @ put_u16 0xFF)) 4 MEMORY_ALLOC_AMPQUEUE True True 100 True"

text \<open>The results of the injections are ignored.\<close>

definition and_then ::
  "(tx_env \<Rightarrow> SharedMemoryPoolQueue option \<Rightarrow> build_result option) \<Rightarrow> tx_env \<times> SharedMemoryPoolQueue option \<Rightarrow>
   (tx_env \<times> SharedMemoryPoolQueue option) option" where
  "and_then inject s = (case inject (fst s) (snd s) of
     Some (_, Some env, rx, _) \<Rightarrow> Some (env, rx) | _ \<Rightarrow> None)"

definition test_proxy_scenario_multi_type_msg_build ::
  "tx_env \<times> SharedMemoryPoolQueue option \<Rightarrow> (int \<times> tx_env \<times> SharedMemoryPoolQueue option) option" where
  "test_proxy_scenario_multi_type_msg_build s = do {
     s \<leftarrow> and_then device_msg_inject s;
     s \<leftarrow> and_then strategy_msg_inject s;
     s \<leftarrow> and_then session_msg_inject s;
     s \<leftarrow> and_then data_msg_inject s;
     Some (BACKEND_PROXY_PROCESS_OK, s) }"


section \<open>Reading and moving\<close>

text \<open>
  One of the four reads: the pointer keeps its value when the queue is empty, and the message it
  points to is processed again.  \<open>None\<close> is the use of the null pointer.
\<close>

definition read_and_process ::
  "msg_oracle \<Rightarrow> u64 option \<times> SharedMemoryPoolQueue option \<times> proxy \<Rightarrow>
   (int \<times> u64 option \<times> SharedMemoryPoolQueue option \<times> proxy) option" where
  "read_and_process orc s = (case s of (ptr, rx, px) \<Rightarrow>
     let m = te_mem (be_tx (st_eng (px_backend px)));
         ptr' = (case shared_mem_pool_queue_recv_zc rx True True of (_, Some a, _) \<Rightarrow> Some a | _ \<Rightarrow> ptr);
         (ret, rx', _) = backend_engine_rx_queue_get rx (PROXY_MSG_HDR_SIZE + 4088) True m
     in case ptr' of
          None \<Rightarrow> None
        | Some a \<Rightarrow> map_option (\<lambda>(_, px'). (ret, ptr', rx', px'))
            (backend_proxy_msg_process orc (read_bytes m a (PROXY_MSG_HDR_SIZE + 4088)) px))"

definition test_proxy_scenario_msg_read_from_rx_queue ::
  "(nat \<Rightarrow> msg_oracle) \<Rightarrow> SharedMemoryPoolQueue option \<Rightarrow> proxy \<Rightarrow> (int \<times> SharedMemoryPoolQueue option \<times> proxy) option" where
  "test_proxy_scenario_msg_read_from_rx_queue orc rx px =
     (if rx = None then Some (BACKEND_PROXY_PROCESS_ERROR, rx, px)
      else do {
        (_, s) \<leftarrow> read_and_process (orc 0) (None, rx, px);
        (_, s) \<leftarrow> read_and_process (orc 1) s;
        (_, s) \<leftarrow> read_and_process (orc 2) s;
        (ret, ptr, rx', px') \<leftarrow> read_and_process (orc 3) s;
        Some (ret, rx', px') })"

text \<open>The result is that of the last session, \<open>ret\<close> is its value before the loop.\<close>

fun scenario_f2b_loop :: "run_oracle \<Rightarrow> nat list \<Rightarrow> int \<Rightarrow> backend \<Rightarrow> (int \<times> backend) option" where
  "scenario_f2b_loop orc [] ret st = Some (ret, st)"
| "scenario_f2b_loop orc (p # ps) ret st = do {
     (ret, st1) \<leftarrow> high_speed_data_process_f2b (ro_sndbuf orc p) (ro_send orc p) p st;
     st2 \<leftarrow> (if ret = BACKEND_PROXY_PROCESS_OK then unlink_done p F2B st1 else Some st1);
     st3 \<leftarrow> (if ret = BACKEND_PROXY_PROCESS_ERROR then unlink_failed (ro_del_ok orc p) p F2B st2 else Some st2);
     scenario_f2b_loop orc ps ret st3 }"

definition test_proxy_scenario_process_active_f2b_sess_queue :: "run_oracle \<Rightarrow> int \<Rightarrow> backend \<Rightarrow> (int \<times> backend) option" where
  "test_proxy_scenario_process_active_f2b_sess_queue orc uninit st = scenario_f2b_loop orc (sp_queue_f2b (st_pool st)) uninit st"

definition test_proxy_scenario_msg_read_from_poller ::
  "nat \<Rightarrow> (u32 \<times> nat \<times> int option \<times> (nat \<Rightarrow> read_round)) list \<Rightarrow> backend \<Rightarrow> backend option" where
  "test_proxy_scenario_msg_read_from_poller fuel events st = poller_run fuel events st"

fun scenario_b2f_loop :: "nat list \<Rightarrow> int \<Rightarrow> backend \<Rightarrow> (int \<times> backend) option" where
  "scenario_b2f_loop [] ret st = Some (ret, st)"
| "scenario_b2f_loop (p # ps) ret st = do {
     (ret, st1) \<leftarrow> high_speed_data_process_b2f p st;
     st2 \<leftarrow> (if ret = BACKEND_PROXY_PROCESS_OK then unlink_done p B2F st1 else Some st1);
     scenario_b2f_loop ps ret st2 }"

text \<open>The treatment of an error stands behind the loop, where \<open>cur_sess\<close> is NULL.\<close>

definition test_proxy_scenario_process_active_b2f_sess_queue :: "int \<Rightarrow> backend \<Rightarrow> (int \<times> backend) option" where
  "test_proxy_scenario_process_active_b2f_sess_queue uninit st = do {
     (ret, st1) \<leftarrow> scenario_b2f_loop (sp_queue_b2f (st_pool st)) uninit st;
     if ret = BACKEND_PROXY_PROCESS_ERROR then None else Some (BACKEND_PROXY_PROCESS_OK, st1) }"


section \<open>Lemmas\<close>

text \<open>What the builder makes of the fixed messages.\<close>

lemma fixed_messages:
  "build_inner_message dev_enable_msg_hdr (put_u16 0xFF) 2
     = Some (BACKEND_PROXY_PROCESS_OK, 10, gh_inner_header dev_enable_msg_hdr @ put_u16 0xFF)"
  "build_inner_message strgy_set_msg_hdr (put_u16 0) 2
     = Some (BACKEND_PROXY_PROCESS_OK, 10, gh_inner_header strgy_set_msg_hdr @ put_u16 0)"
  "build_inner_message sess_create_msg_hdr test_params 10
     = Some (BACKEND_PROXY_PROCESS_OK, 10, gh_inner_header sess_create_msg_hdr @ test_params)"
  "build_inner_message (proxy_data_msg_hdr 8) test_msg 8 = Some (BACKEND_PROXY_PROCESS_OK, 0, test_msg)"
  by code_simp+

text \<open>A message that can be built is stored in the next free slot of the queue.\<close>

lemma inject_stores:
  assumes "shm_inv vb cap bs q" "length (shm_contents q m) < unat cap - 1" "te_mem_pool env"
    and "build_inner_message h p (length p) = Some (BACKEND_PROXY_PROCESS_OK, prefix, inner)"
  shows "\<exists>addr q'. inject_shared h p env (Some q) = Some (BACKEND_PROXY_PROCESS_OK,
       Some (env\<lparr>te_mem := store_bytes (te_mem env) addr (outer_message h prefix (length p) inner)\<rparr>), Some q', Some addr)
    \<and> SHM_POOL_QUEUE_HEAD_ROLLBACK (Some q') = Some q"
proof -
  obtain addr q' where A: "SHM_POOL_QUEUE_ALLOC_FROM_HEADER (Some q) = (Some addr, Some q')"
    "addr \<noteq> ERROR_SHARED_MEM_ADDR" "SHM_POOL_QUEUE_HEAD_ROLLBACK (Some q') = Some q"
    using shm_alloc_rollback [OF assms(1), of m] assms(2) by auto
  then show ?thesis
    using assms(3,4)
    by (simp add: inject_shared_def scenario_msg_inject_def build_proxy_general_message_def build_shared_def Let_def)
qed

text \<open>The report is refused, and the refusal takes back a slot of the receive queue that was never taken.\<close>

lemma report_refused:
  assumes "te_mem_pool env" "te_hyper_tx_queue env = Some txq"
  shows "\<exists>env'. device_msg_inject_backend_hyperamp env (Some q)
    = Some (BACKEND_PROXY_PROCESS_ERROR, Some env', SHM_POOL_QUEUE_HEAD_ROLLBACK (Some q), None)"
proof -
  have "build_inner_message dev_enable_msg_hdr ([SESS_OP_STATUS_SUCCESS, SESS_OP_CODE_SUCCESS] @ put_u16 0xFF) 4
      = Some (BACKEND_PROXY_PROCESS_ERROR, 10, [])" by code_simp
  then show ?thesis
    using assms by (simp add: device_msg_inject_backend_hyperamp_def scenario_msg_inject_def build_proxy_general_message_def
        build_ampqueue_def Let_def proxy_codes)
qed

text \<open>The scenario moves data of the frontend exactly as the main loop does.\<close>

lemma scenario_f2b_is_step2:
  "map_option snd (scenario_f2b_loop orc ps ret st) = f2b_pass orc ps st"
proof (induction ps arbitrary: ret st)
  case (Cons p ps)
  show ?case
  proof (cases "high_speed_data_process_f2b (ro_sndbuf orc p) (ro_send orc p) p st")
    case (Some x)
    obtain r st1 where x: "x = (r, st1)" by (cases x)
    have "BACKEND_PROXY_PROCESS_OK \<noteq> BACKEND_PROXY_PROCESS_ERROR" by (simp add: proxy_codes)
    then show ?thesis
      using Some x Cons.IH
      by (cases "unlink_done p F2B st1"; cases "unlink_failed (ro_del_ok orc p) p F2B st1") auto
  qed simp
qed simp

text \<open>While every session delivers all its data, the other direction does so too.\<close>

fun all_delivered :: "nat list \<Rightarrow> backend \<Rightarrow> bool" where
  "all_delivered [] st = True"
| "all_delivered (p # ps) st = (case high_speed_data_process_b2f p st of
     Some (ret, st1) \<Rightarrow> ret = BACKEND_PROXY_PROCESS_OK
       \<and> (case unlink_done p B2F st1 of Some st2 \<Rightarrow> all_delivered ps st2 | None \<Rightarrow> False)
   | None \<Rightarrow> False)"

lemma scenario_b2f_is_step4:
  assumes "all_delivered ps st" "ret = BACKEND_PROXY_PROCESS_OK"
  shows "\<exists>st'. b2f_pass orc ps st = Some st' \<and> scenario_b2f_loop ps ret st = Some (BACKEND_PROXY_PROCESS_OK, st')"
  using assms
proof (induction ps arbitrary: st ret)
  case (Cons p ps)
  obtain st1 st2 where "high_speed_data_process_b2f p st = Some (BACKEND_PROXY_PROCESS_OK, st1)" "unlink_done p B2F st1 = Some st2"
    "all_delivered ps st2" using Cons.prems(1) by (auto split: option.splits prod.splits)
  then show ?case using Cons.IH [of st2] by (simp add: proxy_codes)
qed simp

text \<open>A last session that fails ends the function at the null pointer.\<close>

lemma scenario_b2f_error_crashes:
  assumes "scenario_b2f_loop (sp_queue_b2f (st_pool st)) uninit st = Some (BACKEND_PROXY_PROCESS_ERROR, st')"
  shows "test_proxy_scenario_process_active_b2f_sess_queue uninit st = None"
  using assms by (simp add: test_proxy_scenario_process_active_b2f_sess_queue_def)

end
