(* ===== verification/Spec2Isabelle.thy ===== *)
theory Spec2Isabelle
  imports Hyperamp_Spinlock Engine_Setup_Lemmas Engine_Shutdown Uthash_Lemmas Device_Stats Net_Channel Pool_Queue_Setup Config_Dump Xdp_Run Protocol_Start Can_Device Bt_Device Modbus_Device Scenario_Test
begin

text \<open>
  Verification of the HighSpeedCProxy backend.

  \<^bold>\<open>The program.\<close>  A backend process on Linux serves a frontend on another operating system of the
  same machine.  Both share a channel of physical memory that holds two ring queues and a data
  region.  The frontend sends proxy messages: commands for network devices, for the selection
  strategy, for sessions, and data.  The backend opens sockets in network namespaces on behalf of
  the frontend, moves data in both directions and also serves Bluetooth, CAN and Modbus TCP devices.

  \<^bold>\<open>Parts and theories.\<close>  Paths are below \<open>src/\<close>.

  \<^item> \<open>Prelude\<close>: machine words, bytes and little-endian memory, ring arithmetic, result codes.
    \<open>Queue_Interface\<close>: the contract of a bounded FIFO as a locale.  \<open>Keyed_Table\<close>: the contract
    of a lookup table and of one table implementing another, as locales.  \<open>Ring_Memory\<close>: blocks of a
    ring in byte memory.
  \<^item> \<open>Hyperamp_Queue\<close> (\<open>src/hyperamp_shm_queue.c\<close>): the ring queue in shared memory, once as a
    record and once at the bytes \<open>hyperamp_queue_init\<close> writes.  \<open>Hyperamp_Spinlock\<close>: the lock
    of the queue as an interleaving of instructions.  \<open>Hyperamp_Init\<close>: mapping a channel and
    creating its queues.
  \<^item> \<open>Shm_Pool_Queue\<close> (\<open>src/shm_pool_queue.c\<close> and its header): the older queue over a memory pool.
  \<^item> \<open>Message\<close> (\<open>include/message.h\<close>): packed headers, addresses and validity macros.
    \<open>Message_Builder\<close> (\<open>src/backend_proto.c\<close>): composing messages for the frontend.
  \<^item> \<open>Backend_State\<close> (\<open>include/session.h\<close>, \<open>dev.h\<close>, \<open>session_pool.h\<close>, \<open>engine.h\<close>): message segments,
    sessions, devices, pool and engine.  Sessions and session nodes live in stores indexed by
    addresses; \<open>None\<close> at an address means that it was never allocated or has been freed, and an
    operation that follows such a pointer has the result \<open>None\<close>.  Calls to the kernel that are
    visible outside (sending, closing, epoll registration) are recorded in a trace.
  \<^item> \<open>Netns_Socket\<close> (\<open>src/netns_socket.c\<close>): opening and connecting sockets in a namespace.
    \<open>Dev_Selector\<close>, \<open>Engine_Queue\<close> (\<open>src/engine.c\<close>): choosing a device, access to the queues.
  \<^item> \<open>Session_Pool\<close>, \<open>Session_Lemmas\<close>, \<open>Session_Data\<close> (\<open>src/session_pool.c\<close>): creating, finding and
    deleting sessions; moving their data.
  \<^item> \<open>Iot_Session\<close> (\<open>src/session.c\<close>): sending to and receiving from IoT devices.
  \<^item> \<open>Backend_Proto\<close>, \<open>Proto_Lemmas\<close> (\<open>src/backend_proto.c\<close>): checking and dispatching messages.
  \<^item> \<open>Engine_Run\<close>, \<open>Engine_Lemmas\<close>, \<open>Engine_Attach\<close> (\<open>src/engine.c\<close>): the main loop and the
    attachment of the engine to a channel.
  \<^item> \<open>Uthash\<close>, \<open>Uthash_Lemmas\<close> (\<open>include/uthash.h\<close>): the hash table behind the session table, with its
    hash function, chains and doubling.
  \<^item> \<open>Dictionary\<close> (\<open>src/dictionary.c\<close>), \<open>Ini_Parser\<close>, \<open>Ini_Lemmas\<close> (\<open>src/iniparser.c\<close>): the dictionary,
    and configuration files read into it and written from it.
  \<^item> \<open>Iot_Config\<close>, \<open>Iot_Config_Lemmas\<close>, \<open>Hs_Device_Config\<close>, \<open>Hs_Device_Lemmas\<close> (\<open>src/engine.c\<close>): the table
    of IoT devices and the set of network devices built from the configuration.
  \<^item> \<open>Iot_Startup\<close> (\<open>src/session.c\<close>, \<open>src/engine.c\<close>): opening the sessions of the IoT devices.
    \<open>Engine_Setup\<close>, \<open>Engine_Setup_Lemmas\<close>, \<open>Engine_Shutdown\<close> (\<open>src/engine.c\<close>, \<open>src/main.c\<close>): start, TCP
    listener, end of the engine and the entry point.
  \<^item> \<open>Message_Dump\<close> (\<open>src/common_utils.c\<close>): printing messages, with the reads it performs.  \<open>Config_Dump\<close>:
    printing and releasing a dictionary.
  \<^item> \<open>Net_Channel\<close> (\<open>src/poller.c\<close>), \<open>Pool_Queue_Setup\<close> (\<open>src/engine.c\<close>), \<open>Device_Stats\<close> (\<open>src/rtt_stats.c\<close>,
    \<open>src/ethtool_stats.c\<close>): parts of the program the entry point does not reach: channels with callbacks,
    the queues over the memory pool, measurements.
  \<^item> \<open>Node_Ownership\<close>, \<open>Protocol_Run\<close>, \<open>Protocol_Start\<close>: the session protocol as a whole.  The abstract
    protocol has a list of free ids and a map from ids to sessions; the dispatcher, the pool and the
    devices implement it over sequences of commands, and a started engine is in its first state.
  \<^item> \<open>Xsk_Ring\<close> (\<open>lib/libbpfdev-arm64/usr/include/bpf-0.5.0/xsk.h\<close>): the rings of an AF_XDP socket.
    \<open>Xdp_Sample\<close>, \<open>Xdp_Lemmas\<close>, \<open>Xdp_Run\<close> (\<open>xdp/\<close>): the program that receives packets through them.  The
    kernel may act between any two accesses; its contract is \<open>kernel_ok\<close>, and the locale
    \<open>environment_contract\<close> carries a state over such a turn, once for receiving and once for sending.
  \<^item> \<open>Can_Device\<close> (\<open>can/\<close>), \<open>Bt_Device\<close> (\<open>bt/\<close>), \<open>Modbus_Device\<close> (\<open>modbusTCP/\<close>): the simulated devices the
    backend exchanges messages with, and their test clients.
  \<^item> \<open>Scenario_Test\<close> (\<open>senario_src/\<close>): the scenario functions, which are compiled in but not called.

  \<^bold>\<open>Conventions.\<close>  What the kernel, a device, an allocator or the frontend answers is an argument
  of the definition that asks: a code, bytes, a flag, or a function from the number of the call to
  its answer.  The model returns the codes of the source.  Integers keep their width where the code
  relies on it.  \<open>None\<close> as the result of an operation means that the code does not return, follows
  a pointer to freed memory or leaves an array.

  \<^bold>\<open>What is shown.\<close>
  \<^item> Queues: both ring queues refine the bounded FIFO for every sequence of operations, on every
    branch; creation establishes the invariant; the zero-copy path equals the copying path; the
    ARM64 lock excludes, the portable one does not.
  \<^item> Channel: the creator leaves two fresh queues and a cleared region, the engine finds them; the
    shared data region lets a transmission overwrite a pending message.
  \<^item> Messages: what a builder accepts decodes to the same header and payload; responses reach the
    transmit queue.
  \<^item> Sessions: creation enters a session under a fresh id, a failed creation restores the pool,
    deletion undoes creation, a fresh pool hands out every id once; the exceptional paths on which
    a session dangles or data is lost are stated as such.  The hash table refines the session table:
    it holds the same entries in the same order and every lookup agrees, unless memory was refused.
  \<^item> Protocol: create, data and close messages do what they announce, messages that are refused
    change nothing, a length that exceeds the buffer is not refused.  Over any sequence of open, data
    and close commands the backend answers as the abstract protocol does and conserves the session
    ids, from the state \<open>engine_init\<close> leaves on; what each command needs from outside (room for the
    answer, memory, a usable device) is the hypothesis \<open>all_granted\<close>.
  \<^item> Engine: in one pass data of the frontend reaches the socket and data of a socket reaches the
    frontend; Bluetooth packets are forwarded in order, a Modbus request is answered once.
  \<^item> Configuration: the dictionary refines a map; loading ends on every file; what is dumped is
    loaded again as the same entries; the device tables hold exactly the accepted sections, in the
    order of the file and with values in range; a refused network device leaves no nodes behind and
    ends the program.
  \<^item> Life of the engine: a started engine satisfies what the main loop and the sessions rely on, the
    first configured device of each kind gets its IoT session, an accepted connection is announced to
    the frontend, and shutting down releases the sessions and nodes of the devices.
  \<^item> Unreached parts: a failed registration of a channel cannot be repeated, the pool queues are
    created without their pool, the counters kept are the counters printed by \<open>ethtool\<close>.
  \<^item> AF_XDP: with every interleaving of the kernel no frame is lost or owned twice and what is shown is
    what was delivered; the sending loop never leaves its first 64 frames.
  \<^item> Devices: a CAN message is answered once, Bluetooth packets come back in order, a Modbus client
    reads back what it wrote to a device that keeps it.
  \<^item> Printing: the summary of a message, which both ends of a queue print, and the dump of its
    content read inside the announced bytes; the summary of an IoT message does not.

  \<^bold>\<open>Loops.\<close>  Loops that wait for another party or may run forever carry a bound on the number of
  rounds and give \<open>None\<close> when it is used up.  Theorems about them show either that a bound of the
  size of the input (queued segments, announced bytes, waiting messages) is enough for a result, or
  that no bound is.  The endless loops of the AF_XDP program and of the devices are their first \<open>n\<close>
  rounds, or the rounds given by a list of answers of the kernel.  The ring queues, the builders, the hash table and the parser recurse over
  their data; the search for a free slot of the dictionary gets the number of slots as its bound.

  \<^bold>\<open>Not modelled.\<close>  Functions that do nothing but return a code (ZigBee, LoRa and POWERLINK sessions,
  the response generators, the fast path) are listed with their components.  Of \<open>uthash.h\<close> the macros
  the program does not expand are left out, of \<open>iniparser.c\<close> the reading of floating-point numbers and
  the error callback.  Debug output is modelled only in \<open>Message_Dump\<close>, where its reads matter.  Caches
  and memory barriers of the queues and rings are not modelled beyond the order of instructions in
  \<open>Hyperamp_Spinlock\<close>.  Code disabled by the preprocessor is left out, and so are the vendored libraries
  below \<open>lib/\<close> but for the functions of \<open>xsk.h\<close>.
\<close>

end
